(* ===== verification/Prelude.thy ===== *)
theory Prelude
  imports Main "HOL-Library.Word" "HOL-Library.Multiset"
begin

text \<open>
  Shared vocabulary of the development: the fixed-width integers of the C++ code, the
  undefined behaviours a step of the code can run into (as values of an error type), the
  sequencing of fallible steps, the narrowing of 64-bit times to \<^verbatim>\<open>int\<close>, 4-byte padding,
  the stable sort of the standard library, and the generic lemmas the components share.
\<close>

unbundle bit_operations_syntax

named_theorems codec_simps \<open>laws of the byte codec, oriented for simplification\<close>
named_theorems res_simps \<open>equations for sequencing fallible steps\<close>

subsection \<open>Machine types\<close>

type_synonym byte = "8 word"
type_synonym u16 = "16 word"
type_synonym u32 = "32 word"
type_synonym u64 = "64 word"

text \<open>A \<^verbatim>\<open>std::string\<close> on the wire side of the program is a sequence of bytes; literals of the
  source become byte strings through the ASCII code of each character.\<close>

type_synonym bytes = "byte list"

definition bytes_of :: "string \<Rightarrow> bytes" where
  "bytes_of s = map of_char s"

text \<open>The value an \<^verbatim>\<open>int64_t\<close> takes when the code stores it in an \<^verbatim>\<open>int\<close>.\<close>

definition to_i32 :: "int \<Rightarrow> int" where
  "to_i32 x = signed_take_bit 31 x"

subsection \<open>Undefined behaviour as a value\<close>

datatype ub = Out_of_bounds | Use_after_free | Double_free | Null_deref | Bad_cast
  | Uncaught_exception | Diverges

type_synonym 'a res = "ub + 'a"

definition res_bind :: "'a res \<Rightarrow> ('a \<Rightarrow> 'b res) \<Rightarrow> 'b res" where
  "res_bind m f = (case m of Inl e \<Rightarrow> Inl e | Inr x \<Rightarrow> f x)"

fun res_fold :: "('x \<Rightarrow> 's \<Rightarrow> 's res) \<Rightarrow> 'x list \<Rightarrow> 's \<Rightarrow> 's res" where
  "res_fold f [] s = Inr s"
| "res_fold f (x # xs) s = res_bind (f x s) (res_fold f xs)"

lemma res_bind_Inl [simp, res_simps]: "res_bind (Inl e) f = Inl e"
  by (simp add: res_bind_def)

lemma res_bind_Inr [simp, res_simps]: "res_bind (Inr x) f = f x"
  by (simp add: res_bind_def)

lemma res_bind_eq_Inr: "res_bind m f = Inr y \<longleftrightarrow> (\<exists>x. m = Inr x \<and> f x = Inr y)"
  by (cases m) auto

lemma res_bind_eq_Inl: "res_bind m f = Inl e \<longleftrightarrow> m = Inl e \<or> (\<exists>x. m = Inr x \<and> f x = Inl e)"
  by (cases m) auto

lemma res_bind_cong [fundef_cong]:
  "m = m' \<Longrightarrow> (\<And>x. m' = Inr x \<Longrightarrow> f x = g x) \<Longrightarrow> res_bind m f = res_bind m' g"
  by (cases m') auto

text \<open>A loop over a range that stops at the first element a fallible test accepts.\<close>

fun res_exists :: "('x \<Rightarrow> bool res) \<Rightarrow> 'x list \<Rightarrow> bool res" where
  "res_exists p [] = Inr False"
| "res_exists p (x # xs) = res_bind (p x) (\<lambda>b. if b then Inr True else res_exists p xs)"

fun res_map :: "('x \<Rightarrow> 'y res) \<Rightarrow> 'x list \<Rightarrow> 'y list res" where
  "res_map f [] = Inr []"
| "res_map f (x # xs) = res_bind (f x) (\<lambda>y. res_bind (res_map f xs) (\<lambda>ys. Inr (y # ys)))"

lemma res_exists_total:
  "(\<And>x. x \<in> set xs \<Longrightarrow> p x = Inr (q x)) \<Longrightarrow> res_exists p xs = Inr (\<exists>x\<in>set xs. q x)"
  by (induction xs) auto

lemma res_map_total:
  "(\<And>x. x \<in> set xs \<Longrightarrow> f x = Inr (g x)) \<Longrightarrow> res_map f xs = Inr (map g xs)"
  by (induction xs) auto

lemma res_fold_total:
  "(\<And>x s. x \<in> set xs \<Longrightarrow> f x s = Inr (g x s)) \<Longrightarrow> res_fold f xs s = Inr (fold g xs s)"
  by (induction xs arbitrary: s) auto

text \<open>An invariant that every step of a fold keeps holds of its result.\<close>

lemma res_fold_invariant:
  assumes "res_fold f xs s = Inr s'" and "P s"
    and "\<And>x s s'. x \<in> set xs \<Longrightarrow> P s \<Longrightarrow> f x s = Inr s' \<Longrightarrow> P s'"
  shows "P s'"
  using assms
proof (induction xs arbitrary: s)
  case Nil
  then show ?case by simp
next
  case (Cons x xs)
  from Cons.prems(1) obtain s1 where s1: "f x s = Inr s1" "res_fold f xs s1 = Inr s'"
    by (auto simp: res_bind_eq_Inr)
  have "P s1" using Cons.prems(2,3) s1(1) by auto
  then show ?case using Cons.IH [OF s1(2)] Cons.prems(3) by auto
qed

subsection \<open>Padding to a multiple of four\<close>

definition pad4 :: "nat \<Rightarrow> nat" where
  "pad4 n = (if n mod 4 = 0 then 0 else 4 - n mod 4)"

lemma pad4_less [simp]: "pad4 n < 4"
  by (simp add: pad4_def)

lemma pad4_dvd [simp]: "4 dvd n + pad4 n"
  unfolding pad4_def by presburger

lemma pad4_0 [simp]: "4 dvd n \<Longrightarrow> pad4 n = 0"
  by (simp add: pad4_def dvd_eq_mod_eq_0)

subsection \<open>The stable sort of the standard library\<close>

text \<open>
  \<^verbatim>\<open>absl::c_stable_sort\<close> forwards to \<^verbatim>\<open>std::stable_sort\<close>: for a strict weak order \<open>lt\<close> the
  result is sorted and elements that are equivalent keep their order.  Insertion from the
  left of the later part gives that list.
\<close>

fun stable_insert :: "('a \<Rightarrow> 'a \<Rightarrow> bool) \<Rightarrow> 'a \<Rightarrow> 'a list \<Rightarrow> 'a list" where
  "stable_insert lt x [] = [x]"
| "stable_insert lt x (y # ys) =
     (if lt y x then y # stable_insert lt x ys else x # y # ys)"

fun stable_sort :: "('a \<Rightarrow> 'a \<Rightarrow> bool) \<Rightarrow> 'a list \<Rightarrow> 'a list" where
  "stable_sort lt [] = []"
| "stable_sort lt (x # xs) = stable_insert lt x (stable_sort lt xs)"

lemma mset_stable_insert [simp]: "mset (stable_insert lt x xs) = add_mset x (mset xs)"
  by (induction xs) auto

lemma mset_stable_sort [simp]: "mset (stable_sort lt xs) = mset xs"
  by (induction xs) auto

lemma set_stable_sort [simp]: "set (stable_sort lt xs) = set xs"
  using mset_stable_sort [of lt xs] by (metis set_mset_mset)

lemma length_stable_sort [simp]: "length (stable_sort lt xs) = length xs"
  using mset_stable_sort [of lt xs] by (metis size_mset)

lemma distinct_stable_sort [simp]: "distinct (stable_sort lt xs) \<longleftrightarrow> distinct xs"
  using mset_stable_sort [of lt xs] mset_eq_imp_distinct_iff by blast

lemma stable_sort_eq_Nil [simp]: "stable_sort lt xs = [] \<longleftrightarrow> xs = []"
  using length_stable_sort [of lt xs] by (metis length_0_conv)

lemma stable_insert_map:
  "stable_insert lt (f x) (map f xs) = map f (stable_insert (\<lambda>a b. lt (f a) (f b)) x xs)"
  by (induction xs) auto

lemma stable_sort_map: "stable_sort lt (map f xs) = map f (stable_sort (\<lambda>a b. lt (f a) (f b)) xs)"
  by (induction xs) (auto simp: stable_insert_map)

text \<open>The contract a comparator owes to the sort, and what the sort then promises.\<close>

locale strict_weak_order =
  fixes lt :: "'a \<Rightarrow> 'a \<Rightarrow> bool" and A :: "'a set"
  assumes irrefl: "x \<in> A \<Longrightarrow> \<not> lt x x"
    and trans: "x \<in> A \<Longrightarrow> y \<in> A \<Longrightarrow> z \<in> A \<Longrightarrow> lt x y \<Longrightarrow> lt y z \<Longrightarrow> lt x z"
    and incomp_trans: "x \<in> A \<Longrightarrow> y \<in> A \<Longrightarrow> z \<in> A \<Longrightarrow>
      \<not> lt x y \<Longrightarrow> \<not> lt y z \<Longrightarrow> \<not> lt x z"
begin

lemma asym: "x \<in> A \<Longrightarrow> y \<in> A \<Longrightarrow> lt x y \<Longrightarrow> \<not> lt y x"
  using irrefl trans by blast

lemma set_stable_insert: "set (stable_insert lt x xs) = insert x (set xs)"
  by (induction xs) auto

lemma sorted_insert:
  assumes "x \<in> A" "set xs \<subseteq> A" "sorted_wrt (\<lambda>a b. \<not> lt b a) xs"
  shows "sorted_wrt (\<lambda>a b. \<not> lt b a) (stable_insert lt x xs)"
  using assms
proof (induction xs)
  case Nil
  then show ?case by simp
next
  case (Cons y ys)
  have y: "y \<in> A" and ys: "set ys \<subseteq> A" using Cons.prems by auto
  show ?case
  proof (cases "lt y x")
    case True
    then have "\<not> lt x y" using asym y Cons.prems(1) by blast
    with True Cons ys show ?thesis by (auto simp: set_stable_insert)
  next
    case False
    have "\<not> lt z x" if "z \<in> set ys" for z
    proof -
      have "\<not> lt z y" using Cons.prems(3) that by simp
      then show ?thesis using incomp_trans [of z y x] that ys y Cons.prems(1) False by auto
    qed
    with False Cons.prems show ?thesis by auto
  qed
qed

lemma sorted_sort:
  "set xs \<subseteq> A \<Longrightarrow> sorted_wrt (\<lambda>a b. \<not> lt b a) (stable_sort lt xs)"
  by (induction xs) (auto intro!: sorted_insert)

lemma filter_insert_equiv:
  assumes "x \<in> A" "set xs \<subseteq> A" "w \<in> A"
  shows "filter (\<lambda>z. \<not> lt w z \<and> \<not> lt z w) (stable_insert lt x xs) =
         filter (\<lambda>z. \<not> lt w z \<and> \<not> lt z w) (x # xs)"
  using assms
proof (induction xs)
  case Nil
  then show ?case by simp
next
  case (Cons y ys)
  show ?case
  proof (cases "lt y x")
    case True
    have "\<not> (\<not> lt w x \<and> \<not> lt x w \<and> \<not> lt w y \<and> \<not> lt y w)"
      using incomp_trans [of y w x] True Cons.prems by auto
    with True Cons show ?thesis by auto
  next
    case False
    then show ?thesis by simp
  qed
qed

lemma stable_sort_stable:
  assumes "set xs \<subseteq> A" "w \<in> A"
  shows "filter (\<lambda>z. \<not> lt w z \<and> \<not> lt z w) (stable_sort lt xs) =
         filter (\<lambda>z. \<not> lt w z \<and> \<not> lt z w) xs"
  using assms
proof (induction xs)
  case Nil
  then show ?case by simp
next
  case (Cons x xs)
  then have "set (stable_sort lt xs) \<subseteq> A" by simp
  then have "filter (\<lambda>z. \<not> lt w z \<and> \<not> lt z w) (stable_insert lt x (stable_sort lt xs)) =
      filter (\<lambda>z. \<not> lt w z \<and> \<not> lt z w) (x # stable_sort lt xs)"
    using Cons.prems by (intro filter_insert_equiv) auto
  with Cons show ?case by simp
qed

lemma sort_head_least:
  assumes "set xs \<subseteq> A" "stable_sort lt xs = y # ys" "z \<in> set xs"
  shows "\<not> lt z y"
proof -
  have "sorted_wrt (\<lambda>a b. \<not> lt b a) (y # ys)" using sorted_sort [OF assms(1)] assms(2) by simp
  moreover have "z = y \<or> z \<in> set ys"
    using assms(2,3) set_stable_sort [of lt xs] by auto
  moreover have "y \<in> A" using assms(1,2) set_stable_sort [of lt xs] by auto
  ultimately show ?thesis using irrefl by auto
qed

end

end
