(* ===== verification/Rtc_Base.thy ===== *)
theory Rtc_Base
  imports Prelude
begin

text \<open>
  The program calls the \<^verbatim>\<open>rtc_base\<close> library (byte buffers, network byte order, CRC-32,
  HMAC-SHA1), whose code is not part of the repository.  Its functions are a parameter of
  the model: a record of operations that every definition calling them takes as an argument.
  A \<^verbatim>\<open>ByteBufferReader\<close> is its unread bytes, a \<^verbatim>\<open>ByteBufferWriter\<close> the bytes written so far.
  The locale \<open>byte_codec\<close> states the documented behaviour the code relies on: big-endian
  fixed-width fields, reads that fail exactly when too few bytes are left, appending writes,
  and a 20-byte SHA-1 digest.
\<close>

record rtc_base =
  GetBE16 :: "bytes \<Rightarrow> u16"
  GetBE32 :: "bytes \<Rightarrow> u32"
  SetBE16 :: "bytes \<Rightarrow> u16 \<Rightarrow> bytes"
  ReadUInt16 :: "bytes \<Rightarrow> (u16 \<times> bytes) option"
  ReadUInt32 :: "bytes \<Rightarrow> (u32 \<times> bytes) option"
  ReadUInt64 :: "bytes \<Rightarrow> (u64 \<times> bytes) option"
  ReadBytes :: "bytes \<Rightarrow> nat \<Rightarrow> (bytes \<times> bytes) option"
  Consume :: "bytes \<Rightarrow> nat \<Rightarrow> bytes option"
  WriteUInt8 :: "bytes \<Rightarrow> byte \<Rightarrow> bytes"
  WriteUInt16 :: "bytes \<Rightarrow> u16 \<Rightarrow> bytes"
  WriteUInt32 :: "bytes \<Rightarrow> u32 \<Rightarrow> bytes"
  WriteUInt64 :: "bytes \<Rightarrow> u64 \<Rightarrow> bytes"
  WriteBytes :: "bytes \<Rightarrow> bytes \<Rightarrow> bytes"
  ComputeCrc32 :: "bytes \<Rightarrow> u32"
  ComputeHmac :: "bytes \<Rightarrow> bytes \<Rightarrow> nat \<Rightarrow> bytes"

text \<open>\<open>ComputeHmac R key data n\<close> is what the call writes into an output array of \<open>n\<close> bytes; its
  return value is the length of that list.\<close>

subsection \<open>Network byte order\<close>

definition be16 :: "u16 \<Rightarrow> bytes" where
  "be16 w = [ucast (drop_bit 8 w), ucast w]"

definition be32 :: "u32 \<Rightarrow> bytes" where
  "be32 w = [ucast (drop_bit 24 w), ucast (drop_bit 16 w), ucast (drop_bit 8 w), ucast w]"

definition be64 :: "u64 \<Rightarrow> bytes" where
  "be64 w = be32 (ucast (drop_bit 32 w)) @ be32 (ucast w)"

definition de16 :: "byte \<Rightarrow> byte \<Rightarrow> u16" where
  "de16 a b = push_bit 8 (ucast a) OR ucast b"

definition de32 :: "byte \<Rightarrow> byte \<Rightarrow> byte \<Rightarrow> byte \<Rightarrow> u32" where
  "de32 a b c d = push_bit 24 (ucast a) OR push_bit 16 (ucast b) OR push_bit 8 (ucast c) OR ucast d"

lemma length_be [simp]: "length (be16 w) = 2" "length (be32 v) = 4" "length (be64 x) = 8"
  by (simp_all add: be16_def be32_def be64_def)

lemma de16_split: "de16 (ucast (drop_bit 8 w)) (ucast (w :: u16)) = w"
proof (rule bit_word_eqI)
  fix n assume "n < LENGTH(16)"
  then show "bit (de16 (ucast (drop_bit 8 w)) (ucast w)) n \<longleftrightarrow> bit w n"
    by (cases "n < 8") (auto simp: de16_def bit_simps)
qed

lemma split_de16: "ucast (drop_bit 8 (de16 a b)) = a" "ucast (de16 a b) = b"
proof -
  show "ucast (drop_bit 8 (de16 a b)) = a"
    by (rule bit_word_eqI) (auto simp: de16_def bit_simps dest: bit_imp_le_length)
  show "ucast (de16 a b) = b"
    by (rule bit_word_eqI) (auto simp: de16_def bit_simps)
qed

lemma de32_split:
  "de32 (ucast (drop_bit 24 w)) (ucast (drop_bit 16 w)) (ucast (drop_bit 8 w)) (ucast (w :: u32)) = w"
proof (rule bit_word_eqI)
  fix n assume "n < LENGTH(32)"
  then consider "n < 8" | "8 \<le> n" "n < 16" | "16 \<le> n" "n < 24" | "24 \<le> n" "n < 32" by force
  then show "bit (de32 (ucast (drop_bit 24 w)) (ucast (drop_bit 16 w)) (ucast (drop_bit 8 w)) (ucast w)) n
      \<longleftrightarrow> bit w n"
    by cases (auto simp: de32_def bit_simps)
qed

lemma byte_no_high_bit: "8 \<le> n \<Longrightarrow> \<not> bit (a :: byte) n"
  by (auto dest: bit_imp_le_length)

lemma split_de32:
  "ucast (drop_bit 24 (de32 a b c d)) = a" "ucast (drop_bit 16 (de32 a b c d)) = b"
  "ucast (drop_bit 8 (de32 a b c d)) = c" "ucast (de32 a b c d) = d"
  by (auto intro!: bit_word_eqI simp: de32_def bit_simps byte_no_high_bit)

lemma be32_de32 [simp]: "be32 (de32 a b c d) = [a, b, c, d]"
  by (simp add: be32_def split_de32)

lemma be16_de16 [simp]: "be16 (de16 a b) = [a, b]"
  by (simp add: be16_def split_de16)

lemma be16_eq_iff [simp]: "be16 v = be16 w \<longleftrightarrow> v = w"
  by (metis be16_def de16_split list.inject)

subsection \<open>The documented behaviour\<close>

locale byte_codec =
  fixes R :: rtc_base
  assumes get16: "GetBE16 R (a # b # xs) = de16 a b"
    and get32: "GetBE32 R (a # b # c # d # xs) = de32 a b c d"
    and set16: "SetBE16 R (a # b # xs) w = be16 w @ xs"
    and read16: "ReadUInt16 R (a # b # xs) = Some (de16 a b, xs)"
    and read16_short: "length xs < 2 \<Longrightarrow> ReadUInt16 R xs = None"
    and read32: "ReadUInt32 R (a # b # c # d # xs) = Some (de32 a b c d, xs)"
    and read32_short: "length xs < 4 \<Longrightarrow> ReadUInt32 R xs = None"
    and read_bytes: "ReadBytes R xs n =
      (if n \<le> length xs then Some (take n xs, drop n xs) else None)"
    and consume: "Consume R xs n = (if n \<le> length xs then Some (drop n xs) else None)"
    and write8: "WriteUInt8 R buf w8 = buf @ [w8]"
    and write16: "WriteUInt16 R buf w = buf @ be16 w"
    and write32: "WriteUInt32 R buf w32 = buf @ be32 w32"
    and write64: "WriteUInt64 R buf w64 = buf @ be64 w64"
    and write_bytes: "WriteBytes R buf bs = buf @ bs"
    and hmac_length: "length (ComputeHmac R key data 20) = 20"
begin

lemmas codec = get16 get32 set16 read16 read16_short read32 read32_short read_bytes consume
  write8 write16 write32 write64 write_bytes hmac_length

lemma get16_be16: "GetBE16 R (be16 w @ xs) = w"
  by (simp add: be16_def get16 de16_split)

lemma get32_be32: "GetBE32 R (be32 v @ xs) = v"
  by (simp add: be32_def get32 de32_split)

lemma read16_be16: "ReadUInt16 R (be16 w @ xs) = Some (w, xs)"
  by (simp add: be16_def read16 de16_split)

lemma read32_be32: "ReadUInt32 R (be32 v @ xs) = Some (v, xs)"
  by (simp add: be32_def read32 de32_split)

lemma read16_Some_length: "ReadUInt16 R xs = Some (w, ys) \<Longrightarrow> length xs = length ys + 2"
proof -
  assume a: "ReadUInt16 R xs = Some (w, ys)"
  then have "\<not> length xs < 2" using read16_short [of xs] by auto
  then obtain x y zs where "xs = x # y # zs" by (metis One_nat_def Suc_1 length_Cons
      less_2_cases_iff list.size(3) neq_Nil_conv)
  with a show ?thesis by (simp add: read16)
qed

lemma read32_Some_length: "ReadUInt32 R xs = Some (v, ys) \<Longrightarrow> length xs = length ys + 4"
proof -
  assume a: "ReadUInt32 R xs = Some (v, ys)"
  then have "4 \<le> length xs" using read32_short [of xs] by (cases "length xs < 4") auto
  then obtain p q r s zs where "xs = p # q # r # s # zs"
    by (metis Suc_le_length_iff numeral_eq_Suc pred_numeral_simps(2,3) semiring_norm(26,27))
  with a show ?thesis by (simp add: read32)
qed

end

subsection \<open>A reference instance\<close>

text \<open>
  Big-endian fields on lists, the reflected CRC-32 of IEEE 802.3 computed bit by bit, and a
  keyed 20-byte digest.  It shows that the laws can hold together and gives the concrete
  inputs of the witnesses something to run on; no property depends on it.
\<close>

fun crc32_bits :: "nat \<Rightarrow> u32 \<Rightarrow> u32" where
  "crc32_bits 0 c = c"
| "crc32_bits (Suc n) c =
     crc32_bits n (if bit c 0 then drop_bit 1 c XOR 0xEDB88320 else drop_bit 1 c)"

definition crc32_ref :: "bytes \<Rightarrow> u32" where
  "crc32_ref bs = NOT (fold (\<lambda>b c. crc32_bits 8 (c XOR ucast b)) bs (NOT 0))"

definition digest_ref :: "bytes \<Rightarrow> bytes \<Rightarrow> nat \<Rightarrow> bytes" where
  "digest_ref key data n =
     (if n < 20 then [] else concat (replicate 5 (be32 (crc32_ref (key @ data)))))"

definition rtc_ref :: rtc_base where
  "rtc_ref = \<lparr>
     GetBE16 = (\<lambda>bs. case bs of a # b # _ \<Rightarrow> de16 a b | _ \<Rightarrow> 0),
     GetBE32 = (\<lambda>bs. case bs of a # b # c # d # _ \<Rightarrow> de32 a b c d | _ \<Rightarrow> 0),
     SetBE16 = (\<lambda>bs w. be16 w @ drop 2 bs),
     ReadUInt16 = (\<lambda>bs. case bs of a # b # r \<Rightarrow> Some (de16 a b, r) | _ \<Rightarrow> None),
     ReadUInt32 = (\<lambda>bs. case bs of a # b # c # d # r \<Rightarrow> Some (de32 a b c d, r) | _ \<Rightarrow> None),
     ReadUInt64 = (\<lambda>bs. case bs of a # b # c # d # e # f # g # h # r \<Rightarrow>
         Some (push_bit 32 (ucast (de32 a b c d)) OR ucast (de32 e f g h), r) | _ \<Rightarrow> None),
     ReadBytes = (\<lambda>bs n. if n \<le> length bs then Some (take n bs, drop n bs) else None),
     Consume = (\<lambda>bs n. if n \<le> length bs then Some (drop n bs) else None),
     WriteUInt8 = (\<lambda>buf w. buf @ [w]),
     WriteUInt16 = (\<lambda>buf w. buf @ be16 w),
     WriteUInt32 = (\<lambda>buf w. buf @ be32 w),
     WriteUInt64 = (\<lambda>buf w. buf @ be64 w),
     WriteBytes = (\<lambda>buf bs. buf @ bs),
     ComputeCrc32 = crc32_ref,
     ComputeHmac = digest_ref \<rparr>"

interpretation ref: byte_codec rtc_ref
  by unfold_locales
    (auto simp: rtc_ref_def digest_ref_def numeral_eq_Suc split: list.splits)

lemma byte_codec_ref: "byte_codec rtc_ref"
  by unfold_locales

end
