(* ===== verification/Stun.thy ===== *)
theory Stun
  imports Rtc_Base
begin

text \<open>
  STUN messages (\<^verbatim>\<open>src/ice/stun.h\<close>, \<^verbatim>\<open>src/ice/stun.cpp\<close>): the header and attribute
  constants, the attribute classes as one record with a tagged value, the message, and every
  operation of \<^verbatim>\<open>StunMessage\<close> and \<^verbatim>\<open>StunAttribute\<close> that reads, writes, builds or checks a
  message.  A \<^verbatim>\<open>bool\<close> result is the \<open>option\<close> inside the result; reads outside an object are
  values of \<open>ub\<close>.
\<close>

subsection \<open>Constants\<close>

definition k_stun_header_size :: nat where "k_stun_header_size = 20"
definition k_stun_attribute_header_size :: nat where "k_stun_attribute_header_size = 4"
definition k_stun_transaction_id_offset :: nat where "k_stun_transaction_id_offset = 8"
definition k_stun_transaction_id_length :: nat where "k_stun_transaction_id_length = 12"
definition k_stun_magic_cookie :: u32 where "k_stun_magic_cookie = 0x2112A442"
definition k_stun_magic_cookie_length :: nat where "k_stun_magic_cookie_length = 4"
definition k_stun_message_integrity_size :: nat where "k_stun_message_integrity_size = 20"

definition STUN_CLASS_REQUEST :: u16 where "STUN_CLASS_REQUEST = 0x000"
definition STUN_CLASS_SUCCESS_RESPONSE :: int where "STUN_CLASS_SUCCESS_RESPONSE = 0x100"
definition STUN_CLASS_ERROR_RESPONSE :: int where "STUN_CLASS_ERROR_RESPONSE = 0x110"
definition k_stun_class_mask :: u16 where "k_stun_class_mask = 0x0110"

definition STUN_BINDING_REQUEST :: u16 where "STUN_BINDING_REQUEST = 0x0001"
definition STUN_BINDING_RESPONSE :: u16 where "STUN_BINDING_RESPONSE = 0x0101"
definition STUN_BINDING_ERROR_RESPONSE :: u16 where "STUN_BINDING_ERROR_RESPONSE = 0x0111"

definition STUN_ATTR_USERNAME :: u16 where "STUN_ATTR_USERNAME = 0x0006"
definition STUN_ATTR_MESSAGE_INTEGRITY :: u16 where "STUN_ATTR_MESSAGE_INTEGRITY = 0x0008"
definition STUN_ATTR_ERROR_CODE :: u16 where "STUN_ATTR_ERROR_CODE = 0x0009"
definition STUN_ATTR_XOR_MAPPED_ADDRESS :: u16 where "STUN_ATTR_XOR_MAPPED_ADDRESS = 0x0020"
definition STUN_ATTR_PRIORITY :: u16 where "STUN_ATTR_PRIORITY = 0x0024"
definition STUN_ATTR_USE_CANDIDATE :: u16 where "STUN_ATTR_USE_CANDIDATE = 0x0025"
definition STUN_ATTR_FINGERPRINT :: u16 where "STUN_ATTR_FINGERPRINT = 0x8028"
definition STUN_ATTR_ICE_CONTROLLING :: u16 where "STUN_ATTR_ICE_CONTROLLING = 0x802A"

definition STUN_ERROR_BAD_REQUEST :: int where "STUN_ERROR_BAD_REQUEST = 400"
definition STUN_ERROR_UNAUTHORIZED :: int where "STUN_ERROR_UNAUTHORIZED = 401"
definition STUN_ERROR_SERVER_ERROR :: int where "STUN_ERROR_SERVER_ERROR = 500"
definition STUN_ERROR_GLOBAL_FAIL :: int where "STUN_ERROR_GLOBAL_FAIL = 600"

definition EMPTY_TRANSACTION_ID :: bytes where "EMPTY_TRANSACTION_ID = bytes_of ''000000000000''"
definition STUN_FINGERPRINT_XOR_VALUE :: u32 where "STUN_FINGERPRINT_XOR_VALUE = 0x5354554e"
definition STUN_ERROR_REASON_BAD_REQUEST :: bytes where
  "STUN_ERROR_REASON_BAD_REQUEST = bytes_of ''Bad Request''"
definition STUN_ERROR_REASON_UNAUTHORIZED :: bytes where
  "STUN_ERROR_REASON_UNAUTHORIZED = bytes_of ''Unauthorized''"
definition STUN_ERROR_REASON_SERVER_ERROR :: bytes where
  "STUN_ERROR_REASON_SERVER_ERROR = bytes_of ''Server Error''"

lemmas stun_sizes = k_stun_header_size_def k_stun_attribute_header_size_def
  k_stun_transaction_id_offset_def k_stun_transaction_id_length_def
  k_stun_magic_cookie_length_def k_stun_message_integrity_size_def

lemmas stun_attr_types = STUN_ATTR_USERNAME_def STUN_ATTR_MESSAGE_INTEGRITY_def
  STUN_ATTR_ERROR_CODE_def STUN_ATTR_XOR_MAPPED_ADDRESS_def STUN_ATTR_PRIORITY_def
  STUN_ATTR_USE_CANDIDATE_def STUN_ATTR_FINGERPRINT_def STUN_ATTR_ICE_CONTROLLING_def

subsection \<open>Data\<close>

datatype integrity_status = k_not_set | k_no_integrity | k_integrity_ok | k_integrity_bad

datatype addr_family = AF_UNSPEC | AF_INET | AF_INET6

text \<open>A \<^verbatim>\<open>rtc::SocketAddress\<close> as far as the code looks at it: family, the address bytes as they
  lie in \<^verbatim>\<open>in_addr\<close> / \<^verbatim>\<open>in6_addr\<close> (network order), and the port.\<close>

record socket_address =
  sa_family :: addr_family
  sa_ip :: bytes
  sa_port :: u16

datatype stun_value_type = STUN_VALUE_UNKNOWN | STUN_VALUE_UINT32 | STUN_VALUE_BYTE_STRING

text \<open>The subclasses of \<^verbatim>\<open>StunAttribute\<close>.  A byte string holds a heap array or a null pointer.\<close>

datatype attr_value =
    Byte_String "bytes option"
  | Uint32 u32
  | Uint64 u64
  | Error_Code byte byte bytes
  | Xor_Address socket_address

record stun_attribute =
  attr_type :: u16
  attr_length :: u16
  attr_value :: attr_value

record stun_message =
  msg_type :: u16
  msg_length :: u16
  msg_transaction_id :: bytes
  msg_attrs :: "stun_attribute list"
  msg_integrity :: integrity_status
  msg_password :: bytes
  msg_buffer :: bytes

definition StunMessage_new :: stun_message where
  "StunMessage_new = \<lparr> msg_type = 0, msg_length = 0, msg_transaction_id = EMPTY_TRANSACTION_ID,
     msg_attrs = [], msg_integrity = k_not_set, msg_password = [], msg_buffer = [] \<rparr>"

subsection \<open>Constructors of the attribute classes\<close>

definition copy_bytes :: "bytes \<Rightarrow> stun_attribute \<Rightarrow> stun_attribute" where
  "copy_bytes bs a = a\<lparr> attr_value := Byte_String (Some bs), attr_length := of_nat (length bs) \<rparr>"

definition StunByteStringAttribute_len :: "u16 \<Rightarrow> u16 \<Rightarrow> stun_attribute" where
  "StunByteStringAttribute_len t n = \<lparr> attr_type = t, attr_length = n, attr_value = Byte_String None \<rparr>"

definition StunByteStringAttribute_str :: "u16 \<Rightarrow> bytes \<Rightarrow> stun_attribute" where
  "StunByteStringAttribute_str t s =
     copy_bytes s \<lparr> attr_type = t, attr_length = 0, attr_value = Byte_String None \<rparr>"

definition StunUint32Attribute :: "u16 \<Rightarrow> u32 \<Rightarrow> stun_attribute" where
  "StunUint32Attribute t v = \<lparr> attr_type = t, attr_length = 4, attr_value = Uint32 v \<rparr>"

definition StunUint64Attribute :: "u16 \<Rightarrow> u64 \<Rightarrow> stun_attribute" where
  "StunUint64Attribute t v = \<lparr> attr_type = t, attr_length = 8, attr_value = Uint64 v \<rparr>"

definition stun_family :: "socket_address \<Rightarrow> nat" where
  "stun_family sa = (case sa_family sa of AF_INET \<Rightarrow> 1 | AF_INET6 \<Rightarrow> 2 | AF_UNSPEC \<Rightarrow> 0)"

definition set_address :: "socket_address \<Rightarrow> stun_attribute \<Rightarrow> stun_attribute" where
  "set_address sa a = a\<lparr> attr_value := Xor_Address sa,
     attr_length := (if stun_family sa = 1 then 8 else if stun_family sa = 2 then 20 else 0) \<rparr>"

definition StunXorAddressAttribute :: "u16 \<Rightarrow> socket_address \<Rightarrow> stun_attribute" where
  "StunXorAddressAttribute t sa =
     set_address sa \<lparr> attr_type = t, attr_length = 0, attr_value = Xor_Address sa \<rparr>"

definition create_error_code :: stun_attribute where
  "create_error_code = \<lparr> attr_type = STUN_ATTR_ERROR_CODE, attr_length = 4, attr_value = Error_Code 0 0 [] \<rparr>"

text \<open>\<^verbatim>\<open>code / 100\<close> and \<^verbatim>\<open>code % 100\<close> of a non-negative \<^verbatim>\<open>int\<close>, stored in \<^verbatim>\<open>uint8_t\<close> fields.\<close>

fun set_code :: "int \<Rightarrow> stun_attribute \<Rightarrow> stun_attribute" where
  "set_code c a = (case attr_value a of
      Error_Code _ _ r \<Rightarrow> a\<lparr> attr_value := Error_Code (word_of_int (c div 100)) (word_of_int (c mod 100)) r \<rparr>
    | _ \<Rightarrow> a)"

fun set_reason :: "bytes \<Rightarrow> stun_attribute \<Rightarrow> stun_attribute" where
  "set_reason r a = (case attr_value a of
      Error_Code c n _ \<Rightarrow> a\<lparr> attr_value := Error_Code c n r, attr_length := of_nat (4 + length r) \<rparr>
    | _ \<Rightarrow> a)"

subsection \<open>The attribute factory\<close>

definition get_attribute_value_type :: "u16 \<Rightarrow> stun_value_type" where
  "get_attribute_value_type t =
     (if t = STUN_ATTR_USERNAME \<or> t = STUN_ATTR_MESSAGE_INTEGRITY then STUN_VALUE_BYTE_STRING
      else if t = STUN_ATTR_PRIORITY then STUN_VALUE_UINT32
      else STUN_VALUE_UNKNOWN)"

text \<open>The value of a fresh \<^verbatim>\<open>StunUint32Attribute\<close> is not initialised; the model writes 0, and the
  only caller reads the value from the wire before anybody looks at it.\<close>

definition StunAttribute_create :: "stun_value_type \<Rightarrow> u16 \<Rightarrow> u16 \<Rightarrow> stun_attribute option" where
  "StunAttribute_create vt t n = (case vt of
      STUN_VALUE_BYTE_STRING \<Rightarrow> Some (StunByteStringAttribute_len t n)
    | STUN_VALUE_UINT32 \<Rightarrow> Some (StunUint32Attribute t 0)
    | STUN_VALUE_UNKNOWN \<Rightarrow> None)"

definition create_attribute :: "u16 \<Rightarrow> u16 \<Rightarrow> stun_attribute option" where
  "create_attribute t n =
     (let vt = get_attribute_value_type t
      in if vt = STUN_VALUE_UNKNOWN then None else StunAttribute_create vt t n)"

subsection \<open>Reading and writing one attribute\<close>

definition consume_padding :: "rtc_base \<Rightarrow> stun_attribute \<Rightarrow> bytes \<Rightarrow> bytes" where
  "consume_padding R a buf =
     (let remain = unat (attr_length a) mod 4
      in if remain > 0 then (case Consume R buf (4 - remain) of Some b \<Rightarrow> b | None \<Rightarrow> buf) else buf)"

definition write_padding :: "rtc_base \<Rightarrow> stun_attribute \<Rightarrow> bytes \<Rightarrow> bytes" where
  "write_padding R a buf =
     (let remain = unat (attr_length a) mod 4
      in if remain > 0 then WriteBytes R buf (replicate (4 - remain) 0) else buf)"

definition attr_read :: "rtc_base \<Rightarrow> stun_attribute \<Rightarrow> bytes \<Rightarrow> (stun_attribute \<times> bytes) option" where
  "attr_read R a buf = (case attr_value a of
      Byte_String _ \<Rightarrow>
        (case ReadBytes R buf (unat (attr_length a)) of
           None \<Rightarrow> None
         | Some (bs, rest) \<Rightarrow> Some (a\<lparr> attr_value := Byte_String (Some bs) \<rparr>, consume_padding R a rest))
    | Uint32 _ \<Rightarrow>
        (if attr_length a \<noteq> 4 then None
         else case ReadUInt32 R buf of None \<Rightarrow> None
            | Some (v, rest) \<Rightarrow> Some (a\<lparr> attr_value := Uint32 v \<rparr>, rest))
    | Uint64 _ \<Rightarrow>
        (if attr_length a \<noteq> 8 then None
         else case ReadUInt64 R buf of None \<Rightarrow> None
            | Some (v, rest) \<Rightarrow> Some (a\<lparr> attr_value := Uint64 v \<rparr>, rest))
    | Error_Code _ _ _ \<Rightarrow> None
    | Xor_Address _ \<Rightarrow> Some (a, buf))"

text \<open>\<^verbatim>\<open>v4addr.s_addr ^ HostToNetwork32(cookie)\<close>: both words hold network order, so the exclusive-or
  acts byte by byte.  IPv6 is not supported by the code: the result has no family.\<close>

definition get_xored_ip :: "socket_address \<Rightarrow> (addr_family \<times> bytes)" where
  "get_xored_ip sa = (case sa_family sa of
      AF_INET \<Rightarrow> (AF_INET, map2 (XOR) (sa_ip sa) (be32 k_stun_magic_cookie))
    | _ \<Rightarrow> (AF_UNSPEC, []))"

definition write_xor_address :: "rtc_base \<Rightarrow> socket_address \<Rightarrow> bytes \<Rightarrow> bytes option" where
  "write_xor_address R sa buf =
     (if stun_family sa = 0 then None
      else let (fam, ip) = get_xored_ip sa in
        if fam = AF_UNSPEC then None
        else let b1 = WriteUInt8 R buf 0;
                 b2 = WriteUInt8 R b1 (of_nat (stun_family sa));
                 b3 = WriteUInt16 R b2 (sa_port sa XOR ucast (drop_bit 16 k_stun_magic_cookie))
             in Some (WriteBytes R b3 ip))"

definition attr_write :: "rtc_base \<Rightarrow> stun_attribute \<Rightarrow> bytes \<Rightarrow> bytes option res" where
  "attr_write R a buf = (case attr_value a of
      Byte_String None \<Rightarrow>
        (if attr_length a = 0 then Inr (Some (write_padding R a (WriteBytes R buf []))) else Inl Null_deref)
    | Byte_String (Some bs) \<Rightarrow>
        (if length bs < unat (attr_length a) then Inl Out_of_bounds
         else Inr (Some (write_padding R a (WriteBytes R buf (take (unat (attr_length a)) bs)))))
    | Uint32 v \<Rightarrow> Inr (Some (WriteUInt32 R buf v))
    | Uint64 v \<Rightarrow> Inr (Some (WriteUInt64 R buf v))
    | Error_Code c n r \<Rightarrow>
        Inr (Some (write_padding R a
          (WriteBytes R (WriteUInt32 R buf (push_bit 8 (ucast c) OR ucast n)) r)))
    | Xor_Address sa \<Rightarrow> Inr (write_xor_address R sa buf))"

subsection \<open>Building a message\<close>

definition add_attribute :: "stun_attribute \<Rightarrow> stun_message \<Rightarrow> stun_message" where
  "add_attribute a m =
     (let attr_len = unat (attr_length a) + pad4 (unat (attr_length a))
      in m\<lparr> msg_length := msg_length m + of_nat (attr_len + k_stun_attribute_header_size),
            msg_attrs := msg_attrs m @ [a] \<rparr>)"

fun write_attrs :: "rtc_base \<Rightarrow> stun_attribute list \<Rightarrow> bytes \<Rightarrow> bytes option res" where
  "write_attrs R [] buf = Inr (Some buf)"
| "write_attrs R (a # as) buf =
     res_bind (attr_write R a (WriteUInt16 R (WriteUInt16 R buf (attr_type a)) (attr_length a)))
       (\<lambda>r. case r of None \<Rightarrow> Inr None | Some buf' \<Rightarrow> write_attrs R as buf')"

definition stun_write :: "rtc_base \<Rightarrow> stun_message \<Rightarrow> bytes \<Rightarrow> bytes option res" where
  "stun_write R m buf =
     (let b1 = WriteUInt16 R buf (msg_type m);
          b2 = WriteUInt16 R b1 (msg_length m);
          b3 = WriteUInt32 R b2 k_stun_magic_cookie;
          b4 = WriteBytes R b3 (msg_transaction_id m)
      in write_attrs R (msg_attrs m) b4)"

text \<open>The code keeps a raw pointer to the attribute it has just appended and fills its value in
  afterwards; in the list that attribute is the last one.\<close>

definition update_last_attr :: "(stun_attribute \<Rightarrow> stun_attribute) \<Rightarrow> stun_message \<Rightarrow> stun_message" where
  "update_last_attr f m =
     m\<lparr> msg_attrs := butlast (msg_attrs m) @ map f (drop (length (msg_attrs m) - 1) (msg_attrs m)) \<rparr>"

definition add_fingerprint :: "rtc_base \<Rightarrow> stun_message \<Rightarrow> (bool \<times> stun_message) res" where
  "add_fingerprint R m =
     (let m1 = add_attribute (StunUint32Attribute STUN_ATTR_FINGERPRINT 0) m
      in res_bind (stun_write R m1 []) (\<lambda>w. case w of
           None \<Rightarrow> Inr (False, m1)
         | Some buf \<Rightarrow>
             let n = length buf - k_stun_attribute_header_size - 4;
                 c = ComputeCrc32 R (take n buf)
             in Inr (True, update_last_attr
                  (\<lambda>a. a\<lparr> attr_value := Uint32 (c XOR STUN_FINGERPRINT_XOR_VALUE) \<rparr>) m1)))"

definition add_message_integrity_of_type ::
    "rtc_base \<Rightarrow> u16 \<Rightarrow> nat \<Rightarrow> bytes \<Rightarrow> stun_message \<Rightarrow> (bool \<times> stun_message) res" where
  "add_message_integrity_of_type R t attr_size key m =
     (let m1 = add_attribute (StunByteStringAttribute_str t (replicate attr_size 0x30)) m
      in res_bind (stun_write R m1 []) (\<lambda>w. case w of
           None \<Rightarrow> Inr (False, m1)
         | Some buf \<Rightarrow>
             let n = length buf - k_stun_attribute_header_size - attr_size;
                 hmac = ComputeHmac R key (take n buf) attr_size
             in if length hmac \<noteq> attr_size then Inr (False, m1)
                else Inr (True, (update_last_attr (copy_bytes hmac) m1)
                       \<lparr> msg_password := key, msg_integrity := k_integrity_ok \<rparr>)))"

definition add_message_integrity :: "rtc_base \<Rightarrow> bytes \<Rightarrow> stun_message \<Rightarrow> (bool \<times> stun_message) res" where
  "add_message_integrity R pwd m =
     add_message_integrity_of_type R STUN_ATTR_MESSAGE_INTEGRITY k_stun_message_integrity_size pwd m"

subsection \<open>Checking received bytes\<close>

definition validate_fingerprint :: "rtc_base \<Rightarrow> bytes \<Rightarrow> bool" where
  "validate_fingerprint R data =
     (let len = length data;
          fingerprint_attr_size = k_stun_attribute_header_size + 4;
          magic_cookie = drop (k_stun_transaction_id_offset - k_stun_magic_cookie_length) data;
          fp = drop (len - fingerprint_attr_size) data
      in if len mod 4 \<noteq> 0 \<or> len < k_stun_header_size + fingerprint_attr_size then False
         else if GetBE32 R magic_cookie \<noteq> k_stun_magic_cookie then False
         else if GetBE16 R fp \<noteq> STUN_ATTR_FINGERPRINT then False
         else if GetBE16 R (drop 2 fp) \<noteq> 4 then False
         else (GetBE32 R (drop k_stun_attribute_header_size fp) XOR STUN_FINGERPRINT_XOR_VALUE)
                = ComputeCrc32 R (take (len - fingerprint_attr_size) data))"

text \<open>The scan for the offset of an attribute, the \<^verbatim>\<open>while\<close> loop of
  \<^verbatim>\<open>_validate_message_integrity_of_type\<close>: every turn moves the position by at least 4.\<close>

function find_attr_pos :: "rtc_base \<Rightarrow> u16 \<Rightarrow> bytes \<Rightarrow> nat \<Rightarrow> nat option" where
  "find_attr_pos R t data pos =
     (if pos + k_stun_attribute_header_size \<le> length data then
        (let ty = GetBE16 R (drop pos data);
             ln = unat (GetBE16 R (drop (pos + 2) data))
         in if ty = t then Some pos
            else find_attr_pos R t data (pos + k_stun_attribute_header_size + ln + pad4 ln))
      else None)"
  by pat_completeness auto
termination
  by (relation "measure (\<lambda>(R, t, data, pos). length data - pos)")
    (auto simp: k_stun_attribute_header_size_def)

declare find_attr_pos.simps [simp del]

definition validate_message_integrity_of_type ::
    "rtc_base \<Rightarrow> u16 \<Rightarrow> nat \<Rightarrow> bytes \<Rightarrow> bytes \<Rightarrow> bool res" where
  "validate_message_integrity_of_type R t mi_size data password =
     (let size = length data in
      if size mod 4 \<noteq> 0 \<or> size < k_stun_header_size then Inr False
      else if unat (GetBE16 R (drop 2 data)) + k_stun_header_size \<noteq> size then Inr False
      else case find_attr_pos R t data k_stun_header_size of
        None \<Rightarrow> Inr False
      | Some mi_pos \<Rightarrow>
          let temp = take mi_pos data;
              temp' = (if size > mi_pos + k_stun_attribute_header_size + k_stun_message_integrity_size
                then let extra_pos = mi_pos + k_stun_attribute_header_size + mi_size;
                         extra_size = size - extra_pos;
                         adjust_new_len = size - extra_size - k_stun_header_size
                     in take 2 temp @ SetBE16 R (drop 2 temp) (of_nat adjust_new_len)
                else temp);
              hmac = ComputeHmac R password temp' k_stun_message_integrity_size
          in if length hmac \<noteq> k_stun_message_integrity_size then Inr False
             else if size < mi_pos + k_stun_attribute_header_size + mi_size then Inl Out_of_bounds
             else Inr (take mi_size (drop (mi_pos + k_stun_attribute_header_size) data)
                        = take mi_size hmac))"

subsection \<open>Queries on a parsed message\<close>

definition get_attribute :: "u16 \<Rightarrow> stun_message \<Rightarrow> stun_attribute option" where
  "get_attribute t m = find (\<lambda>a. attr_type a = t) (msg_attrs m)"

text \<open>\<^verbatim>\<open>get_byte_string\<close>, \<^verbatim>\<open>get_uint32_t\<close> and \<^verbatim>\<open>get_error_code\<close> are this lookup followed by an
  unchecked \<^verbatim>\<open>static_cast\<close>; using the pointer as the wrong subclass is the value \<open>Bad_cast\<close>.\<close>

definition get_string :: "stun_attribute \<Rightarrow> bytes res" where
  "get_string a = (case attr_value a of
      Byte_String (Some bs) \<Rightarrow>
        (if length bs < unat (attr_length a) then Inl Out_of_bounds else Inr (take (unat (attr_length a)) bs))
    | Byte_String None \<Rightarrow> (if attr_length a = 0 then Inr [] else Inl Null_deref)
    | _ \<Rightarrow> Inl Bad_cast)"

definition uint32_value :: "stun_attribute \<Rightarrow> u32 res" where
  "uint32_value a = (case attr_value a of Uint32 v \<Rightarrow> Inr v | _ \<Rightarrow> Inl Bad_cast)"

definition error_code :: "stun_attribute \<Rightarrow> int res" where
  "error_code a = (case attr_value a of
      Error_Code c n _ \<Rightarrow> Inr (uint c * 100 + uint n) | _ \<Rightarrow> Inl Bad_cast)"

definition get_error_code_value :: "stun_message \<Rightarrow> int res" where
  "get_error_code_value m = (case get_attribute STUN_ATTR_ERROR_CODE m of
      Some a \<Rightarrow> error_code a | None \<Rightarrow> Inr STUN_ERROR_GLOBAL_FAIL)"

definition validate_message_integrity ::
    "rtc_base \<Rightarrow> bytes \<Rightarrow> stun_message \<Rightarrow> (integrity_status \<times> stun_message) res" where
  "validate_message_integrity R password m =
     (let m1 = m\<lparr> msg_password := password \<rparr> in
      case get_attribute STUN_ATTR_MESSAGE_INTEGRITY m1 of
        None \<Rightarrow> Inr (k_no_integrity, m1\<lparr> msg_integrity := k_no_integrity \<rparr>)
      | Some _ \<Rightarrow> res_bind (validate_message_integrity_of_type R STUN_ATTR_MESSAGE_INTEGRITY
            k_stun_message_integrity_size (msg_buffer m1) password)
          (\<lambda>ok. let st = (if ok then k_integrity_ok else k_integrity_bad)
                in Inr (st, m1\<lparr> msg_integrity := st \<rparr>)))"

subsection \<open>Parsing a message\<close>

text \<open>The attribute loop of \<^verbatim>\<open>StunMessage::read\<close>.  The outer option is \<open>None\<close> if the loop does not
  return, the inner one if \<^verbatim>\<open>read\<close> returns \<^verbatim>\<open>false\<close>.  An unknown attribute is skipped by its
  length, padded in 16-bit arithmetic as the code does.\<close>

partial_function (option) read_attrs ::
    "rtc_base \<Rightarrow> stun_attribute list \<Rightarrow> bytes \<Rightarrow> (stun_attribute list \<times> bytes) option option" where
  "read_attrs R acc buf =
     (if buf = [] then Some (Some (acc, buf))
      else case ReadUInt16 R buf of
        None \<Rightarrow> Some None
      | Some (t, b1) \<Rightarrow>
          (case ReadUInt16 R b1 of
             None \<Rightarrow> Some None
           | Some (n, b2) \<Rightarrow>
               (case create_attribute t n of
                  None \<Rightarrow>
                    (case Consume R b2 (unat (n + (if n mod 4 \<noteq> 0 then 4 - n mod 4 else 0))) of
                       None \<Rightarrow> Some None
                     | Some b3 \<Rightarrow> read_attrs R acc b3)
                | Some a \<Rightarrow>
                    (case attr_read R a b2 of
                       None \<Rightarrow> Some None
                     | Some (a', b3) \<Rightarrow> read_attrs R (acc @ [a']) b3))))"

definition stun_read :: "rtc_base \<Rightarrow> stun_message \<Rightarrow> bytes \<Rightarrow> (stun_message \<times> bytes) option option" where
  "stun_read R m data =
     (case ReadUInt16 R data of
        None \<Rightarrow> Some None
      | Some (ty, b1) \<Rightarrow>
          if ty AND 0x0800 \<noteq> 0 then Some None
          else (case ReadUInt16 R b1 of
            None \<Rightarrow> Some None
          | Some (ln, b2) \<Rightarrow>
              (case ReadBytes R b2 k_stun_magic_cookie_length of
                 None \<Rightarrow> Some None
               | Some (magic, b3) \<Rightarrow>
                   (case ReadBytes R b3 k_stun_transaction_id_length of
                      None \<Rightarrow> Some None
                    | Some (tid, b4) \<Rightarrow>
                        let tid' = (if GetBE32 R magic \<noteq> k_stun_magic_cookie then magic @ tid else tid)
                        in if length b4 \<noteq> unat ln then Some None
                           else map_option (map_option (\<lambda>(attrs, rest).
                             (m\<lparr> msg_buffer := data, msg_type := ty, msg_length := ln,
                                 msg_transaction_id := tid', msg_attrs := attrs \<rparr>, rest)))
                             (read_attrs R [] b4)))))"

subsection \<open>Message types\<close>

definition is_stun_request_type :: "u16 \<Rightarrow> bool" where
  "is_stun_request_type t \<longleftrightarrow> t AND k_stun_class_mask = STUN_CLASS_REQUEST"

definition get_stun_success_response :: "int \<Rightarrow> int" where
  "get_stun_success_response req =
     (if is_stun_request_type (word_of_int req)
      then (req AND NOT (uint k_stun_class_mask)) OR STUN_CLASS_SUCCESS_RESPONSE else -1)"

definition get_stun_error_response :: "int \<Rightarrow> int" where
  "get_stun_error_response req =
     (if is_stun_request_type (word_of_int req)
      then (req AND NOT (uint k_stun_class_mask)) OR STUN_CLASS_ERROR_RESPONSE else -1)"

end
