(* ===== verification/Stun_Codec.thy ===== *)
theory Stun_Codec
  imports Stun
begin

text \<open>
  The wire format of STUN messages as a specification (\<open>attr_bytes\<close>, \<open>msg_bytes\<close>) and the
  lemmas that \<^verbatim>\<open>write\<close>, \<^verbatim>\<open>read\<close> and the scan for MESSAGE-INTEGRITY implement it, proved once for
  every byte codec that satisfies the laws.
\<close>

subsection \<open>The wire format\<close>

definition attr_payload :: "stun_attribute \<Rightarrow> bytes" where
  "attr_payload a = (case attr_value a of
      Byte_String None \<Rightarrow> []
    | Byte_String (Some bs) \<Rightarrow> bs @ replicate (pad4 (length bs)) 0
    | Uint32 v \<Rightarrow> be32 v
    | Uint64 v \<Rightarrow> be64 v
    | Error_Code c n r \<Rightarrow> be32 (push_bit 8 (ucast c) OR ucast n) @ r @ replicate (pad4 (length r)) 0
    | Xor_Address sa \<Rightarrow> [0, 1] @ be16 (sa_port sa XOR 0x2112)
                          @ map2 (XOR) (sa_ip sa) (be32 k_stun_magic_cookie))"

definition attr_wf :: "stun_attribute \<Rightarrow> bool" where
  "attr_wf a = (case attr_value a of
      Byte_String None \<Rightarrow> attr_length a = 0
    | Byte_String (Some bs) \<Rightarrow> length bs = unat (attr_length a)
    | Uint32 _ \<Rightarrow> attr_length a = 4
    | Uint64 _ \<Rightarrow> attr_length a = 8
    | Error_Code _ _ r \<Rightarrow> unat (attr_length a) = 4 + length r
    | Xor_Address sa \<Rightarrow> attr_length a = 8 \<and> sa_family sa = AF_INET \<and> length (sa_ip sa) = 4)"

definition attr_bytes :: "stun_attribute \<Rightarrow> bytes" where
  "attr_bytes a = be16 (attr_type a) @ be16 (attr_length a) @ attr_payload a"

definition attrs_bytes :: "stun_attribute list \<Rightarrow> bytes" where
  "attrs_bytes as = concat (map attr_bytes as)"

definition header_bytes :: "stun_message \<Rightarrow> bytes" where
  "header_bytes m = be16 (msg_type m) @ be16 (msg_length m) @ be32 k_stun_magic_cookie
     @ msg_transaction_id m"

definition msg_bytes :: "stun_message \<Rightarrow> bytes" where
  "msg_bytes m = header_bytes m @ attrs_bytes (msg_attrs m)"

text \<open>A message the code can send: a 96-bit transaction id, well-formed attributes, and a length
  field equal to the size of the attributes.\<close>

definition msg_wf :: "stun_message \<Rightarrow> bool" where
  "msg_wf m \<longleftrightarrow> length (msg_transaction_id m) = 12 \<and> list_all attr_wf (msg_attrs m)
     \<and> unat (msg_length m) = length (attrs_bytes (msg_attrs m))"

lemma attrs_bytes_simps [simp]:
  "attrs_bytes [] = []" "attrs_bytes (a # as) = attr_bytes a @ attrs_bytes as"
  "attrs_bytes (as @ bs) = attrs_bytes as @ attrs_bytes bs"
  by (simp_all add: attrs_bytes_def)

lemma pad4_add4: "pad4 (4 + n) = pad4 n" "pad4 (n + 4) = pad4 n"
  by (simp_all add: pad4_def)

lemma length_attr_payload:
  "attr_wf a \<Longrightarrow> length (attr_payload a) = unat (attr_length a) + pad4 (unat (attr_length a))"
  by (auto simp: attr_wf_def attr_payload_def pad4_add4 split: attr_value.splits option.splits)

lemma length_attr_bytes:
  "attr_wf a \<Longrightarrow> length (attr_bytes a) = 4 + unat (attr_length a) + pad4 (unat (attr_length a))"
  by (simp add: attr_bytes_def length_attr_payload)

lemma attr_bytes_dvd: "attr_wf a \<Longrightarrow> 4 dvd length (attr_bytes a)"
  by (simp add: length_attr_bytes add.assoc)

lemma attrs_bytes_dvd: "list_all attr_wf as \<Longrightarrow> 4 dvd length (attrs_bytes as)"
  by (induction as) (auto dest: attr_bytes_dvd)

lemma length_header_bytes: "length (msg_transaction_id m) = 12 \<Longrightarrow> length (header_bytes m) = 20"
  by (simp add: header_bytes_def)

lemma length_msg_bytes: "msg_wf m \<Longrightarrow> length (msg_bytes m) = 20 + unat (msg_length m)"
  by (simp add: msg_wf_def msg_bytes_def length_header_bytes)

text \<open>Padding a 16-bit length in 16-bit arithmetic, as long as it does not wrap.\<close>

lemma pad_u16:
  fixes n :: u16
  assumes "unat n + pad4 (unat n) < 2 ^ 16"
  shows "unat (n + (if n mod 4 \<noteq> 0 then 4 - n mod 4 else 0)) = unat n + pad4 (unat n)"
proof -
  have m: "unat (n mod 4) = unat n mod 4" by (simp add: unat_mod)
  have z: "n mod 4 = 0 \<longleftrightarrow> unat n mod 4 = 0" using m by (metis unat_eq_zero)
  have le: "n mod 4 \<le> 4" unfolding word_le_nat_alt using m by simp
  have s: "unat (4 - n mod 4) = 4 - unat n mod 4" using unat_sub [OF le] m by simp
  show ?thesis
    using assms z s by (auto simp: pad4_def unat_word_ariths)
qed

subsection \<open>Attributes the factory knows\<close>

definition known_attr :: "stun_attribute \<Rightarrow> bool" where
  "known_attr a \<longleftrightarrow> get_attribute_value_type (attr_type a) \<noteq> STUN_VALUE_UNKNOWN"

text \<open>The value has the class its type asks for.\<close>

definition kind_ok :: "stun_attribute \<Rightarrow> bool" where
  "kind_ok a = (case get_attribute_value_type (attr_type a) of
      STUN_VALUE_BYTE_STRING \<Rightarrow> (\<exists>bs. attr_value a = Byte_String (Some bs))
    | STUN_VALUE_UINT32 \<Rightarrow> (\<exists>v. attr_value a = Uint32 v)
    | STUN_VALUE_UNKNOWN \<Rightarrow> True)"

lemma create_attribute_None: "create_attribute t n = None \<longleftrightarrow> get_attribute_value_type t = STUN_VALUE_UNKNOWN"
  by (auto simp: create_attribute_def StunAttribute_create_def Let_def split: stun_value_type.splits)

lemma create_attribute_Some:
  "create_attribute t n = Some a \<Longrightarrow>
     (get_attribute_value_type t = STUN_VALUE_BYTE_STRING \<and> a = StunByteStringAttribute_len t n)
   \<or> (get_attribute_value_type t = STUN_VALUE_UINT32 \<and> a = StunUint32Attribute t 0)"
  by (auto simp: create_attribute_def StunAttribute_create_def Let_def
      split: stun_value_type.splits if_splits)

context byte_codec
begin

subsection \<open>Writing\<close>

lemma write_padding_eq:
  "write_padding R a buf = buf @ replicate (pad4 (unat (attr_length a))) 0"
  by (simp add: write_padding_def Let_def pad4_def write_bytes)

lemma attr_write_wf: "attr_wf a \<Longrightarrow> attr_write R a buf = Inr (Some (buf @ attr_payload a))"
  by (auto simp: attr_wf_def attr_payload_def attr_write_def write_padding_eq write_bytes write32
      write64 write16 write8 write_xor_address_def stun_family_def get_xored_ip_def pad4_add4
      k_stun_magic_cookie_def Let_def
      split: attr_value.splits option.splits)

lemma write_attrs_wf:
  "list_all attr_wf as \<Longrightarrow> write_attrs R as buf = Inr (Some (buf @ attrs_bytes as))"
  by (induction as arbitrary: buf) (auto simp: attr_write_wf write16 attr_bytes_def)

lemma stun_write_attrs:
  "list_all attr_wf (msg_attrs m) \<Longrightarrow> stun_write R m buf = Inr (Some (buf @ msg_bytes m))"
  by (simp add: stun_write_def Let_def write_attrs_wf write16 write32 write_bytes msg_bytes_def
      header_bytes_def)

lemma stun_write_wf: "msg_wf m \<Longrightarrow> stun_write R m buf = Inr (Some (buf @ msg_bytes m))"
  by (simp add: msg_wf_def stun_write_attrs)

subsection \<open>Scanning\<close>

lemma get16_drop:
  assumes "length pre = n"
  shows "GetBE16 R (drop n (pre @ be16 w @ xs)) = w"
  using assms by (simp add: get16_be16)

lemma find_attr_pos_hit:
  assumes "list_all attr_wf as" "\<forall>a \<in> set as. attr_type a \<noteq> t" "attr_wf a" "attr_type a = t"
  shows "find_attr_pos R t (pre @ attrs_bytes as @ attr_bytes a @ rest) (length pre) =
    Some (length pre + length (attrs_bytes as))"
  using assms(1,2)
proof (induction as arbitrary: pre)
  case Nil
  have "GetBE16 R (drop (length pre) (pre @ attr_bytes a @ rest)) = t"
    using assms(4) by (simp add: attr_bytes_def get16_be16)
  then show ?case using assms(3)
    by (simp add: find_attr_pos.simps k_stun_attribute_header_size_def length_attr_bytes Let_def)
next
  case (Cons b bs)
  let ?data = "pre @ attrs_bytes (b # bs) @ attr_bytes a @ rest"
  have wf: "attr_wf b" and nt: "attr_type b \<noteq> t" using Cons.prems by auto
  have ty: "GetBE16 R (drop (length pre) ?data) = attr_type b"
    by (simp add: attr_bytes_def get16_be16)
  have ln: "GetBE16 R (drop (length pre + 2) ?data) = attr_length b"
    using get16_drop [of "pre @ be16 (attr_type b)"] by (simp add: attr_bytes_def)
  have "find_attr_pos R t ?data (length pre) =
      find_attr_pos R t ?data (length pre + length (attr_bytes b))"
    using ty ln nt wf
    by (subst find_attr_pos.simps)
      (simp add: k_stun_attribute_header_size_def length_attr_bytes Let_def add.assoc)
  also have "\<dots> = Some (length (pre @ attr_bytes b) + length (attrs_bytes bs))"
    using Cons.IH [of "pre @ attr_bytes b"] Cons.prems by simp
  finally show ?case by simp
qed

subsection \<open>Reading\<close>

lemma consume_padding_le: "length (consume_padding R a buf) \<le> length buf"
  by (auto simp: consume_padding_def Let_def consume)

lemma consume_padding_drop: "length (consume_padding R a (drop n buf)) \<le> length buf"
  using consume_padding_le [of a "drop n buf"] by simp

lemma attr_read_shrinks: "attr_read R a buf = Some (a', rest) \<Longrightarrow>
    (\<exists>bs. attr_value a = Byte_String bs) \<or> (\<exists>v. attr_value a = Uint32 v) \<Longrightarrow> length rest \<le> length buf"
  using consume_padding_drop
  by (auto simp: attr_read_def read_bytes split: attr_value.splits if_splits option.splits
      dest!: read32_Some_length intro: order_trans)

lemma create_attribute_value: "create_attribute t n = Some a \<Longrightarrow>
    (\<exists>bs. attr_value a = Byte_String bs) \<or> (\<exists>v. attr_value a = Uint32 v)"
  by (auto dest!: create_attribute_Some simp: StunByteStringAttribute_len_def StunUint32Attribute_def)

text \<open>The attribute loop returns for every input.\<close>

lemma read_attrs_returns: "\<exists>r. read_attrs R acc buf = Some r"
proof (induction "length buf" arbitrary: acc buf rule: less_induct)
  case less
  have IH: "\<exists>r. read_attrs R acc' b = Some r" if "length b < length buf" for acc' b
    using less that by blast
  show ?case
    by (subst read_attrs.simps)
      (auto split: option.splits prod.splits
        intro!: IH dest!: read16_Some_length attr_read_shrinks [OF _ create_attribute_value]
        simp: consume split: if_splits)
qed

lemma stun_read_returns: "\<exists>r. stun_read R m data = Some r"
  using read_attrs_returns
  by (fastforce simp: stun_read_def Let_def split: option.splits)

text \<open>Every attribute in the result is well-formed and has the class of its type.\<close>

lemma attr_read_created:
  assumes "create_attribute t n = Some a" "attr_read R a buf = Some (a', rest)"
  shows "attr_wf a'" "kind_ok a'" "known_attr a'"
  using assms
  by (auto dest!: create_attribute_Some simp: attr_read_def StunByteStringAttribute_len_def
      StunUint32Attribute_def attr_wf_def kind_ok_def known_attr_def read_bytes
      split: option.splits if_splits)

lemma read_attrs_typed:
  assumes "read_attrs R acc buf = Some (Some (as, rest))"
    and "list_all (\<lambda>a. attr_wf a \<and> kind_ok a \<and> known_attr a) acc"
  shows "list_all (\<lambda>a. attr_wf a \<and> kind_ok a \<and> known_attr a) as \<and> rest = []"
  using assms
proof (induction "length buf" arbitrary: acc buf rule: less_induct)
  case less
  show ?case
  proof (cases "buf = []")
    case True
    then show ?thesis using less.prems by (simp add: read_attrs.simps [of R acc "[]"])
  next
    case False
    from less.prems(1) False obtain t b1 n b2 where
      r: "ReadUInt16 R buf = Some (t, b1)" "ReadUInt16 R b1 = Some (n, b2)"
      by (auto simp: read_attrs.simps [of R acc buf] split: option.splits)
    have len: "length b2 < length buf" using r by (auto dest!: read16_Some_length)
    show ?thesis
    proof (cases "create_attribute t n")
      case None
      from less.prems(1) False r None obtain k where
        "read_attrs R acc (drop k b2) = Some (Some (as, rest))"
        by (auto simp: read_attrs.simps [of R acc buf] consume split: option.splits if_splits)
      then show ?thesis using less.hyps [of "drop k b2" acc] less.prems(2) len by auto
    next
      case (Some a)
      from less.prems(1) False r Some obtain a' b3 where a': "attr_read R a b2 = Some (a', b3)"
        "read_attrs R (acc @ [a']) b3 = Some (Some (as, rest))"
        by (auto simp: read_attrs.simps [of R acc buf] split: option.splits)
      have "length b3 \<le> length b2" using attr_read_shrinks [OF a'(1) create_attribute_value [OF Some]] .
      moreover have "list_all (\<lambda>a. attr_wf a \<and> kind_ok a \<and> known_attr a) (acc @ [a'])"
        using attr_read_created [OF Some a'(1)] less.prems(2) by simp
      ultimately show ?thesis using less.hyps [of b3 "acc @ [a']"] a'(2) len by auto
    qed
  qed
qed

lemma stun_read_typed:
  assumes "stun_read R m data = Some (Some (m', rest))"
  shows "list_all (\<lambda>a. attr_wf a \<and> kind_ok a \<and> known_attr a) (msg_attrs m')" "rest = []"
    "msg_buffer m' = data"
  using assms
  by (auto simp: stun_read_def Let_def dest!: read_attrs_typed split: option.splits prod.splits if_splits)

text \<open>One round of the loop on the bytes of a well-formed attribute: kept if the factory knows its
  type, skipped otherwise.\<close>

lemma consume_padding_pad:
  "consume_padding R (StunByteStringAttribute_len t n) (replicate (pad4 (unat n)) 0 @ rest) = rest"
  by (auto simp: consume_padding_def StunByteStringAttribute_len_def Let_def consume pad4_def)

lemma attr_read_bytes:
  assumes "attr_wf a" "kind_ok a" "create_attribute (attr_type a) (attr_length a) = Some c"
  shows "attr_read R c (attr_payload a @ rest) = Some (a, rest)"
proof -
  let ?vt = "get_attribute_value_type (attr_type a)"
  consider (B) "?vt = STUN_VALUE_BYTE_STRING" "c = StunByteStringAttribute_len (attr_type a) (attr_length a)"
    | (U) "?vt = STUN_VALUE_UINT32" "c = StunUint32Attribute (attr_type a) 0"
    using create_attribute_Some [OF assms(3)] by blast
  then show ?thesis
  proof cases
    case B
    then obtain bs where bs: "attr_value a = Byte_String (Some bs)" using assms(2) by (auto simp: kind_ok_def)
    then have len: "unat (attr_length a) = length bs" using assms(1) by (simp add: attr_wf_def)
    have "attr_read R c (attr_payload a @ rest) = Some (c\<lparr>attr_value := Byte_String (Some bs)\<rparr>,
        consume_padding R c (replicate (pad4 (length bs)) 0 @ rest))"
      using B(2) bs len by (simp add: attr_read_def attr_payload_def StunByteStringAttribute_len_def read_bytes)
    moreover have "c\<lparr>attr_value := Byte_String (Some bs)\<rparr> = a"
      using B(2) bs by (simp add: StunByteStringAttribute_len_def)
    ultimately show ?thesis using consume_padding_pad len B(2) by metis
  next
    case U
    then obtain v where "attr_value a = Uint32 v" using assms(2) by (auto simp: kind_ok_def)
    then show ?thesis using U(2) assms(1)
      by (simp add: attr_wf_def attr_read_def attr_payload_def StunUint32Attribute_def read32_be32)
  qed
qed

lemma read_attrs_bytes:
  assumes "list_all (\<lambda>a. attr_wf a \<and> kind_ok a) as" "length (attrs_bytes as) < 2 ^ 16"
  shows "read_attrs R acc (attrs_bytes as) = Some (Some (acc @ filter known_attr as, []))"
  using assms
proof (induction as arbitrary: acc)
  case Nil
  then show ?case by (simp add: read_attrs.simps)
next
  case (Cons a as)
  let ?rest = "attrs_bytes as"
  have wf: "attr_wf a" and k: "kind_ok a" using Cons.prems by auto
  have IH: "read_attrs R acc' ?rest = Some (Some (acc' @ filter known_attr as, []))" for acc'
    using Cons by simp
  have ne: "attr_bytes a \<noteq> []" using length_attr_bytes [OF wf] by auto
  have r1: "ReadUInt16 R (attr_bytes a @ ?rest) =
      Some (attr_type a, be16 (attr_length a) @ attr_payload a @ ?rest)"
    by (simp add: attr_bytes_def read16_be16)
  have r2: "ReadUInt16 R (be16 (attr_length a) @ attr_payload a @ ?rest) =
      Some (attr_length a, attr_payload a @ ?rest)"
    by (simp add: read16_be16)
  show ?case
  proof (cases "create_attribute (attr_type a) (attr_length a)")
    case None
    then have "\<not> known_attr a" by (simp add: create_attribute_None known_attr_def)
    moreover have "unat (attr_length a) + pad4 (unat (attr_length a)) < 2 ^ 16"
      using Cons.prems(2) length_attr_bytes [OF wf] by simp
    ultimately show ?thesis
      using None ne r1 r2 IH pad_u16 [of "attr_length a"] length_attr_payload [OF wf]
      by (subst read_attrs.simps) (simp add: consume)
  next
    case (Some c)
    then have "known_attr a" by (metis create_attribute_None known_attr_def option.distinct(1))
    then show ?thesis
      using Some ne r1 r2 IH attr_read_bytes [OF wf k Some]
      by (subst read_attrs.simps) simp
  qed
qed

end

end
