(* ===== verification/Stun_Props.thy ===== *)
theory Stun_Props
  imports Stun_Codec
begin

text \<open>
  What the STUN codec guarantees: a message built by \<^verbatim>\<open>add_message_integrity\<close> and
  \<^verbatim>\<open>add_fingerprint\<close> passes the receiver's checks, parsing is total and inverts writing on the
  attributes the factory knows, the unchecked casts are sound, and where the code departs from
  the RFC.
\<close>

subsection \<open>Lemmas on building messages\<close>

lemma header_bytes_cong:
  "msg_type m = msg_type m' \<Longrightarrow> msg_length m = msg_length m' \<Longrightarrow>
   msg_transaction_id m = msg_transaction_id m' \<Longrightarrow> header_bytes m = header_bytes m'"
  by (simp add: header_bytes_def)

lemma add_attribute_sel [simp]:
  "msg_type (add_attribute a m) = msg_type m"
  "msg_transaction_id (add_attribute a m) = msg_transaction_id m"
  "msg_attrs (add_attribute a m) = msg_attrs m @ [a]"
  "msg_buffer (add_attribute a m) = msg_buffer m"
  by (simp_all add: add_attribute_def Let_def)

lemma add_attribute_length:
  "attr_length a = attr_length b \<Longrightarrow> msg_length (add_attribute a m) = msg_length (add_attribute b m)"
  by (simp add: add_attribute_def Let_def)

lemma header_add_attribute:
  "attr_length a = attr_length b \<Longrightarrow> header_bytes (add_attribute a m) = header_bytes (add_attribute b m)"
  by (rule header_bytes_cong) (auto intro: add_attribute_length)

lemma add_attribute_wf:
  assumes "msg_wf m" "attr_wf a" "length (attrs_bytes (msg_attrs m)) + length (attr_bytes a) < 2 ^ 16"
  shows "msg_wf (add_attribute a m)"
proof -
  let ?k = "unat (attr_length a) + pad4 (unat (attr_length a)) + 4"
  have k: "length (attr_bytes a) = ?k" using length_attr_bytes [OF assms(2)] by simp
  have "unat (of_nat ?k :: u16) = ?k" using assms(3) k by (simp only: unat_of_nat) simp
  moreover have "unat (msg_length m) = length (attrs_bytes (msg_attrs m))"
    using assms(1) by (simp add: msg_wf_def)
  ultimately have "unat (msg_length m + of_nat ?k) = length (attrs_bytes (msg_attrs m)) + ?k"
    using assms(3) k by (simp only: unat_word_ariths) simp
  then show ?thesis
    using assms(1,2) k
    by (simp add: msg_wf_def add_attribute_def Let_def k_stun_attribute_header_size_def)
qed

lemma update_last_add:
  "update_last_attr f (add_attribute a m) = (add_attribute a m)\<lparr> msg_attrs := msg_attrs m @ [f a] \<rparr>"
  by (simp add: update_last_attr_def)

lemma add_attribute_replace:
  "attr_length b = attr_length a \<Longrightarrow>
   (add_attribute a m)\<lparr> msg_attrs := msg_attrs m @ [b] \<rparr> = add_attribute b m"
  by (simp add: add_attribute_def Let_def)

subsection \<open>Fingerprints\<close>

definition fp_attr :: "u32 \<Rightarrow> stun_attribute" where
  "fp_attr v = StunUint32Attribute STUN_ATTR_FINGERPRINT v"

lemma fp_attr_wf [simp]: "attr_wf (fp_attr v)" "attr_length (fp_attr v) = 4"
    "attr_type (fp_attr v) = STUN_ATTR_FINGERPRINT"
  by (simp_all add: fp_attr_def StunUint32Attribute_def attr_wf_def)

lemma fp_attr_bytes: "attr_bytes (fp_attr v) = be16 STUN_ATTR_FINGERPRINT @ be16 4 @ be32 v"
  by (simp add: fp_attr_def StunUint32Attribute_def attr_bytes_def attr_payload_def)

definition fp_value :: "rtc_base \<Rightarrow> stun_message \<Rightarrow> u32" where
  "fp_value R m = ComputeCrc32 R (header_bytes (add_attribute (fp_attr 0) m) @ attrs_bytes (msg_attrs m))
     XOR STUN_FINGERPRINT_XOR_VALUE"

lemma xor_cancel [simp]: "(x XOR y) XOR y = (x :: 'a :: len word)"
  by (simp add: xor.assoc)

definition mi_attr :: "bytes \<Rightarrow> stun_attribute" where
  "mi_attr h = StunByteStringAttribute_str STUN_ATTR_MESSAGE_INTEGRITY h"

definition mi_value :: "rtc_base \<Rightarrow> bytes \<Rightarrow> stun_message \<Rightarrow> bytes" where
  "mi_value R key m = ComputeHmac R key
     (header_bytes (add_attribute (mi_attr (replicate 20 0x30)) m) @ attrs_bytes (msg_attrs m)) 20"

lemma mi_attr_type: "attr_type (mi_attr h) = STUN_ATTR_MESSAGE_INTEGRITY"
  by (simp add: mi_attr_def StunByteStringAttribute_str_def copy_bytes_def)

context byte_codec
begin

lemma validate_fingerprint_iff:
  "validate_fingerprint R data \<longleftrightarrow>
     (\<exists>pre body. data = body @ be16 STUN_ATTR_FINGERPRINT @ be16 4
                    @ be32 (ComputeCrc32 R body XOR STUN_FINGERPRINT_XOR_VALUE)
        \<and> 20 \<le> length body \<and> 4 dvd length body
        \<and> length pre = 4 \<and> (\<exists>post. body = pre @ be32 k_stun_magic_cookie @ post))"
  (is "?L \<longleftrightarrow> ?R")
proof
  assume ?R
  then obtain pre body post where d: "data = body @ be16 STUN_ATTR_FINGERPRINT @ be16 4
                    @ be32 (ComputeCrc32 R body XOR STUN_FINGERPRINT_XOR_VALUE)"
     "20 \<le> length body" "4 dvd length body" "length pre = 4" "body = pre @ be32 k_stun_magic_cookie @ post"
    by blast
  have "GetBE32 R (drop 4 data) = k_stun_magic_cookie"
    using d(1,4,5) by (simp add: get32_be32)
  moreover have "length data - 8 = length body" using d(1) by simp
  moreover have "GetBE16 R (drop (length body + 2) data) = 4"
    using get16_drop [of "body @ be16 STUN_ATTR_FINGERPRINT" _ 4] d(1) by simp
  moreover have "drop (length body + 4) data = be32 (ComputeCrc32 R body XOR STUN_FINGERPRINT_XOR_VALUE)"
    using d(1) by simp
  ultimately show ?L
    using d(1-3) get32_be32 [of _ "[]"]
    by (simp add: validate_fingerprint_def Let_def stun_sizes get16_be16 dvd_eq_mod_eq_0 mod_add_eq [symmetric] mod_simps)
next
  assume L: ?L
  define body where "body = take (length data - 8) data"
  define fp where "fp = drop (length data - 8) data"
  from L have l: "28 \<le> length data" "4 dvd length data"
    by (auto simp: validate_fingerprint_def Let_def stun_sizes split: if_splits)
  have data: "data = body @ fp" by (simp add: body_def fp_def)
  have "length fp = 8" using l by (simp add: fp_def)
  then obtain a b c d e f g h where fp: "fp = [a, b, c, d, e, f, g, h]"
    by (auto simp: length_Suc_conv numeral_eq_Suc)
  have lb: "length body = length data - 8" by (simp add: body_def)
  have "4 \<le> length (drop 4 body)" using l lb by simp
  then obtain p q r s post where po: "drop 4 body = p # q # r # s # post"
    by (metis Suc_le_length_iff numeral_eq_Suc pred_numeral_simps(2,3) semiring_norm(26,27))
  have pre: "body = take 4 body @ p # q # r # s # post" using po by (metis append_take_drop_id)
  have d4: "drop 4 data = p # q # r # s # post @ fp"
    using po l lb by (subst data) simp
  have c: "GetBE32 R (drop 4 data) = k_stun_magic_cookie"
    "GetBE16 R fp = STUN_ATTR_FINGERPRINT" "GetBE16 R (drop 2 fp) = 4"
    "GetBE32 R (drop 4 fp) XOR STUN_FINGERPRINT_XOR_VALUE = ComputeCrc32 R body"
    using L unfolding validate_fingerprint_def Let_def stun_sizes body_def fp_def
    by (simp_all split: if_splits)
  have cookie: "be32 k_stun_magic_cookie = [p, q, r, s]"
    using c(1) d4 be32_de32 [of p q r s] by (simp add: get32)
  have "de32 e f g h = ComputeCrc32 R body XOR STUN_FINGERPRINT_XOR_VALUE"
  proof -
    have "GetBE32 R (drop 4 fp) = de32 e f g h" using fp by (simp add: get32)
    then show ?thesis using c(4) xor_cancel by metis
  qed
  then have "be32 (ComputeCrc32 R body XOR STUN_FINGERPRINT_XOR_VALUE) = [e, f, g, h]"
    by (metis be32_de32)
  moreover have "be16 STUN_ATTR_FINGERPRINT = [a, b]"
    using c(2) fp get16 be16_de16 by metis
  moreover have "be16 4 = [c, d]"
  proof -
    have "GetBE16 R (drop 2 fp) = de16 c d" using fp by (simp add: get16)
    then show ?thesis using c(3) be16_de16 by metis
  qed
  ultimately have fpeq: "fp = be16 STUN_ATTR_FINGERPRINT @ be16 4
      @ be32 (ComputeCrc32 R body XOR STUN_FINGERPRINT_XOR_VALUE)"
    using fp by simp
  show ?R
  proof (intro exI conjI)
    show "data = body @ be16 STUN_ATTR_FINGERPRINT @ be16 4
        @ be32 (ComputeCrc32 R body XOR STUN_FINGERPRINT_XOR_VALUE)"
      by (subst data) (simp only: fpeq)
    show "20 \<le> length body" "4 dvd length body" "length (take 4 body) = 4"
      using l lb by (simp_all add: dvd_diff_nat)
    show "body = take 4 body @ be32 k_stun_magic_cookie @ post"
      using pre cookie by (metis append_Cons append_Nil)
  qed
qed

lemma add_fingerprint_eq:
  assumes "list_all attr_wf (msg_attrs m)"
  shows "add_fingerprint R m = Inr (True, add_attribute (fp_attr (fp_value R m)) m)"
proof -
  let ?m1 = "add_attribute (fp_attr 0) m"
  have "stun_write R ?m1 [] = Inr (Some (msg_bytes ?m1))"
    using stun_write_attrs [of ?m1] assms by simp
  moreover have "take (length (msg_bytes ?m1) - 8) (msg_bytes ?m1) =
      header_bytes ?m1 @ attrs_bytes (msg_attrs m)"
    by (simp add: msg_bytes_def fp_attr_bytes)
  ultimately show ?thesis
    by (simp add: add_fingerprint_def Let_def fp_attr_def [symmetric] stun_sizes fp_value_def
        update_last_add add_attribute_replace [symmetric])
      (simp add: fp_attr_def StunUint32Attribute_def add_attribute_replace)
qed

lemma fingerprint_valid:
  assumes "msg_wf m" "length (attrs_bytes (msg_attrs m)) + 8 < 2 ^ 16"
  shows "msg_wf (add_attribute (fp_attr (fp_value R m)) m)"
    "validate_fingerprint R (msg_bytes (add_attribute (fp_attr (fp_value R m)) m))"
proof -
  let ?m' = "add_attribute (fp_attr (fp_value R m)) m"
  show "msg_wf ?m'"
    using assms by (intro add_attribute_wf) (auto simp: fp_attr_bytes)
  let ?body = "header_bytes ?m' @ attrs_bytes (msg_attrs m)"
  have h: "header_bytes ?m' = header_bytes (add_attribute (fp_attr 0) m)"
    by (rule header_add_attribute) simp
  have tid: "length (msg_transaction_id m) = 12" and at: "list_all attr_wf (msg_attrs m)"
    using assms(1) by (simp_all add: msg_wf_def)
  have lh: "length (header_bytes ?m') = 20" using tid by (simp add: length_header_bytes)
  have "msg_bytes ?m' = ?body @ be16 STUN_ATTR_FINGERPRINT @ be16 4 @ be32 (fp_value R m)"
    by (simp add: msg_bytes_def fp_attr_bytes)
  moreover have "fp_value R m = ComputeCrc32 R ?body XOR STUN_FINGERPRINT_XOR_VALUE"
    using h by (simp add: fp_value_def)
  moreover have "4 dvd length ?body" using lh attrs_bytes_dvd [OF at] by simp
  moreover have "?body = (be16 (msg_type m) @ be16 (msg_length ?m')) @ be32 k_stun_magic_cookie
      @ (msg_transaction_id m @ attrs_bytes (msg_attrs m))"
    by (simp add: header_bytes_def)
  ultimately show "validate_fingerprint R (msg_bytes ?m')"
    unfolding validate_fingerprint_iff
    using lh by (intro exI [of _ "be16 (msg_type m) @ be16 (msg_length ?m')"] exI [of _ ?body]) auto
qed

subsection \<open>Message integrity\<close>

lemma mi_attr_wf:
  "length h = 20 \<Longrightarrow> attr_wf (StunByteStringAttribute_str t h)"
  "length h = 20 \<Longrightarrow> attr_length (StunByteStringAttribute_str t h) = 20"
  "attr_type (StunByteStringAttribute_str t h) = t"
  by (simp_all add: StunByteStringAttribute_str_def copy_bytes_def attr_wf_def)

lemma mi_attr_bytes:
  "length h = 20 \<Longrightarrow> attr_bytes (StunByteStringAttribute_str t h) = be16 t @ be16 20 @ h"
  by (simp add: StunByteStringAttribute_str_def copy_bytes_def attr_bytes_def attr_payload_def)

lemma mi_value_length: "length (mi_value R key m) = 20"
  by (simp add: mi_value_def hmac_length)

lemma add_message_integrity_eq:
  assumes "list_all attr_wf (msg_attrs m)"
  shows "add_message_integrity R key m =
    Inr (True, (add_attribute (mi_attr (mi_value R key m)) m)
                 \<lparr> msg_password := key, msg_integrity := k_integrity_ok \<rparr>)"
proof -
  let ?h0 = "replicate 20 (0x30 :: byte)"
  let ?m1 = "add_attribute (mi_attr ?h0) m"
  have "stun_write R ?m1 [] = Inr (Some (msg_bytes ?m1))"
    using stun_write_attrs [of ?m1] assms by (simp add: mi_attr_wf mi_attr_def)
  moreover have "take (length (msg_bytes ?m1) - 24) (msg_bytes ?m1) =
      header_bytes ?m1 @ attrs_bytes (msg_attrs m)"
    by (simp add: msg_bytes_def mi_attr_def mi_attr_bytes)
  moreover have "copy_bytes (mi_value R key m) (mi_attr ?h0) = mi_attr (mi_value R key m)"
    by (simp add: mi_attr_def StunByteStringAttribute_str_def copy_bytes_def)
  moreover have "attr_length (mi_attr (mi_value R key m)) = attr_length (mi_attr ?h0)"
    by (simp add: mi_attr_def mi_attr_wf mi_value_length)
  ultimately show ?thesis
    by (simp add: add_message_integrity_def add_message_integrity_of_type_def Let_def
        mi_attr_def [symmetric] stun_sizes mi_value_def [symmetric] mi_value_length
        update_last_add add_attribute_replace)
qed

text \<open>Validation of a message whose first MESSAGE-INTEGRITY attribute \<open>a\<close> comes after the attributes
  \<open>as\<close>.  If the 20 value bytes lie inside the datagram, they are compared with the digest of the
  bytes before the attribute, under a header whose length field ends at the attribute; otherwise
  the comparison reads past the end.\<close>

lemma validate_mi_eq:
  assumes wf: "msg_wf m" and attrs: "msg_attrs m = as @ a # bs"
    and ty: "attr_type a = STUN_ATTR_MESSAGE_INTEGRITY"
    and fresh: "\<forall>a \<in> set as. attr_type a \<noteq> STUN_ATTR_MESSAGE_INTEGRITY"
  shows "validate_message_integrity_of_type R STUN_ATTR_MESSAGE_INTEGRITY 20 (msg_bytes m) pwd =
    (if length (attr_payload a @ attrs_bytes bs) < 20 then Inl Out_of_bounds
     else Inr (take 20 (attr_payload a @ attrs_bytes bs) =
       ComputeHmac R pwd (header_bytes (m\<lparr> msg_length := of_nat (length (attrs_bytes as) + 24) \<rparr>)
         @ attrs_bytes as) 20))"
proof -
  let ?pre = "header_bytes m @ attrs_bytes as"
  let ?tail = "attr_payload a @ attrs_bytes bs"
  let ?pos = "20 + length (attrs_bytes as)"
  let ?size = "length (msg_bytes m)"
  have tid: "length (msg_transaction_id m) = 12" and awf: "list_all attr_wf as" "attr_wf a"
    using wf attrs by (simp_all add: msg_wf_def)
  have lh: "length (header_bytes m) = 20" using tid by (simp add: length_header_bytes)
  have data: "msg_bytes m = ?pre @ attr_bytes a @ attrs_bytes bs"
    by (simp add: msg_bytes_def attrs)
  have data': "msg_bytes m = ?pre @ be16 (attr_type a) @ be16 (attr_length a) @ ?tail"
    by (simp add: data attr_bytes_def)
  have size: "?size = ?pos + 4 + length ?tail" using lh by (simp add: data')
  have dvd: "?size mod 4 = 0"
    using attrs_bytes_dvd [of "msg_attrs m"] wf length_msg_bytes [OF wf]
    by (simp add: msg_wf_def dvd_eq_mod_eq_0 mod_add_eq [symmetric] mod_simps)
  have lenf: "unat (GetBE16 R (drop 2 (msg_bytes m))) + 20 = ?size"
    using length_msg_bytes [OF wf] by (simp add: msg_bytes_def header_bytes_def get16_be16)
  have find: "find_attr_pos R STUN_ATTR_MESSAGE_INTEGRITY (msg_bytes m) 20 = Some ?pos"
    using find_attr_pos_hit [OF awf(1) fresh awf(2) ty, of "header_bytes m"] lh by (simp add: data)
  have tk: "take ?pos (msg_bytes m) = ?pre" using lh by (simp add: data)
  have tail: "drop (?pos + 4) (msg_bytes m) = ?tail" using lh by (simp add: data')
  let ?hdr' = "header_bytes (m\<lparr> msg_length := of_nat (length (attrs_bytes as) + 24) \<rparr>)"
  have hdr': "take 2 ?pre @ SetBE16 R (drop 2 ?pre) (of_nat (length (attrs_bytes as) + 24)) =
      ?hdr' @ attrs_bytes as"
    by (simp add: header_bytes_def be16_def set16)
  have hdr_same: "?pre = ?hdr' @ attrs_bytes as" if "length ?tail = 20"
  proof -
    have "unat (msg_length m) = length (attrs_bytes as) + 24"
      using length_msg_bytes [OF wf] size that by simp
    then have "msg_length m = of_nat (length (attrs_bytes as) + 24)" by (metis of_nat_unat ucast_id)
    then show ?thesis by (simp add: header_bytes_def)
  qed
  show ?thesis
  proof (cases "length ?tail < 20")
    case True
    then show ?thesis
      using dvd lenf find size by (simp add: validate_message_integrity_of_type_def Let_def stun_sizes hmac_length)
  next
    case False
    then have temp: "(if ?size > ?pos + 4 + 20
        then take 2 (take ?pos (msg_bytes m)) @ SetBE16 R (drop 2 (take ?pos (msg_bytes m)))
               (of_nat (?size - (?size - (?pos + 4 + 20)) - 20))
        else take ?pos (msg_bytes m)) = ?hdr' @ attrs_bytes as"
      using hdr' hdr_same size unfolding tk by (auto simp: add.commute)
    have "\<not> ?size < ?pos + 4 + 20" using False size by simp
    then show ?thesis
      using dvd lenf find False temp tail
      unfolding validate_message_integrity_of_type_def Let_def stun_sizes
      by (simp add: hmac_length)
  qed
qed

subsection \<open>Reading a written message\<close>

lemma stun_read_bytes:
  assumes "msg_wf m" "list_all kind_ok (msg_attrs m)" "msg_type m AND 0x0800 = 0"
  shows "stun_read R m0 (msg_bytes m) = Some (Some (m0\<lparr> msg_buffer := msg_bytes m,
     msg_type := msg_type m, msg_length := msg_length m, msg_transaction_id := msg_transaction_id m,
     msg_attrs := filter known_attr (msg_attrs m) \<rparr>, []))"
proof -
  have tid: "length (msg_transaction_id m) = 12"
    and len: "length (attrs_bytes (msg_attrs m)) = unat (msg_length m)"
    and awf: "list_all (\<lambda>a. attr_wf a \<and> kind_ok a) (msg_attrs m)"
    using assms(1,2) by (auto simp: msg_wf_def list_all_iff)
  have "unat (msg_length m) < 2 ^ 16" using unsigned_less [where 'a = nat, of "msg_length m"] by simp
  then have ra: "read_attrs R [] (attrs_bytes (msg_attrs m)) =
      Some (Some (filter known_attr (msg_attrs m), []))"
    using read_attrs_bytes [OF awf, of "[]"] len by simp
  show ?thesis
    unfolding stun_read_def msg_bytes_def header_bytes_def
    using tid len assms(3) ra get32_be32 [of _ "[]"]
    by (simp add: read16_be16 read_bytes stun_sizes Let_def)
qed

text \<open>The message that signing and fingerprinting produce, and what a receiver makes of it.\<close>

lemma signed_message:
  fixes pwd :: bytes and m :: stun_message
  assumes wf: "msg_wf m" and kinds: "list_all kind_ok (msg_attrs m)"
    and fresh: "\<forall>a \<in> set (msg_attrs m). attr_type a \<noteq> STUN_ATTR_MESSAGE_INTEGRITY"
    and ty: "msg_type m AND 0x0800 = 0"
    and room: "length (attrs_bytes (msg_attrs m)) + 32 < 2 ^ 16"
  defines "m1 \<equiv> (add_attribute (mi_attr (mi_value R pwd m)) m)
                  \<lparr> msg_password := pwd, msg_integrity := k_integrity_ok \<rparr>"
  defines "m2 \<equiv> add_attribute (fp_attr (fp_value R m1)) m1"
  shows "add_message_integrity R pwd m = Inr (True, m1)" "add_fingerprint R m1 = Inr (True, m2)"
    "msg_wf m2" "validate_fingerprint R (msg_bytes m2)" "list_all kind_ok (msg_attrs m2)"
    "filter known_attr (msg_attrs m2) = filter known_attr (msg_attrs m) @ [mi_attr (mi_value R pwd m)]"
    "validate_message_integrity_of_type R STUN_ATTR_MESSAGE_INTEGRITY 20 (msg_bytes m2) pwd = Inr True"
proof -
  let ?mi = "mi_attr (mi_value R pwd m)"
  have mi: "attr_wf ?mi" "attr_length ?mi = 20" "attr_type ?mi = STUN_ATTR_MESSAGE_INTEGRITY"
    using mi_value_length by (simp_all add: mi_attr_def mi_attr_wf)
  have mib: "attr_bytes ?mi = be16 STUN_ATTR_MESSAGE_INTEGRITY @ be16 20 @ mi_value R pwd m"
    by (simp add: mi_attr_def mi_attr_bytes mi_value_length)
  have awf: "list_all attr_wf (msg_attrs m)" using wf by (simp add: msg_wf_def)
  have "msg_wf (add_attribute ?mi m)"
    using wf mi room mib mi_value_length by (intro add_attribute_wf) auto
  then have wf1: "msg_wf m1" by (simp add: m1_def msg_wf_def)
  have at1: "msg_attrs m1 = msg_attrs m @ [?mi]" by (simp add: m1_def)
  have room1: "length (attrs_bytes (msg_attrs m1)) + 8 < 2 ^ 16"
    using room mib mi_value_length by (simp add: at1)
  show "add_message_integrity R pwd m = Inr (True, m1)"
    unfolding m1_def by (rule add_message_integrity_eq [OF awf])
  show "add_fingerprint R m1 = Inr (True, m2)"
    unfolding m2_def using wf1 by (intro add_fingerprint_eq) (simp add: msg_wf_def)
  show wf2: "msg_wf m2" and "validate_fingerprint R (msg_bytes m2)"
    unfolding m2_def by (rule fingerprint_valid [OF wf1 room1])+
  have at2: "msg_attrs m2 = msg_attrs m @ ?mi # [fp_attr (fp_value R m1)]"
    by (simp add: m2_def at1)
  have kmi: "kind_ok ?mi" "known_attr ?mi"
    by (simp_all add: mi_attr_def StunByteStringAttribute_str_def copy_bytes_def kind_ok_def
        known_attr_def get_attribute_value_type_def)
  have kfp: "kind_ok (fp_attr v)" "\<not> known_attr (fp_attr v)" for v
    by (simp_all add: fp_attr_def StunUint32Attribute_def kind_ok_def known_attr_def
        get_attribute_value_type_def stun_attr_types)
  show "list_all kind_ok (msg_attrs m2)" using kinds kmi kfp by (simp add: at2)
  show "filter known_attr (msg_attrs m2) = filter known_attr (msg_attrs m) @ [?mi]"
    using kmi kfp by (simp add: at2)
  have pay: "attr_payload ?mi = mi_value R pwd m"
    by (simp add: mi_attr_def StunByteStringAttribute_str_def copy_bytes_def attr_payload_def mi_value_length)
  have "msg_length (add_attribute (mi_attr (replicate 20 0x30)) m) =
      of_nat (length (attrs_bytes (msg_attrs m)) + 24)"
  proof -
    have "msg_length m = of_nat (length (attrs_bytes (msg_attrs m)))"
      using wf by (metis msg_wf_def of_nat_unat ucast_id)
    moreover have "attr_length (mi_attr (replicate 20 0x30)) = 20" by (simp add: mi_attr_def mi_attr_wf)
    ultimately show ?thesis by (simp add: add_attribute_def Let_def k_stun_attribute_header_size_def)
  qed
  then have "header_bytes (m2\<lparr> msg_length := of_nat (length (attrs_bytes (msg_attrs m)) + 24) \<rparr>) =
      header_bytes (add_attribute (mi_attr (replicate 20 0x30)) m)"
    by (intro header_bytes_cong) (simp_all add: m2_def m1_def)
  then show "validate_message_integrity_of_type R STUN_ATTR_MESSAGE_INTEGRITY 20 (msg_bytes m2) pwd = Inr True"
    using validate_mi_eq [OF wf2 at2 mi(3) fresh, of pwd] pay mi_value_length
    by (simp add: mi_value_def)
qed

lemma signed_roundtrip:
  fixes pwd :: bytes and m :: stun_message
  assumes wf: "msg_wf m" and kinds: "list_all kind_ok (msg_attrs m)"
    and fresh: "\<forall>a \<in> set (msg_attrs m). attr_type a \<noteq> STUN_ATTR_MESSAGE_INTEGRITY"
    and ty: "msg_type m AND 0x0800 = 0"
    and room: "length (attrs_bytes (msg_attrs m)) + 32 < 2 ^ 16"
  shows "\<exists>m1 m2 buf m3 m4. add_message_integrity R pwd m = Inr (True, m1)
     \<and> add_fingerprint R m1 = Inr (True, m2) \<and> stun_write R m2 [] = Inr (Some buf)
     \<and> validate_fingerprint R buf
     \<and> stun_read R StunMessage_new buf = Some (Some (m3, []))
     \<and> msg_type m3 = msg_type m \<and> msg_transaction_id m3 = msg_transaction_id m
     \<and> filter known_attr (msg_attrs m) = butlast (msg_attrs m3)
     \<and> validate_message_integrity R pwd m3 = Inr (k_integrity_ok, m4)"
proof -
  let ?mi = "mi_attr (mi_value R pwd m)"
  define m1 where "m1 = (add_attribute ?mi m)\<lparr> msg_password := pwd, msg_integrity := k_integrity_ok \<rparr>"
  define m2 where "m2 = add_attribute (fp_attr (fp_value R m1)) m1"
  note s = signed_message [OF wf kinds fresh ty room, of pwd,
      folded m1_def, folded m2_def]
  define m3 where "m3 = StunMessage_new\<lparr> msg_buffer := msg_bytes m2, msg_type := msg_type m2,
     msg_length := msg_length m2, msg_transaction_id := msg_transaction_id m2,
     msg_attrs := filter known_attr (msg_attrs m2) \<rparr>"
  have same: "msg_type m2 = msg_type m" "msg_transaction_id m2 = msg_transaction_id m"
    by (simp_all add: m2_def m1_def)
  have w: "stun_write R m2 [] = Inr (Some (msg_bytes m2))"
    using stun_write_wf [OF s(3), of "[]"] by simp
  have r: "stun_read R StunMessage_new (msg_bytes m2) = Some (Some (m3, []))"
    unfolding m3_def using stun_read_bytes [OF s(3,5)] ty same by simp
  have at3: "msg_attrs m3 = filter known_attr (msg_attrs m) @ [?mi]"
    by (simp add: m3_def s(6))
  have "find (\<lambda>a. attr_type a = STUN_ATTR_MESSAGE_INTEGRITY) (msg_attrs m3) \<noteq> None"
    unfolding find_None_iff at3 using mi_attr_type by fastforce
  then obtain m4 where "validate_message_integrity R pwd m3 = Inr (k_integrity_ok, m4)"
    using s(7) by (auto simp: validate_message_integrity_def get_attribute_def Let_def m3_def
        k_stun_message_integrity_size_def split: option.splits)
  moreover have "msg_type m3 = msg_type m" "msg_transaction_id m3 = msg_transaction_id m"
    using same by (simp_all add: m3_def)
  moreover have "filter known_attr (msg_attrs m) = butlast (msg_attrs m3)" by (simp add: at3)
  ultimately show ?thesis using s(1,2,4) w r by blast
qed

end

subsection \<open>Properties\<close>

text \<open>C1: A message signed with \<^verbatim>\<open>add_message_integrity\<close>, fingerprinted with \<^verbatim>\<open>add_fingerprint\<close> and
  written to the wire passes the receiver: the fingerprint check accepts the datagram, parsing it
  succeeds and returns the type, the transaction id and the known attributes, and
  \<^verbatim>\<open>validate_message_integrity\<close> with the same password answers \<open>k_integrity_ok\<close>.\<close>

theorem stun_sign_then_verify:
  assumes codec: "byte_codec R" and wf: "msg_wf m" and kinds: "list_all kind_ok (msg_attrs m)"
    and fresh: "\<forall>a \<in> set (msg_attrs m). attr_type a \<noteq> STUN_ATTR_MESSAGE_INTEGRITY"
    and ty: "msg_type m AND 0x0800 = 0"
    and room: "length (attrs_bytes (msg_attrs m)) + 32 < 2 ^ 16"
  shows "\<exists>m1 m2 buf m3 m4. add_message_integrity R pwd m = Inr (True, m1)
     \<and> add_fingerprint R m1 = Inr (True, m2) \<and> stun_write R m2 [] = Inr (Some buf)
     \<and> validate_fingerprint R buf
     \<and> stun_read R StunMessage_new buf = Some (Some (m3, []))
     \<and> msg_type m3 = msg_type m \<and> msg_transaction_id m3 = msg_transaction_id m
     \<and> filter known_attr (msg_attrs m) = butlast (msg_attrs m3)
     \<and> validate_message_integrity R pwd m3 = Inr (k_integrity_ok, m4)"
  by (rule byte_codec.signed_roundtrip [OF assms])

definition ping_example :: stun_message where
  "ping_example = add_attribute (StunUint32Attribute STUN_ATTR_PRIORITY 1853824767)
     (add_attribute (StunByteStringAttribute_str STUN_ATTR_USERNAME (bytes_of ''abcd:wxyz''))
        (StunMessage_new\<lparr> msg_type := STUN_BINDING_REQUEST \<rparr>))"

lemmas ping_example_defs = ping_example_def add_attribute_def StunUint32Attribute_def
  StunByteStringAttribute_str_def copy_bytes_def StunMessage_new_def bytes_of_def
  EMPTY_TRANSACTION_ID_def k_stun_attribute_header_size_def pad4_def Let_def

lemma ping_example_wf: "msg_wf ping_example" "list_all kind_ok (msg_attrs ping_example)"
    "\<forall>a \<in> set (msg_attrs ping_example). attr_type a \<noteq> STUN_ATTR_MESSAGE_INTEGRITY"
    "msg_type ping_example AND 0x0800 = 0"
    "length (attrs_bytes (msg_attrs ping_example)) = 24"
  by (simp_all add: ping_example_defs msg_wf_def attr_wf_def attr_bytes_def attr_payload_def kind_ok_def
      get_attribute_value_type_def stun_attr_types STUN_BINDING_REQUEST_def)

theorem stun_sign_then_verify_witness:
  "\<exists>m1 m2 buf m3 m4. add_message_integrity rtc_ref (bytes_of ''secret'') ping_example = Inr (True, m1)
     \<and> add_fingerprint rtc_ref m1 = Inr (True, m2) \<and> stun_write rtc_ref m2 [] = Inr (Some buf)
     \<and> validate_fingerprint rtc_ref buf
     \<and> stun_read rtc_ref StunMessage_new buf = Some (Some (m3, []))
     \<and> msg_type m3 = msg_type ping_example \<and> msg_transaction_id m3 = msg_transaction_id ping_example
     \<and> filter known_attr (msg_attrs ping_example) = butlast (msg_attrs m3)
     \<and> validate_message_integrity rtc_ref (bytes_of ''secret'') m3 = Inr (k_integrity_ok, m4)"
  by (rule stun_sign_then_verify [OF byte_codec_ref ping_example_wf(1-4)]) (simp add: ping_example_wf(5))

text \<open>C2: Exactly the datagrams of at least 28 bytes that carry the magic cookie and end in a FINGERPRINT
  attribute whose value is the CRC-32 of everything before it, exclusive-or 0x5354554E, pass
  \<^verbatim>\<open>validate_fingerprint\<close>.\<close>

theorem fingerprint_accepts_iff:
  assumes "byte_codec R"
  shows "validate_fingerprint R data \<longleftrightarrow>
     (\<exists>pre body. data = body @ be16 STUN_ATTR_FINGERPRINT @ be16 4
                    @ be32 (ComputeCrc32 R body XOR STUN_FINGERPRINT_XOR_VALUE)
        \<and> 20 \<le> length body \<and> 4 dvd length body
        \<and> length pre = 4 \<and> (\<exists>post. body = pre @ be32 k_stun_magic_cookie @ post))"
  using assms by (rule byte_codec.validate_fingerprint_iff)


lemma ping_example_fp:
  "validate_fingerprint rtc_ref (msg_bytes (add_attribute (fp_attr (fp_value rtc_ref ping_example)) ping_example))"
  by (rule ref.fingerprint_valid(2) [OF ping_example_wf(1)]) (simp add: ping_example_wf(5))

theorem fingerprint_accepts_iff_witness:
  "\<exists>pre body. msg_bytes (add_attribute (fp_attr (fp_value rtc_ref ping_example)) ping_example) =
        body @ be16 STUN_ATTR_FINGERPRINT @ be16 4
                    @ be32 (ComputeCrc32 rtc_ref body XOR STUN_FINGERPRINT_XOR_VALUE)
        \<and> 20 \<le> length body \<and> 4 dvd length body
        \<and> length pre = 4 \<and> (\<exists>post. body = pre @ be32 k_stun_magic_cookie @ post)"
  using fingerprint_accepts_iff [OF byte_codec_ref] ping_example_fp by blast

text \<open>C3: Writing a well-formed message and reading the bytes back returns its type, length,
  transaction id and, in order, exactly the attributes whose type the factory knows.\<close>

theorem stun_read_inverts_write:
  assumes codec: "byte_codec R" and wf: "msg_wf m" and kinds: "list_all kind_ok (msg_attrs m)"
    and ty: "msg_type m AND 0x0800 = 0"
  shows "\<exists>buf. stun_write R m [] = Inr (Some buf) \<and> length buf = 20 + unat (msg_length m)
    \<and> stun_read R m0 buf = Some (Some (m0\<lparr> msg_buffer := buf, msg_type := msg_type m,
        msg_length := msg_length m, msg_transaction_id := msg_transaction_id m,
        msg_attrs := filter known_attr (msg_attrs m) \<rparr>, []))"
  using byte_codec.stun_write_wf [OF codec wf, of "[]"] byte_codec.stun_read_bytes [OF codec wf kinds ty]
    length_msg_bytes [OF wf] by auto

theorem stun_read_inverts_write_witness:
  "\<exists>buf. stun_write rtc_ref ping_example [] = Inr (Some buf)
    \<and> length buf = 20 + unat (msg_length ping_example)
    \<and> stun_read rtc_ref StunMessage_new buf = Some (Some (StunMessage_new\<lparr> msg_buffer := buf,
        msg_type := msg_type ping_example, msg_length := msg_length ping_example,
        msg_transaction_id := msg_transaction_id ping_example,
        msg_attrs := filter known_attr (msg_attrs ping_example) \<rparr>, []))"
  by (rule stun_read_inverts_write [OF byte_codec_ref ping_example_wf(1,2,4)])

text \<open>C4: Parsing returns for every datagram; when it succeeds the whole buffer has been consumed, so
  the caller's check that nothing is left never fires.\<close>

theorem stun_read_total:
  assumes "byte_codec R"
  shows "stun_read R m data = Some None \<or> (\<exists>m'. stun_read R m data = Some (Some (m', [])))"
proof -
  obtain r where r: "stun_read R m data = Some r"
    using byte_codec.stun_read_returns [OF assms] by blast
  show ?thesis
  proof (cases r)
    case (Some p)
    then obtain m' rest where "stun_read R m data = Some (Some (m', rest))" using r by (cases p) simp
    then show ?thesis using byte_codec.stun_read_typed(2) [OF assms] by blast
  qed (simp add: r)
qed

theorem stun_read_total_witness:
  "stun_read rtc_ref StunMessage_new [1, 2, 3] = Some None
   \<or> (\<exists>m'. stun_read rtc_ref StunMessage_new [1, 2, 3] = Some (Some (m', [])))"
  by (rule stun_read_total [OF byte_codec_ref])

text \<open>C5: The unchecked downcasts are sound: on a parsed message USERNAME and MESSAGE-INTEGRITY always
  yield a byte string of the announced length and PRIORITY a 32-bit value.\<close>

theorem parsed_casts_sound:
  assumes codec: "byte_codec R" and rd: "stun_read R m data = Some (Some (m', rest))"
  shows "(get_attribute t m' = Some a \<and> t \<in> {STUN_ATTR_USERNAME, STUN_ATTR_MESSAGE_INTEGRITY} \<longrightarrow>
            (\<exists>bs. get_string a = Inr bs \<and> length bs = unat (attr_length a)))
       \<and> (get_attribute STUN_ATTR_PRIORITY m' = Some a \<longrightarrow> (\<exists>v. uint32_value a = Inr v))"
proof -
  note typed = byte_codec.stun_read_typed(1) [OF codec rd]
  have at: "attr_wf a \<and> kind_ok a \<and> attr_type a = t" if "get_attribute t m' = Some a" for t a
    using that typed unfolding get_attribute_def
    by (auto simp: find_Some_iff list_all_length)
  show ?thesis
    by (auto dest!: at simp: kind_ok_def get_attribute_value_type_def get_string_def uint32_value_def
        attr_wf_def stun_attr_types)
qed

theorem parsed_casts_sound_witness:
  "\<exists>bs. get_string (StunByteStringAttribute_str STUN_ATTR_USERNAME (bytes_of ''abcd:wxyz'')) = Inr bs
     \<and> length bs = 9"
proof -
  let ?a = "StunByteStringAttribute_str STUN_ATTR_USERNAME (bytes_of ''abcd:wxyz'')"
  let ?m = "StunMessage_new\<lparr> msg_attrs := filter known_attr (msg_attrs ping_example) \<rparr>"
  have "get_attribute STUN_ATTR_USERNAME ?m = Some ?a" "unat (attr_length ?a) = 9"
    by (simp_all add: get_attribute_def ping_example_defs known_attr_def get_attribute_value_type_def
        stun_attr_types)
  then show ?thesis
    using parsed_casts_sound [OF byte_codec_ref ref.stun_read_bytes [OF ping_example_wf(1,2,4), of StunMessage_new],
        where t = STUN_ATTR_USERNAME and a = ?a]
    by (simp add: get_attribute_def)
qed

definition error_example :: stun_message where
  "error_example = add_attribute (set_reason STUN_ERROR_REASON_UNAUTHORIZED (set_code 401 create_error_code))
     (StunMessage_new\<lparr> msg_type := STUN_BINDING_ERROR_RESPONSE \<rparr>)"

text \<open>No parsed message ever carries an ERROR-CODE attribute (the factory does not know the type),
  so \<^verbatim>\<open>get_error_code_value\<close> answers 600 for every error response that is received.\<close>

theorem parsed_error_code_lost:
  assumes codec: "byte_codec R" and rd: "stun_read R m data = Some (Some (m', rest))"
  shows "get_error_code_value m' = Inr STUN_ERROR_GLOBAL_FAIL"
proof -
  have "get_attribute STUN_ATTR_ERROR_CODE m' = None"
    unfolding get_attribute_def find_None_iff
    using byte_codec.stun_read_typed(1) [OF codec rd]
    by (auto simp: list_all_iff known_attr_def get_attribute_value_type_def stun_attr_types)
  then show ?thesis by (simp add: get_error_code_value_def)
qed

theorem parsed_error_code_lost_witness:
  "get_error_code_value (StunMessage_new\<lparr> msg_buffer := msg_bytes error_example,
     msg_type := STUN_BINDING_ERROR_RESPONSE, msg_length := msg_length error_example,
     msg_transaction_id := EMPTY_TRANSACTION_ID, msg_attrs := [] \<rparr>) = Inr STUN_ERROR_GLOBAL_FAIL
   \<and> error_code (hd (msg_attrs error_example)) = Inr 401"
proof -
  have wf: "msg_wf error_example" "list_all kind_ok (msg_attrs error_example)"
    "msg_type error_example AND 0x0800 = 0" "filter known_attr (msg_attrs error_example) = []"
    "msg_type error_example = STUN_BINDING_ERROR_RESPONSE"
    "msg_transaction_id error_example = EMPTY_TRANSACTION_ID"
    "error_code (hd (msg_attrs error_example)) = Inr 401"
    by (simp_all add: error_example_def ping_example_defs msg_wf_def attr_wf_def attr_bytes_def
        attr_payload_def kind_ok_def known_attr_def get_attribute_value_type_def stun_attr_types
        create_error_code_def STUN_BINDING_ERROR_RESPONSE_def STUN_ERROR_REASON_UNAUTHORIZED_def
        error_code_def)
  show ?thesis
    using parsed_error_code_lost [OF byte_codec_ref ref.stun_read_bytes [OF wf(1-3),
        of StunMessage_new]] wf(4-7) by simp
qed

text \<open>C6: The outcome of the MESSAGE-INTEGRITY check on any well-formed message, by its first
  MESSAGE-INTEGRITY attribute: accepted exactly if its 20 value bytes are the HMAC of the bytes
  before the attribute under a length field that ends at it; and if fewer than 20 bytes follow the
  attribute header, the comparison reads past the end of the datagram.\<close>

theorem integrity_check_spec:
  assumes "byte_codec R" "msg_wf m" "msg_attrs m = as @ a # bs"
    "attr_type a = STUN_ATTR_MESSAGE_INTEGRITY"
    "\<forall>a \<in> set as. attr_type a \<noteq> STUN_ATTR_MESSAGE_INTEGRITY"
  shows "validate_message_integrity_of_type R STUN_ATTR_MESSAGE_INTEGRITY 20 (msg_bytes m) pwd =
    (if length (attr_payload a @ attrs_bytes bs) < 20 then Inl Out_of_bounds
     else Inr (take 20 (attr_payload a @ attrs_bytes bs) =
       ComputeHmac R pwd (header_bytes (m\<lparr> msg_length := of_nat (length (attrs_bytes as) + 24) \<rparr>)
         @ attrs_bytes as) 20))"
  using assms by (rule byte_codec.validate_mi_eq)

definition short_mi_example :: stun_message where
  "short_mi_example = add_attribute (StunByteStringAttribute_str STUN_ATTR_MESSAGE_INTEGRITY []) ping_example"

lemma short_mi_example_wf: "msg_wf short_mi_example" "list_all kind_ok (msg_attrs short_mi_example)"
    "msg_type short_mi_example = STUN_BINDING_REQUEST"
    "length (attrs_bytes (msg_attrs short_mi_example)) = 28"
    "msg_attrs short_mi_example =
       msg_attrs ping_example @ [StunByteStringAttribute_str STUN_ATTR_MESSAGE_INTEGRITY []]"
  by (simp_all add: short_mi_example_def ping_example_defs msg_wf_def attr_wf_def attr_bytes_def
      attr_payload_def kind_ok_def get_attribute_value_type_def stun_attr_types)

theorem integrity_check_spec_witness:
  "validate_message_integrity_of_type rtc_ref STUN_ATTR_MESSAGE_INTEGRITY 20
     (msg_bytes short_mi_example) (bytes_of ''secret'') = Inl Out_of_bounds"
  using integrity_check_spec [OF byte_codec_ref short_mi_example_wf(1,5) _ ping_example_wf(3),
      of "bytes_of ''secret''"]
  by (simp add: StunByteStringAttribute_str_def copy_bytes_def attr_payload_def)

text \<open>A Binding request with an empty MESSAGE-INTEGRITY attribute in front of its FINGERPRINT passes
  the fingerprint check and parses, and then makes \<^verbatim>\<open>validate_message_integrity\<close> compare 20 bytes
  where only 8 are left in the datagram.\<close>

theorem integrity_check_overreads:
  assumes codec: "byte_codec R"
  shows "\<exists>data m. validate_fingerprint R data
     \<and> stun_read R StunMessage_new data = Some (Some (m, []))
     \<and> msg_type m = STUN_BINDING_REQUEST \<and> get_attribute STUN_ATTR_USERNAME m \<noteq> None
     \<and> (\<forall>pwd. validate_message_integrity R pwd m = Inl Out_of_bounds)"
proof -
  let ?mi = "StunByteStringAttribute_str STUN_ATTR_MESSAGE_INTEGRITY []"
  define f where "f = fp_attr (fp_value R short_mi_example)"
  define m2 where "m2 = add_attribute f short_mi_example"
  define m3 where "m3 = StunMessage_new\<lparr> msg_buffer := msg_bytes m2, msg_type := msg_type m2,
     msg_length := msg_length m2, msg_transaction_id := msg_transaction_id m2,
     msg_attrs := filter known_attr (msg_attrs m2) \<rparr>"
  have wf2: "msg_wf m2" and fp: "validate_fingerprint R (msg_bytes m2)"
    unfolding m2_def f_def
    by (rule byte_codec.fingerprint_valid [OF codec short_mi_example_wf(1)];
        simp add: short_mi_example_wf(4))+
  have at2: "msg_attrs m2 = msg_attrs ping_example @ ?mi # [f]"
    by (simp add: m2_def short_mi_example_wf(5))
  have kinds: "list_all kind_ok (msg_attrs m2)"
    using short_mi_example_wf(2) by (simp add: m2_def f_def fp_attr_def StunUint32Attribute_def kind_ok_def
        get_attribute_value_type_def stun_attr_types)
  have ty: "msg_type m2 = STUN_BINDING_REQUEST" by (simp add: m2_def short_mi_example_wf(3))
  have rd: "stun_read R StunMessage_new (msg_bytes m2) = Some (Some (m3, []))"
    unfolding m3_def using byte_codec.stun_read_bytes [OF codec wf2 kinds] ty
    by (simp add: STUN_BINDING_REQUEST_def)
  have "length (attr_payload ?mi @ attrs_bytes [f]) = 8"
    by (simp add: StunByteStringAttribute_str_def copy_bytes_def attr_payload_def f_def fp_attr_bytes)
  then have oob: "validate_message_integrity_of_type R STUN_ATTR_MESSAGE_INTEGRITY 20 (msg_bytes m2) pwd
      = Inl Out_of_bounds" for pwd
    using byte_codec.validate_mi_eq [OF codec wf2 at2 _ ping_example_wf(3), of pwd]
    by (simp add: StunByteStringAttribute_str_def copy_bytes_def)
  have found: "get_attribute STUN_ATTR_MESSAGE_INTEGRITY m3 \<noteq> None" "get_attribute STUN_ATTR_USERNAME m3 \<noteq> None"
    by (simp_all add: get_attribute_def m3_def at2 ping_example_defs known_attr_def
        get_attribute_value_type_def stun_attr_types)
  have "validate_message_integrity R pwd m3 = Inl Out_of_bounds" for pwd
    using found(1) oob by (auto simp: validate_message_integrity_def get_attribute_def Let_def m3_def
        k_stun_message_integrity_size_def split: option.splits)
  then show ?thesis using fp rd ty found(2) by (intro exI [of _ "msg_bytes m2"] exI [of _ m3]) (simp add: m3_def)
qed

theorem integrity_check_overreads_witness:
  "\<exists>data m. validate_fingerprint rtc_ref data
     \<and> stun_read rtc_ref StunMessage_new data = Some (Some (m, []))
     \<and> msg_type m = STUN_BINDING_REQUEST \<and> get_attribute STUN_ATTR_USERNAME m \<noteq> None
     \<and> (\<forall>pwd. validate_message_integrity rtc_ref pwd m = Inl Out_of_bounds)"
  by (rule integrity_check_overreads [OF byte_codec_ref])

text \<open>The test that is meant to keep RTP out of the STUN parser looks at bit 11 of the type: a
  message whose first byte has the RTP version bits 10 is parsed as STUN.\<close>

theorem rtp_version_not_excluded:
  assumes codec: "byte_codec R"
  shows "\<exists>data m. data \<noteq> [] \<and> drop_bit 6 (hd data) = 2
     \<and> stun_read R StunMessage_new data = Some (Some (m, []))"
proof -
  define m where "m = StunMessage_new\<lparr> msg_type := 0x8060 \<rparr>"
  have "msg_wf m" "list_all kind_ok (msg_attrs m)" "msg_type m AND 0x0800 = 0"
    by (simp_all add: m_def StunMessage_new_def msg_wf_def EMPTY_TRANSACTION_ID_def bytes_of_def)
  then have "\<exists>m'. stun_read R StunMessage_new (msg_bytes m) = Some (Some (m', []))"
    using byte_codec.stun_read_bytes [OF codec] by blast
  moreover have "hd (msg_bytes m) = 0x80" "msg_bytes m \<noteq> []"
    by (simp_all add: m_def msg_bytes_def header_bytes_def be16_def)
  ultimately show ?thesis by (intro exI [of _ "msg_bytes m"]) auto
qed

theorem rtp_version_not_excluded_witness:
  "\<exists>data m. data \<noteq> [] \<and> drop_bit 6 (hd data) = 2
     \<and> stun_read rtc_ref StunMessage_new data = Some (Some (m, []))"
  by (rule rtp_version_not_excluded [OF byte_codec_ref])

end
