(* ===== verification/Ice_Connection.thy ===== *)
theory Ice_Connection
  imports Stun
begin

text \<open>
  Candidates, ICE parameters and the data of one \<^verbatim>\<open>IceConnection\<close> (\<^verbatim>\<open>src/ice/candidate.*\<close>,
  \<^verbatim>\<open>src/ice/ice_def.*\<close>, \<^verbatim>\<open>src/ice/ice_credentials.*\<close>, \<^verbatim>\<open>src/ice/ice_connection.*\<close>), with the
  operations that look at a connection or change only its own fields.  The operations that
  emit signals are in \<open>Ice_Channel\<close>, where the receivers of the signals are.

  Times are milliseconds in \<^verbatim>\<open>int64_t\<close>, here \<open>int\<close>; where the code stores one in an \<^verbatim>\<open>int\<close> the
  model narrows it with \<open>to_i32\<close>.
\<close>

subsection \<open>Constants\<close>

definition ICE_UFRAG_LENGTH :: nat where "ICE_UFRAG_LENGTH = 4"
definition ICE_PWD_LENGTH :: nat where "ICE_PWD_LENGTH = 24"
definition STUN_PACKET_SIZE :: int where "STUN_PACKET_SIZE = 60 * 8"
definition WEAK_PING_INTERVAL :: int where
  "WEAK_PING_INTERVAL = 1000 * STUN_PACKET_SIZE div 10000"
definition STRONG_PING_INTERVAL :: int where
  "STRONG_PING_INTERVAL = 1000 * STUN_PACKET_SIZE div 1000"
definition STABLING_CONNECTION_PING_INTERVAL :: int where "STABLING_CONNECTION_PING_INTERVAL = 900"
definition STABLE_CONNECTION_PING_INTERVAL :: int where "STABLE_CONNECTION_PING_INTERVAL = 2500"
definition MIN_PINGS_AT_WEAK_PING_INTERVAL :: int where "MIN_PINGS_AT_WEAK_PING_INTERVAL = 3"
definition WEAK_CONNECTION_RECEIVE_TIMEOUT :: int where "WEAK_CONNECTION_RECEIVE_TIMEOUT = 2500"
definition CONNECTION_WRITE_CONNECT_FAILS :: nat where "CONNECTION_WRITE_CONNECT_FAILS = 5"
definition CONNECTION_WRITE_CONNECT_TIMEOUT :: int where "CONNECTION_WRITE_CONNECT_TIMEOUT = 5000"
definition CONNECTION_WRITE_TIMEOUT :: int where "CONNECTION_WRITE_TIMEOUT = 15000"
definition ICE_TYPE_PREFERENCE_PRFLX :: u32 where "ICE_TYPE_PREFERENCE_PRFLX = 110"
definition ICE_TYPE_PREFERENCE_HOST :: u32 where "ICE_TYPE_PREFERENCE_HOST = 126"
definition RTT_RATIO :: int where "RTT_RATIO = 3"
definition MIN_RTT :: int where "MIN_RTT = 100"
definition MAX_RTT :: int where "MAX_RTT = 60000"

lemma ping_intervals [simp]: "WEAK_PING_INTERVAL = 48" "STRONG_PING_INTERVAL = 480"
  by (simp_all add: WEAK_PING_INTERVAL_def STRONG_PING_INTERVAL_def STUN_PACKET_SIZE_def)

lemmas ice_consts = STABLING_CONNECTION_PING_INTERVAL_def STABLE_CONNECTION_PING_INTERVAL_def
  MIN_PINGS_AT_WEAK_PING_INTERVAL_def WEAK_CONNECTION_RECEIVE_TIMEOUT_def
  CONNECTION_WRITE_CONNECT_FAILS_def CONNECTION_WRITE_CONNECT_TIMEOUT_def
  CONNECTION_WRITE_TIMEOUT_def RTT_RATIO_def MIN_RTT_def MAX_RTT_def

subsection \<open>Candidates and credentials\<close>

datatype ice_component = RTP | RTCP

fun component_id :: "ice_component \<Rightarrow> nat" where
  "component_id RTP = 1" | "component_id RTCP = 2"

record ice_parameters =
  ice_ufrag :: bytes
  ice_pwd :: bytes

record candidate =
  c_foundation :: bytes
  c_component :: ice_component
  c_protocol :: bytes
  c_priority :: u32
  c_address :: socket_address
  c_port :: u16
  c_username :: bytes
  c_password :: bytes
  c_type :: bytes

text \<open>\<open>prec\<close> stands for \<^verbatim>\<open>rtc::IPAddressPrecedence\<close> of the candidate's address.\<close>

definition get_priority :: "(bytes \<Rightarrow> int) \<Rightarrow> u32 \<Rightarrow> int \<Rightarrow> int \<Rightarrow> candidate \<Rightarrow> u32" where
  "get_priority prec type_preference network_adapter_preference relay_preference c =
     (let addr_ref = prec (sa_ip (c_address c)) + relay_preference;
          local_pref = push_bit 8 (word_of_int network_adapter_preference :: u32) OR word_of_int addr_ref
      in push_bit 24 type_preference OR push_bit 8 local_pref
           OR (256 - of_nat (component_id (c_component c))))"

text \<open>\<open>rand\<close> stands for \<^verbatim>\<open>rtc::CreateRandomString\<close> with the random source at the call.\<close>

definition create_random_ice_credentials :: "(nat \<Rightarrow> bytes) \<Rightarrow> (nat \<Rightarrow> bytes) \<Rightarrow> ice_parameters" where
  "create_random_ice_credentials rand1 rand2 =
     \<lparr> ice_ufrag = rand1 ICE_UFRAG_LENGTH, ice_pwd = rand2 ICE_PWD_LENGTH \<rparr>"

subsection \<open>The connection\<close>

datatype write_state = STATE_WRITABLE | STATE_WRITE_UNRELIABLE | STATE_WRITE_INIT | STATE_WRITE_TIMEOUT

fun write_state_value :: "write_state \<Rightarrow> nat" where
  "write_state_value STATE_WRITABLE = 0"
| "write_state_value STATE_WRITE_UNRELIABLE = 1"
| "write_state_value STATE_WRITE_INIT = 2"
| "write_state_value STATE_WRITE_TIMEOUT = 3"

lemma write_state_value_inj [simp]: "write_state_value a = write_state_value b \<longleftrightarrow> a = b"
  by (cases a; cases b) simp_all

datatype pair_state = WAITING | IN_PROGRESS | SUCCEEDED | FAILED

record sent_ping =
  ping_id :: bytes
  sent_time :: int

text \<open>A \<^verbatim>\<open>StunRequest\<close> that waits for its answer: the message it sent and the time it was sent.\<close>

record stun_request =
  req_msg :: stun_message
  req_ts :: int

record ice_connection =
  cn_port :: nat                     \<comment> \<open>which of the channel's ports the connection belongs to\<close>
  cn_local :: candidate              \<comment> \<open>\<^verbatim>\<open>_port->candidates()[0]\<close>, fixed when the port was opened\<close>
  cn_remote :: candidate
  cn_write_state :: write_state
  cn_receiving :: bool
  cn_selected :: bool
  cn_last_ping_sent :: int
  cn_last_ping_response_received :: int
  cn_last_ping_received :: int
  cn_last_data_received :: int
  cn_num_pings_sent :: int
  cn_pings :: "sent_ping list"
  cn_requests :: "bytes \<rightharpoonup> stun_request"
  cn_rtt :: int
  cn_rtt_samples :: int
  cn_state :: pair_state

definition IceConnection_new :: "nat \<Rightarrow> candidate \<Rightarrow> candidate \<Rightarrow> ice_connection" where
  "IceConnection_new port local remote = \<lparr> cn_port = port, cn_local = local, cn_remote = remote,
     cn_write_state = STATE_WRITE_INIT, cn_receiving = False, cn_selected = False,
     cn_last_ping_sent = 0, cn_last_ping_response_received = 0, cn_last_ping_received = 0,
     cn_last_data_received = 0, cn_num_pings_sent = 0, cn_pings = [], cn_requests = Map.empty,
     cn_rtt = 3000, cn_rtt_samples = 0, cn_state = WAITING \<rparr>"

definition writable :: "ice_connection \<Rightarrow> bool" where
  "writable c \<longleftrightarrow> cn_write_state c = STATE_WRITABLE"

definition weak :: "ice_connection \<Rightarrow> bool" where
  "weak c \<longleftrightarrow> \<not> (writable c \<and> cn_receiving c)"

definition active :: "ice_connection \<Rightarrow> bool" where
  "active c \<longleftrightarrow> cn_write_state c \<noteq> STATE_WRITE_TIMEOUT"

definition last_received :: "ice_connection \<Rightarrow> int" where
  "last_received c = max (max (cn_last_ping_received c) (cn_last_ping_response_received c))
     (cn_last_data_received c)"

definition receiving_timeout :: "ice_connection \<Rightarrow> int" where
  "receiving_timeout c = WEAK_CONNECTION_RECEIVE_TIMEOUT"

text \<open>The pair priority.  \<^verbatim>\<open>2 * std::max(g, d)\<close> is computed in 32 bits before it is added.\<close>

definition priority :: "ice_connection \<Rightarrow> u64" where
  "priority c =
     (let g = c_priority (cn_local c);
          d = c_priority (cn_remote c)
      in push_bit 32 (ucast (min g d)) + ucast (2 * max g d) + (if g > d then 1 else 0))"

definition too_many_ping_failed :: "nat \<Rightarrow> int \<Rightarrow> int \<Rightarrow> ice_connection \<Rightarrow> bool" where
  "too_many_ping_failed max_pings rtt now c =
     (if length (cn_pings c) < max_pings then False
      else now > to_i32 (sent_time (cn_pings c ! (max_pings - 1)) + rtt))"

definition too_long_without_response :: "int \<Rightarrow> int \<Rightarrow> ice_connection \<Rightarrow> bool" where
  "too_long_without_response min_time now c =
     (case cn_pings c of [] \<Rightarrow> False | p # _ \<Rightarrow> now > sent_time p + min_time)"

definition miss_response :: "int \<Rightarrow> ice_connection \<Rightarrow> bool" where
  "miss_response now c =
     (case cn_pings c of [] \<Rightarrow> False | p # _ \<Rightarrow> to_i32 (now - sent_time p) > 2 * cn_rtt c)"

definition stable :: "int \<Rightarrow> ice_connection \<Rightarrow> bool" where
  "stable now c \<longleftrightarrow> cn_rtt_samples c > RTT_RATIO + 1 \<and> \<not> miss_response now c"

definition maybe_set_remote_ice_params :: "ice_parameters \<Rightarrow> ice_connection \<Rightarrow> ice_connection" where
  "maybe_set_remote_ice_params p c =
     (if c_username (cn_remote c) = ice_ufrag p \<and> c_password (cn_remote c) = []
      then c\<lparr> cn_remote := (cn_remote c)\<lparr> c_password := ice_pwd p \<rparr> \<rparr> else c)"

definition set_state :: "pair_state \<Rightarrow> ice_connection \<Rightarrow> ice_connection" where
  "set_state s c = (if cn_state c \<noteq> s then c\<lparr> cn_state := s \<rparr> else c)"

text \<open>The new value of \<^verbatim>\<open>_receiving\<close> in \<^verbatim>\<open>update_receiving\<close>.\<close>

definition compute_receiving :: "int \<Rightarrow> ice_connection \<Rightarrow> bool" where
  "compute_receiving now c =
     (if cn_last_ping_sent c < cn_last_ping_response_received c then True
      else last_received c > 0 \<and> now < last_received c + receiving_timeout c)"

text \<open>The timeout window of \<^verbatim>\<open>update_state\<close>: twice the round-trip time, clamped.\<close>

definition clamp_rtt :: "int \<Rightarrow> int" where
  "clamp_rtt r = (if 2 * r < MIN_RTT then MIN_RTT else if 2 * r > MAX_RTT then MAX_RTT else 2 * r)"

subsection \<open>Requests in flight\<close>

definition create_stun_username :: "bytes \<Rightarrow> bytes \<Rightarrow> bytes" where
  "create_stun_username local_ufrag remote_username = remote_username @ bytes_of '':'' @ local_ufrag"

definition prflx_priority :: "candidate \<Rightarrow> u32" where
  "prflx_priority local = push_bit 24 ICE_TYPE_PREFERENCE_PRFLX OR (c_priority local AND 0x00FFFFFF)"

text \<open>\<^verbatim>\<open>ConnectionRequest::prepare\<close>.  The results of the two final calls are ignored by the code.\<close>

definition prepare :: "rtc_base \<Rightarrow> bytes \<Rightarrow> ice_connection \<Rightarrow> stun_message \<Rightarrow> stun_message res" where
  "prepare R local_ufrag c m =
     (let m1 = m\<lparr> msg_type := STUN_BINDING_REQUEST \<rparr>;
          username = create_stun_username local_ufrag (c_username (cn_remote c));
          m2 = add_attribute (StunByteStringAttribute_str STUN_ATTR_USERNAME username) m1;
          m3 = add_attribute (StunUint64Attribute STUN_ATTR_ICE_CONTROLLING 0) m2;
          m4 = add_attribute (StunByteStringAttribute_len STUN_ATTR_USE_CANDIDATE 0) m3;
          m5 = add_attribute (StunUint32Attribute STUN_ATTR_PRIORITY (prflx_priority (cn_local c))) m4
      in res_bind (add_message_integrity R (c_password (cn_remote c)) m5) (\<lambda>(_, m6).
         res_bind (add_fingerprint R m6) (\<lambda>(_, m7). Inr m7)))"

text \<open>\<^verbatim>\<open>StunRequestManager::send\<close> followed by \<^verbatim>\<open>StunRequest::send\<close>: the request is entered under its
  transaction id, time-stamped and written; the bytes, if any, go to the send signal.\<close>

definition request_send ::
    "rtc_base \<Rightarrow> bytes \<Rightarrow> bytes \<Rightarrow> int \<Rightarrow> ice_connection \<Rightarrow> (ice_connection \<times> bytes option) res" where
  "request_send R local_ufrag txid ts c =
     res_bind (prepare R local_ufrag c (StunMessage_new\<lparr> msg_transaction_id := txid \<rparr>)) (\<lambda>m.
       let c1 = c\<lparr> cn_requests := (cn_requests c)(txid \<mapsto> \<lparr> req_msg = m, req_ts = ts \<rparr>) \<rparr>
       in res_bind (stun_write R m []) (\<lambda>w. Inr (c1, w)))"

definition ping :: "rtc_base \<Rightarrow> bytes \<Rightarrow> bytes \<Rightarrow> int \<Rightarrow> int \<Rightarrow> ice_connection
    \<Rightarrow> (ice_connection \<times> bytes option) res" where
  "ping R local_ufrag txid now ts c =
     (let c1 = c\<lparr> cn_last_ping_sent := now, cn_pings := cn_pings c @ [\<lparr> ping_id = txid, sent_time = now \<rparr>] \<rparr>
      in res_bind (request_send R local_ufrag txid ts c1) (\<lambda>(c2, out).
           Inr ((set_state IN_PROGRESS c2)\<lparr> cn_num_pings_sent := cn_num_pings_sent c2 + 1 \<rparr>, out)))"

definition elapsed :: "int \<Rightarrow> stun_request \<Rightarrow> int" where
  "elapsed now r = to_i32 (now - req_ts r)"

subsection \<open>Basic facts\<close>

lemma to_i32_id: "- (2 ^ 31) \<le> x \<Longrightarrow> x < 2 ^ 31 \<Longrightarrow> to_i32 x = x"
  by (simp add: to_i32_def signed_take_bit_int_eq_self)

lemma clamp_rtt_bounds: "MIN_RTT \<le> clamp_rtt r \<and> clamp_rtt r \<le> MAX_RTT"
  by (simp add: clamp_rtt_def ice_consts)

lemma set_state_sel [simp]:
  "cn_state (set_state s c) = s" "cn_write_state (set_state s c) = cn_write_state c"
  "cn_receiving (set_state s c) = cn_receiving c" "cn_remote (set_state s c) = cn_remote c"
  "cn_local (set_state s c) = cn_local c" "cn_pings (set_state s c) = cn_pings c"
  "cn_num_pings_sent (set_state s c) = cn_num_pings_sent c" "cn_rtt (set_state s c) = cn_rtt c"
  "cn_requests (set_state s c) = cn_requests c" "cn_port (set_state s c) = cn_port c"
  "cn_last_ping_sent (set_state s c) = cn_last_ping_sent c"
  by (simp_all add: set_state_def)

end
