(* ===== verification/Ice_Controller.thy ===== *)
theory Ice_Controller
  imports Ice_Connection "HOL-Library.Product_Lexorder"
begin

text \<open>
  \<^verbatim>\<open>IceController\<close> (\<^verbatim>\<open>src/ice/ice_controller.*\<close>): the ordering of the candidate pairs, the choice
  of the selected one and of the next one to ping.

  The controller holds raw pointers.  A pointer is a number, the heap a partial map from
  pointers to connections, and reading through a pointer that was deleted is the value
  \<open>Inl Use_after_free\<close>.  \<^verbatim>\<open>std::set\<close> of pointers iterates in the order of the addresses.
\<close>

subsection \<open>State\<close>

type_synonym ptr = nat
type_synonym conn_heap = "ptr \<rightharpoonup> ice_connection"

record ice_controller =
  ct_selected :: "ptr option"
  ct_connections :: "ptr list"
  ct_pinged :: "ptr set"
  ct_unpinged :: "ptr set"

definition IceController_new :: ice_controller where
  "IceController_new = \<lparr> ct_selected = None, ct_connections = [], ct_pinged = {}, ct_unpinged = {} \<rparr>"

definition deref :: "conn_heap \<Rightarrow> ptr \<Rightarrow> ice_connection res" where
  "deref h p = (case h p of None \<Rightarrow> Inl Use_after_free | Some c \<Rightarrow> Inr c)"

definition k_min_inprovement :: int where "k_min_inprovement = 10"

subsection \<open>Ordering and switching\<close>

definition compare_connections :: "ice_connection \<Rightarrow> ice_connection \<Rightarrow> int" where
  "compare_connections a b =
     (if writable a \<and> \<not> writable b then 1
      else if \<not> writable a \<and> writable b then - 1
      else if write_state_value (cn_write_state a) < write_state_value (cn_write_state b) then 1
      else if write_state_value (cn_write_state a) > write_state_value (cn_write_state b) then - 1
      else if cn_receiving a \<and> \<not> cn_receiving b then 1
      else if \<not> cn_receiving a \<and> cn_receiving b then - 1
      else if priority a > priority b then 1
      else if priority a < priority b then - 1
      else 0)"

text \<open>The comparator handed to the stable sort.\<close>

definition connection_before :: "ice_connection \<Rightarrow> ice_connection \<Rightarrow> bool" where
  "connection_before a b =
     (let cmp = compare_connections a b in if cmp \<noteq> 0 then cmp > 0 else cn_rtt a < cn_rtt b)"

definition ready_to_send :: "ice_connection \<Rightarrow> bool" where
  "ready_to_send c \<longleftrightarrow> writable c \<or> cn_write_state c = STATE_WRITE_UNRELIABLE"

definition sort_connections :: "conn_heap \<Rightarrow> ptr list \<Rightarrow> (ptr \<times> ice_connection) list res" where
  "sort_connections h ps =
     res_bind (res_map (\<lambda>p. res_bind (deref h p) (\<lambda>c. Inr (p, c))) ps) (\<lambda>pcs.
       Inr (stable_sort (\<lambda>x y. connection_before (snd x) (snd y)) pcs))"

definition sort_and_switch_connection ::
    "conn_heap \<Rightarrow> ice_controller \<Rightarrow> (ice_controller \<times> ptr option) res" where
  "sort_and_switch_connection h ct =
     res_bind (sort_connections h (ct_connections ct)) (\<lambda>sorted_conns.
       let ct1 = ct\<lparr> ct_connections := map fst sorted_conns \<rparr>
       in case sorted_conns of
            [] \<Rightarrow> Inr (ct1, None)
          | (top_connection, c) # _ \<Rightarrow>
              if \<not> ready_to_send c \<or> ct_selected ct1 = Some top_connection then Inr (ct1, None)
              else case ct_selected ct1 of
                     None \<Rightarrow> Inr (ct1, Some top_connection)
                   | Some sel \<Rightarrow> res_bind (deref h sel) (\<lambda>s.
                       if cn_rtt c \<le> cn_rtt s - k_min_inprovement then Inr (ct1, Some top_connection)
                       else Inr (ct1, None)))"

subsection \<open>Membership\<close>

definition mark_connection_pinged :: "ptr option \<Rightarrow> ice_controller \<Rightarrow> ice_controller" where
  "mark_connection_pinged conn ct =
     (case conn of
        None \<Rightarrow> ct
      | Some p \<Rightarrow> if p \<in> ct_pinged ct then ct
                  else ct\<lparr> ct_pinged := insert p (ct_pinged ct), ct_unpinged := ct_unpinged ct - {p} \<rparr>)"

definition on_connection_destroyed :: "ptr \<Rightarrow> ice_controller \<Rightarrow> ice_controller" where
  "on_connection_destroyed p ct =
     ct\<lparr> ct_pinged := ct_pinged ct - {p}, ct_unpinged := ct_unpinged ct - {p},
         ct_connections := remove1 p (ct_connections ct) \<rparr>"

definition add_connection :: "ptr \<Rightarrow> ice_controller \<Rightarrow> ice_controller" where
  "add_connection p ct =
     ct\<lparr> ct_connections := ct_connections ct @ [p], ct_unpinged := insert p (ct_unpinged ct) \<rparr>"

definition set_selected_connection :: "ptr option \<Rightarrow> ice_controller \<Rightarrow> ice_controller" where
  "set_selected_connection p ct = ct\<lparr> ct_selected := p \<rparr>"

subsection \<open>Choosing the next connection to ping\<close>

definition get_connection_ping_interval :: "int \<Rightarrow> ice_connection \<Rightarrow> int" where
  "get_connection_ping_interval now c =
     (if cn_num_pings_sent c < MIN_PINGS_AT_WEAK_PING_INTERVAL then WEAK_PING_INTERVAL
      else if \<not> stable now c then STABLING_CONNECTION_PING_INTERVAL
      else STABLE_CONNECTION_PING_INTERVAL)"

definition is_connection_past_ping_interval :: "int \<Rightarrow> ice_connection \<Rightarrow> bool" where
  "is_connection_past_ping_interval now c \<longleftrightarrow>
     now \<ge> cn_last_ping_sent c + get_connection_ping_interval now c"

definition ctl_weak :: "conn_heap \<Rightarrow> ice_controller \<Rightarrow> bool res" where
  "ctl_weak h ct =
     (case ct_selected ct of None \<Rightarrow> Inr True | Some s \<Rightarrow> res_bind (deref h s) (\<lambda>c. Inr (weak c)))"

definition is_pingable :: "conn_heap \<Rightarrow> int \<Rightarrow> ice_controller \<Rightarrow> ptr \<Rightarrow> bool res" where
  "is_pingable h now ct p =
     res_bind (deref h p) (\<lambda>c.
       if c_username (cn_remote c) = [] \<or> c_password (cn_remote c) = [] then Inr False
       else res_bind (ctl_weak h ct) (\<lambda>w.
              if w then Inr True else Inr (is_connection_past_ping_interval now c)))"

definition has_pingable_connection :: "conn_heap \<Rightarrow> int \<Rightarrow> ice_controller \<Rightarrow> bool res" where
  "has_pingable_connection h now ct = res_exists (is_pingable h now ct) (ct_connections ct)"

definition more_pingable :: "conn_heap \<Rightarrow> ptr \<Rightarrow> ptr option \<Rightarrow> bool res" where
  "more_pingable h conn1 conn2 =
     (case conn2 of
        None \<Rightarrow> Inr True
      | Some q \<Rightarrow> res_bind (deref h conn1) (\<lambda>c1. res_bind (deref h q) (\<lambda>c2.
          if cn_last_ping_sent c1 < cn_last_ping_sent c2 then Inr True
          else if cn_last_ping_sent c1 > cn_last_ping_sent c2 then Inr False
          else Inr False)))"

definition find_next_pingable_connection ::
    "conn_heap \<Rightarrow> int \<Rightarrow> ice_controller \<Rightarrow> (ice_controller \<times> ptr option) res" where
  "find_next_pingable_connection h now ct =
     res_bind (case ct_selected ct of
                 None \<Rightarrow> Inr False
               | Some s \<Rightarrow> res_bind (deref h s) (\<lambda>c.
                   Inr (writable c \<and> is_connection_past_ping_interval now c)))
       (\<lambda>selected_due.
        if selected_due then Inr (ct, ct_selected ct)
        else res_bind (res_exists (is_pingable h now ct) (sorted_list_of_set (ct_unpinged ct)))
          (\<lambda>has_pingable.
           let ct1 = (if has_pingable then ct
                      else ct\<lparr> ct_unpinged := ct_unpinged ct \<union> ct_pinged ct, ct_pinged := {} \<rparr>)
           in res_bind (res_fold (\<lambda>p find_conn.
                  res_bind (is_pingable h now ct1 p) (\<lambda>ok.
                    if \<not> ok then Inr find_conn
                    else res_bind (more_pingable h p find_conn) (\<lambda>more.
                           Inr (if more then Some p else find_conn))))
                (sorted_list_of_set (ct_unpinged ct1)) None)
              (\<lambda>find_conn. Inr (ct1, find_conn))))"

record ping_result =
  pr_conn :: "ptr option"
  pr_interval :: int

definition select_connection_to_ping ::
    "conn_heap \<Rightarrow> int \<Rightarrow> int \<Rightarrow> ice_controller \<Rightarrow> (ice_controller \<times> ping_result) res" where
  "select_connection_to_ping h last_ping_sent_ms now ct =
     res_bind (res_exists (\<lambda>p. res_bind (deref h p) (\<lambda>c.
                 Inr (cn_num_pings_sent c < MIN_PINGS_AT_WEAK_PING_INTERVAL))) (ct_connections ct))
       (\<lambda>need_ping_more_at_weak.
     res_bind (ctl_weak h ct) (\<lambda>w.
       let ping_interval = (if w \<or> need_ping_more_at_weak then WEAK_PING_INTERVAL
                            else STRONG_PING_INTERVAL)
       in if now \<ge> last_ping_sent_ms + ping_interval
          then res_bind (find_next_pingable_connection h now ct) (\<lambda>(ct1, conn).
                 Inr (ct1, \<lparr> pr_conn = conn, pr_interval = ping_interval \<rparr>))
          else Inr (ct, \<lparr> pr_conn = None, pr_interval = ping_interval \<rparr>)))"

subsection \<open>The comparator is a strict weak order\<close>

text \<open>Better pairs come first: the better write state, then the receiving one, then the larger
  pair priority, then the smaller round-trip time.\<close>

definition conn_key :: "ice_connection \<Rightarrow> nat \<times> bool \<times> int \<times> int" where
  "conn_key c = (write_state_value (cn_write_state c), \<not> cn_receiving c, - uint (priority c), cn_rtt c)"

lemma writable_value: "writable c \<longleftrightarrow> write_state_value (cn_write_state c) = 0"
  by (cases "cn_write_state c") (simp_all add: writable_def)

lemma connection_before_key: "connection_before a b \<longleftrightarrow> conn_key a < conn_key b"
proof -
  define v w where "v = write_state_value (cn_write_state a)" and "w = write_state_value (cn_write_state b)"
  define p q where "p = uint (priority a)" and "q = uint (priority b)"
  have "compare_connections a b =
      (if v < w then 1 else if w < v then - 1
       else if cn_receiving a \<and> \<not> cn_receiving b then 1 else if \<not> cn_receiving a \<and> cn_receiving b then - 1
       else if q < p then 1 else if p < q then - 1 else 0)"
    unfolding compare_connections_def writable_value word_less_def v_def [symmetric] w_def [symmetric]
      p_def [symmetric] q_def [symmetric] by auto
  moreover have "conn_key a = (v, \<not> cn_receiving a, - p, cn_rtt a)" "conn_key b = (w, \<not> cn_receiving b, - q, cn_rtt b)"
    by (simp_all add: conn_key_def v_def w_def p_def q_def)
  ultimately show ?thesis
    by (cases v w rule: linorder_cases; cases p q rule: linorder_cases; cases "cn_receiving a"; cases "cn_receiving b")
      (simp_all add: connection_before_def)
qed

interpretation conn_order: strict_weak_order connection_before UNIV
  by unfold_locales (auto simp: connection_before_key)

text \<open>The same order on the pointers, seen through a heap.\<close>

abbreviation ptr_before :: "conn_heap \<Rightarrow> ptr \<Rightarrow> ptr \<Rightarrow> bool" where
  "ptr_before h p q \<equiv> connection_before (the (h p)) (the (h q))"

interpretation ptr_order: strict_weak_order "ptr_before h" UNIV for h :: conn_heap
  by unfold_locales (auto simp: connection_before_key)

subsection \<open>Invariant and liveness of the pointers\<close>

definition ctl_inv :: "ice_controller \<Rightarrow> bool" where
  "ctl_inv ct \<longleftrightarrow> distinct (ct_connections ct) \<and> ct_pinged ct \<inter> ct_unpinged ct = {} \<and>
     ct_pinged ct \<union> ct_unpinged ct = set (ct_connections ct)"

definition ctl_live :: "conn_heap \<Rightarrow> ice_controller \<Rightarrow> bool" where
  "ctl_live h ct \<longleftrightarrow> set (ct_connections ct) \<subseteq> dom h \<and> set_option (ct_selected ct) \<subseteq> dom h"

lemma deref_live [simp]: "p \<in> dom h \<Longrightarrow> deref h p = Inr (the (h p))"
  by (auto simp: deref_def split: option.splits)

lemma ctl_inv_new [simp]: "ctl_inv IceController_new"
  by (simp add: ctl_inv_def IceController_new_def)

lemma ctl_inv_mark:
  "ctl_inv ct \<Longrightarrow> set_option conn \<subseteq> set (ct_connections ct) \<Longrightarrow> ctl_inv (mark_connection_pinged conn ct)"
  by (auto simp: ctl_inv_def mark_connection_pinged_def split: option.splits)

lemma ctl_inv_destroyed: "ctl_inv ct \<Longrightarrow> ctl_inv (on_connection_destroyed p ct)"
  by (auto simp: ctl_inv_def on_connection_destroyed_def)

lemma ctl_inv_add:
  "ctl_inv ct \<Longrightarrow> p \<notin> set (ct_connections ct) \<Longrightarrow> ctl_inv (add_connection p ct)"
  by (auto simp: ctl_inv_def add_connection_def)

lemma ctl_inv_select [simp]: "ctl_inv (set_selected_connection p ct) = ctl_inv ct"
  by (simp add: ctl_inv_def set_selected_connection_def)

lemma ctl_finite:
  "ctl_inv ct \<Longrightarrow> finite (ct_unpinged ct)" "ctl_inv ct \<Longrightarrow> finite (ct_pinged ct)"
  by (metis List.finite_set ctl_inv_def finite_Un)+

lemma ctl_unpinged_sub:
  "ctl_inv ct \<Longrightarrow> ct_unpinged ct \<subseteq> set (ct_connections ct)"
  "ctl_inv ct \<Longrightarrow> ct_pinged ct \<subseteq> set (ct_connections ct)"
  by (auto simp: ctl_inv_def)

subsection \<open>What the operations compute while the pointers are live\<close>

definition weak_now :: "conn_heap \<Rightarrow> ice_controller \<Rightarrow> bool" where
  "weak_now h ct = (case ct_selected ct of None \<Rightarrow> True | Some s \<Rightarrow> weak (the (h s)))"

definition pingable :: "conn_heap \<Rightarrow> int \<Rightarrow> ice_controller \<Rightarrow> ptr \<Rightarrow> bool" where
  "pingable h now ct p \<longleftrightarrow>
     (let c = the (h p) in c_username (cn_remote c) \<noteq> [] \<and> c_password (cn_remote c) \<noteq> [] \<and>
        (weak_now h ct \<or> is_connection_past_ping_interval now c))"

definition selected_due :: "conn_heap \<Rightarrow> int \<Rightarrow> ice_controller \<Rightarrow> bool" where
  "selected_due h now ct = (case ct_selected ct of None \<Rightarrow> False
     | Some s \<Rightarrow> writable (the (h s)) \<and> is_connection_past_ping_interval now (the (h s)))"

definition ping_pool :: "conn_heap \<Rightarrow> int \<Rightarrow> ice_controller \<Rightarrow> ptr set" where
  "ping_pool h now ct = (if \<exists>p\<in>ct_unpinged ct. pingable h now ct p then ct_unpinged ct
     else set (ct_connections ct))"

lemma ctl_weak_live: "ctl_live h ct \<Longrightarrow> ctl_weak h ct = Inr (weak_now h ct)"
  by (auto simp: ctl_weak_def weak_now_def ctl_live_def split: option.splits)

lemma is_pingable_live:
  "ctl_live h ct \<Longrightarrow> p \<in> dom h \<Longrightarrow> is_pingable h now ct p = Inr (pingable h now ct p)"
  by (simp add: is_pingable_def pingable_def ctl_weak_live Let_def)

lemma more_pingable_live:
  "p \<in> dom h \<Longrightarrow> set_option q \<subseteq> dom h \<Longrightarrow> more_pingable h p q =
     Inr (case q of None \<Rightarrow> True | Some q' \<Rightarrow> cn_last_ping_sent (the (h p)) < cn_last_ping_sent (the (h q')))"
  by (auto simp: more_pingable_def split: option.splits)

lemma pingable_cong:
  "ct_selected ct' = ct_selected ct \<Longrightarrow> pingable h now ct' = pingable h now ct"
  by (auto simp: pingable_def weak_now_def fun_eq_iff)

text \<open>The search loop: it ends at an accepted element with the least key, if there is one.\<close>

definition least_step :: "('a \<Rightarrow> bool) \<Rightarrow> ('a \<Rightarrow> int) \<Rightarrow> 'a \<Rightarrow> 'a option \<Rightarrow> 'a option" where
  "least_step ok t p r =
     (if \<not> ok p then r else case r of None \<Rightarrow> Some p | Some q \<Rightarrow> if t p < t q then Some p else r)"

lemma fold_least_step:
  "(\<forall>q. r = Some q \<longrightarrow> ok q) \<Longrightarrow> fold (least_step ok t) xs r = Some p \<Longrightarrow>
     (p \<in> set xs \<or> r = Some p) \<and> ok p \<and> (\<forall>q. q \<in> set xs \<and> ok q \<or> r = Some q \<longrightarrow> t p \<le> t q)"
proof (induction xs arbitrary: r)
  case Nil
  then show ?case by simp
next
  case (Cons x xs)
  have ok1: "\<forall>q. least_step ok t x r = Some q \<longrightarrow> ok q"
    using Cons.prems(1) by (auto simp: least_step_def split: option.splits if_splits)
  have "fold (least_step ok t) xs (least_step ok t x r) = Some p" using Cons.prems(2) by simp
  note ih = Cons.IH [OF ok1 this]
  then show ?case
    by (auto simp: least_step_def split: option.splits if_splits) (force+)?
qed

lemma fold_least_step_None:
  "fold (least_step ok t) xs r = None \<longleftrightarrow> r = None \<and> (\<forall>q\<in>set xs. \<not> ok q)"
  by (induction xs arbitrary: r) (auto simp: least_step_def split: option.splits)

lemma search_loop_live:
  assumes "ctl_live h ct" "set xs \<subseteq> dom h" "set_option r \<subseteq> dom h"
  shows "res_fold (\<lambda>p find_conn. res_bind (is_pingable h now ct p) (\<lambda>ok.
           if \<not> ok then Inr find_conn
           else res_bind (more_pingable h p find_conn) (\<lambda>more. Inr (if more then Some p else find_conn))))
         xs r = Inr (fold (least_step (pingable h now ct) (\<lambda>p. cn_last_ping_sent (the (h p)))) xs r)"
  using assms(2,3)
proof (induction xs arbitrary: r)
  case Nil
  then show ?case by simp
next
  case (Cons x xs)
  have x: "x \<in> dom h" using Cons.prems by simp
  have "set_option (least_step (pingable h now ct) (\<lambda>p. cn_last_ping_sent (the (h p))) x r) \<subseteq> dom h"
    using Cons.prems by (auto simp: least_step_def split: option.splits if_splits)
  note ih = Cons.IH [OF _ this]
  show ?case
    using ih Cons.prems x
    by (auto simp: is_pingable_live [OF assms(1)] more_pingable_live least_step_def split: option.splits if_splits)
qed

lemma find_next_live:
  assumes "ctl_live h ct" "ctl_inv ct"
  shows "find_next_pingable_connection h now ct =
    Inr (if selected_due h now ct then (ct, ct_selected ct)
         else (if \<exists>p\<in>ct_unpinged ct. pingable h now ct p then ct
               else ct\<lparr> ct_unpinged := set (ct_connections ct), ct_pinged := {} \<rparr>,
               fold (least_step (pingable h now ct) (\<lambda>p. cn_last_ping_sent (the (h p))))
                 (sorted_list_of_set (ping_pool h now ct)) None))"
proof -
  have sel: "(case ct_selected ct of None \<Rightarrow> Inr False
      | Some s \<Rightarrow> res_bind (deref h s) (\<lambda>c. Inr (writable c \<and> is_connection_past_ping_interval now c)))
      = Inr (selected_due h now ct)"
    using assms(1) by (auto simp: selected_due_def ctl_live_def split: option.splits)
  have fin: "finite (ct_unpinged ct)" using ctl_finite(1) [OF assms(2)] .
  have live: "set (ct_connections ct) \<subseteq> dom h" using assms(1) by (simp add: ctl_live_def)
  have ex: "res_exists (is_pingable h now ct) (sorted_list_of_set (ct_unpinged ct))
      = Inr (\<exists>p\<in>ct_unpinged ct. pingable h now ct p)"
    using res_exists_total [of "sorted_list_of_set (ct_unpinged ct)" "is_pingable h now ct" "pingable h now ct"]
      fin live ctl_unpinged_sub(1) [OF assms(2)] is_pingable_live [OF assms(1)] by (auto simp: subset_iff)
  have un: "ct_unpinged ct \<union> ct_pinged ct = set (ct_connections ct)"
    using assms(2) by (auto simp: ctl_inv_def)
  have loop: "res_fold (\<lambda>p find_conn. res_bind (is_pingable h now ct1 p) (\<lambda>ok.
           if \<not> ok then Inr find_conn
           else res_bind (more_pingable h p find_conn) (\<lambda>more. Inr (if more then Some p else find_conn))))
         (sorted_list_of_set S) None
      = Inr (fold (least_step (pingable h now ct) (\<lambda>p. cn_last_ping_sent (the (h p)))) (sorted_list_of_set S) None)"
    if "ct_selected ct1 = ct_selected ct" "ct_connections ct1 = ct_connections ct"
      "S \<subseteq> set (ct_connections ct)" for ct1 S
  proof -
    have "ctl_live h ct1" using assms(1) that by (simp add: ctl_live_def)
    moreover have "set (sorted_list_of_set S) \<subseteq> dom h"
      using that(3) live finite_subset by fastforce
    ultimately show ?thesis
      using search_loop_live [of h ct1 _ None] pingable_cong [OF that(1)] by simp
  qed
  show ?thesis
    unfolding find_next_pingable_connection_def sel res_bind_Inr ex
    using loop [OF refl refl ctl_unpinged_sub(1) [OF assms(2)]]
      loop [of "ct\<lparr> ct_unpinged := set (ct_connections ct), ct_pinged := {} \<rparr>" "set (ct_connections ct)"]
    by (simp add: ping_pool_def Let_def un)
qed

lemma ping_pool_sub: "ctl_inv ct \<Longrightarrow> ping_pool h now ct \<subseteq> set (ct_connections ct)"
  by (simp add: ping_pool_def ctl_unpinged_sub)

lemma set_sorted_pool [simp]:
  "ctl_inv ct \<Longrightarrow> set (sorted_list_of_set (ping_pool h now ct)) = ping_pool h now ct"
  by (meson List.finite_set finite_subset ping_pool_sub set_sorted_list_of_set)

lemma sort_connections_live:
  assumes "set ps \<subseteq> dom h"
  shows "sort_connections h ps = Inr (map (\<lambda>p. (p, the (h p))) (stable_sort (ptr_before h) ps))"
proof -
  have "res_map (\<lambda>p. res_bind (deref h p) (\<lambda>c. Inr (p, c))) ps = Inr (map (\<lambda>p. (p, the (h p))) ps)"
    using assms by (intro res_map_total) (simp add: subset_iff)
  then show ?thesis by (simp add: sort_connections_def stable_sort_map)
qed

lemma sort_and_switch_live:
  assumes "ctl_live h ct"
  shows "sort_and_switch_connection h ct =
    (let ps = stable_sort (ptr_before h) (ct_connections ct);
         ct1 = ct\<lparr> ct_connections := ps \<rparr>
     in Inr (ct1, if ps \<noteq> [] \<and> ready_to_send (the (h (hd ps))) \<and> ct_selected ct \<noteq> Some (hd ps) \<and>
              (\<forall>s. ct_selected ct = Some s \<longrightarrow> cn_rtt (the (h (hd ps))) \<le> cn_rtt (the (h s)) - k_min_inprovement)
             then Some (hd ps) else None))"
proof -
  have sel: "ct_selected ct = Some s \<Longrightarrow> s \<in> dom h" for s
    using assms by (auto simp: ctl_live_def)
  have ids: "map (fst \<circ> (\<lambda>p. (p, the (h p)))) ps = ps" for ps by (simp add: comp_def)
  show ?thesis
    unfolding sort_and_switch_connection_def
    using assms sel
    by (cases "stable_sort (ptr_before h) (ct_connections ct)"; cases "ct_selected ct")
      (auto simp: sort_connections_live ctl_live_def Let_def ids comp_def)
qed

subsection \<open>A full round of pings\<close>

text \<open>One round of the check timer as far as the controller is concerned: choose a connection and
  mark it.  The heap and the clock may differ from round to round.\<close>

fun ping_rounds :: "(conn_heap \<times> int) list \<Rightarrow> ice_controller \<Rightarrow> (ice_controller \<times> ptr option list) res" where
  "ping_rounds [] ct = Inr (ct, [])"
| "ping_rounds ((h, now) # rest) ct =
     res_bind (find_next_pingable_connection h now ct) (\<lambda>(ct1, conn).
       res_bind (ping_rounds rest (mark_connection_pinged conn ct1)) (\<lambda>(ct2, ps). Inr (ct2, conn # ps)))"

text \<open>What the heap and the clock keep from one round to the next: the next round comes less than
  900 ms later, and a ping of the selected connection shows in its counter and in the time of its
  last ping (lemma \<open>ping_recorded_ping\<close>: \<^verbatim>\<open>IceConnection::ping\<close> does both).\<close>

definition ping_recorded :: "ice_controller \<Rightarrow> conn_heap \<times> int \<Rightarrow> conn_heap \<times> int \<Rightarrow> bool" where
  "ping_recorded ct hn hn' \<longleftrightarrow> snd hn' < snd hn + STABLING_CONNECTION_PING_INTERVAL \<and>
     (\<forall>s. ct_selected ct = Some s \<longrightarrow>
        (let c = the (fst hn s); c' = the (fst hn' s); due = selected_due (fst hn) (snd hn) ct
         in 0 \<le> cn_num_pings_sent c \<and>
            cn_num_pings_sent c + (if due then 1 else 0) \<le> cn_num_pings_sent c' \<and>
            (due \<longrightarrow> snd hn \<le> cn_last_ping_sent c')))"

lemma ping_recorded_ping:
  assumes "ping R ufrag txid now ts c = Inr (c', out)"
  shows "cn_num_pings_sent c' = cn_num_pings_sent c + 1 \<and> cn_last_ping_sent c' = now"
  using assms
  by (auto simp: ping_def request_send_def Let_def set_state_def res_bind_def split: sum.splits)

lemma not_due_again:
  assumes "ping_recorded ct (h, t) (h', t')" "selected_due h t ct" "ct_selected ct = Some s"
    "3 \<le> cn_num_pings_sent (the (h' s))"
  shows "\<not> selected_due h' t' ct"
  using assms
  by (auto simp: ping_recorded_def selected_due_def Let_def is_connection_past_ping_interval_def
      get_connection_ping_interval_def ice_consts)

text \<open>The rounds in which the selected connection jumps the queue.\<close>

abbreviation due_rounds :: "ice_controller \<Rightarrow> (conn_heap \<times> int) list \<Rightarrow> nat" where
  "due_rounds ct hs \<equiv> length (filter (\<lambda>(h, t). selected_due h t ct) hs)"

lemma due_rounds_bound:
  assumes "ct_selected ct = Some s" "successively (ping_recorded ct) hs" "hs \<noteq> []"
  shows "2 * due_rounds ct hs \<le> length hs + 1 + nat (3 - cn_num_pings_sent (the (fst (hd hs) s)))"
  using assms(2,3)
proof (induction hs rule: induct_list012)
  case (3 x y zs)
  obtain h t h' t' where xy: "x = (h, t)" "y = (h', t')" by (cases x, cases y)
  define k k' where "k = cn_num_pings_sent (the (h s))" and "k' = cn_num_pings_sent (the (h' s))"
  have rec: "ping_recorded ct (h, t) (h', t')" using "3.prems"(1) xy by simp
  then have mono: "k + (if selected_due h t ct then 1 else 0) \<le> k'"
    using assms(1) by (simp add: ping_recorded_def Let_def k_def k'_def)
  have suc: "successively (ping_recorded ct) (y # zs)" using "3.prems"(1) by simp
  then have ih: "2 * due_rounds ct (y # zs) \<le> length (y # zs) + 1 + nat (3 - k')"
    using "3.IH"(2) by (simp add: xy k'_def)
  have suc2: "successively (ping_recorded ct) zs" using suc by (cases zs) auto
  show ?case
  proof (cases "selected_due h t ct \<and> 3 \<le> k")
    case False
    then show ?thesis using ih mono by (auto simp: xy k_def [symmetric] split: if_splits)
  next
    case True
    then have "\<not> selected_due h' t' ct"
      using not_due_again [OF rec _ assms(1)] mono by (simp add: k'_def)
    moreover have "zs = [] \<or> 2 * due_rounds ct zs \<le> length zs + 1"
    proof (cases zs)
      case (Cons z zs')
      obtain h'' t'' where z: "z = (h'', t'')" by (cases z)
      have "k' \<le> cn_num_pings_sent (the (h'' s))"
        using suc assms(1) by (auto simp: Cons xy z ping_recorded_def Let_def k'_def split: if_splits)
      moreover have "3 \<le> k'" using True mono by simp
      ultimately show ?thesis using "3.IH"(1) [OF suc2] by (simp add: Cons z)
    qed simp
    ultimately show ?thesis using True by (auto simp: xy)
  qed
qed auto

text \<open>How many rounds without a jump \<open>p\<close> can still wait: the connections before it in this turn, and
  a whole turn more if it was pinged in this one already.\<close>

definition wait_bound :: "ice_controller \<Rightarrow> ptr \<Rightarrow> nat" where
  "wait_bound ct p = card (ct_unpinged ct) + (if p \<in> ct_unpinged ct then 0 else length (ct_connections ct))"

lemma wait_bound_pos: "ctl_inv ct \<Longrightarrow> p \<in> set (ct_connections ct) \<Longrightarrow> 0 < wait_bound ct p"
  by (auto simp: wait_bound_def card_gt_0_iff ctl_finite)

lemma mark_unpinged:
  "ctl_inv ct \<Longrightarrow> ct_unpinged (mark_connection_pinged (Some q) ct) = ct_unpinged ct - {q}"
  by (auto simp: mark_connection_pinged_def ctl_inv_def)

lemma mark_fields [simp]:
  "ct_connections (mark_connection_pinged q ct) = ct_connections ct"
  "ct_selected (mark_connection_pinged q ct) = ct_selected ct"
  by (simp_all add: mark_connection_pinged_def split: option.split)

lemma ping_round_progress:
  assumes inv: "ctl_inv ct" and live: "ctl_live h ct"
    and sel: "set_option (ct_selected ct) \<subseteq> set (ct_connections ct)"
    and p: "p \<in> set (ct_connections ct)" "\<not> selected_due h now ct \<Longrightarrow> pingable h now ct p"
  shows "\<exists>ct1 conn. find_next_pingable_connection h now ct = Inr (ct1, Some conn) \<and>
    ctl_inv (mark_connection_pinged (Some conn) ct1) \<and>
    ct_connections ct1 = ct_connections ct \<and> ct_selected ct1 = ct_selected ct \<and>
    (conn = p \<or> wait_bound (mark_connection_pinged (Some conn) ct1) p + (if selected_due h now ct then 0 else 1)
                \<le> wait_bound ct p)"
proof (cases "selected_due h now ct")
  case True
  then obtain s where s: "ct_selected ct = Some s" by (auto simp: selected_due_def split: option.splits)
  have "card (ct_unpinged ct - {s}) \<le> card (ct_unpinged ct)"
    using ctl_finite(1) [OF inv] by (simp add: card_mono)
  then show ?thesis
    using True find_next_live [OF live inv, of now] s sel ctl_inv_mark [OF inv, of "Some s"]
    by (auto simp: wait_bound_def mark_unpinged [OF inv])
next
  case False
  note ready = p(2) [OF False]
  obtain ct1 r where find: "find_next_pingable_connection h now ct = Inr (ct1, r)"
    and r: "r = fold (least_step (pingable h now ct) (\<lambda>p. cn_last_ping_sent (the (h p))))
        (sorted_list_of_set (ping_pool h now ct)) None"
    and ct1: "ct1 = (if \<exists>p\<in>ct_unpinged ct. pingable h now ct p then ct
        else ct\<lparr> ct_unpinged := set (ct_connections ct), ct_pinged := {} \<rparr>)"
    using find_next_live [OF live inv, of now] False by simp
  have pool: "ping_pool h now ct = ct_unpinged ct1" by (simp add: ping_pool_def ct1)
  have "r \<noteq> None"
    unfolding r fold_least_step_None set_sorted_pool [OF inv] using ready p(1) by (auto simp: ping_pool_def)
  then obtain q where q: "r = Some q" by blast
  have q_in: "q \<in> ct_unpinged ct1"
    using fold_least_step [OF _ q [unfolded r]] set_sorted_pool [OF inv, of h now] by (auto simp: pool)
  have inv1: "ctl_inv ct1" using inv by (simp add: ct1 ctl_inv_def)
  have same: "ct_connections ct1 = ct_connections ct" "ct_selected ct1 = ct_selected ct" by (simp_all add: ct1)
  have inv2: "ctl_inv (mark_connection_pinged (Some q) ct1)"
    using ctl_inv_mark [OF inv1, of "Some q"] q_in ctl_unpinged_sub(1) [OF inv1] by auto
  have less: "card (ct_unpinged ct1 - {q}) + 1 = card (ct_unpinged ct1)"
    using q_in ctl_finite(1) [OF inv1] by (metis Suc_eq_plus1 card_Suc_Diff1)
  have len: "card (set (ct_connections ct)) \<le> length (ct_connections ct)" by (rule card_length)
  have "q = p \<or> wait_bound (mark_connection_pinged (Some q) ct1) p + 1 \<le> wait_bound ct p"
  proof (cases "\<exists>p\<in>ct_unpinged ct. pingable h now ct p")
    case True
    then show ?thesis using less by (auto simp: wait_bound_def mark_unpinged [OF inv] ct1)
  next
    case none: False
    then have "p \<notin> ct_unpinged ct" using ready by blast
    moreover have "ct_unpinged ct1 = set (ct_connections ct)" using none by (simp add: ct1)
    ultimately show ?thesis
      using less len p(1) unfolding wait_bound_def mark_unpinged [OF inv1] mark_fields same by auto
  qed
  then show ?thesis using find q inv2 same False by auto
qed

lemma ping_rounds_serve:
  assumes "ctl_inv ct" "set_option (ct_selected ct) \<subseteq> set (ct_connections ct)" "p \<in> set (ct_connections ct)"
    "\<forall>(h, t)\<in>set hs. ctl_live h ct \<and> (\<not> selected_due h t ct \<longrightarrow> pingable h t ct p)"
  shows "\<exists>ct' ps. ping_rounds hs ct = Inr (ct', map Some ps) \<and> length ps = length hs \<and>
    (p \<in> set ps \<or> length hs < wait_bound ct p + due_rounds ct hs)"
  using assms
proof (induction hs arbitrary: ct)
  case Nil
  then show ?case using wait_bound_pos by (auto intro!: exI [of _ "[]"])
next
  case (Cons hn hs)
  obtain h t where hn: "hn = (h, t)" by (cases hn)
  obtain ct1 q where step: "find_next_pingable_connection h t ct = Inr (ct1, Some q)"
    "ct_connections ct1 = ct_connections ct" "ct_selected ct1 = ct_selected ct"
    and inv2: "ctl_inv (mark_connection_pinged (Some q) ct1)"
    and less: "q = p \<or> wait_bound (mark_connection_pinged (Some q) ct1) p + (if selected_due h t ct then 0 else 1)
                \<le> wait_bound ct p"
    using ping_round_progress [OF Cons.prems(1) _ Cons.prems(2,3), of h t] Cons.prems(4) hn by auto
  define ct2 where "ct2 = mark_connection_pinged (Some q) ct1"
  have same: "ct_connections ct2 = ct_connections ct" "ct_selected ct2 = ct_selected ct"
    by (simp_all add: ct2_def step)
  have due: "selected_due h' t' ct2 = selected_due h' t' ct" for h' t' by (simp add: selected_due_def same)
  have "\<exists>ct' ps. ping_rounds hs ct2 = Inr (ct', map Some ps) \<and> length ps = length hs \<and>
    (p \<in> set ps \<or> length hs < wait_bound ct2 p + due_rounds ct2 hs)"
    using Cons.prems inv2 by (intro Cons.IH)
      (auto simp: ct2_def [symmetric] same due ctl_live_def pingable_cong [OF same(2)])
  then obtain ct' ps where "ping_rounds hs ct2 = Inr (ct', map Some ps)" "length ps = length hs"
    "p \<in> set ps \<or> length hs < wait_bound ct2 p + due_rounds ct hs" by (auto simp: due)
  then show ?case
    using step less hn
    by (intro exI [of _ ct'] exI [of _ "q # ps"]) (auto simp: ct2_def [symmetric])
qed

subsection \<open>Example state\<close>

definition ex_candidate :: "u32 \<Rightarrow> candidate" where
  "ex_candidate prio = \<lparr> c_foundation = [], c_component = RTP, c_protocol = [], c_priority = prio,
     c_address = \<lparr> sa_family = AF_INET, sa_ip = [10, 0, 0, 1], sa_port = 5000 \<rparr>, c_port = 5000,
     c_username = [117], c_password = [112], c_type = [] \<rparr>"

definition ex_connection :: "u32 \<Rightarrow> ice_connection" where
  "ex_connection prio = IceConnection_new 0 (ex_candidate 100) (ex_candidate prio)"

definition ex_heap :: conn_heap where
  "ex_heap = [1 \<mapsto> ex_connection 10,
              2 \<mapsto> (ex_connection 20)\<lparr> cn_write_state := STATE_WRITABLE, cn_rtt := 50 \<rparr>]"

definition ex_controller :: ice_controller where
  "ex_controller = \<lparr> ct_selected = None, ct_connections = [1, 2], ct_pinged = {}, ct_unpinged = {1, 2} \<rparr>"

lemma ex_controller_ok: "ctl_inv ex_controller" "ctl_live ex_heap ex_controller"
  by (auto simp: ctl_inv_def ctl_live_def ex_controller_def ex_heap_def)

text \<open>Rounds every 480 ms in which the selected connection jumps the queue every other time.\<close>

definition ex_round :: "nat \<Rightarrow> conn_heap \<times> int" where
  "ex_round i = ([1 \<mapsto> ex_connection 10,
       2 \<mapsto> (ex_connection 20)\<lparr> cn_write_state := STATE_WRITABLE, cn_receiving := True,
              cn_num_pings_sent := 3 + int i,
              cn_last_ping_sent := 1000 + 480 * int i - (if even i then 900 else 480) \<rparr>],
     1000 + 480 * int i)"

abbreviation ex_selected :: ice_controller where
  "ex_selected \<equiv> ex_controller\<lparr> ct_selected := Some 2, ct_pinged := {1}, ct_unpinged := {2} \<rparr>"

lemma ex_round_due: "selected_due (fst (ex_round i)) (snd (ex_round i)) ex_selected \<longleftrightarrow> even i"
  by (auto simp: selected_due_def ex_round_def writable_def ex_connection_def IceConnection_new_def
      is_connection_past_ping_interval_def get_connection_ping_interval_def stable_def ice_consts RTT_RATIO_def)

lemma ex_round_recorded: "ping_recorded ex_selected (ex_round i) (ex_round (Suc i))"
  unfolding ping_recorded_def ex_round_due
  by (auto simp: ex_round_def ice_consts Let_def)

lemma ex_round_ready:
  "ctl_live (fst (ex_round i)) ex_selected \<and> pingable (fst (ex_round i)) (snd (ex_round i)) ex_selected 1"
  by (auto simp: ex_round_def ctl_live_def ex_controller_def pingable_def weak_now_def weak_def writable_def
      ex_connection_def ex_candidate_def IceConnection_new_def
      is_connection_past_ping_interval_def get_connection_ping_interval_def ice_consts)

lemma successively_upt: "(\<And>i. P i (Suc i)) \<Longrightarrow> successively P [0..<n]"
proof (induction n)
  case (Suc n)
  then show ?case by (cases n) (auto simp: successively_append_iff)
qed simp

subsection \<open>Properties\<close>

text \<open>C7: \<^verbatim>\<open>sort_and_switch_connection\<close> sorts the connections stably, the best first, by write state,
  receiving, pair priority and round-trip time, and asks for a switch exactly if the best one can
  send, is not selected already, and either nothing is selected or its round-trip time is at least
  10 ms smaller than that of the selected one; the bookkeeping invariant is kept.\<close>

theorem sort_and_switch_spec:
  assumes live: "ctl_live h ct" and inv: "ctl_inv ct"
  shows "\<exists>ct' r. sort_and_switch_connection h ct = Inr (ct', r) \<and> ctl_inv ct' \<and>
    mset (ct_connections ct') = mset (ct_connections ct) \<and>
    sorted_wrt (\<lambda>p q. conn_key (the (h p)) \<le> conn_key (the (h q))) (ct_connections ct') \<and>
    (\<forall>k. filter (\<lambda>p. conn_key (the (h p)) = k) (ct_connections ct')
         = filter (\<lambda>p. conn_key (the (h p)) = k) (ct_connections ct)) \<and>
    (\<forall>p. r = Some p \<longleftrightarrow>
       ct_connections ct' \<noteq> [] \<and> p = hd (ct_connections ct') \<and> ready_to_send (the (h p)) \<and>
       ct_selected ct \<noteq> Some p \<and>
       (ct_selected ct = None \<or> cn_rtt (the (h p)) \<le> cn_rtt (the (h (the (ct_selected ct)))) - 10))"
proof -
  define ps where "ps = stable_sort (ptr_before h) (ct_connections ct)"
  have "sorted_wrt (\<lambda>p q. \<not> ptr_before h q p) ps"
    unfolding ps_def by (rule ptr_order.sorted_sort) simp
  then have sorted: "sorted_wrt (\<lambda>p q. conn_key (the (h p)) \<le> conn_key (the (h q))) ps"
    by (simp add: connection_before_key not_less)
  have stab: "filter (\<lambda>p. conn_key (the (h p)) = k) ps = filter (\<lambda>p. conn_key (the (h p)) = k) (ct_connections ct)" for k
  proof (cases "\<exists>w. conn_key (the (h w)) = k")
    case True
    then obtain w where w: "conn_key (the (h w)) = k" by blast
    have "(\<lambda>p. conn_key (the (h p)) = k) = (\<lambda>z. \<not> ptr_before h w z \<and> \<not> ptr_before h z w)"
      by (auto simp: connection_before_key w fun_eq_iff)
    then show ?thesis unfolding ps_def by (simp add: ptr_order.stable_sort_stable)
  next
    case False
    then show ?thesis by simp
  qed
  define r where "r = (if ps \<noteq> [] \<and> ready_to_send (the (h (hd ps))) \<and> ct_selected ct \<noteq> Some (hd ps) \<and>
      (\<forall>s. ct_selected ct = Some s \<longrightarrow> cn_rtt (the (h (hd ps))) \<le> cn_rtt (the (h s)) - k_min_inprovement)
    then Some (hd ps) else None)"
  have r: "r = Some p \<longleftrightarrow> ps \<noteq> [] \<and> p = hd ps \<and> ready_to_send (the (h p)) \<and> ct_selected ct \<noteq> Some p \<and>
       (ct_selected ct = None \<or> cn_rtt (the (h p)) \<le> cn_rtt (the (h (the (ct_selected ct)))) - 10)" for p
    by (cases "ct_selected ct") (auto simp: r_def k_min_inprovement_def)
  have run: "sort_and_switch_connection h ct = Inr (ct\<lparr> ct_connections := ps \<rparr>, r)"
    unfolding sort_and_switch_live [OF live] Let_def ps_def [symmetric] r_def ..
  have inv': "ctl_inv (ct\<lparr> ct_connections := ps \<rparr>)" using inv by (simp add: ctl_inv_def ps_def)
  have perm: "mset ps = mset (ct_connections ct)" by (simp add: ps_def)
  show ?thesis
    using run inv' perm sorted stab r by (intro exI [of _ "ct\<lparr> ct_connections := ps \<rparr>"] exI [of _ r]) simp
qed

theorem sort_and_switch_spec_witness:
  "\<exists>ct' r. sort_and_switch_connection ex_heap ex_controller = Inr (ct', r) \<and> ctl_inv ct'"
  using sort_and_switch_spec [OF ex_controller_ok(2,1)] by blast

text \<open>C8: The choice of the next connection to ping: a selected writable connection that is due wins;
  otherwise one is chosen exactly if some connection can be pinged, it can be pinged, and among the
  candidates of the round (those not pinged yet, or all of them when none of these can be pinged)
  it is one that was pinged longest ago.  The bookkeeping invariant is kept.\<close>

theorem find_next_pingable_spec:
  assumes live: "ctl_live h ct" and inv: "ctl_inv ct"
  shows "\<exists>ct' r. find_next_pingable_connection h now ct = Inr (ct', r) \<and> ctl_inv ct' \<and>
    ct_connections ct' = ct_connections ct \<and> ct_selected ct' = ct_selected ct \<and>
    (selected_due h now ct \<longrightarrow> r = ct_selected ct) \<and>
    (\<not> selected_due h now ct \<longrightarrow>
       (r = None \<longleftrightarrow> (\<forall>p\<in>set (ct_connections ct). \<not> pingable h now ct p)) \<and>
       (\<forall>p. r = Some p \<longrightarrow> p \<in> ping_pool h now ct \<and> pingable h now ct p \<and>
          (\<forall>q\<in>ping_pool h now ct. pingable h now ct q \<longrightarrow>
             cn_last_ping_sent (the (h p)) \<le> cn_last_ping_sent (the (h q)))))"
proof (cases "selected_due h now ct")
  case True
  then show ?thesis using find_next_live [OF live inv, of now] inv by auto
next
  case False
  define t where "t = (\<lambda>p. cn_last_ping_sent (the (h p)))"
  define r where "r = fold (least_step (pingable h now ct) t) (sorted_list_of_set (ping_pool h now ct)) None"
  define ct' where "ct' = (if \<exists>p\<in>ct_unpinged ct. pingable h now ct p then ct
    else ct\<lparr> ct_unpinged := set (ct_connections ct), ct_pinged := {} \<rparr>)"
  have find: "find_next_pingable_connection h now ct = Inr (ct', r)"
    using find_next_live [OF live inv, of now] False by (simp add: r_def t_def ct'_def)
  have inv': "ctl_inv ct'" using inv by (simp add: ct'_def ctl_inv_def)
  have none: "r = None \<longleftrightarrow> (\<forall>p\<in>set (ct_connections ct). \<not> pingable h now ct p)"
    unfolding r_def fold_least_step_None set_sorted_pool [OF inv]
    using ctl_unpinged_sub(1) [OF inv] by (auto simp: ping_pool_def)
  have some: "p \<in> ping_pool h now ct \<and> pingable h now ct p \<and>
      (\<forall>q\<in>ping_pool h now ct. pingable h now ct q \<longrightarrow> t p \<le> t q)" if "r = Some p" for p
    using fold_least_step [OF _ that [unfolded r_def]] inv by auto
  show ?thesis
    using find inv' none some False unfolding t_def by (intro exI [of _ ct'] exI [of _ r]) (simp add: ct'_def)
qed

theorem find_next_pingable_spec_witness:
  "\<exists>ct' r. find_next_pingable_connection ex_heap 1000 ex_controller = Inr (ct', r) \<and> ctl_inv ct'"
  using find_next_pingable_spec [OF ex_controller_ok(2,1)] by blast

text \<open>C9: No starvation, while the set of connections and the selection stay as they are.  The heaps,
  the clock and the other connections are arbitrary: the selected connection may jump the queue, and
  any other connection may be pingable in one round and not in the next.  A connection \<open>p\<close> that can
  be pinged in each round without a jump is pinged at the latest in the \<open>u + n\<close>-th round without a
  jump, where \<open>n\<close> connections exist and \<open>u\<close> wait to be pinged in this turn.  The jumps cannot take all
  rounds: if consecutive rounds are less than 900 ms apart and each ping of the selected connection
  is recorded in it, then \<open>p\<close> is pinged within any \<open>2 * (u + n) + 4\<close> rounds.  No round faults or is
  left without a ping.\<close>

theorem ping_rounds_no_starvation:
  assumes inv: "ctl_inv ct" and sel: "set_option (ct_selected ct) \<subseteq> set (ct_connections ct)"
    and p: "p \<in> set (ct_connections ct)"
    and ready: "\<forall>(h, t)\<in>set hs. ctl_live h ct \<and> (\<not> selected_due h t ct \<longrightarrow> pingable h t ct p)"
  shows "\<exists>ct' ps. ping_rounds hs ct = Inr (ct', map Some ps) \<and> length ps = length hs \<and>
    (card (ct_unpinged ct) + length (ct_connections ct) \<le> length (filter (\<lambda>(h, t). \<not> selected_due h t ct) hs)
       \<longrightarrow> p \<in> set ps) \<and>
    (successively (ping_recorded ct) hs \<and>
     2 * (card (ct_unpinged ct) + length (ct_connections ct)) + 4 \<le> length hs \<longrightarrow> p \<in> set ps)"
proof -
  obtain ct' ps where run: "ping_rounds hs ct = Inr (ct', map Some ps)" "length ps = length hs"
    and served: "p \<in> set ps \<or> length hs < wait_bound ct p + due_rounds ct hs"
    using ping_rounds_serve [OF assms] by blast
  have wait: "wait_bound ct p \<le> card (ct_unpinged ct) + length (ct_connections ct)"
    by (simp add: wait_bound_def)
  have split: "length hs = due_rounds ct hs + length (filter (\<lambda>(h, t). \<not> selected_due h t ct) hs)"
    using sum_length_filter_compl [of "\<lambda>(h, t). selected_due h t ct" hs] by (simp add: case_prod_unfold)
  have few: "2 * due_rounds ct hs \<le> length hs + 4" if "successively (ping_recorded ct) hs" "2 \<le> length hs"
  proof (cases "ct_selected ct")
    case None
    then have "due_rounds ct hs = 0" by (simp add: selected_due_def)
    then show ?thesis by simp
  next
    case (Some s)
    from that obtain x y zs where hs: "hs = x # y # zs" by (cases hs; cases "tl hs") auto
    have "0 \<le> cn_num_pings_sent (the (fst (hd hs) s))"
      using that(1) Some by (simp add: hs ping_recorded_def Let_def)
    then show ?thesis using due_rounds_bound [OF Some that(1)] hs by simp
  qed
  define d f where "d = due_rounds ct hs" and "f = length (filter (\<lambda>(h, t). \<not> selected_due h t ct) hs)"
  have "p \<in> set ps" if "card (ct_unpinged ct) + length (ct_connections ct) \<le> f"
    using served wait split that unfolding d_def [symmetric] f_def [symmetric] by linarith
  moreover have "p \<in> set ps" if "successively (ping_recorded ct) hs"
    "2 * (card (ct_unpinged ct) + length (ct_connections ct)) + 4 \<le> length hs"
  proof -
    have "2 * d \<le> length hs + 4" using few that unfolding d_def by simp
    moreover have "p \<in> set ps \<or> length hs < wait_bound ct p + d" using served by (simp add: d_def)
    ultimately show ?thesis using wait that(2) by auto
  qed
  ultimately show ?thesis using run unfolding f_def [symmetric] by blast
qed

theorem ping_rounds_no_starvation_witness:
  "\<exists>ct' ps. ping_rounds (map ex_round [0..<10]) ex_selected = Inr (ct', map Some ps) \<and> 1 \<in> set ps"
proof -
  have "ctl_inv ex_selected" "set_option (ct_selected ex_selected) \<subseteq> set (ct_connections ex_selected)"
      "1 \<in> set (ct_connections ex_selected)"
    by (auto simp: ctl_inv_def ex_controller_def)
  moreover have "\<forall>(h, t)\<in>set (map ex_round [0..<10]). ctl_live h ex_selected \<and>
      (\<not> selected_due h t ex_selected \<longrightarrow> pingable h t ex_selected 1)"
    using ex_round_ready by auto (metis fst_conv snd_conv)+
  moreover have "successively (ping_recorded ex_selected) (map ex_round [0..<10])"
    unfolding successively_map by (intro successively_upt ex_round_recorded)
  moreover have "2 * (card (ct_unpinged ex_selected) + length (ct_connections ex_selected)) + 4
      \<le> length (map ex_round [0..<10])"
    by (simp add: ex_controller_def)
  ultimately show ?thesis using ping_rounds_no_starvation [of ex_selected 1 "map ex_round [0..<10]"] by blast
qed

text \<open>C10: The pace of the checks: the interval is 48 ms while the selected connection is weak or some
  connection has had fewer than three pings, else 480 ms; and no connection is chosen before the
  interval since the last ping has passed.\<close>

theorem select_connection_to_ping_pace:
  assumes live: "ctl_live h ct" and inv: "ctl_inv ct"
  shows "\<exists>ct' pr. select_connection_to_ping h last_sent now ct = Inr (ct', pr) \<and> ctl_inv ct' \<and>
    pr_interval pr = (if weak_now h ct \<or> (\<exists>p\<in>set (ct_connections ct). cn_num_pings_sent (the (h p)) < 3)
                      then 48 else 480) \<and>
    (now < last_sent + pr_interval pr \<longrightarrow> pr_conn pr = None \<and> ct' = ct) \<and>
    (now \<ge> last_sent + pr_interval pr \<longrightarrow>
       find_next_pingable_connection h now ct = Inr (ct', pr_conn pr))"
proof -
  have need: "res_exists (\<lambda>p. res_bind (deref h p) (\<lambda>c.
        Inr (cn_num_pings_sent c < MIN_PINGS_AT_WEAK_PING_INTERVAL))) (ct_connections ct)
      = Inr (\<exists>p\<in>set (ct_connections ct). cn_num_pings_sent (the (h p)) < MIN_PINGS_AT_WEAK_PING_INTERVAL)"
    using live by (intro res_exists_total) (simp add: ctl_live_def subset_iff)
  obtain ct' r where find: "find_next_pingable_connection h now ct = Inr (ct', r)" "ctl_inv ct'"
    using find_next_live [OF live inv, of now] inv
    by (auto simp: ctl_inv_def intro!: that split: if_splits)
  show ?thesis
    unfolding select_connection_to_ping_def need ctl_weak_live [OF live] res_bind_Inr
    using find inv by (auto simp: Let_def ice_consts)
qed

theorem select_connection_to_ping_pace_witness:
  "\<exists>ct' pr. select_connection_to_ping ex_heap 0 1000 ex_controller = Inr (ct', pr) \<and> ctl_inv ct'"
  using select_connection_to_ping_pace [OF ex_controller_ok(2,1)] by blast

end
