(* ===== verification/Udp_Port.thy ===== *)
theory Udp_Port
  imports Ice_Controller
begin

text \<open>
  \<^verbatim>\<open>UDPPort\<close> (\<^verbatim>\<open>src/ice/udp_port.*\<close>): one local socket of a channel, its candidate, the table of
  connections by remote address, the admission of STUN messages and the error responses.  The
  handler of incoming datagrams, which calls into connections and the channel, is in
  \<open>Ice_Channel\<close>.

  Library functions that are not part of the repository come with the environment \<open>ice_env\<close>:
  the byte codec, the clock (the value of each successive reading of \<^verbatim>\<open>rtc::TimeMillis\<close>), the
  source of random strings, \<^verbatim>\<open>rtc::split\<close>, \<^verbatim>\<open>rtc::GetNextMovingAverage\<close>,
  \<^verbatim>\<open>rtc::IPAddressPrecedence\<close> and \<^verbatim>\<open>SocketAddress::HostAsURIString\<close>.
\<close>

subsection \<open>Environment\<close>

record ice_env =
  env_base :: rtc_base
  env_time :: "nat \<Rightarrow> int"
  env_rand :: "nat \<Rightarrow> nat \<Rightarrow> bytes"
  env_split :: "bytes \<Rightarrow> byte \<Rightarrow> bytes list"
  env_moving_average :: "int \<Rightarrow> int \<Rightarrow> int \<Rightarrow> int"
  env_precedence :: "bytes \<Rightarrow> int"
  env_host_uri :: "socket_address \<Rightarrow> bytes"

fun join :: "byte \<Rightarrow> bytes list \<Rightarrow> bytes" where
  "join d [] = []"
| "join d [x] = x"
| "join d (x # y # ys) = x @ [d] @ join d (y # ys)"

text \<open>What the code relies on: the laws of the codec, random strings of the requested length,
  splitting at every delimiter, and a moving average that stays between its arguments.\<close>

locale ice_environment =
  fixes E :: ice_env
  assumes codec: "byte_codec (env_base E)"
    and rand_length: "length (env_rand E n k) = k"
    and split_join: "join d (env_split E s d) = s"
    and split_fields: "f \<in> set (env_split E s d) \<Longrightarrow> d \<notin> set f"
    and average_between: "0 \<le> r \<Longrightarrow> min a b \<le> env_moving_average E a b r \<and> env_moving_average E a b r \<le> max a b"

subsection \<open>The port\<close>

type_synonym datagram = "socket_address \<times> bytes"

record udp_port =
  pt_component :: ice_component
  pt_ice_params :: ice_parameters
  pt_socket :: int
  pt_async_socket :: bool            \<comment> \<open>whether \<^verbatim>\<open>_async_socket\<close> was created\<close>
  pt_local_addr :: socket_address
  pt_candidates :: "candidate list"
  pt_connections :: "socket_address \<rightharpoonup> ptr"

definition empty_address :: socket_address where
  "empty_address = \<lparr> sa_family = AF_UNSPEC, sa_ip = [], sa_port = 0 \<rparr>"

definition UDPPort_new :: "ice_component \<Rightarrow> ice_parameters \<Rightarrow> udp_port" where
  "UDPPort_new component params = \<lparr> pt_component = component, pt_ice_params = params, pt_socket = - 1,
     pt_async_socket = False, pt_local_addr = empty_address, pt_candidates = [],
     pt_connections = Map.empty \<rparr>"

definition LOCAL_PORT_TYPE :: bytes where "LOCAL_PORT_TYPE = bytes_of ''host''"
definition PRFLX_PORT_TYPE :: bytes where "PRFLX_PORT_TYPE = bytes_of ''prflx''"

text \<open>The decimal digits of \<^verbatim>\<open>std::to_string\<close> on an unsigned number.\<close>

fun decimal :: "nat \<Rightarrow> bytes" where
  "decimal n = (if n < 10 then [of_nat (48 + n)] else decimal (n div 10) @ [of_nat (48 + n mod 10)])"

declare decimal.simps [simp del]

definition compute_foundation :: "ice_env \<Rightarrow> bytes \<Rightarrow> bytes \<Rightarrow> socket_address \<Rightarrow> bytes" where
  "compute_foundation E ty protocol base =
     decimal (unat (ComputeCrc32 (env_base E) (ty @ env_host_uri E base @ protocol)))"

text \<open>The results of the socket calls of \<^verbatim>\<open>create_ice_candidate\<close>: descriptor, setting it
  non-blocking, binding it in the port range, and the port the kernel chose.\<close>

record socket_calls =
  sc_create :: int
  sc_setnonblock :: int
  sc_bind :: "int \<Rightarrow> int \<Rightarrow> int"
  sc_get_port :: "u16 option"

definition create_ice_candidate :: "ice_env \<Rightarrow> socket_calls \<Rightarrow> addr_family \<Rightarrow> bytes \<Rightarrow> int \<Rightarrow> int
    \<Rightarrow> udp_port \<Rightarrow> int \<times> udp_port \<times> candidate option" where
  "create_ice_candidate E sc fam ip min_port max_port pt =
     (let pt1 = pt\<lparr> pt_socket := sc_create sc \<rparr>; closed = pt\<lparr> pt_socket := - 1 \<rparr> in
      if sc_create sc < 0 then (- 1, pt1, None)
      else if sc_setnonblock sc \<noteq> 0 then (- 1, closed, None)
      else if sc_bind sc min_port max_port \<noteq> 0 then (- 1, closed, None)
      else case sc_get_port sc of
        None \<Rightarrow> (- 1, closed, None)
      | Some port \<Rightarrow>
          let addr = \<lparr> sa_family = fam, sa_ip = ip, sa_port = port \<rparr>;
              c0 = \<lparr> c_foundation = [], c_component = pt_component pt, c_protocol = bytes_of ''udp'',
                     c_priority = 0, c_address = addr, c_port = port,
                     c_username = ice_ufrag (pt_ice_params pt), c_password = ice_pwd (pt_ice_params pt),
                     c_type = LOCAL_PORT_TYPE \<rparr>;
              c = c0\<lparr> c_priority := get_priority (env_precedence E) ICE_TYPE_PREFERENCE_HOST 0 0 c0,
                      c_foundation := compute_foundation E (c_type c0) (c_protocol c0) (c_address c0) \<rparr>
          in (0, pt1\<lparr> pt_async_socket := True, pt_local_addr := addr,
                      pt_candidates := pt_candidates pt @ [c] \<rparr>, Some c))"

definition port_send_to :: "udp_port \<Rightarrow> bytes \<Rightarrow> socket_address \<Rightarrow> datagram list" where
  "port_send_to pt buf addr = (if \<not> pt_async_socket pt then [] else [(addr, buf)])"

definition get_connection :: "udp_port \<Rightarrow> socket_address \<Rightarrow> ptr option" where
  "get_connection pt addr = pt_connections pt addr"

text \<open>The results of \<^verbatim>\<open>add_message_integrity\<close> and \<^verbatim>\<open>add_fingerprint\<close> are ignored by the code.\<close>

definition send_binding_error_response ::
    "rtc_base \<Rightarrow> udp_port \<Rightarrow> stun_message \<Rightarrow> socket_address \<Rightarrow> int \<Rightarrow> bytes \<Rightarrow> datagram list res" where
  "send_binding_error_response R pt m addr err_code reason =
     (if \<not> pt_async_socket pt then Inr []
      else let resp = StunMessage_new\<lparr> msg_type := STUN_BINDING_ERROR_RESPONSE,
                        msg_transaction_id := msg_transaction_id m \<rparr>;
               resp1 = add_attribute (set_reason reason (set_code err_code create_error_code)) resp
           in res_bind (if err_code \<noteq> STUN_ERROR_BAD_REQUEST \<and> err_code \<noteq> STUN_ERROR_UNAUTHORIZED
                        then res_bind (add_message_integrity R (ice_pwd (pt_ice_params pt)) resp1) (\<lambda>(_, r). Inr r)
                        else Inr resp1) (\<lambda>resp2.
              res_bind (add_fingerprint R resp2) (\<lambda>(_, resp3).
              res_bind (stun_write R resp3 []) (\<lambda>w. case w of
                  None \<Rightarrow> Inr []
                | Some buf \<Rightarrow> Inr (port_send_to pt buf addr)))))"

text \<open>\<^verbatim>\<open>_parse_stun_username\<close>: the two fields, or \<open>None\<close> for \<^verbatim>\<open>false\<close>.\<close>

definition parse_stun_username :: "ice_env \<Rightarrow> stun_message \<Rightarrow> (bytes \<times> bytes) option res" where
  "parse_stun_username E m =
     (case get_attribute STUN_ATTR_USERNAME m of
        None \<Rightarrow> Inr None
      | Some a \<Rightarrow> res_bind (get_string a) (\<lambda>username.
          case env_split E username 58 of
            [l, r] \<Rightarrow> Inr (Some (l, r))
          | _ \<Rightarrow> Inr None))"

text \<open>\<^verbatim>\<open>get_stun_message\<close>: the result, \<^verbatim>\<open>out_msg\<close>, \<^verbatim>\<open>out_username\<close> (the callers pass an empty
  string) and the datagrams sent.\<close>

definition get_stun_message :: "ice_env \<Rightarrow> udp_port \<Rightarrow> bytes \<Rightarrow> socket_address
    \<Rightarrow> (bool \<times> stun_message option \<times> bytes \<times> datagram list) res" where
  "get_stun_message E pt data addr =
     (let R = env_base E in
      if \<not> validate_fingerprint R data then Inr (False, None, [], [])
      else case stun_read R StunMessage_new data of
        None \<Rightarrow> Inl Diverges
      | Some None \<Rightarrow> Inr (False, None, [], [])
      | Some (Some (m, rest)) \<Rightarrow>
          if length rest \<noteq> 0 then Inr (False, None, [], [])
          else if msg_type m = STUN_BINDING_REQUEST then
            (if get_attribute STUN_ATTR_USERNAME m = None \<or> get_attribute STUN_ATTR_MESSAGE_INTEGRITY m = None
             then res_bind (send_binding_error_response R pt m addr STUN_ERROR_BAD_REQUEST
                    STUN_ERROR_REASON_BAD_REQUEST) (\<lambda>out. Inr (True, None, [], out))
             else res_bind (parse_stun_username E m) (\<lambda>fields.
               case fields of
                 None \<Rightarrow> res_bind (send_binding_error_response R pt m addr STUN_ERROR_UNAUTHORIZED
                    STUN_ERROR_REASON_UNAUTHORIZED) (\<lambda>out. Inr (True, None, [], out))
               | Some (local_ufrag, remote_ufrag) \<Rightarrow>
                   if local_ufrag \<noteq> ice_ufrag (pt_ice_params pt)
                   then res_bind (send_binding_error_response R pt m addr STUN_ERROR_UNAUTHORIZED
                          STUN_ERROR_REASON_UNAUTHORIZED) (\<lambda>out. Inr (True, None, [], out))
                   else res_bind (validate_message_integrity R (ice_pwd (pt_ice_params pt)) m) (\<lambda>(st, m').
                     if st \<noteq> k_integrity_ok
                     then res_bind (send_binding_error_response R pt m' addr STUN_ERROR_UNAUTHORIZED
                            STUN_ERROR_REASON_UNAUTHORIZED) (\<lambda>out. Inr (True, None, [], out))
                     else Inr (True, Some m', remote_ufrag, []))))
          else Inr (True, Some m, [], []))"

subsection \<open>An environment that satisfies the laws\<close>

fun split_ref :: "bytes \<Rightarrow> byte \<Rightarrow> bytes list" where
  "split_ref [] d = [[]]"
| "split_ref (x # xs) d =
     (if x = d then [] # split_ref xs d
      else case split_ref xs d of [] \<Rightarrow> [[x]] | y # ys \<Rightarrow> (x # y) # ys)"

definition env_ref :: ice_env where
  "env_ref = \<lparr> env_base = rtc_ref, env_time = (\<lambda>n. 1000 + int n), env_rand = (\<lambda>n k. replicate k (of_nat n)),
     env_split = split_ref, env_moving_average = (\<lambda>a b r. (r * a + b) div (r + 1)),
     env_precedence = (\<lambda>_. 0), env_host_uri = (\<lambda>_. []) \<rparr>"

lemma split_ref_Nil [simp]: "split_ref s d \<noteq> []"
  by (induction s) (auto split: list.splits)

lemma join_cons: "ys \<noteq> [] \<Longrightarrow> join d (y # ys) = y @ [d] @ join d ys"
  by (cases ys) auto

lemma join_split_ref: "join d (split_ref s d) = s"
proof (induction s)
  case Nil
  then show ?case by simp
next
  case (Cons x xs)
  obtain y ys where y: "split_ref xs d = y # ys" by (cases "split_ref xs d") auto
  then show ?case using Cons.IH by (cases ys) (auto simp: join_cons)
qed

lemma split_ref_fields: "f \<in> set (split_ref s d) \<Longrightarrow> d \<notin> set f"
  by (induction s arbitrary: f) (auto split: if_splits list.splits)

lemma average_between_ref:
  fixes a b r :: int
  assumes "0 \<le> r"
  shows "min a b \<le> (r * a + b) div (r + 1) \<and> (r * a + b) div (r + 1) \<le> max a b"
proof -
  have "(r + 1) * min a b \<le> r * a + b" "r * a + b \<le> (r + 1) * max a b"
    using assms by (auto simp: algebra_simps min_def max_def mult_right_mono)
  then have "(r + 1) * min a b div (r + 1) \<le> (r * a + b) div (r + 1)"
      "(r * a + b) div (r + 1) \<le> (r + 1) * max a b div (r + 1)"
    using assms by (simp_all only: zdiv_mono1)
  then show ?thesis using assms by simp
qed

interpretation env_ref: ice_environment env_ref
  by (rule ice_environment.intro)
    (auto simp: env_ref_def byte_codec_ref join_split_ref split_ref_fields average_between_ref)

lemma ice_environment_ref: "ice_environment env_ref"
  by (rule env_ref.ice_environment_axioms)

end
