(* ===== verification/Ice_Channel.thy ===== *)
theory Ice_Channel
  imports Udp_Port
begin

text \<open>
  \<^verbatim>\<open>IceTransportChannel\<close> (\<^verbatim>\<open>src/ice/ice_transport_channel.*\<close>) together with the operations of
  \<^verbatim>\<open>IceConnection\<close>, \<^verbatim>\<open>StunRequestManager\<close> and \<^verbatim>\<open>UDPPort\<close> that emit signals the channel listens to.

  The state of one channel holds its ports, its controller and the heap of its connections.
  A signal whose slot is in the channel or in a connection is a call; a signal to the layers
  above is an entry of the output log, in the order it is emitted, and so is a datagram handed
  to a port's socket.  The slots of the layers above call back at most \<^verbatim>\<open>send_packet\<close>, which
  does not change the channel.  Deleting a connection removes it from the heap, and with it its
  request manager and every pending request.  \<open>ch_tick\<close> counts the readings of the clock and of
  the random source.
\<close>

subsection \<open>State\<close>

datatype ice_transport_state = k_new | k_checking | k_connected | k_completed | k_failed
  | k_disconnected | k_closed

datatype channel_event =
    Ev_candidate_allocate_done "candidate list"
  | Ev_receiving_state_change bool
  | Ev_writable_state_change bool
  | Ev_ice_state_change ice_transport_state
  | Ev_read_packet bytes int
  | Ev_send nat socket_address bytes

record ice_channel =
  ch_component :: ice_component
  ch_ice_params :: ice_parameters
  ch_remote_ice_params :: ice_parameters
  ch_local_candidates :: "candidate list"
  ch_ports :: "udp_port list"
  ch_controller :: ice_controller
  ch_start_pinging :: bool
  ch_ping_watcher :: bool            \<comment> \<open>whether the timer object exists\<close>
  ch_timer :: "int option"           \<comment> \<open>period of the running ping timer, in microseconds\<close>
  ch_cur_ping_interval :: int
  ch_last_ping_sent_ms :: int
  ch_selected :: "ptr option"
  ch_receiving :: bool
  ch_writable :: bool
  ch_state :: ice_transport_state
  ch_had_connection :: bool
  ch_has_been_connection :: bool
  ch_heap :: conn_heap
  ch_next :: ptr                     \<comment> \<open>the next address \<^verbatim>\<open>new IceConnection\<close> returns\<close>
  ch_tick :: nat
  ch_out :: "channel_event list"

definition PING_INTERVAL_DIFF :: int where "PING_INTERVAL_DIFF = 5"

definition IceTransportChannel_new :: "ice_component \<Rightarrow> ice_channel" where
  "IceTransportChannel_new c = \<lparr> ch_component = c, ch_ice_params = \<lparr> ice_ufrag = [], ice_pwd = [] \<rparr>,
     ch_remote_ice_params = \<lparr> ice_ufrag = [], ice_pwd = [] \<rparr>, ch_local_candidates = [], ch_ports = [],
     ch_controller = IceController_new, ch_start_pinging = False, ch_ping_watcher = True, ch_timer = None,
     ch_cur_ping_interval = WEAK_PING_INTERVAL, ch_last_ping_sent_ms = 0, ch_selected = None,
     ch_receiving = False, ch_writable = False, ch_state = k_new, ch_had_connection = False,
     ch_has_been_connection = False, ch_heap = Map.empty, ch_next = 1, ch_tick = 0, ch_out = [] \<rparr>"

subsection \<open>Reading the clock, emitting, writing through a pointer\<close>

definition read_clock :: "ice_env \<Rightarrow> ice_channel \<Rightarrow> int \<times> ice_channel" where
  "read_clock E s = (env_time E (ch_tick s), s\<lparr> ch_tick := Suc (ch_tick s) \<rparr>)"

definition emit :: "channel_event list \<Rightarrow> ice_channel \<Rightarrow> ice_channel" where
  "emit es s = s\<lparr> ch_out := ch_out s @ es \<rparr>"

definition emit_datagrams :: "nat \<Rightarrow> datagram list \<Rightarrow> ice_channel \<Rightarrow> ice_channel" where
  "emit_datagrams i ds s = emit (map (\<lambda>(a, b). Ev_send i a b) ds) s"

definition update_conn :: "ptr \<Rightarrow> (ice_connection \<Rightarrow> ice_connection) \<Rightarrow> ice_channel \<Rightarrow> ice_channel res" where
  "update_conn p f s =
     res_bind (deref (ch_heap s) p) (\<lambda>c. Inr (s\<lparr> ch_heap := (ch_heap s)(p \<mapsto> f c) \<rparr>))"

subsection \<open>State of the channel\<close>

definition set_receiving :: "bool \<Rightarrow> ice_channel \<Rightarrow> ice_channel" where
  "set_receiving b s =
     (if b = ch_receiving s then s
      else emit [Ev_receiving_state_change b] (s\<lparr> ch_receiving := b \<rparr>))"

definition set_writable :: "bool \<Rightarrow> ice_channel \<Rightarrow> ice_channel" where
  "set_writable b s =
     (if b = ch_writable s then s
      else let s1 = (if b then s\<lparr> ch_has_been_connection := True \<rparr> else s)
           in emit [Ev_writable_state_change b] (s1\<lparr> ch_writable := b \<rparr>))"

definition compute_ice_transport_state :: "ice_channel \<Rightarrow> ice_transport_state res" where
  "compute_ice_transport_state s =
     res_bind (res_exists (\<lambda>p. res_bind (deref (ch_heap s) p) (\<lambda>c. Inr (active c)))
                (ct_connections (ch_controller s))) (\<lambda>has_connection.
       Inr (if ch_had_connection s \<and> \<not> has_connection then k_failed
            else if ch_has_been_connection s \<and> \<not> ch_writable s then k_disconnected
            else if \<not> ch_had_connection s \<and> \<not> has_connection then k_new
            else if has_connection \<and> \<not> ch_writable s then k_checking
            else k_connected))"

definition channel_update_state :: "ice_channel \<Rightarrow> ice_channel res" where
  "channel_update_state s =
     res_bind (case ch_selected s of
                 None \<Rightarrow> Inr False
               | Some p \<Rightarrow> res_bind (deref (ch_heap s) p) (\<lambda>c. Inr (writable c))) (\<lambda>w.
     let s1 = set_writable w s in
     res_bind (res_exists (\<lambda>p. res_bind (deref (ch_heap s1) p) (\<lambda>c. Inr (cn_receiving c)))
                (ct_connections (ch_controller s1))) (\<lambda>r.
     let s2 = set_receiving r s1 in
     res_bind (compute_ice_transport_state s2) (\<lambda>st.
       Inr (if st \<noteq> ch_state s2 then emit [Ev_ice_state_change st] (s2\<lparr> ch_state := st \<rparr>) else s2))))"

definition switch_selected_connection :: "ptr option \<Rightarrow> ice_channel \<Rightarrow> ice_channel res" where
  "switch_selected_connection conn s =
     (let old = ch_selected s; s1 = s\<lparr> ch_selected := conn \<rparr> in
      res_bind (case old of
                  None \<Rightarrow> Inr s1
                | Some q \<Rightarrow> update_conn q (\<lambda>c. c\<lparr> cn_selected := False \<rparr>) s1) (\<lambda>s2.
      case conn of
        None \<Rightarrow> Inr s2
      | Some p \<Rightarrow> res_bind (update_conn p (\<lambda>c. c\<lparr> cn_selected := True \<rparr>) s2) (\<lambda>s3.
          Inr (s3\<lparr> ch_controller := set_selected_connection (Some p) (ch_controller s3) \<rparr>))))"

definition maybe_switch_selected_connection :: "ptr option \<Rightarrow> ice_channel \<Rightarrow> ice_channel res" where
  "maybe_switch_selected_connection conn s =
     (case conn of None \<Rightarrow> Inr s | Some p \<Rightarrow> switch_selected_connection (Some p) s)"

text \<open>\<^verbatim>\<open>EventLoop::start_timer\<close> and \<^verbatim>\<open>stop_timer\<close> on the channel's repeating timer.\<close>

definition start_timer :: "int \<Rightarrow> ice_channel \<Rightarrow> ice_channel res" where
  "start_timer usec s = (if ch_ping_watcher s then Inr (s\<lparr> ch_timer := Some usec \<rparr>) else Inl Null_deref)"

definition stop_timer :: "ice_channel \<Rightarrow> ice_channel res" where
  "stop_timer s = (if ch_ping_watcher s then Inr (s\<lparr> ch_timer := None \<rparr>) else Inl Null_deref)"

definition maybe_start_pinging :: "ice_env \<Rightarrow> ice_channel \<Rightarrow> ice_channel res" where
  "maybe_start_pinging E s =
     (if ch_start_pinging s then Inr s
      else let (now, s1) = read_clock E s in
        res_bind (has_pingable_connection (ch_heap s1) now (ch_controller s1)) (\<lambda>ok.
          if \<not> ok then Inr s1
          else res_bind (start_timer (ch_cur_ping_interval s1 * 1000) s1) (\<lambda>s2.
                 Inr (s2\<lparr> ch_start_pinging := True \<rparr>))))"

definition sort_connections_and_update_state :: "ice_env \<Rightarrow> ice_channel \<Rightarrow> ice_channel res" where
  "sort_connections_and_update_state E s =
     res_bind (sort_and_switch_connection (ch_heap s) (ch_controller s)) (\<lambda>(ct, conn).
     res_bind (maybe_switch_selected_connection conn (s\<lparr> ch_controller := ct \<rparr>)) (\<lambda>s1.
     res_bind (channel_update_state s1) (\<lambda>s2.
       maybe_start_pinging E s2)))"

definition on_connection_state_change :: "ice_env \<Rightarrow> ice_channel \<Rightarrow> ice_channel res" where
  "on_connection_state_change E s = sort_connections_and_update_state E s"

definition channel_on_connection_destroyed :: "ice_env \<Rightarrow> ptr \<Rightarrow> ice_channel \<Rightarrow> ice_channel res" where
  "channel_on_connection_destroyed E p s =
     (let s1 = s\<lparr> ch_controller := on_connection_destroyed p (ch_controller s) \<rparr> in
      if ch_selected s1 = Some p
      then res_bind (switch_selected_connection None s1) (sort_connections_and_update_state E)
      else channel_update_state s1)"

subsection \<open>Operations of a connection that signal\<close>

definition destroy :: "ice_env \<Rightarrow> ptr \<Rightarrow> ice_channel \<Rightarrow> ice_channel res" where
  "destroy E p s =
     res_bind (deref (ch_heap s) p) (\<lambda>_.
     res_bind (channel_on_connection_destroyed E p s) (\<lambda>s1.
       if ch_heap s1 p = None then Inl Double_free
       else Inr (s1\<lparr> ch_heap := (ch_heap s1)(p := None) \<rparr>)))"

definition fail_and_destroy :: "ice_env \<Rightarrow> ptr \<Rightarrow> ice_channel \<Rightarrow> ice_channel res" where
  "fail_and_destroy E p s = res_bind (update_conn p (set_state FAILED) s) (destroy E p)"

definition set_write_state :: "ice_env \<Rightarrow> write_state \<Rightarrow> ptr \<Rightarrow> ice_channel \<Rightarrow> ice_channel res" where
  "set_write_state E st p s =
     res_bind (deref (ch_heap s) p) (\<lambda>c.
     res_bind (update_conn p (\<lambda>c. c\<lparr> cn_write_state := st \<rparr>) s) (\<lambda>s1.
       if cn_write_state c \<noteq> st then on_connection_state_change E s1 else Inr s1))"

definition update_receiving :: "ice_env \<Rightarrow> int \<Rightarrow> ptr \<Rightarrow> ice_channel \<Rightarrow> ice_channel res" where
  "update_receiving E now p s =
     res_bind (deref (ch_heap s) p) (\<lambda>c.
       let receiving = compute_receiving now c in
       if cn_receiving c = receiving then Inr s
       else res_bind (update_conn p (\<lambda>c. c\<lparr> cn_receiving := receiving \<rparr>) s) (on_connection_state_change E))"

definition connection_update_state :: "ice_env \<Rightarrow> int \<Rightarrow> ptr \<Rightarrow> ice_channel \<Rightarrow> ice_channel res" where
  "connection_update_state E now p s =
     res_bind (deref (ch_heap s) p) (\<lambda>c.
     let rtt = clamp_rtt (cn_rtt c) in
     res_bind (if cn_write_state c = STATE_WRITABLE \<and>
                  too_many_ping_failed CONNECTION_WRITE_CONNECT_FAILS rtt now c \<and>
                  too_long_without_response CONNECTION_WRITE_CONNECT_TIMEOUT now c
               then set_write_state E STATE_WRITE_UNRELIABLE p s else Inr s) (\<lambda>s1.
     res_bind (deref (ch_heap s1) p) (\<lambda>c1.
     res_bind (if (cn_write_state c1 = STATE_WRITE_UNRELIABLE \<or> cn_write_state c1 = STATE_WRITE_INIT) \<and>
                  too_long_without_response CONNECTION_WRITE_TIMEOUT now c1
               then res_bind (set_write_state E STATE_WRITE_TIMEOUT p s1) (fail_and_destroy E p)
               else Inr s1) (\<lambda>s2.
       update_receiving E now p s2))))"

definition received_ping_response :: "ice_env \<Rightarrow> int \<Rightarrow> ptr \<Rightarrow> ice_channel \<Rightarrow> ice_channel res" where
  "received_ping_response E rtt p s =
     res_bind (update_conn p (\<lambda>c. c\<lparr>
         cn_rtt := (if cn_rtt_samples c > 0 then env_moving_average E (cn_rtt c) rtt RTT_RATIO else rtt),
         cn_rtt_samples := cn_rtt_samples c + 1 \<rparr>) s) (\<lambda>s1.
     let (now, s2) = read_clock E s1 in
     res_bind (update_conn p (\<lambda>c. c\<lparr> cn_last_ping_response_received := now, cn_pings := [] \<rparr>) s2) (\<lambda>s3.
     res_bind (update_receiving E now p s3) (\<lambda>s4.
     res_bind (set_write_state E STATE_WRITABLE p s4) (\<lambda>s5.
       update_conn p (set_state SUCCEEDED) s5))))"

definition on_connection_request_response :: "ice_env \<Rightarrow> stun_request \<Rightarrow> ptr \<Rightarrow> ice_channel \<Rightarrow> ice_channel res" where
  "on_connection_request_response E req p s =
     (let (now, s1) = read_clock E s in received_ping_response E (elapsed now req) p s1)"

definition on_connection_request_error_response ::
    "ice_env \<Rightarrow> stun_request \<Rightarrow> stun_message \<Rightarrow> ptr \<Rightarrow> ice_channel \<Rightarrow> ice_channel res" where
  "on_connection_request_error_response E req m p s =
     (let (now, s1) = read_clock E s in
      res_bind (get_error_code_value m) (\<lambda>error_code.
        if error_code = STUN_ERROR_BAD_REQUEST \<or> error_code = STUN_ERROR_UNAUTHORIZED
           \<or> error_code = STUN_ERROR_SERVER_ERROR then Inr s1
        else fail_and_destroy E p s1))"

text \<open>\<^verbatim>\<open>delete request\<close>: the request leaves the table of its manager.  If the connection is gone,
  the destructor of its request manager has deleted the request already.\<close>

definition delete_request :: "bytes \<Rightarrow> ptr \<Rightarrow> ice_channel \<Rightarrow> ice_channel res" where
  "delete_request txid p s =
     (case ch_heap s p of
        None \<Rightarrow> Inl Double_free
      | Some c \<Rightarrow> if cn_requests c txid = None then Inl Double_free
                  else Inr (s\<lparr> ch_heap := (ch_heap s)(p \<mapsto> c\<lparr> cn_requests := (cn_requests c)(txid := None) \<rparr>) \<rparr>))"

definition check_response :: "ice_env \<Rightarrow> stun_message \<Rightarrow> ptr \<Rightarrow> ice_channel \<Rightarrow> (bool \<times> ice_channel) res" where
  "check_response E m p s =
     res_bind (deref (ch_heap s) p) (\<lambda>c.
     case cn_requests c (msg_transaction_id m) of
       None \<Rightarrow> Inr (False, s)
     | Some req \<Rightarrow>
         let rt = uint (msg_type (req_msg req)) in
         if uint (msg_type m) = get_stun_success_response rt then
           res_bind (on_connection_request_response E req p s) (\<lambda>s1.
           res_bind (delete_request (msg_transaction_id m) p s1) (\<lambda>s2. Inr (True, s2)))
         else if uint (msg_type m) = get_stun_error_response rt then
           res_bind (on_connection_request_error_response E req m p s) (\<lambda>s1.
           res_bind (delete_request (msg_transaction_id m) p s1) (\<lambda>s2. Inr (True, s2)))
         else res_bind (delete_request (msg_transaction_id m) p s) (\<lambda>s1. Inr (False, s1)))"

subsection \<open>Answers and incoming datagrams\<close>

definition port_of :: "nat \<Rightarrow> ice_channel \<Rightarrow> udp_port res" where
  "port_of i s = (if i < length (ch_ports s) then Inr (ch_ports s ! i) else Inl Use_after_free)"

definition send_response_message ::
    "ice_env \<Rightarrow> stun_message \<Rightarrow> ptr \<Rightarrow> ice_channel \<Rightarrow> ice_channel res" where
  "send_response_message E response p s =
     res_bind (deref (ch_heap s) p) (\<lambda>c.
     res_bind (stun_write (env_base E) response []) (\<lambda>w.
       case w of
         None \<Rightarrow> Inr s
       | Some buf \<Rightarrow> res_bind (port_of (cn_port c) s) (\<lambda>pt.
           Inr (emit_datagrams (cn_port c) (port_send_to pt buf (c_address (cn_remote c))) s))))"

definition send_stun_binding_response ::
    "ice_env \<Rightarrow> stun_message \<Rightarrow> ptr \<Rightarrow> ice_channel \<Rightarrow> ice_channel res" where
  "send_stun_binding_response E m p s =
     (case get_attribute STUN_ATTR_USERNAME m of
        None \<Rightarrow> Inr s
      | Some _ \<Rightarrow>
          res_bind (deref (ch_heap s) p) (\<lambda>c.
          res_bind (port_of (cn_port c) s) (\<lambda>pt.
          let r0 = StunMessage_new\<lparr> msg_type := STUN_BINDING_RESPONSE,
                     msg_transaction_id := msg_transaction_id m \<rparr>;
              r1 = add_attribute (StunXorAddressAttribute STUN_ATTR_XOR_MAPPED_ADDRESS
                     (c_address (cn_remote c))) r0
          in res_bind (add_message_integrity (env_base E) (ice_pwd (pt_ice_params pt)) r1) (\<lambda>(_, r2).
             res_bind (add_fingerprint (env_base E) r2) (\<lambda>(_, r3).
               send_response_message E r3 p s)))))"

definition handle_stun_binding_request ::
    "ice_env \<Rightarrow> stun_message \<Rightarrow> ptr \<Rightarrow> ice_channel \<Rightarrow> ice_channel res" where
  "handle_stun_binding_request E m p s = send_stun_binding_response E m p s"

definition connection_on_read_packet ::
    "ice_env \<Rightarrow> bytes \<Rightarrow> int \<Rightarrow> ptr \<Rightarrow> ice_channel \<Rightarrow> ice_channel res" where
  "connection_on_read_packet E buf ts p s =
     res_bind (deref (ch_heap s) p) (\<lambda>c.
     let i = cn_port c; remote = cn_remote c in
     res_bind (port_of i s) (\<lambda>pt.
     res_bind (get_stun_message E pt buf (c_address remote)) (\<lambda>(res, stun_msg, remote_ufrag, out).
     let s1 = emit_datagrams i out s in
     if \<not> res then
       (let (now, s2) = read_clock E s1 in
        res_bind (update_conn p (\<lambda>c. c\<lparr> cn_last_data_received := now \<rparr>) s2) (\<lambda>s3.
          Inr (emit [Ev_read_packet buf ts] s3)))
     else case stun_msg of
       None \<Rightarrow> Inr s1
     | Some m \<Rightarrow>
         if msg_type m = STUN_BINDING_REQUEST then
           (if remote_ufrag \<noteq> c_username remote then
              res_bind (send_binding_error_response (env_base E) pt m (c_address remote)
                STUN_ERROR_UNAUTHORIZED STUN_ERROR_REASON_UNAUTHORIZED) (\<lambda>out'.
                Inr (emit_datagrams i out' s1))
            else
              (let (now, s2) = read_clock E s1 in
               res_bind (update_conn p (\<lambda>c. c\<lparr> cn_last_ping_received := now \<rparr>) s2)
                 (handle_stun_binding_request E m p)))
         else if msg_type m = STUN_BINDING_RESPONSE \<or> msg_type m = STUN_BINDING_ERROR_RESPONSE then
           res_bind (validate_message_integrity (env_base E) (c_password remote) m) (\<lambda>(_, m').
             if msg_integrity m' = k_integrity_ok
             then res_bind (check_response E m' p s1) (\<lambda>(_, s2). Inr s2)
             else Inr s1)
         else Inr s1)))"

subsection \<open>New connections\<close>

definition set_port_connection :: "nat \<Rightarrow> socket_address \<Rightarrow> ptr \<Rightarrow> ice_channel \<Rightarrow> ice_channel" where
  "set_port_connection i addr p s =
     s\<lparr> ch_ports := (ch_ports s)[i := (ch_ports s ! i)
          \<lparr> pt_connections := (pt_connections (ch_ports s ! i))(addr \<mapsto> p) \<rparr>] \<rparr>"

text \<open>\<^verbatim>\<open>UDPPort::create_connection\<close>.  The local candidate is read through the port when it is
  used; a port gets its first candidate together with its socket and never another one in front,
  so the model reads it once, here.\<close>

definition create_connection ::
    "ice_env \<Rightarrow> nat \<Rightarrow> candidate \<Rightarrow> ice_channel \<Rightarrow> (ptr \<times> ice_channel) res" where
  "create_connection E i remote s =
     res_bind (port_of i s) (\<lambda>pt.
     case pt_candidates pt of
       [] \<Rightarrow> Inl Out_of_bounds
     | local # _ \<Rightarrow>
         let p = ch_next s;
             s1 = s\<lparr> ch_heap := (ch_heap s)(p \<mapsto> IceConnection_new i local remote), ch_next := Suc p \<rparr>
         in case pt_connections pt (c_address remote) of
              None \<Rightarrow> Inr (p, set_port_connection i (c_address remote) p s1)
            | Some old_conn \<Rightarrow> res_bind (destroy E old_conn s1) (\<lambda>s2.
                Inr (p, set_port_connection i (c_address remote) p s2)))"

definition channel_add_connection :: "ptr \<Rightarrow> ice_channel \<Rightarrow> ice_channel" where
  "channel_add_connection p s =
     s\<lparr> ch_had_connection := True, ch_controller := add_connection p (ch_controller s) \<rparr>"

definition prflx_candidate :: "ice_channel \<Rightarrow> u32 \<Rightarrow> socket_address \<Rightarrow> bytes \<Rightarrow> candidate" where
  "prflx_candidate s prio addr remote_ufrag =
     \<lparr> c_foundation = [], c_component = ch_component s, c_protocol = bytes_of ''udp'',
       c_priority = prio, c_address = addr, c_port = 0, c_username = remote_ufrag,
       c_password = ice_pwd (ch_remote_ice_params s), c_type = PRFLX_PORT_TYPE \<rparr>"

text \<open>\<^verbatim>\<open>create_connection\<close> never returns a null pointer, so the branch for one is never taken.\<close>

definition on_unknown_address ::
    "ice_env \<Rightarrow> nat \<Rightarrow> socket_address \<Rightarrow> stun_message \<Rightarrow> bytes \<Rightarrow> ice_channel \<Rightarrow> ice_channel res" where
  "on_unknown_address E i addr m remote_ufrag s =
     (case get_attribute STUN_ATTR_PRIORITY m of
        None \<Rightarrow>
          res_bind (port_of i s) (\<lambda>pt.
          res_bind (send_binding_error_response (env_base E) pt m addr STUN_ERROR_BAD_REQUEST
            STUN_ERROR_REASON_BAD_REQUEST) (\<lambda>out. Inr (emit_datagrams i out s)))
      | Some a \<Rightarrow>
          res_bind (uint32_value a) (\<lambda>prio.
          res_bind (create_connection E i (prflx_candidate s prio addr remote_ufrag) s) (\<lambda>(p, s1).
          res_bind (handle_stun_binding_request E m p (channel_add_connection p s1))
            (sort_connections_and_update_state E))))"

definition port_on_read_packet ::
    "ice_env \<Rightarrow> nat \<Rightarrow> bytes \<Rightarrow> socket_address \<Rightarrow> int \<Rightarrow> ice_channel \<Rightarrow> ice_channel res" where
  "port_on_read_packet E i buf addr ts s =
     res_bind (port_of i s) (\<lambda>pt.
     case get_connection pt addr of
       Some p \<Rightarrow> connection_on_read_packet E buf ts p s
     | None \<Rightarrow>
         res_bind (get_stun_message E pt buf addr) (\<lambda>(res, stun_msg, remote_ufrag, out).
         let s1 = emit_datagrams i out s in
         case stun_msg of
           None \<Rightarrow> Inr s1
         | Some m \<Rightarrow> if res \<and> msg_type m = STUN_BINDING_REQUEST
                     then on_unknown_address E i addr m remote_ufrag s1 else Inr s1))"

subsection \<open>Periodic checks, parameters, gathering, sending, tear-down\<close>

definition ping_connection :: "ice_env \<Rightarrow> ptr \<Rightarrow> ice_channel \<Rightarrow> ice_channel res" where
  "ping_connection E p s =
     (let (now, s1) = read_clock E s;
          s2 = s1\<lparr> ch_last_ping_sent_ms := now \<rparr>;
          txid = env_rand E (ch_tick s2) k_stun_transaction_id_length;
          (ts, s3) = read_clock E (s2\<lparr> ch_tick := Suc (ch_tick s2) \<rparr>)
      in res_bind (deref (ch_heap s3) p) (\<lambda>c.
         res_bind (port_of (cn_port c) s3) (\<lambda>pt.
         res_bind (ping (env_base E) (ice_ufrag (pt_ice_params pt)) txid now ts c) (\<lambda>(c', out).
           Inr (emit_datagrams (cn_port c)
                  (case out of None \<Rightarrow> [] | Some buf \<Rightarrow> port_send_to pt buf (c_address (cn_remote c)))
                  (s3\<lparr> ch_heap := (ch_heap s3)(p \<mapsto> c') \<rparr>))))))"

definition update_connection_states :: "ice_env \<Rightarrow> ice_channel \<Rightarrow> ice_channel res" where
  "update_connection_states E s =
     (let (now, s1) = read_clock E s
      in res_fold (connection_update_state E now) (ct_connections (ch_controller s)) s1)"

definition on_check_and_ping :: "ice_env \<Rightarrow> ice_channel \<Rightarrow> ice_channel res" where
  "on_check_and_ping E s =
     res_bind (update_connection_states E s) (\<lambda>s1.
     let (now, s2) = read_clock E s1 in
     res_bind (select_connection_to_ping (ch_heap s2) (ch_last_ping_sent_ms s2 - PING_INTERVAL_DIFF) now
                 (ch_controller s2)) (\<lambda>(ct, result).
     let s3 = s2\<lparr> ch_controller := ct \<rparr> in
     res_bind (case pr_conn result of
                 None \<Rightarrow> Inr s3
               | Some p \<Rightarrow> res_bind (ping_connection E p s3) (\<lambda>s'.
                   Inr (s'\<lparr> ch_controller := mark_connection_pinged (Some p) (ch_controller s') \<rparr>))) (\<lambda>s4.
     if ch_cur_ping_interval s4 \<noteq> pr_interval result
     then res_bind (stop_timer (s4\<lparr> ch_cur_ping_interval := pr_interval result \<rparr>))
            (start_timer (pr_interval result * 1000))
     else Inr s4)))"

definition set_ice_params :: "ice_parameters \<Rightarrow> ice_channel \<Rightarrow> ice_channel" where
  "set_ice_params params s = s\<lparr> ch_ice_params := params \<rparr>"

definition set_remote_ice_params :: "ice_env \<Rightarrow> ice_parameters \<Rightarrow> ice_channel \<Rightarrow> ice_channel res" where
  "set_remote_ice_params E params s =
     res_bind (res_fold (\<lambda>p. update_conn p (maybe_set_remote_ice_params params))
                 (ct_connections (ch_controller s)) (s\<lparr> ch_remote_ice_params := params \<rparr>))
       (sort_connections_and_update_state E)"

text \<open>\<open>nets\<close> are the networks of the allocator, each with the outcome of its socket calls.\<close>

definition gather_one ::
    "ice_env \<Rightarrow> int \<Rightarrow> int \<Rightarrow> socket_calls \<times> addr_family \<times> bytes \<Rightarrow> ice_channel \<Rightarrow> ice_channel" where
  "gather_one E min_port max_port net s =
     (let (sc, fam, ip) = net;
          (ret, pt, c) = create_ice_candidate E sc fam ip min_port max_port
                           (UDPPort_new (ch_component s) (ch_ice_params s))
      in s\<lparr> ch_ports := ch_ports s @ [pt],
            ch_local_candidates := ch_local_candidates s @ (if ret \<noteq> 0 then [] else case c of None \<Rightarrow> [] | Some x \<Rightarrow> [x]) \<rparr>)"

definition gathering_candidate ::
    "ice_env \<Rightarrow> int \<Rightarrow> int \<Rightarrow> (socket_calls \<times> addr_family \<times> bytes) list \<Rightarrow> ice_channel \<Rightarrow> ice_channel" where
  "gathering_candidate E min_port max_port nets s =
     (if ice_ufrag (ch_ice_params s) = [] \<or> ice_pwd (ch_ice_params s) = [] then s
      else if nets = [] then s
      else let s1 = fold (gather_one E min_port max_port) nets s
           in emit [Ev_candidate_allocate_done (ch_local_candidates s1)] s1)"

text \<open>\<^verbatim>\<open>send_packet\<close>: \<open>False\<close> is the result -1 before anything is handed to the socket.\<close>

definition send_packet :: "bytes \<Rightarrow> ice_channel \<Rightarrow> (bool \<times> ice_channel) res" where
  "send_packet data s =
     (case ch_selected s of
        None \<Rightarrow> Inr (False, s)
      | Some p \<Rightarrow> res_bind (deref (ch_heap s) p) (\<lambda>c.
          if \<not> ready_to_send c then Inr (False, s)
          else res_bind (port_of (cn_port c) s) (\<lambda>pt.
            Inr (pt_async_socket pt,
                 emit_datagrams (cn_port c) (port_send_to pt data (c_address (cn_remote c))) s))))"

definition IceTransportChannel_destruct :: "ice_env \<Rightarrow> ice_channel \<Rightarrow> ice_channel res" where
  "IceTransportChannel_destruct E s =
     res_bind (res_fold (destroy E) (ct_connections (ch_controller s))
                 (s\<lparr> ch_ping_watcher := False, ch_timer := None \<rparr>)) (\<lambda>s1.
       Inr (s1\<lparr> ch_ports := [] \<rparr>))"

end
