(* ===== verification/Ice_Invariant.thy ===== *)
theory Ice_Invariant
  imports Ice_Channel Stun_Props
begin

text \<open>
  The invariant of an ICE channel and what every operation keeps of it: the bookkeeping of
  channel, controller, ports and connections agrees, every pointer is live, exactly the selected
  connection carries the selected flag, and after a handler has run the published state of the
  channel is the one its connections determine.
\<close>

subsection \<open>The invariant\<close>

definition conn_ok :: "ice_channel \<Rightarrow> ptr \<Rightarrow> ice_connection \<Rightarrow> bool" where
  "conn_ok s p c \<longleftrightarrow> p < ch_next s \<and> cn_port c < length (ch_ports s) \<and>
     pt_connections (ch_ports s ! cn_port c) (c_address (cn_remote c)) = Some p \<and>
     (cn_selected c \<longleftrightarrow> ch_selected s = Some p)"

definition ports_ok :: "ice_channel \<Rightarrow> bool" where
  "ports_ok s \<longleftrightarrow> (\<forall>i < length (ch_ports s). \<forall>a p. pt_connections (ch_ports s ! i) a = Some p \<longrightarrow>
     (\<exists>c. ch_heap s p = Some c \<and> cn_port c = i \<and> c_address (cn_remote c) = a))"

definition ch_wf :: "ice_channel \<Rightarrow> bool" where
  "ch_wf s \<longleftrightarrow> ctl_inv (ch_controller s) \<and> set (ct_connections (ch_controller s)) = dom (ch_heap s) \<and>
     ct_selected (ch_controller s) = ch_selected s \<and> set_option (ch_selected s) \<subseteq> dom (ch_heap s) \<and>
     (\<forall>p c. ch_heap s p = Some c \<longrightarrow> conn_ok s p c) \<and> ports_ok s \<and>
     (dom (ch_heap s) \<noteq> {} \<longrightarrow> ch_had_connection s) \<and> ch_ping_watcher s"

text \<open>The published state is in step with the connections.\<close>

definition ice_state_of :: "ice_channel \<Rightarrow> ice_transport_state" where
  "ice_state_of s =
     (let has_connection = (\<exists>c\<in>ran (ch_heap s). active c) in
      if ch_had_connection s \<and> \<not> has_connection then k_failed
      else if ch_has_been_connection s \<and> \<not> ch_writable s then k_disconnected
      else if \<not> ch_had_connection s then k_new
      else if \<not> ch_writable s then k_checking
      else k_connected)"

definition ch_synced :: "ice_channel \<Rightarrow> bool" where
  "ch_synced s \<longleftrightarrow> ch_writable s = (\<exists>p c. ch_selected s = Some p \<and> ch_heap s p = Some c \<and> writable c) \<and>
     ch_receiving s = (\<exists>c\<in>ran (ch_heap s). cn_receiving c) \<and> ch_state s = ice_state_of s"

text \<open>The part of the state the invariant looks at, and the part only tear-down and
  configuration change.\<close>

definition core :: "ice_channel \<Rightarrow> _" where
  "core s = (ch_heap s, ch_controller s, ch_ports s, ch_selected s, ch_next s, ch_had_connection s,
     ch_ping_watcher s, ch_remote_ice_params s, ch_component s)"

definition static :: "ice_channel \<Rightarrow> _" where
  "static s = (ch_ports s, ch_next s, ch_had_connection s, ch_ping_watcher s, ch_remote_ice_params s,
     ch_component s)"

text \<open>A heap up to the selected flags.\<close>

definition strip :: "conn_heap \<Rightarrow> conn_heap" where
  "strip h = (\<lambda>p. map_option (\<lambda>c. c\<lparr> cn_selected := False \<rparr>) (h p))"

lemma core_wf: "core s' = core s \<Longrightarrow> ch_wf s' = ch_wf s"
  by (simp add: core_def ch_wf_def conn_ok_def ports_ok_def)

lemma core_static: "core s' = core s \<Longrightarrow> static s' = static s"
  by (simp add: core_def static_def)

lemma core_heap: "core s' = core s \<Longrightarrow> ch_heap s' = ch_heap s"
  by (simp add: core_def)

lemma strip_dom [simp]: "dom (strip h) = dom h"
  by (auto simp: strip_def)

lemma strip_upd: "strip (h(p \<mapsto> c)) = (strip h)(p \<mapsto> c\<lparr> cn_selected := False \<rparr>)"
  by (auto simp: strip_def)

lemma strip_fields:
  assumes "e\<lparr> cn_selected := False \<rparr> = d\<lparr> cn_selected := False \<rparr>"
  shows "cn_port e = cn_port d" "cn_remote e = cn_remote d" "cn_local e = cn_local d"
    "cn_write_state e = cn_write_state d" "cn_pings e = cn_pings d" "cn_requests e = cn_requests d"
    "cn_receiving e = cn_receiving d" "cn_rtt e = cn_rtt d"
  using assms by (cases e; cases d; simp)+

lemma strip_field:
  assumes "strip h' = strip h" "\<And>c. f (c\<lparr> cn_selected := False \<rparr>) = f c"
  shows "map_option f (h' q) = map_option f (h q)"
proof -
  have "map_option f (strip g q) = map_option f (g q)" for g
    by (simp add: strip_def option.map_comp comp_def assms(2))
  then show ?thesis using assms(1) by metis
qed

lemma strip_lookup:
  assumes "strip h' = strip h" "h' q = Some e"
  shows "\<exists>d. h q = Some d \<and> e\<lparr> cn_selected := False \<rparr> = d\<lparr> cn_selected := False \<rparr>"
  using assms(2) fun_cong [OF assms(1), of q] by (cases "h q") (auto simp: strip_def)

lemma wf_live:
  assumes "ch_wf s"
  shows "ctl_live (ch_heap s) (ch_controller s)" "ctl_inv (ch_controller s)"
  using assms by (auto simp: ch_wf_def ctl_live_def)

lemma wf_port: "ch_wf s \<Longrightarrow> ch_heap s p = Some c \<Longrightarrow> port_of (cn_port c) s = Inr (ch_ports s ! cn_port c)"
  by (simp add: ch_wf_def conn_ok_def port_of_def)

lemma wf_port_conn:
  "ch_wf s \<Longrightarrow> i < length (ch_ports s) \<Longrightarrow> pt_connections (ch_ports s ! i) a = Some p \<Longrightarrow>
     \<exists>c. ch_heap s p = Some c \<and> cn_port c = i \<and> c_address (cn_remote c) = a"
  by (simp add: ch_wf_def ports_ok_def)

lemma bex_ran: "(\<exists>d\<in>ran h. P d) \<longleftrightarrow> (\<exists>q d. h q = Some d \<and> P d)"
  by (auto simp: ran_def)

lemma wf_new: "ch_wf (IceTransportChannel_new cmp)"
  by (simp add: ch_wf_def IceTransportChannel_new_def ports_ok_def) (simp add: IceController_new_def)

lemma synced_new: "ch_synced (IceTransportChannel_new cmp)"
  by (simp add: ch_synced_def IceTransportChannel_new_def ice_state_of_def)

subsection \<open>Publishing the state\<close>

lemma set_writable_core [simp]: "core (set_writable b s) = core s"
  by (simp add: set_writable_def core_def emit_def Let_def)

lemma set_receiving_core [simp]: "core (set_receiving b s) = core s"
  by (simp add: set_receiving_def core_def emit_def)

lemma set_writable_sel [simp]: "ch_writable (set_writable b s) = b"
  by (simp add: set_writable_def emit_def Let_def)

lemma set_receiving_sel [simp]:
  "ch_receiving (set_receiving b s) = b" "ch_writable (set_receiving b s) = ch_writable s"
  "ch_has_been_connection (set_receiving b s) = ch_has_been_connection s"
  by (simp_all add: set_receiving_def emit_def)

lemma any_conn_live:
  assumes "ch_wf s"
  shows "res_exists (\<lambda>p. res_bind (deref (ch_heap s) p) (\<lambda>c. Inr (f c))) (ct_connections (ch_controller s))
    = Inr (\<exists>c\<in>ran (ch_heap s). f c)"
proof -
  have dom: "set (ct_connections (ch_controller s)) = dom (ch_heap s)" using assms by (simp add: ch_wf_def)
  have "res_exists (\<lambda>p. res_bind (deref (ch_heap s) p) (\<lambda>c. Inr (f c))) (ct_connections (ch_controller s))
      = Inr (\<exists>p\<in>dom (ch_heap s). f (the (ch_heap s p)))"
    unfolding dom [symmetric] by (rule res_exists_total) (simp add: dom)
  also have "(\<exists>p\<in>dom (ch_heap s). f (the (ch_heap s p))) \<longleftrightarrow> (\<exists>c\<in>ran (ch_heap s). f c)"
    by (force simp: ran_def dom_def)
  finally show ?thesis .
qed

lemma compute_state_live:
  assumes "ch_wf s"
  shows "compute_ice_transport_state s = Inr (ice_state_of s)"
proof -
  have "\<not> ch_had_connection s \<Longrightarrow> ran (ch_heap s) = {}" using assms by (auto simp: ch_wf_def ran_def)
  then show ?thesis
    unfolding compute_ice_transport_state_def any_conn_live [OF assms] ice_state_of_def Let_def by auto
qed

lemma ice_state_cong:
  "ch_heap s' = ch_heap s \<Longrightarrow> ch_had_connection s' = ch_had_connection s \<Longrightarrow> ch_writable s' = ch_writable s \<Longrightarrow>
     ch_has_been_connection s' = ch_has_been_connection s \<Longrightarrow> ice_state_of s' = ice_state_of s"
  by (simp only: ice_state_of_def)

lemma ice_state_publish: "ice_state_of (emit es (s\<lparr> ch_state := x \<rparr>)) = ice_state_of s"
  by (rule ice_state_cong) (simp_all add: emit_def)

lemma update_state_ok:
  assumes wf: "ch_wf s"
  shows "\<exists>s'. channel_update_state s = Inr s' \<and> core s' = core s \<and> ch_synced s'"
proof -
  define w where "w = (\<exists>p c. ch_selected s = Some p \<and> ch_heap s p = Some c \<and> writable c)"
  have sel: "(case ch_selected s of None \<Rightarrow> Inr False
      | Some p \<Rightarrow> res_bind (deref (ch_heap s) p) (\<lambda>c. Inr (writable c))) = Inr w"
    using wf by (auto simp: w_def ch_wf_def split: option.splits)
  define s1 where "s1 = set_writable w s"
  have core1: "core s1 = core s" by (simp add: s1_def)
  then have wf1: "ch_wf s1" using wf core_wf by blast
  define s2 where "s2 = set_receiving (\<exists>c\<in>ran (ch_heap s1). cn_receiving c) s1"
  have core2: "core s2 = core s" by (simp add: s2_def s1_def)
  then have wf2: "ch_wf s2" using wf core_wf by blast
  have heap: "ch_heap s1 = ch_heap s" "ch_heap s2 = ch_heap s" "ch_selected s2 = ch_selected s"
    using core1 core2 by (simp_all add: core_def)
  define s3 where "s3 = (if ice_state_of s2 \<noteq> ch_state s2
    then emit [Ev_ice_state_change (ice_state_of s2)] (s2\<lparr> ch_state := ice_state_of s2 \<rparr>) else s2)"
  have run: "channel_update_state s = Inr s3"
    unfolding channel_update_state_def sel res_bind_Inr Let_def s1_def [symmetric]
      any_conn_live [OF wf1] s2_def [symmetric] compute_state_live [OF wf2] s3_def ..
  have core3: "core s3 = core s" using core2 by (simp add: s3_def core_def emit_def)
  have out3: "ch_writable s3 = ch_writable s2" "ch_receiving s3 = ch_receiving s2" "ch_state s3 = ice_state_of s2"
    "ice_state_of s3 = ice_state_of s2"
    by (simp_all add: s3_def ice_state_publish) (simp_all add: emit_def)
  have pub: "ch_writable s2 = w" "ch_receiving s2 = (\<exists>c\<in>ran (ch_heap s). cn_receiving c)"
    unfolding heap(1) [symmetric] by (simp_all add: s2_def) (simp add: s1_def)
  have sel3: "ch_selected s3 = ch_selected s" "ch_heap s3 = ch_heap s" using core3 by (simp_all add: core_def)
  have "ch_synced s3"
    unfolding ch_synced_def out3 pub sel3 w_def by simp
  with run core3 show ?thesis by blast
qed

subsection \<open>Changing one connection\<close>

definition conn_frame :: "(ice_connection \<Rightarrow> ice_connection) \<Rightarrow> bool" where
  "conn_frame f \<longleftrightarrow> (\<forall>c. cn_port (f c) = cn_port c \<and> c_address (cn_remote (f c)) = c_address (cn_remote c) \<and>
     cn_selected (f c) = cn_selected c)"

lemma update_conn_live: "ch_heap s p = Some c \<Longrightarrow> update_conn p f s = Inr (s\<lparr> ch_heap := (ch_heap s)(p \<mapsto> f c) \<rparr>)"
  by (simp add: update_conn_def deref_def)

lemma update_conn_wf:
  assumes wf: "ch_wf s" and c: "ch_heap s p = Some c" and f: "conn_frame f"
  shows "ch_wf (s\<lparr> ch_heap := (ch_heap s)(p \<mapsto> f c) \<rparr>)"
proof -
  let ?s = "s\<lparr> ch_heap := (ch_heap s)(p \<mapsto> f c) \<rparr>"
  have dom: "dom (ch_heap ?s) = dom (ch_heap s)" using c by auto
  have ok: "conn_ok ?s q d" if "ch_heap ?s q = Some d" for q d
  proof (cases "q = p")
    case True
    have "conn_ok s p c" using wf c by (simp add: ch_wf_def)
    moreover have "d = f c" using that True by simp
    ultimately show ?thesis using f True by (simp add: conn_ok_def conn_frame_def)
  next
    case False
    then have "conn_ok s q d" using wf that by (simp add: ch_wf_def)
    then show ?thesis by (simp add: conn_ok_def)
  qed
  have "\<exists>d. ch_heap ?s q = Some d \<and> cn_port d = i \<and> c_address (cn_remote d) = a"
    if i: "i < length (ch_ports s)" "pt_connections (ch_ports s ! i) a = Some q" for i a q
  proof -
    obtain d where "ch_heap s q = Some d" "cn_port d = i" "c_address (cn_remote d) = a"
      using wf_port_conn [OF wf i] by blast
    then show ?thesis using c f by (cases "q = p") (auto simp: conn_frame_def)
  qed
  then have "ports_ok ?s" by (simp add: ports_ok_def)
  then show ?thesis using wf ok dom by (simp add: ch_wf_def)
qed

text \<open>Changes that leave the published state in step.\<close>

lemma update_conn_synced:
  assumes "ch_synced s" "ch_heap s p = Some c" "cn_write_state (f c) = cn_write_state c" "cn_receiving (f c) = cn_receiving c"
  shows "ch_synced (s\<lparr> ch_heap := (ch_heap s)(p \<mapsto> f c) \<rparr>)"
proof -
  let ?s = "s\<lparr> ch_heap := (ch_heap s)(p \<mapsto> f c) \<rparr>"
  have ran: "(\<exists>d\<in>ran (ch_heap ?s). P d) \<longleftrightarrow> (\<exists>d\<in>ran (ch_heap s). P d)" if "P (f c) = P c" for P
    unfolding bex_ran using that assms(2) by (auto split: if_splits) (metis option.inject)+
  have w: "writable (f c) = writable c" and a: "active (f c) = active c"
    using assms(3) by (simp_all add: writable_def active_def)
  have "ice_state_of ?s = ice_state_of s" unfolding ice_state_of_def ran [of active, OF a] by simp
  moreover have "(\<exists>q d. ch_selected s = Some q \<and> ((ch_heap s)(p \<mapsto> f c)) q = Some d \<and> writable d) \<longleftrightarrow>
      (\<exists>q d. ch_selected s = Some q \<and> ch_heap s q = Some d \<and> writable d)"
    using w assms(2) by (cases "ch_selected s") auto
  ultimately show ?thesis
    using assms(1) ran [of cn_receiving, OF assms(4)] unfolding ch_synced_def by simp
qed

lemma core_synced:
  "core s' = core s \<Longrightarrow> ch_writable s' = ch_writable s \<Longrightarrow> ch_receiving s' = ch_receiving s \<Longrightarrow>
     ch_state s' = ch_state s \<Longrightarrow> ch_has_been_connection s' = ch_has_been_connection s \<Longrightarrow> ch_synced s' = ch_synced s"
  using ice_state_cong [of s' s] by (simp add: ch_synced_def core_def)

subsection \<open>Selecting and sorting\<close>

lemma switch_ok:
  assumes wf: "ch_wf s" and p: "p \<in> dom (ch_heap s)"
  shows "\<exists>s'. switch_selected_connection (Some p) s = Inr s' \<and> ch_wf s' \<and> strip (ch_heap s') = strip (ch_heap s)
    \<and> static s' = static s"
proof -
  define h1 where "h1 = (case ch_selected s of None \<Rightarrow> ch_heap s
    | Some q \<Rightarrow> (ch_heap s)(q \<mapsto> (the (ch_heap s q))\<lparr> cn_selected := False \<rparr>))"
  define h2 where "h2 = h1(p \<mapsto> (the (h1 p))\<lparr> cn_selected := True \<rparr>)"
  define s' where "s' = s\<lparr> ch_selected := Some p, ch_heap := h2,
    ch_controller := set_selected_connection (Some p) (ch_controller s) \<rparr>"
  have sel: "set_option (ch_selected s) \<subseteq> dom (ch_heap s)" using wf by (simp add: ch_wf_def)
  have dom1: "dom h1 = dom (ch_heap s)" using sel by (auto simp: h1_def split: option.splits)
  have dom2: "dom h2 = dom (ch_heap s)" using dom1 p by (auto simp: h2_def)
  have run: "switch_selected_connection (Some p) s = Inr s'"
  proof -
    have "(case ch_selected s of None \<Rightarrow> Inr (s\<lparr> ch_selected := Some p \<rparr>)
        | Some q \<Rightarrow> update_conn q (\<lambda>c. c\<lparr> cn_selected := False \<rparr>) (s\<lparr> ch_selected := Some p \<rparr>))
        = Inr (s\<lparr> ch_selected := Some p, ch_heap := h1 \<rparr>)"
      using sel by (auto simp: h1_def update_conn_def split: option.splits)
    moreover have "p \<in> dom h1" using p dom1 by simp
    ultimately show ?thesis
      by (simp add: switch_selected_connection_def update_conn_def s'_def h2_def Let_def)
  qed
  have flags: "cn_selected d \<longleftrightarrow> q = p" if "h2 q = Some d" for q d
    using that wf p by (auto simp: h2_def h1_def ch_wf_def conn_ok_def split: option.splits if_splits)
  have strip1: "strip h1 = strip (ch_heap s)"
    using sel by (auto simp: h1_def strip_def fun_eq_iff split: option.splits)
  obtain y where "h1 p = Some y" using p dom1 by auto
  then have "strip h2 = strip h1" by (auto simp: h2_def strip_def fun_eq_iff)
  with strip1 have strip2: "strip h2 = strip (ch_heap s)" by simp
  note same = strip_lookup [OF strip2]
  have ok: "conn_ok s' q e" if e: "h2 q = Some e" for q e
  proof -
    obtain d where d: "ch_heap s q = Some d" "e\<lparr> cn_selected := False \<rparr> = d\<lparr> cn_selected := False \<rparr>"
      using same [OF e] by blast
    then have "conn_ok s q d" using wf by (simp add: ch_wf_def)
    then show ?thesis using flags [OF e] strip_fields [OF d(2)] by (auto simp: conn_ok_def s'_def)
  qed
  have "ports_ok s'"
  proof -
    have "\<exists>c. h2 q = Some c \<and> cn_port c = i \<and> c_address (cn_remote c) = a"
      if i: "i < length (ch_ports s)" "pt_connections (ch_ports s ! i) a = Some q" for i a q
    proof -
      obtain d where d: "ch_heap s q = Some d" "cn_port d = i" "c_address (cn_remote d) = a"
        using wf_port_conn [OF wf i] by blast
      have "q \<in> dom h2" using d dom2 by auto
      then obtain e where e: "h2 q = Some e" by auto
      obtain d' where "ch_heap s q = Some d'" "e\<lparr> cn_selected := False \<rparr> = d'\<lparr> cn_selected := False \<rparr>"
        using same [OF e] by blast
      with d e show ?thesis using strip_fields(1,2) [of e d'] by simp
    qed
    then show ?thesis by (simp add: ports_ok_def s'_def)
  qed
  then have "ch_wf s'"
    using wf ok dom2 p by (auto simp: ch_wf_def s'_def set_selected_connection_def ctl_inv_def)
  then show ?thesis using run strip2 by (auto simp: s'_def static_def)
qed

lemma start_pinging_ok:
  assumes wf: "ch_wf s"
  shows "\<exists>s'. maybe_start_pinging E s = Inr s' \<and> core s' = core s \<and> ch_synced s' = ch_synced s"
proof -
  let ?s1 = "s\<lparr> ch_tick := Suc (ch_tick s) \<rparr>"
  have wf1: "ch_wf ?s1" using wf core_wf [of ?s1 s] by (simp add: core_def)
  have dom: "set (ct_connections (ch_controller s)) \<subseteq> dom (ch_heap s)" using wf by (simp add: ch_wf_def)
  have "has_pingable_connection (ch_heap s) t (ch_controller s) =
      Inr (\<exists>p\<in>set (ct_connections (ch_controller s)). pingable (ch_heap s) t (ch_controller s) p)" for t
    unfolding has_pingable_connection_def using dom
    by (intro res_exists_total is_pingable_live [OF wf_live(1) [OF wf]]) auto
  moreover have "ch_ping_watcher s" using wf by (simp add: ch_wf_def)
  ultimately have "\<exists>s'. maybe_start_pinging E s = Inr s' \<and> core s' = core s \<and> ch_writable s' = ch_writable s \<and>
      ch_receiving s' = ch_receiving s \<and> ch_state s' = ch_state s \<and>
      ch_has_been_connection s' = ch_has_been_connection s"
    by (simp add: maybe_start_pinging_def read_clock_def start_timer_def core_def)
  then show ?thesis using core_synced by metis
qed

lemma sort_update_ok:
  assumes wf: "ch_wf s"
  shows "\<exists>s'. sort_connections_and_update_state E s = Inr s' \<and> ch_wf s' \<and> ch_synced s' \<and>
    strip (ch_heap s') = strip (ch_heap s) \<and> static s' = static s"
proof -
  obtain ct r where run: "sort_and_switch_connection (ch_heap s) (ch_controller s) = Inr (ct, r)"
    and perm: "mset (ct_connections ct) = mset (ct_connections (ch_controller s))"
    and same: "ct_selected ct = ct_selected (ch_controller s)" "ct_pinged ct = ct_pinged (ch_controller s)"
      "ct_unpinged ct = ct_unpinged (ch_controller s)"
    and hd: "set_option r \<subseteq> set (ct_connections ct)"
  proof -
    let ?ps = "stable_sort (ptr_before (ch_heap s)) (ct_connections (ch_controller s))"
    have "?ps \<noteq> [] \<Longrightarrow> hd ?ps \<in> set ?ps" by (rule hd_in_set)
    then show ?thesis
      using that sort_and_switch_live [OF wf_live(1) [OF wf]] by (simp add: Let_def split: if_splits)
  qed
  let ?s1 = "s\<lparr> ch_controller := ct \<rparr>"
  have set: "set (ct_connections ct) = set (ct_connections (ch_controller s))" using perm by (metis set_mset_mset)
  have "distinct (ct_connections ct) = distinct (ct_connections (ch_controller s))"
    using perm mset_eq_imp_distinct_iff by blast
  then have wf1: "ch_wf ?s1" using wf same set by (simp add: ch_wf_def ctl_inv_def conn_ok_def ports_ok_def)
  obtain s2 where s2: "maybe_switch_selected_connection r ?s1 = Inr s2" "ch_wf s2"
      "strip (ch_heap s2) = strip (ch_heap s)" "static s2 = static s"
  proof (cases r)
    case None
    then show ?thesis using that [of ?s1] wf1 by (simp add: maybe_switch_selected_connection_def static_def)
  next
    case (Some p)
    then have "p \<in> dom (ch_heap ?s1)" using hd set wf by (auto simp: ch_wf_def)
    from switch_ok [OF wf1 this] obtain s' where s': "switch_selected_connection (Some p) ?s1 = Inr s'"
      "ch_wf s'" "strip (ch_heap s') = strip (ch_heap ?s1)" "static s' = static ?s1" by blast
    show ?thesis
      by (rule that [of s']) (use s' Some in \<open>simp_all add: maybe_switch_selected_connection_def static_def\<close>)
  qed
  obtain s3 where s3: "channel_update_state s2 = Inr s3" "core s3 = core s2" "ch_synced s3"
    using update_state_ok [OF s2(2)] by blast
  then have wf3: "ch_wf s3" using s2(2) core_wf by blast
  obtain s4 where s4: "maybe_start_pinging E s3 = Inr s4" "core s4 = core s3" "ch_synced s4"
    using start_pinging_ok [OF wf3] s3(3) by blast
  have "sort_connections_and_update_state E s = Inr s4"
    using run s2(1) s3(1) s4(1) by (simp add: sort_connections_and_update_state_def)
  moreover have "ch_wf s4" using wf3 s4(2) core_wf by blast
  moreover have "core s4 = core s2" using s3(2) s4(2) by simp
  ultimately show ?thesis using s2 s4(3) core_heap core_static by metis
qed

subsection \<open>While a connection is being torn down\<close>

text \<open>During \<^verbatim>\<open>destroy\<close> the dying connection has left the controller's lists but not the heap.  The
  weaker condition that every pointer is live is enough for the handlers to run through.\<close>

definition has_creds :: "ice_connection \<Rightarrow> bool" where
  "has_creds c \<longleftrightarrow> c_username (cn_remote c) \<noteq> [] \<and> c_password (cn_remote c) \<noteq> []"

definition ch_live :: "ice_channel \<Rightarrow> bool" where
  "ch_live s \<longleftrightarrow> ctl_inv (ch_controller s) \<and> ctl_live (ch_heap s) (ch_controller s) \<and>
     set_option (ch_selected s) \<subseteq> dom (ch_heap s) \<and>
     (ch_ping_watcher s \<or> ch_start_pinging s \<or>
        (\<forall>p\<in>set (ct_connections (ch_controller s)). \<not> has_creds (the (ch_heap s p))))"

definition live_core :: "ice_channel \<Rightarrow> _" where
  "live_core s = (ch_heap s, ch_controller s, ch_selected s, ch_ping_watcher s, ch_start_pinging s, ch_ports s)"

lemma live_core_cong: "live_core s' = live_core s \<Longrightarrow> ch_live s' = ch_live s"
  by (simp add: ch_live_def live_core_def)

lemma wf_imp_live: "ch_wf s \<Longrightarrow> ch_live s"
  using wf_live [of s] by (simp add: ch_live_def) (simp add: ch_wf_def)

lemma any_ptr_total:
  "set ps \<subseteq> dom h \<Longrightarrow> \<exists>b. res_exists (\<lambda>p. res_bind (deref h p) (\<lambda>c. Inr (f c))) ps = Inr b"
  using res_exists_total [of ps "\<lambda>p. res_bind (deref h p) (\<lambda>c. Inr (f c))" "\<lambda>p. f (the (h p))"]
  by (auto simp: subset_iff)

lemma any_conn_total:
  "ctl_live h ct \<Longrightarrow> \<exists>b. res_exists (\<lambda>p. res_bind (deref h p) (\<lambda>c. Inr (f c))) (ct_connections ct) = Inr b"
  by (rule any_ptr_total) (simp add: ctl_live_def)

lemma set_writable_live [simp]: "live_core (set_writable b s) = live_core s"
  by (simp add: set_writable_def live_core_def emit_def Let_def)

lemma set_receiving_live [simp]: "live_core (set_receiving b s) = live_core s"
  by (simp add: set_receiving_def live_core_def emit_def)

lemma live_update_state:
  assumes live: "set (ct_connections (ch_controller s)) \<subseteq> dom (ch_heap s)" "set_option (ch_selected s) \<subseteq> dom (ch_heap s)"
  shows "\<exists>s'. channel_update_state s = Inr s' \<and> live_core s' = live_core s"
proof -
  have sel: "\<exists>w. (case ch_selected s of None \<Rightarrow> Inr False
      | Some p \<Rightarrow> res_bind (deref (ch_heap s) p) (\<lambda>c. Inr (writable c))) = Inr w"
    using live(2) by (auto split: option.splits)
  then obtain w where w: "(case ch_selected s of None \<Rightarrow> Inr False
      | Some p \<Rightarrow> res_bind (deref (ch_heap s) p) (\<lambda>c. Inr (writable c))) = Inr w" by blast
  have ctl: "set (ct_connections (ch_controller s1)) \<subseteq> dom (ch_heap s1)" if "live_core s1 = live_core s" for s1
    using live(1) that by (simp add: live_core_def)
  have 1: "live_core (set_writable w s) = live_core s" by simp
  obtain r where r: "res_exists (\<lambda>p. res_bind (deref (ch_heap (set_writable w s)) p) (\<lambda>c. Inr (cn_receiving c)))
      (ct_connections (ch_controller (set_writable w s))) = Inr r"
    using any_ptr_total [OF ctl [OF 1]] by blast
  let ?s2 = "set_receiving r (set_writable w s)"
  have 2: "live_core ?s2 = live_core s" by simp
  obtain st where st: "compute_ice_transport_state ?s2 = Inr st"
    using any_ptr_total [OF ctl [OF 2], of active] by (auto simp: compute_ice_transport_state_def)
  have "live_core (if st \<noteq> ch_state ?s2 then emit [Ev_ice_state_change st] (?s2\<lparr> ch_state := st \<rparr>) else ?s2)
      = live_core ?s2" by (simp add: live_core_def emit_def)
  then show ?thesis
    unfolding channel_update_state_def w res_bind_Inr Let_def r st using 2 by simp
qed

lemma live_start_pinging:
  assumes live: "ch_live s"
  shows "\<exists>s'. maybe_start_pinging E s = Inr s' \<and> ch_live s' \<and> ch_heap s' = ch_heap s \<and>
    ch_controller s' = ch_controller s \<and> ch_ports s' = ch_ports s \<and> ch_selected s' = ch_selected s \<and>
    (ch_start_pinging s \<longrightarrow> ch_start_pinging s') \<and> ch_ping_watcher s' = ch_ping_watcher s"
proof -
  have ctl: "ctl_live (ch_heap s) (ch_controller s)" and dom: "set (ct_connections (ch_controller s)) \<subseteq> dom (ch_heap s)"
    using live by (auto simp: ch_live_def ctl_live_def)
  have has: "has_pingable_connection (ch_heap s) t (ch_controller s) =
      Inr (\<exists>p\<in>set (ct_connections (ch_controller s)). pingable (ch_heap s) t (ch_controller s) p)" for t
    unfolding has_pingable_connection_def using dom
    by (intro res_exists_total is_pingable_live [OF ctl]) auto
  have "\<exists>p\<in>set (ct_connections (ch_controller s)). pingable (ch_heap s) t (ch_controller s) p \<Longrightarrow>
      ch_ping_watcher s \<or> ch_start_pinging s" for t
    using live by (auto simp: ch_live_def pingable_def has_creds_def Let_def)
  with has live show ?thesis
    by (auto simp: maybe_start_pinging_def read_clock_def start_timer_def ch_live_def)
qed

lemma live_switch:
  assumes live: "ch_live s" and p: "set_option conn \<subseteq> dom (ch_heap s)"
  shows "\<exists>s'. switch_selected_connection conn s = Inr s' \<and> ch_live s' \<and> strip (ch_heap s') = strip (ch_heap s) \<and>
    ct_connections (ch_controller s') = ct_connections (ch_controller s) \<and> ch_ports s' = ch_ports s \<and>
    ch_selected s' = conn \<and> (conn \<noteq> None \<longrightarrow> ct_selected (ch_controller s') = conn) \<and>
    ch_start_pinging s' = ch_start_pinging s \<and> ch_ping_watcher s' = ch_ping_watcher s"
proof -
  have sel: "set_option (ch_selected s) \<subseteq> dom (ch_heap s)" using live by (simp add: ch_live_def)
  let ?off = "\<lambda>c. c\<lparr> cn_selected := False \<rparr>"
  define h1 where "h1 = (case ch_selected s of None \<Rightarrow> ch_heap s | Some q \<Rightarrow> (ch_heap s)(q \<mapsto> ?off (the (ch_heap s q))))"
  have strip1: "strip h1 = strip (ch_heap s)"
    using sel by (auto simp: h1_def strip_def fun_eq_iff split: option.splits)
  have run1: "(case ch_selected s of None \<Rightarrow> Inr (s\<lparr> ch_selected := conn \<rparr>)
      | Some q \<Rightarrow> update_conn q ?off (s\<lparr> ch_selected := conn \<rparr>)) = Inr (s\<lparr> ch_selected := conn, ch_heap := h1 \<rparr>)"
    using sel by (auto simp: h1_def update_conn_def split: option.splits)
  have creds: "has_creds (the (h' q)) = has_creds (the (ch_heap s q))" if "strip h' = strip (ch_heap s)" for h' q
    using strip_field [OF that, of has_creds q]
    by (cases "h' q"; cases "ch_heap s q") (auto simp: has_creds_def)
  have dom: "dom h' = dom (ch_heap s)" if "strip h' = strip (ch_heap s)" for h'
    using arg_cong [OF that, of dom] by simp
  show ?thesis
  proof (cases conn)
    case None
    have "switch_selected_connection conn s = Inr (s\<lparr> ch_selected := conn, ch_heap := h1 \<rparr>)"
      unfolding switch_selected_connection_def Let_def run1 by (simp add: None)
    then show ?thesis
      using strip1 live dom [OF strip1] creds [OF strip1] None
      by (simp add: switch_selected_connection_def Let_def ch_live_def ctl_live_def)
  next
    case (Some p)
    define h2 where "h2 = h1(p \<mapsto> (the (h1 p))\<lparr> cn_selected := True \<rparr>)"
    have p1: "p \<in> dom h1" using p Some dom [OF strip1] by simp
    then have "strip h2 = strip h1" by (auto simp: h2_def strip_def fun_eq_iff)
    with strip1 have strip2: "strip h2 = strip (ch_heap s)" by simp
    have "switch_selected_connection conn s = Inr (s\<lparr> ch_selected := conn, ch_heap := h2,
        ch_controller := set_selected_connection conn (ch_controller s) \<rparr>)"
      unfolding switch_selected_connection_def Let_def run1
      using p1 by (simp add: Some update_conn_def h2_def)
    then show ?thesis
      using strip2 live dom [OF strip2] creds [OF strip2] p
      by (simp add: ch_live_def ctl_live_def ctl_inv_def set_selected_connection_def)
  qed
qed

lemma live_sort_update:
  assumes live: "ch_live s"
  shows "\<exists>s'. sort_connections_and_update_state E s = Inr s' \<and> ch_live s' \<and>
    strip (ch_heap s') = strip (ch_heap s) \<and> ch_ports s' = ch_ports s \<and>
    set (ct_connections (ch_controller s')) = set (ct_connections (ch_controller s)) \<and>
    (ch_selected s' = ch_selected s \<and> ct_selected (ch_controller s') = ct_selected (ch_controller s) \<or>
     (\<exists>q\<in>set (ct_connections (ch_controller s)). ch_selected s' = Some q \<and> ct_selected (ch_controller s') = Some q)) \<and>
    (ch_start_pinging s \<longrightarrow> ch_start_pinging s') \<and> ch_ping_watcher s' = ch_ping_watcher s"
proof -
  have ctl: "ctl_live (ch_heap s) (ch_controller s)" using live by (simp add: ch_live_def)
  let ?ps = "stable_sort (ptr_before (ch_heap s)) (ct_connections (ch_controller s))"
  let ?s1 = "s\<lparr> ch_controller := (ch_controller s)\<lparr> ct_connections := ?ps \<rparr> \<rparr>"
  obtain r where run: "sort_and_switch_connection (ch_heap s) (ch_controller s) =
      Inr ((ch_controller s)\<lparr> ct_connections := ?ps \<rparr>, r)" and r: "set_option r \<subseteq> set ?ps"
    using sort_and_switch_live [OF ctl] hd_in_set [of ?ps] by (simp add: Let_def split: if_splits)
  have live1: "ch_live ?s1" using live by (simp add: ch_live_def ctl_live_def ctl_inv_def)
  have "set_option r \<subseteq> dom (ch_heap ?s1)" using r ctl by (auto simp: ctl_live_def)
  then obtain s2 where s2: "maybe_switch_selected_connection r ?s1 = Inr s2" "ch_live s2"
      "strip (ch_heap s2) = strip (ch_heap s)" "ch_ports s2 = ch_ports s"
      "ct_connections (ch_controller s2) = ?ps"
      "ch_start_pinging s2 = ch_start_pinging s" "ch_ping_watcher s2 = ch_ping_watcher s"
      "ch_selected s2 = ch_selected s \<and> ct_selected (ch_controller s2) = ct_selected (ch_controller s) \<or>
       (\<exists>q\<in>set ?ps. ch_selected s2 = Some q \<and> ct_selected (ch_controller s2) = Some q)"
    using live_switch [OF live1, of r] live1 r by (cases r) (auto simp: maybe_switch_selected_connection_def)
  obtain s3 where s3: "channel_update_state s2 = Inr s3" "live_core s3 = live_core s2"
    using live_update_state [of s2] s2(2) by (auto simp: ch_live_def ctl_live_def)
  then have live3: "ch_live s3" using s2(2) live_core_cong by blast
  obtain s4 where s4: "maybe_start_pinging E s3 = Inr s4" "ch_live s4" "ch_heap s4 = ch_heap s3"
      "ch_controller s4 = ch_controller s3" "ch_ports s4 = ch_ports s3" "ch_selected s4 = ch_selected s3"
      "ch_start_pinging s3 \<longrightarrow> ch_start_pinging s4" "ch_ping_watcher s4 = ch_ping_watcher s3"
    using live_start_pinging [OF live3] by blast
  have eq: "ch_heap s4 = ch_heap s2" "ch_controller s4 = ch_controller s2" "ch_ports s4 = ch_ports s2"
    "ch_selected s4 = ch_selected s2" "ch_start_pinging s2 \<longrightarrow> ch_start_pinging s4" "ch_ping_watcher s4 = ch_ping_watcher s2"
    using s3(2) s4(3-8) by (simp_all add: live_core_def)
  show ?thesis
    using run s2 s3(1) s4(1,2) eq by (simp add: sort_connections_and_update_state_def)
qed

lemma live_destroy:
  assumes live: "ch_live s" and p: "p \<in> dom (ch_heap s)"
  shows "\<exists>s'. destroy E p s = Inr s' \<and> ch_heap s' p = None \<and> dom (ch_heap s') = dom (ch_heap s) - {p} \<and>
    set (ct_connections (ch_controller s')) = set (ct_connections (ch_controller s)) - {p}"
proof -
  let ?s1 = "s\<lparr> ch_controller := on_connection_destroyed p (ch_controller s) \<rparr>"
  have inv: "ctl_inv (ch_controller s)" using live by (simp add: ch_live_def)
  have conns: "set (ct_connections (ch_controller ?s1)) = set (ct_connections (ch_controller s)) - {p}"
    using inv by (simp add: on_connection_destroyed_def ctl_inv_def)
  have live1: "ch_live ?s1"
    using live ctl_inv_destroyed [OF inv, of p]
    by (auto simp: ch_live_def ctl_live_def on_connection_destroyed_def ctl_inv_def)
  obtain s2 where s2: "channel_on_connection_destroyed E p s = Inr s2" "dom (ch_heap s2) = dom (ch_heap s)"
      "set (ct_connections (ch_controller s2)) = set (ct_connections (ch_controller s)) - {p}"
  proof (cases "ch_selected s = Some p")
    case True
    obtain t where t: "switch_selected_connection None ?s1 = Inr t" "ch_live t" "strip (ch_heap t) = strip (ch_heap s)"
        "ct_connections (ch_controller t) = ct_connections (ch_controller ?s1)"
      using live_switch [OF live1, of None] by auto
    obtain u where u: "sort_connections_and_update_state E t = Inr u" "strip (ch_heap u) = strip (ch_heap t)"
        "set (ct_connections (ch_controller u)) = set (ct_connections (ch_controller t))"
      using live_sort_update [OF t(2)] by blast
    have "dom (ch_heap u) = dom (ch_heap s)" using t(3) u(2) by (metis strip_dom)
    then show ?thesis
      using that [of u] True t u(1,3) conns by (simp add: channel_on_connection_destroyed_def Let_def)
  next
    case False
    obtain u where u: "channel_update_state ?s1 = Inr u" "live_core u = live_core ?s1"
      using live_update_state [of ?s1] live1 by (auto simp: ch_live_def ctl_live_def)
    then show ?thesis
      using that [of u] False conns by (simp add: channel_on_connection_destroyed_def Let_def live_core_def)
  qed
  then have "ch_heap s2 p \<noteq> None" using p by auto
  then show ?thesis using s2 p by (simp add: destroy_def)
qed

subsection \<open>Operations of a connection\<close>

text \<open>What the handlers of a connection keep, with the new contents of the heap up to the
  selected flags.\<close>

definition kept :: "ice_channel \<Rightarrow> ice_channel \<Rightarrow> conn_heap \<Rightarrow> bool" where
  "kept s s' h \<longleftrightarrow> ch_wf s' \<and> ch_synced s' \<and> static s' = static s \<and> strip (ch_heap s') = strip h"

lemma kept_conn:
  assumes "kept s s' h" "h p = Some c"
  obtains d where "ch_heap s' p = Some d" "d\<lparr> cn_selected := False \<rparr> = c\<lparr> cn_selected := False \<rparr>"
    "strip (ch_heap s') = strip h"
proof -
  have eq: "strip (ch_heap s') = strip h" using assms(1) by (simp add: kept_def)
  show ?thesis using strip_lookup [OF eq [symmetric] assms(2)] eq that by metis
qed

lemma kept_refl: "ch_wf s \<Longrightarrow> ch_synced s \<Longrightarrow> kept s s (ch_heap s)"
  by (simp add: kept_def)

lemma strip_upd_cong:
  "strip h' = strip h \<Longrightarrow> d\<lparr> cn_selected := False \<rparr> = c\<lparr> cn_selected := False \<rparr> \<Longrightarrow>
     strip (h'(p \<mapsto> d)) = strip (h(p \<mapsto> c))"
  by (simp add: strip_upd)

lemma signal_ok:
  assumes wf: "ch_wf s" and c: "ch_heap s p = Some c" and f: "conn_frame f"
  shows "\<exists>s'. res_bind (update_conn p f s) (on_connection_state_change E) = Inr s' \<and>
    kept s s' ((ch_heap s)(p \<mapsto> f c))"
proof -
  let ?s = "s\<lparr> ch_heap := (ch_heap s)(p \<mapsto> f c) \<rparr>"
  obtain s' where "sort_connections_and_update_state E ?s = Inr s'" "ch_wf s'" "ch_synced s'"
      "strip (ch_heap s') = strip (ch_heap ?s)" "static s' = static ?s"
    using sort_update_ok [OF update_conn_wf [OF wf c f]] by blast
  then show ?thesis
    by (simp add: update_conn_live [OF c] on_connection_state_change_def kept_def static_def)
qed

lemma frame_intros [intro!, simp]:
  "conn_frame (\<lambda>c. c\<lparr> cn_write_state := x \<rparr>)" "conn_frame (\<lambda>c. c\<lparr> cn_receiving := b \<rparr>)"
  "conn_frame (set_state st)" "conn_frame (\<lambda>c. c\<lparr> cn_last_data_received := n \<rparr>)"
  "conn_frame (\<lambda>c. c\<lparr> cn_last_ping_received := n \<rparr>)"
  "conn_frame (\<lambda>c. c\<lparr> cn_last_ping_response_received := n, cn_pings := ps \<rparr>)"
  "conn_frame (\<lambda>c. c\<lparr> cn_rtt := g c, cn_rtt_samples := k c \<rparr>)"
  "conn_frame (maybe_set_remote_ice_params params)"
  "conn_frame (\<lambda>c. c\<lparr> cn_requests := (cn_requests c)(t := None) \<rparr>)"
  by (simp_all add: conn_frame_def set_state_def maybe_set_remote_ice_params_def)

lemma set_write_state_ok:
  assumes "ch_wf s" "ch_synced s" and c: "ch_heap s p = Some c"
  shows "\<exists>s'. set_write_state E st p s = Inr s' \<and> kept s s' ((ch_heap s)(p \<mapsto> c\<lparr> cn_write_state := st \<rparr>))"
proof (cases "cn_write_state c = st")
  case True
  then have "c\<lparr> cn_write_state := st \<rparr> = c" by simp
  with True c show ?thesis
    using assms kept_refl by (simp add: set_write_state_def deref_def update_conn_live fun_upd_idem)
next
  case False
  obtain s' where "res_bind (update_conn p (\<lambda>c. c\<lparr> cn_write_state := st \<rparr>) s) (on_connection_state_change E) = Inr s'"
      "kept s s' ((ch_heap s)(p \<mapsto> c\<lparr> cn_write_state := st \<rparr>))"
    using signal_ok [OF assms(1) c, of "\<lambda>c. c\<lparr> cn_write_state := st \<rparr>" E] by auto
  with False c show ?thesis by (simp add: set_write_state_def deref_def)
qed

lemma update_receiving_ok:
  assumes "ch_wf s" "ch_synced s" and c: "ch_heap s p = Some c"
  shows "\<exists>s'. update_receiving E now p s = Inr s' \<and>
    kept s s' ((ch_heap s)(p \<mapsto> c\<lparr> cn_receiving := compute_receiving now c \<rparr>))"
proof (cases "cn_receiving c = compute_receiving now c")
  case True
  have "c\<lparr> cn_receiving := cn_receiving c \<rparr> = c" by simp
  then have "c\<lparr> cn_receiving := compute_receiving now c \<rparr> = c" unfolding True .
  with True c show ?thesis
    using assms kept_refl by (simp add: update_receiving_def deref_def fun_upd_idem)
next
  case False
  obtain s' where "res_bind (update_conn p (\<lambda>c'. c'\<lparr> cn_receiving := compute_receiving now c \<rparr>) s)
      (on_connection_state_change E) = Inr s'"
      "kept s s' ((ch_heap s)(p \<mapsto> c\<lparr> cn_receiving := compute_receiving now c \<rparr>))"
    using signal_ok [OF assms(1) c, of "\<lambda>c'. c'\<lparr> cn_receiving := compute_receiving now c \<rparr>" E] by auto
  with False c show ?thesis by (simp add: update_receiving_def deref_def Let_def)
qed

text \<open>When \<^verbatim>\<open>update_state\<close> gives up on a connection.\<close>

definition gone_unwritable :: "int \<Rightarrow> ice_connection \<Rightarrow> bool" where
  "gone_unwritable now c \<longleftrightarrow> cn_write_state c = STATE_WRITABLE \<and>
     too_many_ping_failed CONNECTION_WRITE_CONNECT_FAILS (clamp_rtt (cn_rtt c)) now c \<and>
     too_long_without_response CONNECTION_WRITE_CONNECT_TIMEOUT now c"

definition timed_out :: "int \<Rightarrow> ice_connection \<Rightarrow> bool" where
  "timed_out now c \<longleftrightarrow> too_long_without_response CONNECTION_WRITE_TIMEOUT now c \<and>
     (cn_write_state c = STATE_WRITE_UNRELIABLE \<or> cn_write_state c = STATE_WRITE_INIT \<or> gone_unwritable now c)"

definition aged :: "int \<Rightarrow> ice_connection \<Rightarrow> ice_connection" where
  "aged now c = c\<lparr> cn_write_state := (if gone_unwritable now c then STATE_WRITE_UNRELIABLE else cn_write_state c),
     cn_receiving := compute_receiving now c \<rparr>"

lemma too_long_cong: "cn_pings d = cn_pings c \<Longrightarrow> too_long_without_response t now d = too_long_without_response t now c"
  by (simp add: too_long_without_response_def)

lemma compute_receiving_upd [simp]:
  "compute_receiving now (c\<lparr> cn_write_state := st \<rparr>) = compute_receiving now c"
  "compute_receiving now (c\<lparr> cn_selected := b \<rparr>) = compute_receiving now c"
  by (simp_all add: compute_receiving_def last_received_def receiving_timeout_def)

lemma compute_receiving_strip:
  "d\<lparr> cn_selected := False \<rparr> = c\<lparr> cn_selected := False \<rparr> \<Longrightarrow> compute_receiving now d = compute_receiving now c"
  by (metis compute_receiving_upd(2))

text \<open>The first half of \<^verbatim>\<open>update_state\<close>.\<close>

lemma unwritable_ok:
  assumes "ch_wf s" "ch_synced s" and c: "ch_heap s p = Some c"
  shows "\<exists>s1. (if gone_unwritable now c then set_write_state E STATE_WRITE_UNRELIABLE p s else Inr s) = Inr s1 \<and>
    kept s s1 ((ch_heap s)(p \<mapsto> c\<lparr> cn_write_state :=
      (if gone_unwritable now c then STATE_WRITE_UNRELIABLE else cn_write_state c) \<rparr>))"
  using set_write_state_ok [OF assms, of E STATE_WRITE_UNRELIABLE] kept_refl [OF assms(1,2)] c
  by (auto simp: fun_upd_idem)

lemma connection_update_state_ok:
  assumes "ch_wf s" "ch_synced s" and c: "ch_heap s p = Some c" and no: "\<not> timed_out now c"
  shows "\<exists>s'. connection_update_state E now p s = Inr s' \<and> kept s s' ((ch_heap s)(p \<mapsto> aged now c))"
proof -
  let ?c1 = "c\<lparr> cn_write_state := (if gone_unwritable now c then STATE_WRITE_UNRELIABLE else cn_write_state c) \<rparr>"
  obtain s1 where s1: "(if gone_unwritable now c then set_write_state E STATE_WRITE_UNRELIABLE p s else Inr s) = Inr s1"
      "kept s s1 ((ch_heap s)(p \<mapsto> ?c1))"
    using unwritable_ok [OF assms(1-3)] by blast
  obtain d where d: "ch_heap s1 p = Some d" "d\<lparr> cn_selected := False \<rparr> = ?c1\<lparr> cn_selected := False \<rparr>"
      "strip (ch_heap s1) = strip ((ch_heap s)(p \<mapsto> ?c1))"
    using kept_conn [OF s1(2), of p ?c1] by auto
  have pings: "cn_pings d = cn_pings c" and ws: "cn_write_state d = cn_write_state ?c1"
    using strip_fields(4,5) [OF d(2)] by simp_all
  have stay: "\<not> ((cn_write_state d = STATE_WRITE_UNRELIABLE \<or> cn_write_state d = STATE_WRITE_INIT) \<and>
      too_long_without_response CONNECTION_WRITE_TIMEOUT now d)"
    using no ws by (auto simp: timed_out_def too_long_cong [OF pings] split: if_splits)
  have wf1: "ch_wf s1" "ch_synced s1" "static s1 = static s" using s1(2) by (simp_all add: kept_def)
  obtain s' where s': "update_receiving E now p s1 = Inr s'"
      "kept s1 s' ((ch_heap s1)(p \<mapsto> d\<lparr> cn_receiving := compute_receiving now d \<rparr>))"
    using update_receiving_ok [OF wf1(1,2) d(1)] by blast
  have "compute_receiving now d = compute_receiving now c"
    using compute_receiving_strip [OF d(2)] by simp
  moreover have "(d\<lparr> cn_receiving := b \<rparr>)\<lparr> cn_selected := False \<rparr> = (?c1\<lparr> cn_receiving := b \<rparr>)\<lparr> cn_selected := False \<rparr>" for b
    using d(2) by (cases d; cases c) simp
  ultimately have "strip ((ch_heap s1)(p \<mapsto> d\<lparr> cn_receiving := compute_receiving now d \<rparr>)) =
      strip ((ch_heap s)(p \<mapsto> aged now c))"
    using d(3) by (simp add: strip_upd aged_def)
  then have "kept s s' ((ch_heap s)(p \<mapsto> aged now c))" using s'(2) wf1(3) by (simp add: kept_def)
  moreover have "connection_update_state E now p s = Inr s'"
    using s1(1) d(1) stay s'(1) c
    by (auto simp: connection_update_state_def deref_def gone_unwritable_def Let_def)
  ultimately show ?thesis by blast
qed

lemma connection_update_state_uaf:
  assumes "ch_wf s" "ch_synced s" and c: "ch_heap s p = Some c" and out: "timed_out now c"
  shows "connection_update_state E now p s = Inl Use_after_free"
proof -
  let ?c1 = "c\<lparr> cn_write_state := (if gone_unwritable now c then STATE_WRITE_UNRELIABLE else cn_write_state c) \<rparr>"
  obtain s1 where s1: "(if gone_unwritable now c then set_write_state E STATE_WRITE_UNRELIABLE p s else Inr s) = Inr s1"
      "kept s s1 ((ch_heap s)(p \<mapsto> ?c1))"
    using unwritable_ok [OF assms(1-3)] by blast
  obtain d where d: "ch_heap s1 p = Some d" "d\<lparr> cn_selected := False \<rparr> = ?c1\<lparr> cn_selected := False \<rparr>"
    using kept_conn [OF s1(2), of p ?c1] by auto
  have pings: "cn_pings d = cn_pings c" and ws: "cn_write_state d = cn_write_state ?c1"
    using strip_fields(4,5) [OF d(2)] by simp_all
  have go: "(cn_write_state d = STATE_WRITE_UNRELIABLE \<or> cn_write_state d = STATE_WRITE_INIT) \<and>
      too_long_without_response CONNECTION_WRITE_TIMEOUT now d"
    using out ws by (auto simp: timed_out_def too_long_cong [OF pings])
  have wf1: "ch_wf s1" "ch_synced s1" using s1(2) by (simp_all add: kept_def)
  obtain s2 where s2: "set_write_state E STATE_WRITE_TIMEOUT p s1 = Inr s2"
      "kept s1 s2 ((ch_heap s1)(p \<mapsto> d\<lparr> cn_write_state := STATE_WRITE_TIMEOUT \<rparr>))"
    using set_write_state_ok [OF wf1 d(1)] by blast
  obtain e where e: "ch_heap s2 p = Some e"
    using kept_conn [OF s2(2), of p "d\<lparr> cn_write_state := STATE_WRITE_TIMEOUT \<rparr>"] by auto
  have "ch_wf s2" using s2(2) by (simp add: kept_def)
  then have "ch_live (s2\<lparr> ch_heap := (ch_heap s2)(p \<mapsto> set_state FAILED e) \<rparr>)" (is "ch_live ?s3")
    using update_conn_wf [OF _ e] wf_imp_live by simp
  moreover have "p \<in> dom (ch_heap ?s3)" by simp
  ultimately obtain s4 where s4: "destroy E p ?s3 = Inr s4" "ch_heap s4 p = None"
    using live_destroy by blast
  have "fail_and_destroy E p s2 = Inr s4"
    using s4(1) by (simp add: fail_and_destroy_def update_conn_live [OF e])
  then have rest: "res_bind (set_write_state E STATE_WRITE_TIMEOUT p s1) (fail_and_destroy E p) = Inr s4"
    using s2(1) by simp
  have "update_receiving E now p s4 = Inl Use_after_free"
    using s4(2) by (simp add: update_receiving_def deref_def)
  then show ?thesis
    using s1(1) d(1) go rest c
    by (auto simp: connection_update_state_def deref_def gone_unwritable_def Let_def)
qed

end
