(* ===== verification/Ice_Safety.thy ===== *)
theory Ice_Safety
  imports Ice_Invariant
begin

text \<open>
  Which events an ICE channel survives: building and sending messages never misbehaves, the
  periodic check misbehaves exactly if a connection has timed out, a received datagram only in
  the ways stated below, and every event that runs through keeps the invariant.
\<close>

subsection \<open>Building messages never misbehaves\<close>

definition attr_safe :: "stun_attribute \<Rightarrow> bool" where
  "attr_safe a = (case attr_value a of
      Byte_String None \<Rightarrow> attr_length a = 0
    | Byte_String (Some bs) \<Rightarrow> unat (attr_length a) \<le> length bs
    | _ \<Rightarrow> True)"

abbreviation msg_safe :: "stun_message \<Rightarrow> bool" where
  "msg_safe m \<equiv> list_all attr_safe (msg_attrs m)"

lemma attr_write_safe: "attr_safe a \<Longrightarrow> \<exists>w. attr_write R a buf = Inr w"
  by (auto simp: attr_safe_def attr_write_def split: attr_value.splits option.splits)

lemma write_attrs_safe: "list_all attr_safe as \<Longrightarrow> \<exists>w. write_attrs R as buf = Inr w"
proof (induction as arbitrary: buf)
  case Nil
  then show ?case by simp
next
  case (Cons a as)
  obtain w where "attr_write R a (WriteUInt16 R (WriteUInt16 R buf (attr_type a)) (attr_length a)) = Inr w"
    using attr_write_safe Cons.prems by fastforce
  then show ?case using Cons by (cases w) auto
qed

lemma stun_write_safe: "msg_safe m \<Longrightarrow> \<exists>w. stun_write R m buf = Inr w"
  by (simp add: stun_write_def write_attrs_safe)

lemma unat_of_nat_le: "unat (of_nat n :: 'a :: len word) \<le> n"
  by (simp add: unat_of_nat)

lemma attr_safe_intros [simp]:
  "attr_safe (copy_bytes bs a)" "attr_safe (StunByteStringAttribute_str t bs)"
  "attr_safe (StunByteStringAttribute_len t 0)" "attr_safe (StunUint32Attribute t v)"
  "attr_safe (StunUint64Attribute t w)" "attr_safe (StunXorAddressAttribute t sa)"
  "attr_safe (set_reason r (set_code c create_error_code))" "attr_safe (a\<lparr> attr_value := Uint32 v \<rparr>)"
  by (simp_all add: attr_safe_def copy_bytes_def StunByteStringAttribute_str_def unat_of_nat_le
      StunByteStringAttribute_len_def StunUint32Attribute_def StunUint64Attribute_def
      StunXorAddressAttribute_def set_address_def create_error_code_def)

lemma msg_safe_add [simp]: "msg_safe (add_attribute a m) \<longleftrightarrow> msg_safe m \<and> attr_safe a"
  by (simp add: add_attribute_def Let_def)

lemma msg_safe_update_last:
  "msg_safe m \<Longrightarrow> (\<And>a. attr_safe (f a)) \<Longrightarrow> msg_safe (update_last_attr f m)"
  by (auto simp: update_last_attr_def list_all_iff dest: in_set_butlastD)

lemma add_fingerprint_safe:
  assumes "msg_safe m"
  shows "\<exists>b m'. add_fingerprint R m = Inr (b, m') \<and> msg_safe m'"
proof -
  let ?m1 = "add_attribute (StunUint32Attribute STUN_ATTR_FINGERPRINT 0) m"
  have safe: "msg_safe ?m1" using assms by simp
  then obtain w where w: "stun_write R ?m1 [] = Inr w" using stun_write_safe by blast
  show ?thesis
  proof (cases w)
    case None
    with w safe show ?thesis by (auto simp: add_fingerprint_def Let_def)
  next
    case (Some buf)
    with w safe show ?thesis
      by (auto simp: add_fingerprint_def Let_def msg_safe_update_last)
  qed
qed

lemma add_message_integrity_safe:
  assumes "msg_safe m"
  shows "\<exists>b m'. add_message_integrity R pwd m = Inr (b, m') \<and> msg_safe m'"
proof -
  let ?m1 = "add_attribute (StunByteStringAttribute_str STUN_ATTR_MESSAGE_INTEGRITY
    (replicate k_stun_message_integrity_size 0x30)) m"
  have safe: "msg_safe ?m1" using assms by simp
  then obtain w where w: "stun_write R ?m1 [] = Inr w" using stun_write_safe by blast
  show ?thesis
  proof (cases w)
    case None
    with w safe show ?thesis by (auto simp: add_message_integrity_def add_message_integrity_of_type_def Let_def)
  next
    case (Some buf)
    have "msg_safe ((update_last_attr (copy_bytes h) ?m1)\<lparr> msg_password := pwd, msg_integrity := k_integrity_ok \<rparr>)" for h
      using msg_safe_update_last [OF safe, of "copy_bytes h"] by simp
    with Some w safe show ?thesis
      by (auto simp: add_message_integrity_def add_message_integrity_of_type_def Let_def)
  qed
qed

lemma signed_write_safe:
  assumes "msg_safe m"
  shows "\<exists>m' w. res_bind (add_message_integrity R pwd m) (\<lambda>(_, m6). res_bind (add_fingerprint R m6) (\<lambda>(_, m7). Inr m7))
    = Inr m' \<and> stun_write R m' [] = Inr w"
proof -
  obtain b m1 where 1: "add_message_integrity R pwd m = Inr (b, m1)" "msg_safe m1"
    using add_message_integrity_safe [OF assms] by blast
  obtain b' m2 where 2: "add_fingerprint R m1 = Inr (b', m2)" "msg_safe m2"
    using add_fingerprint_safe [OF 1(2)] by blast
  show ?thesis using 1 2 stun_write_safe by fastforce
qed

lemma ping_safe:
  "\<exists>c' out. ping R uf txid now ts c = Inr (c', out) \<and> cn_port c' = cn_port c \<and> cn_remote c' = cn_remote c \<and>
     cn_selected c' = cn_selected c \<and> cn_write_state c' = cn_write_state c \<and> cn_receiving c' = cn_receiving c"
proof -
  define c1 where "c1 = c\<lparr> cn_last_ping_sent := now, cn_pings := cn_pings c @ [\<lparr> ping_id = txid, sent_time = now \<rparr>] \<rparr>"
  have "\<exists>m w. prepare R uf c1 (StunMessage_new\<lparr> msg_transaction_id := txid \<rparr>) = Inr m \<and> stun_write R m [] = Inr w"
    unfolding prepare_def Let_def by (rule signed_write_safe) (simp add: StunMessage_new_def)
  then obtain m w where "prepare R uf c1 (StunMessage_new\<lparr> msg_transaction_id := txid \<rparr>) = Inr m" "stun_write R m [] = Inr w"
    by blast
  then show ?thesis
    unfolding ping_def c1_def [symmetric] Let_def request_send_def by (simp add: c1_def set_state_def)
qed

lemma send_error_safe: "\<exists>out. send_binding_error_response R pt m addr code reason = Inr out"
proof -
  define r1 where "r1 = add_attribute (set_reason reason (set_code code create_error_code))
    (StunMessage_new\<lparr> msg_type := STUN_BINDING_ERROR_RESPONSE, msg_transaction_id := msg_transaction_id m \<rparr>)"
  have safe: "msg_safe r1" unfolding r1_def msg_safe_add by (simp add: StunMessage_new_def del: set_code.simps set_reason.simps)
  obtain b r2 where 2: "add_message_integrity R (ice_pwd (pt_ice_params pt)) r1 = Inr (b, r2)" "msg_safe r2"
    using add_message_integrity_safe [OF safe] by blast
  have fin: "\<exists>out. res_bind (add_fingerprint R r) (\<lambda>(_, r3). res_bind (stun_write R r3 []) (\<lambda>w. case w of
      None \<Rightarrow> Inr [] | Some buf \<Rightarrow> Inr (port_send_to pt buf addr))) = Inr out" if r: "msg_safe r" for r
  proof -
    obtain b' r3 where "add_fingerprint R r = Inr (b', r3)" "msg_safe r3" using add_fingerprint_safe [OF r] by blast
    moreover from this obtain w where "stun_write R r3 [] = Inr w" using stun_write_safe by blast
    ultimately show ?thesis by (cases w) auto
  qed
  show ?thesis
    unfolding send_binding_error_response_def Let_def r1_def [symmetric]
    using fin [OF safe] fin [OF 2(2)] 2(1) by simp
qed

subsection \<open>The periodic check\<close>

lemma strip_timed_out:
  assumes "d\<lparr> cn_selected := False \<rparr> = c\<lparr> cn_selected := False \<rparr>"
  shows "timed_out now d = timed_out now c" "(aged now d)\<lparr> cn_selected := False \<rparr> = (aged now c)\<lparr> cn_selected := False \<rparr>"
proof -
  have g: "gone_unwritable now d = gone_unwritable now c"
    using strip_fields [OF assms] by (simp add: gone_unwritable_def too_many_ping_failed_def too_long_without_response_def)
  then show "timed_out now d = timed_out now c"
    using strip_fields [OF assms] by (simp add: timed_out_def too_long_without_response_def)
  have "(d\<lparr> cn_write_state := w, cn_receiving := r \<rparr>)\<lparr> cn_selected := False \<rparr> =
      (c\<lparr> cn_write_state := w, cn_receiving := r \<rparr>)\<lparr> cn_selected := False \<rparr>" for w r
    using assms by (cases d; cases c) simp
  then show "(aged now d)\<lparr> cn_selected := False \<rparr> = (aged now c)\<lparr> cn_selected := False \<rparr>"
    unfolding aged_def g strip_fields(4) [OF assms] compute_receiving_strip [OF assms] .
qed

lemma strip_timed_out_heap:
  assumes "strip h' = strip h"
  shows "(\<exists>d. h' q = Some d \<and> timed_out now d) \<longleftrightarrow> (\<exists>c. h q = Some c \<and> timed_out now c)"
  using strip_lookup [OF assms, of q] strip_lookup [OF assms [symmetric], of q] strip_timed_out(1) by metis

lemma strip_map_aged:
  assumes "strip h' = strip h"
  shows "strip (\<lambda>q. map_option (aged now) (h' q)) = strip (\<lambda>q. map_option (aged now) (h q))"
proof -
  have "map_option (\<lambda>c. (aged now c)\<lparr> cn_selected := False \<rparr>) (h' q)
      = map_option (\<lambda>c. (aged now c)\<lparr> cn_selected := False \<rparr>) (h q)" for q
    by (rule strip_field [OF assms]) (rule strip_timed_out(2), simp)
  then show ?thesis by (simp add: strip_def option.map_comp comp_def)
qed

definition age_all :: "int \<Rightarrow> ptr set \<Rightarrow> conn_heap \<Rightarrow> conn_heap" where
  "age_all now A h = (\<lambda>q. if q \<in> A then map_option (aged now) (h q) else h q)"

lemma strip_age_all:
  assumes "strip h' = strip h"
  shows "strip (age_all now A h') = strip (age_all now A h)"
  using fun_cong [OF strip_map_aged [OF assms, of now]] fun_cong [OF assms]
  by (auto simp: age_all_def strip_def fun_eq_iff)

lemma age_all_insert:
  "p \<notin> A \<Longrightarrow> h p = Some c \<Longrightarrow> age_all now A (h(p \<mapsto> aged now c)) = age_all now (insert p A) h"
  by (auto simp: age_all_def fun_eq_iff)

lemma update_states_ok:
  assumes "ch_wf s" "ch_synced s" "set ps \<subseteq> dom (ch_heap s)" "distinct ps"
    and "\<forall>p\<in>set ps. \<forall>c. ch_heap s p = Some c \<longrightarrow> \<not> timed_out now c"
  shows "\<exists>s'. res_fold (connection_update_state E now) ps s = Inr s' \<and> kept s s' (age_all now (set ps) (ch_heap s))"
  using assms
proof (induction ps arbitrary: s)
  case Nil
  then show ?case by (simp add: age_all_def kept_refl)
next
  case (Cons p ps)
  obtain c where c: "ch_heap s p = Some c" using Cons.prems(3) by auto
  obtain s1 where s1: "connection_update_state E now p s = Inr s1" "kept s s1 ((ch_heap s)(p \<mapsto> aged now c))"
    using connection_update_state_ok [OF Cons.prems(1,2) c] Cons.prems(5) c by (metis list.set_intros(1))
  have eq: "strip (ch_heap s1) = strip ((ch_heap s)(p \<mapsto> aged now c))" using s1(2) by (simp add: kept_def)
  have "dom (ch_heap s1) = insert p (dom (ch_heap s))" using arg_cong [OF eq, of dom] by simp
  then have sub: "set ps \<subseteq> dom (ch_heap s1)" using Cons.prems(3) by auto
  have no: "\<forall>q\<in>set ps. \<forall>d. ch_heap s1 q = Some d \<longrightarrow> \<not> timed_out now d"
  proof (intro ballI allI impI)
    fix q d assume q: "q \<in> set ps" and d: "ch_heap s1 q = Some d"
    then have "q \<noteq> p" using Cons.prems(4) by auto
    with strip_timed_out_heap [OF eq, of q now] d q Cons.prems(5) show "\<not> timed_out now d" by auto
  qed
  obtain s' where s': "res_fold (connection_update_state E now) ps s1 = Inr s'"
      "kept s1 s' (age_all now (set ps) (ch_heap s1))"
    using Cons.IH [OF _ _ sub _ no] s1(2) Cons.prems(4) by (auto simp: kept_def)
  have "strip (age_all now (set ps) (ch_heap s1)) = strip (age_all now (set (p # ps)) (ch_heap s))"
    using strip_age_all [OF eq, of now "set ps"] age_all_insert [of p "set ps" "ch_heap s" c now] c Cons.prems(4) by simp
  then show ?case using s1 s' by (auto simp: kept_def)
qed

lemma update_states_uaf:
  assumes "ch_wf s" "ch_synced s" "set ps \<subseteq> dom (ch_heap s)" "distinct ps"
    and "\<exists>p\<in>set ps. \<exists>c. ch_heap s p = Some c \<and> timed_out now c"
  shows "res_fold (connection_update_state E now) ps s = Inl Use_after_free"
  using assms
proof (induction ps arbitrary: s)
  case Nil
  then show ?case by simp
next
  case (Cons p ps)
  obtain c where c: "ch_heap s p = Some c" using Cons.prems(3) by auto
  show ?case
  proof (cases "timed_out now c")
    case True
    then show ?thesis using connection_update_state_uaf [OF Cons.prems(1,2) c] by simp
  next
    case False
    obtain s1 where s1: "connection_update_state E now p s = Inr s1" "kept s s1 ((ch_heap s)(p \<mapsto> aged now c))"
      using connection_update_state_ok [OF Cons.prems(1,2) c False] by blast
    have eq: "strip (ch_heap s1) = strip ((ch_heap s)(p \<mapsto> aged now c))" using s1(2) by (simp add: kept_def)
    have "dom (ch_heap s1) = insert p (dom (ch_heap s))" using arg_cong [OF eq, of dom] by simp
    then have sub: "set ps \<subseteq> dom (ch_heap s1)" using Cons.prems(3) by auto
    obtain q d where "q \<in> set ps" "ch_heap s q = Some d" "timed_out now d" "q \<noteq> p"
      using Cons.prems(4,5) c False by auto
    then have "\<exists>q\<in>set ps. \<exists>d. ch_heap s1 q = Some d \<and> timed_out now d"
      using strip_timed_out_heap [OF eq, of q now] by auto
    then show ?thesis using Cons.IH [OF _ _ sub] s1 Cons.prems(4) by (simp add: kept_def)
  qed
qed

lemma find_next_total:
  assumes live: "ctl_live h ct" and inv: "ctl_inv ct"
  shows "\<exists>ct' r. find_next_pingable_connection h now ct = Inr (ct', r) \<and> ctl_inv ct' \<and>
    ct_connections ct' = ct_connections ct \<and> ct_selected ct' = ct_selected ct \<and>
    set_option r \<subseteq> set (ct_connections ct) \<union> set_option (ct_selected ct)"
proof -
  define f where "f = fold (least_step (pingable h now ct) (\<lambda>p. cn_last_ping_sent (the (h p))))
    (sorted_list_of_set (ping_pool h now ct)) None"
  have "set_option f \<subseteq> set (ct_connections ct)"
    using fold_least_step [of None "pingable h now ct" "\<lambda>p. cn_last_ping_sent (the (h p))"
        "sorted_list_of_set (ping_pool h now ct)"] ping_pool_sub [OF inv] inv
    by (cases f) (auto simp: f_def)
  moreover have "ctl_inv (ct\<lparr> ct_unpinged := set (ct_connections ct), ct_pinged := {} \<rparr>)"
    using inv by (simp add: ctl_inv_def)
  ultimately show ?thesis
    unfolding find_next_live [OF live inv] f_def [symmetric] using inv by auto
qed

lemma select_total:
  assumes live: "ctl_live h ct" and inv: "ctl_inv ct"
  shows "\<exists>ct' pr. select_connection_to_ping h t now ct = Inr (ct', pr) \<and> ctl_inv ct' \<and>
    ct_connections ct' = ct_connections ct \<and> ct_selected ct' = ct_selected ct \<and>
    set_option (pr_conn pr) \<subseteq> set (ct_connections ct) \<union> set_option (ct_selected ct)"
proof -
  obtain b where b: "res_exists (\<lambda>p. res_bind (deref h p) (\<lambda>c.
      Inr (cn_num_pings_sent c < MIN_PINGS_AT_WEAK_PING_INTERVAL))) (ct_connections ct) = Inr b"
    using any_conn_total [OF live, of "\<lambda>c. cn_num_pings_sent c < MIN_PINGS_AT_WEAK_PING_INTERVAL"] by blast
  obtain ct' r where "find_next_pingable_connection h now ct = Inr (ct', r)" "ctl_inv ct'"
      "ct_connections ct' = ct_connections ct" "ct_selected ct' = ct_selected ct"
      "set_option r \<subseteq> set (ct_connections ct) \<union> set_option (ct_selected ct)"
    using find_next_total [OF live inv] by blast
  with b inv show ?thesis
    by (simp add: select_connection_to_ping_def ctl_weak_live [OF live] Let_def)
qed

lemma emit_core [simp]:
  "core (emit es s) = core s" "ch_writable (emit es s) = ch_writable s" "ch_receiving (emit es s) = ch_receiving s"
  "ch_state (emit es s) = ch_state s" "ch_has_been_connection (emit es s) = ch_has_been_connection s"
  by (simp_all add: emit_def core_def)

lemma emit_ok [simp]: "ch_wf (emit es s) = ch_wf s" "ch_synced (emit es s) = ch_synced s"
  "static (emit es s) = static s" "ch_heap (emit es s) = ch_heap s"
  using core_wf [of "emit es s" s] core_synced [of "emit es s" s] core_static [of "emit es s" s] core_heap [of "emit es s" s]
  by simp_all

lemma tick_ok [simp]: "ch_wf (s\<lparr> ch_tick := n \<rparr>) = ch_wf s" "ch_synced (s\<lparr> ch_tick := n \<rparr>) = ch_synced s"
  "static (s\<lparr> ch_tick := n \<rparr>) = static s"
  using core_wf [of "s\<lparr> ch_tick := n \<rparr>" s] core_synced [of "s\<lparr> ch_tick := n \<rparr>" s] core_static [of "s\<lparr> ch_tick := n \<rparr>" s]
  by (simp_all add: core_def)

lemma ping_connection_ok:
  assumes wf: "ch_wf s" "ch_synced s" and p: "p \<in> dom (ch_heap s)"
  shows "\<exists>s'. ping_connection E p s = Inr s' \<and> ch_wf s' \<and> ch_synced s' \<and> static s' = static s \<and>
    ch_controller s' = ch_controller s \<and> dom (ch_heap s') = dom (ch_heap s)"
proof -
  obtain c where c: "ch_heap s p = Some c" using p by auto
  define s3 where "s3 = s\<lparr> ch_last_ping_sent_ms := env_time E (ch_tick s), ch_tick := Suc (Suc (Suc (ch_tick s))) \<rparr>"
  have core3: "core s3 = core s" by (simp add: s3_def core_def)
  have wf3: "ch_wf s3" using wf core_wf [OF core3] by simp
  have sync3: "ch_synced s3" using wf core_synced [OF core3] by (simp add: s3_def)
  have c3: "ch_heap s3 p = Some c" using c by (simp add: s3_def)
  obtain c' out where png: "ping (env_base E) (ice_ufrag (pt_ice_params (ch_ports s3 ! cn_port c)))
      (env_rand E (Suc (ch_tick s)) k_stun_transaction_id_length) (env_time E (ch_tick s))
      (env_time E (Suc (Suc (ch_tick s)))) c = Inr (c', out)"
    and fr: "cn_port c' = cn_port c" "cn_remote c' = cn_remote c" "cn_selected c' = cn_selected c"
      "cn_write_state c' = cn_write_state c" "cn_receiving c' = cn_receiving c"
    using ping_safe by blast
  define f where "f = (\<lambda>d. if d = c then c' else d)"
  have f: "conn_frame f" "f c = c'" using fr by (simp_all add: f_def conn_frame_def)
  let ?s4 = "s3\<lparr> ch_heap := (ch_heap s3)(p \<mapsto> c') \<rparr>"
  have "ch_wf ?s4" using update_conn_wf [OF wf3 c3 f(1)] f(2) by simp
  moreover have "ch_synced ?s4" using update_conn_synced [OF sync3 c3, of f] f(2) fr by simp
  moreover have "static ?s4 = static s" using core_static [OF core3] by (simp add: static_def)
  moreover have "ping_connection E p s = Inr (emit_datagrams (cn_port c)
      (case out of None \<Rightarrow> [] | Some buf \<Rightarrow> port_send_to (ch_ports s3 ! cn_port c) buf (c_address (cn_remote c))) ?s4)"
    using png c wf_port [OF wf3 c3]
    by (simp add: ping_connection_def read_clock_def deref_def Let_def s3_def [symmetric]) (simp add: s3_def)
  moreover have "dom (ch_heap ?s4) = dom (ch_heap s)" using c by (auto simp: s3_def)
  ultimately show ?thesis
    by (simp add: emit_datagrams_def) (simp add: emit_def s3_def)
qed

lemma set_controller_wf:
  assumes "ch_wf s" "ctl_inv ct" "ct_connections ct = ct_connections (ch_controller s)"
    "ct_selected ct = ct_selected (ch_controller s)"
  shows "ch_wf (s\<lparr> ch_controller := ct \<rparr>)"
  using assms by (simp add: ch_wf_def conn_ok_def ports_ok_def)

lemma set_controller_synced [simp]: "ch_synced (s\<lparr> ch_controller := ct \<rparr>) = ch_synced s"
  "static (s\<lparr> ch_controller := ct \<rparr>) = static s"
  using ice_state_cong [of "s\<lparr> ch_controller := ct \<rparr>" s] by (simp_all add: ch_synced_def static_def)

lemma check_and_ping_ok:
  assumes wf: "ch_wf s" "ch_synced s"
    and no: "\<forall>c\<in>ran (ch_heap s). \<not> timed_out (env_time E (ch_tick s)) c"
  shows "\<exists>s'. on_check_and_ping E s = Inr s' \<and> ch_wf s' \<and> ch_synced s' \<and> static s' = static s"
proof -
  let ?now = "env_time E (ch_tick s)" and ?s0 = "s\<lparr> ch_tick := Suc (ch_tick s) \<rparr>"
  have dom: "set (ct_connections (ch_controller s)) = dom (ch_heap s)" "distinct (ct_connections (ch_controller s))"
    using wf by (simp_all add: ch_wf_def ctl_inv_def)
  have "\<exists>s1. update_connection_states E s = Inr s1 \<and> kept ?s0 s1 (age_all ?now (set (ct_connections (ch_controller s))) (ch_heap ?s0))"
    unfolding update_connection_states_def read_clock_def Let_def prod.case
    by (rule update_states_ok) (use wf dom no in \<open>auto simp: ran_def\<close>)
  then obtain s1 where s1: "update_connection_states E s = Inr s1" "ch_wf s1" "ch_synced s1" "static s1 = static s"
    by (auto simp: kept_def)
  let ?s2 = "s1\<lparr> ch_tick := Suc (ch_tick s1) \<rparr>"
  have wf2: "ch_wf ?s2" "ch_synced ?s2" using s1 by simp_all
  obtain ct pr where sel: "select_connection_to_ping (ch_heap ?s2) (ch_last_ping_sent_ms ?s2 - PING_INTERVAL_DIFF)
      (env_time E (ch_tick s1)) (ch_controller ?s2) = Inr (ct, pr)" "ctl_inv ct"
      "ct_connections ct = ct_connections (ch_controller ?s2)" "ct_selected ct = ct_selected (ch_controller ?s2)"
      "set_option (pr_conn pr) \<subseteq> set (ct_connections (ch_controller ?s2)) \<union> set_option (ct_selected (ch_controller ?s2))"
    using select_total [OF wf_live [OF wf2(1)]] by blast
  let ?s3 = "?s2\<lparr> ch_controller := ct \<rparr>"
  have wf3: "ch_wf ?s3" "ch_synced ?s3" using set_controller_wf [OF wf2(1) sel(2-4)] wf2(2) by simp_all
  have conn: "set_option (pr_conn pr) \<subseteq> dom (ch_heap s1)"
    using sel(5) s1(2) by (auto simp: ch_wf_def)
  have "\<exists>s4. (case pr_conn pr of None \<Rightarrow> Inr ?s3 | Some p \<Rightarrow> res_bind (ping_connection E p ?s3) (\<lambda>s'.
      Inr (s'\<lparr> ch_controller := mark_connection_pinged (Some p) (ch_controller s') \<rparr>))) = Inr s4 \<and>
      ch_wf s4 \<and> ch_synced s4 \<and> static s4 = static s"
  proof (cases "pr_conn pr")
    case None
    then show ?thesis using wf3 s1(4) by simp
  next
    case (Some p)
    have "p \<in> dom (ch_heap ?s3)" using conn Some by auto
    then obtain t where t: "ping_connection E p ?s3 = Inr t" "ch_wf t" "ch_synced t" "static t = static ?s3"
        "ch_controller t = ch_controller ?s3" "dom (ch_heap t) = dom (ch_heap ?s3)"
      using ping_connection_ok [OF wf3] by blast
    let ?ct = "mark_connection_pinged (Some p) (ch_controller t)"
    have "set_option (Some p) \<subseteq> set (ct_connections (ch_controller t))"
      using t(2,6) conn Some by (simp add: ch_wf_def)
    then have "ctl_inv ?ct" using ctl_inv_mark t(2) ch_wf_def by blast
    then have "ch_wf (t\<lparr> ch_controller := ?ct \<rparr>)"
      using set_controller_wf [OF t(2)] by (simp add: mark_connection_pinged_def)
    then show ?thesis using t(1,3,4) Some s1(4) by simp
  qed
  then obtain s4 where s4: "(case pr_conn pr of None \<Rightarrow> Inr ?s3 | Some p \<Rightarrow> res_bind (ping_connection E p ?s3) (\<lambda>s'.
      Inr (s'\<lparr> ch_controller := mark_connection_pinged (Some p) (ch_controller s') \<rparr>))) = Inr s4"
      "ch_wf s4" "ch_synced s4" "static s4 = static s" by blast
  have wat: "ch_ping_watcher s4" using s4(2) by (simp add: ch_wf_def)
  let ?s5 = "s4\<lparr> ch_cur_ping_interval := pr_interval pr, ch_timer := Some (pr_interval pr * 1000) \<rparr>"
  have core5: "core ?s5 = core s4" by (simp add: core_def)
  have "ch_wf ?s5" "static ?s5 = static s" "ch_synced ?s5"
    using core_wf [OF core5] core_static [OF core5] core_synced [OF core5] s4 by simp_all
  moreover have "on_check_and_ping E s = Inr (if ch_cur_ping_interval s4 \<noteq> pr_interval pr then ?s5 else s4)"
    using s1(1) sel(1) s4(1) wat
    by (simp add: on_check_and_ping_def read_clock_def Let_def stop_timer_def start_timer_def)
  ultimately show ?thesis using s4 by auto
qed

lemma check_and_ping_uaf:
  assumes wf: "ch_wf s" "ch_synced s" and out: "\<exists>c\<in>ran (ch_heap s). timed_out (env_time E (ch_tick s)) c"
  shows "on_check_and_ping E s = Inl Use_after_free"
proof -
  have dom: "set (ct_connections (ch_controller s)) = dom (ch_heap s)" "distinct (ct_connections (ch_controller s))"
    using wf by (simp_all add: ch_wf_def ctl_inv_def)
  have "update_connection_states E s = Inl Use_after_free"
    unfolding update_connection_states_def read_clock_def Let_def prod.case
    by (rule update_states_uaf) (use wf dom out in \<open>auto simp: ran_def\<close>)
  then show ?thesis by (simp add: on_check_and_ping_def)
qed

subsection \<open>Answers to our pings\<close>

text \<open>A change of one connection that leaves write state and receiving flag alone.\<close>

definition quiet :: "(ice_connection \<Rightarrow> ice_connection) \<Rightarrow> bool" where
  "quiet f \<longleftrightarrow> conn_frame f \<and> (\<forall>c. cn_write_state (f c) = cn_write_state c \<and> cn_receiving (f c) = cn_receiving c)"

lemma quiet_ok:
  assumes "ch_wf s" "ch_synced s" "ch_heap s p = Some c" "quiet f"
  shows "\<exists>s'. update_conn p f s = Inr s' \<and> kept s s' ((ch_heap s)(p \<mapsto> f c)) \<and> ch_heap s' p = Some (f c)"
  using assms update_conn_wf [OF assms(1,3), of f] update_conn_synced [OF assms(2,3), of f]
  by (simp add: quiet_def update_conn_live kept_def static_def)

lemma quiet_intros [simp]:
  "quiet (set_state st)" "quiet (\<lambda>c. c\<lparr> cn_last_data_received := n \<rparr>)" "quiet (\<lambda>c. c\<lparr> cn_last_ping_received := n \<rparr>)"
  "quiet (\<lambda>c. c\<lparr> cn_last_ping_response_received := n, cn_pings := ps \<rparr>)"
  "quiet (\<lambda>c. c\<lparr> cn_rtt := g c, cn_rtt_samples := k c \<rparr>)"
  "quiet (\<lambda>c. c\<lparr> cn_requests := (cn_requests c)(t := None) \<rparr>)"
  "quiet (maybe_set_remote_ice_params params)"
  by (simp_all add: quiet_def) (simp_all add: maybe_set_remote_ice_params_def)

lemma kept_dom: "kept s s' h \<Longrightarrow> dom (ch_heap s') = dom h"
  unfolding kept_def by (metis strip_dom)

lemma received_ping_response_ok:
  assumes wf: "ch_wf s" "ch_synced s" and c: "ch_heap s p = Some c"
  shows "\<exists>s' d. received_ping_response E rtt p s = Inr s' \<and> ch_wf s' \<and> ch_synced s' \<and> static s' = static s \<and>
    dom (ch_heap s') = dom (ch_heap s) \<and> ch_heap s' p = Some d \<and> cn_requests d = cn_requests c \<and>
    cn_write_state d = STATE_WRITABLE \<and> cn_pings d = [] \<and> cn_state d = SUCCEEDED \<and>
    cn_rtt d = (if cn_rtt_samples c > 0 then env_moving_average E (cn_rtt c) rtt RTT_RATIO else rtt)"
proof -
  let ?f1 = "\<lambda>c. c\<lparr> cn_rtt := (if cn_rtt_samples c > 0 then env_moving_average E (cn_rtt c) rtt RTT_RATIO else rtt),
     cn_rtt_samples := cn_rtt_samples c + 1 \<rparr>"
  obtain s1 where s1: "update_conn p ?f1 s = Inr s1" "kept s s1 ((ch_heap s)(p \<mapsto> ?f1 c))" "ch_heap s1 p = Some (?f1 c)"
    using quiet_ok [OF wf c, of ?f1] by auto
  let ?s2 = "s1\<lparr> ch_tick := Suc (ch_tick s1) \<rparr>" and ?now = "env_time E (ch_tick s1)"
  have wf2: "ch_wf ?s2" "ch_synced ?s2" "ch_heap ?s2 p = Some (?f1 c)" using s1 by (simp_all add: kept_def)
  let ?f2 = "\<lambda>c. c\<lparr> cn_last_ping_response_received := ?now, cn_pings := [] \<rparr>"
  obtain s3 where s3: "update_conn p ?f2 ?s2 = Inr s3" "kept ?s2 s3 ((ch_heap ?s2)(p \<mapsto> ?f2 (?f1 c)))" "ch_heap s3 p = Some (?f2 (?f1 c))"
    using quiet_ok [OF wf2, of ?f2] by auto
  have wf3: "ch_wf s3" "ch_synced s3" using s3(2) by (simp_all add: kept_def)
  define c3 where "c3 = ?f2 (?f1 c)"
  have c3: "ch_heap s3 p = Some c3" using s3(3) by (simp add: c3_def)
  obtain s4 where s4: "update_receiving E ?now p s3 = Inr s4"
      "kept s3 s4 ((ch_heap s3)(p \<mapsto> c3\<lparr> cn_receiving := compute_receiving ?now c3 \<rparr>))"
    using update_receiving_ok [OF wf3 c3] by blast
  define c4 where "c4 = c3\<lparr> cn_receiving := compute_receiving ?now c3 \<rparr>"
  have wf4: "ch_wf s4" "ch_synced s4" using s4(2) by (simp_all add: kept_def)
  obtain d4 where d4: "ch_heap s4 p = Some d4" "d4\<lparr> cn_selected := False \<rparr> = c4\<lparr> cn_selected := False \<rparr>"
    using kept_conn [OF s4(2), of p c4] by (auto simp: c4_def)
  obtain s5 where s5: "set_write_state E STATE_WRITABLE p s4 = Inr s5"
      "kept s4 s5 ((ch_heap s4)(p \<mapsto> d4\<lparr> cn_write_state := STATE_WRITABLE \<rparr>))"
    using set_write_state_ok [OF wf4 d4(1)] by blast
  have wf5: "ch_wf s5" "ch_synced s5" using s5(2) by (simp_all add: kept_def)
  obtain d5 where d5: "ch_heap s5 p = Some d5"
      "d5\<lparr> cn_selected := False \<rparr> = (d4\<lparr> cn_write_state := STATE_WRITABLE \<rparr>)\<lparr> cn_selected := False \<rparr>"
    using kept_conn [OF s5(2), of p "d4\<lparr> cn_write_state := STATE_WRITABLE \<rparr>"] by auto
  obtain s6 where s6: "update_conn p (set_state SUCCEEDED) s5 = Inr s6"
      "kept s5 s6 ((ch_heap s5)(p \<mapsto> set_state SUCCEEDED d5))" "ch_heap s6 p = Some (set_state SUCCEEDED d5)"
    using quiet_ok [OF wf5 d5(1), of "set_state SUCCEEDED"] by auto
  have run: "received_ping_response E rtt p s = Inr s6"
    unfolding received_ping_response_def s1(1) res_bind_Inr read_clock_def Let_def prod.case s3(1) s4(1) s5(1) s6(1) ..
  have "cn_requests d5 = cn_requests c" "cn_pings d5 = []" "cn_write_state d5 = STATE_WRITABLE" "cn_rtt d5 = cn_rtt (?f1 c)"
    using strip_fields [OF d5(2)] strip_fields [OF d4(2)] by (simp_all add: c4_def c3_def)
  moreover have "dom (ch_heap s6) = dom (ch_heap s)"
    using kept_dom [OF s1(2)] kept_dom [OF s3(2)] kept_dom [OF s4(2)] kept_dom [OF s5(2)] kept_dom [OF s6(2)] c by auto
  moreover have "static s6 = static s"
    using s1(2) s3(2) s4(2) s5(2) s6(2) by (simp add: kept_def)
  moreover have "ch_wf s6" "ch_synced s6" using s6(2) by (simp_all add: kept_def)
  ultimately show ?thesis using run s6(3) by auto
qed

lemma delete_request_ok:
  assumes "ch_wf s" "ch_synced s" "ch_heap s p = Some c" "cn_requests c t \<noteq> None"
  shows "\<exists>s'. delete_request t p s = Inr s' \<and> ch_wf s' \<and> ch_synced s' \<and> static s' = static s"
  using quiet_ok [OF assms(1-3), of "\<lambda>c. c\<lparr> cn_requests := (cn_requests c)(t := None) \<rparr>"] assms(3,4)
  by (auto simp: delete_request_def update_conn_live kept_def)

definition fatal_error :: "int \<Rightarrow> bool" where
  "fatal_error code \<longleftrightarrow> code \<noteq> STUN_ERROR_BAD_REQUEST \<and> code \<noteq> STUN_ERROR_UNAUTHORIZED \<and> code \<noteq> STUN_ERROR_SERVER_ERROR"

text \<open>An error response whose code is not one of the three known ones destroys the connection
  while its request is still in use.\<close>

lemma error_response_frees_twice:
  assumes wf: "ch_wf s" "ch_synced s" and c: "ch_heap s p = Some c"
    and req: "cn_requests c (msg_transaction_id m) = Some req"
    and ty: "uint (msg_type m) \<noteq> get_stun_success_response (uint (msg_type (req_msg req)))"
      "uint (msg_type m) = get_stun_error_response (uint (msg_type (req_msg req)))"
    and code: "get_error_code_value m = Inr code" "fatal_error code"
  shows "check_response E m p s = Inl Double_free"
proof -
  let ?s1 = "s\<lparr> ch_tick := Suc (ch_tick s) \<rparr>"
  have wf1: "ch_wf ?s1" "ch_heap ?s1 p = Some c" using wf c by simp_all
  let ?s2 = "?s1\<lparr> ch_heap := (ch_heap ?s1)(p \<mapsto> set_state FAILED c) \<rparr>"
  have live: "ch_live ?s2" using update_conn_wf [OF wf1] wf_imp_live frame_intros(3) by blast
  have "p \<in> dom (ch_heap ?s2)" by simp
  from live_destroy [OF live this] obtain s4 where s4: "destroy E p ?s2 = Inr s4" "ch_heap s4 p = None" by blast
  have "fail_and_destroy E p ?s1 = Inr s4"
    unfolding fail_and_destroy_def update_conn_live [OF wf1(2)] res_bind_Inr by (rule s4(1))
  then show ?thesis
    using c req ty code s4(2)
    by (simp add: check_response_def deref_def Let_def on_connection_request_error_response_def read_clock_def
        fatal_error_def delete_request_def)
qed

lemma not_error_type: "uint STUN_BINDING_RESPONSE \<noteq> get_stun_error_response rt"
proof
  assume eq: "uint STUN_BINDING_RESPONSE = get_stun_error_response rt"
  have val: "uint STUN_BINDING_RESPONSE = 257" by (simp add: STUN_BINDING_RESPONSE_def)
  then have "get_stun_error_response rt = (rt AND NOT (uint k_stun_class_mask)) OR 272"
    using eq by (auto simp: get_stun_error_response_def STUN_CLASS_ERROR_RESPONSE_def split: if_splits)
  then have "bit (get_stun_error_response rt) 4" by (simp add: bit_or_iff)
  moreover have "\<not> bit (257 :: int) 4" by simp
  ultimately show False using eq val by simp
qed

lemma check_response_ok:
  assumes wf: "ch_wf s" "ch_synced s" and c: "ch_heap s p = Some c"
    and code: "get_error_code_value m = Inr code"
  shows "(\<exists>b s'. check_response E m p s = Inr (b, s') \<and> ch_wf s' \<and> ch_synced s' \<and> static s' = static s) \<or>
    check_response E m p s = Inl Double_free \<and> fatal_error code \<and> cn_requests c (msg_transaction_id m) \<noteq> None \<and>
      msg_type m \<noteq> STUN_BINDING_RESPONSE"
proof (cases "cn_requests c (msg_transaction_id m)")
  case None
  then show ?thesis using wf c by (auto simp: check_response_def deref_def)
next
  case (Some req)
  let ?rt = "uint (msg_type (req_msg req))" and ?s1 = "s\<lparr> ch_tick := Suc (ch_tick s) \<rparr>"
  have wf1: "ch_wf ?s1" "ch_synced ?s1" "ch_heap ?s1 p = Some c" using wf c by simp_all
  consider (ok) "uint (msg_type m) = get_stun_success_response ?rt"
    | (err) "uint (msg_type m) \<noteq> get_stun_success_response ?rt" "uint (msg_type m) = get_stun_error_response ?rt"
    | (other) "uint (msg_type m) \<noteq> get_stun_success_response ?rt" "uint (msg_type m) \<noteq> get_stun_error_response ?rt"
    by blast
  then show ?thesis
  proof cases
    case ok
    obtain s2 d where s2: "received_ping_response E (elapsed (env_time E (ch_tick s)) req) p ?s1 = Inr s2"
        "ch_wf s2" "ch_synced s2" "static s2 = static ?s1" "ch_heap s2 p = Some d" "cn_requests d = cn_requests c"
      using received_ping_response_ok [OF wf1] by blast
    obtain s3 where "delete_request (msg_transaction_id m) p s2 = Inr s3" "ch_wf s3" "ch_synced s3" "static s3 = static s2"
      using delete_request_ok [OF s2(2,3,5)] s2(6) Some by (metis option.distinct(1))
    then show ?thesis
      using ok c Some s2(1,4) by (auto simp: check_response_def deref_def on_connection_request_response_def read_clock_def Let_def)
  next
    case err
    show ?thesis
    proof (cases "fatal_error code")
      case True
      then show ?thesis
        using error_response_frees_twice [OF wf c Some err code] Some err(2) not_error_type [of ?rt] by auto
    next
      case False
      obtain s3 where "delete_request (msg_transaction_id m) p ?s1 = Inr s3" "ch_wf s3" "ch_synced s3" "static s3 = static ?s1"
        using delete_request_ok [OF wf1] Some by (metis option.distinct(1))
      then show ?thesis
        using err c Some code False
        by (auto simp: check_response_def deref_def on_connection_request_error_response_def read_clock_def Let_def fatal_error_def)
    qed
  next
    case other
    obtain s3 where "delete_request (msg_transaction_id m) p s = Inr s3" "ch_wf s3" "ch_synced s3" "static s3 = static s"
      using delete_request_ok [OF wf c] Some by (metis option.distinct(1))
    then show ?thesis using other c Some by (auto simp: check_response_def deref_def Let_def)
  qed
qed

end
