(* ===== verification/Ice_Events.thy ===== *)
theory Ice_Events
  imports Ice_Safety
begin

text \<open>
  Events of an ICE channel: datagrams, the ping timer and the remote parameters; admission of
  STUN messages, what is answered to those that are refused, creation of connections, and the
  invariant over runs.
\<close>

subsection \<open>Admission of a datagram\<close>

context ice_environment
begin

lemma parsed_attr:
  assumes "stun_read (env_base E) m data = Some (Some (m', rest))" "get_attribute t m' = Some a"
  shows "attr_wf a" "kind_ok a" "known_attr a" "attr_type a = t"
  using byte_codec.stun_read_typed(1) [OF codec assms(1)] assms(2)
  by (auto simp: get_attribute_def find_Some_iff list_all_length)

lemma parsed_username:
  assumes "stun_read (env_base E) m data = Some (Some (m', rest))" "get_attribute STUN_ATTR_USERNAME m' = Some a"
  shows "\<exists>bs. get_string a = Inr bs"
  using parsed_attr [OF assms]
  by (auto simp: kind_ok_def get_attribute_value_type_def get_string_def attr_wf_def stun_attr_types)

lemma parsed_priority:
  assumes "stun_read (env_base E) m data = Some (Some (m', rest))" "get_attribute STUN_ATTR_PRIORITY m' = Some a"
  shows "\<exists>v. uint32_value a = Inr v"
  using parsed_attr [OF assms]
  by (auto simp: kind_ok_def get_attribute_value_type_def uint32_value_def attr_wf_def stun_attr_types)

lemma parsed_error_code:
  assumes "stun_read (env_base E) m data = Some (Some (m', rest))"
  shows "get_error_code_value m' = Inr STUN_ERROR_GLOBAL_FAIL"
proof (cases "get_attribute STUN_ATTR_ERROR_CODE m'")
  case None
  then show ?thesis by (simp add: get_error_code_value_def)
next
  case (Some a)
  from parsed_attr(3,4) [OF assms this] show ?thesis
    by (simp add: known_attr_def get_attribute_value_type_def stun_attr_types)
qed

lemma parsed_fields:
  assumes "stun_read (env_base E) m data = Some (Some (m', rest))"
  shows "\<exists>fs. parse_stun_username E m' = Inr fs"
proof (cases "get_attribute STUN_ATTR_USERNAME m'")
  case None
  then show ?thesis by (simp add: parse_stun_username_def)
next
  case (Some a)
  then obtain bs where "get_string a = Inr bs" using parsed_username [OF assms] by blast
  moreover have "\<exists>fs. (case xs of [l, r] \<Rightarrow> Inr (Some (l, r)) | _ \<Rightarrow> Inr None) = Inr fs" for xs :: "bytes list"
    by (simp split: list.splits)
  ultimately show ?thesis using Some by (simp add: parse_stun_username_def)
qed

lemma split_two: "env_split E s d = [l, r] \<Longrightarrow> s = l @ [d] @ r \<and> d \<notin> set l \<and> d \<notin> set r"
  using split_join [of d s] split_fields [of l s d] split_fields [of r s d] by simp

lemma split_two_conv:
  assumes "d \<notin> set l" "d \<notin> set r"
  shows "env_split E (l @ [d] @ r) d = [l, r]"
proof -
  have "fs = [l, r]" if "join d fs = l @ d # r" "\<forall>f\<in>set fs. d \<notin> set f" for fs
  proof (cases fs)
    case Nil
    then show ?thesis using that(1) by simp
  next
    case (Cons x rest)
    show ?thesis
    proof (cases rest)
      case Nil
      then show ?thesis using that Cons by auto
    next
      case (Cons y ys)
      have "l @ d # r = x @ d # join d (y # ys)" using that(1) \<open>fs = x # rest\<close> Cons by simp
      then have "l = x" "r = join d (y # ys)" using append_Cons_eq_iff [OF assms] by auto
      moreover from this(2) have "ys = []" using assms(2) by (cases ys) auto
      ultimately show ?thesis using \<open>fs = x # rest\<close> Cons by simp
    qed
  qed
  then show ?thesis using split_join [of d "l @ [d] @ r"] split_fields [of _ "l @ [d] @ r" d] by simp
qed

end

definition overreads :: "ice_env \<Rightarrow> bytes \<Rightarrow> bytes \<Rightarrow> bool" where
  "overreads E pwd data \<longleftrightarrow> (\<exists>m. stun_read (env_base E) StunMessage_new data = Some (Some (m, [])) \<and>
     validate_message_integrity (env_base E) pwd m = Inl Out_of_bounds)"

definition accepted :: "ice_env \<Rightarrow> udp_port \<Rightarrow> bytes \<Rightarrow> bytes \<Rightarrow> bool" where
  "accepted E pt data remote_ufrag \<longleftrightarrow> validate_fingerprint (env_base E) data \<and>
     (\<exists>m a st m'. stun_read (env_base E) StunMessage_new data = Some (Some (m, [])) \<and>
        msg_type m = STUN_BINDING_REQUEST \<and> get_attribute STUN_ATTR_USERNAME m = Some a \<and>
        get_string a = Inr (ice_ufrag (pt_ice_params pt) @ [58] @ remote_ufrag) \<and>
        58 \<notin> set (ice_ufrag (pt_ice_params pt)) \<and> 58 \<notin> set remote_ufrag \<and>
        get_attribute STUN_ATTR_MESSAGE_INTEGRITY m \<noteq> None \<and>
        validate_message_integrity (env_base E) (ice_pwd (pt_ice_params pt)) m = Inr (st, m') \<and>
        st = k_integrity_ok)"

lemma validate_mi_cases:
  "validate_message_integrity R pwd m = Inl Out_of_bounds \<or>
   (\<exists>st m'. validate_message_integrity R pwd m = Inr (st, m') \<and> msg_integrity m' = st \<and> msg_attrs m' = msg_attrs m \<and>
      msg_type m' = msg_type m \<and> msg_transaction_id m' = msg_transaction_id m)"
proof -
  have "\<exists>b. validate_message_integrity_of_type R t n d pwd = Inr b \<or> validate_message_integrity_of_type R t n d pwd = Inl Out_of_bounds" for t n d
    by (auto simp: validate_message_integrity_of_type_def Let_def split: option.splits)
  from this [of STUN_ATTR_MESSAGE_INTEGRITY k_stun_message_integrity_size "msg_buffer m"] show ?thesis
    by (cases "get_attribute STUN_ATTR_MESSAGE_INTEGRITY (m\<lparr> msg_password := pwd \<rparr>)")
      (auto simp: validate_message_integrity_def Let_def)
qed

context ice_environment
begin

lemma get_stun_message_ub:
  assumes "get_stun_message E pt data addr = Inl u"
  shows "u = Out_of_bounds \<and> overreads E (ice_pwd (pt_ice_params pt)) data"
proof -
  let ?R = "env_base E"
  have err: "send_binding_error_response ?R pt m addr code reason \<noteq> Inl v" for m code reason v
    using send_error_safe [of ?R pt m addr code reason] by auto
  obtain r where r: "stun_read ?R StunMessage_new data = Some r"
    using byte_codec.stun_read_returns [OF codec] by blast
  from assms r obtain m where m: "r = Some (m, [])" and ty: "msg_type m = STUN_BINDING_REQUEST"
    by (auto simp: get_stun_message_def Let_def split: if_splits option.splits prod.splits)
  have rd: "stun_read ?R StunMessage_new data = Some (Some (m, []))" using r m by simp
  have attrs: "get_attribute STUN_ATTR_USERNAME m \<noteq> None \<and> get_attribute STUN_ATTR_MESSAGE_INTEGRITY m \<noteq> None"
    using assms rd ty err by (auto simp: get_stun_message_def Let_def res_bind_eq_Inl split: if_splits)
  obtain fs where fs: "parse_stun_username E m = Inr fs" using parsed_fields [OF rd] by blast
  have "validate_message_integrity ?R (ice_pwd (pt_ice_params pt)) m = Inl u"
    using assms rd ty attrs fs err
    by (auto simp: get_stun_message_def Let_def res_bind_eq_Inl split: if_splits option.splits prod.splits)
  then show ?thesis
    using validate_mi_cases [of ?R "ice_pwd (pt_ice_params pt)" m] rd by (auto simp: overreads_def)
qed

lemma get_stun_message_Some:
  assumes "get_stun_message E pt data addr = Inr (res, Some m, u, out)"
  obtains m0 where "res" "out = []" "stun_read (env_base E) StunMessage_new data = Some (Some (m0, []))"
    "msg_type m = msg_type m0" "msg_attrs m = msg_attrs m0" "msg_transaction_id m = msg_transaction_id m0"
    "msg_type m \<noteq> STUN_BINDING_REQUEST \<Longrightarrow> m = m0"
    "msg_type m = STUN_BINDING_REQUEST \<Longrightarrow> accepted E pt data u"
proof -
  let ?R = "env_base E"
  have fp: "validate_fingerprint ?R data" using assms by (auto simp: get_stun_message_def Let_def split: if_splits)
  from assms fp obtain m0 where rd: "stun_read ?R StunMessage_new data = Some (Some (m0, []))"
    by (auto simp: get_stun_message_def Let_def split: if_splits option.splits prod.splits)
  show ?thesis
  proof (cases "msg_type m0 = STUN_BINDING_REQUEST")
    case False
    with assms fp rd show ?thesis by (intro that [of m0]) (auto simp: get_stun_message_def Let_def)
  next
    case True
    have attrs: "get_attribute STUN_ATTR_USERNAME m0 \<noteq> None \<and> get_attribute STUN_ATTR_MESSAGE_INTEGRITY m0 \<noteq> None"
      using assms fp rd True by (auto simp: get_stun_message_def Let_def res_bind_eq_Inr split: if_splits)
    then obtain a b where a: "get_attribute STUN_ATTR_USERNAME m0 = Some a"
      and b: "get_attribute STUN_ATTR_MESSAGE_INTEGRITY m0 = Some b" by blast
    obtain bs where bs: "get_string a = Inr bs" using parsed_username [OF rd a] by blast
    have eq: "get_stun_message E pt data addr = res_bind (parse_stun_username E m0) (\<lambda>fields.
               case fields of
                 None \<Rightarrow> res_bind (send_binding_error_response ?R pt m0 addr STUN_ERROR_UNAUTHORIZED
                    STUN_ERROR_REASON_UNAUTHORIZED) (\<lambda>out. Inr (True, None, [], out))
               | Some (local_ufrag, remote_ufrag) \<Rightarrow>
                   if local_ufrag \<noteq> ice_ufrag (pt_ice_params pt)
                   then res_bind (send_binding_error_response ?R pt m0 addr STUN_ERROR_UNAUTHORIZED
                          STUN_ERROR_REASON_UNAUTHORIZED) (\<lambda>out. Inr (True, None, [], out))
                   else res_bind (validate_message_integrity ?R (ice_pwd (pt_ice_params pt)) m0) (\<lambda>(st, m').
                     if st \<noteq> k_integrity_ok
                     then res_bind (send_binding_error_response ?R pt m' addr STUN_ERROR_UNAUTHORIZED
                            STUN_ERROR_REASON_UNAUTHORIZED) (\<lambda>out. Inr (True, None, [], out))
                     else Inr (True, Some m', remote_ufrag, [])))"
      using fp rd True a b by (simp add: get_stun_message_def Let_def)
    obtain fs where fs: "parse_stun_username E m0 = Inr fs" using parsed_fields [OF rd] by blast
    from assms [unfolded eq] obtain l ru where lr: "fs = Some (l, ru)"
      by (cases fs) (auto simp: fs res_bind_eq_Inr)
    from assms [unfolded eq fs lr] obtain m' st where
      p: "parse_stun_username E m0 = Inr (Some (ice_ufrag (pt_ice_params pt), ru))"
      and v: "validate_message_integrity ?R (ice_pwd (pt_ice_params pt)) m0 = Inr (st, m')" "st = k_integrity_ok"
      and res: "res" "m = m'" "u = ru" "out = []"
      using fs lr by (auto simp: res_bind_eq_Inr split: if_splits)
    have "env_split E bs 58 = [ice_ufrag (pt_ice_params pt), u]"
      using p a bs res by (auto simp: parse_stun_username_def split: list.splits)
    from split_two [OF this] have "accepted E pt data u"
      unfolding accepted_def using fp rd True a bs attrs v by blast
    then show ?thesis
      using res rd True v validate_mi_cases [of ?R "ice_pwd (pt_ice_params pt)" m0] by (intro that [of m0]) auto
  qed
qed

lemma accepted_message:
  assumes "accepted E pt data u"
  obtains m m' where "stun_read (env_base E) StunMessage_new data = Some (Some (m, []))"
    "get_stun_message E pt data addr = Inr (True, Some m', u, [])"
    "msg_type m' = STUN_BINDING_REQUEST" "msg_attrs m' = msg_attrs m"
proof -
  let ?R = "env_base E"
  obtain m a m' where fp: "validate_fingerprint ?R data"
    and rd: "stun_read ?R StunMessage_new data = Some (Some (m, []))" "msg_type m = STUN_BINDING_REQUEST"
    and a: "get_attribute STUN_ATTR_USERNAME m = Some a" "get_string a = Inr (ice_ufrag (pt_ice_params pt) @ [58] @ u)"
      "58 \<notin> set (ice_ufrag (pt_ice_params pt))" "58 \<notin> set u"
    and mi: "get_attribute STUN_ATTR_MESSAGE_INTEGRITY m \<noteq> None"
      "validate_message_integrity ?R (ice_pwd (pt_ice_params pt)) m = Inr (k_integrity_ok, m')"
    using assms by (auto simp: accepted_def)
  obtain b where b: "get_attribute STUN_ATTR_MESSAGE_INTEGRITY m = Some b" using mi(1) by blast
  have "parse_stun_username E m = Inr (Some (ice_ufrag (pt_ice_params pt), u))"
    using a(1,2) split_two_conv [OF a(3,4)] by (simp add: parse_stun_username_def)
  then have "get_stun_message E pt data addr = Inr (True, Some m', u, [])"
    using fp rd a(1) b mi(2) by (simp add: get_stun_message_def Let_def)
  then show ?thesis
    using that [OF rd(1)] rd(2) validate_mi_cases [of ?R "ice_pwd (pt_ice_params pt)" m] mi(2) by auto
qed

end

subsection \<open>Refusals\<close>

text \<open>The error response on the wire: header with the transaction id of the request, ERROR-CODE with
  the reason phrase padded to four bytes, FINGERPRINT.\<close>

definition error_reply :: "rtc_base \<Rightarrow> bytes \<Rightarrow> int \<Rightarrow> bytes \<Rightarrow> bytes" where
  "error_reply R txid code reason =
     (let pad = replicate (pad4 (length reason)) 0;
          body = be16 STUN_BINDING_ERROR_RESPONSE @ be16 (of_nat (16 + length (reason @ pad))) @
            be32 k_stun_magic_cookie @ txid @ be16 STUN_ATTR_ERROR_CODE @ be16 (of_nat (4 + length reason)) @
            [0, 0, word_of_int (code div 100), word_of_int (code mod 100)] @ reason @ pad
      in body @ be16 STUN_ATTR_FINGERPRINT @ be16 4 @ be32 (ComputeCrc32 R body XOR STUN_FINGERPRINT_XOR_VALUE))"


lemma send_error_exact:
  assumes codec: "byte_codec R"
    and code: "(code, reason) \<in> {(400, bytes_of ''Bad Request''), (401, bytes_of ''Unauthorized'')}"
  shows "send_binding_error_response R pt m addr code reason =
    Inr (if pt_async_socket pt then [(addr, error_reply R (msg_transaction_id m) code reason)] else [])"
proof -
  define e where "e = set_reason reason (set_code code create_error_code)"
  define r1 where "r1 = add_attribute e (StunMessage_new\<lparr> msg_type := STUN_BINDING_ERROR_RESPONSE,
                        msg_transaction_id := msg_transaction_id m \<rparr>)"
  define r2 where "r2 = add_attribute (fp_attr (fp_value R r1)) r1"
  have wf: "attr_wf e" using code by (auto simp: e_def attr_wf_def create_error_code_def bytes_of_def)
  then have wf1: "list_all attr_wf (msg_attrs r1)" by (simp add: r1_def StunMessage_new_def)
  have fp: "add_fingerprint R r1 = Inr (True, r2)"
    using byte_codec.add_fingerprint_eq [OF codec wf1] by (simp add: r2_def)
  have wf2: "list_all attr_wf (msg_attrs r2)" using wf1 by (simp add: r2_def)
  have wr: "stun_write R r2 [] = Inr (Some (msg_bytes r2))"
    using byte_codec.stun_write_attrs [OF codec wf2] by simp
  have eb: "attr_bytes e = be16 STUN_ATTR_ERROR_CODE @ be16 (of_nat (4 + length reason)) @
      [0, 0, word_of_int (code div 100), word_of_int (code mod 100)] @ reason @ replicate (pad4 (length reason)) 0"
    using code by (auto simp: e_def create_error_code_def attr_bytes_def attr_payload_def be32_def bytes_of_def)
  have len: "length (reason @ replicate (pad4 (length reason)) 0) = 12"
    using code by (auto simp: bytes_of_def pad4_def)
  have at: "msg_attrs r1 = [e]" "msg_attrs r2 = [e, fp_attr (fp_value R r1)]"
    by (simp_all add: r2_def r1_def StunMessage_new_def)
  have "msg_length r2 = 28"
    using code by (auto simp: r2_def r1_def e_def StunMessage_new_def add_attribute_def
      k_stun_attribute_header_size_def create_error_code_def bytes_of_def pad4_def)
  then have hb: "header_bytes r2 = be16 STUN_BINDING_ERROR_RESPONSE @ be16 28 @ be32 k_stun_magic_cookie @ msg_transaction_id m"
    unfolding header_bytes_def by (simp add: r2_def r1_def StunMessage_new_def)
  have "header_bytes (add_attribute (fp_attr 0) r1) = header_bytes r2"
    unfolding r2_def by (rule header_add_attribute) simp
  then have fpv: "fp_value R r1 = ComputeCrc32 R (header_bytes r2 @ attr_bytes e) XOR STUN_FINGERPRINT_XOR_VALUE"
    by (simp add: fp_value_def at)
  have "of_nat (16 + length (reason @ replicate (pad4 (length reason)) 0)) = (28 :: u16)" unfolding len by simp
  then have bytes: "msg_bytes r2 = error_reply R (msg_transaction_id m) code reason"
    unfolding msg_bytes_def error_reply_def Let_def at(2) attrs_bytes_simps fp_attr_bytes fpv hb eb by simp
  show ?thesis
    using code fp wr
    unfolding send_binding_error_response_def Let_def e_def [symmetric] r1_def [symmetric] bytes [symmetric]
    by (auto simp: STUN_ERROR_BAD_REQUEST_def STUN_ERROR_UNAUTHORIZED_def port_send_to_def)
qed

definition error_datagrams :: "ice_env \<Rightarrow> udp_port \<Rightarrow> socket_address \<Rightarrow> stun_message \<Rightarrow> int \<Rightarrow> bytes \<Rightarrow> datagram list" where
  "error_datagrams E pt addr m code reason =
     (if pt_async_socket pt then [(addr, error_reply (env_base E) (msg_transaction_id m) code reason)] else [])"

text \<open>The USERNAME of a request that is meant for this port: our ufrag, a colon, the peer's ufrag.\<close>

definition addressed :: "udp_port \<Rightarrow> stun_message \<Rightarrow> bool" where
  "addressed pt m \<longleftrightarrow> (\<exists>a u. get_attribute STUN_ATTR_USERNAME m = Some a \<and>
     get_string a = Inr (ice_ufrag (pt_ice_params pt) @ [58] @ u) \<and>
     58 \<notin> set (ice_ufrag (pt_ice_params pt)) \<and> 58 \<notin> set u)"

context ice_environment
begin

lemma parse_username_iff:
  assumes "stun_read (env_base E) StunMessage_new data = Some (Some (m, []))"
  shows "(\<exists>ru. parse_stun_username E m = Inr (Some (ice_ufrag (pt_ice_params pt), ru))) \<longleftrightarrow> addressed pt m"
proof (cases "get_attribute STUN_ATTR_USERNAME m")
  case (Some a)
  then obtain bs where bs: "get_string a = Inr bs" using parsed_username [OF assms] by blast
  let ?l = "ice_ufrag (pt_ice_params pt)"
  have "(\<exists>ru. env_split E bs 58 = [?l, ru]) \<longleftrightarrow> (\<exists>u. bs = ?l @ [58] @ u \<and> 58 \<notin> set ?l \<and> 58 \<notin> set u)"
    using split_two [of bs 58 ?l] split_two_conv [of 58 ?l] by blast
  then show ?thesis
    using Some bs by (auto simp: parse_stun_username_def addressed_def split: list.splits)
qed (simp add: parse_stun_username_def addressed_def)

lemma get_stun_message_refused:
  assumes fp: "validate_fingerprint (env_base E) data"
    and rd: "stun_read (env_base E) StunMessage_new data = Some (Some (m, []))" "msg_type m = STUN_BINDING_REQUEST"
    and bad: "\<nexists>u. accepted E pt data u"
  shows "get_stun_message E pt data addr =
    (if get_attribute STUN_ATTR_USERNAME m = None \<or> get_attribute STUN_ATTR_MESSAGE_INTEGRITY m = None
     then Inr (True, None, [], error_datagrams E pt addr m 400 (bytes_of ''Bad Request''))
     else if addressed pt m \<and> validate_message_integrity (env_base E) (ice_pwd (pt_ice_params pt)) m = Inl Out_of_bounds
     then Inl Out_of_bounds
     else Inr (True, None, [], error_datagrams E pt addr m 401 (bytes_of ''Unauthorized'')))"
    (is "_ = (if ?missing then _ else if _ \<and> ?v = _ then _ else _)")
proof -
  have e400: "send_binding_error_response (env_base E) pt m addr STUN_ERROR_BAD_REQUEST STUN_ERROR_REASON_BAD_REQUEST
      = Inr (error_datagrams E pt addr m 400 (bytes_of ''Bad Request''))" for m
    using send_error_exact [OF codec, of 400 "bytes_of ''Bad Request''" pt m addr]
    by (simp add: error_datagrams_def STUN_ERROR_BAD_REQUEST_def STUN_ERROR_REASON_BAD_REQUEST_def)
  have e401: "send_binding_error_response (env_base E) pt m addr STUN_ERROR_UNAUTHORIZED STUN_ERROR_REASON_UNAUTHORIZED
      = Inr (error_datagrams E pt addr m 401 (bytes_of ''Unauthorized''))" for m
    using send_error_exact [OF codec, of 401 "bytes_of ''Unauthorized''" pt m addr]
    by (simp add: error_datagrams_def STUN_ERROR_UNAUTHORIZED_def STUN_ERROR_REASON_UNAUTHORIZED_def)
  show ?thesis
  proof (cases ?missing)
    case True
    then show ?thesis using fp rd by (simp add: get_stun_message_def Let_def e400)
  next
    case present: False
    obtain fs where fs: "parse_stun_username E m = Inr fs" using parsed_fields [OF rd(1)] by blast
    note run = get_stun_message_def [of E pt data addr, unfolded Let_def]
    show ?thesis
    proof (cases "addressed pt m")
      case False
      then have "fs = None \<or> (\<exists>l ru. fs = Some (l, ru) \<and> l \<noteq> ice_ufrag (pt_ice_params pt))"
        using parse_username_iff [OF rd(1), of pt] fs by (cases fs) auto
      then show ?thesis using fp rd present fs False by (auto simp: run e401)
    next
      case True
      then obtain a u where a: "get_attribute STUN_ATTR_USERNAME m = Some a"
          "get_string a = Inr (ice_ufrag (pt_ice_params pt) @ [58] @ u)"
          "58 \<notin> set (ice_ufrag (pt_ice_params pt))" "58 \<notin> set u" by (auto simp: addressed_def)
      have "fs = Some (ice_ufrag (pt_ice_params pt), u)"
        using fs a(1,2) split_two_conv [OF a(3,4)] by (simp add: parse_stun_username_def)
      moreover have "st \<noteq> k_integrity_ok" if "?v = Inr (st, m')" for st m'
        using bad fp rd a present that unfolding accepted_def by blast
      moreover have "error_datagrams E pt addr m' c r = error_datagrams E pt addr m c r" if "?v = Inr (st, m')" for st m' c r
        using validate_mi_cases [of "env_base E" "ice_pwd (pt_ice_params pt)" m] that by (auto simp: error_datagrams_def)
      ultimately show ?thesis
        using fp rd present fs True validate_mi_cases [of "env_base E" "ice_pwd (pt_ice_params pt)" m]
        by (auto simp: run e401)
    qed
  qed
qed

end

subsection \<open>Datagrams from a known address\<close>

lemma emit_datagrams_ok [simp]:
  "ch_wf (emit_datagrams i ds s) = ch_wf s" "ch_synced (emit_datagrams i ds s) = ch_synced s"
  "static (emit_datagrams i ds s) = static s" "ch_heap (emit_datagrams i ds s) = ch_heap s"
  "core (emit_datagrams i ds s) = core s"
  by (simp_all add: emit_datagrams_def)

lemma send_response_ok:
  assumes wf: "ch_wf s" and c: "ch_heap s p = Some c"
  shows "\<exists>ds. handle_stun_binding_request E m p s = Inr (emit_datagrams (cn_port c) ds s)"
proof (cases "get_attribute STUN_ATTR_USERNAME m")
  case None
  then show ?thesis
    by (intro exI [of _ "[]"]) (simp add: handle_stun_binding_request_def send_stun_binding_response_def emit_datagrams_def emit_def)
next
  case (Some a)
  let ?r1 = "add_attribute (StunXorAddressAttribute STUN_ATTR_XOR_MAPPED_ADDRESS (c_address (cn_remote c)))
    (StunMessage_new\<lparr> msg_type := STUN_BINDING_RESPONSE, msg_transaction_id := msg_transaction_id m \<rparr>)"
  let ?pt = "ch_ports s ! cn_port c"
  have "msg_safe ?r1" by (simp add: StunMessage_new_def)
  then obtain b r2 where 2: "add_message_integrity (env_base E) (ice_pwd (pt_ice_params ?pt)) ?r1 = Inr (b, r2)" "msg_safe r2"
    using add_message_integrity_safe by blast
  obtain b' r3 where 3: "add_fingerprint (env_base E) r2 = Inr (b', r3)" "msg_safe r3"
    using add_fingerprint_safe [OF 2(2)] by blast
  obtain w where w: "stun_write (env_base E) r3 [] = Inr w" using stun_write_safe [OF 3(2)] by blast
  have "send_response_message E r3 p s = Inr (emit_datagrams (cn_port c)
      (case w of None \<Rightarrow> [] | Some buf \<Rightarrow> port_send_to ?pt buf (c_address (cn_remote c))) s)"
    using c w wf_port [OF wf c]
    by (cases w) (simp_all add: send_response_message_def deref_def emit_datagrams_def emit_def)
  then show ?thesis
    using Some c 2(1) 3(1) wf_port [OF wf c]
    by (auto simp: handle_stun_binding_request_def send_stun_binding_response_def deref_def)
qed

text \<open>A datagram that kills the connection: an error response, correctly signed, to a pending
  request.\<close>

definition kills :: "ice_env \<Rightarrow> ice_connection \<Rightarrow> bytes \<Rightarrow> bool" where
  "kills E c data \<longleftrightarrow> (\<exists>m m'. stun_read (env_base E) StunMessage_new data = Some (Some (m, [])) \<and>
     msg_type m = STUN_BINDING_ERROR_RESPONSE \<and>
     validate_message_integrity (env_base E) (c_password (cn_remote c)) m = Inr (k_integrity_ok, m') \<and>
     cn_requests c (msg_transaction_id m) \<noteq> None)"

text \<open>What a handled event keeps: the invariant, the published state, and the sockets.\<close>

definition port_socket :: "udp_port \<Rightarrow> bool \<times> candidate list \<times> ice_parameters" where
  "port_socket pt = (pt_async_socket pt, pt_candidates pt, pt_ice_params pt)"

definition event_ok :: "ice_channel \<Rightarrow> ice_channel \<Rightarrow> bool" where
  "event_ok s s' \<longleftrightarrow> ch_wf s' \<and> ch_synced s' \<and> map port_socket (ch_ports s') = map port_socket (ch_ports s)"

lemma event_okI: "ch_wf s' \<Longrightarrow> ch_synced s' \<Longrightarrow> static s' = static s \<Longrightarrow> event_ok s s'"
  by (simp add: event_ok_def static_def)

lemma response_ok:
  assumes wf: "ch_wf s" "ch_synced s" and c: "ch_heap s p = Some c"
    and rd: "ice_environment E" "stun_read (env_base E) StunMessage_new data = Some (Some (m, []))"
    and ty: "msg_type m = STUN_BINDING_RESPONSE \<or> msg_type m = STUN_BINDING_ERROR_RESPONSE"
  shows "(\<exists>s'. res_bind (validate_message_integrity (env_base E) (c_password (cn_remote c)) m) (\<lambda>(_, m').
             if msg_integrity m' = k_integrity_ok
             then res_bind (check_response E m' p s) (\<lambda>(_, s2). Inr s2) else Inr s) = Inr s' \<and> event_ok s s')
    \<or> res_bind (validate_message_integrity (env_base E) (c_password (cn_remote c)) m) (\<lambda>(_, m').
             if msg_integrity m' = k_integrity_ok
             then res_bind (check_response E m' p s) (\<lambda>(_, s2). Inr s2) else Inr s) = Inl Out_of_bounds
       \<and> overreads E (c_password (cn_remote c)) data
    \<or> res_bind (validate_message_integrity (env_base E) (c_password (cn_remote c)) m) (\<lambda>(_, m').
             if msg_integrity m' = k_integrity_ok
             then res_bind (check_response E m' p s) (\<lambda>(_, s2). Inr s2) else Inr s) = Inl Double_free \<and> kills E c data"
    (is "(\<exists>s'. ?run = Inr s' \<and> _) \<or> _")
  using validate_mi_cases [of "env_base E" "c_password (cn_remote c)" m]
proof (elim disjE exE conjE)
  assume "validate_message_integrity (env_base E) (c_password (cn_remote c)) m = Inl Out_of_bounds"
  then show ?thesis using rd(2) by (auto simp: overreads_def)
next
  fix st m'
  assume v: "validate_message_integrity (env_base E) (c_password (cn_remote c)) m = Inr (st, m')"
    "msg_integrity m' = st" "msg_attrs m' = msg_attrs m" "msg_type m' = msg_type m" "msg_transaction_id m' = msg_transaction_id m"
  show ?thesis
  proof (cases "st = k_integrity_ok")
    case False
    then show ?thesis using v wf by (simp add: event_okI)
  next
    case True
    have code: "get_error_code_value m' = Inr STUN_ERROR_GLOBAL_FAIL"
      using ice_environment.parsed_error_code [OF rd] v(3) by (simp add: get_error_code_value_def get_attribute_def)
    from check_response_ok [OF wf c code, of E] show ?thesis
    proof (elim disjE exE conjE)
      fix b s' assume "check_response E m' p s = Inr (b, s')" "ch_wf s'" "ch_synced s'" "static s' = static s"
      then show ?thesis using v True by (simp add: event_okI)
    next
      assume "check_response E m' p s = Inl Double_free" "cn_requests c (msg_transaction_id m') \<noteq> None"
        "msg_type m' \<noteq> STUN_BINDING_RESPONSE"
      moreover from this have "kills E c data"
        unfolding kills_def using rd(2) ty v True by (intro exI [of _ m] exI [of _ m']) simp
      ultimately show ?thesis using v True by simp
    qed
  qed
qed

lemma connection_packet_ok:
  assumes wf: "ch_wf s" "ch_synced s" and c: "ch_heap s p = Some c" and env: "ice_environment E"
  shows "(\<exists>s'. connection_on_read_packet E buf ts p s = Inr s' \<and> event_ok s s') \<or>
    connection_on_read_packet E buf ts p s = Inl Out_of_bounds \<and>
      (overreads E (ice_pwd (pt_ice_params (ch_ports s ! cn_port c))) buf \<or> overreads E (c_password (cn_remote c)) buf) \<or>
    connection_on_read_packet E buf ts p s = Inl Double_free \<and> kills E c buf"
proof (cases "get_stun_message E (ch_ports s ! cn_port c) buf (c_address (cn_remote c))")
  case (Inl u)
  then show ?thesis
    using c wf_port [OF wf(1) c] ice_environment.get_stun_message_ub [OF env Inl]
    by (simp add: connection_on_read_packet_def deref_def)
next
  case (Inr r)
  obtain res om u out where r: "r = (res, om, u, out)" by (cases r)
  let ?i = "cn_port c"
  let ?s1 = "emit_datagrams ?i out s"
  have wf1: "ch_wf ?s1" "ch_synced ?s1" "ch_heap ?s1 p = Some c" using wf c by simp_all
  let ?s2 = "?s1\<lparr> ch_tick := Suc (ch_tick ?s1) \<rparr>"
  have wf2: "ch_wf ?s2" "ch_synced ?s2" "ch_heap ?s2 p = Some c" using wf1 by simp_all
  note run = c wf_port [OF wf(1) c] Inr r
  consider (data) "\<not> res" | (none) "res" "om = None"
    | (req) m where "res" "om = Some m" "msg_type m = STUN_BINDING_REQUEST"
    | (resp) m where "res" "om = Some m" "msg_type m \<noteq> STUN_BINDING_REQUEST"
        "msg_type m = STUN_BINDING_RESPONSE \<or> msg_type m = STUN_BINDING_ERROR_RESPONSE"
    | (other) m where "res" "om = Some m" "msg_type m \<noteq> STUN_BINDING_REQUEST"
        "\<not> (msg_type m = STUN_BINDING_RESPONSE \<or> msg_type m = STUN_BINDING_ERROR_RESPONSE)"
    by (cases om) auto
  then show ?thesis
  proof cases
    case data
    let ?f = "\<lambda>c. c\<lparr> cn_last_data_received := env_time E (ch_tick ?s1) \<rparr>"
    obtain s3 where "update_conn p ?f ?s2 = Inr s3" "ch_wf s3" "ch_synced s3" "static s3 = static s"
      using quiet_ok [OF wf2, of ?f] by (auto simp: kept_def)
    then show ?thesis
      using run data by (simp add: connection_on_read_packet_def deref_def Let_def read_clock_def event_okI)
  next
    case none
    then show ?thesis using run wf1 by (simp add: connection_on_read_packet_def deref_def Let_def event_okI)
  next
    case (req m)
    show ?thesis
    proof (cases "u = c_username (cn_remote c)")
      case False
      obtain out' where "send_binding_error_response (env_base E) (ch_ports s ! ?i) m (c_address (cn_remote c))
          STUN_ERROR_UNAUTHORIZED STUN_ERROR_REASON_UNAUTHORIZED = Inr out'"
        using send_error_safe by blast
      then show ?thesis
        using run req False wf1 by (simp add: connection_on_read_packet_def deref_def Let_def event_okI)
    next
      case True
      let ?f = "\<lambda>c. c\<lparr> cn_last_ping_received := env_time E (ch_tick ?s1) \<rparr>"
      obtain s3 where s3: "update_conn p ?f ?s2 = Inr s3" "ch_wf s3" "ch_synced s3" "ch_heap s3 p = Some (?f c)" "static s3 = static s"
        using quiet_ok [OF wf2, of ?f] by (auto simp: kept_def)
      obtain ds where "handle_stun_binding_request E m p s3 = Inr (emit_datagrams (cn_port (?f c)) ds s3)"
        using send_response_ok [OF s3(2,4)] by blast
      then show ?thesis
        using run req True s3 by (simp add: connection_on_read_packet_def deref_def Let_def read_clock_def event_okI)
    qed
  next
    case (resp m)
    obtain m0 where rd: "stun_read (env_base E) StunMessage_new buf = Some (Some (m0, []))" "m = m0"
      using ice_environment.get_stun_message_Some [OF env Inr [unfolded r resp(2)]] resp(3) by metis
    have "connection_on_read_packet E buf ts p s =
        res_bind (validate_message_integrity (env_base E) (c_password (cn_remote c)) m) (\<lambda>(_, m').
             if msg_integrity m' = k_integrity_ok
             then res_bind (check_response E m' p ?s1) (\<lambda>(_, s2). Inr s2) else Inr ?s1)"
      using run resp by (simp add: connection_on_read_packet_def deref_def Let_def)
    then show ?thesis
      using response_ok [OF wf1 env, of buf m] rd resp(4) by (auto simp: event_ok_def emit_datagrams_def emit_def)
  next
    case (other m)
    then show ?thesis using run wf1 by (simp add: connection_on_read_packet_def deref_def Let_def event_okI)
  qed
qed

subsection \<open>New connections\<close>

lemma new_connection_wf:
  fixes s :: ice_channel and i :: nat and local remote :: candidate
  assumes wf: "ch_wf s" and i: "i < length (ch_ports s)" and free: "pt_connections (ch_ports s ! i) (c_address remote) = None"
  defines "p \<equiv> ch_next s"
  defines "s2 \<equiv> channel_add_connection p (set_port_connection i (c_address remote) p
    (s\<lparr> ch_heap := (ch_heap s)(p \<mapsto> IceConnection_new i local remote), ch_next := Suc p \<rparr>))"
  shows "ch_wf s2"
proof -
  have fresh: "p \<notin> dom (ch_heap s)" using wf by (auto simp: ch_wf_def conn_ok_def p_def)
  have conns: "set (ct_connections (ch_controller s)) = dom (ch_heap s)" using wf by (simp add: ch_wf_def)
  have inv: "ctl_inv (add_connection p (ch_controller s))"
    using ctl_inv_add [of "ch_controller s" p] wf fresh conns by (simp add: ch_wf_def)
  have sel: "ch_selected s \<noteq> Some p" using wf fresh by (auto simp: ch_wf_def)
  have heap: "ch_heap s2 = (ch_heap s)(p \<mapsto> IceConnection_new i local remote)"
    and ports: "ch_ports s2 = (ch_ports s)[i := (ch_ports s ! i)\<lparr> pt_connections := (pt_connections (ch_ports s ! i))(c_address remote \<mapsto> p) \<rparr>]"
    and rest: "ch_next s2 = Suc p" "ch_selected s2 = ch_selected s" "ch_had_connection s2"
      "ch_controller s2 = add_connection p (ch_controller s)" "ch_ping_watcher s2 = ch_ping_watcher s"
    by (simp_all add: s2_def channel_add_connection_def set_port_connection_def)
  have pc: "pt_connections (ch_ports s2 ! j) a = (if j = i \<and> a = c_address remote then Some p else pt_connections (ch_ports s ! j) a)"
    if "j < length (ch_ports s)" for j a
    using that i by (cases "j = i") (auto simp: ports)
  have ok: "conn_ok s2 q d" if q: "ch_heap s2 q = Some d" for q d
  proof (cases "q = p")
    case True
    then have d: "d = IceConnection_new i local remote" using q heap by simp
    show ?thesis using True pc [OF i] i sel by (simp add: conn_ok_def d IceConnection_new_def rest ports)
  next
    case False
    then have "conn_ok s q d" using wf q heap by (simp add: ch_wf_def)
    then show ?thesis using False pc free by (auto simp: conn_ok_def rest ports p_def)
  qed
  have "ports_ok s2"
    unfolding ports_ok_def
  proof (intro allI impI)
    fix j a q assume j: "j < length (ch_ports s2)" and q: "pt_connections (ch_ports s2 ! j) a = Some q"
    have j': "j < length (ch_ports s)" using j by (simp add: ports)
    show "\<exists>c. ch_heap s2 q = Some c \<and> cn_port c = j \<and> c_address (cn_remote c) = a"
    proof (cases "j = i \<and> a = c_address remote")
      case True
      then show ?thesis using q pc [OF j', of a] by (simp add: heap IceConnection_new_def)
    next
      case False
      then have "pt_connections (ch_ports s ! j) a = Some q" using q pc [OF j', of a] by auto
      from wf_port_conn [OF wf j' this] fresh show ?thesis by (auto simp: heap)
    qed
  qed
  then show ?thesis
    using wf ok inv conns by (auto simp: ch_wf_def rest heap add_connection_def)
qed

lemma unknown_address_ok:
  assumes env: "ice_environment E" and wf: "ch_wf s" "ch_synced s" and i: "i < length (ch_ports s)"
    and cands: "pt_candidates (ch_ports s ! i) \<noteq> []" and free: "pt_connections (ch_ports s ! i) addr = None"
    and rd: "stun_read (env_base E) StunMessage_new buf = Some (Some (m0, []))" "msg_attrs m = msg_attrs m0"
  shows "\<exists>s'. on_unknown_address E i addr m uf s = Inr s' \<and> event_ok s s' \<and>
    (\<forall>a v. get_attribute STUN_ATTR_PRIORITY m = Some a \<longrightarrow> uint32_value a = Inr v \<longrightarrow>
       (\<exists>c. pt_connections (ch_ports s' ! i) addr = Some (ch_next s) \<and> ch_heap s' (ch_next s) = Some c \<and>
          cn_port c = i \<and> cn_remote c = prflx_candidate s v addr uf))"
proof (cases "get_attribute STUN_ATTR_PRIORITY m")
  case None
  obtain out where "send_binding_error_response (env_base E) (ch_ports s ! i) m addr STUN_ERROR_BAD_REQUEST
      STUN_ERROR_REASON_BAD_REQUEST = Inr out"
    using send_error_safe by blast
  with None i wf show ?thesis by (simp add: on_unknown_address_def port_of_def event_okI)
next
  case (Some a)
  then have "get_attribute STUN_ATTR_PRIORITY m0 = Some a" using rd(2) by (simp add: get_attribute_def)
  then obtain v where v: "uint32_value a = Inr v" using ice_environment.parsed_priority [OF env rd(1)] by blast
  let ?remote = "prflx_candidate s v addr uf" and ?p = "ch_next s"
  have addr: "c_address ?remote = addr" by (simp add: prflx_candidate_def)
  obtain local ls where l: "pt_candidates (ch_ports s ! i) = local # ls" using cands by (cases "pt_candidates (ch_ports s ! i)") auto
  define s1 where "s1 = set_port_connection i (c_address ?remote) ?p
    (s\<lparr> ch_heap := (ch_heap s)(?p \<mapsto> IceConnection_new i local ?remote), ch_next := Suc ?p \<rparr>)"
  define s2 where "s2 = channel_add_connection ?p s1"
  have create: "create_connection E i ?remote s = Inr (?p, s1)"
    using i l free by (simp add: create_connection_def port_of_def addr Let_def s1_def)
  have wf2: "ch_wf s2" using new_connection_wf [OF wf(1) i, where remote = ?remote and local = local] free by (simp add: s2_def s1_def addr)
  have c2: "ch_heap s2 ?p = Some (IceConnection_new i local ?remote)"
    by (simp add: s2_def s1_def channel_add_connection_def set_port_connection_def)
  obtain ds where h: "handle_stun_binding_request E m ?p s2 = Inr (emit_datagrams (cn_port (IceConnection_new i local ?remote)) ds s2)" (is "_ = Inr ?s3")
    using send_response_ok [OF wf2 c2] by blast
  have "ch_wf ?s3" using wf2 by simp
  then obtain s4 where s4: "sort_connections_and_update_state E ?s3 = Inr s4" "ch_wf s4" "ch_synced s4" "static s4 = static ?s3"
      "strip (ch_heap s4) = strip (ch_heap ?s3)"
    using sort_update_ok by blast
  have "map port_socket (ch_ports s2) = map port_socket (ch_ports s)"
    using i by (simp add: s2_def s1_def channel_add_connection_def set_port_connection_def map_update port_socket_def list_update_same_conv)
  then have "event_ok s s4" using s4 by (simp add: event_ok_def) (simp add: static_def)
  moreover have "pt_connections (ch_ports s4 ! i) addr = Some ?p"
  proof -
    have "ch_ports s4 = ch_ports s2" using s4(4) by (simp add: static_def emit_datagrams_def emit_def)
    then show ?thesis using i by (simp add: s2_def s1_def channel_add_connection_def set_port_connection_def addr)
  qed
  moreover have "\<exists>c. ch_heap s4 ?p = Some c \<and> cn_port c = i \<and> cn_remote c = ?remote"
  proof -
    have "ch_heap ?s3 ?p = Some (IceConnection_new i local ?remote)" using c2 by simp
    from strip_lookup [OF s4(5) [symmetric] this] obtain c where c: "ch_heap s4 ?p = Some c"
      "(IceConnection_new i local ?remote)\<lparr> cn_selected := False \<rparr> = c\<lparr> cn_selected := False \<rparr>" by blast
    show ?thesis using c(1) strip_fields(1,2) [OF c(2)] by (simp add: IceConnection_new_def)
  qed
  ultimately show ?thesis
    using Some v create h s4(1) by (simp add: on_unknown_address_def s2_def)
qed

lemma port_packet_ok:
  assumes env: "ice_environment E" and wf: "ch_wf s" "ch_synced s" and i: "i < length (ch_ports s)"
    and cands: "pt_candidates (ch_ports s ! i) \<noteq> []"
  shows "(\<exists>s'. port_on_read_packet E i buf addr ts s = Inr s' \<and> event_ok s s') \<or>
    port_on_read_packet E i buf addr ts s = Inl Out_of_bounds \<and>
      (overreads E (ice_pwd (pt_ice_params (ch_ports s ! i))) buf \<or>
       (\<exists>p c. get_connection (ch_ports s ! i) addr = Some p \<and> ch_heap s p = Some c \<and>
          overreads E (c_password (cn_remote c)) buf)) \<or>
    port_on_read_packet E i buf addr ts s = Inl Double_free \<and>
      (\<exists>p c. get_connection (ch_ports s ! i) addr = Some p \<and> ch_heap s p = Some c \<and> kills E c buf)"
proof (cases "get_connection (ch_ports s ! i) addr")
  case (Some p)
  obtain c where c: "ch_heap s p = Some c" "cn_port c = i"
    using wf_port_conn [OF wf(1) i, of addr p] Some by (auto simp: get_connection_def)
  have "port_on_read_packet E i buf addr ts s = connection_on_read_packet E buf ts p s"
    using Some i by (simp add: port_on_read_packet_def port_of_def)
  then show ?thesis using connection_packet_ok [OF wf c(1) env, of buf ts] Some c by auto
next
  case None
  then have free: "pt_connections (ch_ports s ! i) addr = None" by (simp add: get_connection_def)
  show ?thesis
  proof (cases "get_stun_message E (ch_ports s ! i) buf addr")
    case (Inl u)
    then show ?thesis
      using None i ice_environment.get_stun_message_ub [OF env Inl] by (simp add: port_on_read_packet_def port_of_def)
  next
    case (Inr r)
    obtain res om u out where r: "r = (res, om, u, out)" by (cases r)
    let ?s1 = "emit_datagrams i out s"
    have wf1: "ch_wf ?s1" "ch_synced ?s1" using wf by simp_all
    have ports: "ch_ports ?s1 = ch_ports s" by (simp add: emit_datagrams_def emit_def)
    show ?thesis
    proof (cases om)
      case None
      then show ?thesis
        using \<open>get_connection (ch_ports s ! i) addr = None\<close> Inr r i wf by (simp add: port_on_read_packet_def port_of_def event_okI)
    next
      case (Some m)
      obtain m0 where m0: "stun_read (env_base E) StunMessage_new buf = Some (Some (m0, []))" "msg_attrs m = msg_attrs m0"
        using ice_environment.get_stun_message_Some [OF env Inr [unfolded r Some]] by metis
      obtain s' where "on_unknown_address E i addr m u ?s1 = Inr s'" "event_ok ?s1 s'"
        using unknown_address_ok [OF env wf1, of i addr, unfolded ports, OF i cands free m0] by blast
      then show ?thesis
        using \<open>get_connection (ch_ports s ! i) addr = None\<close> Inr r i wf Some ports
        by (cases "res \<and> msg_type m = STUN_BINDING_REQUEST")
          (simp_all add: port_on_read_packet_def port_of_def Let_def event_ok_def)
    qed
  qed
qed

end
