(* ===== verification/Ice_Props.thy ===== *)
theory Ice_Props
  imports Ice_Events
begin

text \<open>
  The reachable states of an ICE channel and the properties of the channel as a whole.
\<close>

subsection \<open>Remaining operations\<close>

lemma quiet_fold_ok:
  assumes "ch_wf s" "ch_synced s" "set ps \<subseteq> dom (ch_heap s)" "quiet f"
  shows "\<exists>s'. res_fold (\<lambda>p. update_conn p f) ps s = Inr s' \<and> ch_wf s' \<and> ch_synced s' \<and> static s' = static s"
  using assms
proof (induction ps arbitrary: s)
  case Nil
  then show ?case by simp
next
  case (Cons p ps)
  obtain c where c: "ch_heap s p = Some c" using Cons.prems(3) by auto
  obtain s1 where s1: "update_conn p f s = Inr s1" "kept s s1 ((ch_heap s)(p \<mapsto> f c))"
    using quiet_ok [OF Cons.prems(1,2) c Cons.prems(4)] by blast
  have "dom (ch_heap s1) = dom (ch_heap s)" using kept_dom [OF s1(2)] c by auto
  then obtain s' where "res_fold (\<lambda>p. update_conn p f) ps s1 = Inr s'" "ch_wf s'" "ch_synced s'" "static s' = static s1"
    using Cons.IH [of s1] s1(2) Cons.prems(3,4) by (auto simp: kept_def)
  then show ?case using s1 by (simp add: kept_def)
qed

lemma set_remote_ok:
  assumes "ch_wf s" "ch_synced s"
  shows "\<exists>s'. set_remote_ice_params E params s = Inr s' \<and> event_ok s s'"
proof -
  let ?s1 = "s\<lparr> ch_remote_ice_params := params \<rparr>"
  have wf1: "ch_wf ?s1" using assms(1) by (simp add: ch_wf_def conn_ok_def ports_ok_def)
  have sync1: "ch_synced ?s1" using assms(2) ice_state_cong [of ?s1 s] by (simp add: ch_synced_def)
  have "set (ct_connections (ch_controller s)) \<subseteq> dom (ch_heap ?s1)" using assms(1) by (simp add: ch_wf_def)
  then obtain s2 where s2: "res_fold (\<lambda>p. update_conn p (maybe_set_remote_ice_params params)) (ct_connections (ch_controller s)) ?s1 = Inr s2"
      "ch_wf s2" "static s2 = static ?s1"
    using quiet_fold_ok [OF wf1 sync1 _ quiet_intros(7)] by blast
  obtain s3 where s3: "sort_connections_and_update_state E s2 = Inr s3" "ch_wf s3" "ch_synced s3" "static s3 = static s2"
    using sort_update_ok [OF s2(2)] by blast
  have "ch_ports s3 = ch_ports s" using s3(4) s2(3) by (simp add: static_def)
  then have "event_ok s s3" using s3(2,3) by (simp add: event_ok_def)
  then show ?thesis using s2(1) s3(1) by (simp add: set_remote_ice_params_def)
qed

lemma add_port_wf:
  assumes "ch_wf s" "pt_connections pt = Map.empty"
  shows "ch_wf (s\<lparr> ch_ports := ch_ports s @ [pt], ch_local_candidates := l \<rparr>)"
  using assms by (auto simp: ch_wf_def conn_ok_def ports_ok_def nth_append less_Suc_eq)

lemma add_port_synced:
  "ch_synced (s\<lparr> ch_ports := ps, ch_local_candidates := l \<rparr>) = ch_synced s"
  using ice_state_cong [of "s\<lparr> ch_ports := ps, ch_local_candidates := l \<rparr>" s] by (simp add: ch_synced_def)

definition sockets_ok :: "ice_channel \<Rightarrow> bool" where
  "sockets_ok s \<longleftrightarrow> (\<forall>pt\<in>set (ch_ports s). pt_async_socket pt \<longrightarrow> pt_candidates pt \<noteq> [])"

lemma created_port:
  assumes "create_ice_candidate E sc fam ip lo hi (UDPPort_new cmp params) = (ret, pt, c)"
  shows "pt_connections pt = Map.empty" "pt_async_socket pt \<Longrightarrow> pt_candidates pt \<noteq> []"
  using assms by (auto simp: create_ice_candidate_def UDPPort_new_def Let_def split: if_splits option.splits)

lemma gather_one_ok:
  assumes "ch_wf s" "ch_synced s" "sockets_ok s"
  shows "ch_wf (gather_one E lo hi net s)" "ch_synced (gather_one E lo hi net s)" "sockets_ok (gather_one E lo hi net s)"
proof -
  obtain sc fam ip where net: "net = (sc, fam, ip)" by (cases net)
  obtain ret pt c where r: "create_ice_candidate E sc fam ip lo hi (UDPPort_new (ch_component s) (ch_ice_params s)) = (ret, pt, c)"
    by (cases "create_ice_candidate E sc fam ip lo hi (UDPPort_new (ch_component s) (ch_ice_params s))")
  note pt = created_port [OF r]
  show "ch_wf (gather_one E lo hi net s)" "ch_synced (gather_one E lo hi net s)" "sockets_ok (gather_one E lo hi net s)"
    using assms pt add_port_wf [OF assms(1) pt(1)] add_port_synced
    by (auto simp: gather_one_def net r sockets_ok_def Let_def)
qed

lemma gather_ok:
  assumes "ch_wf s" "ch_synced s" "sockets_ok s"
  shows "ch_wf (gathering_candidate E lo hi nets s)" "ch_synced (gathering_candidate E lo hi nets s)"
    "sockets_ok (gathering_candidate E lo hi nets s)"
proof -
  have "ch_wf (fold (gather_one E lo hi) nets s) \<and> ch_synced (fold (gather_one E lo hi) nets s) \<and>
      sockets_ok (fold (gather_one E lo hi) nets s)"
    using assms by (induction nets arbitrary: s) (simp_all add: gather_one_ok)
  moreover have "sockets_ok (emit es t) = sockets_ok t" for es t by (simp add: sockets_ok_def emit_def)
  ultimately show "ch_wf (gathering_candidate E lo hi nets s)" "ch_synced (gathering_candidate E lo hi nets s)"
    "sockets_ok (gathering_candidate E lo hi nets s)"
    using assms by (simp_all add: gathering_candidate_def Let_def)
qed

lemma event_sockets: "event_ok s s' \<Longrightarrow> sockets_ok s \<Longrightarrow> sockets_ok s'"
proof -
  assume e: "event_ok s s'" and k: "sockets_ok s"
  have "port_socket ` set (ch_ports s') = port_socket ` set (ch_ports s)"
    using e unfolding event_ok_def by (metis list.set_map)
  then show "sockets_ok s'" using k unfolding sockets_ok_def port_socket_def by (auto simp: image_iff set_eq_iff) metis
qed

subsection \<open>Reachable states\<close>

text \<open>The events a channel sees between its construction and its destruction.  Datagrams only
  arrive at a port that has a socket, the timer only fires while it runs, and a step is taken only
  if it has a result.\<close>

inductive channel_reaches :: "ice_env \<Rightarrow> ice_channel \<Rightarrow> bool" for E where
  created: "channel_reaches E (IceTransportChannel_new component)"
| params: "channel_reaches E s \<Longrightarrow> channel_reaches E (set_ice_params params s)"
| gathered: "channel_reaches E s \<Longrightarrow> channel_reaches E (gathering_candidate E lo hi nets s)"
| remote: "channel_reaches E s \<Longrightarrow> set_remote_ice_params E params s = Inr s' \<Longrightarrow> channel_reaches E s'"
| packet: "channel_reaches E s \<Longrightarrow> i < length (ch_ports s) \<Longrightarrow> pt_async_socket (ch_ports s ! i) \<Longrightarrow>
    port_on_read_packet E i buf addr ts s = Inr s' \<Longrightarrow> channel_reaches E s'"
| timer: "channel_reaches E s \<Longrightarrow> ch_timer s \<noteq> None \<Longrightarrow> on_check_and_ping E s = Inr s' \<Longrightarrow> channel_reaches E s'"
| sent: "channel_reaches E s \<Longrightarrow> send_packet data s = Inr (b, s') \<Longrightarrow> channel_reaches E s'"

inductive_cases channel_reachesE: "channel_reaches E s"

lemma send_packet_core:
  assumes "send_packet data s = Inr (b, s')"
  shows "core s' = core s \<and> ch_synced s' = ch_synced s \<and> ch_ports s' = ch_ports s"
  using assms by (auto simp: send_packet_def res_bind_eq_Inr split: option.splits if_splits)
    (auto simp: emit_datagrams_def emit_def)

lemma reaches_ok:
  assumes env: "ice_environment E" and r: "channel_reaches E s"
  shows "ch_wf s \<and> ch_synced s \<and> sockets_ok s"
  using r
proof induction
  case (created component)
  then show ?case by (simp add: wf_new synced_new) (simp add: sockets_ok_def IceTransportChannel_new_def)
next
  case (params s params)
  let ?s = "set_ice_params params s"
  have "core ?s = core s" by (simp add: core_def set_ice_params_def)
  then show ?case
    using params.IH core_wf [of ?s s] core_synced [of ?s s] by (simp add: set_ice_params_def sockets_ok_def)
next
  case (gathered s lo hi nets)
  then show ?case by (simp add: gather_ok)
next
  case (remote s params s')
  then show ?case using set_remote_ok [of s E params] event_sockets by (auto simp: event_ok_def)
next
  case (packet s i buf addr ts s')
  then have "pt_candidates (ch_ports s ! i) \<noteq> []" by (simp add: sockets_ok_def)
  with packet show ?case
    using port_packet_ok [OF env _ _ packet(2), of buf addr ts] event_sockets by (auto simp: event_ok_def)
next
  case (timer s s')
  show ?case
  proof (cases "\<exists>c\<in>ran (ch_heap s). timed_out (env_time E (ch_tick s)) c")
    case True
    then show ?thesis using timer check_and_ping_uaf [of s E] by simp
  next
    case False
    then obtain s1 where "on_check_and_ping E s = Inr s1" "ch_wf s1" "ch_synced s1" "static s1 = static s"
      using timer check_and_ping_ok [of s E] by blast
    then show ?thesis using timer by (simp add: static_def sockets_ok_def)
  qed
next
  case (sent s data b s')
  then show ?case using send_packet_core [OF sent(2)] core_wf [of s' s] by (simp add: sockets_ok_def)
qed

subsection \<open>Tear-down\<close>

text \<open>While the destructor runs, the controller may hold a dangling selected pointer, but only if
  the channel has no selected connection, and then nobody reads it.\<close>

definition td_inv :: "ice_channel \<Rightarrow> bool" where
  "td_inv s \<longleftrightarrow> ctl_inv (ch_controller s) \<and> set (ct_connections (ch_controller s)) = dom (ch_heap s) \<and>
     set_option (ch_selected s) \<subseteq> dom (ch_heap s) \<and>
     (ch_selected s = None \<or> ct_selected (ch_controller s) = ch_selected s) \<and>
     (ch_start_pinging s \<or> (\<forall>c\<in>ran (ch_heap s). \<not> has_creds c))"

lemma strip_creds:
  assumes "strip h' = strip h" "\<forall>c\<in>ran h. \<not> has_creds c"
  shows "\<forall>c\<in>ran h'. \<not> has_creds c"
proof
  fix c assume "c \<in> ran h'"
  then obtain q where q: "h' q = Some c" by (auto simp: ran_def)
  from strip_lookup [OF assms(1) q] obtain d where d: "h q = Some d" "cn_remote c = cn_remote d"
    using strip_fields(2) by blast
  then have "d \<in> ran h" by (auto simp: ran_def)
  then show "\<not> has_creds c" using assms(2) d(2) by (simp add: has_creds_def)
qed

lemma td_destroyed:
  assumes td: "td_inv s" and p: "p \<in> dom (ch_heap s)"
  shows "\<exists>s'. channel_on_connection_destroyed E p s = Inr s' \<and> strip (ch_heap s') = strip (ch_heap s) \<and>
    ctl_inv (ch_controller s') \<and> set (ct_connections (ch_controller s')) = dom (ch_heap s) - {p} \<and>
    set_option (ch_selected s') \<subseteq> dom (ch_heap s) - {p} \<and>
    (ch_selected s' = None \<or> ct_selected (ch_controller s') = ch_selected s') \<and>
    (ch_start_pinging s \<longrightarrow> ch_start_pinging s')"
proof -
  let ?ct = "on_connection_destroyed p (ch_controller s)"
  let ?s1 = "s\<lparr> ch_controller := ?ct \<rparr>"
  have inv1: "ctl_inv ?ct" using td ctl_inv_destroyed by (simp add: td_inv_def)
  have conns1: "set (ct_connections ?ct) = dom (ch_heap s) - {p}" and sel1: "ct_selected ?ct = ct_selected (ch_controller s)"
    using td by (simp_all add: td_inv_def on_connection_destroyed_def ctl_inv_def)
  show ?thesis
  proof (cases "ch_selected s = Some p")
    case True
    have creds: "ch_start_pinging s \<or> (\<forall>q\<in>set (ct_connections ?ct). \<not> has_creds (the (ch_heap s q)))"
      using td conns1 by (force simp: td_inv_def ran_def)
    have live1: "ch_live ?s1"
      using td inv1 conns1 sel1 creds True by (auto simp: ch_live_def ctl_live_def td_inv_def)
    obtain t where t: "switch_selected_connection None ?s1 = Inr t" "ch_live t" "strip (ch_heap t) = strip (ch_heap s)"
        "ct_connections (ch_controller t) = ct_connections ?ct" "ch_selected t = None" "ch_start_pinging t = ch_start_pinging s"
      using live_switch [OF live1, of None] by auto
    obtain u where u: "sort_connections_and_update_state E t = Inr u" "ch_live u" "strip (ch_heap u) = strip (ch_heap t)"
        "set (ct_connections (ch_controller u)) = set (ct_connections (ch_controller t))"
        "ch_selected u = ch_selected t \<and> ct_selected (ch_controller u) = ct_selected (ch_controller t) \<or>
         (\<exists>q\<in>set (ct_connections (ch_controller t)). ch_selected u = Some q \<and> ct_selected (ch_controller u) = Some q)"
        "ch_start_pinging t \<longrightarrow> ch_start_pinging u"
      using live_sort_update [OF t(2)] by blast
    have "channel_on_connection_destroyed E p s = Inr u"
      using True t(1) u(1) by (simp add: channel_on_connection_destroyed_def Let_def)
    moreover have "ctl_inv (ch_controller u)" using u(2) by (simp add: ch_live_def)
    ultimately show ?thesis using t u conns1 by auto
  next
    case False
    obtain u where u: "channel_update_state ?s1 = Inr u" "live_core u = live_core ?s1"
      using live_update_state [of ?s1] td conns1 by (auto simp: td_inv_def)
    have "channel_on_connection_destroyed E p s = Inr u"
      using False u(1) by (simp add: channel_on_connection_destroyed_def Let_def)
    then show ?thesis using u(2) td inv1 conns1 sel1 False by (auto simp: live_core_def td_inv_def)
  qed
qed

lemma td_destroy:
  assumes td: "td_inv s" and p: "p \<in> dom (ch_heap s)"
  shows "\<exists>s'. destroy E p s = Inr s' \<and> td_inv s' \<and> dom (ch_heap s') = dom (ch_heap s) - {p}"
proof -
  obtain s1 where s1: "channel_on_connection_destroyed E p s = Inr s1" "strip (ch_heap s1) = strip (ch_heap s)"
      "ctl_inv (ch_controller s1)" "set (ct_connections (ch_controller s1)) = dom (ch_heap s) - {p}"
      "set_option (ch_selected s1) \<subseteq> dom (ch_heap s) - {p}"
      "ch_selected s1 = None \<or> ct_selected (ch_controller s1) = ch_selected s1"
      "ch_start_pinging s \<longrightarrow> ch_start_pinging s1"
    using td_destroyed [OF td p] by blast
  have dom1: "dom (ch_heap s1) = dom (ch_heap s)" using s1(2) by (metis strip_dom)
  let ?s2 = "s1\<lparr> ch_heap := (ch_heap s1)(p := None) \<rparr>"
  have "ran (ch_heap ?s2) \<subseteq> ran (ch_heap s1)" by (auto simp: ran_def)
  moreover have "ch_start_pinging s1 \<or> (\<forall>c\<in>ran (ch_heap s1). \<not> has_creds c)"
    using td s1(7) strip_creds [OF s1(2)] by (auto simp: td_inv_def)
  ultimately have "td_inv ?s2" using s1 dom1 by (auto simp: td_inv_def)
  moreover have "ch_heap s1 p \<noteq> None" using p dom1 by auto
  ultimately show ?thesis using s1(1) p dom1 by (auto simp: destroy_def)
qed

lemma td_destroy_all:
  "td_inv s \<Longrightarrow> distinct ps \<Longrightarrow> set ps = dom (ch_heap s) \<Longrightarrow>
     \<exists>s'. res_fold (destroy E) ps s = Inr s' \<and> ch_heap s' = Map.empty"
proof (induction ps arbitrary: s)
  case Nil
  then have "dom (ch_heap s) = {}" by simp
  then show ?case by simp
next
  case (Cons p ps)
  obtain s1 where "destroy E p s = Inr s1" "td_inv s1" "dom (ch_heap s1) = dom (ch_heap s) - {p}"
    using td_destroy [of s p E] Cons.prems by auto
  moreover from this have "set ps = dom (ch_heap s1)" using Cons.prems(2,3) by auto
  ultimately show ?case using Cons.IH [of s1] Cons.prems(2) by simp
qed

lemma teardown:
  assumes wf: "ch_wf s" and ping: "ch_start_pinging s \<or> (\<forall>c\<in>ran (ch_heap s). \<not> has_creds c)"
  shows "\<exists>s'. IceTransportChannel_destruct E s = Inr s' \<and> ch_heap s' = Map.empty \<and> ch_ports s' = []"
proof -
  let ?s0 = "s\<lparr> ch_ping_watcher := False, ch_timer := None \<rparr>"
  have "td_inv ?s0" using wf ping by (simp add: td_inv_def ch_wf_def)
  moreover have "distinct (ct_connections (ch_controller s))" "set (ct_connections (ch_controller s)) = dom (ch_heap ?s0)"
    using wf by (simp_all add: ch_wf_def ctl_inv_def)
  ultimately obtain s' where "res_fold (destroy E) (ct_connections (ch_controller s)) ?s0 = Inr s'" "ch_heap s' = Map.empty"
    using td_destroy_all by blast
  then show ?thesis by (simp add: IceTransportChannel_destruct_def)
qed

subsection \<open>Example channel\<close>

text \<open>A channel with one port, a writable selected connection to 10.0.0.1:5000 and a second one
  that never answered.\<close>

definition ex_addr :: "u16 \<Rightarrow> socket_address" where
  "ex_addr port = \<lparr> sa_family = AF_INET, sa_ip = [10, 0, 0, 1], sa_port = port \<rparr>"

definition ex_txid :: bytes where "ex_txid = replicate 12 7"

definition ex_remote :: "u16 \<Rightarrow> candidate" where
  "ex_remote port = (ex_candidate 100)\<lparr> c_address := ex_addr port \<rparr>"

definition ex_request :: stun_request where
  "ex_request = \<lparr> req_msg = StunMessage_new\<lparr> msg_type := STUN_BINDING_REQUEST, msg_transaction_id := ex_txid \<rparr>, req_ts = 900 \<rparr>"

definition ex_conn1 :: ice_connection where
  "ex_conn1 = (IceConnection_new 0 (ex_candidate 100) (ex_remote 5000))
     \<lparr> cn_write_state := STATE_WRITABLE, cn_selected := True, cn_requests := [ex_txid \<mapsto> ex_request] \<rparr>"

definition ex_conn2 :: "int \<Rightarrow> ice_connection" where
  "ex_conn2 t = (IceConnection_new 0 (ex_candidate 100) (ex_remote 5001))
     \<lparr> cn_pings := [\<lparr> ping_id = ex_txid, sent_time = t \<rparr>] \<rparr>"

definition ex_port :: udp_port where
  "ex_port = (UDPPort_new RTP \<lparr> ice_ufrag = [97], ice_pwd = [98] \<rparr>)
     \<lparr> pt_async_socket := True, pt_candidates := [ex_candidate 100],
       pt_connections := [ex_addr 5000 \<mapsto> 1, ex_addr 5001 \<mapsto> 2] \<rparr>"

definition ex_channel :: "int \<Rightarrow> ice_channel" where
  "ex_channel t = (IceTransportChannel_new RTP)\<lparr> ch_ports := [ex_port],
     ch_controller := \<lparr> ct_selected = Some 1, ct_connections = [1, 2], ct_pinged = {1}, ct_unpinged = {2} \<rparr>,
     ch_selected := Some 1, ch_heap := [1 \<mapsto> ex_conn1, 2 \<mapsto> ex_conn2 t], ch_next := 3, ch_had_connection := True,
     ch_writable := True, ch_has_been_connection := True, ch_state := k_connected, ch_start_pinging := True,
     ch_timer := Some 48000 \<rparr>"

lemma ex_channel_sel [simp]:
  "ch_heap (ex_channel t) = [1 \<mapsto> ex_conn1, 2 \<mapsto> ex_conn2 t]" "ch_ports (ex_channel t) = [ex_port]"
  "ch_selected (ex_channel t) = Some 1" "ch_next (ex_channel t) = 3" "ch_had_connection (ex_channel t)"
  "ch_ping_watcher (ex_channel t)" "ch_writable (ex_channel t)" "\<not> ch_receiving (ex_channel t)"
  "ch_has_been_connection (ex_channel t)" "ch_state (ex_channel t) = k_connected" "ch_start_pinging (ex_channel t)"
  "ch_tick (ex_channel t) = 0" "ch_timer (ex_channel t) = Some 48000"
  "ch_controller (ex_channel t) = \<lparr> ct_selected = Some 1, ct_connections = [1, 2], ct_pinged = {1}, ct_unpinged = {2} \<rparr>"
  by (simp_all add: ex_channel_def IceTransportChannel_new_def)

lemma ex_conn_sel [simp]:
  "cn_port ex_conn1 = 0" "cn_selected ex_conn1" "cn_write_state ex_conn1 = STATE_WRITABLE" "\<not> cn_receiving ex_conn1"
  "c_address (cn_remote ex_conn1) = ex_addr 5000" "cn_requests ex_conn1 = [ex_txid \<mapsto> ex_request]"
  "c_password (cn_remote ex_conn1) = [112]"
  "cn_port (ex_conn2 t) = 0" "\<not> cn_selected (ex_conn2 t)" "cn_write_state (ex_conn2 t) = STATE_WRITE_INIT"
  "\<not> cn_receiving (ex_conn2 t)" "c_address (cn_remote (ex_conn2 t)) = ex_addr 5001"
  "cn_pings (ex_conn2 t) = [\<lparr> ping_id = ex_txid, sent_time = t \<rparr>]" "cn_pings ex_conn1 = []"
  by (simp_all add: ex_conn1_def ex_conn2_def IceConnection_new_def ex_remote_def ex_candidate_def)

lemma ex_addr_inj [simp]: "ex_addr p = ex_addr q \<longleftrightarrow> p = q"
  by (simp add: ex_addr_def)

lemma ex_port_sel [simp]:
  "pt_connections ex_port = [ex_addr 5000 \<mapsto> 1, ex_addr 5001 \<mapsto> 2]" "pt_async_socket ex_port"
  "pt_candidates ex_port = [ex_candidate 100]" "pt_ice_params ex_port = \<lparr> ice_ufrag = [97], ice_pwd = [98] \<rparr>"
  by (simp_all add: ex_port_def UDPPort_new_def)

lemma ex_ran: "ran (ch_heap (ex_channel t)) = {ex_conn1, ex_conn2 t}"
  unfolding ex_channel_sel(1) by (subst ran_map_upd, simp, subst ran_map_upd, simp) (simp add: insert_commute)

lemma ex_channel_ok: "ch_wf (ex_channel t)" "ch_synced (ex_channel t)"
proof -
  have ok: "conn_ok (ex_channel t) 1 ex_conn1" "conn_ok (ex_channel t) 2 (ex_conn2 t)"
    by (simp_all add: conn_ok_def)
  have ports: "ports_ok (ex_channel t)"
    by (simp add: ports_ok_def)
  have heap: "\<forall>p c. ch_heap (ex_channel t) p = Some c \<longrightarrow> conn_ok (ex_channel t) p c"
    using ok by (simp split: if_splits)
  show "ch_wf (ex_channel t)"
    unfolding ch_wf_def using heap ports by (auto simp: ctl_inv_def)
  show "ch_synced (ex_channel t)"
    unfolding ch_synced_def ice_state_of_def ex_ran by (simp add: writable_def active_def)
qed

subsection \<open>Properties\<close>

text \<open>C11: In every reachable state of a channel the books agree and every pointer is live: the
  controller lists exactly the connections on the heap, each once, and splits them into pinged and
  unpinged; channel and controller agree on the selected connection and exactly it carries the
  flag; every connection is registered in its port under its remote address and every entry of a
  port's table leads to a live connection; and the published writable, receiving and ICE state are
  the ones the connections determine.\<close>

theorem channel_invariant:
  assumes "ice_environment E" "channel_reaches E s"
  shows "ch_wf s \<and> ch_synced s"
  using reaches_ok [OF assms] by simp

definition ex_calls :: socket_calls where
  "ex_calls = \<lparr> sc_create = 5, sc_setnonblock = 0, sc_bind = (\<lambda>lo hi. 0), sc_get_port = Some 10028 \<rparr>"

definition ex_gathered :: ice_channel where
  "ex_gathered = gathering_candidate env_ref 10000 20000 [(ex_calls, AF_INET, [10, 0, 0, 7])]
     (set_ice_params \<lparr> ice_ufrag = [97], ice_pwd = [98] \<rparr> (IceTransportChannel_new RTP))"

theorem channel_invariant_witness: "ch_wf ex_gathered \<and> ch_synced ex_gathered"
  unfolding ex_gathered_def
  by (rule channel_invariant [OF ice_environment_ref]) (intro channel_reaches.intros)

text \<open>C12: The periodic check runs through and keeps the invariant unless some connection has timed
  out (no answer to its oldest outstanding ping for 15 seconds while it is not writable, or while it
  loses writability in this very check); then \<^verbatim>\<open>update_state\<close> deletes the connection and goes on to
  read its fields.\<close>

theorem periodic_check_outcome:
  assumes "ch_wf s" "ch_synced s"
  shows "if \<exists>c\<in>ran (ch_heap s). timed_out (env_time E (ch_tick s)) c
    then on_check_and_ping E s = Inl Use_after_free
    else \<exists>s'. on_check_and_ping E s = Inr s' \<and> ch_wf s' \<and> ch_synced s'"
  using check_and_ping_uaf [OF assms, of E] check_and_ping_ok [OF assms, of E] by auto

theorem periodic_check_outcome_witness:
  "on_check_and_ping (env_ref\<lparr> env_time := (\<lambda>n. 20000) \<rparr>) (ex_channel 1000) = Inl Use_after_free"
proof -
  have "timed_out 20000 (ex_conn2 1000)"
    by (simp add: timed_out_def too_long_without_response_def ice_consts)
  then show ?thesis
    using periodic_check_outcome [OF ex_channel_ok, of 1000 "env_ref\<lparr> env_time := (\<lambda>n. 20000) \<rparr>"]
    unfolding ex_ran by simp
qed

text \<open>C13: Every datagram that arrives at a port is handled and keeps the invariant, with two
  exceptions: the integrity check reads past the end of the datagram, or the datagram is a correctly
  signed Binding error response to a request that is still pending on a connection.\<close>

theorem datagram_outcome:
  assumes "ice_environment E" "ch_wf s" "ch_synced s" "i < length (ch_ports s)"
    and "pt_candidates (ch_ports s ! i) \<noteq> []"
  shows "(\<exists>s'. port_on_read_packet E i buf addr ts s = Inr s' \<and> ch_wf s' \<and> ch_synced s') \<or>
    port_on_read_packet E i buf addr ts s = Inl Out_of_bounds \<and>
      (overreads E (ice_pwd (pt_ice_params (ch_ports s ! i))) buf \<or>
       (\<exists>p c. get_connection (ch_ports s ! i) addr = Some p \<and> ch_heap s p = Some c \<and>
          overreads E (c_password (cn_remote c)) buf)) \<or>
    port_on_read_packet E i buf addr ts s = Inl Double_free \<and>
      (\<exists>p c. get_connection (ch_ports s ! i) addr = Some p \<and> ch_heap s p = Some c \<and> kills E c buf)"
  using port_packet_ok [OF assms, of buf addr ts] by (auto simp: event_ok_def)

theorem datagram_outcome_witness:
  "\<exists>s'. port_on_read_packet env_ref 0 [128, 111] (ex_addr 5000) 0 (ex_channel 1000) = Inr s' \<and> ch_wf s' \<and> ch_synced s'"
proof -
  have "stun_read (env_base env_ref) StunMessage_new [128, 111] = Some None"
    by (simp add: stun_read_def env_ref_def ref.read16 ref.read16_short)
  then have "\<not> overreads env_ref pwd [128, 111]" "\<not> kills env_ref c [128, 111]" for pwd c
    by (simp_all add: overreads_def kills_def)
  then show ?thesis
    using datagram_outcome [OF ice_environment_ref ex_channel_ok, of 0 1000 "[128, 111]" "ex_addr 5000" 0] by simp
qed

text \<open>A correctly signed Binding error response to a pending ping is fatal: the parsed message has
  no error code, so the connection and with it the pending request are deleted, and
  \<^verbatim>\<open>check_response\<close> deletes the request a second time.\<close>

theorem error_response_frees_twice_on_the_wire:
  assumes env: "ice_environment E" and wf: "ch_wf s" "ch_synced s" and i: "i < length (ch_ports s)"
    and conn: "get_connection (ch_ports s ! i) addr = Some p" "ch_heap s p = Some c"
    and fp: "validate_fingerprint (env_base E) buf"
    and rd: "stun_read (env_base E) StunMessage_new buf = Some (Some (m, []))"
      "msg_type m = STUN_BINDING_ERROR_RESPONSE"
    and mi: "validate_message_integrity (env_base E) (c_password (cn_remote c)) m = Inr (k_integrity_ok, m')"
    and req: "cn_requests c (msg_transaction_id m) = Some req" "msg_type (req_msg req) = STUN_BINDING_REQUEST"
  shows "port_on_read_packet E i buf addr ts s = Inl Double_free"
proof -
  have port: "cn_port c = i" "c_address (cn_remote c) = addr"
    using wf_port_conn [OF wf(1) i, of addr p] conn by (auto simp: get_connection_def)
  have ty: "STUN_BINDING_ERROR_RESPONSE \<noteq> STUN_BINDING_REQUEST" "STUN_BINDING_ERROR_RESPONSE \<noteq> STUN_BINDING_RESPONSE"
    "uint STUN_BINDING_ERROR_RESPONSE \<noteq> get_stun_success_response (uint STUN_BINDING_REQUEST)"
    "uint STUN_BINDING_ERROR_RESPONSE = get_stun_error_response (uint STUN_BINDING_REQUEST)"
    by (simp_all add: STUN_BINDING_ERROR_RESPONSE_def STUN_BINDING_REQUEST_def STUN_BINDING_RESPONSE_def
        get_stun_success_response_def get_stun_error_response_def is_stun_request_type_def k_stun_class_mask_def
        STUN_CLASS_REQUEST_def STUN_CLASS_SUCCESS_RESPONSE_def STUN_CLASS_ERROR_RESPONSE_def)
  have get: "get_stun_message E (ch_ports s ! i) buf addr = Inr (True, Some m, [], [])"
    using fp rd ty(1) by (simp add: get_stun_message_def Let_def)
  have m': "msg_integrity m' = k_integrity_ok" "msg_attrs m' = msg_attrs m" "msg_type m' = msg_type m"
    "msg_transaction_id m' = msg_transaction_id m"
    using validate_mi_cases [of "env_base E" "c_password (cn_remote c)" m] mi by auto
  have code: "get_error_code_value m' = Inr STUN_ERROR_GLOBAL_FAIL"
    using ice_environment.parsed_error_code [OF env rd(1)] m'(2) by (simp add: get_error_code_value_def get_attribute_def)
  have fatal: "fatal_error STUN_ERROR_GLOBAL_FAIL"
    by (simp add: fatal_error_def STUN_ERROR_BAD_REQUEST_def STUN_ERROR_UNAUTHORIZED_def STUN_ERROR_SERVER_ERROR_def STUN_ERROR_GLOBAL_FAIL_def)
  have "emit_datagrams i [] s = s" by (simp add: emit_datagrams_def emit_def)
  moreover have "check_response E m' p s = Inl Double_free"
    by (rule error_response_frees_twice [where req = req, OF wf conn(2) _ _ _ code fatal]) (use req m' rd(2) ty in simp_all)
  ultimately show ?thesis
    using i conn get port rd(2) ty mi m'(1)
    by (simp add: port_on_read_packet_def port_of_def connection_on_read_packet_def deref_def Let_def)
qed

definition ex_error :: stun_message where
  "ex_error = StunMessage_new\<lparr> msg_type := STUN_BINDING_ERROR_RESPONSE, msg_transaction_id := ex_txid \<rparr>"

theorem error_response_frees_twice_on_the_wire_witness:
  "\<exists>buf. port_on_read_packet env_ref 0 buf (ex_addr 5000) 0 (ex_channel 1000) = Inl Double_free"
proof -
  have wf: "msg_wf ex_error" "list_all kind_ok (msg_attrs ex_error)"
      "\<forall>a \<in> set (msg_attrs ex_error). attr_type a \<noteq> STUN_ATTR_MESSAGE_INTEGRITY" "msg_type ex_error AND 0x0800 = 0"
      "length (attrs_bytes (msg_attrs ex_error)) + 32 < 2 ^ 16"
    by (simp_all add: ex_error_def StunMessage_new_def msg_wf_def ex_txid_def STUN_BINDING_ERROR_RESPONSE_def attrs_bytes_def)
  have R: "env_base env_ref = rtc_ref" by (simp add: env_ref_def)
  obtain buf m m' where buf: "validate_fingerprint rtc_ref buf" "stun_read rtc_ref StunMessage_new buf = Some (Some (m, []))"
      "msg_type m = msg_type ex_error" "msg_transaction_id m = msg_transaction_id ex_error"
      "validate_message_integrity rtc_ref [112] m = Inr (k_integrity_ok, m')"
    using ref.signed_roundtrip [OF wf, of "[112]"] by blast
  have "port_on_read_packet env_ref 0 buf (ex_addr 5000) 0 (ex_channel 1000) = Inl Double_free"
    by (rule error_response_frees_twice_on_the_wire [OF ice_environment_ref ex_channel_ok, where p = 1 and c = ex_conn1 and req = ex_request, unfolded R, OF _ _ _ buf(1,2)])
      (use buf(3-5) in \<open>simp_all add: get_connection_def ex_error_def ex_request_def\<close>)
  then show ?thesis by blast
qed

definition ex_ping :: stun_message where
  "ex_ping = add_attribute (StunUint32Attribute STUN_ATTR_PRIORITY 1853824767)
     (add_attribute (StunByteStringAttribute_str STUN_ATTR_USERNAME [97, 58, 117])
        (StunMessage_new\<lparr> msg_type := STUN_BINDING_REQUEST \<rparr>))"

lemmas ex_ping_defs = ex_ping_def add_attribute_def StunUint32Attribute_def StunByteStringAttribute_str_def
  copy_bytes_def StunMessage_new_def EMPTY_TRANSACTION_ID_def k_stun_attribute_header_size_def pad4_def Let_def bytes_of_def

lemma ex_ping_wf: "msg_wf ex_ping" "list_all kind_ok (msg_attrs ex_ping)"
    "\<forall>a \<in> set (msg_attrs ex_ping). attr_type a \<noteq> STUN_ATTR_MESSAGE_INTEGRITY" "msg_type ex_ping AND 0x0800 = 0"
    "length (attrs_bytes (msg_attrs ex_ping)) + 32 < 2 ^ 16"
  by (simp_all add: ex_ping_defs msg_wf_def attr_wf_def attr_bytes_def attr_payload_def kind_ok_def
      get_attribute_value_type_def stun_attr_types STUN_BINDING_REQUEST_def)

text \<open>C14: A datagram from an unknown address that is not an authenticated Binding request (fingerprint,
  a USERNAME that is our ufrag, a colon and another ufrag, and an HMAC under our password) changes
  nothing in the channel, and what is sent is exactly this: nothing, unless it is a Binding request
  with a correct fingerprint; otherwise, if the socket of the port is open, one error response to
  the source address under the transaction id of the request, 400 if USERNAME or MESSAGE-INTEGRITY is
  missing, else 401.  The one exception: a request addressed to us whose MESSAGE-INTEGRITY is too
  short makes the comparison of the digests read past the end of the datagram.\<close>

theorem unauthenticated_datagram_harmless:
  assumes env: "ice_environment E" and i: "i < length (ch_ports s)"
    and new: "get_connection (ch_ports s ! i) addr = None"
    and bad: "\<nexists>u. accepted E (ch_ports s ! i) buf u"
  shows "port_on_read_packet E i buf addr ts s =
    (let pt = ch_ports s ! i in
     case (if validate_fingerprint (env_base E) buf then stun_read (env_base E) StunMessage_new buf else Some None) of
       Some (Some (m, [])) \<Rightarrow>
         if msg_type m \<noteq> STUN_BINDING_REQUEST then Inr s
         else if get_attribute STUN_ATTR_USERNAME m = None \<or> get_attribute STUN_ATTR_MESSAGE_INTEGRITY m = None
         then Inr (emit_datagrams i (error_datagrams E pt addr m 400 (bytes_of ''Bad Request'')) s)
         else if addressed pt m \<and> validate_message_integrity (env_base E) (ice_pwd (pt_ice_params pt)) m = Inl Out_of_bounds
         then Inl Out_of_bounds
         else Inr (emit_datagrams i (error_datagrams E pt addr m 401 (bytes_of ''Unauthorized'')) s)
     | _ \<Rightarrow> Inr s)"
proof -
  let ?pt = "ch_ports s ! i"
  have id: "emit_datagrams i [] s = s" by (simp add: emit_datagrams_def emit_def)
  have run: "port_on_read_packet E i buf addr ts s = res_bind (get_stun_message E ?pt buf addr) (\<lambda>(res, stun_msg, remote_ufrag, out).
         let s1 = emit_datagrams i out s in
         case stun_msg of
           None \<Rightarrow> Inr s1
         | Some m \<Rightarrow> if res \<and> msg_type m = STUN_BINDING_REQUEST
                     then on_unknown_address E i addr m remote_ufrag s1 else Inr s1)"
    using i new by (simp add: port_on_read_packet_def port_of_def)
  show ?thesis
  proof (cases "validate_fingerprint (env_base E) buf")
    case False
    then show ?thesis by (simp add: run get_stun_message_def id)
  next
    case fp: True
    obtain r where r: "stun_read (env_base E) StunMessage_new buf = Some r"
      using byte_codec.stun_read_returns [OF ice_environment.codec [OF env]] by blast
    show ?thesis
    proof (cases "\<exists>m. r = Some (m, []) \<and> msg_type m = STUN_BINDING_REQUEST")
      case True
      then obtain m where m: "r = Some (m, [])" "msg_type m = STUN_BINDING_REQUEST" by blast
      show ?thesis
        using fp r m ice_environment.get_stun_message_refused [OF env fp _ m(2) bad, of addr] by (simp add: run Let_def)
    next
      case False
      then show ?thesis
        using fp r by (auto simp: run get_stun_message_def id Let_def split: option.splits list.splits prod.splits)
    qed
  qed
qed

theorem unauthenticated_datagram_harmless_witness:
  "\<exists>buf. port_on_read_packet env_ref 0 buf (ex_addr 7000) 0 (ex_channel 1000) =
     Inr (emit_datagrams 0 [(ex_addr 7000, error_reply rtc_ref EMPTY_TRANSACTION_ID 400 (bytes_of ''Bad Request''))]
            (ex_channel 1000))"
proof -
  have R: "env_base env_ref = rtc_ref" by (simp add: env_ref_def)
  define m2 where "m2 = add_attribute (fp_attr (fp_value rtc_ref ex_ping)) ex_ping"
  have fp: "msg_wf m2" "validate_fingerprint rtc_ref (msg_bytes m2)"
    unfolding m2_def using ref.fingerprint_valid [OF ex_ping_wf(1)] ex_ping_wf(5) by auto
  have kinds: "list_all kind_ok (msg_attrs m2)"
    using ex_ping_wf(2) by (simp add: m2_def fp_attr_def StunUint32Attribute_def kind_ok_def
        get_attribute_value_type_def stun_attr_types)
  have "msg_type m2 = STUN_BINDING_REQUEST" "msg_transaction_id m2 = EMPTY_TRANSACTION_ID"
    by (simp_all add: m2_def ex_ping_def StunMessage_new_def)
  then obtain m where m: "stun_read rtc_ref StunMessage_new (msg_bytes m2) = Some (Some (m, []))"
      "msg_type m = STUN_BINDING_REQUEST" "msg_transaction_id m = EMPTY_TRANSACTION_ID"
      "msg_attrs m = filter known_attr (msg_attrs m2)"
    using ref.stun_read_bytes [OF fp(1) kinds, of StunMessage_new] by (simp add: STUN_BINDING_REQUEST_def)
  have mi: "get_attribute STUN_ATTR_MESSAGE_INTEGRITY m = None"
    using ex_ping_wf(3) m(4) by (auto simp: get_attribute_def find_None_iff m2_def fp_attr_def
        StunUint32Attribute_def stun_attr_types)
  have "\<nexists>u. accepted env_ref ex_port (msg_bytes m2) u" using m mi by (auto simp: accepted_def R)
  then show ?thesis
    using unauthenticated_datagram_harmless [OF ice_environment_ref, of 0 "ex_channel 1000" "ex_addr 7000" "msg_bytes m2" 0]
      m mi fp(2)
    by (intro exI [of _ "msg_bytes m2"]) (simp add: get_connection_def R error_datagrams_def)
qed

text \<open>C15: An authenticated Binding request with a PRIORITY from an unknown address creates a connection to a
  peer-reflexive candidate with that address, the announced priority, the peer's ufrag and the
  remote password of the channel; the port finds it under the address from then on.\<close>

theorem binding_request_creates_connection:
  assumes env: "ice_environment E" and wf: "ch_wf s" "ch_synced s" and i: "i < length (ch_ports s)"
    and cands: "pt_candidates (ch_ports s ! i) \<noteq> []"
    and new: "get_connection (ch_ports s ! i) addr = None"
    and acc: "accepted E (ch_ports s ! i) buf u"
    and prio: "stun_read (env_base E) StunMessage_new buf = Some (Some (m, []))" "get_attribute STUN_ATTR_PRIORITY m = Some a"
  shows "\<exists>s' c v. port_on_read_packet E i buf addr ts s = Inr s' \<and> ch_wf s' \<and> ch_synced s' \<and>
    ch_heap s (ch_next s) = None \<and> get_connection (ch_ports s' ! i) addr = Some (ch_next s) \<and>
    ch_heap s' (ch_next s) = Some c \<and> uint32_value a = Inr v \<and> cn_remote c = prflx_candidate s v addr u"
proof -
  obtain m0 m' where get: "get_stun_message E (ch_ports s ! i) buf addr = Inr (True, Some m', u, [])"
      "msg_type m' = STUN_BINDING_REQUEST" "msg_attrs m' = msg_attrs m"
    using ice_environment.accepted_message [OF env acc, of addr] prio(1) by (metis option.inject prod.inject)
  have a: "get_attribute STUN_ATTR_PRIORITY m' = Some a" using prio(2) get(3) by (simp add: get_attribute_def)
  obtain v where v: "uint32_value a = Inr v" using ice_environment.parsed_priority [OF env prio] by blast
  obtain s' where s': "on_unknown_address E i addr m' u s = Inr s'" "event_ok s s'"
      "\<forall>a v. get_attribute STUN_ATTR_PRIORITY m' = Some a \<longrightarrow> uint32_value a = Inr v \<longrightarrow>
       (\<exists>c. pt_connections (ch_ports s' ! i) addr = Some (ch_next s) \<and> ch_heap s' (ch_next s) = Some c \<and>
          cn_port c = i \<and> cn_remote c = prflx_candidate s v addr u)"
    using unknown_address_ok [OF env wf i cands new [unfolded get_connection_def] prio(1) get(3), of u] by blast
  have "emit_datagrams i [] s = s" by (simp add: emit_datagrams_def emit_def)
  then have run: "port_on_read_packet E i buf addr ts s = Inr s'"
    using i new get(1,2) s'(1) by (simp add: port_on_read_packet_def port_of_def Let_def)
  have "ch_heap s (ch_next s) = None" using wf(1) by (cases "ch_heap s (ch_next s)") (auto simp: ch_wf_def conn_ok_def)
  then show ?thesis using run s' a v by (auto simp: event_ok_def get_connection_def)
qed

lemma ex_ping_attrs: "filter known_attr (msg_attrs ex_ping) =
    [StunByteStringAttribute_str STUN_ATTR_USERNAME [97, 58, 117], StunUint32Attribute STUN_ATTR_PRIORITY 1853824767]"
  by (simp add: ex_ping_defs known_attr_def get_attribute_value_type_def stun_attr_types)

lemma ex_ping_accepted:
  "\<exists>buf m a. accepted env_ref ex_port buf [117] \<and> stun_read (env_base env_ref) StunMessage_new buf = Some (Some (m, [])) \<and>
     get_attribute STUN_ATTR_PRIORITY m = Some a"
proof -
  have R: "env_base env_ref = rtc_ref" by (simp add: env_ref_def)
  obtain buf m m' where buf: "validate_fingerprint rtc_ref buf" "stun_read rtc_ref StunMessage_new buf = Some (Some (m, []))"
      "msg_type m = msg_type ex_ping" "filter known_attr (msg_attrs ex_ping) = butlast (msg_attrs m)"
      "validate_message_integrity rtc_ref [98] m = Inr (k_integrity_ok, m')"
    using ref.signed_roundtrip [OF ex_ping_wf, of "[98]"] by blast
  obtain x where x: "msg_attrs m = [StunByteStringAttribute_str STUN_ATTR_USERNAME [97, 58, 117],
      StunUint32Attribute STUN_ATTR_PRIORITY 1853824767, x]"
    using buf(4) [unfolded ex_ping_attrs] by (cases "msg_attrs m" rule: rev_cases) auto
  have u: "get_attribute STUN_ATTR_USERNAME m = Some (StunByteStringAttribute_str STUN_ATTR_USERNAME [97, 58, 117])"
    and p: "get_attribute STUN_ATTR_PRIORITY m = Some (StunUint32Attribute STUN_ATTR_PRIORITY 1853824767)"
    by (simp_all add: get_attribute_def x StunByteStringAttribute_str_def copy_bytes_def StunUint32Attribute_def stun_attr_types)
  have str: "get_string (StunByteStringAttribute_str STUN_ATTR_USERNAME [97, 58, 117]) = Inr [97, 58, 117]"
    by (simp add: get_string_def StunByteStringAttribute_str_def copy_bytes_def)
  have mi: "get_attribute STUN_ATTR_MESSAGE_INTEGRITY m \<noteq> None"
    using buf(5) by (auto simp: validate_message_integrity_def get_attribute_def Let_def split: option.splits)
  have ty: "msg_type m = STUN_BINDING_REQUEST" using buf(3) by (simp add: ex_ping_def StunMessage_new_def)
  have "accepted env_ref ex_port buf [117]"
    unfolding accepted_def R using buf(1,2,5) u str mi ty by auto
  then show ?thesis using buf(2) p R by auto
qed

theorem binding_request_creates_connection_witness:
  "\<exists>buf s' c v. port_on_read_packet env_ref 0 buf (ex_addr 7000) 0 (ex_channel 1000) = Inr s' \<and>
     ch_heap s' 3 = Some c \<and> cn_remote c = prflx_candidate (ex_channel 1000) v (ex_addr 7000) [117]"
proof -
  obtain buf m a where b: "accepted env_ref ex_port buf [117]" "stun_read (env_base env_ref) StunMessage_new buf = Some (Some (m, []))"
      "get_attribute STUN_ATTR_PRIORITY m = Some a"
    using ex_ping_accepted by blast
  have "accepted env_ref (ch_ports (ex_channel 1000) ! 0) buf [117]" using b(1) by simp
  from binding_request_creates_connection [OF ice_environment_ref ex_channel_ok _ _ _ this b(2,3), of "ex_addr 7000" 0]
  show ?thesis by (auto simp: get_connection_def)
qed

text \<open>The destructor of a channel deletes every connection exactly once and misbehaves nowhere, if
  pinging has started or no connection has remote credentials; nothing is left on the heap.\<close>

theorem channel_destruct_frees_all:
  assumes "ch_wf s" "ch_start_pinging s \<or> (\<forall>c\<in>ran (ch_heap s). \<not> has_creds c)"
  shows "\<exists>s'. IceTransportChannel_destruct E s = Inr s' \<and> ch_heap s' = Map.empty \<and> ch_ports s' = []"
  by (rule teardown [OF assms])

theorem channel_destruct_frees_all_witness:
  "\<exists>s'. IceTransportChannel_destruct env_ref (ex_channel 1000) = Inr s' \<and> ch_heap s' = Map.empty \<and> ch_ports s' = []"
  using channel_destruct_frees_all [OF ex_channel_ok(1), of 1000 env_ref] by simp

end
