(* ===== verification/Ice_Agent.thy ===== *)
theory Ice_Agent
  imports Ice_Channel
begin

text \<open>
  \<^verbatim>\<open>IceAgent\<close> (\<^verbatim>\<open>src/ice/ice_agent.*\<close>): the channels of a peer connection, found by transport name and
  component, and the aggregation of their states.

  The agent's slots run while a channel is still in the middle of a handler, so they see the state
  the channel has published by then.  The model replays the events a channel operation emitted, in
  order; \<open>ac_seen\<close> is the published state as of the last replayed event.
\<close>

subsection \<open>State\<close>

record agent_channel =
  ac_name :: bytes
  ac_channel :: ice_channel
  ac_seen :: ice_transport_state

datatype agent_event =
    Ag_candidate_allocate_done bytes ice_component "candidate list"
  | Ag_ice_state ice_transport_state

record ice_agent =
  ag_channels :: "agent_channel list"
  ag_ice_state :: ice_transport_state
  ag_out :: "agent_event list"

definition IceAgent_new :: ice_agent where
  "IceAgent_new = \<lparr> ag_channels = [], ag_ice_state = k_new, ag_out = [] \<rparr>"

subsection \<open>Aggregation\<close>

definition state_count :: "ice_transport_state \<Rightarrow> ice_transport_state list \<Rightarrow> nat" where
  "state_count st states = length (filter (\<lambda>x. x = st) states)"

definition aggregate_ice_state :: "ice_transport_state list \<Rightarrow> ice_transport_state" where
  "aggregate_ice_state states =
     (let total_ice = length states in
      if state_count k_failed states > 0 then k_failed
      else if state_count k_disconnected states > 0 then k_disconnected
      else if state_count k_new states + state_count k_closed states = total_ice then k_new
      else if state_count k_new states + state_count k_checking states > 0 then k_checking
      else if state_count k_completed states + state_count k_closed states = total_ice then k_completed
      else if state_count k_connected states + state_count k_completed states + state_count k_closed states = total_ice
        then k_connected
      else k_new)"

definition agent_update_state :: "ice_agent \<Rightarrow> ice_agent" where
  "agent_update_state ag =
     (let ice_state = aggregate_ice_state (map ac_seen (ag_channels ag)) in
      if ag_ice_state ag \<noteq> ice_state
      then ag\<lparr> ag_ice_state := ice_state,
               ag_out := ag_out ag
                 @ (if ag_ice_state ag = k_checking \<and> ice_state = k_completed then [Ag_ice_state k_connected] else [])
                 @ [Ag_ice_state ice_state] \<rparr>
      else ag)"

subsection \<open>Channels\<close>

definition is_channel :: "bytes \<Rightarrow> ice_component \<Rightarrow> agent_channel \<Rightarrow> bool" where
  "is_channel name component ac \<longleftrightarrow> name = ac_name ac \<and> component = ch_component (ac_channel ac)"

definition get_channel :: "bytes \<Rightarrow> ice_component \<Rightarrow> ice_agent \<Rightarrow> agent_channel option" where
  "get_channel name component ag = find (is_channel name component) (ag_channels ag)"

definition create_channel :: "bytes \<Rightarrow> ice_component \<Rightarrow> ice_agent \<Rightarrow> ice_agent" where
  "create_channel name component ag =
     (if get_channel name component ag \<noteq> None then ag
      else ag\<lparr> ag_channels := ag_channels ag @
             [\<lparr> ac_name = name, ac_channel = IceTransportChannel_new component, ac_seen = k_new \<rparr>] \<rparr>)"

subsection \<open>Events of the channels\<close>

definition see_state :: "nat \<Rightarrow> ice_transport_state \<Rightarrow> ice_agent \<Rightarrow> ice_agent" where
  "see_state i st ag = ag\<lparr> ag_channels := (ag_channels ag)[i := (ag_channels ag ! i)\<lparr> ac_seen := st \<rparr>] \<rparr>"

definition agent_on_event :: "nat \<Rightarrow> channel_event \<Rightarrow> ice_agent \<Rightarrow> ice_agent" where
  "agent_on_event i ev ag = (case ev of
      Ev_candidate_allocate_done cs \<Rightarrow>
        ag\<lparr> ag_out := ag_out ag @ [Ag_candidate_allocate_done (ac_name (ag_channels ag ! i))
              (ch_component (ac_channel (ag_channels ag ! i))) cs] \<rparr>
    | Ev_receiving_state_change _ \<Rightarrow> agent_update_state ag
    | Ev_writable_state_change _ \<Rightarrow> agent_update_state ag
    | Ev_ice_state_change st \<Rightarrow> agent_update_state (see_state i st ag)
    | _ \<Rightarrow> ag)"

text \<open>The channel with index \<open>i\<close> moves to the state \<open>s'\<close>: its new events reach the agent.\<close>

definition agent_replay :: "nat \<Rightarrow> ice_channel \<Rightarrow> ice_agent \<Rightarrow> ice_agent" where
  "agent_replay i s' ag =
     (let s = ac_channel (ag_channels ag ! i)
      in fold (agent_on_event i) (drop (length (ch_out s)) (ch_out s'))
           (ag\<lparr> ag_channels := (ag_channels ag)[i := (ag_channels ag ! i)\<lparr> ac_channel := s' \<rparr>] \<rparr>))"

fun channel_index :: "bytes \<Rightarrow> ice_component \<Rightarrow> agent_channel list \<Rightarrow> nat option" where
  "channel_index name component [] = None"
| "channel_index name component (ac # acs) =
     (if is_channel name component ac then Some 0 else map_option Suc (channel_index name component acs))"

definition agent_set_ice_params :: "bytes \<Rightarrow> ice_component \<Rightarrow> ice_parameters \<Rightarrow> ice_agent \<Rightarrow> ice_agent" where
  "agent_set_ice_params name component params ag =
     (case channel_index name component (ag_channels ag) of
        None \<Rightarrow> ag
      | Some i \<Rightarrow> agent_replay i (set_ice_params params (ac_channel (ag_channels ag ! i))) ag)"

definition agent_set_remote_ice_params ::
    "ice_env \<Rightarrow> bytes \<Rightarrow> ice_component \<Rightarrow> ice_parameters \<Rightarrow> ice_agent \<Rightarrow> ice_agent res" where
  "agent_set_remote_ice_params E name component params ag =
     (case channel_index name component (ag_channels ag) of
        None \<Rightarrow> Inr ag
      | Some i \<Rightarrow> res_bind (set_remote_ice_params E params (ac_channel (ag_channels ag ! i))) (\<lambda>s'.
          Inr (agent_replay i s' ag)))"

definition agent_gathering_candidate ::
    "ice_env \<Rightarrow> int \<Rightarrow> int \<Rightarrow> (socket_calls \<times> addr_family \<times> bytes) list \<Rightarrow> ice_agent \<Rightarrow> ice_agent" where
  "agent_gathering_candidate E min_port max_port nets ag =
     fold (\<lambda>i ag. agent_replay i (gathering_candidate E min_port max_port nets (ac_channel (ag_channels ag ! i))) ag)
       [0..<length (ag_channels ag)] ag"

text \<open>The destructor deletes the channels in order.\<close>

definition IceAgent_destruct :: "ice_env \<Rightarrow> ice_agent \<Rightarrow> unit res" where
  "IceAgent_destruct E ag =
     res_fold (\<lambda>ac u. res_bind (IceTransportChannel_destruct E (ac_channel ac)) (\<lambda>_. Inr u)) (ag_channels ag) ()"

subsection \<open>The aggregation, by membership\<close>

definition ice_state_spec :: "ice_transport_state set \<Rightarrow> ice_transport_state" where
  "ice_state_spec S =
     (if k_failed \<in> S then k_failed
      else if k_disconnected \<in> S then k_disconnected
      else if S \<subseteq> {k_new, k_closed} then k_new
      else if k_new \<in> S \<or> k_checking \<in> S then k_checking
      else if S \<subseteq> {k_completed, k_closed} then k_completed
      else k_connected)"

lemma state_count_pos: "state_count st xs > 0 \<longleftrightarrow> st \<in> set xs"
  by (auto simp: state_count_def filter_empty_conv)

lemma length_filter_all: "length (filter P xs) = length xs \<longleftrightarrow> (\<forall>x\<in>set xs. P x)"
  by (metis filter_True length_filter_less less_irrefl)

lemma state_count_two:
  "a \<noteq> b \<Longrightarrow> state_count a xs + state_count b xs = length (filter (\<lambda>x. x = a \<or> x = b) xs)"
  by (induction xs) (auto simp: state_count_def)

lemma state_count_three:
  "a \<noteq> b \<Longrightarrow> a \<noteq> c \<Longrightarrow> b \<noteq> c \<Longrightarrow>
     state_count a xs + state_count b xs + state_count c xs = length (filter (\<lambda>x. x = a \<or> x = b \<or> x = c) xs)"
  by (induction xs) (auto simp: state_count_def)

lemma aggregate_membership: "aggregate_ice_state xs = ice_state_spec (set xs)"
proof -
  have 1: "state_count a xs + state_count b xs = length xs \<longleftrightarrow> set xs \<subseteq> {a, b}" if "a \<noteq> b" for a b
    unfolding state_count_two [OF that] length_filter_all by blast
  have 2: "state_count k_connected xs + state_count k_completed xs + state_count k_closed xs = length xs \<longleftrightarrow>
      set xs \<subseteq> {k_connected, k_completed, k_closed}"
    by (subst state_count_three) (auto simp: length_filter_all)
  have pos: "0 < state_count k_new xs + state_count k_checking xs \<longleftrightarrow> k_new \<in> set xs \<or> k_checking \<in> set xs"
    using state_count_pos by (metis add_gr_0)
  have last: "set xs \<subseteq> {k_connected, k_completed, k_closed}"
    if "k_failed \<notin> set xs" "k_disconnected \<notin> set xs" "k_new \<notin> set xs" "k_checking \<notin> set xs"
  proof
    fix x assume "x \<in> set xs"
    with that show "x \<in> {k_connected, k_completed, k_closed}" by (cases x) auto
  qed
  show ?thesis
    unfolding aggregate_ice_state_def ice_state_spec_def Let_def state_count_pos pos 2
    using 1 [of k_new k_closed] 1 [of k_completed k_closed] last by simp
qed

subsection \<open>What the agent publishes\<close>

definition agent_states :: "ice_agent \<Rightarrow> ice_transport_state list" where
  "agent_states ag = List.map_filter (\<lambda>e. case e of Ag_ice_state st \<Rightarrow> Some st | _ \<Rightarrow> None) (ag_out ag)"

text \<open>The last announced state is the current one, no state is announced twice in a row, and every
  channel's state has been seen.\<close>

definition agent_inv :: "ice_agent \<Rightarrow> bool" where
  "agent_inv ag \<longleftrightarrow> ag_ice_state ag = last (k_new # agent_states ag) \<and>
     successively (\<noteq>) (k_new # agent_states ag) \<and>
     distinct (map (\<lambda>ac. (ac_name ac, ch_component (ac_channel ac))) (ag_channels ag))"

lemma agent_states_append:
  "agent_states (ag\<lparr> ag_ice_state := x, ag_out := ag_out ag @ es \<rparr>) =
     agent_states ag @ List.map_filter (\<lambda>e. case e of Ag_ice_state st \<Rightarrow> Some st | _ \<Rightarrow> None) es"
  by (simp add: agent_states_def List.map_filter_def)

lemma successively_snoc:
  "successively P (xs @ [y]) \<longleftrightarrow> successively P xs \<and> (xs = [] \<or> P (last xs) y)"
  by (auto simp: successively_append_iff)

lemma agent_update_inv:
  assumes "agent_inv ag"
  shows "agent_inv (agent_update_state ag)"
proof -
  define st where "st = aggregate_ice_state (map ac_seen (ag_channels ag))"
  let ?ex = "if ag_ice_state ag = k_checking \<and> st = k_completed then [k_connected] else []"
  show ?thesis
  proof (cases "ag_ice_state ag = st")
    case True
    then show ?thesis using assms by (simp add: agent_update_state_def st_def Let_def)
  next
    case False
    have out: "agent_states (agent_update_state ag) = agent_states ag @ ?ex @ [st]"
      and st: "ag_ice_state (agent_update_state ag) = st" "ag_channels (agent_update_state ag) = ag_channels ag"
      using False by (simp_all add: agent_update_state_def st_def [symmetric] Let_def agent_states_append List.map_filter_def)
    have l: "last (k_new # agent_states ag) = ag_ice_state ag" and su: "successively (\<noteq>) (k_new # agent_states ag)"
      using assms by (simp_all add: agent_inv_def)
    have "successively (\<noteq>) ((k_new # agent_states ag) @ ?ex)"
      using l su successively_snoc [of "(\<noteq>)" "k_new # agent_states ag" k_connected] by simp
    moreover have "last ((k_new # agent_states ag) @ ?ex) \<noteq> st" using l False by auto
    ultimately have "successively (\<noteq>) (((k_new # agent_states ag) @ ?ex) @ [st])"
      unfolding successively_snoc by simp
    then show ?thesis using assms by (simp add: agent_inv_def out st)
  qed
qed

lemma map_list_update_same: "i < length xs \<Longrightarrow> f y = f (xs ! i) \<Longrightarrow> map f (xs[i := y]) = map f xs"
  by (metis list_update_id map_update)

lemma see_state_inv: "agent_inv ag \<Longrightarrow> i < length (ag_channels ag) \<Longrightarrow> agent_inv (see_state i st ag)"
  by (simp add: agent_inv_def see_state_def agent_states_def map_list_update_same)

lemma agent_event_len [simp]: "length (ag_channels (agent_on_event i ev ag)) = length (ag_channels ag)"
  by (simp add: agent_on_event_def agent_update_state_def see_state_def Let_def split: channel_event.splits)

lemma agent_event_inv:
  assumes "agent_inv ag" "i < length (ag_channels ag)"
  shows "agent_inv (agent_on_event i ev ag)"
  using agent_update_inv [OF assms(1)] agent_update_inv [OF see_state_inv [OF assms]] assms(1)
  by (auto simp: agent_on_event_def split: channel_event.splits)
    (simp add: agent_inv_def agent_states_def List.map_filter_def)

lemma agent_replay_inv:
  assumes inv: "agent_inv ag" and i: "i < length (ag_channels ag)"
    and comp: "ch_component s' = ch_component (ac_channel (ag_channels ag ! i))"
  shows "agent_inv (agent_replay i s' ag)"
proof -
  have "agent_inv (fold (agent_on_event i) es ag')" if "agent_inv ag'" "i < length (ag_channels ag')" for es ag'
    using that by (induction es arbitrary: ag') (simp_all add: agent_event_inv)
  moreover have "agent_inv (ag\<lparr> ag_channels := (ag_channels ag)[i := (ag_channels ag ! i)\<lparr> ac_channel := s' \<rparr>] \<rparr>)"
    using inv i comp by (simp add: agent_inv_def agent_states_def map_list_update_same)
  ultimately show ?thesis using i by (simp add: agent_replay_def Let_def)
qed

subsection \<open>Runs of the agent\<close>

inductive agent_reaches :: "ice_agent \<Rightarrow> bool" where
  start: "agent_reaches IceAgent_new"
| create: "agent_reaches ag \<Longrightarrow> agent_reaches (create_channel name component ag)"
| move: "agent_reaches ag \<Longrightarrow> i < length (ag_channels ag) \<Longrightarrow>
    ch_component s' = ch_component (ac_channel (ag_channels ag ! i)) \<Longrightarrow> agent_reaches (agent_replay i s' ag)"

lemma get_channel_None:
  "get_channel name component ag = None \<longleftrightarrow>
     (name, component) \<notin> set (map (\<lambda>ac. (ac_name ac, ch_component (ac_channel ac))) (ag_channels ag))"
  by (auto simp: get_channel_def find_None_iff is_channel_def)

lemma create_channel_inv: "agent_inv ag \<Longrightarrow> agent_inv (create_channel name component ag)"
  using get_channel_None [of name component ag]
  by (auto simp: create_channel_def agent_inv_def agent_states_def IceTransportChannel_new_def)

lemma agent_reaches_inv: "agent_reaches ag \<Longrightarrow> agent_inv ag"
proof (induction rule: agent_reaches.induct)
  case start
  then show ?case by (simp add: agent_inv_def IceAgent_new_def agent_states_def List.map_filter_def)
next
  case (create ag name component)
  then show ?case by (simp add: create_channel_inv)
next
  case (move ag i s')
  then show ?case by (simp add: agent_replay_inv)
qed

subsection \<open>Properties\<close>

text \<open>The counting in \<^verbatim>\<open>_update_state\<close> computes this: failed if a channel failed, else disconnected if one
  is disconnected, else new if all are new or closed, else checking if one is new or checking, else
  completed if all are completed or closed, else connected; the final fall-through is never taken.\<close>

theorem agent_state_aggregation:
  "aggregate_ice_state (map ac_seen (ag_channels ag)) = ice_state_spec (ac_seen ` set (ag_channels ag))"
  by (simp add: aggregate_membership)

text \<open>Whatever the channels do, the agent never announces the same ICE state twice in a row, the last
  announcement is its current state, and no two of its channels have the same transport name and
  component.\<close>

theorem agent_announcements:
  assumes "agent_reaches ag"
  shows "ag_ice_state ag = last (k_new # agent_states ag) \<and> successively (\<noteq>) (k_new # agent_states ag) \<and>
    distinct (map (\<lambda>ac. (ac_name ac, ch_component (ac_channel ac))) (ag_channels ag))"
  using agent_reaches_inv [OF assms] by (simp add: agent_inv_def)

definition ex_agent :: ice_agent where
  "ex_agent = agent_replay 0 ((IceTransportChannel_new RTP)\<lparr> ch_state := k_checking, ch_out := [Ev_ice_state_change k_checking] \<rparr>)
     (create_channel [97] RTP IceAgent_new)"

theorem agent_announcements_witness: "ag_ice_state ex_agent = last (k_new # agent_states ex_agent)"
proof -
  have "ag_channels (create_channel [97] RTP IceAgent_new) =
      [\<lparr> ac_name = [97], ac_channel = IceTransportChannel_new RTP, ac_seen = k_new \<rparr>]"
    by (simp add: create_channel_def get_channel_def IceAgent_new_def)
  then have "agent_reaches ex_agent"
    unfolding ex_agent_def by (intro agent_reaches.move agent_reaches.create agent_reaches.start) simp_all
  then show ?thesis using agent_announcements by blast
qed

end
