(* ===== verification/Srtp.thy ===== *)
theory Srtp
  imports Rtc_Base
begin

text \<open>
  \<^verbatim>\<open>SrtpSession\<close> and \<^verbatim>\<open>SrtpTransport\<close> (\<^verbatim>\<open>src/pc/srtp_session.*\<close>, \<^verbatim>\<open>src/pc/srtp_transport.*\<close>).

  libsrtp is a parameter, a record of its calls; \<open>'c\<close> is its opaque context.  Encryption and
  decryption work in place in a buffer of the caller, so a result longer than the buffer is
  \<open>Out_of_bounds\<close>.  The reference count of the library is shared by all sessions of the process;
  \<open>sg_up\<close> records whether the library is initialised.
\<close>

subsection \<open>libsrtp\<close>

datatype srtp_direction = ssrc_any_outbound | ssrc_any_inbound

record srtp_crypto_policy =
  cipher_key_len :: nat
  auth_tag_len :: nat

record 'c srtp_lib =
  srtp_init :: "nat \<Rightarrow> bool"                     \<comment> \<open>whether the n-th call succeeds\<close>
  srtp_install_event_handler :: "nat \<Rightarrow> bool"
  policy_for_rtp :: "int \<Rightarrow> srtp_crypto_policy option"
  policy_for_rtcp :: "int \<Rightarrow> srtp_crypto_policy option"
  srtp_create :: "srtp_direction \<Rightarrow> int \<Rightarrow> bytes \<Rightarrow> 'c option"
  srtp_update :: "srtp_direction \<Rightarrow> int \<Rightarrow> bytes \<Rightarrow> 'c \<Rightarrow> 'c option"
  srtp_protect :: "'c \<Rightarrow> bytes \<Rightarrow> bytes option \<times> 'c"
  srtp_protect_rtcp :: "'c \<Rightarrow> bytes \<Rightarrow> bytes option \<times> 'c"
  srtp_unprotect :: "'c \<Rightarrow> bytes \<Rightarrow> bytes option \<times> 'c"
  srtp_unprotect_rtcp :: "'c \<Rightarrow> bytes \<Rightarrow> bytes option \<times> 'c"

record srtp_global =
  g_libsrtp_usage_count :: int
  sg_up :: bool
  sg_tick :: nat

definition increment_libsrtp_usage_count_and_maybe_init :: "'c srtp_lib \<Rightarrow> srtp_global \<Rightarrow> bool \<times> srtp_global" where
  "increment_libsrtp_usage_count_and_maybe_init L g =
     (if g_libsrtp_usage_count g = 0 then
        (let g1 = g\<lparr> sg_tick := Suc (sg_tick g) \<rparr> in
         if \<not> srtp_init L (sg_tick g) then (False, g1)
         else let g2 = g1\<lparr> sg_up := True \<rparr> in
           if \<not> srtp_install_event_handler L (sg_tick g) then (False, g2)
           else (True, g2\<lparr> g_libsrtp_usage_count := g_libsrtp_usage_count g2 + 1 \<rparr>))
      else (True, g\<lparr> g_libsrtp_usage_count := g_libsrtp_usage_count g + 1 \<rparr>))"

definition decrement_libsrtp_usage_count_and_maybe_deinit :: "srtp_global \<Rightarrow> srtp_global" where
  "decrement_libsrtp_usage_count_and_maybe_deinit g =
     (let n = g_libsrtp_usage_count g - 1
      in g\<lparr> g_libsrtp_usage_count := n, sg_up := (if n = 0 then False else sg_up g) \<rparr>)"

subsection \<open>One direction\<close>

record 'c srtp_session =
  ss_session :: "'c option"
  ss_inited :: bool
  ss_rtp_auth_tag_len :: nat
  ss_rtcp_auth_tag_len :: nat

definition SrtpSession_new :: "'c srtp_session" where
  "SrtpSession_new = \<lparr> ss_session = None, ss_inited = False, ss_rtp_auth_tag_len = 0, ss_rtcp_auth_tag_len = 0 \<rparr>"

definition SrtpSession_destruct :: "'c srtp_session \<Rightarrow> srtp_global \<Rightarrow> srtp_global" where
  "SrtpSession_destruct ss g = (if ss_inited ss then decrement_libsrtp_usage_count_and_maybe_deinit g else g)"

definition do_set_key ::
    "'c srtp_lib \<Rightarrow> srtp_direction \<Rightarrow> int \<Rightarrow> bytes \<Rightarrow> 'c srtp_session \<Rightarrow> bool \<times> 'c srtp_session" where
  "do_set_key L type cs key ss =
     (case (policy_for_rtp L cs, policy_for_rtcp L cs) of
        (Some rtp, Some rtcp) \<Rightarrow>
          if length key \<noteq> cipher_key_len rtp then (False, ss)
          else (case (case ss_session ss of None \<Rightarrow> srtp_create L type cs key | Some c \<Rightarrow> srtp_update L type cs key c) of
                  None \<Rightarrow> (False, ss)
                | Some c \<Rightarrow> (True, ss\<lparr> ss_session := Some c, ss_rtp_auth_tag_len := auth_tag_len rtp,
                                      ss_rtcp_auth_tag_len := auth_tag_len rtcp \<rparr>))
      | _ \<Rightarrow> (False, ss))"

definition set_key :: "'c srtp_lib \<Rightarrow> srtp_direction \<Rightarrow> int \<Rightarrow> bytes \<Rightarrow> 'c srtp_session \<Rightarrow> srtp_global
    \<Rightarrow> bool \<times> 'c srtp_session \<times> srtp_global" where
  "set_key L type cs key ss g =
     (if ss_session ss \<noteq> None then (False, ss, g)
      else let (ok, g1) = increment_libsrtp_usage_count_and_maybe_init L g in
        if ok then (let (r, ss1) = do_set_key L type cs key (ss\<lparr> ss_inited := True \<rparr>) in (r, ss1, g1))
        else (False, ss, g1))"

definition update_key :: "'c srtp_lib \<Rightarrow> srtp_direction \<Rightarrow> int \<Rightarrow> bytes \<Rightarrow> 'c srtp_session \<Rightarrow> bool \<times> 'c srtp_session" where
  "update_key L type cs key ss = (if ss_session ss = None then (False, ss) else do_set_key L type cs key ss)"

definition set_send where "set_send L = set_key L ssrc_any_outbound"
definition update_send where "update_send L = update_key L ssrc_any_outbound"
definition set_recv where "set_recv L = set_key L ssrc_any_inbound"
definition update_recv where "update_recv L = update_key L ssrc_any_inbound"

text \<open>In place: the output replaces the buffer of \<open>cap\<close> bytes; \<open>None\<close> is the answer \<^verbatim>\<open>false\<close>.\<close>

definition in_place :: "('c \<Rightarrow> bytes \<Rightarrow> bytes option \<times> 'c) \<Rightarrow> nat \<Rightarrow> bytes \<Rightarrow> 'c \<Rightarrow> 'c srtp_session
    \<Rightarrow> (bytes option \<times> 'c srtp_session) res" where
  "in_place call cap p c ss = (case call c p of (r, c') \<Rightarrow>
     (case r of Some out \<Rightarrow> if length out \<le> cap then Inr (Some out, ss\<lparr> ss_session := Some c' \<rparr>) else Inl Out_of_bounds
      | None \<Rightarrow> Inr (None, ss\<lparr> ss_session := Some c' \<rparr>)))"

definition session_unprotect_rtp :: "'c srtp_lib \<Rightarrow> bytes \<Rightarrow> 'c srtp_session \<Rightarrow> (bytes option \<times> 'c srtp_session) res" where
  "session_unprotect_rtp L p ss = (case ss_session ss of None \<Rightarrow> Inr (None, ss)
     | Some c \<Rightarrow> in_place (srtp_unprotect L) (length p) p c ss)"

definition session_unprotect_rtcp :: "'c srtp_lib \<Rightarrow> bytes \<Rightarrow> 'c srtp_session \<Rightarrow> (bytes option \<times> 'c srtp_session) res" where
  "session_unprotect_rtcp L p ss = (case ss_session ss of None \<Rightarrow> Inr (None, ss)
     | Some c \<Rightarrow> in_place (srtp_unprotect_rtcp L) (length p) p c ss)"

definition session_protect_rtp :: "'c srtp_lib \<Rightarrow> bytes \<Rightarrow> nat \<Rightarrow> 'c srtp_session \<Rightarrow> (bytes option \<times> 'c srtp_session) res" where
  "session_protect_rtp L p max_len ss = (case ss_session ss of None \<Rightarrow> Inr (None, ss)
     | Some c \<Rightarrow> if max_len < length p + ss_rtp_auth_tag_len ss then Inr (None, ss)
                 else in_place (srtp_protect L) max_len p c ss)"

text \<open>The length check of \<^verbatim>\<open>protect_rtcp\<close> uses the tag length of RTP.\<close>

definition session_protect_rtcp :: "'c srtp_lib \<Rightarrow> bytes \<Rightarrow> nat \<Rightarrow> 'c srtp_session \<Rightarrow> (bytes option \<times> 'c srtp_session) res" where
  "session_protect_rtcp L p max_len ss = (case ss_session ss of None \<Rightarrow> Inr (None, ss)
     | Some c \<Rightarrow> if max_len < length p + ss_rtp_auth_tag_len ss + 4 then Inr (None, ss)
                 else in_place (srtp_protect_rtcp L) max_len p c ss)"

text \<open>What \<^verbatim>\<open>get_auth_tag_len\<close> leaves in two variables that were 0.\<close>

definition get_auth_tag_len :: "'c srtp_session \<Rightarrow> nat \<times> nat" where
  "get_auth_tag_len ss = (if ss_session ss = None then (0, 0) else (ss_rtp_auth_tag_len ss, ss_rtcp_auth_tag_len ss))"

subsection \<open>Both directions\<close>

record 'c srtp_transport =
  st_rtcp_mux_enabled :: bool
  st_send :: "'c srtp_session option"
  st_recv :: "'c srtp_session option"

definition SrtpTransport_new :: "bool \<Rightarrow> 'c srtp_transport" where
  "SrtpTransport_new mux = \<lparr> st_rtcp_mux_enabled = mux, st_send = None, st_recv = None \<rparr>"

definition destruct_session :: "'c srtp_session option \<Rightarrow> srtp_global \<Rightarrow> srtp_global" where
  "destruct_session os g = (case os of None \<Rightarrow> g | Some ss \<Rightarrow> SrtpSession_destruct ss g)"

definition reset_params :: "'c srtp_transport \<Rightarrow> srtp_global \<Rightarrow> 'c srtp_transport \<times> srtp_global" where
  "reset_params st g = (st\<lparr> st_send := None, st_recv := None \<rparr>,
     destruct_session (st_recv st) (destruct_session (st_send st) g))"

definition create_srtp_session :: "'c srtp_transport \<Rightarrow> srtp_global \<Rightarrow> 'c srtp_transport \<times> srtp_global" where
  "create_srtp_session st g = (st\<lparr> st_send := Some SrtpSession_new, st_recv := Some SrtpSession_new \<rparr>,
     destruct_session (st_recv st) (destruct_session (st_send st) g))"

definition is_srtp_active :: "'c srtp_transport \<Rightarrow> bool" where
  "is_srtp_active st \<longleftrightarrow> st_recv st \<noteq> None \<and> st_send st \<noteq> None"

definition set_rtp_params :: "'c srtp_lib \<Rightarrow> int \<Rightarrow> bytes \<Rightarrow> int \<Rightarrow> bytes \<Rightarrow> 'c srtp_transport \<Rightarrow> srtp_global
    \<Rightarrow> (bool \<times> 'c srtp_transport \<times> srtp_global) res" where
  "set_rtp_params L send_cs send_key recv_cs recv_key st g =
     (let new_session = (st_send st = None);
          (st1, g1) = (if new_session then create_srtp_session st g else (st, g))
      in case st_send st1 of None \<Rightarrow> Inl Null_deref | Some s \<Rightarrow>
        (let (ret, s', g2) = (if new_session then set_send L send_cs send_key s g1
                              else (case update_send L send_cs send_key s of (r, s') \<Rightarrow> (r, s', g1)));
             st2 = st1\<lparr> st_send := Some s' \<rparr>
         in if \<not> ret then (case reset_params st2 g2 of (st3, g3) \<Rightarrow> Inr (False, st3, g3))
            else case st_recv st2 of None \<Rightarrow> Inl Null_deref | Some r \<Rightarrow>
              (let (ret2, r', g3) = (if new_session then set_recv L recv_cs recv_key r g2
                                     else (case update_recv L recv_cs recv_key r of (b, r') \<Rightarrow> (b, r', g2)));
                   st3 = st2\<lparr> st_recv := Some r' \<rparr>
               in if \<not> ret2 then (case reset_params st3 g3 of (st4, g4) \<Rightarrow> Inr (False, st4, g4))
                  else Inr (True, st3, g3))))"

definition with_session :: "('c srtp_session \<Rightarrow> (bytes option \<times> 'c srtp_session) res) \<Rightarrow> 'c srtp_session option
    \<Rightarrow> (bytes option \<times> 'c srtp_session option) res" where
  "with_session f os = (case os of None \<Rightarrow> Inl Null_deref
     | Some ss \<Rightarrow> res_bind (f ss) (\<lambda>(r, ss'). Inr (r, Some ss')))"

definition unprotect_rtp :: "'c srtp_lib \<Rightarrow> bytes \<Rightarrow> 'c srtp_transport \<Rightarrow> (bytes option \<times> 'c srtp_transport) res" where
  "unprotect_rtp L p st = (if \<not> is_srtp_active st then Inr (None, st)
     else res_bind (with_session (session_unprotect_rtp L p) (st_recv st)) (\<lambda>(r, s). Inr (r, st\<lparr> st_recv := s \<rparr>)))"

definition unprotect_rtcp :: "'c srtp_lib \<Rightarrow> bytes \<Rightarrow> 'c srtp_transport \<Rightarrow> (bytes option \<times> 'c srtp_transport) res" where
  "unprotect_rtcp L p st = (if \<not> is_srtp_active st then Inr (None, st)
     else res_bind (with_session (session_unprotect_rtcp L p) (st_recv st)) (\<lambda>(r, s). Inr (r, st\<lparr> st_recv := s \<rparr>)))"

definition protect_rtp :: "'c srtp_lib \<Rightarrow> bytes \<Rightarrow> nat \<Rightarrow> 'c srtp_transport \<Rightarrow> (bytes option \<times> 'c srtp_transport) res" where
  "protect_rtp L p max_len st = (if \<not> is_srtp_active st then Inr (None, st)
     else res_bind (with_session (session_protect_rtp L p max_len) (st_send st)) (\<lambda>(r, s). Inr (r, st\<lparr> st_send := s \<rparr>)))"

definition protect_rtcp :: "'c srtp_lib \<Rightarrow> bytes \<Rightarrow> nat \<Rightarrow> 'c srtp_transport \<Rightarrow> (bytes option \<times> 'c srtp_transport) res" where
  "protect_rtcp L p max_len st = (if \<not> is_srtp_active st then Inr (None, st)
     else res_bind (with_session (session_protect_rtcp L p max_len) (st_send st)) (\<lambda>(r, s). Inr (r, st\<lparr> st_send := s \<rparr>)))"

definition get_send_auth_tag_len :: "'c srtp_transport \<Rightarrow> nat \<times> nat" where
  "get_send_auth_tag_len st = (case st_send st of None \<Rightarrow> (0, 0) | Some ss \<Rightarrow> get_auth_tag_len ss)"

lemma set_rtp_params_new:
  assumes "st_send st = None" "st_recv st = None"
    and "set_send L cs k SrtpSession_new g = (b1, s1, g1)" "set_recv L cs' k' SrtpSession_new g1 = (b2, s2, g2)"
  shows "set_rtp_params L cs k cs' k' st g = Inr (
    if \<not> b1 then (False, reset_params (st\<lparr> st_send := Some s1, st_recv := Some SrtpSession_new \<rparr>) g1)
    else if \<not> b2 then (False, reset_params (st\<lparr> st_send := Some s1, st_recv := Some s2 \<rparr>) g2)
    else (True, st\<lparr> st_send := Some s1, st_recv := Some s2 \<rparr>, g2))"
  using assms by (simp add: set_rtp_params_def create_srtp_session_def destruct_session_def Let_def reset_params_def)

subsection \<open>What the code relies on\<close>

text \<open>A session stores the tag lengths of its context (\<open>rt\<close> for RTP, \<open>rc\<close> for RTCP).\<close>

definition session_ok :: "('c \<Rightarrow> nat) \<Rightarrow> ('c \<Rightarrow> nat) \<Rightarrow> 'c srtp_session \<Rightarrow> bool" where
  "session_ok rt rc ss \<longleftrightarrow> (\<forall>c. ss_session ss = Some c \<longrightarrow> ss_rtp_auth_tag_len ss = rt c \<and>
     ss_rtcp_auth_tag_len ss = rc c \<and> rt c \<le> rc c)"

text \<open>Both sessions of a transport exist together, with a context each.\<close>

definition transport_ok :: "('c \<Rightarrow> nat) \<Rightarrow> ('c \<Rightarrow> nat) \<Rightarrow> 'c srtp_transport \<Rightarrow> bool" where
  "transport_ok rt rc st \<longleftrightarrow> (st_send st = None \<longleftrightarrow> st_recv st = None) \<and>
     (\<forall>ss. st_send st = Some ss \<or> st_recv st = Some ss \<longrightarrow> session_ok rt rc ss \<and> ss_session ss \<noteq> None \<and> ss_inited ss)"

text \<open>
  The documented behaviour of libsrtp: a context carries the tag lengths of its profile, protecting
  appends at most a tag (for RTCP also the index word), unprotecting never lengthens a packet, and
  every profile has an RTCP tag at least as long as its RTP tag.
\<close>

locale srtp_library =
  fixes L :: "'c srtp_lib" and rtp_tag :: "'c \<Rightarrow> nat" and rtcp_tag :: "'c \<Rightarrow> nat"
  assumes create_tags: "srtp_create L d cs key = Some c \<Longrightarrow> policy_for_rtp L cs = Some p \<Longrightarrow> policy_for_rtcp L cs = Some q \<Longrightarrow>
      rtp_tag c = auth_tag_len p \<and> rtcp_tag c = auth_tag_len q"
    and update_tags: "srtp_update L d cs key c0 = Some c \<Longrightarrow> policy_for_rtp L cs = Some p \<Longrightarrow> policy_for_rtcp L cs = Some q \<Longrightarrow>
      rtp_tag c = auth_tag_len p \<and> rtcp_tag c = auth_tag_len q"
    and protect_law: "srtp_protect L c data = (r, c') \<Longrightarrow> rtp_tag c' = rtp_tag c \<and> rtcp_tag c' = rtcp_tag c \<and>
      (\<forall>out. r = Some out \<longrightarrow> length out \<le> length data + rtp_tag c)"
    and protect_rtcp_law: "srtp_protect_rtcp L c data = (r, c') \<Longrightarrow> rtp_tag c' = rtp_tag c \<and> rtcp_tag c' = rtcp_tag c \<and>
      (\<forall>out. r = Some out \<longrightarrow> length out \<le> length data + 4 + rtcp_tag c)"
    and unprotect_law: "srtp_unprotect L c data = (r, c') \<Longrightarrow> rtp_tag c' = rtp_tag c \<and> rtcp_tag c' = rtcp_tag c \<and>
      (\<forall>out. r = Some out \<longrightarrow> length out \<le> length data)"
    and unprotect_rtcp_law: "srtp_unprotect_rtcp L c data = (r, c') \<Longrightarrow> rtp_tag c' = rtp_tag c \<and> rtcp_tag c' = rtcp_tag c \<and>
      (\<forall>out. r = Some out \<longrightarrow> length out \<le> length data)"
    and policy_tags: "policy_for_rtp L cs = Some p \<Longrightarrow> policy_for_rtcp L cs = Some q \<Longrightarrow> auth_tag_len p \<le> auth_tag_len q"
begin

lemma new_ok [simp]: "session_ok rtp_tag rtcp_tag SrtpSession_new" "transport_ok rtp_tag rtcp_tag (SrtpTransport_new mux)"
  by (simp_all add: session_ok_def SrtpSession_new_def transport_ok_def SrtpTransport_new_def)

lemma do_set_key_ok:
  assumes "do_set_key L d cs key ss = (b, ss')" "session_ok rtp_tag rtcp_tag ss"
  shows "session_ok rtp_tag rtcp_tag ss'" "b \<Longrightarrow> ss_session ss' \<noteq> None" "ss_inited ss' = ss_inited ss"
  using assms create_tags update_tags policy_tags
  by (auto simp: do_set_key_def session_ok_def split: option.splits if_splits)

lemma set_key_ok:
  assumes "set_key L d cs key ss g = (b, ss', g')" "session_ok rtp_tag rtcp_tag ss"
  shows "session_ok rtp_tag rtcp_tag ss'" "b \<Longrightarrow> ss_session ss' \<noteq> None \<and> ss_inited ss'"
  using assms do_set_key_ok [of d cs key "ss\<lparr> ss_inited := True \<rparr>"]
  by (auto simp: set_key_def session_ok_def split: prod.splits if_splits)

lemma update_key_ok:
  assumes "update_key L d cs key ss = (b, ss')" "session_ok rtp_tag rtcp_tag ss"
  shows "session_ok rtp_tag rtcp_tag ss'" "b \<Longrightarrow> ss_session ss' \<noteq> None" "ss_inited ss' = ss_inited ss"
  using assms do_set_key_ok by (auto simp: update_key_def split: if_splits)

lemma in_place_ok:
  assumes "\<And>r c'. call c p = (r, c') \<Longrightarrow> rtp_tag c' = rtp_tag c \<and> rtcp_tag c' = rtcp_tag c \<and> (\<forall>out. r = Some out \<longrightarrow> length out \<le> cap)"
    and "session_ok rtp_tag rtcp_tag ss" "ss_session ss = Some c"
  shows "\<exists>r ss'. in_place call cap p c ss = Inr (r, ss') \<and> session_ok rtp_tag rtcp_tag ss' \<and> ss_session ss' \<noteq> None \<and> ss_inited ss' = ss_inited ss"
  using assms by (cases "call c p") (auto simp: in_place_def session_ok_def split: option.splits)

lemma session_calls_ok:
  assumes "session_ok rtp_tag rtcp_tag ss" "ss_session ss \<noteq> None"
  shows "\<exists>r ss'. session_unprotect_rtp L p ss = Inr (r, ss') \<and> session_ok rtp_tag rtcp_tag ss' \<and> ss_session ss' \<noteq> None \<and> ss_inited ss' = ss_inited ss"
    and "\<exists>r ss'. session_unprotect_rtcp L p ss = Inr (r, ss') \<and> session_ok rtp_tag rtcp_tag ss' \<and> ss_session ss' \<noteq> None \<and> ss_inited ss' = ss_inited ss"
    and "\<exists>r ss'. session_protect_rtp L p (length p + ss_rtp_auth_tag_len ss) ss = Inr (r, ss') \<and> session_ok rtp_tag rtcp_tag ss' \<and>
      ss_session ss' \<noteq> None \<and> ss_inited ss' = ss_inited ss"
    and "\<exists>r ss'. session_protect_rtcp L p (length p + ss_rtcp_auth_tag_len ss + 4) ss = Inr (r, ss') \<and> session_ok rtp_tag rtcp_tag ss' \<and>
      ss_session ss' \<noteq> None \<and> ss_inited ss' = ss_inited ss"
proof -
  obtain c where c: "ss_session ss = Some c" using assms(2) by blast
  have tags: "ss_rtp_auth_tag_len ss = rtp_tag c" "ss_rtcp_auth_tag_len ss = rtcp_tag c" "rtp_tag c \<le> rtcp_tag c"
    using assms(1) c by (simp_all add: session_ok_def)
  note ip = in_place_ok [OF _ assms(1) c]
  show "\<exists>r ss'. session_unprotect_rtp L p ss = Inr (r, ss') \<and> session_ok rtp_tag rtcp_tag ss' \<and> ss_session ss' \<noteq> None \<and> ss_inited ss' = ss_inited ss"
    using ip [OF unprotect_law] c by (simp add: session_unprotect_rtp_def)
  show "\<exists>r ss'. session_unprotect_rtcp L p ss = Inr (r, ss') \<and> session_ok rtp_tag rtcp_tag ss' \<and> ss_session ss' \<noteq> None \<and> ss_inited ss' = ss_inited ss"
    using ip [OF unprotect_rtcp_law] c by (simp add: session_unprotect_rtcp_def)
  show "\<exists>r ss'. session_protect_rtp L p (length p + ss_rtp_auth_tag_len ss) ss = Inr (r, ss') \<and> session_ok rtp_tag rtcp_tag ss' \<and>
      ss_session ss' \<noteq> None \<and> ss_inited ss' = ss_inited ss"
    using ip [OF protect_law] c tags by (simp add: session_protect_rtp_def)
  have "length p + 4 + rtcp_tag c = length p + rtcp_tag c + 4" by simp
  then show "\<exists>r ss'. session_protect_rtcp L p (length p + ss_rtcp_auth_tag_len ss + 4) ss = Inr (r, ss') \<and> session_ok rtp_tag rtcp_tag ss' \<and>
      ss_session ss' \<noteq> None \<and> ss_inited ss' = ss_inited ss"
    using ip [OF protect_rtcp_law] c tags by (simp add: session_protect_rtcp_def add.commute add.left_commute)
qed

lemma reset_params_ok: "transport_ok rtp_tag rtcp_tag (fst (reset_params st g))" "\<not> is_srtp_active (fst (reset_params st g))"
  by (simp_all add: transport_ok_def reset_params_def is_srtp_active_def)

lemma set_rtp_params_ok:
  assumes "transport_ok rtp_tag rtcp_tag st" "st_send st = None"
  shows "\<exists>b st' g'. set_rtp_params L cs k cs' k' st g = Inr (b, st', g') \<and> transport_ok rtp_tag rtcp_tag st' \<and> is_srtp_active st' = b"
proof -
  obtain b1 s1 g1 where s1: "set_send L cs k SrtpSession_new g = (b1, s1, g1)" by (metis prod_cases3)
  obtain b2 s2 g2 where s2: "set_recv L cs' k' SrtpSession_new g1 = (b2, s2, g2)" by (metis prod_cases3)
  have "session_ok rtp_tag rtcp_tag s1" "b1 \<Longrightarrow> ss_session s1 \<noteq> None \<and> ss_inited s1"
    "session_ok rtp_tag rtcp_tag s2" "b2 \<Longrightarrow> ss_session s2 \<noteq> None \<and> ss_inited s2"
    using set_key_ok s1 s2 unfolding set_send_def set_recv_def by (metis new_ok(1))+
  moreover have "st_recv st = None" using assms by (simp add: transport_ok_def)
  ultimately show ?thesis
    using set_rtp_params_new [OF assms(2) _ s1 s2] by (auto simp: transport_ok_def is_srtp_active_def reset_params_def)
qed

lemma with_session_ok:
  assumes "\<And>ss. os = Some ss \<Longrightarrow> \<exists>r ss'. f ss = Inr (r, ss') \<and> P ss'" "os \<noteq> None"
  shows "\<exists>r ss'. with_session f os = Inr (r, Some ss') \<and> P ss'"
  using assms by (auto simp: with_session_def)

lemma transport_calls_ok:
  assumes "transport_ok rtp_tag rtcp_tag st" "is_srtp_active st"
  shows "\<exists>r ss'. unprotect_rtp L p st = Inr (r, st\<lparr> st_recv := Some ss' \<rparr>) \<and>
      session_ok rtp_tag rtcp_tag ss' \<and> ss_session ss' \<noteq> None \<and> ss_inited ss'"
    and "\<exists>r ss'. unprotect_rtcp L p st = Inr (r, st\<lparr> st_recv := Some ss' \<rparr>) \<and>
      session_ok rtp_tag rtcp_tag ss' \<and> ss_session ss' \<noteq> None \<and> ss_inited ss'"
    and "\<exists>r ss'. protect_rtp L p (length p + fst (get_send_auth_tag_len st)) st = Inr (r, st\<lparr> st_send := Some ss' \<rparr>) \<and>
      session_ok rtp_tag rtcp_tag ss' \<and> ss_session ss' \<noteq> None \<and> ss_inited ss'"
    and "\<exists>r ss'. protect_rtcp L p (length p + snd (get_send_auth_tag_len st) + 4) st = Inr (r, st\<lparr> st_send := Some ss' \<rparr>) \<and>
      session_ok rtp_tag rtcp_tag ss' \<and> ss_session ss' \<noteq> None \<and> ss_inited ss'"
proof -
  obtain s r where sr: "st_send st = Some s" "st_recv st = Some r" using assms(2) by (auto simp: is_srtp_active_def)
  then have ok: "session_ok rtp_tag rtcp_tag s" "ss_session s \<noteq> None" "ss_inited s"
    "session_ok rtp_tag rtcp_tag r" "ss_session r \<noteq> None" "ss_inited r"
    using assms(1) by (simp_all add: transport_ok_def)
  have tags: "get_send_auth_tag_len st = (ss_rtp_auth_tag_len s, ss_rtcp_auth_tag_len s)"
    using sr ok(2) by (auto simp: get_send_auth_tag_len_def get_auth_tag_len_def)
  note calls = session_calls_ok [where p = p]
  show "\<exists>r ss'. unprotect_rtp L p st = Inr (r, st\<lparr> st_recv := Some ss' \<rparr>) \<and>
      session_ok rtp_tag rtcp_tag ss' \<and> ss_session ss' \<noteq> None \<and> ss_inited ss'"
    using calls(1) [OF ok(4,5)] ok(6) assms(2) sr by (fastforce simp: unprotect_rtp_def with_session_def)
  show "\<exists>r ss'. unprotect_rtcp L p st = Inr (r, st\<lparr> st_recv := Some ss' \<rparr>) \<and>
      session_ok rtp_tag rtcp_tag ss' \<and> ss_session ss' \<noteq> None \<and> ss_inited ss'"
    using calls(2) [OF ok(4,5)] ok(6) assms(2) sr by (fastforce simp: unprotect_rtcp_def with_session_def)
  show "\<exists>r ss'. protect_rtp L p (length p + fst (get_send_auth_tag_len st)) st = Inr (r, st\<lparr> st_send := Some ss' \<rparr>) \<and>
      session_ok rtp_tag rtcp_tag ss' \<and> ss_session ss' \<noteq> None \<and> ss_inited ss'"
    using calls(3) [OF ok(1,2)] ok(3) assms(2) sr tags by (fastforce simp: protect_rtp_def with_session_def)
  show "\<exists>r ss'. protect_rtcp L p (length p + snd (get_send_auth_tag_len st) + 4) st = Inr (r, st\<lparr> st_send := Some ss' \<rparr>) \<and>
      session_ok rtp_tag rtcp_tag ss' \<and> ss_session ss' \<noteq> None \<and> ss_inited ss'"
    using calls(4) [OF ok(1,2)] ok(3) assms(2) sr tags by (fastforce simp: protect_rtcp_def with_session_def)
qed

end

subsection \<open>The reference count of the library\<close>

definition held_by :: "'c srtp_session option \<Rightarrow> int" where
  "held_by os = (case os of Some ss \<Rightarrow> if ss_inited ss then 1 else 0 | None \<Rightarrow> 0)"

definition held :: "'c srtp_transport \<Rightarrow> int" where
  "held st = held_by (st_send st) + held_by (st_recv st)"

text \<open>The books of the library: \<open>n\<close> references of this transport, the rest of others.\<close>

definition global_ok :: "int \<Rightarrow> srtp_global \<Rightarrow> bool" where
  "global_ok n g \<longleftrightarrow> n \<le> g_libsrtp_usage_count g \<and> (0 < g_libsrtp_usage_count g \<longrightarrow> sg_up g)"

lemma held_nonneg [simp]: "0 \<le> held_by os" "0 \<le> held st"
  by (auto simp: held_by_def held_def split: option.splits)

lemma destruct_session_count:
  "g_libsrtp_usage_count (destruct_session os g) = g_libsrtp_usage_count g - held_by os"
  "global_ok n g \<Longrightarrow> held_by os \<le> n \<Longrightarrow> global_ok (n - held_by os) (destruct_session os g)"
  by (auto simp: destruct_session_def SrtpSession_destruct_def held_by_def global_ok_def
      decrement_libsrtp_usage_count_and_maybe_deinit_def Let_def split: option.splits)

lemma reset_params_count:
  assumes "global_ok (held st) g"
  shows "global_ok 0 (snd (reset_params st g))"
    "g_libsrtp_usage_count (snd (reset_params st g)) = g_libsrtp_usage_count g - held st"
proof -
  have "global_ok (held_by (st_recv st)) (destruct_session (st_send st) g)"
    using destruct_session_count(2) [OF assms, of "st_send st"] by (simp add: held_def)
  from destruct_session_count(2) [OF this, of "st_recv st"]
  show "global_ok 0 (snd (reset_params st g))" by (simp add: reset_params_def)
  show "g_libsrtp_usage_count (snd (reset_params st g)) = g_libsrtp_usage_count g - held st"
    by (simp add: reset_params_def destruct_session_count held_def)
qed

lemma do_set_key_inited: "do_set_key L d cs key ss = (b, ss') \<Longrightarrow> ss_inited ss' = ss_inited ss"
  by (auto simp: do_set_key_def split: option.splits if_splits)

lemma set_key_count:
  assumes "set_key L d cs key SrtpSession_new g = (b, ss, g')" "global_ok n g" "0 \<le> n"
  shows "global_ok (n + held_by (Some ss)) g'"
    "g_libsrtp_usage_count g' = g_libsrtp_usage_count g + held_by (Some ss)"
  using assms
  by (auto simp: set_key_def SrtpSession_new_def increment_libsrtp_usage_count_and_maybe_init_def global_ok_def
      held_by_def Let_def dest!: do_set_key_inited split: prod.splits if_splits)

lemma set_rtp_params_count:
  assumes "set_rtp_params L cs k cs' k' st g = Inr (b, st', g')" "st_send st = None" "st_recv st = None" "global_ok 0 g"
  shows "global_ok (held st') g' \<and> g_libsrtp_usage_count g' = g_libsrtp_usage_count g + held st'"
proof -
  obtain b1 s1 g1 where s1: "set_send L cs k SrtpSession_new g = (b1, s1, g1)" by (metis prod_cases3)
  obtain b2 s2 g2 where s2: "set_recv L cs' k' SrtpSession_new g1 = (b2, s2, g2)" by (metis prod_cases3)
  note c1 = set_key_count [OF s1 [unfolded set_send_def] assms(4)]
  note c2 = set_key_count [OF s2 [unfolded set_recv_def] c1(1)]
  let ?st1 = "st\<lparr> st_send := Some s1, st_recv := Some SrtpSession_new \<rparr>"
  let ?st2 = "st\<lparr> st_send := Some s1, st_recv := Some s2 \<rparr>"
  have "held ?st1 = held_by (Some s1)" by (simp add: held_def held_by_def SrtpSession_new_def)
  moreover have "held ?st2 = held_by (Some s1) + held_by (Some s2)" by (simp add: held_def)
  moreover have "held st3 = 0" if "reset_params st0 g0 = (st3, g3)" for st0 st3 :: "'a srtp_transport" and g0 g3
    using that by (auto simp: held_def held_by_def reset_params_def)
  ultimately show ?thesis
    using assms c1 c2 reset_params_count [of ?st1 g1] reset_params_count [of ?st2 g2] set_rtp_params_new [OF assms(2,3) s1 s2]
    by (auto split: if_splits)
qed

end
