(* ===== verification/Rtp_Utils.thy ===== *)
theory Rtp_Utils
  imports Rtc_Base
begin

text \<open>
  \<^verbatim>\<open>src/module/rtp_rtcp/rtp_utils.*\<close>: telling RTP from RTCP and reading header fields.  An access
  to a byte past the end of the packet is the error \<open>Out_of_bounds\<close>.  \<^verbatim>\<open>ByteReader::ReadBigEndian\<close> is
  a big-endian read like those of \<open>rtc_base\<close>.
\<close>

datatype rtp_packet_type = k_rtp | k_rtcp | k_unknown

definition k_rtp_version :: byte where "k_rtp_version = 2"
definition k_min_rtp_packet_len :: nat where "k_min_rtp_packet_len = 12"
definition k_min_rtcp_packet_len :: nat where "k_min_rtcp_packet_len = 4"

definition byte_at :: "bytes \<Rightarrow> nat \<Rightarrow> byte res" where
  "byte_at p i = (if i < length p then Inr (p ! i) else Inl Out_of_bounds)"

definition has_correct_rtp_version :: "bytes \<Rightarrow> bool res" where
  "has_correct_rtp_version packet = res_bind (byte_at packet 0) (\<lambda>b. Inr (drop_bit 6 b = k_rtp_version))"

definition payload_type_is_reserved_for_rtcp :: "byte \<Rightarrow> bool" where
  "payload_type_is_reserved_for_rtcp payload_type \<longleftrightarrow> 64 \<le> payload_type \<and> payload_type < 96"

definition is_rtp_packet :: "bytes \<Rightarrow> bool res" where
  "is_rtp_packet packet =
     (if length packet \<ge> k_min_rtp_packet_len
      then res_bind (has_correct_rtp_version packet) (\<lambda>v.
             if v then res_bind (byte_at packet 1) (\<lambda>b. Inr (\<not> payload_type_is_reserved_for_rtcp (b AND 0x7F)))
             else Inr False)
      else Inr False)"

definition is_rtcp_packet :: "bytes \<Rightarrow> bool res" where
  "is_rtcp_packet packet =
     (if length packet \<ge> k_min_rtcp_packet_len
      then res_bind (byte_at packet 1) (\<lambda>b. Inr (payload_type_is_reserved_for_rtcp (b AND 0x7F)))
      else Inr False)"

definition infer_rtp_packet_type :: "bytes \<Rightarrow> rtp_packet_type res" where
  "infer_rtp_packet_type packet =
     res_bind (is_rtp_packet packet) (\<lambda>rtp.
       if rtp then Inr k_rtp
       else res_bind (is_rtcp_packet packet) (\<lambda>rtcp. Inr (if rtcp then k_rtcp else k_unknown)))"

definition parse_rtp_sequence_number :: "rtc_base \<Rightarrow> bytes \<Rightarrow> u16 res" where
  "parse_rtp_sequence_number R packet =
     (if 4 \<le> length packet then Inr (GetBE16 R (drop 2 packet)) else Inl Out_of_bounds)"

definition parse_rtp_ssrc :: "rtc_base \<Rightarrow> bytes \<Rightarrow> u32 res" where
  "parse_rtp_ssrc R packet =
     (if 12 \<le> length packet then Inr (GetBE32 R (drop 8 packet)) else Inl Out_of_bounds)"

text \<open>\<open>data\<close> is \<open>None\<close> for a null pointer; the answer is the type, or \<open>None\<close> for \<^verbatim>\<open>false\<close>.\<close>

definition get_rtcp_type :: "bytes option \<Rightarrow> nat \<Rightarrow> int option res" where
  "get_rtcp_type data len =
     (if len < k_min_rtcp_packet_len then Inr None
      else case data of None \<Rightarrow> Inr None
        | Some d \<Rightarrow> res_bind (byte_at d 1) (\<lambda>b. Inr (Some (uint b))))"

subsection \<open>Classification\<close>

lemma rtcp_byte_iff: "payload_type_is_reserved_for_rtcp (b AND 0x7F) \<longleftrightarrow> uint b mod 128 \<in> {64..<96}"
proof -
  have "uint (b AND 0x7F) = uint b AND 0x7F" by (simp add: unsigned_and_eq)
  also have "\<dots> = uint b mod 128" using take_bit_eq_mask [of 7 "uint b"] by (simp add: take_bit_eq_mod mask_eq_exp_minus_1)
  finally have "uint (b AND 0x7F) = uint b mod 128" .
  then show ?thesis by (simp add: payload_type_is_reserved_for_rtcp_def word_le_def word_less_def)
qed

lemma version_byte_iff: "drop_bit 6 (b :: byte) = 2 \<longleftrightarrow> uint b \<in> {128..<192}"
proof -
  have t: "take_bit 8 (uint b) = uint b"
    using unsigned_less [of b, where 'a = int] by (simp add: take_bit_int_eq_self_iff)
  have "drop_bit 6 b = 2 \<longleftrightarrow> uint (drop_bit 6 b) = 2" by (simp add: word_uint_eq_iff)
  also have "\<dots> \<longleftrightarrow> uint b div 64 = 2" by (subst unsigned_drop_bit_eq) (simp add: drop_bit_eq_div t)
  also have "\<dots> \<longleftrightarrow> uint b \<in> {128..<192}" by auto
  finally show ?thesis .
qed

lemma infer_rtp_packet_type_spec:
  "infer_rtp_packet_type p = Inr (
     if 12 \<le> length p \<and> uint (p ! 0) \<in> {128..<192} \<and> uint (p ! 1) mod 128 \<notin> {64..<96} then k_rtp
     else if 4 \<le> length p \<and> uint (p ! 1) mod 128 \<in> {64..<96} then k_rtcp else k_unknown)"
proof -
  have "is_rtp_packet p = Inr (12 \<le> length p \<and> uint (p ! 0) \<in> {128..<192} \<and> uint (p ! 1) mod 128 \<notin> {64..<96})"
    by (simp add: is_rtp_packet_def k_min_rtp_packet_len_def has_correct_rtp_version_def byte_at_def
        k_rtp_version_def version_byte_iff rtcp_byte_iff) auto
  moreover have "is_rtcp_packet p = Inr (4 \<le> length p \<and> uint (p ! 1) mod 128 \<in> {64..<96})"
    by (simp add: is_rtcp_packet_def k_min_rtcp_packet_len_def byte_at_def rtcp_byte_iff)
  ultimately show ?thesis by (simp add: infer_rtp_packet_type_def)
qed

end
