(* ===== verification/Dtls_Transport.thy ===== *)
theory Dtls_Transport
  imports Srtp Rtp_Utils
begin

text \<open>
  \<^verbatim>\<open>DtlsTransport\<close>, \<^verbatim>\<open>StreamInterfaceChannel\<close> and \<^verbatim>\<open>DtlsSrtpTransport\<close> (\<^verbatim>\<open>src/pc/dtls_transport.*\<close>,
  \<^verbatim>\<open>src/pc/dtls_srtp_transport.*\<close>) of one transport name.  A \<^verbatim>\<open>DtlsSrtpTransport\<close> is attached to its
  \<^verbatim>\<open>DtlsTransport\<close> for life, so both are one state; a signal of the first is a call of the second's
  slot, made after the entry in the output log that the transport controller sees.

  The DTLS implementation (\<^verbatim>\<open>rtc::SSLStreamAdapter\<close>), the ICE channel's answers and libsrtp are
  parameters; \<open>mt_tick\<close> numbers the calls to them.  Feeding packets to the adapter makes it read from
  the \<^verbatim>\<open>StreamInterfaceChannel\<close> and fire events before the call returns; events also come from its
  timers.  An event that announces readable data comes with the results of the reads that follow.
\<close>

subsection \<open>Environment\<close>

datatype stream_result = SR_ERROR | SR_SUCCESS | SR_BLOCK | SR_EOS
datatype digest_result = Digest_ok | Digest_failed | Digest_verification_failed

record adapter_event =
  se_open :: bool
  se_read :: bool
  se_close :: bool
  se_error :: int
  se_reads :: "stream_result list"

record 'c dtls_env =
  de_rtc :: rtc_base
  de_srtp :: "'c srtp_lib"
  ssl_create :: "nat \<Rightarrow> bool"
  ssl_set_digest :: "nat \<Rightarrow> bytes \<Rightarrow> bytes \<Rightarrow> digest_result"
  ssl_set_suites :: "nat \<Rightarrow> int list \<Rightarrow> bool"
  ssl_start :: "nat \<Rightarrow> bool"                           \<comment> \<open>whether \<^verbatim>\<open>StartSSL\<close> answers 0\<close>
  ssl_feed :: "nat \<Rightarrow> bytes list \<Rightarrow> nat \<times> adapter_event list"  \<comment> \<open>packets read, events fired\<close>
  ssl_srtp_suite :: "nat \<Rightarrow> int option"
  ssl_export :: "nat \<Rightarrow> nat \<Rightarrow> bytes option"
  srtp_key_and_salt_lengths :: "int \<Rightarrow> (nat \<times> nat) option"
  supported_suites :: "int list"
  channel_send :: "nat \<Rightarrow> bytes \<Rightarrow> int"

subsection \<open>State\<close>

datatype dtls_transport_state = k_new | k_connecting | k_connected | k_closed | k_failed

datatype stream_state = SS_CLOSED | SS_OPENING | SS_OPEN

record stream_channel =
  sc_packets :: "bytes list"
  sc_state :: stream_state

datatype transport_event =
    Tr_dtls_state dtls_transport_state
  | Tr_writable_state bool
  | Tr_receiving_state bool
  | Tr_closed
  | Tr_rtp_packet bytes int
  | Tr_rtcp_packet bytes int
  | Tr_send bytes
  | Ssl_created
  | Ssl_digest_set
  | Ssl_started

record 'c media_transport =
  dt_state :: dtls_transport_state
  dt_receiving :: bool
  dt_writable :: bool
  dt_dtls :: "stream_channel option"        \<comment> \<open>the adapter, with the stream below it\<close>
  dt_catched_client_hello :: bytes
  dt_local_certificate :: "nat option"
  dt_remote_fingerprint_value :: bytes
  dt_remote_fingerprint_alg :: bytes
  dt_active :: bool
  dt_srtp_ciphers :: "int list"
  mt_channel_writable :: bool               \<comment> \<open>\<^verbatim>\<open>_channel->writable()\<close>\<close>
  mt_channel_receiving :: bool
  mt_attached :: bool                       \<comment> \<open>\<^verbatim>\<open>set_dtls_transport\<close> has been called\<close>
  mt_srtp :: "'c srtp_transport"
  mt_global :: srtp_global
  mt_unprotect_fail_count :: u32
  mt_last_send_seq_num :: u16
  mt_tick :: nat
  mt_out :: "transport_event list"

definition k_dtls_record_header_len :: nat where "k_dtls_record_header_len = 13"
definition k_dtls_handshake_value_offset :: nat where "k_dtls_handshake_value_offset = 17"
definition k_max_pending_packets :: nat where "k_max_pending_packets = 2"

definition tr_emit :: "transport_event \<Rightarrow> 'c media_transport \<Rightarrow> 'c media_transport" where
  "tr_emit e t = t\<lparr> mt_out := mt_out t @ [e] \<rparr>"

definition tr_tick :: "'c media_transport \<Rightarrow> 'c media_transport" where
  "tr_tick t = t\<lparr> mt_tick := Suc (mt_tick t) \<rparr>"

text \<open>The constructors of both transports, \<open>mux\<close> the argument of the second.\<close>

definition DtlsTransport_new :: "'c dtls_env \<Rightarrow> bool \<Rightarrow> bool \<Rightarrow> bool \<Rightarrow> srtp_global \<Rightarrow> 'c media_transport" where
  "DtlsTransport_new D mux writable receiving g =
     \<lparr> dt_state = k_new, dt_receiving = False, dt_writable = False, dt_dtls = None, dt_catched_client_hello = [],
       dt_local_certificate = None, dt_remote_fingerprint_value = [], dt_remote_fingerprint_alg = [],
       dt_active = False, dt_srtp_ciphers = supported_suites D, mt_channel_writable = writable,
       mt_channel_receiving = receiving, mt_attached = False, mt_srtp = SrtpTransport_new mux, mt_global = g,
       mt_unprotect_fail_count = 0, mt_last_send_seq_num = 0, mt_tick = 0, mt_out = [] \<rparr>"

subsection \<open>Packet kinds\<close>

definition is_dtls_packet :: "bytes \<Rightarrow> bool" where
  "is_dtls_packet buf \<longleftrightarrow> k_dtls_record_header_len \<le> length buf \<and> buf ! 0 > 19 \<and> buf ! 0 < 64"

definition is_dtls_client_hello_packet :: "bytes \<Rightarrow> bool" where
  "is_dtls_client_hello_packet buf \<longleftrightarrow> is_dtls_packet buf \<and>
     length buf > k_dtls_handshake_value_offset \<and> buf ! 0 = 22 \<and> buf ! 13 = 1"

definition dtls_is_rtp_packet :: "bytes \<Rightarrow> bool" where
  "dtls_is_rtp_packet buf \<longleftrightarrow> k_min_rtp_packet_len \<le> length buf \<and> (buf ! 0) AND 0xC0 = 0x80"

subsection \<open>Installing the SRTP keys\<close>

definition is_dtls_writable :: "'c media_transport \<Rightarrow> bool" where
  "is_dtls_writable t \<longleftrightarrow> mt_attached t \<and> dt_writable t"

definition get_srtp_crypto_suite :: "'c dtls_env \<Rightarrow> 'c media_transport \<Rightarrow> int option res" where
  "get_srtp_crypto_suite D t =
     (if dt_state t \<noteq> k_connected then Inr None
      else if dt_dtls t = None then Inl Null_deref
      else Inr (ssl_srtp_suite D (mt_tick t)))"

definition export_keying_material :: "'c dtls_env \<Rightarrow> nat \<Rightarrow> 'c media_transport \<Rightarrow> bytes option" where
  "export_keying_material D n t = (if dt_dtls t = None then None else ssl_export D (mt_tick t) n)"

text \<open>The layout of the exported material: client key, server key, client salt, server salt.\<close>

definition split_keys :: "nat \<Rightarrow> nat \<Rightarrow> bytes \<Rightarrow> bytes \<times> bytes" where
  "split_keys key_len salt_len buf =
     (let client_write_key = take key_len buf @ take salt_len (drop (2 * key_len) buf);
          server_write_key = take key_len (drop key_len buf) @ take salt_len (drop (2 * key_len + salt_len) buf)
      in (server_write_key, client_write_key))"

definition extract_params :: "'c dtls_env \<Rightarrow> 'c media_transport \<Rightarrow> (int \<times> bytes \<times> bytes) option res" where
  "extract_params D t =
     (if \<not> mt_attached t \<or> \<not> dt_active t then Inr None
      else res_bind (get_srtp_crypto_suite D t) (\<lambda>suite. case suite of
        None \<Rightarrow> Inr None
      | Some cs \<Rightarrow> (case srtp_key_and_salt_lengths D cs of
          None \<Rightarrow> Inr None
        | Some (key_len, salt_len) \<Rightarrow>
            (case export_keying_material D (2 * (key_len + salt_len)) t of
               None \<Rightarrow> Inr None
             | Some buf \<Rightarrow> (case split_keys key_len salt_len buf of (send_key, recv_key) \<Rightarrow>
                 Inr (Some (cs, send_key, recv_key)))))))"

definition setup_dtls_srtp :: "'c dtls_env \<Rightarrow> 'c media_transport \<Rightarrow> 'c media_transport res" where
  "setup_dtls_srtp D t =
     res_bind (extract_params D t) (\<lambda>ps. let t1 = tr_tick t in case ps of
       None \<Rightarrow> Inr t1
     | Some (cs, send_key, recv_key) \<Rightarrow>
         res_bind (set_rtp_params (de_srtp D) cs send_key cs recv_key (mt_srtp t1) (mt_global t1)) (\<lambda>(_, st, g).
           Inr (t1\<lparr> mt_srtp := st, mt_global := g \<rparr>)))"

definition maybe_setup_dtls_srtp :: "'c dtls_env \<Rightarrow> 'c media_transport \<Rightarrow> 'c media_transport res" where
  "maybe_setup_dtls_srtp D t =
     (if is_srtp_active (mt_srtp t) \<or> \<not> is_dtls_writable t then Inr t else setup_dtls_srtp D t)"

definition srtp_on_dtls_state :: "'c dtls_env \<Rightarrow> dtls_transport_state \<Rightarrow> 'c media_transport \<Rightarrow> 'c media_transport res" where
  "srtp_on_dtls_state D state t =
     (if state \<noteq> k_connected
      then (case reset_params (mt_srtp t) (mt_global t) of (st, g) \<Rightarrow> Inr (t\<lparr> mt_srtp := st, mt_global := g \<rparr>))
      else maybe_setup_dtls_srtp D t)"

definition set_dtls_transport :: "'c dtls_env \<Rightarrow> 'c media_transport \<Rightarrow> 'c media_transport res" where
  "set_dtls_transport D t = maybe_setup_dtls_srtp D (t\<lparr> mt_attached := True \<rparr>)"

subsection \<open>State changes\<close>

definition set_dtls_state :: "'c dtls_env \<Rightarrow> dtls_transport_state \<Rightarrow> 'c media_transport \<Rightarrow> 'c media_transport res" where
  "set_dtls_state D state t =
     (if dt_state t = state then Inr t
      else let t1 = tr_emit (Tr_dtls_state state) (t\<lparr> dt_state := state \<rparr>)
           in if mt_attached t1 then srtp_on_dtls_state D state t1 else Inr t1)"

definition set_writable_state :: "bool \<Rightarrow> 'c media_transport \<Rightarrow> 'c media_transport" where
  "set_writable_state w t = (if dt_writable t = w then t else tr_emit (Tr_writable_state w) (t\<lparr> dt_writable := w \<rparr>))"

definition dtls_set_receiving :: "bool \<Rightarrow> 'c media_transport \<Rightarrow> 'c media_transport" where
  "dtls_set_receiving r t = (if dt_receiving t = r then t else tr_emit (Tr_receiving_state r) (t\<lparr> dt_receiving := r \<rparr>))"

subsection \<open>Events of the adapter\<close>

definition dtls_closed :: "'c dtls_env \<Rightarrow> 'c media_transport \<Rightarrow> 'c media_transport res" where
  "dtls_closed D t = res_bind (set_dtls_state D k_closed (set_writable_state False t)) (\<lambda>t1. Inr (tr_emit Tr_closed t1))"

text \<open>The read loop; the decrypted application data is not used.  When the list of results ends the
  adapter has nothing more to read and blocks.\<close>

fun dtls_read_loop :: "'c dtls_env \<Rightarrow> stream_result list \<Rightarrow> 'c media_transport \<Rightarrow> 'c media_transport res" where
  "dtls_read_loop D [] t = Inr t"
| "dtls_read_loop D (SR_SUCCESS # rs) t = dtls_read_loop D rs t"
| "dtls_read_loop D (SR_EOS # rs) t = dtls_closed D t"
| "dtls_read_loop D (SR_ERROR # rs) t = dtls_closed D t"
| "dtls_read_loop D (SR_BLOCK # rs) t = Inr t"

definition on_dtls_event :: "'c dtls_env \<Rightarrow> adapter_event \<Rightarrow> 'c media_transport \<Rightarrow> 'c media_transport res" where
  "on_dtls_event D ev t =
     res_bind (if se_open ev then set_dtls_state D k_connected (set_writable_state True t) else Inr t) (\<lambda>t1.
     res_bind (if se_read ev then (if dt_dtls t1 = None then Inl Null_deref else dtls_read_loop D (se_reads ev) t1)
               else Inr t1) (\<lambda>t2.
     if se_close ev
     then set_dtls_state D (if se_error ev = 0 then k_closed else k_failed) (set_writable_state False t2)
     else Inr t2))"

subsection \<open>DTLS packets\<close>

definition on_received_packet :: "'c dtls_env \<Rightarrow> bytes \<Rightarrow> 'c media_transport \<Rightarrow> 'c media_transport res" where
  "on_received_packet D data t = (case dt_dtls t of
     None \<Rightarrow> Inl Use_after_free
   | Some sc \<Rightarrow>
       let sc1 = (if length (sc_packets sc) < k_max_pending_packets then sc\<lparr> sc_packets := sc_packets sc @ [data] \<rparr> else sc);
           (n, evs) = ssl_feed D (mt_tick t) (sc_packets sc1);
           t1 = tr_tick (t\<lparr> dt_dtls := Some (sc1\<lparr> sc_packets := drop n (sc_packets sc1) \<rparr>) \<rparr>)
       in res_fold (on_dtls_event D) evs t1)"

function dtls_records_ok :: "bytes \<Rightarrow> bool" where
  "dtls_records_ok data =
     (if data = [] then True
      else if length data < k_dtls_record_header_len then False
      else let record_len = unat (push_bit 8 (ucast (data ! 11) :: 32 word) OR ucast (data ! 12)) in
        if record_len + k_dtls_record_header_len > length data then False
        else dtls_records_ok (drop (k_dtls_record_header_len + record_len) data))"
  by pat_completeness auto
termination
  by (relation "measure length") (auto simp: k_dtls_record_header_len_def)

definition handle_dtls_packet :: "'c dtls_env \<Rightarrow> bytes \<Rightarrow> 'c media_transport \<Rightarrow> (bool \<times> 'c media_transport) res" where
  "handle_dtls_packet D data t =
     (if dtls_records_ok data then res_bind (on_received_packet D data t) (\<lambda>t1. Inr (True, t1))
      else Inr (False, t))"

definition maybe_start_dtls :: "'c dtls_env \<Rightarrow> 'c media_transport \<Rightarrow> 'c media_transport res" where
  "maybe_start_dtls D t =
     (if dt_dtls t \<noteq> None \<and> mt_channel_writable t then
        (let t1 = tr_emit Ssl_started (tr_tick t) in
         if \<not> ssl_start D (mt_tick t) then set_dtls_state D k_failed t1
         else res_bind (set_dtls_state D k_connecting t1) (\<lambda>t2.
           if dt_catched_client_hello t2 \<noteq> [] then
             res_bind (handle_dtls_packet D (dt_catched_client_hello t2) t2) (\<lambda>(ok, t3).
             res_bind (if ok then Inr t3 else set_dtls_state D k_failed t3) (\<lambda>t4.
               Inr (t4\<lparr> dt_catched_client_hello := [] \<rparr>)))
           else Inr t2))
      else Inr t)"

definition setup_dtls :: "'c dtls_env \<Rightarrow> 'c media_transport \<Rightarrow> (bool \<times> 'c media_transport) res" where
  "setup_dtls D t =
     (let t0 = tr_tick t in
      if \<not> ssl_create D (mt_tick t) then Inr (False, t0\<lparr> dt_dtls := None \<rparr>)
      else if dt_local_certificate t = None then Inl Null_deref
      else let t1 = tr_emit Ssl_created (t0\<lparr> dt_dtls := Some \<lparr> sc_packets = [], sc_state = SS_OPEN \<rparr> \<rparr>);
               t2 = (if dt_remote_fingerprint_value t1 \<noteq> [] then tr_emit Ssl_digest_set (tr_tick t1) else t1)
           in if dt_remote_fingerprint_value t1 \<noteq> [] \<and>
                ssl_set_digest D (mt_tick t1) (dt_remote_fingerprint_alg t1) (dt_remote_fingerprint_value t1) \<noteq> Digest_ok
              then Inr (False, t2)
              else if dt_srtp_ciphers t2 \<noteq> [] \<and> \<not> ssl_set_suites D (mt_tick t2) (dt_srtp_ciphers t2)
              then Inr (False, tr_tick t2)
              else res_bind (maybe_start_dtls D (if dt_srtp_ciphers t2 \<noteq> [] then tr_tick t2 else t2)) (\<lambda>t3.
                Inr (True, t3)))"

subsection \<open>Configuration\<close>

definition set_local_certificate :: "nat option \<Rightarrow> 'c media_transport \<Rightarrow> bool \<times> 'c media_transport" where
  "set_local_certificate cert t =
     (if dt_active t then (cert = dt_local_certificate t, t)
      else if cert \<noteq> None then (True, t\<lparr> dt_local_certificate := cert, dt_active := True \<rparr>)
      else (True, t))"

definition set_remote_fingerprint ::
    "'c dtls_env \<Rightarrow> bytes \<Rightarrow> bytes \<Rightarrow> 'c media_transport \<Rightarrow> (bool \<times> 'c media_transport) res" where
  "set_remote_fingerprint D alg digest t =
     (if dt_active t \<and> dt_remote_fingerprint_value t = digest then Inr (True, t)
      else if alg = [] then Inr (False, t\<lparr> dt_active := False \<rparr>)
      else if \<not> dt_active t then Inr (False, t)
      else let change = (dt_remote_fingerprint_alg t \<noteq> []);
               t1 = t\<lparr> dt_remote_fingerprint_value := digest, dt_remote_fingerprint_alg := alg \<rparr>
           in if dt_dtls t1 \<noteq> None \<and> \<not> change then
                (let r = ssl_set_digest D (mt_tick t1) alg digest; t2 = tr_emit Ssl_digest_set (tr_tick t1) in
                 if r = Digest_ok then Inr (True, t2)
                 else res_bind (set_dtls_state D k_failed t2) (\<lambda>t3. Inr (r = Digest_verification_failed, t3)))
              else res_bind (if dt_dtls t1 \<noteq> None \<and> change
                             then res_bind (set_dtls_state D k_new (t1\<lparr> dt_dtls := None \<rparr>)) (\<lambda>t2.
                                    Inr (set_writable_state False t2))
                             else Inr t1) (\<lambda>t3.
                res_bind (setup_dtls D t3) (\<lambda>(ok, t4).
                  if ok then Inr (True, t4)
                  else res_bind (set_dtls_state D k_failed t4) (\<lambda>t5. Inr (False, t5)))))"

subsection \<open>Slots of the ICE channel\<close>

definition dtls_on_writable_state :: "'c dtls_env \<Rightarrow> 'c media_transport \<Rightarrow> 'c media_transport res" where
  "dtls_on_writable_state D t =
     (if \<not> dt_active t then Inr (set_writable_state (mt_channel_writable t) t)
      else case dt_state t of
        k_new \<Rightarrow> maybe_start_dtls D t
      | k_connected \<Rightarrow> Inr (set_writable_state (mt_channel_writable t) t)
      | _ \<Rightarrow> Inr t)"

definition dtls_on_receiving_state :: "'c media_transport \<Rightarrow> 'c media_transport" where
  "dtls_on_receiving_state t = dtls_set_receiving (mt_channel_receiving t) t"

subsection \<open>Media\<close>

definition on_rtp_packet_received :: "'c dtls_env \<Rightarrow> bytes \<Rightarrow> int \<Rightarrow> 'c media_transport \<Rightarrow> 'c media_transport res" where
  "on_rtp_packet_received D packet ts t =
     (if \<not> is_srtp_active (mt_srtp t) then Inr t
      else res_bind (unprotect_rtp (de_srtp D) packet (mt_srtp t)) (\<lambda>(r, st).
        let t1 = t\<lparr> mt_srtp := st \<rparr> in case r of
          None \<Rightarrow> res_bind (if mt_unprotect_fail_count t1 mod 100 = 0
              then res_bind (parse_rtp_sequence_number (de_rtc D) packet) (\<lambda>_.
                   res_bind (parse_rtp_ssrc (de_rtc D) packet) (\<lambda>_. Inr ()))
              else Inr ()) (\<lambda>_. Inr (t1\<lparr> mt_unprotect_fail_count := mt_unprotect_fail_count t1 + 1 \<rparr>))
        | Some clear \<Rightarrow> Inr (tr_emit (Tr_rtp_packet clear ts) t1)))"

definition on_rtcp_packet_received :: "'c dtls_env \<Rightarrow> bytes \<Rightarrow> int \<Rightarrow> 'c media_transport \<Rightarrow> 'c media_transport res" where
  "on_rtcp_packet_received D packet ts t =
     (if \<not> is_srtp_active (mt_srtp t) then Inr t
      else res_bind (unprotect_rtcp (de_srtp D) packet (mt_srtp t)) (\<lambda>(r, st).
        let t1 = t\<lparr> mt_srtp := st \<rparr> in case r of
          None \<Rightarrow> res_bind (get_rtcp_type (Some packet) (length packet)) (\<lambda>_. Inr t1)
        | Some clear \<Rightarrow> Inr (tr_emit (Tr_rtcp_packet clear ts) t1)))"

definition srtp_on_read_packet :: "'c dtls_env \<Rightarrow> bytes \<Rightarrow> int \<Rightarrow> 'c media_transport \<Rightarrow> 'c media_transport res" where
  "srtp_on_read_packet D data ts t =
     res_bind (infer_rtp_packet_type data) (\<lambda>packet_type. case packet_type of
       k_unknown \<Rightarrow> Inr t
     | k_rtcp \<Rightarrow> on_rtcp_packet_received D data ts t
     | k_rtp \<Rightarrow> on_rtp_packet_received D data ts t)"

definition dtls_on_read_packet :: "'c dtls_env \<Rightarrow> bytes \<Rightarrow> int \<Rightarrow> 'c media_transport \<Rightarrow> 'c media_transport res" where
  "dtls_on_read_packet D buf ts t =
     (case dt_state t of
        k_new \<Rightarrow>
          if is_dtls_client_hello_packet buf then
            (let t1 = t\<lparr> dt_catched_client_hello := buf \<rparr> in
             if dt_dtls t1 = None \<and> dt_local_certificate t1 \<noteq> None
             then res_bind (setup_dtls D t1) (\<lambda>(_, t2). Inr t2) else Inr t1)
          else Inr t
      | k_closed \<Rightarrow> Inr t
      | k_failed \<Rightarrow> Inr t
      | _ \<Rightarrow>
          if is_dtls_packet buf then res_bind (handle_dtls_packet D buf t) (\<lambda>(_, t1). Inr t1)
          else if dt_state t \<noteq> k_connected then Inr t
          else if \<not> dtls_is_rtp_packet buf then Inr t
          else if mt_attached t then srtp_on_read_packet D buf ts t else Inr t)"

definition dtls_send_packet :: "'c dtls_env \<Rightarrow> bytes \<Rightarrow> 'c media_transport \<Rightarrow> int \<times> 'c media_transport" where
  "dtls_send_packet D data t = (channel_send D (mt_tick t) data, tr_emit (Tr_send data) (tr_tick t))"

definition send_rtp :: "'c dtls_env \<Rightarrow> bytes \<Rightarrow> 'c media_transport \<Rightarrow> (int \<times> 'c media_transport) res" where
  "send_rtp D data t =
     (if \<not> is_srtp_active (mt_srtp t) then Inr (- 1, t)
      else let rtp_auth_tag_len = fst (get_send_auth_tag_len (mt_srtp t)) in
        res_bind (parse_rtp_sequence_number (de_rtc D) data) (\<lambda>seq_num.
        res_bind (protect_rtp (de_srtp D) data (length data + rtp_auth_tag_len) (mt_srtp t)) (\<lambda>(r, st).
        let t1 = t\<lparr> mt_srtp := st \<rparr> in case r of
          None \<Rightarrow> res_bind (parse_rtp_ssrc (de_rtc D) data) (\<lambda>_. Inr (- 1, t1))
        | Some cipher \<Rightarrow> if mt_attached t then Inr (dtls_send_packet D cipher (t1\<lparr> mt_last_send_seq_num := seq_num \<rparr>))
                         else Inl Null_deref)))"

definition send_rtcp :: "'c dtls_env \<Rightarrow> bytes \<Rightarrow> 'c media_transport \<Rightarrow> (int \<times> 'c media_transport) res" where
  "send_rtcp D data t =
     (if \<not> is_srtp_active (mt_srtp t) then Inr (- 1, t)
      else let rtcp_auth_tag_len = snd (get_send_auth_tag_len (mt_srtp t)) in
        res_bind (protect_rtcp (de_srtp D) data (length data + rtcp_auth_tag_len + 4) (mt_srtp t)) (\<lambda>(r, st).
        let t1 = t\<lparr> mt_srtp := st \<rparr> in case r of
          None \<Rightarrow> res_bind (get_rtcp_type (Some data) (length data)) (\<lambda>_. Inr (- 1, t1))
        | Some cipher \<Rightarrow> if mt_attached t then Inr (dtls_send_packet D cipher t1) else Inl Null_deref))"

end
