(* ===== verification/Session_Description.thy ===== *)
theory Session_Description
  imports Ice_Connection
begin

text \<open>
  \<^verbatim>\<open>SessionDescription\<close> and what it is made of (\<^verbatim>\<open>src/pc/session_description.*\<close>, \<^verbatim>\<open>src/pc/codec_info.h\<close>,
  \<^verbatim>\<open>src/pc/stream_params.*\<close>): codecs, media contents, bundle groups, transport descriptions, and
  the text of an SDP.

  The string and fingerprint functions of \<^verbatim>\<open>rtc_base\<close> are a parameter, a record of operations; the
  parts of the C++ library the code uses (\<^verbatim>\<open>find\<close>, \<^verbatim>\<open>substr\<close>, printing integers, ordered maps) are
  modelled here.
\<close>

subsection \<open>Strings\<close>

definition crlf :: bytes where "crlf = [13, 10]"

text \<open>\<^verbatim>\<open>s.find(pat) != npos\<close>.\<close>

fun contains :: "bytes \<Rightarrow> bytes \<Rightarrow> bool" where
  "contains pat [] = (pat = [])"
| "contains pat (c # cs) = (take (length pat) (c # cs) = pat \<or> contains pat cs)"

text \<open>\<^verbatim>\<open>s.substr(n)\<close> throws \<^verbatim>\<open>std::out_of_range\<close> if \<open>n\<close> is past the end.\<close>

definition substr :: "nat \<Rightarrow> bytes \<Rightarrow> bytes res" where
  "substr n s = (if n \<le> length s then Inr (drop n s) else Inl Uncaught_exception)"

fun dec :: "nat \<Rightarrow> bytes" where
  "dec n = (if n < 10 then [48 + of_nat n] else dec (n div 10) @ [48 + of_nat (n mod 10)])"

declare dec.simps [simp del]

definition dec_int :: "int \<Rightarrow> bytes" where
  "dec_int i = (if i < 0 then 45 # dec (nat (- i)) else dec (nat i))"

text \<open>\<^verbatim>\<open>std::map<std::string, std::string>\<close>: iteration in the order of the keys.\<close>

fun bytes_less :: "bytes \<Rightarrow> bytes \<Rightarrow> bool" where
  "bytes_less _ [] = False"
| "bytes_less [] (_ # _) = True"
| "bytes_less (a # as) (b # bs) = (a < b \<or> a = b \<and> bytes_less as bs)"

fun map_put :: "bytes \<Rightarrow> bytes \<Rightarrow> (bytes \<times> bytes) list \<Rightarrow> (bytes \<times> bytes) list" where
  "map_put k v [] = [(k, v)]"
| "map_put k v ((k', v') # kvs) =
     (if k = k' then (k, v) # kvs else if bytes_less k k' then (k, v) # (k', v') # kvs else (k', v') # map_put k v kvs)"

subsection \<open>The library\<close>

record fingerprint =
  fp_algorithm :: bytes
  fp_digest :: bytes

record sdp_lib =
  rtc_tokenize :: "bytes \<Rightarrow> byte \<Rightarrow> bytes list"
  rtc_split :: "bytes \<Rightarrow> byte \<Rightarrow> bytes list"
  rtc_tokenize_first :: "bytes \<Rightarrow> byte \<Rightarrow> (bytes \<times> bytes) option"
  rtc_from_string :: "bytes \<Rightarrow> u32 option"
  fingerprint_from_rfc4572 :: "bytes \<Rightarrow> bytes \<Rightarrow> fingerprint option"
  fingerprint_from_certificate :: "nat \<Rightarrow> fingerprint option"
  rfc4572_fingerprint :: "fingerprint \<Rightarrow> bytes"
  ip_to_string :: "socket_address \<Rightarrow> bytes"

subsection \<open>Codecs and tracks\<close>

record feedback_param =
  fb_id :: bytes
  fb_param :: bytes

text \<open>\<open>ci_channels\<close> is \<open>Some\<close> for an \<^verbatim>\<open>AudioCodecInfo\<close>; \<^verbatim>\<open>as_audio()\<close> of any other codec is null.\<close>

record codec_info =
  ci_id :: int
  ci_name :: bytes
  ci_clockrate :: int
  ci_feedback_param :: "feedback_param list"
  ci_codec_param :: "(bytes \<times> bytes) list"
  ci_channels :: "int option"

definition FeedBackParam :: "string \<Rightarrow> string \<Rightarrow> feedback_param" where
  "FeedBackParam i p = \<lparr> fb_id = bytes_of i, fb_param = bytes_of p \<rparr>"

definition CodecInfo :: "int \<Rightarrow> string \<Rightarrow> int \<Rightarrow> int option \<Rightarrow> codec_info" where
  "CodecInfo i n r ch = \<lparr> ci_id = i, ci_name = bytes_of n, ci_clockrate = r, ci_feedback_param = [], ci_codec_param = [],
     ci_channels = ch \<rparr>"

record ssrc_group =
  sg_semantics :: bytes
  sg_ssrcs :: "u32 list"

record stream_params =
  sp_id :: bytes
  sp_ssrcs :: "u32 list"
  sp_ssrc_groups :: "ssrc_group list"
  sp_cname :: bytes
  sp_stream_id :: bytes

fun any_ssrc :: "u32 \<Rightarrow> u32 list \<Rightarrow> bool" where
  "any_ssrc ssrc [] = False"
| "any_ssrc ssrc (s # ss) = (if s = ssrc then True else any_ssrc ssrc ss)"

definition has_ssrc :: "u32 \<Rightarrow> stream_params \<Rightarrow> bool" where
  "has_ssrc ssrc sp = any_ssrc ssrc (sp_ssrcs sp)"

subsection \<open>Contents\<close>

datatype sdp_type = k_offer | k_answer
datatype media_type = MEDIA_TYPE_AUDIO | MEDIA_TYPE_VIDEO
datatype rtp_direction = k_send_recv | k_send_only | k_recv_only | k_inactive

record media_content =
  mc_type :: media_type
  mc_codecs :: "codec_info list"
  mc_direction :: rtp_direction
  mc_rtcp_mux :: bool
  mc_candidates :: "candidate list"
  mc_send_streams :: "stream_params list"

definition mc_mid :: "media_content \<Rightarrow> bytes" where
  "mc_mid c = (case mc_type c of MEDIA_TYPE_AUDIO \<Rightarrow> bytes_of ''audio'' | MEDIA_TYPE_VIDEO \<Rightarrow> bytes_of ''video'')"

definition set_direction :: "rtp_direction \<Rightarrow> media_content \<Rightarrow> media_content" where
  "set_direction d c = c\<lparr> mc_direction := d \<rparr>"

definition set_rtcp_mux :: "bool \<Rightarrow> media_content \<Rightarrow> media_content" where
  "set_rtcp_mux m c = c\<lparr> mc_rtcp_mux := m \<rparr>"

definition add_candidates :: "candidate list \<Rightarrow> media_content \<Rightarrow> media_content" where
  "add_candidates cs c = c\<lparr> mc_candidates := cs \<rparr>"

definition add_stream :: "stream_params \<Rightarrow> media_content \<Rightarrow> media_content" where
  "add_stream s c = c\<lparr> mc_send_streams := mc_send_streams c @ [s] \<rparr>"

definition content_of :: "media_type \<Rightarrow> codec_info list \<Rightarrow> media_content" where
  "content_of ty codecs = \<lparr> mc_type = ty, mc_codecs = codecs, mc_direction = k_inactive, mc_rtcp_mux = True,
     mc_candidates = [], mc_send_streams = [] \<rparr>"

definition AudioContentDescription :: media_content where
  "AudioContentDescription =
     (let codec = (CodecInfo 111 ''opus'' 48000 (Some 2))\<lparr> ci_feedback_param := [FeedBackParam ''transport-cc'' ''''],
        ci_codec_param := map_put (bytes_of ''useinbandfec'') (bytes_of ''1'') (map_put (bytes_of ''minptime'') (bytes_of ''10'') []) \<rparr>
      in content_of MEDIA_TYPE_AUDIO [codec])"

definition VideoContentDescription :: media_content where
  "VideoContentDescription =
     (let h264 = (CodecInfo 96 ''H264'' 90000 None)\<lparr>
            ci_feedback_param := [FeedBackParam ''goog-remb'' '''', FeedBackParam ''transport-cc'' '''',
              FeedBackParam ''ccm'' ''fir'', FeedBackParam ''nack'' '''', FeedBackParam ''nack'' ''pli''],
            ci_codec_param := map_put (bytes_of ''profile-level-id'') (bytes_of ''42e01f'')
              (map_put (bytes_of ''packetization-mode'') (bytes_of ''1'')
              (map_put (bytes_of ''level-asymmetry-allowed'') (bytes_of ''1'') [])) \<rparr>;
          rtx = (CodecInfo 97 ''rtx'' 90000 None)\<lparr> ci_codec_param := map_put (bytes_of ''apt'') (dec_int 96) [] \<rparr>
      in content_of MEDIA_TYPE_VIDEO [h264, rtx])"

subsection \<open>Groups and transports\<close>

record content_group =
  cg_semantics :: bytes
  cg_content_names :: "bytes list"

definition ContentGroup :: "bytes \<Rightarrow> content_group" where
  "ContentGroup s = \<lparr> cg_semantics = s, cg_content_names = [] \<rparr>"

definition has_content_name :: "bytes \<Rightarrow> content_group \<Rightarrow> bool" where
  "has_content_name n g = list_ex (\<lambda>name. name = n) (cg_content_names g)"

definition add_content_name :: "bytes \<Rightarrow> content_group \<Rightarrow> content_group" where
  "add_content_name n g = (if \<not> has_content_name n g then g\<lparr> cg_content_names := cg_content_names g @ [n] \<rparr> else g)"

datatype connection_role = NONE | ACTIVE | PASSIVE | ACTPASS | HOLDCONN

definition connection_role_to_string :: "connection_role \<Rightarrow> bytes" where
  "connection_role_to_string r = bytes_of (case r of ACTIVE \<Rightarrow> ''active'' | PASSIVE \<Rightarrow> ''passive'' | ACTPASS \<Rightarrow> ''actpass''
     | HOLDCONN \<Rightarrow> ''holdconn'' | NONE \<Rightarrow> ''none'')"

record transport_description =
  td_mid :: bytes
  td_ice_ufrag :: bytes
  td_ice_pwd :: bytes
  td_identity_fingerprint :: "fingerprint option"
  td_connection_role :: connection_role

definition TransportDescription :: transport_description where
  "TransportDescription = \<lparr> td_mid = [], td_ice_ufrag = [], td_ice_pwd = [], td_identity_fingerprint = None, td_connection_role = NONE \<rparr>"

subsection \<open>The description\<close>

record session_description =
  sd_type :: sdp_type
  sd_contents :: "media_content list"
  sd_content_groups :: "content_group list"
  sd_transport_infos :: "transport_description list"

definition SessionDescription :: "sdp_type \<Rightarrow> session_description" where
  "SessionDescription ty = \<lparr> sd_type = ty, sd_contents = [], sd_content_groups = [], sd_transport_infos = [] \<rparr>"

definition get_content :: "bytes \<Rightarrow> session_description \<Rightarrow> media_content option" where
  "get_content mid sd = find (\<lambda>c. mid = mc_mid c) (sd_contents sd)"

definition add_content :: "media_content \<Rightarrow> session_description \<Rightarrow> session_description" where
  "add_content c sd = sd\<lparr> sd_contents := sd_contents sd @ [c] \<rparr>"

definition add_group :: "content_group \<Rightarrow> session_description \<Rightarrow> session_description" where
  "add_group g sd = sd\<lparr> sd_content_groups := sd_content_groups sd @ [g] \<rparr>"

definition get_group_by_name :: "bytes \<Rightarrow> session_description \<Rightarrow> content_group list" where
  "get_group_by_name name sd = filter (\<lambda>g. cg_semantics g = name) (sd_content_groups sd)"

definition add_transport_info_params ::
    "sdp_lib \<Rightarrow> bytes \<Rightarrow> ice_parameters \<Rightarrow> nat option \<Rightarrow> session_description \<Rightarrow> bool \<times> session_description" where
  "add_transport_info_params S mid ip cert sd =
     (let td = TransportDescription\<lparr> td_mid := mid, td_ice_ufrag := ice_ufrag ip, td_ice_pwd := ice_pwd ip,
            td_connection_role := (if sd_type sd = k_offer then ACTPASS else ACTIVE) \<rparr>
      in case cert of
           None \<Rightarrow> (True, sd\<lparr> sd_transport_infos := sd_transport_infos sd @ [td] \<rparr>)
         | Some c \<Rightarrow> (case fingerprint_from_certificate S c of
             None \<Rightarrow> (False, sd)
           | Some fp \<Rightarrow> (True, sd\<lparr> sd_transport_infos := sd_transport_infos sd @ [td\<lparr> td_identity_fingerprint := Some fp \<rparr>] \<rparr>)))"

definition add_transport_info :: "transport_description \<Rightarrow> session_description \<Rightarrow> session_description" where
  "add_transport_info td sd = sd\<lparr> sd_transport_infos := sd_transport_infos sd @ [td] \<rparr>"

definition get_transport_info :: "bytes \<Rightarrow> session_description \<Rightarrow> transport_description option" where
  "get_transport_info mid sd = find (\<lambda>td. td_mid td = mid) (sd_transport_infos sd)"

definition is_bundle :: "bytes \<Rightarrow> session_description \<Rightarrow> bool" where
  "is_bundle mid sd = list_ex (\<lambda>g. list_ex (\<lambda>name. name = mid) (cg_content_names g)) (get_group_by_name (bytes_of ''BUNDLE'') sd)"

definition get_first_bundle_mid :: "session_description \<Rightarrow> bytes res" where
  "get_first_bundle_mid sd = (case get_group_by_name (bytes_of ''BUNDLE'') sd of
     [] \<Rightarrow> Inr []
   | g # _ \<Rightarrow> (case cg_content_names g of [] \<Rightarrow> Inl Out_of_bounds | n # _ \<Rightarrow> Inr n))"

subsection \<open>Text\<close>

text \<open>Every line the code writes ends in a carriage return and a line feed; the helper functions
  return their lines without it.\<close>

definition add_rtcp_fb_line :: "codec_info \<Rightarrow> bytes list" where
  "add_rtcp_fb_line codec = map (\<lambda>param. bytes_of ''a=rtcp-fb:'' @ dec_int (ci_id codec) @ bytes_of '' '' @ fb_id param @
     (if fb_param param \<noteq> [] then bytes_of '' '' @ fb_param param else [])) (ci_feedback_param codec)"

definition add_fmtp_line :: "codec_info \<Rightarrow> bytes list" where
  "add_fmtp_line codec = (if ci_codec_param codec \<noteq> []
     then [bytes_of ''a=fmtp:'' @ dec_int (ci_id codec) @ bytes_of '' '' @
       drop 1 (concat (map (\<lambda>(k, v). bytes_of '';'' @ k @ bytes_of ''='' @ v) (ci_codec_param codec)))]
     else [])"

definition build_rtp_map :: "media_content \<Rightarrow> bytes list res" where
  "build_rtp_map content = res_bind (res_map (\<lambda>codec.
     res_bind (if mc_type content = MEDIA_TYPE_AUDIO
               then (case ci_channels codec of None \<Rightarrow> Inl Null_deref | Some ch \<Rightarrow> Inr (bytes_of ''/'' @ dec_int ch)) else Inr [])
       (\<lambda>channels. Inr ((bytes_of ''a=rtpmap:'' @ dec_int (ci_id codec) @ bytes_of '' '' @ ci_name codec @ bytes_of ''/'' @
            dec_int (ci_clockrate codec) @ channels) # add_rtcp_fb_line codec @ add_fmtp_line codec)))
     (mc_codecs content)) (\<lambda>lss. Inr (concat lss))"

definition build_rtp_direction :: "media_content \<Rightarrow> bytes list" where
  "build_rtp_direction content = [bytes_of (case mc_direction content of k_send_recv \<Rightarrow> ''a=sendrecv''
     | k_recv_only \<Rightarrow> ''a=recvonly'' | k_send_only \<Rightarrow> ''a=sendonly'' | k_inactive \<Rightarrow> ''a=inactive'')]"

definition build_candidate :: "sdp_lib \<Rightarrow> media_content \<Rightarrow> bytes list" where
  "build_candidate S content = map (\<lambda>c. bytes_of ''a=candidate:'' @ c_foundation c
     @ bytes_of '' '' @ dec (component_id (c_component c)) @ bytes_of '' '' @ c_protocol c
     @ bytes_of '' '' @ dec (unat (c_priority c)) @ bytes_of '' '' @ ip_to_string S (c_address c)
     @ bytes_of '' '' @ dec (unat (c_port c)) @ bytes_of '' typ '' @ c_type c) (mc_candidates content)"

definition add_ssrc_line :: "u32 \<Rightarrow> string \<Rightarrow> bytes \<Rightarrow> bytes" where
  "add_ssrc_line ssrc attr value = bytes_of ''a=ssrc:'' @ dec (unat ssrc) @ bytes_of '' '' @ bytes_of attr @ bytes_of '':'' @ value"

definition track_lines :: "stream_params \<Rightarrow> bytes list" where
  "track_lines track =
     concat (map (\<lambda>g. if sg_ssrcs g = [] then []
       else [bytes_of ''a=ssrc-group:'' @ sg_semantics g @ concat (map (\<lambda>s. bytes_of '' '' @ dec (unat s)) (sg_ssrcs g))])
       (sp_ssrc_groups track)) @
     concat (map (\<lambda>s. [add_ssrc_line s ''cname'' (sp_cname track),
       add_ssrc_line s ''msid'' (sp_stream_id track @ bytes_of '' '' @ sp_id track),
       add_ssrc_line s ''mslabel'' (sp_stream_id track), add_ssrc_line s ''label'' (sp_id track)]) (sp_ssrcs track))"

definition build_ssrc :: "media_content \<Rightarrow> bytes list" where
  "build_ssrc content = concat (map track_lines (mc_send_streams content))"

definition k_media_protocol_dtls_savpf :: bytes where
  "k_media_protocol_dtls_savpf = bytes_of ''UDP/TLS/RTP/SAVPF''"

definition transport_lines :: "sdp_lib \<Rightarrow> transport_description option \<Rightarrow> bytes list" where
  "transport_lines S otd = (case otd of None \<Rightarrow> [] | Some td \<Rightarrow>
     [bytes_of ''a=ice-ufrag:'' @ td_ice_ufrag td, bytes_of ''a=ice-pwd:'' @ td_ice_pwd td] @
     (case td_identity_fingerprint td of None \<Rightarrow> [] | Some fp \<Rightarrow>
        [bytes_of ''a=fingerprint:'' @ fp_algorithm fp @ bytes_of '' '' @ rfc4572_fingerprint S fp,
         bytes_of ''a=setup:'' @ connection_role_to_string (td_connection_role td)]))"

definition content_lines :: "sdp_lib \<Rightarrow> session_description \<Rightarrow> media_content \<Rightarrow> bytes list res" where
  "content_lines S sd content =
     res_bind (build_rtp_map content) (\<lambda>rtp_map. Inr (
       [bytes_of ''m='' @ mc_mid content @ bytes_of '' 9 '' @ k_media_protocol_dtls_savpf @
          concat (map (\<lambda>codec. bytes_of '' '' @ dec_int (ci_id codec)) (mc_codecs content)),
        bytes_of ''c=IN IP4 0.0.0.0'', bytes_of ''a=rtcp:9 IN IP4 0.0.0.0''] @
       build_candidate S content @ transport_lines S (get_transport_info (mc_mid content) sd) @
       [bytes_of ''a=mid:'' @ mc_mid content] @ build_rtp_direction content @
       (if mc_rtcp_mux content then [bytes_of ''a=rtcp-mux''] else []) @
       [bytes_of ''a=extmap:12 http://www.webrtc.org/experiments/rtp-hdrext/abs-capture-time''] @
       rtp_map @ build_ssrc content))"

definition sdp_lines :: "sdp_lib \<Rightarrow> session_description \<Rightarrow> bytes list res" where
  "sdp_lines S sd =
     res_bind (res_map (content_lines S sd) (sd_contents sd)) (\<lambda>lss. Inr (
       [bytes_of ''v=0'', bytes_of ''o=- 0 2 IN IP4 127.0.0.0'', bytes_of ''s=-'', bytes_of ''t=0 0''] @
       (let groups = get_group_by_name (bytes_of ''BUNDLE'') sd in
        if groups \<noteq> [] then [bytes_of ''a=group:BUNDLE'' @
          concat (map (\<lambda>g. concat (map (\<lambda>name. bytes_of '' '' @ name) (cg_content_names g))) groups)] else []) @
       [bytes_of ''a=msid-semantic: WMS''] @ concat lss))"

definition sdp_to_string :: "sdp_lib \<Rightarrow> session_description \<Rightarrow> bytes res" where
  "sdp_to_string S sd = res_bind (sdp_lines S sd) (\<lambda>ls. Inr (concat (map (\<lambda>l. l @ crlf) ls)))"

end
