(* ===== verification/Transport_Controller.thy ===== *)
theory Transport_Controller
  imports Ice_Agent Dtls_Transport Session_Description
begin

text \<open>
  \<^verbatim>\<open>TransportController\<close> (\<^verbatim>\<open>src/pc/transport_controller.*\<close>): one ICE channel and one DTLS-SRTP transport
  for each media section that is not bundled into another, and the aggregation of their states into
  the state of the peer connection.

  The two maps of the class have the same keys; they are one list of named transports, each with the
  index of its channel in the agent.  The order of the list matters to no operation.  A signal of a
  channel reaches the agent first and then the DTLS transport, in the order the slots were
  connected; the controller's slots run in the middle of those calls and see the states published by
  then: \<open>tt_seen\<close> is the DTLS state of the last replayed event, as \<open>ac_seen\<close> is the ICE state.  The
  SRTP reference count is shared by all transports, so it is kept here and lent to each call.
\<close>

subsection \<open>State\<close>

datatype peer_connection_state = k_new | k_connecting | k_connected | k_disconnected | k_failed | k_closed

record 'c tc_transport =
  tt_name :: bytes
  tt_channel :: nat
  tt_media :: "'c media_transport"
  tt_seen :: dtls_transport_state

datatype tc_event =
    Tc_candidate_allocate_done bytes ice_component "candidate list"
  | Tc_connection_state peer_connection_state
  | Tc_rtp_packet bytes int
  | Tc_rtcp_packet bytes int

record 'c transport_controller =
  tc_agent :: ice_agent
  tc_local_certificate :: "nat option"
  tc_transports :: "'c tc_transport list"
  tc_global :: srtp_global
  tc_pc_state :: peer_connection_state
  tc_out :: "tc_event list"

definition TransportController_new :: "srtp_global \<Rightarrow> 'c transport_controller" where
  "TransportController_new g = \<lparr> tc_agent = IceAgent_new, tc_local_certificate = None, tc_transports = [], tc_global = g,
     tc_pc_state = k_new, tc_out = [] \<rparr>"

definition tc_set_local_certificate :: "nat option \<Rightarrow> 'c transport_controller \<Rightarrow> 'c transport_controller" where
  "tc_set_local_certificate cert tc = tc\<lparr> tc_local_certificate := cert \<rparr>"

subsection \<open>Aggregation\<close>

definition states_equal :: "'s \<Rightarrow> 's list \<Rightarrow> nat" where
  "states_equal st states = length (filter (\<lambda>x. x = st) states)"

definition aggregate_pc_state :: "dtls_transport_state list \<Rightarrow> ice_transport_state list \<Rightarrow> peer_connection_state" where
  "aggregate_pc_state dtls ice =
     (let total_connected = states_equal ice_transport_state.k_connected ice + states_equal dtls_transport_state.k_connected dtls;
          total_dtls_connecting = states_equal dtls_transport_state.k_connecting dtls;
          total_failed = states_equal ice_transport_state.k_failed ice + states_equal dtls_transport_state.k_failed dtls;
          total_closed = states_equal ice_transport_state.k_closed ice + states_equal dtls_transport_state.k_closed dtls;
          total_new = states_equal ice_transport_state.k_new ice + states_equal dtls_transport_state.k_new dtls;
          total_ice_checking = states_equal k_checking ice;
          total_ice_disconnected = states_equal ice_transport_state.k_disconnected ice;
          total_ice_complete = states_equal k_completed ice;
          total_transports = length dtls * 2
      in if total_failed > 0 then k_failed
         else if total_ice_disconnected > 0 then k_disconnected
         else if total_new + total_closed = total_transports then k_new
         else if total_ice_checking + total_dtls_connecting + total_new > 0 then k_connecting
         else if total_connected + total_ice_complete + total_closed = total_transports then k_connected
         else k_new)"

definition tc_dtls_states :: "'c transport_controller \<Rightarrow> dtls_transport_state list" where
  "tc_dtls_states tc = map tt_seen (tc_transports tc)"

definition tc_ice_states :: "'c transport_controller \<Rightarrow> ice_transport_state list" where
  "tc_ice_states tc = map (\<lambda>t. ac_seen (ag_channels (tc_agent tc) ! tt_channel t)) (tc_transports tc)"

definition tc_emit :: "tc_event \<Rightarrow> 'c transport_controller \<Rightarrow> 'c transport_controller" where
  "tc_emit e tc = tc\<lparr> tc_out := tc_out tc @ [e] \<rparr>"

definition tc_update_state :: "'c transport_controller \<Rightarrow> 'c transport_controller" where
  "tc_update_state tc =
     (let pc_state = aggregate_pc_state (tc_dtls_states tc) (tc_ice_states tc)
      in if tc_pc_state tc \<noteq> pc_state then tc_emit (Tc_connection_state pc_state) (tc\<lparr> tc_pc_state := pc_state \<rparr>) else tc)"

subsection \<open>Signals of a transport\<close>

definition tc_see_dtls :: "nat \<Rightarrow> dtls_transport_state \<Rightarrow> 'c transport_controller \<Rightarrow> 'c transport_controller" where
  "tc_see_dtls k st tc = tc\<lparr> tc_transports := (tc_transports tc)[k := (tc_transports tc ! k)\<lparr> tt_seen := st \<rparr>] \<rparr>"

definition tc_on_transport_event :: "nat \<Rightarrow> transport_event \<Rightarrow> 'c transport_controller \<Rightarrow> 'c transport_controller" where
  "tc_on_transport_event k ev tc = (case ev of
      Tr_dtls_state st \<Rightarrow> tc_update_state (tc_see_dtls k st tc)
    | Tr_writable_state _ \<Rightarrow> tc_update_state tc
    | Tr_receiving_state _ \<Rightarrow> tc_update_state tc
    | Tr_rtp_packet packet ts \<Rightarrow> tc_emit (Tc_rtp_packet packet ts) tc
    | Tr_rtcp_packet packet ts \<Rightarrow> tc_emit (Tc_rtcp_packet packet ts) tc
    | _ \<Rightarrow> tc)"

text \<open>Transport \<open>k\<close> has become \<open>t'\<close>: its new events reach the controller.\<close>

definition tc_settle :: "nat \<Rightarrow> 'c media_transport \<Rightarrow> 'c transport_controller \<Rightarrow> 'c transport_controller" where
  "tc_settle k t' tc =
     (let old = tc_transports tc ! k
      in fold (tc_on_transport_event k) (drop (length (mt_out (tt_media old))) (mt_out t'))
           (tc\<lparr> tc_transports := (tc_transports tc)[k := old\<lparr> tt_media := t' \<rparr>], tc_global := mt_global t' \<rparr>))"

definition tc_call :: "nat \<Rightarrow> ('c media_transport \<Rightarrow> ('r \<times> 'c media_transport) res) \<Rightarrow> 'c transport_controller \<Rightarrow> ('r \<times> 'c transport_controller) res" where
  "tc_call k f tc = res_bind (f ((tt_media (tc_transports tc ! k))\<lparr> mt_global := tc_global tc \<rparr>)) (\<lambda>(r, t').
     Inr (r, tc_settle k t' tc))"

subsection \<open>Signals of the agent and of a channel\<close>

definition tc_on_agent_event :: "agent_event \<Rightarrow> 'c transport_controller \<Rightarrow> 'c transport_controller" where
  "tc_on_agent_event ev tc = (case ev of
      Ag_candidate_allocate_done name component cs \<Rightarrow> tc_emit (Tc_candidate_allocate_done name component cs) tc
    | Ag_ice_state _ \<Rightarrow> tc_update_state tc)"

definition tc_agent_slot :: "nat \<Rightarrow> channel_event \<Rightarrow> 'c transport_controller \<Rightarrow> 'c transport_controller" where
  "tc_agent_slot i ev tc =
     (let ag = agent_on_event i ev (tc_agent tc)
      in fold tc_on_agent_event (drop (length (ag_out (tc_agent tc))) (ag_out ag)) (tc\<lparr> tc_agent := ag \<rparr>))"

fun transport_at :: "nat \<Rightarrow> 'c tc_transport list \<Rightarrow> nat option" where
  "transport_at i [] = None"
| "transport_at i (t # ts) = (if tt_channel t = i then Some 0 else map_option Suc (transport_at i ts))"

definition dtls_slot :: "'c dtls_env \<Rightarrow> channel_event \<Rightarrow> 'c media_transport \<Rightarrow> (unit \<times> 'c media_transport) res" where
  "dtls_slot D ev t = (case ev of
      Ev_read_packet buf ts \<Rightarrow> map_sum id (Pair ()) (dtls_on_read_packet D buf ts t)
    | Ev_writable_state_change w \<Rightarrow> map_sum id (Pair ()) (dtls_on_writable_state D (t\<lparr> mt_channel_writable := w \<rparr>))
    | Ev_receiving_state_change r \<Rightarrow> Inr ((), dtls_on_receiving_state (t\<lparr> mt_channel_receiving := r \<rparr>))
    | _ \<Rightarrow> Inr ((), t))"

definition tc_on_channel_event :: "'c dtls_env \<Rightarrow> nat \<Rightarrow> channel_event \<Rightarrow> 'c transport_controller \<Rightarrow> 'c transport_controller res" where
  "tc_on_channel_event D i ev tc =
     (let tc1 = tc_agent_slot i ev tc
      in case transport_at i (tc_transports tc1) of
           None \<Rightarrow> Inr tc1
         | Some k \<Rightarrow> map_sum id snd (tc_call k (dtls_slot D ev) tc1))"

text \<open>Channel \<open>i\<close> has become \<open>s'\<close>.\<close>

definition tc_channel_moves :: "'c dtls_env \<Rightarrow> nat \<Rightarrow> ice_channel \<Rightarrow> 'c transport_controller \<Rightarrow> 'c transport_controller res" where
  "tc_channel_moves D i s' tc =
     (let ag = tc_agent tc; s = ac_channel (ag_channels ag ! i)
      in res_fold (tc_on_channel_event D i) (drop (length (ch_out s)) (ch_out s'))
           (tc\<lparr> tc_agent := ag\<lparr> ag_channels := (ag_channels ag)[i := (ag_channels ag ! i)\<lparr> ac_channel := s' \<rparr>] \<rparr> \<rparr>))"

subsection \<open>Transports by name\<close>

fun transport_named :: "bytes \<Rightarrow> 'c tc_transport list \<Rightarrow> nat option" where
  "transport_named name [] = None"
| "transport_named name (t # ts) = (if tt_name t = name then Some 0 else map_option Suc (transport_named name ts))"

definition get_dtls_transport :: "bytes \<Rightarrow> 'c transport_controller \<Rightarrow> nat option" where
  "get_dtls_transport name tc = transport_named name (tc_transports tc)"

text \<open>Deleting a replaced transport destroys its SRTP sessions.\<close>

definition add_transport :: "'c tc_transport \<Rightarrow> 'c transport_controller \<Rightarrow> 'c transport_controller" where
  "add_transport t tc = (case transport_named (tt_name t) (tc_transports tc) of
     Some k \<Rightarrow> tc\<lparr> tc_transports := (tc_transports tc)[k := t],
       tc_global := snd (reset_params (mt_srtp (tt_media (tc_transports tc ! k))) (tc_global tc)) \<rparr>
   | None \<Rightarrow> tc\<lparr> tc_transports := tc_transports tc @ [t] \<rparr>)"

subsection \<open>Descriptions\<close>

definition bundled_away :: "session_description \<Rightarrow> bytes \<Rightarrow> bool res" where
  "bundled_away desc mid = (if is_bundle mid desc then res_bind (get_first_bundle_mid desc) (\<lambda>m. Inr (mid \<noteq> m)) else Inr False)"

definition set_local_content :: "'c dtls_env \<Rightarrow> session_description \<Rightarrow> media_content \<Rightarrow> 'c transport_controller \<Rightarrow> 'c transport_controller res" where
  "set_local_content D desc content tc =
     (let mid = mc_mid content in
      res_bind (bundled_away desc mid) (\<lambda>skip. if skip then Inr tc
      else let ag1 = create_channel mid RTP (tc_agent tc);
               ag2 = (case get_transport_info mid desc of None \<Rightarrow> ag1
                      | Some td \<Rightarrow> agent_set_ice_params mid RTP \<lparr> ice_ufrag = td_ice_ufrag td, ice_pwd = td_ice_pwd td \<rparr> ag1)
           in case channel_index mid RTP (ag_channels ag2) of
                None \<Rightarrow> Inl Null_deref
              | Some i \<Rightarrow>
                  let s = ac_channel (ag_channels ag2 ! i);
                      t0 = DtlsTransport_new D True (ch_writable s) (ch_receiving s) (tc_global tc);
                      t1 = snd (set_local_certificate (tc_local_certificate tc) t0)
                  in res_bind (set_dtls_transport D t1) (\<lambda>t2.
                       Inr (add_transport \<lparr> tt_name = mid, tt_channel = i, tt_media = t2, tt_seen = dt_state t2 \<rparr>
                         (tc\<lparr> tc_agent := ag2 \<rparr>)))))"

definition tc_gather :: "ice_env \<Rightarrow> 'c dtls_env \<Rightarrow> int \<Rightarrow> int \<Rightarrow> (socket_calls \<times> addr_family \<times> bytes) list \<Rightarrow>
    'c transport_controller \<Rightarrow> 'c transport_controller res" where
  "tc_gather E D min_port max_port nets tc =
     res_fold (\<lambda>i tc. tc_channel_moves D i (gathering_candidate E min_port max_port nets (ac_channel (ag_channels (tc_agent tc) ! i))) tc)
       [0..<length (ag_channels (tc_agent tc))] tc"

definition set_local_description :: "ice_env \<Rightarrow> 'c dtls_env \<Rightarrow> int \<Rightarrow> int \<Rightarrow> (socket_calls \<times> addr_family \<times> bytes) list \<Rightarrow>
    session_description option \<Rightarrow> 'c transport_controller \<Rightarrow> (int \<times> 'c transport_controller) res" where
  "set_local_description E D min_port max_port nets odesc tc = (case odesc of
     None \<Rightarrow> Inr (- 1, tc)
   | Some desc \<Rightarrow> res_bind (res_fold (set_local_content D desc) (sd_contents desc) tc) (\<lambda>tc1.
       res_bind (tc_gather E D min_port max_port nets tc1) (\<lambda>tc2. Inr (0, tc2))))"

definition tc_set_remote_ice_params :: "ice_env \<Rightarrow> 'c dtls_env \<Rightarrow> bytes \<Rightarrow> ice_parameters \<Rightarrow> 'c transport_controller \<Rightarrow> 'c transport_controller res" where
  "tc_set_remote_ice_params E D mid params tc = (case channel_index mid RTP (ag_channels (tc_agent tc)) of
     None \<Rightarrow> Inr tc
   | Some i \<Rightarrow> res_bind (set_remote_ice_params E params (ac_channel (ag_channels (tc_agent tc) ! i))) (\<lambda>s'.
       tc_channel_moves D i s' tc))"

definition set_remote_content :: "ice_env \<Rightarrow> 'c dtls_env \<Rightarrow> session_description \<Rightarrow> media_content \<Rightarrow> 'c transport_controller \<Rightarrow> 'c transport_controller res" where
  "set_remote_content E D desc content tc =
     (let mid = mc_mid content in
      res_bind (bundled_away desc mid) (\<lambda>skip. if skip then Inr tc
      else case get_transport_info mid desc of
        None \<Rightarrow> Inr tc
      | Some td \<Rightarrow> res_bind (tc_set_remote_ice_params E D mid \<lparr> ice_ufrag = td_ice_ufrag td, ice_pwd = td_ice_pwd td \<rparr> tc) (\<lambda>tc1.
          case get_dtls_transport mid tc1 of
            None \<Rightarrow> Inr tc1
          | Some k \<Rightarrow> (case td_identity_fingerprint td of
              None \<Rightarrow> Inl Null_deref
            | Some fp \<Rightarrow> map_sum id snd (tc_call k (set_remote_fingerprint D (fp_algorithm fp) (fp_digest fp)) tc1)))))"

definition set_remote_description :: "ice_env \<Rightarrow> 'c dtls_env \<Rightarrow> session_description option \<Rightarrow> 'c transport_controller \<Rightarrow> (int \<times> 'c transport_controller) res" where
  "set_remote_description E D odesc tc = (case odesc of
     None \<Rightarrow> Inr (- 1, tc)
   | Some desc \<Rightarrow> res_bind (res_fold (set_remote_content E D desc) (sd_contents desc) tc) (\<lambda>tc1. Inr (0, tc1)))"

subsection \<open>Sending\<close>

definition tc_send_rtp :: "'c dtls_env \<Rightarrow> bytes \<Rightarrow> bytes \<Rightarrow> 'c transport_controller \<Rightarrow> (int \<times> 'c transport_controller) res" where
  "tc_send_rtp D name data tc = (case transport_named name (tc_transports tc) of
     None \<Rightarrow> Inr (- 1, tc) | Some k \<Rightarrow> tc_call k (send_rtp D data) tc)"

definition tc_send_rtcp :: "'c dtls_env \<Rightarrow> bytes \<Rightarrow> bytes \<Rightarrow> 'c transport_controller \<Rightarrow> (int \<times> 'c transport_controller) res" where
  "tc_send_rtcp D name data tc = (case transport_named name (tc_transports tc) of
     None \<Rightarrow> Inr (- 1, tc) | Some k \<Rightarrow> tc_call k (send_rtcp D data) tc)"

text \<open>The destructor deletes the transports, with their SRTP sessions, and then the agent.\<close>

definition TransportController_destruct :: "ice_env \<Rightarrow> 'c transport_controller \<Rightarrow> srtp_global res" where
  "TransportController_destruct E tc =
     (let g = fold (\<lambda>t g. snd (reset_params (mt_srtp (tt_media t)) g)) (tc_transports tc) (tc_global tc)
      in res_bind (IceAgent_destruct E (tc_agent tc)) (\<lambda>_. Inr g))"

end
