(* ===== verification/Sdp_Parser.thy ===== *)
theory Sdp_Parser
  imports Session_Description
begin

text \<open>
  The SDP parser of \<^verbatim>\<open>PeerConnection::set_remote_sdp\<close> and its helpers (\<^verbatim>\<open>src/pc/peer_connection.cpp\<close>).
  A helper that returns \<^verbatim>\<open>-1\<close> gives \<open>None\<close>; an exception of the C++ library is an error.

  The two content objects and the two transport descriptions are created before the first line is
  read and shared by pointer with the description that is being built; \<open>pa_contents\<close> lists which of
  the two contents the description points to, so that tracks added after the last line show there.
\<close>

record ssrc_info =
  si_ssrc_id :: u32
  si_cname :: bytes
  si_stream_id :: bytes
  si_track_id :: bytes

definition get_attribute_text :: "sdp_lib \<Rightarrow> bytes \<Rightarrow> bytes" where
  "get_attribute_text S line = (case rtc_tokenize S line 58 of [_, f] \<Rightarrow> f | _ \<Rightarrow> [])"

definition to_lower :: "bytes \<Rightarrow> bytes" where
  "to_lower = map (\<lambda>b. if 65 \<le> b \<and> b \<le> 90 then b + 32 else b)"

definition parse_transport_info :: "sdp_lib \<Rightarrow> bytes \<Rightarrow> transport_description \<Rightarrow> transport_description option res" where
  "parse_transport_info S line td =
     (if contains (bytes_of ''a=ice-ufrag'') line then
        (let u = get_attribute_text S line in Inr (if u = [] then None else Some (td\<lparr> td_ice_ufrag := u \<rparr>)))
      else if contains (bytes_of ''a=ice-pwd'') line then
        (let p = get_attribute_text S line in Inr (if p = [] then None else Some (td\<lparr> td_ice_pwd := p \<rparr>)))
      else if contains (bytes_of ''a=fingerprint'') line then
        (case rtc_tokenize S line 32 of
           [i0, i1] \<Rightarrow> res_bind (substr 14 i0) (\<lambda>alg.
             case fingerprint_from_rfc4572 S (to_lower alg) i1 of
               None \<Rightarrow> Inr None
             | Some fp \<Rightarrow> Inr (Some (td\<lparr> td_identity_fingerprint := Some fp \<rparr>)))
         | _ \<Rightarrow> Inr None)
      else Inr (Some td))"

fun update_ssrc :: "u32 \<Rightarrow> (ssrc_info \<Rightarrow> ssrc_info) \<Rightarrow> ssrc_info list \<Rightarrow> ssrc_info list" where
  "update_ssrc ssrc f [] = [f \<lparr> si_ssrc_id = ssrc, si_cname = [], si_stream_id = [], si_track_id = [] \<rparr>]"
| "update_ssrc ssrc f (i # is) = (if si_ssrc_id i = ssrc then f i # is else i # update_ssrc ssrc f is)"

definition parse_ssrc_info :: "sdp_lib \<Rightarrow> bytes \<Rightarrow> ssrc_info list \<Rightarrow> ssrc_info list option res" where
  "parse_ssrc_info S line infos =
     (if \<not> contains (bytes_of ''a=ssrc:'') line then Inr (Some infos)
      else res_bind (substr 2 line) (\<lambda>l. case rtc_tokenize_first S l 32 of
        None \<Rightarrow> Inr None
      | Some (field1, field2) \<Rightarrow> res_bind (substr 5 field1) (\<lambda>ssrc_id_s.
          case rtc_from_string S ssrc_id_s of
            None \<Rightarrow> Inr None
          | Some ssrc_id \<Rightarrow> (case rtc_tokenize_first S field2 58 of
              None \<Rightarrow> Inr None
            | Some (attribute, value) \<Rightarrow>
                if attribute = bytes_of ''cname''
                then Inr (Some (update_ssrc ssrc_id (\<lambda>i. i\<lparr> si_cname := value \<rparr>) infos))
                else if attribute = bytes_of ''msid'' then
                  (case rtc_split S value 32 of
                     [f0] \<Rightarrow> Inr (Some (update_ssrc ssrc_id (\<lambda>i. i\<lparr> si_stream_id := f0 \<rparr>) infos))
                   | [f0, f1] \<Rightarrow> Inr (Some (update_ssrc ssrc_id (\<lambda>i. i\<lparr> si_stream_id := f0, si_track_id := f1 \<rparr>) infos))
                   | _ \<Rightarrow> Inr None)
                else Inr (Some (update_ssrc ssrc_id (\<lambda>i. i) infos))))))"

fun update_track :: "bytes \<Rightarrow> (stream_params \<Rightarrow> stream_params) \<Rightarrow> stream_params list \<Rightarrow> stream_params list" where
  "update_track tid f [] = [f \<lparr> sp_id = tid, sp_ssrcs = [], sp_ssrc_groups = [], sp_cname = [], sp_stream_id = [] \<rparr>]"
| "update_track tid f (t # ts) = (if sp_id t = tid then f t # ts else t # update_track tid f ts)"

definition create_track_from_ssrc_info :: "ssrc_info list \<Rightarrow> stream_params list \<Rightarrow> stream_params list" where
  "create_track_from_ssrc_info infos tracks =
     fold (\<lambda>i. update_track (si_track_id i) (\<lambda>t. t\<lparr> sp_cname := si_cname i, sp_stream_id := si_stream_id i,
       sp_ssrcs := sp_ssrcs t @ [si_ssrc_id i] \<rparr>)) infos tracks"

fun parse_ssrcs :: "sdp_lib \<Rightarrow> bytes list \<Rightarrow> u32 list option" where
  "parse_ssrcs S [] = Some []"
| "parse_ssrcs S (f # fs) = (case rtc_from_string S f of None \<Rightarrow> None | Some v \<Rightarrow> map_option ((#) v) (parse_ssrcs S fs))"

definition parse_ssrc_group_info :: "sdp_lib \<Rightarrow> bytes \<Rightarrow> ssrc_group list \<Rightarrow> ssrc_group list option res" where
  "parse_ssrc_group_info S line groups =
     (if \<not> contains (bytes_of ''a=ssrc-group:'') line then Inr (Some groups)
      else res_bind (substr 2 line) (\<lambda>l. case rtc_split S l 32 of
        f0 # f1 # fs \<Rightarrow>
          (let semantics = get_attribute_text S f0 in
           if semantics = [] then Inr None
           else (case parse_ssrcs S (f1 # fs) of None \<Rightarrow> Inr None
             | Some ssrcs \<Rightarrow> Inr (Some (groups @ [\<lparr> sg_semantics = semantics, sg_ssrcs = ssrcs \<rparr>]))))
      | _ \<Rightarrow> Inr None))"

subsection \<open>The lines of an answer\<close>

record sdp_parse =
  pa_groups :: "content_group list"
  pa_contents :: "media_type list"
  pa_media_type :: bytes
  pa_audio_td :: transport_description
  pa_video_td :: transport_description
  pa_audio_ssrc :: "ssrc_info list"
  pa_video_ssrc :: "ssrc_info list"
  pa_video_groups :: "ssrc_group list"

definition parse_start :: sdp_parse where
  "parse_start = \<lparr> pa_groups = [], pa_contents = [], pa_media_type = [], pa_audio_td = TransportDescription,
     pa_video_td = TransportDescription, pa_audio_ssrc = [], pa_video_ssrc = [], pa_video_groups = [] \<rparr>"

text \<open>The outcome of a line: go on, or return \<^verbatim>\<open>-1\<close> leaving what has been built.\<close>

datatype parse_step = Go sdp_parse | Stop sdp_parse

definition parse_session_line :: "sdp_lib \<Rightarrow> bytes \<Rightarrow> sdp_parse \<Rightarrow> parse_step res" where
  "parse_session_line S line pa =
     (if contains (bytes_of ''a=group:BUNDLE'') line then
        (case rtc_split S line 32 of
           _ # n # ns \<Rightarrow> Inr (Go (pa\<lparr> pa_groups := pa_groups pa @ [fold add_content_name (n # ns) (ContentGroup (bytes_of ''BUNDLE''))] \<rparr>))
         | _ \<Rightarrow> Inr (Go pa))
      else if contains (bytes_of ''m='') line then
        (case rtc_split S line 32 of
           i0 # i1 # i2 # is \<Rightarrow> res_bind (substr 2 i0) (\<lambda>ty.
             let pa1 = pa\<lparr> pa_media_type := ty \<rparr> in
             Inr (Go (if ty = bytes_of ''audio'' then
                   pa1\<lparr> pa_contents := pa_contents pa1 @ [MEDIA_TYPE_AUDIO], pa_audio_td := (pa_audio_td pa1)\<lparr> td_mid := bytes_of ''audio'' \<rparr> \<rparr>
                 else if ty = bytes_of ''video'' then
                   pa1\<lparr> pa_contents := pa_contents pa1 @ [MEDIA_TYPE_VIDEO], pa_video_td := (pa_video_td pa1)\<lparr> td_mid := bytes_of ''video'' \<rparr> \<rparr>
                 else pa1)))
         | _ \<Rightarrow> Inr (Stop pa))
      else Inr (Go pa))"

definition parse_audio_line :: "sdp_lib \<Rightarrow> bytes \<Rightarrow> sdp_parse \<Rightarrow> parse_step res" where
  "parse_audio_line S line pa =
     res_bind (parse_transport_info S line (pa_audio_td pa)) (\<lambda>r. case r of None \<Rightarrow> Inr (Stop pa)
     | Some td \<Rightarrow> let pa1 = pa\<lparr> pa_audio_td := td \<rparr> in
         res_bind (parse_ssrc_info S line (pa_audio_ssrc pa1)) (\<lambda>r. case r of None \<Rightarrow> Inr (Stop pa1)
         | Some infos \<Rightarrow> Inr (Go (pa1\<lparr> pa_audio_ssrc := infos \<rparr>))))"

definition parse_video_line :: "sdp_lib \<Rightarrow> bytes \<Rightarrow> sdp_parse \<Rightarrow> parse_step res" where
  "parse_video_line S line pa =
     res_bind (parse_transport_info S line (pa_video_td pa)) (\<lambda>r. case r of None \<Rightarrow> Inr (Stop pa)
     | Some td \<Rightarrow> let pa1 = pa\<lparr> pa_video_td := td \<rparr> in
         res_bind (parse_ssrc_group_info S line (pa_video_groups pa1)) (\<lambda>rg.
         let pa2 = (case rg of None \<Rightarrow> pa1 | Some gs \<Rightarrow> pa1\<lparr> pa_video_groups := gs \<rparr>) in
         res_bind (parse_ssrc_info S line (pa_video_ssrc pa2)) (\<lambda>r. case r of None \<Rightarrow> Inr (Stop pa2)
         | Some infos \<Rightarrow> Inr (Go (pa2\<lparr> pa_video_ssrc := infos \<rparr>)))))"

definition parse_line :: "sdp_lib \<Rightarrow> bytes \<Rightarrow> sdp_parse \<Rightarrow> parse_step res" where
  "parse_line S line pa =
     res_bind (parse_session_line S line pa) (\<lambda>st. case st of
       Stop pa1 \<Rightarrow> Inr (Stop pa1)
     | Go pa1 \<Rightarrow>
         if pa_media_type pa1 = bytes_of ''audio'' then parse_audio_line S line pa1
         else if pa_media_type pa1 = bytes_of ''video'' then parse_video_line S line pa1
         else Inr (Go pa1))"

fun parse_lines :: "sdp_lib \<Rightarrow> bytes list \<Rightarrow> sdp_parse \<Rightarrow> parse_step res" where
  "parse_lines S [] pa = Inr (Go pa)"
| "parse_lines S (l # ls) pa = res_bind (parse_line S l pa) (\<lambda>st. case st of
     Stop pa1 \<Rightarrow> Inr (Stop pa1) | Go pa1 \<Rightarrow> parse_lines S ls pa1)"

subsection \<open>From the lines to a description\<close>

text \<open>The description the pointers show, with the tracks added to the contents so far.\<close>

definition parsed_description :: "stream_params list \<Rightarrow> stream_params list \<Rightarrow> sdp_parse \<Rightarrow> session_description" where
  "parsed_description audio_tracks video_tracks pa =
     (SessionDescription k_answer)\<lparr> sd_content_groups := pa_groups pa,
       sd_contents := map (\<lambda>ty. case ty of
           MEDIA_TYPE_AUDIO \<Rightarrow> fold add_stream audio_tracks AudioContentDescription
         | MEDIA_TYPE_VIDEO \<Rightarrow> fold add_stream video_tracks VideoContentDescription) (pa_contents pa) \<rparr>"

definition assign_group :: "ssrc_group \<Rightarrow> stream_params list \<Rightarrow> stream_params list" where
  "assign_group g tracks = (case sg_ssrcs g of [] \<Rightarrow> tracks
     | ssrc # _ \<Rightarrow> map (\<lambda>t. if has_ssrc ssrc t then t\<lparr> sp_ssrc_groups := sp_ssrc_groups t @ [g] \<rparr> else t) tracks)"

definition finish_parse :: "sdp_parse \<Rightarrow> session_description" where
  "finish_parse pa =
     (let audio_tracks = (if pa_audio_ssrc pa \<noteq> [] then create_track_from_ssrc_info (pa_audio_ssrc pa) [] else []);
          video_tracks = (if pa_video_ssrc pa \<noteq> []
            then fold assign_group (pa_video_groups pa) (create_track_from_ssrc_info (pa_video_ssrc pa) []) else [])
      in add_transport_info (pa_video_td pa) (add_transport_info (pa_audio_td pa)
           (parsed_description audio_tracks video_tracks pa)))"

definition strip_cr :: "bytes \<Rightarrow> bytes \<Rightarrow> bytes" where
  "strip_cr sdp field = (if contains crlf sdp then take (length field - 1) field else field)"

text \<open>\<open>None\<close>: no line at all, and the description stays as it was.  Otherwise the new description and
  whether the parser went through.\<close>

definition parse_answer :: "sdp_lib \<Rightarrow> bytes \<Rightarrow> (bool \<times> session_description) option res" where
  "parse_answer S sdp =
     (let fields = rtc_tokenize S sdp 10 in
      if fields = [] then Inr None
      else res_bind (parse_lines S (map (strip_cr sdp) fields) parse_start) (\<lambda>st. case st of
        Stop pa \<Rightarrow> Inr (Some (False, parsed_description [] [] pa))
      | Go pa \<Rightarrow> Inr (Some (True, finish_parse pa))))"

end
