(* ===== verification/Peer_Connection.thy ===== *)
theory Peer_Connection
  imports Transport_Controller Sdp_Parser
begin

text \<open>
  \<^verbatim>\<open>PeerConnection\<close> (\<^verbatim>\<open>src/pc/peer_connection.*\<close>): the local and the remote description, the offer, the
  answer, the tracks to send, and the deferred destruction.

  The signals of the transport controller are replayed on the new entries of its output log.  The
  slots for media packets are connected by \<^verbatim>\<open>init\<close>.  \<open>pc_destroy_timer\<close> says that the one-shot timer of
  \<^verbatim>\<open>destroy\<close> is running.
\<close>

subsection \<open>State\<close>

record rtc_offer_answer_options =
  send_audio :: bool
  send_video :: bool
  recv_audio :: bool
  recv_video :: bool
  use_rtp_mux :: bool
  use_rtcp_mux :: bool
  dtls_on :: bool

datatype pc_event =
    Pc_connection_state peer_connection_state
  | Pc_rtp_packet bytes int
  | Pc_rtcp_packet bytes int

record 'c peer_connection =
  pc_local_desc :: "session_description option"
  pc_remote_desc :: "session_description option"
  pc_certificate :: "nat option"
  pc_controller :: "'c transport_controller"
  pc_inited :: bool
  pc_destroy_timer :: bool
  pc_audio_source :: "stream_params list"
  pc_video_source :: "stream_params list"
  pc_out :: "pc_event list"

definition PeerConnection_new :: "srtp_global \<Rightarrow> 'c peer_connection" where
  "PeerConnection_new g = \<lparr> pc_local_desc = None, pc_remote_desc = None, pc_certificate = None,
     pc_controller = TransportController_new g, pc_inited = False, pc_destroy_timer = False, pc_audio_source = [],
     pc_video_source = [], pc_out = [] \<rparr>"

definition pc_init :: "nat option \<Rightarrow> 'c peer_connection \<Rightarrow> int \<times> 'c peer_connection" where
  "pc_init certificate pc = (0, pc\<lparr> pc_certificate := certificate,
     pc_controller := tc_set_local_certificate certificate (pc_controller pc), pc_inited := True \<rparr>)"

definition add_audio_source :: "stream_params list \<Rightarrow> 'c peer_connection \<Rightarrow> 'c peer_connection" where
  "add_audio_source source pc = pc\<lparr> pc_audio_source := source \<rparr>"

definition add_video_source :: "stream_params list \<Rightarrow> 'c peer_connection \<Rightarrow> 'c peer_connection" where
  "add_video_source source pc = pc\<lparr> pc_video_source := source \<rparr>"

subsection \<open>Signals of the controller\<close>

text \<open>\<^verbatim>\<open>content->add_candidates\<close> changes the first content with that mid, which the description shares.\<close>

fun add_candidates_to :: "bytes \<Rightarrow> candidate list \<Rightarrow> media_content list \<Rightarrow> media_content list" where
  "add_candidates_to mid cs [] = []"
| "add_candidates_to mid cs (c # contents) = (if mid = mc_mid c then add_candidates cs c # contents else c # add_candidates_to mid cs contents)"

definition on_candidate_allocate_done :: "bytes \<Rightarrow> candidate list \<Rightarrow> 'c peer_connection \<Rightarrow> 'c peer_connection" where
  "on_candidate_allocate_done name candidates pc = (case pc_local_desc pc of
     None \<Rightarrow> pc
   | Some sd \<Rightarrow> pc\<lparr> pc_local_desc := Some (sd\<lparr> sd_contents := add_candidates_to name candidates (sd_contents sd) \<rparr>) \<rparr>)"

definition pc_on_tc_event :: "tc_event \<Rightarrow> 'c peer_connection \<Rightarrow> 'c peer_connection" where
  "pc_on_tc_event ev pc = (case ev of
      Tc_candidate_allocate_done name _ candidates \<Rightarrow> on_candidate_allocate_done name candidates pc
    | Tc_connection_state state \<Rightarrow> pc\<lparr> pc_out := pc_out pc @ [Pc_connection_state state] \<rparr>
    | Tc_rtp_packet packet ts \<Rightarrow> if pc_inited pc then pc\<lparr> pc_out := pc_out pc @ [Pc_rtp_packet packet ts] \<rparr> else pc
    | Tc_rtcp_packet packet ts \<Rightarrow> if pc_inited pc then pc\<lparr> pc_out := pc_out pc @ [Pc_rtcp_packet packet ts] \<rparr> else pc)"

definition pc_settle :: "'c transport_controller \<Rightarrow> 'c peer_connection \<Rightarrow> 'c peer_connection" where
  "pc_settle tc' pc = fold pc_on_tc_event (drop (length (tc_out (pc_controller pc))) (tc_out tc')) (pc\<lparr> pc_controller := tc' \<rparr>)"

subsection \<open>The offer\<close>

definition get_direction :: "bool \<Rightarrow> bool \<Rightarrow> rtp_direction" where
  "get_direction send recv = (if send \<and> recv then k_send_recv else if send \<and> \<not> recv then k_send_only
     else if \<not> send \<and> recv then k_recv_only else k_inactive)"

definition offer_media :: "sdp_lib \<Rightarrow> bool \<Rightarrow> bool \<Rightarrow> bool \<Rightarrow> ice_parameters \<Rightarrow> nat option \<Rightarrow> stream_params list \<Rightarrow> media_content \<Rightarrow>
    session_description \<Rightarrow> session_description" where
  "offer_media S send recv mux ice_params cert source content sd =
     (if recv \<or> send then
        (let c1 = set_rtcp_mux mux (set_direction (get_direction send recv) content);
             c2 = (if send then fold add_stream source c1 else c1)
         in snd (add_transport_info_params S (mc_mid c1) ice_params cert (add_content c2 sd)))
      else sd)"

definition offer_bundle :: "bool \<Rightarrow> session_description \<Rightarrow> session_description" where
  "offer_bundle mux sd =
     (if mux then
        (let bundle_group = fold (\<lambda>c. add_content_name (mc_mid c)) (sd_contents sd) (ContentGroup (bytes_of ''BUNDLE''))
         in if cg_content_names bundle_group \<noteq> [] then add_group bundle_group sd else sd)
      else sd)"

definition offer_description :: "sdp_lib \<Rightarrow> rtc_offer_answer_options \<Rightarrow> ice_parameters \<Rightarrow> 'c peer_connection \<Rightarrow> session_description" where
  "offer_description S options ice_params pc =
     offer_bundle (use_rtp_mux options)
       (offer_media S (send_video options) (recv_video options) (use_rtp_mux options) ice_params (pc_certificate pc) (pc_video_source pc)
          VideoContentDescription
       (offer_media S (send_audio options) (recv_audio options) (use_rtp_mux options) ice_params (pc_certificate pc) (pc_audio_source pc)
          AudioContentDescription (SessionDescription k_offer)))"

text \<open>The allocator's port range and networks, and the random credentials, are arguments.\<close>

record offer_env =
  oe_min_port :: int
  oe_max_port :: int
  oe_nets :: "(socket_calls \<times> addr_family \<times> bytes) list"
  oe_ice_params :: ice_parameters

definition create_offer :: "ice_env \<Rightarrow> 'c dtls_env \<Rightarrow> sdp_lib \<Rightarrow> offer_env \<Rightarrow> rtc_offer_answer_options \<Rightarrow> 'c peer_connection \<Rightarrow>
    (bytes \<times> 'c peer_connection) res" where
  "create_offer E D S oe options pc =
     (if dtls_on options \<and> pc_certificate pc = None then Inr ([], pc)
      else let sd = offer_description S options (oe_ice_params oe) pc; pc1 = pc\<lparr> pc_local_desc := Some sd \<rparr> in
        res_bind (set_local_description E D (oe_min_port oe) (oe_max_port oe) (oe_nets oe) (Some sd) (pc_controller pc1)) (\<lambda>(_, tc).
        let pc2 = pc_settle tc pc1 in case pc_local_desc pc2 of
          None \<Rightarrow> Inl Null_deref
        | Some sd2 \<Rightarrow> res_bind (sdp_to_string S sd2) (\<lambda>txt. Inr (txt, pc2))))"

subsection \<open>The answer\<close>

definition set_remote_sdp :: "ice_env \<Rightarrow> 'c dtls_env \<Rightarrow> sdp_lib \<Rightarrow> bytes \<Rightarrow> 'c peer_connection \<Rightarrow> (int \<times> 'c peer_connection) res" where
  "set_remote_sdp E D S sdp pc = res_bind (parse_answer S sdp) (\<lambda>r. case r of
     None \<Rightarrow> Inr (- 1, pc)
   | Some (ok, sd) \<Rightarrow>
       let pc1 = pc\<lparr> pc_remote_desc := Some sd \<rparr> in
       if \<not> ok then Inr (- 1, pc1)
       else res_bind (set_remote_description E D (Some sd) (pc_controller pc1)) (\<lambda>(_, tc). Inr (0, pc_settle tc pc1)))"

subsection \<open>Media and destruction\<close>

definition pc_send_rtp :: "'c dtls_env \<Rightarrow> bytes \<Rightarrow> 'c peer_connection \<Rightarrow> (int \<times> 'c peer_connection) res" where
  "pc_send_rtp D data pc = res_bind (tc_send_rtp D (bytes_of ''audio'') data (pc_controller pc)) (\<lambda>(r, tc). Inr (r, pc_settle tc pc))"

definition pc_send_rtcp :: "'c dtls_env \<Rightarrow> bytes \<Rightarrow> 'c peer_connection \<Rightarrow> (int \<times> 'c peer_connection) res" where
  "pc_send_rtcp D data pc = res_bind (tc_send_rtcp D (bytes_of ''audio'') data (pc_controller pc)) (\<lambda>(r, tc). Inr (r, pc_settle tc pc))"

definition pc_destroy :: "'c peer_connection \<Rightarrow> 'c peer_connection" where
  "pc_destroy pc = pc\<lparr> pc_destroy_timer := True \<rparr>"

text \<open>\<^verbatim>\<open>destroy_timer_cb\<close> deletes the peer connection, and with it the controller.\<close>

definition destroy_timer_cb :: "ice_env \<Rightarrow> 'c peer_connection \<Rightarrow> srtp_global res" where
  "destroy_timer_cb E pc = TransportController_destruct E (pc_controller pc)"

subsection \<open>An answer without a fingerprint\<close>

lemma bundled_first: "get_first_bundle_mid sd = Inr mid \<or> \<not> is_bundle mid sd \<Longrightarrow> bundled_away sd mid = Inr False"
  by (auto simp: bundled_away_def)

lemma remote_content_null:
  assumes "bundled_away sd (mc_mid c) = Inr False" "get_transport_info (mc_mid c) sd = Some td" "td_identity_fingerprint td = None"
    "tc_set_remote_ice_params E D (mc_mid c) \<lparr> ice_ufrag = td_ice_ufrag td, ice_pwd = td_ice_pwd td \<rparr> tc = Inr tc1"
    "get_dtls_transport (mc_mid c) tc1 = Some k"
  shows "set_remote_content E D sd c tc = Inl Null_deref"
  using assms by (simp add: set_remote_content_def)

end
