(* ===== verification/Rtc_Stream.thy ===== *)
theory Rtc_Stream
  imports Peer_Connection
begin

text \<open>
  The stream layer (\<^verbatim>\<open>src/stream/\<close>): \<^verbatim>\<open>RtcStream\<close> with its two kinds \<^verbatim>\<open>PushStream\<close> and \<^verbatim>\<open>PullStream\<close>, and the
  \<^verbatim>\<open>RtcStreamManager\<close> of a worker, which owns the streams, answers the commands and relays media between
  the push and the pull stream of a name.

  Stream objects live in a heap with a counter for fresh addresses; the two maps of the manager hold
  addresses.  A deleted stream leaves its peer connection behind until the timer of \<^verbatim>\<open>destroy\<close> fires
  (\<open>sm_dying\<close>).  The signals of a peer connection are replayed on the new entries of its output log, up to
  the point where the stream is deleted and with it the connection of its slots.  The SRTP reference
  count is shared by all streams: it is kept by the manager and lent to the peer connection of each call.
\<close>

subsection \<open>State\<close>

datatype rtc_stream_type = k_push | k_pull

record 'c rtc_stream =
  rs_type :: rtc_stream_type
  rs_uid :: u64
  rs_name :: bytes
  rs_audio :: bool
  rs_video :: bool
  rs_log_id :: u32
  rs_pc :: "'c peer_connection"
  rs_state :: peer_connection_state
  rs_listener :: bool
  rs_ice_timeout :: bool             \<comment> \<open>\<^verbatim>\<open>_ice_timeout_watcher\<close> is not null\<close>

record 'c stream_manager =
  sm_heap :: "nat \<rightharpoonup> 'c rtc_stream"
  sm_push :: "bytes \<rightharpoonup> nat"
  sm_pull :: "bytes \<rightharpoonup> nat"
  sm_dying :: "nat \<rightharpoonup> 'c peer_connection"
  sm_global :: srtp_global
  sm_fresh :: nat

definition RtcStreamManager_new :: "srtp_global \<Rightarrow> 'c stream_manager" where
  "RtcStreamManager_new g = \<lparr> sm_heap = Map.empty, sm_push = Map.empty, sm_pull = Map.empty, sm_dying = Map.empty, sm_global = g, sm_fresh = 0 \<rparr>"

subsection \<open>Streams\<close>

definition RtcStream_new :: "rtc_stream_type \<Rightarrow> srtp_global \<Rightarrow> u64 \<Rightarrow> bytes \<Rightarrow> bool \<Rightarrow> bool \<Rightarrow> u32 \<Rightarrow> 'c rtc_stream" where
  "RtcStream_new ty g uid name audio video log_id = \<lparr> rs_type = ty, rs_uid = uid, rs_name = name, rs_audio = audio, rs_video = video,
     rs_log_id = log_id, rs_pc = PeerConnection_new g, rs_state = k_new, rs_listener = False, rs_ice_timeout = False \<rparr>"

definition register_listener :: "'c rtc_stream \<Rightarrow> 'c rtc_stream" where
  "register_listener s = s\<lparr> rs_listener := True \<rparr>"

definition stream_start :: "nat option \<Rightarrow> 'c rtc_stream \<Rightarrow> 'c rtc_stream" where
  "stream_start certificate s = s\<lparr> rs_ice_timeout := True, rs_pc := snd (pc_init certificate (rs_pc s)) \<rparr>"

definition push_offer_options :: "'c rtc_stream \<Rightarrow> rtc_offer_answer_options" where
  "push_offer_options s = \<lparr> send_audio = False, send_video = False, recv_audio = rs_audio s, recv_video = rs_video s,
     use_rtp_mux = True, use_rtcp_mux = True, dtls_on = True \<rparr>"

definition pull_offer_options :: "'c rtc_stream \<Rightarrow> rtc_offer_answer_options" where
  "pull_offer_options s = \<lparr> send_audio = rs_audio s, send_video = rs_video s, recv_audio = False, recv_video = False,
     use_rtp_mux = True, use_rtcp_mux = True, dtls_on = True \<rparr>"

text \<open>\<^verbatim>\<open>_get_source\<close>: the tracks of a media section of the answer; the argument stays empty otherwise.\<close>

definition get_source :: "bytes \<Rightarrow> 'c rtc_stream \<Rightarrow> stream_params list" where
  "get_source mid s = (case pc_remote_desc (rs_pc s) of
     None \<Rightarrow> []
   | Some sd \<Rightarrow> (case find (\<lambda>c. mc_mid c = mid) (sd_contents sd) of None \<Rightarrow> [] | Some c \<Rightarrow> mc_send_streams c))"

definition pull_add_sources :: "stream_params list \<Rightarrow> stream_params list \<Rightarrow> 'c rtc_stream \<Rightarrow> 'c rtc_stream" where
  "pull_add_sources audio video s = s\<lparr> rs_pc := add_video_source video (add_audio_source audio (rs_pc s)) \<rparr>"

subsection \<open>Calls on the peer connection of a stream\<close>

definition sm_deref :: "nat \<Rightarrow> 'c stream_manager \<Rightarrow> 'c rtc_stream res" where
  "sm_deref p m = (case sm_heap m p of None \<Rightarrow> Inl Use_after_free | Some s \<Rightarrow> Inr s)"

definition sm_set :: "nat \<Rightarrow> 'c rtc_stream \<Rightarrow> 'c stream_manager \<Rightarrow> 'c stream_manager" where
  "sm_set p s m = m\<lparr> sm_heap := (sm_heap m)(p \<mapsto> s) \<rparr>"

definition lend :: "srtp_global \<Rightarrow> 'c peer_connection \<Rightarrow> 'c peer_connection" where
  "lend g pc = pc\<lparr> pc_controller := (pc_controller pc)\<lparr> tc_global := g \<rparr> \<rparr>"

definition sm_call :: "nat \<Rightarrow> ('c peer_connection \<Rightarrow> ('r \<times> 'c peer_connection) res) \<Rightarrow> 'c stream_manager \<Rightarrow>
    ('r \<times> pc_event list \<times> 'c stream_manager) res" where
  "sm_call p f m = res_bind (sm_deref p m) (\<lambda>s.
     res_bind (f (lend (sm_global m) (rs_pc s))) (\<lambda>(r, pc').
       Inr (r, drop (length (pc_out (rs_pc s))) (pc_out pc'),
         (sm_set p (s\<lparr> rs_pc := pc' \<rparr>) m)\<lparr> sm_global := tc_global (pc_controller pc') \<rparr>)))"

subsection \<open>Removal\<close>

definition find_push_stream :: "bytes \<Rightarrow> 'c stream_manager \<Rightarrow> nat option" where
  "find_push_stream name m = sm_push m name"

definition find_pull_stream :: "bytes \<Rightarrow> 'c stream_manager \<Rightarrow> nat option" where
  "find_pull_stream name m = sm_pull m name"

text \<open>\<^verbatim>\<open>delete stream\<close>: the timer is deleted and the peer connection told to destroy itself.\<close>

definition stream_delete :: "nat \<Rightarrow> 'c stream_manager \<Rightarrow> 'c stream_manager res" where
  "stream_delete p m = res_bind (sm_deref p m) (\<lambda>s.
     Inr (m\<lparr> sm_heap := (sm_heap m)(p := None), sm_dying := (sm_dying m)(p \<mapsto> pc_destroy (rs_pc s)) \<rparr>))"

definition remove_push_stream :: "u64 \<Rightarrow> bytes \<Rightarrow> 'c stream_manager \<Rightarrow> 'c stream_manager res" where
  "remove_push_stream uid name m = (case find_push_stream name m of
     None \<Rightarrow> Inr m
   | Some q \<Rightarrow> res_bind (sm_deref q m) (\<lambda>s.
       if uid = rs_uid s then stream_delete q (m\<lparr> sm_push := (sm_push m)(name := None) \<rparr>) else Inr m))"

definition remove_pull_stream :: "u64 \<Rightarrow> bytes \<Rightarrow> 'c stream_manager \<Rightarrow> 'c stream_manager res" where
  "remove_pull_stream uid name m = (case find_pull_stream name m of
     None \<Rightarrow> Inr m
   | Some q \<Rightarrow> res_bind (sm_deref q m) (\<lambda>s.
       if uid = rs_uid s then stream_delete q (m\<lparr> sm_pull := (sm_pull m)(name := None) \<rparr>) else Inr m))"

subsection \<open>The listener\<close>

definition sm_on_connection_state :: "nat \<Rightarrow> peer_connection_state \<Rightarrow> 'c stream_manager \<Rightarrow> 'c stream_manager res" where
  "sm_on_connection_state p state m =
     (if state = k_failed then res_bind (sm_deref p m) (\<lambda>s. case rs_type s of
          k_push \<Rightarrow> remove_push_stream (rs_uid s) (rs_name s) m
        | k_pull \<Rightarrow> remove_pull_stream (rs_uid s) (rs_name s) m)
      else Inr m)"

text \<open>\<^verbatim>\<open>send_rtp\<close> and \<^verbatim>\<open>send_rtcp\<close> of a stream; sending raises no signal of the peer connection.\<close>

definition stream_send_rtp :: "'c dtls_env \<Rightarrow> bytes \<Rightarrow> nat \<Rightarrow> 'c stream_manager \<Rightarrow> 'c stream_manager res" where
  "stream_send_rtp D data q m = res_bind (sm_call q (pc_send_rtp D data) m) (\<lambda>(_, _, m1). Inr m1)"

definition stream_send_rtcp :: "'c dtls_env \<Rightarrow> bytes \<Rightarrow> nat \<Rightarrow> 'c stream_manager \<Rightarrow> 'c stream_manager res" where
  "stream_send_rtcp D data q m = res_bind (sm_call q (pc_send_rtcp D data) m) (\<lambda>(_, _, m1). Inr m1)"

definition sm_on_rtp_packet_received :: "'c dtls_env \<Rightarrow> nat \<Rightarrow> bytes \<Rightarrow> 'c stream_manager \<Rightarrow> 'c stream_manager res" where
  "sm_on_rtp_packet_received D p data m = res_bind (sm_deref p m) (\<lambda>s. case rs_type s of
     k_push \<Rightarrow> (case find_pull_stream (rs_name s) m of None \<Rightarrow> Inr m | Some q \<Rightarrow> stream_send_rtp D data q m)
   | k_pull \<Rightarrow> Inr m)"

definition sm_on_rtcp_packet_received :: "'c dtls_env \<Rightarrow> nat \<Rightarrow> bytes \<Rightarrow> 'c stream_manager \<Rightarrow> 'c stream_manager res" where
  "sm_on_rtcp_packet_received D p data m = res_bind (sm_deref p m) (\<lambda>s. case rs_type s of
     k_push \<Rightarrow> (case find_pull_stream (rs_name s) m of None \<Rightarrow> Inr m | Some q \<Rightarrow> stream_send_rtcp D data q m)
   | k_pull \<Rightarrow> (case find_push_stream (rs_name s) m of None \<Rightarrow> Inr m | Some q \<Rightarrow> stream_send_rtcp D data q m))"

definition sm_on_stream_exception :: "nat \<Rightarrow> 'c stream_manager \<Rightarrow> 'c stream_manager res" where
  "sm_on_stream_exception p m = res_bind (sm_deref p m) (\<lambda>s. case rs_type s of
     k_push \<Rightarrow> remove_push_stream (rs_uid s) (rs_name s) m
   | k_pull \<Rightarrow> remove_pull_stream (rs_uid s) (rs_name s) m)"

subsection \<open>Signals of the peer connection\<close>

definition stream_on_connection_state :: "nat \<Rightarrow> peer_connection_state \<Rightarrow> 'c stream_manager \<Rightarrow> 'c stream_manager res" where
  "stream_on_connection_state p state m = res_bind (sm_deref p m) (\<lambda>s.
     if rs_state s = state then Inr m
     else let s1 = s\<lparr> rs_state := state \<rparr>;
              s2 = (if state = k_connected \<or> state = k_failed then s1\<lparr> rs_ice_timeout := False \<rparr> else s1);
              m1 = sm_set p s2 m
          in if rs_listener s2 then sm_on_connection_state p state m1 else Inr m1)"

definition stream_on_pc_event :: "'c dtls_env \<Rightarrow> nat \<Rightarrow> pc_event \<Rightarrow> 'c stream_manager \<Rightarrow> 'c stream_manager res" where
  "stream_on_pc_event D p ev m = (case sm_heap m p of
     None \<Rightarrow> Inr m
   | Some s \<Rightarrow> (case ev of
       Pc_connection_state state \<Rightarrow> stream_on_connection_state p state m
     | Pc_rtp_packet data _ \<Rightarrow> if rs_listener s then sm_on_rtp_packet_received D p data m else Inr m
     | Pc_rtcp_packet data _ \<Rightarrow> if rs_listener s then sm_on_rtcp_packet_received D p data m else Inr m))"

definition stream_replay :: "'c dtls_env \<Rightarrow> nat \<Rightarrow> pc_event list \<Rightarrow> 'c stream_manager \<Rightarrow> 'c stream_manager res" where
  "stream_replay D p evs m = res_fold (stream_on_pc_event D p) evs m"

text \<open>A call on the peer connection of \<open>p\<close>, with the signals it raises.\<close>

definition stream_invoke :: "'c dtls_env \<Rightarrow> nat \<Rightarrow> ('c peer_connection \<Rightarrow> ('r \<times> 'c peer_connection) res) \<Rightarrow> 'c stream_manager \<Rightarrow>
    ('r \<times> 'c stream_manager) res" where
  "stream_invoke D p f m = res_bind (sm_call p f m) (\<lambda>(r, evs, m1). res_bind (stream_replay D p evs m1) (\<lambda>m2. Inr (r, m2)))"

definition ice_timeout_cb :: "nat \<Rightarrow> 'c stream_manager \<Rightarrow> 'c stream_manager res" where
  "ice_timeout_cb p m = res_bind (sm_deref p m) (\<lambda>s.
     if rs_state s \<noteq> k_connected \<and> rs_listener s then sm_on_stream_exception p m else Inr m)"

subsection \<open>Commands\<close>

definition create_push_stream :: "ice_env \<Rightarrow> 'c dtls_env \<Rightarrow> sdp_lib \<Rightarrow> offer_env \<Rightarrow> u64 \<Rightarrow> bytes \<Rightarrow> bool \<Rightarrow> bool \<Rightarrow> u32 \<Rightarrow> nat option \<Rightarrow>
    'c stream_manager \<Rightarrow> (int \<times> bytes \<times> 'c stream_manager) res" where
  "create_push_stream E D S oe uid name audio video log_id certificate m =
     (let p = sm_fresh m;
          s = stream_start certificate (register_listener (RtcStream_new k_push (sm_global m) uid name audio video log_id));
          m1 = (sm_set p s m)\<lparr> sm_fresh := Suc p \<rparr>
      in res_bind (stream_invoke D p (create_offer E D S oe (push_offer_options s)) m1) (\<lambda>(offer, m2).
           Inr (0, offer, m2\<lparr> sm_push := (sm_push m2)(name \<mapsto> p) \<rparr>)))"

definition create_pull_stream :: "ice_env \<Rightarrow> 'c dtls_env \<Rightarrow> sdp_lib \<Rightarrow> offer_env \<Rightarrow> u64 \<Rightarrow> bytes \<Rightarrow> bool \<Rightarrow> bool \<Rightarrow> u32 \<Rightarrow> nat option \<Rightarrow>
    'c stream_manager \<Rightarrow> (int \<times> bytes \<times> 'c stream_manager) res" where
  "create_pull_stream E D S oe uid name audio video log_id certificate m = (case find_push_stream name m of
     None \<Rightarrow> Inr (- 1, [], m)
   | Some q \<Rightarrow> res_bind (sm_deref q m) (\<lambda>push.
       let audio_source = get_source (bytes_of ''audio'') push; video_source = get_source (bytes_of ''video'') push in
       res_bind (remove_pull_stream uid name m) (\<lambda>m0.
       let p = sm_fresh m0;
           s = stream_start certificate (pull_add_sources audio_source video_source
                 (register_listener (RtcStream_new k_pull (sm_global m0) uid name audio video log_id)));
           m1 = (sm_set p s m0)\<lparr> sm_fresh := Suc p \<rparr>
       in res_bind (stream_invoke D p (create_offer E D S oe (pull_offer_options s)) m1) (\<lambda>(offer, m2).
            Inr (0, offer, m2\<lparr> sm_pull := (sm_pull m2)(name \<mapsto> p) \<rparr>)))))"

definition stop_push :: "u64 \<Rightarrow> bytes \<Rightarrow> 'c stream_manager \<Rightarrow> (int \<times> 'c stream_manager) res" where
  "stop_push uid name m = res_bind (remove_push_stream uid name m) (\<lambda>m1. Inr (0, m1))"

definition stop_pull :: "u64 \<Rightarrow> bytes \<Rightarrow> 'c stream_manager \<Rightarrow> (int \<times> 'c stream_manager) res" where
  "stop_pull uid name m = res_bind (remove_pull_stream uid name m) (\<lambda>m1. Inr (0, m1))"

definition set_answer :: "ice_env \<Rightarrow> 'c dtls_env \<Rightarrow> sdp_lib \<Rightarrow> u64 \<Rightarrow> bytes \<Rightarrow> bytes \<Rightarrow> bytes \<Rightarrow> 'c stream_manager \<Rightarrow>
    (int \<times> 'c stream_manager) res" where
  "set_answer E D S uid name answer stream_type m =
     (case (if stream_type = bytes_of ''push'' then find_push_stream name m else find_pull_stream name m) of
        None \<Rightarrow> Inr (- 1, m)
      | Some q \<Rightarrow> res_bind (sm_deref q m) (\<lambda>s.
          if uid \<noteq> rs_uid s then Inr (- 1, m)
          else res_bind (stream_invoke D q (set_remote_sdp E D S answer) m) (\<lambda>(_, m1). Inr (0, m1))))"

subsection \<open>Events of the loop\<close>

text \<open>Channel \<open>i\<close> of the peer connection of stream \<open>p\<close> has become \<open>s'\<close> (a datagram or an ICE timer).\<close>

definition pc_channel_moves :: "'c dtls_env \<Rightarrow> nat \<Rightarrow> ice_channel \<Rightarrow> 'c peer_connection \<Rightarrow> (unit \<times> 'c peer_connection) res" where
  "pc_channel_moves D i s' pc = res_bind (tc_channel_moves D i s' (pc_controller pc)) (\<lambda>tc. Inr ((), pc_settle tc pc))"

definition stream_channel_moves :: "'c dtls_env \<Rightarrow> nat \<Rightarrow> nat \<Rightarrow> ice_channel \<Rightarrow> 'c stream_manager \<Rightarrow> 'c stream_manager res" where
  "stream_channel_moves D p i s' m = res_bind (stream_invoke D p (pc_channel_moves D i s') m) (\<lambda>(_, m1). Inr m1)"

text \<open>The destroy timer of a peer connection whose stream is gone.\<close>

definition dying_timer :: "ice_env \<Rightarrow> nat \<Rightarrow> 'c stream_manager \<Rightarrow> 'c stream_manager res" where
  "dying_timer E p m = (case sm_dying m p of
     None \<Rightarrow> Inr m
   | Some pc \<Rightarrow> res_bind (destroy_timer_cb E (lend (sm_global m) pc)) (\<lambda>g.
       Inr (m\<lparr> sm_dying := (sm_dying m)(p := None), sm_global := g \<rparr>)))"

end
