(* ===== verification/Signaling_Message.thy ===== *)
theory Signaling_Message
  imports Rtc_Base
begin

text \<open>
  What the signaling side exchanges: the 36-byte header \<^verbatim>\<open>xhead_t\<close> (\<^verbatim>\<open>src/base/xhead.h\<close>), the message
  \<^verbatim>\<open>RtcMsg\<close> that travels between the threads (\<^verbatim>\<open>src/xrtc_server_def.h\<close>) and the JSON values of a request.

  Of the vendored \<^verbatim>\<open>nlohmann::json\<close> the operations the handlers use are modelled: the value kinds,
  \<^verbatim>\<open>at\<close>, \<^verbatim>\<open>operator[]\<close> and the conversions to \<^verbatim>\<open>uint64_t\<close>, \<^verbatim>\<open>int\<close> and \<^verbatim>\<open>std::string\<close>, with the exception
  each of them throws.  Parsing and printing of text are a parameter here, \<open>json_lib\<close>; the theories
  \<open>Json_Lexer\<close>, \<open>Json_Parser\<close> and \<open>Json_Serializer\<close> model them.
\<close>

subsection \<open>The message header\<close>

definition XHEAD_SIZE :: nat where "XHEAD_SIZE = 36"

definition XHEAD_MAGIC_NUM :: u32 where "XHEAD_MAGIC_NUM = 0xfb202202"

text \<open>The header is read by casting a pointer into the buffer, so its fields are in the byte order
  of the host, which is little-endian here.\<close>

definition le32 :: "u32 \<Rightarrow> bytes" where "le32 w = rev (be32 w)"

definition xh_field32 :: "nat \<Rightarrow> bytes \<Rightarrow> u32" where
  "xh_field32 off b = de32 (b ! (off + 3)) (b ! (off + 2)) (b ! (off + 1)) (b ! off)"

definition xh_log_id :: "bytes \<Rightarrow> u32" where "xh_log_id = xh_field32 4"
definition xh_magic_num :: "bytes \<Rightarrow> u32" where "xh_magic_num = xh_field32 24"
definition xh_body_len :: "bytes \<Rightarrow> u32" where "xh_body_len = xh_field32 32"

lemma length_le32 [simp]: "length (le32 w) = 4"
  by (simp add: le32_def)

lemma xh_field32_le32:
  "length pre = off \<Longrightarrow> xh_field32 off (pre @ le32 w @ post) = w"
  by (simp add: xh_field32_def le32_def be32_def nth_append de32_split)

lemma xh_field32_append: "off + 4 \<le> length b \<Longrightarrow> xh_field32 off (b @ post) = xh_field32 off b"
  by (simp add: xh_field32_def nth_append)

lemma xh_field32_take: "off + 4 \<le> n \<Longrightarrow> xh_field32 off (take n b) = xh_field32 off b"
  by (simp add: xh_field32_def)

lemmas xh_defs = xh_log_id_def xh_magic_num_def xh_body_len_def

lemma xh_append:
  assumes "36 \<le> length b"
  shows "xh_log_id (b @ post) = xh_log_id b" "xh_magic_num (b @ post) = xh_magic_num b" "xh_body_len (b @ post) = xh_body_len b"
  using assms by (simp_all add: xh_defs xh_field32_append)

lemma xh_take:
  "xh_log_id (take 36 b) = xh_log_id b" "xh_magic_num (take 36 b) = xh_magic_num b" "xh_body_len (take 36 b) = xh_body_len b"
  by (simp_all add: xh_defs xh_field32_take)

subsection \<open>Messages between the threads\<close>

definition CMDNO_PUSH :: int where "CMDNO_PUSH = 1"
definition CMDNO_PULL :: int where "CMDNO_PULL = 2"
definition CMDNO_ANSWER :: int where "CMDNO_ANSWER = 3"
definition CMDNO_STOPPUSH :: int where "CMDNO_STOPPUSH = 4"
definition CMDNO_STOPPULL :: int where "CMDNO_STOPPULL = 5"

lemmas cmdno_defs = CMDNO_PUSH_def CMDNO_PULL_def CMDNO_ANSWER_def CMDNO_STOPPUSH_def CMDNO_STOPPULL_def

definition MAX_RES_BUF :: nat where "MAX_RES_BUF = 4096"

text \<open>The pointers \<^verbatim>\<open>worker\<close>, \<^verbatim>\<open>conn\<close> and \<^verbatim>\<open>certificate\<close> are addresses; \<open>None\<close> is null.\<close>

record rtc_msg =
  rm_cmdno :: int
  rm_uid :: u64
  rm_stream_name :: bytes
  rm_stream_type :: bytes
  rm_audio :: int
  rm_video :: int
  rm_log_id :: u32
  rm_worker :: "nat option"
  rm_conn :: "nat option"
  rm_fd :: int
  rm_sdp :: bytes
  rm_err_no :: int
  rm_certificate :: "nat option"

definition RtcMsg_new :: rtc_msg where
  "RtcMsg_new = \<lparr> rm_cmdno = - 1, rm_uid = 0, rm_stream_name = [], rm_stream_type = [], rm_audio = 0, rm_video = 0,
     rm_log_id = 0, rm_worker = None, rm_conn = None, rm_fd = 0, rm_sdp = [], rm_err_no = 0, rm_certificate = None \<rparr>"

subsection \<open>JSON values\<close>

text \<open>A number with a fraction or an exponent is a double, \<open>J_float m e\<close> standing for \<open>m * 2 ^ e\<close>.\<close>

datatype json =
    J_null
  | J_boolean bool
  | J_integer int
  | J_unsigned u64
  | J_float int int
  | J_string bytes
  | J_array "json list"
  | J_object "(bytes \<times> json) list"

text \<open>The three exception classes; \<open>Undefined_conversion\<close> is a \<^verbatim>\<open>static_cast\<close> of a double whose truncated
  value the integer type does not have.\<close>

datatype json_error = Parse_error | Type_error | Out_of_range | Undefined_conversion

type_synonym 'a json_res = "json_error + 'a"

record json_lib =
  json_parse :: "bytes \<Rightarrow> json json_res"
  json_dump :: "json \<Rightarrow> bytes json_res"

definition json_bind :: "'a json_res \<Rightarrow> ('a \<Rightarrow> 'b json_res) \<Rightarrow> 'b json_res" where
  "json_bind m f = (case m of Inl e \<Rightarrow> Inl e | Inr x \<Rightarrow> f x)"

lemma json_bind_simps [simp]: "json_bind (Inl e) f = Inl e" "json_bind (Inr x) f = f x"
  by (simp_all add: json_bind_def)

definition json_at :: "bytes \<Rightarrow> json \<Rightarrow> json json_res" where
  "json_at key j = (case j of
     J_object members \<Rightarrow> (case map_of members key of None \<Rightarrow> Inl Out_of_range | Some v \<Rightarrow> Inr v)
   | _ \<Rightarrow> Inl Type_error)"

text \<open>\<^verbatim>\<open>operator[]\<close> on a non-const value turns null into an object and inserts a missing key.\<close>

definition json_index :: "bytes \<Rightarrow> json \<Rightarrow> (json \<times> json) json_res" where
  "json_index key j =
     (let members = (case j of J_null \<Rightarrow> Some [] | J_object ms \<Rightarrow> Some ms | _ \<Rightarrow> None)
      in case members of
           None \<Rightarrow> Inl Type_error
         | Some ms \<Rightarrow> (case map_of ms key of
             Some v \<Rightarrow> Inr (v, J_object ms)
           | None \<Rightarrow> Inr (J_null, J_object (ms @ [(key, J_null)]))))"

definition float_trunc :: "int \<Rightarrow> int \<Rightarrow> int" where
  "float_trunc m e = (if e \<ge> 0 then m * 2 ^ nat e else sgn m * (\<bar>m\<bar> div 2 ^ nat (- e)))"

text \<open>\<^verbatim>\<open>uint64_t\<close> is the library's own unsigned type and is converted by \<^verbatim>\<open>get_arithmetic_value\<close>, which
  refuses booleans; \<^verbatim>\<open>int\<close> is not and goes through the general conversion, which accepts them.\<close>

definition json_get_u64 :: "json \<Rightarrow> u64 json_res" where
  "json_get_u64 j = (case j of
     J_unsigned n \<Rightarrow> Inr n
   | J_integer n \<Rightarrow> Inr (word_of_int n)
   | J_float m e \<Rightarrow> if 0 \<le> float_trunc m e \<and> float_trunc m e < 2 ^ 64 then Inr (word_of_int (float_trunc m e)) else Inl Undefined_conversion
   | _ \<Rightarrow> Inl Type_error)"

definition json_get_int :: "json \<Rightarrow> int json_res" where
  "json_get_int j = (case j of
     J_unsigned n \<Rightarrow> Inr (to_i32 (uint n))
   | J_integer n \<Rightarrow> Inr (to_i32 n)
   | J_float m e \<Rightarrow> if - (2 ^ 31) \<le> float_trunc m e \<and> float_trunc m e < 2 ^ 31 then Inr (float_trunc m e) else Inl Undefined_conversion
   | J_boolean b \<Rightarrow> Inr (if b then 1 else 0)
   | _ \<Rightarrow> Inl Type_error)"

definition json_get_string :: "json \<Rightarrow> bytes json_res" where
  "json_get_string j = (case j of J_string s \<Rightarrow> Inr s | _ \<Rightarrow> Inl Type_error)"

text \<open>A \<^verbatim>\<open>try\<close> block with one \<^verbatim>\<open>catch\<close>: what it does not catch leaves the thread and ends the process.\<close>

definition catching :: "json_error \<Rightarrow> 'a json_res \<Rightarrow> 'b res \<Rightarrow> ('a \<Rightarrow> 'b res) \<Rightarrow> 'b res" where
  "catching e m handler k = (case m of
     Inr x \<Rightarrow> k x
   | Inl e' \<Rightarrow> if e' = e then handler else if e' = Undefined_conversion then Inl Bad_cast else Inl Uncaught_exception)"

lemma catching_simps [simp]: "catching e (Inr x) h k = k x" "catching e (Inl e) h k = h"
  by (simp_all add: catching_def)

end
