(* ===== verification/Socket.thy ===== *)
theory Socket
  imports Signaling_Message
begin

text \<open>
  The wrappers of the socket calls (\<^verbatim>\<open>src/base/socket.cpp\<close>).  The results of the system calls are
  arguments; each wrapper returns its own result and, where it closes a descriptor, the list of the
  descriptors it closed.
\<close>

subsection \<open>System calls\<close>

text \<open>On Linux \<^verbatim>\<open>EWOULDBLOCK\<close> is \<^verbatim>\<open>EAGAIN\<close>.\<close>

datatype errno = EAGAIN | EINTR | E_other

datatype 'a sys = Sys_ok 'a | Sys_err errno

record tcp_server_calls =
  ts_socket :: int
  ts_setsockopt :: int
  ts_inet_aton :: int
  ts_bind :: int
  ts_listen :: int

definition create_tcp_server :: "bool \<Rightarrow> tcp_server_calls \<Rightarrow> int \<times> int list" where
  "create_tcp_server has_addr k =
     (let sock = ts_socket k in
      if sock = - 1 then (- 1, [])
      else if ts_setsockopt k = - 1 then (- 1, [sock])
      else if has_addr \<and> ts_inet_aton k = 0 then (- 1, [sock])
      else if ts_bind k = - 1 then (- 1, [sock])
      else if ts_listen k = - 1 then (- 1, [sock])
      else (sock, []))"

text \<open>The accept loop retries as long as the call is interrupted; \<open>Inl Diverges\<close>: it still is after all
  the given results.\<close>

fun generic_accept :: "'fd sys list \<Rightarrow> 'fd option res" where
  "generic_accept [] = Inl Diverges"
| "generic_accept (Sys_ok fd # rs) = Inr (Some fd)"
| "generic_accept (Sys_err e # rs) = (if e = EINTR then generic_accept rs else Inr None)"

text \<open>\<^verbatim>\<open>strncpy(host, inet_ntoa(..), sizeof(sa.sin_addr))\<close> copies four bytes of the text.\<close>

definition tcp_accept :: "(int \<times> bytes \<times> u16) sys list \<Rightarrow> (int \<times> bytes \<times> u16) option res" where
  "tcp_accept rs = res_bind (generic_accept rs) (\<lambda>r. Inr (case r of None \<Rightarrow> None | Some (fd, ip, port) \<Rightarrow> Some (fd, take 4 ip, port)))"

text \<open>\<^verbatim>\<open>tcp_connect\<close> answers 0, not the descriptor, and closes nothing when the call fails.\<close>

definition tcp_connect :: "int \<Rightarrow> int \<Rightarrow> int \<times> int list" where
  "tcp_connect sock connect_result = (if sock = - 1 then (- 1, []) else if connect_result = - 1 then (- 1, []) else (0, []))"

definition sock_setnonblock :: "int \<Rightarrow> int \<Rightarrow> int" where
  "sock_setnonblock getfl setfl = (if getfl = - 1 then - 1 else if setfl = - 1 then - 1 else 0)"

definition sock_setnodely :: "int \<Rightarrow> int" where
  "sock_setnodely setsockopt_result = (if setsockopt_result = - 1 then - 1 else 0)"

text \<open>\<open>sa\<close> is what the structure holds after \<^verbatim>\<open>getpeername\<close>: after a failed call the \<^verbatim>\<open>'?'\<close> is overwritten
  with it all the same.  The port stays in network byte order.\<close>

definition sock_peer_to_str :: "int \<Rightarrow> bytes \<times> u16 \<Rightarrow> bytes \<times> u16" where
  "sock_peer_to_str getpeername_result sa =
     (let out = (if getpeername_result = - 1 then (bytes_of ''?'', 0) else sa); out = sa in out)"

definition sock_read_data :: "bytes sys \<Rightarrow> bytes option" where
  "sock_read_data r = (case r of Sys_ok data \<Rightarrow> Some data | Sys_err _ \<Rightarrow> None)"

definition sock_write_data :: "nat sys \<Rightarrow> int" where
  "sock_write_data r = (case r of Sys_ok n \<Rightarrow> int n | Sys_err e \<Rightarrow> if e = EAGAIN then 0 else - 1)"

definition create_udp_socket :: "int \<Rightarrow> int" where
  "create_udp_socket sock = (if sock = - 1 then - 1 else sock)"

subsection \<open>Binding in a port range\<close>

text \<open>\<open>bnd p\<close> is the result of \<^verbatim>\<open>bind\<close> for port \<open>p\<close>; the port in the address afterwards is the last one tried.\<close>

function bind_ports :: "(int \<Rightarrow> int) \<Rightarrow> int \<Rightarrow> int \<Rightarrow> int \<Rightarrow> int \<Rightarrow> int \<times> int" where
  "bind_ports bnd max_port port cur ret =
     (if port \<le> max_port \<and> ret \<noteq> 0 then bind_ports bnd max_port (port + 1) port (bnd port) else (ret, cur))"
  by auto
termination by (relation "measure (\<lambda>(_, max_port, port, _, _). nat (max_port + 1 - port))") auto

declare bind_ports.simps [simp del]

definition sock_bind :: "(int \<Rightarrow> int) \<Rightarrow> int \<Rightarrow> int \<Rightarrow> int \<Rightarrow> int \<times> int" where
  "sock_bind bnd addr_port min_port max_port =
     (if 0 = min_port \<and> 0 = max_port then (bnd addr_port, addr_port)
      else bind_ports bnd max_port min_port addr_port (- 1))"

lemma bind_ports_found:
  assumes "port \<le> p" "p \<le> max_port" "bnd p = 0" "\<And>q. port \<le> q \<Longrightarrow> q < p \<Longrightarrow> bnd q \<noteq> 0" "ret \<noteq> 0"
  shows "bind_ports bnd max_port port cur ret = (0, p)"
  using assms
proof (induction bnd max_port port cur ret rule: bind_ports.induct)
  case (1 bnd max_port port cur ret)
  show ?case
  proof (cases "port = p")
    case True
    then show ?thesis using 1 by (simp add: bind_ports.simps [of bnd max_port p] bind_ports.simps [of bnd max_port "p + 1"])
  next
    case False
    then have "bnd port \<noteq> 0" "port + 1 \<le> p" using 1 by auto
    then have "bind_ports bnd max_port (port + 1) port (bnd port) = (0, p)" using 1 by auto
    then show ?thesis using 1 by (simp add: bind_ports.simps [of bnd max_port port])
  qed
qed

lemma bind_ports_none:
  assumes "\<And>q. port \<le> q \<Longrightarrow> q \<le> max_port \<Longrightarrow> bnd q \<noteq> 0" "ret \<noteq> 0"
  shows "fst (bind_ports bnd max_port port cur ret) \<noteq> 0"
  using assms
proof (induction bnd max_port port cur ret rule: bind_ports.induct)
  case (1 bnd max_port port cur ret)
  then show ?case
    by (cases "port \<le> max_port") (auto simp: bind_ports.simps [of bnd max_port port])
qed

text \<open>A socket is bound to the first free port of the range, and binding fails exactly if there is none.\<close>

lemma sock_bind_first_free:
  assumes "\<not> (min_port = 0 \<and> max_port = 0)"
  shows "fst (sock_bind bnd a min_port max_port) = 0 \<longleftrightarrow> (\<exists>p. min_port \<le> p \<and> p \<le> max_port \<and> bnd p = 0)"
    and "min_port \<le> p \<Longrightarrow> p \<le> max_port \<Longrightarrow> bnd p = 0 \<Longrightarrow> (\<And>q. min_port \<le> q \<Longrightarrow> q < p \<Longrightarrow> bnd q \<noteq> 0) \<Longrightarrow>
      sock_bind bnd a min_port max_port = (0, p)"
proof -
  show *: "min_port \<le> p \<Longrightarrow> p \<le> max_port \<Longrightarrow> bnd p = 0 \<Longrightarrow> (\<And>q. min_port \<le> q \<Longrightarrow> q < p \<Longrightarrow> bnd q \<noteq> 0) \<Longrightarrow>
      sock_bind bnd a min_port max_port = (0, p)" for p
    using assms by (auto simp: sock_bind_def bind_ports_found)
  show "fst (sock_bind bnd a min_port max_port) = 0 \<longleftrightarrow> (\<exists>p. min_port \<le> p \<and> p \<le> max_port \<and> bnd p = 0)"
  proof
    assume "fst (sock_bind bnd a min_port max_port) = 0"
    then show "\<exists>p. min_port \<le> p \<and> p \<le> max_port \<and> bnd p = 0"
      using bind_ports_none [of min_port max_port bnd "- 1" a] assms by (auto simp: sock_bind_def)
  next
    assume "\<exists>p. min_port \<le> p \<and> p \<le> max_port \<and> bnd p = 0"
    then obtain p where p: "min_port \<le> p" "p \<le> max_port" "bnd p = 0" by blast
    define k where "k = (LEAST k. bnd (min_port + int k) = 0)"
    have ex: "bnd (min_port + int (nat (p - min_port))) = 0" using p by simp
    have k: "bnd (min_port + int k) = 0" unfolding k_def using ex by (rule LeastI)
    have "k \<le> nat (p - min_port)" unfolding k_def using ex by (rule Least_le)
    then have "min_port + int k \<le> max_port" using p by linarith
    moreover have "bnd q \<noteq> 0" if "min_port \<le> q" "q < min_port + int k" for q
      using not_less_Least [of "nat (q - min_port)" "\<lambda>k. bnd (min_port + int k) = 0"] that by (auto simp: k_def)
    ultimately have "sock_bind bnd a min_port max_port = (0, min_port + int k)" using k by (intro *) auto
    then show "fst (sock_bind bnd a min_port max_port) = 0" by simp
  qed
qed

subsection \<open>Addresses and datagrams\<close>

text \<open>\<^verbatim>\<open>memcpy(ip, inet_ntoa(..), sizeof(in_addr))\<close> copies four bytes of the text, without its end.\<close>

definition sock_get_address :: "int \<Rightarrow> bytes \<times> u16 \<Rightarrow> int \<times> (bytes \<times> u16) option" where
  "sock_get_address getsockname_result sa =
     (if getsockname_result \<noteq> 0 then (- 1, None) else (0, Some (take 4 (fst sa), snd sa)))"

definition sock_recv_from :: "('a \<times> bytes) sys \<Rightarrow> int \<times> ('a \<times> bytes) option" where
  "sock_recv_from r = (case r of
     Sys_err e \<Rightarrow> if e = EAGAIN then (0, None) else (- 1, None)
   | Sys_ok d \<Rightarrow> if snd d = [] then (- 1, None) else (int (length (snd d)), Some d))"

definition sock_send_to :: "nat sys \<Rightarrow> int" where
  "sock_send_to r = (case r of
     Sys_err e \<Rightarrow> if e = EAGAIN then 0 else - 1
   | Sys_ok n \<Rightarrow> if n = 0 then - 1 else int n)"

definition sock_get_recv_timestamp :: "int \<Rightarrow> int \<times> int \<Rightarrow> int" where
  "sock_get_recv_timestamp ioctl_result time =
     (if ioctl_result \<noteq> 0 then - 1 else fst time * 1000000 + snd time)"

end
