(* ===== verification/Lock_Free_Queue.thy ===== *)
theory Lock_Free_Queue
  imports Prelude
begin

text \<open>
  \<^verbatim>\<open>LockFreeQueue\<close> (\<^verbatim>\<open>src/base/lock_free_queue.h\<close>): a singly linked list with a dummy node, one producer
  and one consumer.  The first part is the queue as one thread at a time sees it, against the
  interface of a first-in first-out queue; the second part interleaves the single steps of
  \<^verbatim>\<open>produce\<close> and \<^verbatim>\<open>consume\<close> in two threads, each access to a shared variable being one step and
  every thread seeing the writes of the other in order.
\<close>

subsection \<open>Interface of a FIFO queue\<close>

datatype 'a queue_op = Push 'a | Pop

fun run_queue :: "('a \<Rightarrow> 'q \<Rightarrow> 'q res) \<Rightarrow> ('q \<Rightarrow> ('a option \<times> 'q) res) \<Rightarrow> 'a queue_op list \<Rightarrow> 'q \<Rightarrow> ('a option list \<times> 'q) res" where
  "run_queue push pop [] q = Inr ([], q)"
| "run_queue push pop (Push x # ops) q = res_bind (push x q) (run_queue push pop ops)"
| "run_queue push pop (Pop # ops) q =
     res_bind (pop q) (\<lambda>(r, q'). res_bind (run_queue push pop ops q') (\<lambda>(rs, q''). Inr (r # rs, q'')))"

fun run_list :: "'a queue_op list \<Rightarrow> 'a list \<Rightarrow> 'a option list \<times> 'a list" where
  "run_list [] xs = ([], xs)"
| "run_list (Push x # ops) xs = run_list ops (xs @ [x])"
| "run_list (Pop # ops) [] = (case run_list ops [] of (rs, ys) \<Rightarrow> (None # rs, ys))"
| "run_list (Pop # ops) (x # xs) = (case run_list ops xs of (rs, ys) \<Rightarrow> (Some x # rs, ys))"

locale fifo_queue =
  fixes rep :: "'q \<Rightarrow> 'a list \<Rightarrow> bool" and new :: 'q and push :: "'a \<Rightarrow> 'q \<Rightarrow> 'q res"
    and pop :: "'q \<Rightarrow> ('a option \<times> 'q) res"
  assumes rep_new: "rep new []"
    and rep_push: "rep q xs \<Longrightarrow> \<exists>q'. push x q = Inr q' \<and> rep q' (xs @ [x])"
    and rep_pop_Nil: "rep q [] \<Longrightarrow> pop q = Inr (None, q)"
    and rep_pop_Cons: "rep q (x # xs) \<Longrightarrow> \<exists>q'. pop q = Inr (Some x, q') \<and> rep q' xs"
begin

lemma run_refines:
  "rep q xs \<Longrightarrow> \<exists>q'. run_queue push pop ops q = Inr (fst (run_list ops xs), q') \<and> rep q' (snd (run_list ops xs))"
proof (induction ops xs arbitrary: q rule: run_list.induct)
  case (1 xs)
  then show ?case by simp
next
  case (2 x ops xs)
  obtain q' where "push x q = Inr q'" "rep q' (xs @ [x])" using rep_push [OF 2(2)] by blast
  then show ?case using 2(1) by simp
next
  case (3 ops)
  obtain q' where "run_queue push pop ops q = Inr (fst (run_list ops []), q')" "rep q' (snd (run_list ops []))"
    using 3(1) [OF 3(2)] by blast
  then show ?case using rep_pop_Nil [OF 3(2)] by (simp add: case_prod_beta)
next
  case (4 ops x xs)
  obtain q' where q': "pop q = Inr (Some x, q')" "rep q' xs" using rep_pop_Cons [OF 4(2)] by blast
  moreover obtain q'' where "run_queue push pop ops q' = Inr (fst (run_list ops xs), q'')" "rep q'' (snd (run_list ops xs))"
    using 4(1) [OF q'(2)] by blast
  ultimately show ?case by (simp add: case_prod_beta)
qed

end

subsection \<open>Nodes and pointers\<close>

record 'a node =
  nd_value :: 'a
  nd_next :: "nat option"

record 'a lf_queue =
  lf_heap :: "nat \<rightharpoonup> 'a node"
  lf_first :: "nat option"
  lf_divider :: nat
  lf_last :: nat
  lf_size :: "32 word"             \<comment> \<open>\<^verbatim>\<open>std::atomic<int>\<close>, which wraps around\<close>
  lf_fresh :: nat                    \<comment> \<open>the next address \<^verbatim>\<open>new Node\<close> returns\<close>

definition lf_deref :: "nat option \<Rightarrow> 'a lf_queue \<Rightarrow> 'a node res" where
  "lf_deref p q = (case p of None \<Rightarrow> Inl Null_deref
     | Some a \<Rightarrow> (case lf_heap q a of None \<Rightarrow> Inl Use_after_free | Some n \<Rightarrow> Inr n))"

text \<open>\<open>dflt\<close> is \<^verbatim>\<open>T()\<close>, the value of the dummy node.\<close>

definition LockFreeQueue_new :: "'a \<Rightarrow> 'a lf_queue" where
  "LockFreeQueue_new dflt = \<lparr> lf_heap = [0 \<mapsto> \<lparr> nd_value = dflt, nd_next = None \<rparr>], lf_first = Some 0,
     lf_divider = 0, lf_last = 0, lf_size = 0, lf_fresh = 1 \<rparr>"

text \<open>The statements of \<^verbatim>\<open>produce\<close> and \<^verbatim>\<open>consume\<close>.\<close>

definition produce_link :: "'a \<Rightarrow> 'a lf_queue \<Rightarrow> 'a lf_queue res" where
  "produce_link t q =
     res_bind (lf_deref (Some (lf_last q)) q) (\<lambda>n.
       Inr (q\<lparr> lf_heap := (lf_heap q)(lf_last q \<mapsto> n\<lparr> nd_next := Some (lf_fresh q) \<rparr>,
                lf_fresh q \<mapsto> \<lparr> nd_value = t, nd_next = None \<rparr>), lf_fresh := Suc (lf_fresh q) \<rparr>))"

definition produce_advance :: "'a lf_queue \<Rightarrow> 'a lf_queue res" where
  "produce_advance q =
     res_bind (lf_deref (Some (lf_last q)) q) (\<lambda>n. case nd_next n of
       None \<Rightarrow> Inl Null_deref
     | Some a \<Rightarrow> Inr (q\<lparr> lf_last := a \<rparr>))"

definition produce_count :: "'a lf_queue \<Rightarrow> 'a lf_queue" where
  "produce_count q = q\<lparr> lf_size := lf_size q + 1 \<rparr>"

text \<open>One round of the clean-up loop: \<^verbatim>\<open>temp = first; first = first->next; delete temp\<close>.\<close>

definition produce_reclaim :: "'a lf_queue \<Rightarrow> 'a lf_queue res" where
  "produce_reclaim q =
     res_bind (lf_deref (lf_first q) q) (\<lambda>n.
       Inr (q\<lparr> lf_first := nd_next n, lf_heap := (lf_heap q)(the (lf_first q) := None) \<rparr>))"

partial_function (option) produce_cleanup :: "'a lf_queue \<Rightarrow> 'a lf_queue res option" where
  "produce_cleanup q =
     (if Some (lf_divider q) \<noteq> lf_first q
      then (case produce_reclaim q of Inl e \<Rightarrow> Some (Inl e) | Inr q' \<Rightarrow> produce_cleanup q')
      else Some (Inr q))"

definition produce :: "'a \<Rightarrow> 'a lf_queue \<Rightarrow> 'a lf_queue res" where
  "produce t q =
     res_bind (produce_link t q) (\<lambda>q1.
     res_bind (produce_advance q1) (\<lambda>q2.
     case produce_cleanup (produce_count q2) of None \<Rightarrow> Inl Diverges | Some r \<Rightarrow> r))"

definition consume_read :: "'a lf_queue \<Rightarrow> 'a res" where
  "consume_read q =
     res_bind (lf_deref (Some (lf_divider q)) q) (\<lambda>n.
     res_bind (lf_deref (nd_next n) q) (\<lambda>m. Inr (nd_value m)))"

definition consume_advance :: "'a lf_queue \<Rightarrow> 'a lf_queue res" where
  "consume_advance q =
     res_bind (lf_deref (Some (lf_divider q)) q) (\<lambda>n. case nd_next n of
       None \<Rightarrow> Inl Null_deref
     | Some a \<Rightarrow> Inr (q\<lparr> lf_divider := a \<rparr>))"

definition consume_count :: "'a lf_queue \<Rightarrow> 'a lf_queue" where
  "consume_count q = q\<lparr> lf_size := lf_size q - 1 \<rparr>"

definition consume :: "'a lf_queue \<Rightarrow> ('a option \<times> 'a lf_queue) res" where
  "consume q =
     (if lf_divider q \<noteq> lf_last q
      then res_bind (consume_read q) (\<lambda>v. res_bind (consume_advance q) (\<lambda>q1. Inr (Some v, consume_count q1)))
      else Inr (None, q))"

definition lf_empty :: "'a lf_queue \<Rightarrow> bool" where
  "lf_empty q \<longleftrightarrow> lf_size q = 0"

partial_function (option) LockFreeQueue_destruct :: "'a lf_queue \<Rightarrow> 'a lf_queue res option" where
  "LockFreeQueue_destruct q =
     (if lf_first q \<noteq> None
      then (case produce_reclaim q of Inl e \<Rightarrow> Some (Inl e) | Inr q' \<Rightarrow> LockFreeQueue_destruct q')
      else Some (Inr (q\<lparr> lf_size := 0 \<rparr>)))"

subsection \<open>Chains of nodes\<close>

fun linked :: "(nat \<rightharpoonup> 'a node) \<Rightarrow> nat list \<Rightarrow> bool" where
  "linked h [] = True"
| "linked h [n] = (\<exists>v. h n = Some \<lparr> nd_value = v, nd_next = None \<rparr>)"
| "linked h (n # m # ns) = ((\<exists>v. h n = Some \<lparr> nd_value = v, nd_next = Some m \<rparr>) \<and> linked h (m # ns))"

definition chain :: "'a lf_queue \<Rightarrow> nat list \<Rightarrow> bool" where
  "chain q ns \<longleftrightarrow> linked (lf_heap q) ns \<and> distinct ns \<and> dom (lf_heap q) = set ns \<and> (\<forall>n\<in>set ns. n < lf_fresh q)"

definition vals :: "(nat \<rightharpoonup> 'a node) \<Rightarrow> nat list \<Rightarrow> 'a list" where
  "vals h ns = map (\<lambda>n. nd_value (the (h n))) ns"

lemma linked_cong: "(\<And>n. n \<in> set ns \<Longrightarrow> h' n = h n) \<Longrightarrow> linked h' ns = linked h ns"
  by (induction h ns rule: linked.induct) auto

lemma linked_step: "linked h (xs @ a # b # ys) \<Longrightarrow> \<exists>v. h a = Some \<lparr> nd_value = v, nd_next = Some b \<rparr>"
proof (induction xs)
  case Nil
  then show ?case by simp
next
  case (Cons x xs)
  then show ?case by (cases xs) auto
qed

lemma linked_end: "linked h (xs @ [a]) \<Longrightarrow> \<exists>v. h a = Some \<lparr> nd_value = v, nd_next = None \<rparr>"
proof (induction xs)
  case Nil
  then show ?case by simp
next
  case (Cons x xs)
  then show ?case by (cases xs) auto
qed

lemma linked_tl: "linked h (x # xs) \<Longrightarrow> linked h xs"
  by (cases xs) auto

lemma linked_append_end:
  "linked h (xs @ [a]) \<Longrightarrow> h' a = Some \<lparr> nd_value = v, nd_next = Some b \<rparr> \<Longrightarrow>
   h' b = Some \<lparr> nd_value = t, nd_next = None \<rparr> \<Longrightarrow> (\<And>n. n \<in> set xs \<Longrightarrow> h' n = h n) \<Longrightarrow> linked h' (xs @ [a, b])"
proof (induction xs)
  case Nil
  then show ?case by simp
next
  case (Cons x xs)
  have ih: "linked h' (xs @ [a, b])"
    by (rule Cons.IH) (use Cons.prems linked_tl in auto)
  show ?case
  proof (cases xs)
    case Nil
    then show ?thesis using ih Cons.prems(1,4) by simp
  next
    case (Cons y ys)
    then show ?thesis using ih Cons.prems(1,4) by simp
  qed
qed

text \<open>
  The shape of the list: the nodes before the divider wait to be deleted, those after it up to
  \<^verbatim>\<open>last\<close> hold the queued values, and \<open>extra\<close> is a node linked but not yet published by \<^verbatim>\<open>last\<close>.
\<close>

definition lf_shape :: "'a lf_queue \<Rightarrow> nat list \<Rightarrow> nat list \<Rightarrow> nat list \<Rightarrow> bool" where
  "lf_shape q pre post extra \<longleftrightarrow> chain q (pre @ lf_divider q # post @ extra) \<and>
     lf_first q = Some (hd (pre @ [lf_divider q])) \<and> lf_last q = last (lf_divider q # post)"

lemma shape_nonempty: "lf_shape q pre post extra \<Longrightarrow> lf_divider q \<noteq> lf_last q \<longleftrightarrow> post \<noteq> []"
  by (auto simp: lf_shape_def chain_def)

lemma shape_reclaimable: "lf_shape q pre post extra \<Longrightarrow> Some (lf_divider q) \<noteq> lf_first q \<longleftrightarrow> pre \<noteq> []"
  by (cases pre) (auto simp: lf_shape_def chain_def)

lemma shape_link:
  assumes "lf_shape q pre post []"
  obtains q' where "produce_link t q = Inr q'" "lf_shape q' pre post [lf_fresh q]"
    "vals (lf_heap q') (post @ [lf_fresh q]) = vals (lf_heap q) post @ [t]"
    "lf_size q' = lf_size q" "lf_divider q' = lf_divider q"
proof -
  let ?d = "lf_divider q" and ?f = "lf_fresh q"
  let ?ns = "pre @ ?d # post"
  define us where "us = butlast ?ns"
  define a where "a = lf_last q"
  have a: "?ns = us @ [a]" using assms by (simp add: us_def a_def lf_shape_def butlast_append)
  have ch: "linked (lf_heap q) (us @ [a])" "distinct (us @ [a])" "dom (lf_heap q) = set (us @ [a])"
    "\<forall>n\<in>set (us @ [a]). n < ?f"
    using assms unfolding lf_shape_def chain_def append_Nil2 a by simp_all
  then have fr: "?f \<notin> set (us @ [a])" by auto
  obtain v where v: "lf_heap q a = Some \<lparr> nd_value = v, nd_next = None \<rparr>" using linked_end [OF ch(1)] by blast
  define h where "h = (lf_heap q)(a \<mapsto> \<lparr> nd_value = v, nd_next = Some ?f \<rparr>, ?f \<mapsto> \<lparr> nd_value = t, nd_next = None \<rparr>)"
  define q' where "q' = q\<lparr> lf_heap := h, lf_fresh := Suc ?f \<rparr>"
  have "produce_link t q = Inr q'"
    using v by (simp add: produce_link_def lf_deref_def a_def q'_def h_def)
  moreover have "linked h (us @ [a, ?f])"
    by (rule linked_append_end [OF ch(1)]) (use ch(2) fr in \<open>auto simp: h_def\<close>)
  then have "chain q' (?ns @ [?f])"
    using ch fr unfolding a chain_def by (auto simp: q'_def h_def)
  then have "lf_shape q' pre post [?f]" using assms by (simp add: lf_shape_def q'_def)
  moreover have "vals h post = vals (lf_heap q) post"
    using fr v unfolding vals_def a [symmetric] by (auto simp: h_def)
  then have "vals (lf_heap q') (post @ [?f]) = vals (lf_heap q) post @ [t]"
    by (simp add: vals_def q'_def) (simp add: h_def)
  ultimately show thesis by (rule that) (simp_all add: q'_def)
qed

lemma shape_publish:
  assumes "lf_shape q pre post [x]"
  shows "produce_advance q = Inr (q\<lparr> lf_last := x \<rparr>)" "lf_shape (q\<lparr> lf_last := x \<rparr>) pre (post @ [x]) []"
proof -
  let ?us = "butlast (pre @ lf_divider q # post)"
  have "pre @ lf_divider q # post @ [x] = ?us @ lf_last q # x # []"
    using assms by (simp add: lf_shape_def butlast_append)
  then obtain v where "lf_heap q (lf_last q) = Some \<lparr> nd_value = v, nd_next = Some x \<rparr>"
    using assms linked_step unfolding lf_shape_def chain_def by metis
  then show "produce_advance q = Inr (q\<lparr> lf_last := x \<rparr>)" by (simp add: produce_advance_def lf_deref_def)
  show "lf_shape (q\<lparr> lf_last := x \<rparr>) pre (post @ [x]) []" using assms by (simp add: lf_shape_def chain_def)
qed

lemma shape_reclaim:
  assumes "lf_shape q (p # pre) post extra"
  obtains q' where "produce_reclaim q = Inr q'" "lf_shape q' pre post extra"
    "vals (lf_heap q') (post @ extra) = vals (lf_heap q) (post @ extra)"
    "lf_size q' = lf_size q" "lf_divider q' = lf_divider q" "lf_last q' = lf_last q"
proof -
  let ?m = "hd (pre @ [lf_divider q])"
  let ?rest = "pre @ lf_divider q # post @ extra"
  have ch: "linked (lf_heap q) (p # ?rest)" "distinct (p # ?rest)" "dom (lf_heap q) = set (p # ?rest)"
    "\<forall>n\<in>set (p # ?rest). n < lf_fresh q" and f: "lf_first q = Some p"
    using assms by (simp_all add: lf_shape_def chain_def)
  have "p # ?rest = [] @ p # ?m # tl ?rest" by (cases pre) simp_all
  then obtain v where v: "lf_heap q p = Some \<lparr> nd_value = v, nd_next = Some ?m \<rparr>"
    using ch(1) linked_step by metis
  define h where "h = (lf_heap q)(p := None)"
  define q' where "q' = q\<lparr> lf_first := Some ?m, lf_heap := h \<rparr>"
  have "produce_reclaim q = Inr q'"
    using v f by (simp add: produce_reclaim_def lf_deref_def q'_def h_def)
  moreover have "linked h ?rest"
    by (rule linked_cong [THEN iffD2, OF _ linked_tl [OF ch(1)]]) (use ch(2) in \<open>auto simp: h_def\<close>)
  then have "chain q' ?rest" using ch by (auto simp: chain_def q'_def h_def)
  then have "lf_shape q' pre post extra" using assms by (simp add: lf_shape_def q'_def)
  moreover have "vals (lf_heap q') (post @ extra) = vals (lf_heap q) (post @ extra)"
    using ch(2) by (auto simp: vals_def q'_def h_def)
  ultimately show thesis by (rule that) (simp_all add: q'_def)
qed

lemma shape_next:
  assumes "lf_shape q pre (m # post) extra"
  obtains v n where "lf_heap q (lf_divider q) = Some \<lparr> nd_value = v, nd_next = Some m \<rparr>" "lf_heap q m = Some n"
proof -
  have "linked (lf_heap q) (pre @ lf_divider q # m # post @ extra)" "m \<in> dom (lf_heap q)"
    using assms by (simp_all add: lf_shape_def chain_def)
  then show thesis using that linked_step by blast
qed

lemma shape_consume_read:
  assumes "lf_shape q pre (m # post) extra"
  shows "consume_read q = Inr (hd (vals (lf_heap q) (m # post)))"
  by (rule shape_next [OF assms]) (simp add: consume_read_def lf_deref_def vals_def)

lemma shape_consume_advance:
  assumes "lf_shape q pre (m # post) extra"
  shows "consume_advance q = Inr (q\<lparr> lf_divider := m \<rparr>)"
    "lf_shape (q\<lparr> lf_divider := m \<rparr>) (pre @ [lf_divider q]) post extra"
proof -
  show "consume_advance q = Inr (q\<lparr> lf_divider := m \<rparr>)"
    by (rule shape_next [OF assms]) (simp add: consume_advance_def lf_deref_def)
  show "lf_shape (q\<lparr> lf_divider := m \<rparr>) (pre @ [lf_divider q]) post extra"
    using assms by (cases pre) (simp_all add: lf_shape_def chain_def)
qed

lemma shape_size [simp]: "lf_shape (q\<lparr> lf_size := k \<rparr>) pre post extra = lf_shape q pre post extra"
  by (simp add: lf_shape_def chain_def)

lemma cleanup_ends:
  assumes "lf_shape q pre post extra"
  shows "\<exists>q'. produce_cleanup q = Some (Inr q') \<and> lf_shape q' [] post extra \<and>
    vals (lf_heap q') (post @ extra) = vals (lf_heap q) (post @ extra) \<and> lf_size q' = lf_size q"
  using assms
proof (induction pre arbitrary: q)
  case Nil
  then show ?case using shape_reclaimable [OF Nil] by (subst produce_cleanup.simps) simp
next
  case (Cons p pre)
  obtain q1 where q1: "produce_reclaim q = Inr q1" "lf_shape q1 pre post extra"
    "vals (lf_heap q1) (post @ extra) = vals (lf_heap q) (post @ extra)" "lf_size q1 = lf_size q"
    using shape_reclaim [OF Cons.prems] by metis
  then show ?case using Cons.IH [OF q1(2)] shape_reclaimable [OF Cons.prems]
    by (subst produce_cleanup.simps) simp
qed


definition lf_rep :: "'a lf_queue \<Rightarrow> 'a list \<Rightarrow> bool" where
  "lf_rep q xs \<longleftrightarrow> (\<exists>pre post. lf_shape q pre post [] \<and> xs = vals (lf_heap q) post \<and> lf_size q = of_nat (length xs))"

lemma vals_length [simp]: "length (vals h ns) = length ns"
  by (simp add: vals_def)

lemma vals_append [simp]: "vals h (ns @ ms) = vals h ns @ vals h ms"
  by (simp add: vals_def)

lemma vals_Nil_iff [simp]: "vals h ns = [] \<longleftrightarrow> ns = []" "[] = vals h ns \<longleftrightarrow> ns = []"
  by (auto simp: vals_def)

lemma lf_rep_size: "lf_rep q xs \<Longrightarrow> lf_size q = of_nat (length xs)"
  unfolding lf_rep_def by blast

lemma new_shape: "lf_shape (LockFreeQueue_new dflt) [] [] []"
  by (auto simp: lf_shape_def LockFreeQueue_new_def chain_def split: if_splits)



lemma produce_shape:
  assumes "lf_shape q pre post []"
  shows "\<exists>q' x. produce t q = Inr q' \<and> lf_shape q' [] (post @ [x]) [] \<and>
    vals (lf_heap q') (post @ [x]) = vals (lf_heap q) post @ [t] \<and> lf_size q' = lf_size q + 1"
proof -
  let ?x = "lf_fresh q"
  obtain q1 where q1: "produce_link t q = Inr q1" "lf_shape q1 pre post [?x]"
    "vals (lf_heap q1) (post @ [?x]) = vals (lf_heap q) post @ [t]" "lf_size q1 = lf_size q"
    using shape_link [OF assms] by metis
  let ?q2 = "produce_count (q1\<lparr> lf_last := ?x \<rparr>)"
  have "lf_shape ?q2 pre (post @ [?x]) []" using shape_publish(2) [OF q1(2)] by (simp add: produce_count_def)
  then obtain q3 where q3: "produce_cleanup ?q2 = Some (Inr q3)" "lf_shape q3 [] (post @ [?x]) []"
    "vals (lf_heap q3) (post @ [?x]) = vals (lf_heap ?q2) (post @ [?x])" "lf_size q3 = lf_size ?q2"
    using cleanup_ends [where extra = "[]"] by (metis append_Nil2)
  have "produce t q = Inr q3" using q1(1) q3(1) shape_publish(1) [OF q1(2)] by (simp add: produce_def)
  moreover have "lf_heap ?q2 = lf_heap q1" "lf_size ?q2 = lf_size q + 1" using q1(4) by (simp_all add: produce_count_def)
  ultimately show ?thesis using q1(3) q3 by metis
qed

lemma produce_rep:
  assumes "lf_rep q xs"
  shows "\<exists>q'. produce t q = Inr q' \<and> lf_rep q' (xs @ [t]) \<and> card (dom (lf_heap q')) = length xs + 2"
proof -
  obtain pre post where p: "lf_shape q pre post []" "xs = vals (lf_heap q) post" "lf_size q = of_nat (length xs)"
    using assms unfolding lf_rep_def by blast
  obtain q' x where q': "produce t q = Inr q'" "lf_shape q' [] (post @ [x]) []"
    "vals (lf_heap q') (post @ [x]) = xs @ [t]" "lf_size q' = lf_size q + 1"
    using produce_shape [OF p(1)] p(2) by metis
  have "lf_rep q' (xs @ [t])"
    using q'(2-4) p(3) unfolding lf_rep_def by (intro exI [of _ "[]"] exI [of _ "post @ [x]"]) simp
  moreover have "card (dom (lf_heap q')) = length (lf_divider q' # post @ [x])"
    using q'(2) distinct_card unfolding lf_shape_def chain_def by (metis append_Nil append_Nil2)
  ultimately show ?thesis using q'(1) p(2) by simp
qed

lemma consume_rep_Nil: "lf_rep q [] \<Longrightarrow> consume q = Inr (None, q)"
  by (auto simp: lf_rep_def consume_def dest: shape_nonempty)

lemma consume_rep_Cons:
  assumes "lf_rep q (x # xs)"
  shows "\<exists>q'. consume q = Inr (Some x, q') \<and> lf_rep q' xs"
proof -
  obtain pre post where p: "lf_shape q pre post []" "x # xs = vals (lf_heap q) post" "lf_size q = of_nat (length (x # xs))"
    using assms unfolding lf_rep_def by blast
  then obtain m ms where ms: "post = m # ms" by (cases post) (auto simp: vals_def)
  let ?q' = "consume_count (q\<lparr> lf_divider := m \<rparr>)"
  have "x = hd (vals (lf_heap q) (m # ms))" "xs = vals (lf_heap q) ms"
    using p(2) unfolding ms vals_def by simp_all
  then have "consume q = Inr (Some x, ?q')"
    using shape_nonempty [OF p(1)] shape_consume_read [OF p(1) [unfolded ms]]
      shape_consume_advance(1) [OF p(1) [unfolded ms]] by (simp add: consume_def ms)
  moreover have "lf_rep ?q' xs"
    unfolding lf_rep_def using p(3) \<open>xs = _\<close> shape_consume_advance(2) [OF p(1) [unfolded ms]]
    by (intro exI [of _ "pre @ [lf_divider q]"] exI [of _ ms]) (simp add: consume_count_def)
  ultimately show ?thesis by blast
qed

interpretation lfq: fifo_queue lf_rep "LockFreeQueue_new dflt" produce consume for dflt
proof
  show "lf_rep (LockFreeQueue_new dflt) []"
    using new_shape unfolding lf_rep_def
    by (intro exI [of _ "[]"]) (simp add: vals_def LockFreeQueue_new_def)
  show "\<exists>q'. produce x q = Inr q' \<and> lf_rep q' (xs @ [x])" if "lf_rep q xs" for q :: "'a lf_queue" and xs x
    using produce_rep [OF that, of x] by blast
qed (fact consume_rep_Nil consume_rep_Cons)+

text \<open>
  C18: \<^verbatim>\<open>LockFreeQueue\<close> used by one thread at a time is a first-in first-out queue: any sequence of
  \<^verbatim>\<open>produce\<close> and \<^verbatim>\<open>consume\<close> calls on a new queue runs to its end without touching a null or freed
  node, the clean-up loop of every \<^verbatim>\<open>produce\<close> ends, each \<^verbatim>\<open>consume\<close> returns the oldest value not
  consumed yet (false on an empty queue), and at the end \<^verbatim>\<open>empty()\<close> tells whether values are left
  (as long as fewer than \<^verbatim>\<open>2^32\<close> are).
\<close>

theorem lock_free_queue_fifo:
  "\<exists>q. run_queue produce consume ops (LockFreeQueue_new dflt) = Inr (fst (run_list ops []), q) \<and>
       lf_rep q (snd (run_list ops [])) \<and>
       (lf_empty q \<longleftrightarrow> 2 ^ 32 dvd length (snd (run_list ops [])))"
proof -
  obtain q where q: "run_queue produce consume ops (LockFreeQueue_new dflt) = Inr (fst (run_list ops []), q)"
    "lf_rep q (snd (run_list ops []))"
    using lfq.run_refines [OF lfq.rep_new [of dflt], of ops] by (elim exE conjE)
  have "lf_empty q \<longleftrightarrow> (of_nat (length (snd (run_list ops []))) :: 32 word) = 0"
    using lf_rep_size [OF q(2)] by (simp add: lf_empty_def)
  also have "\<dots> \<longleftrightarrow> 2 ^ 32 dvd length (snd (run_list ops []))"
    by (simp add: word_of_nat_eq_0_iff)
  finally show ?thesis using q by blast
qed

lemma destruct_shape:
  "linked (lf_heap q) ns \<Longrightarrow> distinct ns \<Longrightarrow> dom (lf_heap q) = set ns \<Longrightarrow>
   lf_first q = (case ns of [] \<Rightarrow> None | n # _ \<Rightarrow> Some n) \<Longrightarrow>
   \<exists>q'. LockFreeQueue_destruct q = Some (Inr q') \<and> lf_heap q' = Map.empty \<and> lf_first q' = None \<and> lf_size q' = 0"
proof (induction ns arbitrary: q)
  case Nil
  then show ?case by (subst LockFreeQueue_destruct.simps) simp
next
  case (Cons n ns)
  let ?nx = "case ns of [] \<Rightarrow> None | m # _ \<Rightarrow> Some m"
  let ?q1 = "q\<lparr> lf_first := ?nx, lf_heap := (lf_heap q)(n := None) \<rparr>"
  obtain v where "lf_heap q n = Some \<lparr> nd_value = v, nd_next = ?nx \<rparr>"
    using Cons.prems(1) by (cases ns) auto
  then have r: "produce_reclaim q = Inr ?q1"
    using Cons.prems(4) by (simp add: produce_reclaim_def lf_deref_def)
  have "linked (lf_heap ?q1) ns"
    by (rule linked_cong [THEN iffD2, OF _ linked_tl [OF Cons.prems(1)]]) (use Cons.prems(2) in auto)
  then have "\<exists>q'. LockFreeQueue_destruct ?q1 = Some (Inr q') \<and> lf_heap q' = Map.empty \<and> lf_first q' = None \<and> lf_size q' = 0"
    by (rule Cons.IH) (use Cons.prems in \<open>auto split: if_splits\<close>)
  then show ?case using r Cons.prems(4) by (subst LockFreeQueue_destruct.simps) simp
qed

lemma destruct_frees:
  assumes "lf_rep q xs"
  shows "\<exists>q'. LockFreeQueue_destruct q = Some (Inr q') \<and> lf_heap q' = Map.empty \<and> lf_first q' = None \<and> lf_size q' = 0"
proof -
  obtain pre post where s: "lf_shape q pre post []" using assms by (auto simp: lf_rep_def)
  have "lf_first q = (case pre @ lf_divider q # post of [] \<Rightarrow> None | n # _ \<Rightarrow> Some n)"
    using s by (cases pre) (simp_all add: lf_shape_def)
  then show ?thesis
    by (intro destruct_shape [of q "pre @ lf_divider q # post"]) (use s in \<open>simp_all add: lf_shape_def chain_def\<close>)
qed


text \<open>
  The destructor after any sequence of calls on a new queue ends and frees every node exactly
  once, those of values never consumed and those already consumed but not reclaimed included.
\<close>

theorem lock_free_queue_destruct_frees_all:
  "\<exists>rs q q'. run_queue produce consume ops (LockFreeQueue_new dflt) = Inr (rs, q) \<and>
     LockFreeQueue_destruct q = Some (Inr q') \<and> lf_heap q' = Map.empty \<and> lf_first q' = None \<and> lf_size q' = 0"
proof -
  obtain q where q: "run_queue produce consume ops (LockFreeQueue_new dflt) = Inr (fst (run_list ops []), q)"
    "lf_rep q (snd (run_list ops []))"
    using lfq.run_refines [OF lfq.rep_new [of dflt], of ops] by (elim exE conjE)
  show ?thesis using q(1) destruct_frees [OF q(2)] by blast
qed

subsection \<open>Two threads\<close>

text \<open>
  The program counters: the producer has linked the new node, has published it by \<^verbatim>\<open>last\<close>, or is in
  the clean-up loop; the consumer has seen a non-empty queue, has copied the value, or has moved
  the divider.  \<open>produced\<close> and \<open>consumed\<close> are the arguments of the started \<^verbatim>\<open>produce\<close> calls and the
  results of the finished successful \<^verbatim>\<open>consume\<close> calls.
\<close>

datatype producer_pc = P_idle | P_linked | P_published | P_cleaning
datatype 'a consumer_pc = C_idle | C_nonempty | C_copied 'a | C_moved 'a

record 'a spsc =
  sp_queue :: "'a lf_queue"
  sp_producer :: producer_pc
  sp_consumer :: "'a consumer_pc"
  produced :: "'a list"
  consumed :: "'a list"

definition spsc_init :: "'a \<Rightarrow> 'a spsc" where
  "spsc_init dflt = \<lparr> sp_queue = LockFreeQueue_new dflt, sp_producer = P_idle, sp_consumer = C_idle,
     produced = [], consumed = [] \<rparr>"

inductive spsc_step :: "'a spsc \<Rightarrow> 'a spsc res \<Rightarrow> bool" where
  p_link: "sp_producer s = P_idle \<Longrightarrow>
     spsc_step s (map_sum id (\<lambda>q. s\<lparr> sp_queue := q, sp_producer := P_linked, produced := produced s @ [t] \<rparr>) (produce_link t (sp_queue s)))"
| p_publish: "sp_producer s = P_linked \<Longrightarrow>
     spsc_step s (map_sum id (\<lambda>q. s\<lparr> sp_queue := q, sp_producer := P_published \<rparr>) (produce_advance (sp_queue s)))"
| p_count: "sp_producer s = P_published \<Longrightarrow>
     spsc_step s (Inr (s\<lparr> sp_queue := produce_count (sp_queue s), sp_producer := P_cleaning \<rparr>))"
| p_reclaim: "sp_producer s = P_cleaning \<Longrightarrow> Some (lf_divider (sp_queue s)) \<noteq> lf_first (sp_queue s) \<Longrightarrow>
     spsc_step s (map_sum id (\<lambda>q. s\<lparr> sp_queue := q \<rparr>) (produce_reclaim (sp_queue s)))"
| p_return: "sp_producer s = P_cleaning \<Longrightarrow> Some (lf_divider (sp_queue s)) = lf_first (sp_queue s) \<Longrightarrow>
     spsc_step s (Inr (s\<lparr> sp_producer := P_idle \<rparr>))"
| c_nonempty: "sp_consumer s = C_idle \<Longrightarrow> lf_divider (sp_queue s) \<noteq> lf_last (sp_queue s) \<Longrightarrow>
     spsc_step s (Inr (s\<lparr> sp_consumer := C_nonempty \<rparr>))"
| c_empty: "sp_consumer s = C_idle \<Longrightarrow> lf_divider (sp_queue s) = lf_last (sp_queue s) \<Longrightarrow>
     spsc_step s (Inr s)"
| c_copy: "sp_consumer s = C_nonempty \<Longrightarrow>
     spsc_step s (map_sum id (\<lambda>v. s\<lparr> sp_consumer := C_copied v \<rparr>) (consume_read (sp_queue s)))"
| c_move: "sp_consumer s = C_copied v \<Longrightarrow>
     spsc_step s (map_sum id (\<lambda>q. s\<lparr> sp_queue := q, sp_consumer := C_moved v \<rparr>) (consume_advance (sp_queue s)))"
| c_return: "sp_consumer s = C_moved v \<Longrightarrow>
     spsc_step s (Inr (s\<lparr> sp_queue := consume_count (sp_queue s), sp_consumer := C_idle, consumed := consumed s @ [v] \<rparr>))"

inductive_cases spsc_stepE: "spsc_step s r"

inductive spsc_reaches :: "'a \<Rightarrow> 'a spsc res \<Rightarrow> bool" for dflt where
  spsc_start: "spsc_reaches dflt (Inr (spsc_init dflt))"
| spsc_next: "spsc_reaches dflt (Inr s) \<Longrightarrow> spsc_step s r \<Longrightarrow> spsc_reaches dflt r"

definition taken :: "'a consumer_pc \<Rightarrow> 'a list" where
  "taken c = (case c of C_moved v \<Rightarrow> [v] | _ \<Rightarrow> [])"

definition spsc_view :: "'a spsc \<Rightarrow> nat list \<Rightarrow> nat list \<Rightarrow> nat list \<Rightarrow> bool" where
  "spsc_view s pre post extra \<longleftrightarrow> (let q = sp_queue s in
     lf_shape q pre post extra \<and> length extra = (if sp_producer s = P_linked then 1 else 0) \<and>
     produced s = consumed s @ taken (sp_consumer s) @ vals (lf_heap q) (post @ extra) \<and>
     lf_size q = of_nat (length post) + of_nat (length (taken (sp_consumer s))) - (if sp_producer s = P_published then 1 else 0) \<and>
     (sp_consumer s = C_nonempty \<longrightarrow> post \<noteq> []) \<and>
     (\<forall>v. sp_consumer s = C_copied v \<longrightarrow> post \<noteq> [] \<and> v = hd (vals (lf_heap q) post)))"

definition spsc_inv :: "'a spsc \<Rightarrow> bool" where
  "spsc_inv s \<longleftrightarrow> (\<exists>pre post extra. spsc_view s pre post extra)"

lemma vals_Cons: "vals h (n # ns) = nd_value (the (h n)) # vals h ns"
  by (simp add: vals_def)

lemma hd_vals_append: "ns \<noteq> [] \<Longrightarrow> vals h ns @ xs = vals h' ns @ ys \<Longrightarrow> hd (vals h ns) = hd (vals h' ns)"
  by (cases ns) (simp_all add: vals_Cons)

lemma taken_simps [simp]:
  "taken C_idle = []" "taken C_nonempty = []" "taken (C_copied v) = []" "taken (C_moved v) = [v]"
  by (simp_all add: taken_def)

lemma spsc_link:
  assumes "spsc_view s pre post extra" "sp_producer s = P_idle"
  shows "\<exists>q. produce_link t (sp_queue s) = Inr q \<and>
    spsc_inv (s\<lparr> sp_queue := q, sp_producer := P_linked, produced := produced s @ [t] \<rparr>)"
proof -
  note i = assms(1) [unfolded spsc_view_def Let_def]
  have e: "extra = []" using i assms(2) by simp
  let ?x = "lf_fresh (sp_queue s)"
  have "lf_shape (sp_queue s) pre post []" using i e by simp
  then obtain q where q: "produce_link t (sp_queue s) = Inr q" "lf_shape q pre post [?x]"
    "vals (lf_heap q) (post @ [?x]) = vals (lf_heap (sp_queue s)) post @ [t]" "lf_size q = lf_size (sp_queue s)"
    using shape_link by metis
  have "post \<noteq> [] \<longrightarrow> hd (vals (lf_heap q) post) = hd (vals (lf_heap (sp_queue s)) post)"
    using hd_vals_append q(3) unfolding vals_append by blast
  then have "spsc_view (s\<lparr> sp_queue := q, sp_producer := P_linked, produced := produced s @ [t] \<rparr>) pre post [?x]"
    using i q assms(2) e by (simp add: spsc_view_def del: vals_append)
  then show ?thesis using q(1) spsc_inv_def by blast
qed

lemma spsc_publish:
  assumes "spsc_view s pre post extra" "sp_producer s = P_linked"
  shows "\<exists>q. produce_advance (sp_queue s) = Inr q \<and> spsc_inv (s\<lparr> sp_queue := q, sp_producer := P_published \<rparr>)"
proof -
  note i = assms(1) [unfolded spsc_view_def Let_def]
  obtain x where e: "extra = [x]" using i assms(2) by (auto simp: length_Suc_conv)
  have "lf_shape (sp_queue s) pre post [x]" using i e by simp
  note sh = shape_publish [OF this]
  have "spsc_view (s\<lparr> sp_queue := (sp_queue s)\<lparr> lf_last := x \<rparr>, sp_producer := P_published \<rparr>) pre (post @ [x]) []"
    using i sh(2) assms(2) e by (auto simp: spsc_view_def)
  then show ?thesis using sh(1) spsc_inv_def by blast
qed

lemma spsc_reclaim:
  assumes "spsc_view s pre post extra" "Some (lf_divider (sp_queue s)) \<noteq> lf_first (sp_queue s)"
  shows "\<exists>q. produce_reclaim (sp_queue s) = Inr q \<and> spsc_inv (s\<lparr> sp_queue := q \<rparr>)"
proof -
  note i = assms(1) [unfolded spsc_view_def Let_def]
  have sh: "lf_shape (sp_queue s) pre post extra" using i by simp
  obtain p pre' where pre: "pre = p # pre'" using shape_reclaimable [OF sh] assms(2) by (cases pre) auto
  obtain q where q: "produce_reclaim (sp_queue s) = Inr q" "lf_shape q pre' post extra"
    "vals (lf_heap q) (post @ extra) = vals (lf_heap (sp_queue s)) (post @ extra)" "lf_size q = lf_size (sp_queue s)"
    using shape_reclaim [OF sh [unfolded pre]] by metis
  have "vals (lf_heap q) post = vals (lf_heap (sp_queue s)) post" using q(3) by simp
  then have "spsc_view (s\<lparr> sp_queue := q \<rparr>) pre' post extra"
    using i q by (simp add: spsc_view_def del: vals_append)
  then show ?thesis using q(1) spsc_inv_def by blast
qed

lemma spsc_copy:
  assumes "spsc_view s pre post extra" "sp_consumer s = C_nonempty"
  shows "\<exists>v. consume_read (sp_queue s) = Inr v \<and> spsc_inv (s\<lparr> sp_consumer := C_copied v \<rparr>)"
proof -
  note i = assms(1) [unfolded spsc_view_def Let_def]
  obtain m ms where post: "post = m # ms" using i assms(2) by (cases post) auto
  have "lf_shape (sp_queue s) pre (m # ms) extra" using i post by simp
  from shape_consume_read [OF this] post
  have r: "consume_read (sp_queue s) = Inr (hd (vals (lf_heap (sp_queue s)) post))" by simp
  have "spsc_view (s\<lparr> sp_consumer := C_copied (hd (vals (lf_heap (sp_queue s)) post)) \<rparr>) pre post extra"
    using i assms(2) post by (simp add: spsc_view_def)
  then show ?thesis using r spsc_inv_def by blast
qed

lemma spsc_move:
  assumes "spsc_view s pre post extra" "sp_consumer s = C_copied v"
  shows "\<exists>q. consume_advance (sp_queue s) = Inr q \<and> spsc_inv (s\<lparr> sp_queue := q, sp_consumer := C_moved v \<rparr>)"
proof -
  note i = assms(1) [unfolded spsc_view_def Let_def]
  obtain m ms where post: "post = m # ms" using i assms(2) by (cases post) auto
  have "lf_shape (sp_queue s) pre (m # ms) extra" using i post by simp
  note sh = shape_consume_advance [OF this]
  have "v = nd_value (the (lf_heap (sp_queue s) m))" using i assms(2) post by (simp add: vals_Cons)
  then have "spsc_view (s\<lparr> sp_queue := (sp_queue s)\<lparr> lf_divider := m \<rparr>, sp_consumer := C_moved v \<rparr>)
      (pre @ [lf_divider (sp_queue s)]) ms extra"
    using i sh(2) assms(2) post by (simp add: spsc_view_def vals_Cons)
  then show ?thesis using sh(1) spsc_inv_def by blast
qed

lemma spsc_step_inv:
  assumes "spsc_step s r" "spsc_inv s"
  shows "\<exists>s'. r = Inr s' \<and> spsc_inv s'"
proof -
  obtain pre post extra where v: "spsc_view s pre post extra" using assms(2) by (auto simp: spsc_inv_def)
  note i = v [unfolded spsc_view_def Let_def]
  from assms(1) show ?thesis
  proof cases
    case (p_link t)
    then show ?thesis using spsc_link [OF v, of t] by auto
  next
    case p_publish
    then show ?thesis using spsc_publish [OF v] by auto
  next
    case p_count
    then have "spsc_view (s\<lparr> sp_queue := produce_count (sp_queue s), sp_producer := P_cleaning \<rparr>) pre post extra"
      using i by (auto simp: spsc_view_def produce_count_def)
    then show ?thesis using p_count spsc_inv_def by blast
  next
    case p_reclaim
    then show ?thesis using spsc_reclaim [OF v] by auto
  next
    case p_return
    then have "spsc_view (s\<lparr> sp_producer := P_idle \<rparr>) pre post extra" using i by (auto simp: spsc_view_def)
    then show ?thesis using p_return spsc_inv_def by blast
  next
    case c_nonempty
    then have "spsc_view (s\<lparr> sp_consumer := C_nonempty \<rparr>) pre post extra"
      using i shape_nonempty by (simp add: spsc_view_def) blast
    then show ?thesis using c_nonempty spsc_inv_def by blast
  next
    case c_empty
    then show ?thesis using assms(2) by simp
  next
    case c_copy
    then show ?thesis using spsc_copy [OF v] by auto
  next
    case (c_move w)
    then show ?thesis using spsc_move [OF v] by auto
  next
    case (c_return w)
    then have "spsc_view (s\<lparr> sp_queue := consume_count (sp_queue s), sp_consumer := C_idle, consumed := consumed s @ [w] \<rparr>) pre post extra"
      using i by (simp add: spsc_view_def consume_count_def)
    then show ?thesis using c_return spsc_inv_def by blast
  qed
qed

lemma spsc_reaches_inv: "spsc_reaches dflt r \<Longrightarrow> \<exists>s. r = Inr s \<and> spsc_inv s"
proof (induction rule: spsc_reaches.induct)
  case spsc_start
  have "spsc_view (spsc_init dflt) [] [] []"
    using new_shape by (simp add: spsc_view_def spsc_init_def vals_def) (simp add: LockFreeQueue_new_def)
  then show ?case using spsc_inv_def by blast
next
  case (spsc_next s r)
  then show ?case using spsc_step_inv by blast
qed


text \<open>
  C16: With one producer and one consumer thread, interleaved in any way, the queue loses, reorders
  and duplicates nothing: no interleaving of the single steps of \<^verbatim>\<open>produce\<close> and \<^verbatim>\<open>consume\<close> touches a
  null or deleted node (the consumer's divider is never reclaimed under it), and in every reachable
  state the values consumed are the first ones produced, in order.  \<^verbatim>\<open>_size\<close> is the number of
  values published and not yet returned, except between the publication of a node and \<^verbatim>\<open>++_size\<close>,
  where it is one too small (and may be \<^verbatim>\<open>-1\<close>, which \<^verbatim>\<open>empty()\<close> reports as non-empty).
\<close>

theorem spsc_queue_fifo:
  assumes "spsc_reaches dflt r"
  shows "\<exists>s. r = Inr s \<and> take (length (consumed s)) (produced s) = consumed s \<and>
    lf_size (sp_queue s) = of_nat (length (produced s)) - of_nat (length (consumed s)) -
      (if sp_producer s = P_linked \<or> sp_producer s = P_published then 1 else 0)"
proof -
  obtain s where s: "r = Inr s" "spsc_inv s" using spsc_reaches_inv [OF assms] by blast
  obtain pre post extra where v: "spsc_view s pre post extra" using s(2) by (auto simp: spsc_inv_def)
  note i = v [unfolded spsc_view_def Let_def]
  have "take (length (consumed s)) (produced s) = consumed s" using i by simp
  moreover have "lf_size (sp_queue s) = of_nat (length (produced s)) - of_nat (length (consumed s)) -
      (if sp_producer s = P_linked \<or> sp_producer s = P_published then 1 else 0)"
    using i by (auto simp: algebra_simps)
  ultimately show ?thesis using s(1) by blast
qed

text \<open>A producer and a consumer that overtakes the producer's \<^verbatim>\<open>++_size\<close>.\<close>

definition ex_overtake :: "nat spsc" where
  "ex_overtake = \<lparr> sp_queue = \<lparr> lf_heap = [0 \<mapsto> \<lparr> nd_value = 0, nd_next = Some 1 \<rparr>, 1 \<mapsto> \<lparr> nd_value = 7, nd_next = None \<rparr>],
     lf_first = Some 0, lf_divider = 1, lf_last = 1, lf_size = - 1, lf_fresh = 2 \<rparr>,
     sp_producer = P_published, sp_consumer = C_idle, produced = [7], consumed = [7] \<rparr>"

definition ex_ready :: "nat spsc" where
  "ex_ready = \<lparr> sp_queue = \<lparr> lf_heap = [0 \<mapsto> \<lparr> nd_value = 0, nd_next = Some 1 \<rparr>, 1 \<mapsto> \<lparr> nd_value = 7, nd_next = None \<rparr>],
     lf_first = Some 0, lf_divider = 0, lf_last = 1, lf_size = 0, lf_fresh = 2 \<rparr>,
     sp_producer = P_published, sp_consumer = C_idle, produced = [7], consumed = [] \<rparr>"

lemmas spsc_statement_defs =
  lf_deref_def produce_link_def produce_advance_def consume_read_def consume_advance_def consume_count_def

lemma ex_ready_reached: "spsc_reaches 0 (Inr ex_ready)"
proof -
  let ?s = "ex_ready\<lparr> sp_queue := (sp_queue ex_ready)\<lparr> lf_last := 0 \<rparr>, sp_producer := P_linked \<rparr>"
  have "spsc_reaches 0 (Inr ?s)"
    using spsc_next [OF spsc_start p_link [where t = 7]]
    by (simp add: spsc_statement_defs spsc_init_def LockFreeQueue_new_def ex_ready_def numeral_2_eq_2)
  from spsc_next [OF this p_publish] show ?thesis by (simp add: spsc_statement_defs ex_ready_def)
qed

lemma ex_overtake_reached: "spsc_reaches 0 (Inr ex_overtake)"
proof -
  from spsc_next [OF ex_ready_reached c_nonempty]
  have "spsc_reaches 0 (Inr (ex_ready\<lparr> sp_consumer := C_nonempty \<rparr>))" by (simp add: ex_ready_def)
  from spsc_next [OF this c_copy]
  have "spsc_reaches 0 (Inr (ex_ready\<lparr> sp_consumer := C_copied 7 \<rparr>))" by (simp add: spsc_statement_defs ex_ready_def)
  from spsc_next [OF this c_move]
  have "spsc_reaches 0 (Inr (ex_ready\<lparr> sp_queue := (sp_queue ex_ready)\<lparr> lf_divider := 1 \<rparr>, sp_consumer := C_moved 7 \<rparr>))"
    by (simp add: spsc_statement_defs ex_ready_def)
  from spsc_next [OF this c_return]
  show ?thesis by (simp add: spsc_statement_defs ex_overtake_def ex_ready_def)
qed

theorem spsc_queue_fifo_witness:
  "spsc_reaches 0 (Inr ex_overtake) \<and> take 1 (produced ex_overtake) = [7] \<and> lf_size (sp_queue ex_overtake) = - 1 \<and>
   \<not> lf_empty (sp_queue ex_overtake)"
  using spsc_queue_fifo [OF ex_overtake_reached] ex_overtake_reached by (simp add: ex_overtake_def lf_empty_def)

lemma consumer_delivers:
  assumes "spsc_view s pre (m # post) extra" "sp_consumer s = C_idle"
  shows "\<exists>s1 s2 s3 s4. spsc_step s (Inr s1) \<and> spsc_step s1 (Inr s2) \<and> spsc_step s2 (Inr s3) \<and> spsc_step s3 (Inr s4) \<and>
    consumed s4 = consumed s @ [nd_value (the (lf_heap (sp_queue s) m))] \<and> produced s4 = produced s \<and> sp_consumer s4 = C_idle"
proof -
  note i = assms(1) [unfolded spsc_view_def Let_def]
  let ?v = "nd_value (the (lf_heap (sp_queue s) m))"
  have sh: "lf_shape (sp_queue s) pre (m # post) extra" using i by simp
  let ?s1 = "s\<lparr> sp_consumer := C_nonempty \<rparr>"
  let ?s2 = "s\<lparr> sp_consumer := C_copied ?v \<rparr>"
  let ?q = "(sp_queue s)\<lparr> lf_divider := m \<rparr>"
  let ?s3 = "s\<lparr> sp_queue := ?q, sp_consumer := C_moved ?v \<rparr>"
  let ?s4 = "s\<lparr> sp_queue := consume_count ?q, sp_consumer := C_idle, consumed := consumed s @ [?v] \<rparr>"
  have "spsc_step s (Inr ?s1)" by (rule c_nonempty) (use assms(2) shape_nonempty [OF sh] in simp_all)
  moreover have "spsc_step ?s1 (Inr ?s2)"
    using c_copy [of ?s1] shape_consume_read [OF sh] by (simp add: vals_Cons)
  moreover have "spsc_step ?s2 (Inr ?s3)"
    using c_move [of ?s2 ?v] shape_consume_advance(1) [OF sh] by simp
  moreover have "spsc_step ?s3 (Inr ?s4)" using c_return [of ?s3 ?v] by simp
  ultimately show ?thesis by (intro exI [of _ ?s1] exI [of _ ?s2] exI [of _ ?s3] exI [of _ ?s4]) simp
qed

text \<open>
  C17: The consumer is never starved: in every reachable state in which it is between two calls and
  a value has been published that it has not taken, its next \<^verbatim>\<open>consume\<close>, run on its own (four steps,
  whatever the producer was doing), returns the oldest value not consumed yet.
\<close>

theorem spsc_queue_delivers:
  assumes "spsc_reaches dflt (Inr s)" "sp_consumer s = C_idle"
    and "length (consumed s) + (if sp_producer s = P_linked then 1 else 0) < length (produced s)"
  shows "\<exists>s1 s2 s3 s4. spsc_step s (Inr s1) \<and> spsc_step s1 (Inr s2) \<and> spsc_step s2 (Inr s3) \<and> spsc_step s3 (Inr s4) \<and>
    consumed s4 = consumed s @ [produced s ! length (consumed s)] \<and> produced s4 = produced s \<and> sp_consumer s4 = C_idle"
proof -
  obtain pre post extra where v: "spsc_view s pre post extra"
    using spsc_reaches_inv [OF assms(1)] by (auto simp: spsc_inv_def)
  note i = v [unfolded spsc_view_def Let_def]
  have "length (produced s) = length (consumed s) + length post + (if sp_producer s = P_linked then 1 else 0)"
    using i assms(2) by auto
  then obtain m ms where post: "post = m # ms" using assms(3) by (cases post) auto
  have "produced s ! length (consumed s) = nd_value (the (lf_heap (sp_queue s) m))"
    using i assms(2) post by (simp add: nth_append vals_Cons)
  then show ?thesis using consumer_delivers [OF v [unfolded post] assms(2)] by simp
qed

theorem spsc_queue_delivers_witness:
  "\<exists>s1 s2 s3 s4. spsc_step ex_ready (Inr s1) \<and> spsc_step s1 (Inr s2) \<and> spsc_step s2 (Inr s3) \<and> spsc_step s3 (Inr s4) \<and>
    consumed s4 = [7] \<and> produced s4 = produced ex_ready \<and> sp_consumer s4 = C_idle"
proof -
  have "sp_consumer ex_ready = C_idle" "length (consumed ex_ready) + (if sp_producer ex_ready = P_linked then 1 else 0) < length (produced ex_ready)"
    "consumed ex_ready @ [produced ex_ready ! length (consumed ex_ready)] = [7]"
    by (simp_all add: ex_ready_def)
  then show ?thesis using spsc_queue_delivers [OF ex_ready_reached] by metis
qed

end
