(* ===== verification/Signaling_Worker.thy ===== *)
theory Signaling_Worker
  imports Socket Lock_Free_Queue
begin

text \<open>
  \<^verbatim>\<open>SignalingWorker\<close> and \<^verbatim>\<open>TcpConnection\<close> (\<^verbatim>\<open>src/server/signaling_worker.*\<close>, \<^verbatim>\<open>tcp_connection.*\<close>): the connections of
  one signaling thread, the framing of requests, the dispatch of a request to the RTC server and the
  replies.

  Connections live in a heap; \<^verbatim>\<open>new TcpConnection\<close> returns the address the allocator chose, an argument.
  The pipe holds the notifications written and not yet read, \<open>None\<close> when it is not open.  What the
  worker hands to \<^verbatim>\<open>g_rtc_server\<close>, the bytes it writes to each descriptor and the descriptors it closes
  are logs.
\<close>

subsection \<open>State\<close>

datatype tcp_state = STATE_HEAD | STATE_BODY

text \<open>A \<^verbatim>\<open>rtc::Slice\<close> is a pointer and a size: the bytes of the allocated buffer and the size claimed.\<close>

record slice =
  sl_data :: bytes
  sl_size :: nat

record tcp_connection =
  tcn_fd :: int
  tcn_ip :: bytes
  tcn_port :: u16
  tcn_watch_read :: bool
  tcn_watch_write :: bool
  tcn_querybuf :: bytes
  tcn_bytes_expected :: nat
  tcn_bytes_processed :: nat
  tcn_current_state :: tcp_state
  tcn_last_interaction :: u64
  tcn_reply_list :: "slice list"
  tcn_cur_resp_pos :: nat

definition TcpConnection_new :: "int \<Rightarrow> tcp_connection" where
  "TcpConnection_new fd = \<lparr> tcn_fd = fd, tcn_ip = [], tcn_port = 0, tcn_watch_read = False, tcn_watch_write = False,
     tcn_querybuf = [], tcn_bytes_expected = XHEAD_SIZE, tcn_bytes_processed = 0, tcn_current_state = STATE_HEAD,
     tcn_last_interaction = 0, tcn_reply_list = [], tcn_cur_resp_pos = 0 \<rparr>"

record signaling_worker =
  sw_address :: nat
  sw_connection_timeout :: int
  sw_pipe :: "int list option"
  sw_thread :: bool
  sw_loop_running :: bool
  sw_q_connfd :: "int lf_queue"
  sw_tcp_conns :: "nat option list"
  sw_heap :: "nat \<rightharpoonup> tcp_connection"
  sw_q_msg :: "rtc_msg list"
  sw_to_rtc :: "rtc_msg list"
  sw_written :: "(int \<times> bytes) list"
  sw_closed :: "int list"

definition SignalingWorker_new :: "nat \<Rightarrow> int \<Rightarrow> signaling_worker" where
  "SignalingWorker_new this timeout = \<lparr> sw_address = this, sw_connection_timeout = timeout, sw_pipe = None, sw_thread = False,
     sw_loop_running = False, sw_q_connfd = LockFreeQueue_new 0, sw_tcp_conns = [], sw_heap = Map.empty, sw_q_msg = [],
     sw_to_rtc = [], sw_written = [], sw_closed = [] \<rparr>"

definition sw_init :: "bool \<Rightarrow> signaling_worker \<Rightarrow> int \<times> signaling_worker" where
  "sw_init pipe_ok w = (if \<not> pipe_ok then (- 1, w) else (0, w\<lparr> sw_pipe := Some [] \<rparr>))"

definition sw_start :: "signaling_worker \<Rightarrow> bool \<times> signaling_worker" where
  "sw_start w = (if sw_thread w then (False, w) else (True, w\<lparr> sw_thread := True, sw_loop_running := True \<rparr>))"

definition sw_notify :: "int \<Rightarrow> signaling_worker \<Rightarrow> int \<times> signaling_worker" where
  "sw_notify msg w = (case sw_pipe w of None \<Rightarrow> (- 1, w) | Some ns \<Rightarrow> (0, w\<lparr> sw_pipe := Some (ns @ [msg]) \<rparr>))"

definition SW_QUIT :: int where "SW_QUIT = 0"
definition SW_NEW_CONN :: int where "SW_NEW_CONN = 1"
definition SW_RTC_MSG :: int where "SW_RTC_MSG = 2"

definition sw_stop :: "signaling_worker \<Rightarrow> signaling_worker" where
  "sw_stop w = snd (sw_notify SW_QUIT w)"

definition sw_notify_new_conn :: "int \<Rightarrow> signaling_worker \<Rightarrow> (int \<times> signaling_worker) res" where
  "sw_notify_new_conn fd w = res_bind (produce fd (sw_q_connfd w)) (\<lambda>q. Inr (sw_notify SW_NEW_CONN (w\<lparr> sw_q_connfd := q \<rparr>)))"

definition sw_push_msg :: "rtc_msg \<Rightarrow> signaling_worker \<Rightarrow> signaling_worker" where
  "sw_push_msg msg w = w\<lparr> sw_q_msg := sw_q_msg w @ [msg] \<rparr>"

definition sw_pop_msg :: "signaling_worker \<Rightarrow> rtc_msg option \<times> signaling_worker" where
  "sw_pop_msg w = (case sw_q_msg w of [] \<Rightarrow> (None, w) | m # ms \<Rightarrow> (Some m, w\<lparr> sw_q_msg := ms \<rparr>))"

definition sw_send_rtc_msg :: "rtc_msg \<Rightarrow> signaling_worker \<Rightarrow> int \<times> signaling_worker" where
  "sw_send_rtc_msg msg w = sw_notify SW_RTC_MSG (sw_push_msg msg w)"

subsection \<open>Connections\<close>

definition sw_deref :: "nat \<Rightarrow> signaling_worker \<Rightarrow> tcp_connection res" where
  "sw_deref a w = (case sw_heap w a of None \<Rightarrow> Inl Use_after_free | Some c \<Rightarrow> Inr c)"

definition sw_set_conn :: "nat \<Rightarrow> tcp_connection \<Rightarrow> signaling_worker \<Rightarrow> signaling_worker" where
  "sw_set_conn a c w = w\<lparr> sw_heap := (sw_heap w)(a \<mapsto> c) \<rparr>"

text \<open>\<open>a\<close> is the address of the new object, \<open>peer\<close> the result of \<^verbatim>\<open>getpeername\<close>.\<close>

definition sw_new_conn :: "nat \<Rightarrow> int \<times> bytes \<times> u16 \<Rightarrow> int \<Rightarrow> signaling_worker \<Rightarrow> signaling_worker" where
  "sw_new_conn a peer fd w =
     (if fd \<le> 0 then w
      else let (ip, port) = sock_peer_to_str (fst peer) (snd peer);
               c = (TcpConnection_new fd)\<lparr> tcn_ip := ip, tcn_port := port, tcn_watch_read := True \<rparr>;
               conns = sw_tcp_conns w;
               size0 = (if length conns = 0 then nat fd + 1 else 2 * length conns);
               new_size = (if size0 \<le> nat fd then nat fd + 1 else size0);
               resized = (if nat fd \<ge> length conns then conns @ replicate (new_size - length conns) None else conns)
           in w\<lparr> sw_heap := (sw_heap w)(a \<mapsto> c), sw_tcp_conns := resized[nat fd := Some a] \<rparr>)"

text \<open>\<^verbatim>\<open>_tcp_conns[c->fd] = nullptr\<close>, and the watcher, the timer and the connection are deleted.\<close>

definition sw_remove_conn :: "nat \<Rightarrow> signaling_worker \<Rightarrow> signaling_worker res" where
  "sw_remove_conn a w = res_bind (sw_deref a w) (\<lambda>c.
     if tcn_fd c < 0 \<or> nat (tcn_fd c) \<ge> length (sw_tcp_conns w) then Inl Out_of_bounds
     else Inr (w\<lparr> sw_tcp_conns := (sw_tcp_conns w)[nat (tcn_fd c) := None], sw_heap := (sw_heap w)(a := None) \<rparr>))"

definition sw_close_conn :: "nat \<Rightarrow> signaling_worker \<Rightarrow> signaling_worker res" where
  "sw_close_conn a w = res_bind (sw_deref a w) (\<lambda>c. sw_remove_conn a (w\<lparr> sw_closed := sw_closed w @ [tcn_fd c] \<rparr>))"

text \<open>Both times are \<^verbatim>\<open>unsigned long\<close> microseconds, and the timeout is converted from \<^verbatim>\<open>int\<close>.\<close>

definition sw_process_timeout :: "u64 \<Rightarrow> nat \<Rightarrow> signaling_worker \<Rightarrow> signaling_worker res" where
  "sw_process_timeout now a w = res_bind (sw_deref a w) (\<lambda>c.
     if now - tcn_last_interaction c \<ge> word_of_int (sw_connection_timeout w) then sw_close_conn a w else Inr w)"

definition SignalingWorker_destruct :: "signaling_worker \<Rightarrow> signaling_worker res" where
  "SignalingWorker_destruct w =
     res_bind (res_fold (\<lambda>oc w. case oc of None \<Rightarrow> Inr w | Some a \<Rightarrow> sw_close_conn a w) (sw_tcp_conns w) w) (\<lambda>w1.
       let w2 = w1\<lparr> sw_tcp_conns := [] \<rparr> in Inr (if sw_thread w2 then snd (sw_notify SW_QUIT w2)\<lparr> sw_thread := False \<rparr> else w2))"

subsection \<open>Requests\<close>

definition send_to_rtc_server :: "rtc_msg \<Rightarrow> signaling_worker \<Rightarrow> signaling_worker" where
  "send_to_rtc_server msg w = w\<lparr> sw_to_rtc := sw_to_rtc w @ [msg] \<rparr>"

definition read_media_request :: "json \<Rightarrow> (u64 \<times> bytes \<times> int \<times> int) json_res" where
  "read_media_request root =
     json_bind (json_bind (json_at (bytes_of ''uid'') root) json_get_u64) (\<lambda>uid.
     json_bind (json_bind (json_at (bytes_of ''stream_name'') root) json_get_string) (\<lambda>stream_name.
     json_bind (json_bind (json_at (bytes_of ''audio'') root) json_get_int) (\<lambda>audio.
     json_bind (json_bind (json_at (bytes_of ''video'') root) json_get_int) (\<lambda>video.
       Inr (uid, stream_name, audio, video)))))"

definition read_stop_request :: "json \<Rightarrow> (u64 \<times> bytes) json_res" where
  "read_stop_request root =
     json_bind (json_bind (json_at (bytes_of ''uid'') root) json_get_u64) (\<lambda>uid.
     json_bind (json_bind (json_at (bytes_of ''stream_name'') root) json_get_string) (\<lambda>stream_name.
       Inr (uid, stream_name)))"

definition read_answer_request :: "json \<Rightarrow> (u64 \<times> bytes \<times> bytes \<times> bytes) json_res" where
  "read_answer_request root =
     json_bind (json_bind (json_at (bytes_of ''uid'') root) json_get_u64) (\<lambda>uid.
     json_bind (json_bind (json_at (bytes_of ''stream_name'') root) json_get_string) (\<lambda>stream_name.
     json_bind (json_bind (json_at (bytes_of ''type'') root) json_get_string) (\<lambda>ty.
     json_bind (json_bind (json_at (bytes_of ''answer'') root) json_get_string) (\<lambda>answer.
       Inr (uid, stream_name, ty, answer)))))"

text \<open>The fields every handler fills in: \<^verbatim>\<open>cmdno\<close>, \<^verbatim>\<open>uid\<close>, \<^verbatim>\<open>stream_name\<close>, \<^verbatim>\<open>log_id\<close>, \<^verbatim>\<open>worker\<close>, \<^verbatim>\<open>conn\<close>, \<^verbatim>\<open>fd\<close>.\<close>

definition request_msg :: "int \<Rightarrow> nat \<Rightarrow> int \<Rightarrow> u32 \<Rightarrow> u64 \<Rightarrow> bytes \<Rightarrow> signaling_worker \<Rightarrow> rtc_msg" where
  "request_msg cmdno a fd log_id uid stream_name w = RtcMsg_new\<lparr> rm_cmdno := cmdno, rm_uid := uid, rm_stream_name := stream_name,
     rm_log_id := log_id, rm_worker := Some (sw_address w), rm_conn := Some a, rm_fd := fd \<rparr>"

definition sw_process_push :: "int \<Rightarrow> nat \<Rightarrow> int \<Rightarrow> json \<Rightarrow> u32 \<Rightarrow> signaling_worker \<Rightarrow> (int \<times> signaling_worker) res" where
  "sw_process_push cmdno a fd root log_id w =
     catching Out_of_range (read_media_request root) (Inr (- 1, w)) (\<lambda>(uid, stream_name, audio, video).
       Inr (0, send_to_rtc_server ((request_msg cmdno a fd log_id uid stream_name w)\<lparr> rm_audio := audio, rm_video := video \<rparr>) w))"

definition sw_process_pull :: "int \<Rightarrow> nat \<Rightarrow> int \<Rightarrow> json \<Rightarrow> u32 \<Rightarrow> signaling_worker \<Rightarrow> (int \<times> signaling_worker) res" where
  "sw_process_pull cmdno a fd root log_id w =
     catching Out_of_range (read_media_request root) (Inr (- 1, w)) (\<lambda>(uid, stream_name, audio, video).
       Inr (0, send_to_rtc_server ((request_msg cmdno a fd log_id uid stream_name w)\<lparr> rm_audio := audio, rm_video := video \<rparr>) w))"

definition sw_process_stop_push :: "int \<Rightarrow> nat \<Rightarrow> int \<Rightarrow> json \<Rightarrow> u32 \<Rightarrow> signaling_worker \<Rightarrow> (int \<times> signaling_worker) res" where
  "sw_process_stop_push cmdno a fd root log_id w =
     catching Out_of_range (read_stop_request root) (Inr (- 1, w)) (\<lambda>(uid, stream_name).
       Inr (0, send_to_rtc_server (request_msg cmdno a fd log_id uid stream_name w) w))"

definition sw_process_stop_pull :: "int \<Rightarrow> nat \<Rightarrow> int \<Rightarrow> json \<Rightarrow> u32 \<Rightarrow> signaling_worker \<Rightarrow> (int \<times> signaling_worker) res" where
  "sw_process_stop_pull cmdno a fd root log_id w =
     catching Out_of_range (read_stop_request root) (Inr (- 1, w)) (\<lambda>(uid, stream_name).
       Inr (0, send_to_rtc_server (request_msg cmdno a fd log_id uid stream_name w) w))"

definition sw_process_answer :: "int \<Rightarrow> nat \<Rightarrow> int \<Rightarrow> json \<Rightarrow> u32 \<Rightarrow> signaling_worker \<Rightarrow> (int \<times> signaling_worker) res" where
  "sw_process_answer cmdno a fd root log_id w =
     catching Out_of_range (read_answer_request root) (Inr (- 1, w)) (\<lambda>(uid, stream_name, ty, answer).
       Inr (0, send_to_rtc_server ((request_msg cmdno a fd log_id uid stream_name w)\<lparr> rm_stream_type := ty, rm_sdp := answer \<rparr>) w))"

text \<open>\<^verbatim>\<open>json::parse(body.data())\<close> parses a C string: what follows the header up to the first zero byte; the
  zero after the buffer is the terminator that \<^verbatim>\<open>sds\<close> keeps.\<close>

definition c_string :: "bytes \<Rightarrow> bytes" where
  "c_string b = takeWhile (\<lambda>x. x \<noteq> 0) b"

definition sw_process_request :: "json_lib \<Rightarrow> nat \<Rightarrow> int \<Rightarrow> bytes \<Rightarrow> bytes \<Rightarrow> signaling_worker \<Rightarrow> (int \<times> signaling_worker) res" where
  "sw_process_request J a fd header body w =
     catching Parse_error
       (json_bind (json_parse J (c_string body)) (\<lambda>root.
        json_bind (json_index (bytes_of ''cmdno'') root) (\<lambda>(v, root').
        json_bind (json_get_int v) (\<lambda>cmdno. Inr (cmdno, root')))))
       (Inr (- 1, w))
       (\<lambda>(cmdno, root).
          if cmdno = CMDNO_PUSH then sw_process_push cmdno a fd root (xh_log_id header) w
          else if cmdno = CMDNO_PULL then sw_process_pull cmdno a fd root (xh_log_id header) w
          else if cmdno = CMDNO_STOPPUSH then sw_process_stop_push cmdno a fd root (xh_log_id header) w
          else if cmdno = CMDNO_STOPPULL then sw_process_stop_pull cmdno a fd root (xh_log_id header) w
          else if cmdno = CMDNO_ANSWER then sw_process_answer cmdno a fd root (xh_log_id header) w
          else Inr (- 1, w))"

subsection \<open>Framing\<close>

text \<open>One round of the loop: \<open>Inr (None, w)\<close> goes on, \<open>Inr (Some r, w)\<close> returns \<open>r\<close>.\<close>

definition query_round :: "json_lib \<Rightarrow> nat \<Rightarrow> tcp_connection \<Rightarrow> signaling_worker \<Rightarrow> (int option \<times> signaling_worker) res" where
  "query_round J a c w =
     (let buf = tcn_querybuf c in
      if length buf < XHEAD_SIZE then Inl Out_of_bounds
      else case tcn_current_state c of
        STATE_HEAD \<Rightarrow>
          if xh_magic_num buf \<noteq> XHEAD_MAGIC_NUM then Inr (Some (- 1), w)
          else Inr (None, sw_set_conn a (c\<lparr> tcn_current_state := STATE_BODY, tcn_bytes_processed := XHEAD_SIZE,
                 tcn_bytes_expected := unat (xh_body_len buf) \<rparr>) w)
      | STATE_BODY \<Rightarrow>
          res_bind (sw_process_request J a (tcn_fd c) (take XHEAD_SIZE buf) (drop XHEAD_SIZE buf) w) (\<lambda>(r, w1).
            if r \<noteq> 0 then Inr (Some (- 1), w1)
            else Inr (None, sw_set_conn a (c\<lparr> tcn_bytes_processed := 65536 \<rparr>) w1)))"

partial_function (option) process_query_loop :: "json_lib \<Rightarrow> nat \<Rightarrow> signaling_worker \<Rightarrow> (int \<times> signaling_worker) res option" where
  "process_query_loop J a w = (case sw_heap w a of
     None \<Rightarrow> Some (Inl Use_after_free)
   | Some c \<Rightarrow>
       if length (tcn_querybuf c) \<ge> tcn_bytes_expected c + tcn_bytes_processed c
       then (case query_round J a c w of
           Inl e \<Rightarrow> Some (Inl e)
         | Inr (r, w1) \<Rightarrow> (case r of Some ret \<Rightarrow> Some (Inr (ret, w1)) | None \<Rightarrow> process_query_loop J a w1))
       else Some (Inr (0, w)))"

definition sw_process_query_buffer :: "json_lib \<Rightarrow> nat \<Rightarrow> signaling_worker \<Rightarrow> (int \<times> signaling_worker) res" where
  "sw_process_query_buffer J a w = (case process_query_loop J a w of None \<Rightarrow> Inl Diverges | Some r \<Rightarrow> r)"

text \<open>
  \<open>avail\<close> is what the socket holds, or the error of the call; the read takes at most \<^verbatim>\<open>read_len\<close> bytes of
  it.  A \<^verbatim>\<open>read_len\<close> that the narrowing to \<^verbatim>\<open>int\<close> makes negative asks \<^verbatim>\<open>sdsMakeRoomFor\<close> for nearly
  \<open>2 ^ 64\<close> bytes, for which there is no buffer.
\<close>

definition sw_read_query :: "json_lib \<Rightarrow> u64 \<Rightarrow> int \<Rightarrow> bytes sys \<Rightarrow> signaling_worker \<Rightarrow> signaling_worker res" where
  "sw_read_query J now fd avail w =
     (if fd < 0 \<or> nat fd \<ge> length (sw_tcp_conns w) then Inr w
      else case sw_tcp_conns w ! nat fd of
        None \<Rightarrow> Inl Null_deref
      | Some a \<Rightarrow> res_bind (sw_deref a w) (\<lambda>c.
          let read_len = to_i32 (int (tcn_bytes_expected c)) in
          if read_len < 0 then Inl Out_of_bounds
          else let nread = map_option (take (nat read_len)) (sock_read_data avail);
                   w1 = sw_set_conn a (c\<lparr> tcn_last_interaction := now \<rparr>) w
               in case nread of
                    None \<Rightarrow> sw_close_conn a w1
                  | Some data \<Rightarrow>
                      if data = [] then sw_close_conn a w1
                      else res_bind (sw_process_query_buffer J a
                             (sw_set_conn a (c\<lparr> tcn_last_interaction := now, tcn_querybuf := tcn_querybuf c @ data \<rparr>) w1)) (\<lambda>(ret, w2).
                           if ret \<noteq> 0 then sw_close_conn a w2 else Inr w2)))"

subsection \<open>Replies\<close>

definition sw_add_reply :: "nat \<Rightarrow> slice \<Rightarrow> signaling_worker \<Rightarrow> signaling_worker res" where
  "sw_add_reply a reply w = res_bind (sw_deref a w) (\<lambda>c.
     Inr (sw_set_conn a (c\<lparr> tcn_reply_list := tcn_reply_list c @ [reply], tcn_watch_write := True \<rparr>) w))"

definition reply_json :: "rtc_msg \<Rightarrow> json" where
  "reply_json msg = J_object
     (if rm_err_no msg \<noteq> 0
      then [(bytes_of ''err_msg'', J_string (bytes_of ''process error'')), (bytes_of ''errno'', J_integer (rm_err_no msg)),
            (bytes_of ''offer'', J_string [])]
      else [(bytes_of ''err_msg'', J_string (bytes_of ''success'')), (bytes_of ''errno'', J_integer (rm_err_no msg)),
            (bytes_of ''offer'', J_string (rm_sdp msg))])"

text \<open>The reply reuses the header of the request with a new \<^verbatim>\<open>body_len\<close>; \<^verbatim>\<open>snprintf\<close> writes at most
  \<^verbatim>\<open>MAX_RES_BUF\<close> bytes with the final zero, but the slice has the length of the whole text.\<close>

definition reply_slice :: "bytes \<Rightarrow> bytes \<Rightarrow> slice" where
  "reply_slice querybuf json_data =
     \<lparr> sl_data = take 32 querybuf @ le32 (of_nat (length json_data)) @ take (MAX_RES_BUF - 1) json_data @ [0],
       sl_size = XHEAD_SIZE + unat (of_nat (length json_data) :: u32) \<rparr>"

text \<open>\<open>alloc_ok\<close>: \<^verbatim>\<open>zmalloc\<close> returned a buffer.\<close>

definition sw_response_server_offer :: "json_lib \<Rightarrow> bool \<Rightarrow> rtc_msg \<Rightarrow> signaling_worker \<Rightarrow> signaling_worker res" where
  "sw_response_server_offer J alloc_ok msg w = (case rm_conn msg of
     None \<Rightarrow> Inr w
   | Some a \<Rightarrow>
       if rm_fd msg < 0 \<or> nat (rm_fd msg) \<ge> length (sw_tcp_conns w) then Inr w
       else if sw_tcp_conns w ! nat (rm_fd msg) \<noteq> Some a then Inr w
       else res_bind (sw_deref a w) (\<lambda>c.
         if \<not> alloc_ok then Inr w
         else if length (tcn_querybuf c) < XHEAD_SIZE then Inl Out_of_bounds
         else case json_dump J (reply_json msg) of
           Inl _ \<Rightarrow> Inl Uncaught_exception
         | Inr json_data \<Rightarrow> sw_add_reply a (reply_slice (tcn_querybuf c) json_data) w))"

definition sw_process_rtc_msg :: "json_lib \<Rightarrow> bool \<Rightarrow> signaling_worker \<Rightarrow> signaling_worker res" where
  "sw_process_rtc_msg J alloc_ok w = (case sw_pop_msg w of
     (None, w1) \<Rightarrow> Inr w1
   | (Some msg, w1) \<Rightarrow>
       if rm_cmdno msg \<in> {CMDNO_PUSH, CMDNO_PULL, CMDNO_STOPPUSH, CMDNO_STOPPULL, CMDNO_ANSWER}
       then sw_response_server_offer J alloc_ok msg w1 else Inr w1)"

text \<open>The loop of \<^verbatim>\<open>_write_query\<close> asks the socket once per round; \<open>Inl Diverges\<close>: it is still in the loop
  after all the given results.  Every write starts at the beginning of the reply.\<close>

fun write_loop :: "nat sys list \<Rightarrow> nat \<Rightarrow> signaling_worker \<Rightarrow> signaling_worker res" where
  "write_loop rs a w = res_bind (sw_deref a w) (\<lambda>c. case tcn_reply_list c of
     [] \<Rightarrow> Inr (sw_set_conn a (c\<lparr> tcn_watch_write := False \<rparr>) w)
   | reply # replies \<Rightarrow>
       if length (sl_data reply) < sl_size reply then Inl Out_of_bounds
       else (case rs of
         [] \<Rightarrow> Inl Diverges
       | r # rs' \<Rightarrow>
           let nwritten = sock_write_data r;
               w1 = w\<lparr> sw_written := sw_written w @ [(tcn_fd c, take (nat nwritten) (take (sl_size reply) (sl_data reply)))] \<rparr>
           in if nwritten = - 1 then sw_close_conn a w
              else if nwritten = 0 then write_loop rs' a w
              else if nat nwritten + tcn_cur_resp_pos c \<ge> sl_size reply
              then write_loop rs' a (sw_set_conn a (c\<lparr> tcn_reply_list := replies, tcn_cur_resp_pos := 0 \<rparr>) w1)
              else write_loop rs' a (sw_set_conn a (c\<lparr> tcn_cur_resp_pos := tcn_cur_resp_pos c + nat nwritten \<rparr>) w1)))"

declare write_loop.simps [simp del]

definition sw_write_query :: "int \<Rightarrow> nat sys list \<Rightarrow> signaling_worker \<Rightarrow> signaling_worker res" where
  "sw_write_query fd rs w =
     (if fd \<le> 0 \<or> nat fd \<ge> length (sw_tcp_conns w) then Inr w
      else case sw_tcp_conns w ! nat fd of None \<Rightarrow> Inr w | Some a \<Rightarrow> write_loop rs a w)"

definition conn_io_cb :: "json_lib \<Rightarrow> u64 \<Rightarrow> int \<Rightarrow> bytes sys option \<Rightarrow> nat sys list option \<Rightarrow> signaling_worker \<Rightarrow> signaling_worker res" where
  "conn_io_cb J now fd rd wr w =
     res_bind (case rd of None \<Rightarrow> Inr w | Some avail \<Rightarrow> sw_read_query J now fd avail w) (\<lambda>w1.
       case wr of None \<Rightarrow> Inr w1 | Some rs \<Rightarrow> sw_write_query fd rs w1)"

subsection \<open>Notifications\<close>

definition sw_stop_loop :: "signaling_worker \<Rightarrow> signaling_worker" where
  "sw_stop_loop w = (if \<not> sw_thread w then w else w\<lparr> sw_pipe := None, sw_loop_running := False \<rparr>)"

record sw_env =
  se_json :: json_lib
  se_alloc_ok :: bool
  se_new_address :: nat
  se_peer :: "int \<times> bytes \<times> u16"

definition sw_process_notify :: "sw_env \<Rightarrow> int \<Rightarrow> signaling_worker \<Rightarrow> signaling_worker res" where
  "sw_process_notify V msg w =
     (if msg = SW_QUIT then Inr (sw_stop_loop w)
      else if msg = SW_NEW_CONN then
        res_bind (consume (sw_q_connfd w)) (\<lambda>(r, q).
          let fd = (case r of None \<Rightarrow> 0 | Some fd \<Rightarrow> fd)
          in Inr (sw_new_conn (se_new_address V) (se_peer V) fd (w\<lparr> sw_q_connfd := q \<rparr>)))
      else if msg = SW_RTC_MSG then sw_process_rtc_msg (se_json V) (se_alloc_ok V) w
      else Inr w)"

text \<open>The pipe is readable: the oldest notification is read and processed.\<close>

definition signaling_worker_recv_nofify :: "sw_env \<Rightarrow> signaling_worker \<Rightarrow> signaling_worker res" where
  "signaling_worker_recv_nofify V w = (case sw_pipe w of
     Some (n # ns) \<Rightarrow> sw_process_notify V n (w\<lparr> sw_pipe := Some ns \<rparr>)
   | _ \<Rightarrow> Inr w)"

end
