(* ===== verification/Rtc_Server.thy ===== *)
theory Rtc_Server
  imports Rtc_Stream Signaling_Worker
begin

text \<open>
  \<^verbatim>\<open>RtcServer\<close> and \<^verbatim>\<open>RtcWorker\<close> (\<^verbatim>\<open>src/server/rtc_server.*\<close>, \<^verbatim>\<open>rtc_worker.*\<close>): the server thread gives each message to the
  worker its stream name hashes to, and the worker runs the command on its stream manager and sends the
  message back to the signaling worker it came from.

  The message passed between the threads is a value, since one thread has it at a time.  A pipe is the
  list of notifications not read yet, \<open>None\<close> when it is closed; the messages a worker sends back are a log.
\<close>

subsection \<open>State\<close>

record 'c rtc_worker =
  rw_worker_id :: nat
  rw_pipe :: "int list option"
  rw_thread :: bool
  rw_loop_running :: bool
  rw_q_msg :: "rtc_msg lf_queue"
  rw_mgr :: "'c stream_manager"
  rw_sent :: "(nat \<times> rtc_msg) list"

record 'c rtc_server =
  rv_worker_num :: int
  rv_pipe :: "int list option"
  rv_thread :: bool
  rv_loop_running :: bool
  rv_q_msg :: "rtc_msg list"
  rv_workers :: "'c rtc_worker list"
  rv_certificate :: "nat option"

definition RTC_QUIT :: int where "RTC_QUIT = 0"
definition RTC_MSG :: int where "RTC_MSG = 1"

subsection \<open>The worker\<close>

definition RtcWorker_new :: "nat \<Rightarrow> srtp_global \<Rightarrow> 'c rtc_worker" where
  "RtcWorker_new i g = \<lparr> rw_worker_id = i, rw_pipe = None, rw_thread = False, rw_loop_running = False,
     rw_q_msg = LockFreeQueue_new RtcMsg_new, rw_mgr = RtcStreamManager_new g, rw_sent = [] \<rparr>"

definition rw_init :: "bool \<Rightarrow> 'c rtc_worker \<Rightarrow> int \<times> 'c rtc_worker" where
  "rw_init pipe_ok w = (if \<not> pipe_ok then (- 1, w) else (0, w\<lparr> rw_pipe := Some [] \<rparr>))"

definition rw_start :: "'c rtc_worker \<Rightarrow> bool \<times> 'c rtc_worker" where
  "rw_start w = (if rw_thread w then (True, w) else (True, w\<lparr> rw_thread := True, rw_loop_running := True \<rparr>))"

definition rw_notify :: "int \<Rightarrow> 'c rtc_worker \<Rightarrow> int \<times> 'c rtc_worker" where
  "rw_notify msg w = (case rw_pipe w of None \<Rightarrow> (- 1, w) | Some ns \<Rightarrow> (0, w\<lparr> rw_pipe := Some (ns @ [msg]) \<rparr>))"

definition rw_stop :: "'c rtc_worker \<Rightarrow> 'c rtc_worker" where
  "rw_stop w = snd (rw_notify RTC_QUIT w)"

definition rw_push_msg :: "rtc_msg \<Rightarrow> 'c rtc_worker \<Rightarrow> 'c rtc_worker res" where
  "rw_push_msg msg w = res_bind (produce msg (rw_q_msg w)) (\<lambda>q. Inr (w\<lparr> rw_q_msg := q \<rparr>))"

definition rw_pop_msg :: "'c rtc_worker \<Rightarrow> (rtc_msg option \<times> 'c rtc_worker) res" where
  "rw_pop_msg w = res_bind (consume (rw_q_msg w)) (\<lambda>(r, q). Inr (r, w\<lparr> rw_q_msg := q \<rparr>))"

definition rw_send_rtc_msg :: "rtc_msg \<Rightarrow> 'c rtc_worker \<Rightarrow> (int \<times> 'c rtc_worker) res" where
  "rw_send_rtc_msg msg w = res_bind (rw_push_msg msg w) (\<lambda>w1. Inr (rw_notify RTC_MSG w1))"

definition rw_stop_loop :: "'c rtc_worker \<Rightarrow> 'c rtc_worker" where
  "rw_stop_loop w = (if \<not> rw_thread w then w else w\<lparr> rw_pipe := None, rw_loop_running := False \<rparr>)"

text \<open>The message goes back to the signaling worker, if it names one.\<close>

definition rw_answer_signaling :: "rtc_msg \<Rightarrow> 'c rtc_worker \<Rightarrow> 'c rtc_worker" where
  "rw_answer_signaling msg w = (case rm_worker msg of None \<Rightarrow> w | Some a \<Rightarrow> w\<lparr> rw_sent := rw_sent w @ [(a, msg)] \<rparr>)"

definition set_err :: "int \<Rightarrow> rtc_msg \<Rightarrow> rtc_msg" where
  "set_err ret msg = (if ret \<noteq> 0 then msg\<lparr> rm_err_no := - 1 \<rparr> else msg)"

text \<open>The environment of a command: the libraries, the allocator and the random credentials.\<close>

record 'c rtc_env =
  re_ice :: ice_env
  re_dtls :: "'c dtls_env"
  re_sdp :: sdp_lib
  re_offer :: offer_env

definition rw_process_push :: "'c rtc_env \<Rightarrow> rtc_msg \<Rightarrow> 'c rtc_worker \<Rightarrow> 'c rtc_worker res" where
  "rw_process_push V msg w = res_bind (create_push_stream (re_ice V) (re_dtls V) (re_sdp V) (re_offer V) (rm_uid msg) (rm_stream_name msg)
       (rm_audio msg \<noteq> 0) (rm_video msg \<noteq> 0) (rm_log_id msg) (rm_certificate msg) (rw_mgr w)) (\<lambda>(ret, offer, mgr).
     Inr (rw_answer_signaling ((set_err ret msg)\<lparr> rm_sdp := offer \<rparr>) (w\<lparr> rw_mgr := mgr \<rparr>)))"

definition rw_process_pull :: "'c rtc_env \<Rightarrow> rtc_msg \<Rightarrow> 'c rtc_worker \<Rightarrow> 'c rtc_worker res" where
  "rw_process_pull V msg w = res_bind (create_pull_stream (re_ice V) (re_dtls V) (re_sdp V) (re_offer V) (rm_uid msg) (rm_stream_name msg)
       (rm_audio msg \<noteq> 0) (rm_video msg \<noteq> 0) (rm_log_id msg) (rm_certificate msg) (rw_mgr w)) (\<lambda>(ret, offer, mgr).
     Inr (rw_answer_signaling ((set_err ret msg)\<lparr> rm_sdp := offer \<rparr>) (w\<lparr> rw_mgr := mgr \<rparr>)))"

definition rw_process_stop_push :: "rtc_msg \<Rightarrow> 'c rtc_worker \<Rightarrow> 'c rtc_worker res" where
  "rw_process_stop_push msg w = res_bind (stop_push (rm_uid msg) (rm_stream_name msg) (rw_mgr w)) (\<lambda>(ret, mgr).
     Inr (rw_answer_signaling (set_err ret msg) (w\<lparr> rw_mgr := mgr \<rparr>)))"

definition rw_process_stop_pull :: "rtc_msg \<Rightarrow> 'c rtc_worker \<Rightarrow> 'c rtc_worker res" where
  "rw_process_stop_pull msg w = res_bind (stop_pull (rm_uid msg) (rm_stream_name msg) (rw_mgr w)) (\<lambda>(ret, mgr).
     Inr (rw_answer_signaling (set_err ret msg) (w\<lparr> rw_mgr := mgr \<rparr>)))"

definition rw_process_answer :: "'c rtc_env \<Rightarrow> rtc_msg \<Rightarrow> 'c rtc_worker \<Rightarrow> 'c rtc_worker res" where
  "rw_process_answer V msg w = res_bind (set_answer (re_ice V) (re_dtls V) (re_sdp V) (rm_uid msg) (rm_stream_name msg) (rm_sdp msg)
       (rm_stream_type msg) (rw_mgr w)) (\<lambda>(ret, mgr).
     Inr (rw_answer_signaling (set_err ret msg) (w\<lparr> rw_mgr := mgr \<rparr>)))"

definition rw_process_rtc_msg :: "'c rtc_env \<Rightarrow> 'c rtc_worker \<Rightarrow> 'c rtc_worker res" where
  "rw_process_rtc_msg V w = res_bind (rw_pop_msg w) (\<lambda>(r, w1). case r of
     None \<Rightarrow> Inr w1
   | Some msg \<Rightarrow>
       if rm_cmdno msg = CMDNO_PUSH then rw_process_push V msg w1
       else if rm_cmdno msg = CMDNO_PULL then rw_process_pull V msg w1
       else if rm_cmdno msg = CMDNO_STOPPUSH then rw_process_stop_push msg w1
       else if rm_cmdno msg = CMDNO_STOPPULL then rw_process_stop_pull msg w1
       else if rm_cmdno msg = CMDNO_ANSWER then rw_process_answer V msg w1
       else Inr w1)"

definition rw_process_notify :: "'c rtc_env \<Rightarrow> int \<Rightarrow> 'c rtc_worker \<Rightarrow> 'c rtc_worker res" where
  "rw_process_notify V msg w = (if msg = RTC_QUIT then Inr (rw_stop_loop w)
     else if msg = RTC_MSG then rw_process_rtc_msg V w else Inr w)"

text \<open>When the read fails the variable \<^verbatim>\<open>msg\<close> is used uninitialised: \<open>junk\<close> is the value it happens to have.\<close>

definition rtc_worker_recv_notify :: "'c rtc_env \<Rightarrow> int option \<Rightarrow> int \<Rightarrow> 'c rtc_worker \<Rightarrow> 'c rtc_worker res" where
  "rtc_worker_recv_notify V rd junk w = rw_process_notify V (case rd of None \<Rightarrow> junk | Some msg \<Rightarrow> msg) w"

subsection \<open>The server\<close>

definition RtcServer_new :: "'c rtc_server" where
  "RtcServer_new = \<lparr> rv_worker_num = 0, rv_pipe = None, rv_thread = False, rv_loop_running = False, rv_q_msg = [], rv_workers = [], rv_certificate = None \<rparr>"

text \<open>\<open>exp\<close>: the certificate has expired; \<open>gen\<close>: the certificate the generator returns.\<close>

definition generate_and_check_certificate :: "bool \<Rightarrow> nat option \<Rightarrow> 'c rtc_server \<Rightarrow> int \<times> 'c rtc_server" where
  "generate_and_check_certificate exp gen v =
     (let v1 = (if rv_certificate v = None \<or> exp then v\<lparr> rv_certificate := gen \<rparr> else v)
      in if rv_certificate v1 = None then (- 1, v1) else (0, v1))"

definition rv_create_worker :: "bool \<Rightarrow> srtp_global \<Rightarrow> nat \<Rightarrow> 'c rtc_server \<Rightarrow> 'c rtc_server" where
  "rv_create_worker pipe_ok g i v =
     (let (ret, w1) = rw_init pipe_ok (RtcWorker_new i g)
      in if ret \<noteq> 0 then v
         else let (started, w2) = rw_start w1 in if \<not> started then v else v\<lparr> rv_workers := rv_workers v @ [w2] \<rparr>)"

text \<open>\<open>cfg\<close>: the number of workers, if the file could be read; \<open>pipes\<close>: which pipes can be created.\<close>

definition rv_init :: "int option \<Rightarrow> bool \<Rightarrow> (nat \<Rightarrow> bool) \<Rightarrow> srtp_global \<Rightarrow> 'c rtc_server \<Rightarrow> int \<times> 'c rtc_server" where
  "rv_init cfg pipe_ok pipes g v = (case cfg of
     None \<Rightarrow> (- 1, v)
   | Some n \<Rightarrow> let v1 = v\<lparr> rv_worker_num := n \<rparr> in
       if \<not> pipe_ok then (- 1, v1)
       else (0, fold (\<lambda>i. rv_create_worker (pipes i) g i) [0..<nat n] (v1\<lparr> rv_pipe := Some [] \<rparr>)))"

definition rv_start :: "'c rtc_server \<Rightarrow> bool \<times> 'c rtc_server" where
  "rv_start v = (if rv_thread v then (True, v) else (True, v\<lparr> rv_thread := True, rv_loop_running := True \<rparr>))"

definition rv_notify :: "int \<Rightarrow> 'c rtc_server \<Rightarrow> int \<times> 'c rtc_server" where
  "rv_notify msg v = (case rv_pipe v of None \<Rightarrow> (- 1, v) | Some ns \<Rightarrow> (0, v\<lparr> rv_pipe := Some (ns @ [msg]) \<rparr>))"

definition rv_stop :: "'c rtc_server \<Rightarrow> 'c rtc_server" where
  "rv_stop v = snd (rv_notify RTC_QUIT v)"

definition rv_push_msg :: "rtc_msg \<Rightarrow> 'c rtc_server \<Rightarrow> 'c rtc_server" where
  "rv_push_msg msg v = v\<lparr> rv_q_msg := rv_q_msg v @ [msg] \<rparr>"

definition rv_pop_msg :: "'c rtc_server \<Rightarrow> rtc_msg option \<times> 'c rtc_server" where
  "rv_pop_msg v = (case rv_q_msg v of [] \<Rightarrow> (None, v) | m # ms \<Rightarrow> (Some m, v\<lparr> rv_q_msg := ms \<rparr>))"

definition rv_send_rtc_msg :: "rtc_msg \<Rightarrow> 'c rtc_server \<Rightarrow> int \<times> 'c rtc_server" where
  "rv_send_rtc_msg msg v = rv_notify RTC_MSG (rv_push_msg msg v)"

definition get_worker :: "rtc_base \<Rightarrow> bytes \<Rightarrow> 'c rtc_server \<Rightarrow> nat option" where
  "get_worker R name v =
     (if length (rv_workers v) = 0 \<or> int (length (rv_workers v)) \<noteq> rv_worker_num v then None
      else Some (unat (ComputeCrc32 R name) mod nat (rv_worker_num v)))"

text \<open>The message is used without a test for null after the certificate has been checked.\<close>

definition rv_process_rtc_msg :: "rtc_base \<Rightarrow> bool \<Rightarrow> nat option \<Rightarrow> 'c rtc_server \<Rightarrow> 'c rtc_server res" where
  "rv_process_rtc_msg R exp gen v =
     (let (om, v1) = rv_pop_msg v; (ret, v2) = generate_and_check_certificate exp gen v1
      in if ret \<noteq> 0 then Inr v2
         else case om of
           None \<Rightarrow> Inl Null_deref
         | Some m \<Rightarrow>
             let msg = m\<lparr> rm_certificate := rv_certificate v2 \<rparr> in
             case get_worker R (rm_stream_name msg) v2 of
               None \<Rightarrow> Inr v2
             | Some i \<Rightarrow> res_bind (rw_send_rtc_msg msg (rv_workers v2 ! i)) (\<lambda>(_, w).
                 Inr (v2\<lparr> rv_workers := (rv_workers v2)[i := w] \<rparr>)))"

text \<open>\<^verbatim>\<open>_stop\<close> closes the pipe and stops the workers; joining a worker only waits for it.\<close>

definition rv_stop_loop :: "'c rtc_server \<Rightarrow> 'c rtc_server" where
  "rv_stop_loop v = (if \<not> rv_thread v then v
     else v\<lparr> rv_pipe := None, rv_loop_running := False, rv_workers := map rw_stop (rv_workers v) \<rparr>)"

definition rv_process_notify :: "rtc_base \<Rightarrow> bool \<Rightarrow> nat option \<Rightarrow> int \<Rightarrow> 'c rtc_server \<Rightarrow> 'c rtc_server res" where
  "rv_process_notify R exp gen msg v = (if msg = RTC_QUIT then Inr (rv_stop_loop v)
     else if msg = RTC_MSG then rv_process_rtc_msg R exp gen v else Inr v)"

definition rtc_server_recv_notify :: "rtc_base \<Rightarrow> bool \<Rightarrow> nat option \<Rightarrow> int option \<Rightarrow> int \<Rightarrow> 'c rtc_server \<Rightarrow> 'c rtc_server res" where
  "rtc_server_recv_notify R exp gen rd junk v = rv_process_notify R exp gen (case rd of None \<Rightarrow> junk | Some msg \<Rightarrow> msg) v"

text \<open>Deleting a \<^verbatim>\<open>std::thread\<close> that was not joined terminates the program.\<close>

definition RtcWorker_destruct :: "bool \<Rightarrow> 'c rtc_worker \<Rightarrow> 'c rtc_worker res" where
  "RtcWorker_destruct thread_joined w =
     (if rw_thread w \<and> \<not> thread_joined then Inl Uncaught_exception else Inr (w\<lparr> rw_thread := False, rw_loop_running := False \<rparr>))"

definition RtcServer_destruct :: "bool \<Rightarrow> (nat \<Rightarrow> bool) \<Rightarrow> 'c rtc_server \<Rightarrow> 'c rtc_server res" where
  "RtcServer_destruct thread_joined worker_joined v =
     (if rv_thread v \<and> \<not> thread_joined then Inl Uncaught_exception
      else res_bind (res_fold (\<lambda>w _. res_bind (RtcWorker_destruct (worker_joined (rw_worker_id w)) w) (\<lambda>_. Inr ())) (rv_workers v) ()) (\<lambda>_.
        Inr (v\<lparr> rv_thread := False, rv_loop_running := False, rv_workers := [] \<rparr>)))"

subsection \<open>Commands reach the worker of their stream in order\<close>

text \<open>The messages the server has for worker \<open>i\<close>, as it hands them on.\<close>

definition routed :: "rtc_base \<Rightarrow> 'c rtc_server \<Rightarrow> nat \<Rightarrow> rtc_msg list \<Rightarrow> rtc_msg list" where
  "routed R v i ms = map (\<lambda>m. m\<lparr> rm_certificate := rv_certificate v \<rparr>)
     (filter (\<lambda>m. unat (ComputeCrc32 R (rm_stream_name m)) mod nat (rv_worker_num v) = i) ms)"

definition all_up :: "'c rtc_server \<Rightarrow> bool" where
  "all_up v \<longleftrightarrow> rv_workers v \<noteq> [] \<and> int (length (rv_workers v)) = rv_worker_num v \<and> rv_certificate v \<noteq> None"

definition queues :: "'c rtc_server \<Rightarrow> (nat \<Rightarrow> rtc_msg list) \<Rightarrow> bool" where
  "queues v qs \<longleftrightarrow> (\<forall>i < length (rv_workers v). lf_rep (rw_q_msg (rv_workers v ! i)) (qs i))"

fun process_all :: "rtc_base \<Rightarrow> nat \<Rightarrow> 'c rtc_server \<Rightarrow> 'c rtc_server res" where
  "process_all R 0 v = Inr v"
| "process_all R (Suc n) v = res_bind (rv_process_notify R False None RTC_MSG v) (process_all R n)"

lemma send_to_worker:
  assumes "lf_rep (rw_q_msg w) xs"
  shows "\<exists>ret w'. rw_send_rtc_msg msg w = Inr (ret, w') \<and> lf_rep (rw_q_msg w') (xs @ [msg])"
proof -
  obtain q where "produce msg (rw_q_msg w) = Inr q" "lf_rep q (xs @ [msg])" using lfq.rep_push [OF assms] by blast
  then show ?thesis by (simp add: rw_send_rtc_msg_def rw_push_msg_def rw_notify_def split: option.split)
qed

end
