(* ===== verification/Signaling_Props.thy ===== *)
theory Signaling_Props
  imports Signaling_Worker
begin

text \<open>
  The signaling worker: what a request makes it do, that framing does not depend on how TCP cuts the
  stream, and what happens to bytes after the request.
\<close>

subsection \<open>The effect of a request\<close>

text \<open>A request changes nothing of the worker but the messages for the RTC server.\<close>

definition request_effect :: "json_lib \<Rightarrow> nat \<Rightarrow> int \<Rightarrow> bytes \<Rightarrow> nat \<Rightarrow> (int \<times> rtc_msg list) res" where
  "request_effect J a fd msg this = map_sum id (\<lambda>(r, w). (r, sw_to_rtc w))
     (sw_process_request J a fd (take XHEAD_SIZE msg) (drop XHEAD_SIZE msg) (SignalingWorker_new this 0))"

lemmas request_defs = sw_process_request_def sw_process_push_def sw_process_pull_def sw_process_stop_push_def
  sw_process_stop_pull_def sw_process_answer_def send_to_rtc_server_def request_msg_def

lemma process_request_effect:
  "sw_process_request J a fd (take XHEAD_SIZE msg) (drop XHEAD_SIZE msg) w =
     map_sum id (\<lambda>(r, ms). (r, w\<lparr> sw_to_rtc := sw_to_rtc w @ ms \<rparr>)) (request_effect J a fd msg (sw_address w))"
  by (auto simp: request_effect_def request_defs catching_def SignalingWorker_new_def split: sum.splits prod.splits)

subsection \<open>Framing\<close>

definition conn_of :: "int \<Rightarrow> signaling_worker \<Rightarrow> tcp_connection option" where
  "conn_of fd w = (if fd < 0 \<or> nat fd \<ge> length (sw_tcp_conns w) then None
     else Option.bind (sw_tcp_conns w ! nat fd) (sw_heap w))"

text \<open>A client whose bytes \<open>s\<close> wait at the socket: at each read event, at time \<open>now\<close>, the kernel has \<open>Suc n\<close>
  of them ready (or all that is left) and the worker takes at most \<^verbatim>\<open>bytes_expected\<close>.\<close>

fun client_sends :: "json_lib \<Rightarrow> int \<Rightarrow> (u64 \<times> nat) list \<Rightarrow> bytes \<Rightarrow> signaling_worker \<Rightarrow> (bytes \<times> signaling_worker) res" where
  "client_sends J fd [] s w = Inr (s, w)"
| "client_sends J fd ((now, n) # evs) s w = (case conn_of fd w of
     None \<Rightarrow> Inr (s, w)
   | Some c \<Rightarrow> if s = [] then Inr (s, w)
       else res_bind (sw_read_query J now fd (Sys_ok (take (Suc n) s)) w)
              (client_sends J fd evs (drop (min (Suc n) (tcn_bytes_expected c)) s)))"

text \<open>The connection after the bytes \<open>p\<close> of a message with a body of \<open>len\<close> bytes.\<close>

definition framed :: "nat \<Rightarrow> bytes \<Rightarrow> tcp_connection \<Rightarrow> bool" where
  "framed len p c \<longleftrightarrow> tcn_querybuf c = p \<and>
     (if length p < XHEAD_SIZE
      then tcn_current_state c = STATE_HEAD \<and> tcn_bytes_expected c = XHEAD_SIZE \<and> tcn_bytes_processed c = 0
      else tcn_current_state c = STATE_BODY \<and> tcn_bytes_expected c = len \<and> tcn_bytes_processed c = XHEAD_SIZE)"

definition message_ok :: "bytes \<Rightarrow> bool" where
  "message_ok msg \<longleftrightarrow> xh_magic_num msg = XHEAD_MAGIC_NUM \<and> XHEAD_SIZE < length msg \<and>
     length msg = XHEAD_SIZE + unat (xh_body_len msg) \<and> length msg < 2 ^ 31"

definition waiting :: "int \<Rightarrow> nat \<Rightarrow> bytes \<Rightarrow> bytes \<Rightarrow> signaling_worker \<Rightarrow> bool" where
  "waiting fd a msg p w \<longleftrightarrow> 0 < fd \<and> nat fd < length (sw_tcp_conns w) \<and> sw_tcp_conns w ! nat fd = Some a \<and>
     (\<exists>c. sw_heap w a = Some c \<and> tcn_fd c = fd \<and> framed (length msg - XHEAD_SIZE) p c)"

text \<open>The connection has served the request \<open>msg\<close> and has received \<open>k\<close> zero bytes more.\<close>

definition served :: "int \<Rightarrow> nat \<Rightarrow> bytes \<Rightarrow> nat \<Rightarrow> signaling_worker \<Rightarrow> bool" where
  "served fd a msg k w \<longleftrightarrow> 0 < fd \<and> nat fd < length (sw_tcp_conns w) \<and> sw_tcp_conns w ! nat fd = Some a \<and>
     (\<exists>c. sw_heap w a = Some c \<and> tcn_fd c = fd \<and> tcn_querybuf c = msg @ replicate k 0 \<and> tcn_current_state c = STATE_BODY \<and>
       tcn_bytes_expected c = length msg - XHEAD_SIZE \<and> tcn_bytes_processed c = 65536)"

lemma set_conn_simps [simp]:
  "sw_heap (sw_set_conn a c w) b = (if b = a then Some c else sw_heap w b)" "sw_tcp_conns (sw_set_conn a c w) = sw_tcp_conns w"
  "sw_to_rtc (sw_set_conn a c w) = sw_to_rtc w" "sw_closed (sw_set_conn a c w) = sw_closed w"
  "sw_address (sw_set_conn a c w) = sw_address w" "sw_set_conn a c' (sw_set_conn a c w) = sw_set_conn a c' w"
  by (simp_all add: sw_set_conn_def)

lemma sw_deref_live [simp]: "sw_heap w a = Some c \<Longrightarrow> sw_deref a w = Inr c"
  by (simp add: sw_deref_def)

lemma header_of_prefix:
  assumes "p @ rest = msg" "XHEAD_SIZE \<le> length p"
  shows "xh_magic_num p = xh_magic_num msg" "xh_body_len p = xh_body_len msg"
  using assms xh_append [of p rest] by (auto simp: XHEAD_SIZE_def)

text \<open>The loop stops at once unless there is enough in the buffer.\<close>

lemma loop_idle:
  "sw_heap w a = Some c \<Longrightarrow> length (tcn_querybuf c) < tcn_bytes_expected c + tcn_bytes_processed c \<Longrightarrow>
   process_query_loop J a w = Some (Inr (0, w))"
  by (simp add: process_query_loop.simps)

lemma loop_head:
  assumes "sw_heap w a = Some c" "tcn_current_state c = STATE_HEAD" "tcn_bytes_expected c = XHEAD_SIZE" "tcn_bytes_processed c = 0"
    "XHEAD_SIZE \<le> length (tcn_querybuf c)" "xh_magic_num (tcn_querybuf c) = XHEAD_MAGIC_NUM"
  shows "process_query_loop J a w = process_query_loop J a (sw_set_conn a (c\<lparr> tcn_current_state := STATE_BODY,
    tcn_bytes_processed := XHEAD_SIZE, tcn_bytes_expected := unat (xh_body_len (tcn_querybuf c)) \<rparr>) w)"
  using assms by (simp add: process_query_loop.simps [of J a w] query_round_def)

text \<open>What the loop does with a complete message: the request, once.\<close>

definition after_request :: "json_lib \<Rightarrow> nat \<Rightarrow> int \<Rightarrow> bytes \<Rightarrow> tcp_connection \<Rightarrow> signaling_worker \<Rightarrow> (int \<times> signaling_worker) res" where
  "after_request J a fd msg c w = map_sum id (\<lambda>(r, ms). if r \<noteq> 0 then (- 1, w\<lparr> sw_to_rtc := sw_to_rtc w @ ms \<rparr>)
     else (0, sw_set_conn a (c\<lparr> tcn_bytes_processed := 65536 \<rparr>) (w\<lparr> sw_to_rtc := sw_to_rtc w @ ms \<rparr>)))
     (request_effect J a fd msg (sw_address w))"

lemma loop_body:
  assumes "sw_heap w a = Some c" "tcn_current_state c = STATE_BODY" "tcn_bytes_processed c = XHEAD_SIZE"
    "length (tcn_querybuf c) = XHEAD_SIZE + tcn_bytes_expected c"
  shows "process_query_loop J a w = Some (after_request J a (tcn_fd c) (tcn_querybuf c) c w)"
proof -
  let ?eff = "request_effect J a (tcn_fd c) (tcn_querybuf c) (sw_address w)"
  have step: "query_round J a c w = res_bind (map_sum id (\<lambda>(r, ms). (r, w\<lparr> sw_to_rtc := sw_to_rtc w @ ms \<rparr>)) ?eff)
      (\<lambda>(r, w1). if r \<noteq> 0 then Inr (Some (- 1), w1) else Inr (None, sw_set_conn a (c\<lparr> tcn_bytes_processed := 65536 \<rparr>) w1))"
    using assms by (simp add: query_round_def process_request_effect)
  show ?thesis
  proof (cases ?eff)
    case (Inl e)
    then show ?thesis using assms step by (simp add: process_query_loop.simps [of J a w] after_request_def)
  next
    case (Inr rm)
    obtain r ms where rm: "rm = (r, ms)" by force
    let ?w = "sw_set_conn a (c\<lparr> tcn_bytes_processed := 65536 \<rparr>) (w\<lparr> sw_to_rtc := sw_to_rtc w @ ms \<rparr>)"
    have "process_query_loop J a ?w = Some (Inr (0, ?w))"
      using assms by (intro loop_idle [where c = "c\<lparr> tcn_bytes_processed := 65536 \<rparr>"]) (simp_all add: XHEAD_SIZE_def)
    then show ?thesis using assms step Inr rm
      by (simp add: process_query_loop.simps [of J a w] after_request_def)
  qed
qed


lemma read_query_data:
  assumes "waiting fd a msg p w" "sw_heap w a = Some c" "data \<noteq> []" "length data \<le> tcn_bytes_expected c" "tcn_bytes_expected c < 2 ^ 31"
  shows "sw_read_query J now fd (Sys_ok data) w =
    res_bind (sw_process_query_buffer J a (sw_set_conn a (c\<lparr> tcn_last_interaction := now, tcn_querybuf := p @ data \<rparr>) w))
      (\<lambda>(ret, w2). if ret \<noteq> 0 then sw_close_conn a w2 else Inr w2)"
proof -
  have "to_i32 (int (tcn_bytes_expected c)) = int (tcn_bytes_expected c)"
    using assms(5) by (simp add: to_i32_def signed_take_bit_int_eq_self)
  then show ?thesis using assms by (auto simp: sw_read_query_def waiting_def framed_def sock_read_data_def)
qed

definition expected_after :: "bytes \<Rightarrow> bytes \<Rightarrow> nat" where
  "expected_after msg p = (if length p < XHEAD_SIZE then XHEAD_SIZE else length msg - XHEAD_SIZE)"

lemma framed_expected: "framed (length msg - XHEAD_SIZE) p c \<Longrightarrow> tcn_bytes_expected c = expected_after msg p"
  by (auto simp: framed_def expected_after_def split: if_splits)

text \<open>One read of a message that arrives in pieces.\<close>

lemma read_step:
  assumes "waiting fd a msg p w" "message_ok msg" "msg = p @ data @ rest" "data \<noteq> []" "length data \<le> expected_after msg p"
  shows "rest \<noteq> [] \<Longrightarrow> \<exists>w'. sw_read_query J now fd (Sys_ok data) w = Inr w' \<and> waiting fd a msg (p @ data) w' \<and>
      sw_to_rtc w' = sw_to_rtc w \<and> sw_closed w' = sw_closed w \<and> sw_address w' = sw_address w"
    and "rest = [] \<Longrightarrow> \<exists>c. tcn_fd c = fd \<and> framed (length msg - XHEAD_SIZE) msg c \<and> sw_read_query J now fd (Sys_ok data) w =
      res_bind (after_request J a fd msg c (sw_set_conn a c w)) (\<lambda>(ret, w2). if ret \<noteq> 0 then sw_close_conn a w2 else Inr w2)"
proof -
  obtain c where c: "sw_heap w a = Some c" "tcn_fd c = fd" "framed (length msg - XHEAD_SIZE) p c"
    using assms(1) by (auto simp: waiting_def)
  define c1 where "c1 = c\<lparr> tcn_last_interaction := now, tcn_querybuf := p @ data \<rparr>"
  define c2 where "c2 = c1\<lparr> tcn_current_state := STATE_BODY, tcn_bytes_processed := XHEAD_SIZE, tcn_bytes_expected := length msg - XHEAD_SIZE \<rparr>"
  define w1 where "w1 = sw_set_conn a c1 w"
  have msg: "xh_magic_num msg = XHEAD_MAGIC_NUM" "length msg - XHEAD_SIZE = unat (xh_body_len msg)" "XHEAD_SIZE < length msg" "length msg < 2 ^ 31"
    using assms(2) by (auto simp: message_ok_def)
  have "tcn_bytes_expected c < 2 ^ 31" using framed_expected [OF c(3)] msg(3,4) by (auto simp: expected_after_def)
  note rq = read_query_data [OF assms(1) c(1) assms(4) _ this, of J now, unfolded framed_expected [OF c(3)], OF assms(5), folded c1_def w1_def]
  have w1: "sw_heap w1 a = Some c1" by (simp add: w1_def)
  have hd: "xh_magic_num (p @ data) = XHEAD_MAGIC_NUM" "unat (xh_body_len (p @ data)) = length msg - XHEAD_SIZE" if "XHEAD_SIZE \<le> length (p @ data)"
    using header_of_prefix [of "p @ data" rest msg] that assms(3) msg(1,2) by auto
  have into_body: "process_query_loop J a w1 = process_query_loop J a (sw_set_conn a c2 w)" if "XHEAD_SIZE \<le> length (p @ data)"
  proof (cases "length p < XHEAD_SIZE")
    case True
    then have "tcn_current_state c1 = STATE_HEAD" "tcn_bytes_expected c1 = XHEAD_SIZE" "tcn_bytes_processed c1 = 0"
      using c(3) by (auto simp: c1_def framed_def)
    from loop_head [OF w1 this] that hd [OF that] show ?thesis by (simp add: c1_def c2_def w1_def)
  next
    case False
    then have "c2 = c1" using c(3) by (auto simp: c1_def c2_def framed_def)
    then show ?thesis by (simp add: w1_def)
  qed
  have len: "length msg = length p + length data + length rest" using assms(3) by simp
  show "\<exists>w'. sw_read_query J now fd (Sys_ok data) w = Inr w' \<and> waiting fd a msg (p @ data) w' \<and>
      sw_to_rtc w' = sw_to_rtc w \<and> sw_closed w' = sw_closed w \<and> sw_address w' = sw_address w" if "rest \<noteq> []"
  proof (cases "XHEAD_SIZE \<le> length (p @ data)")
    case True
    have "process_query_loop J a (sw_set_conn a c2 w) = Some (Inr (0, sw_set_conn a c2 w))"
      by (rule loop_idle [of _ _ c2]) (use that len msg(3) in \<open>simp_all add: c2_def c1_def\<close>)
    moreover have "waiting fd a msg (p @ data) (sw_set_conn a c2 w)"
      using assms(1) True c by (auto simp: waiting_def framed_def c2_def c1_def)
    ultimately show ?thesis using rq into_body [OF True] by (simp add: sw_process_query_buffer_def)
  next
    case False
    then have st: "tcn_current_state c1 = STATE_HEAD" "tcn_bytes_expected c1 = XHEAD_SIZE" "tcn_bytes_processed c1 = 0" "tcn_querybuf c1 = p @ data"
      using c(3) by (auto simp: c1_def framed_def)
    have "process_query_loop J a w1 = Some (Inr (0, w1))" by (rule loop_idle [OF w1]) (use st False in simp)
    moreover have "waiting fd a msg (p @ data) w1"
      using assms(1) False c st by (auto simp: waiting_def framed_def w1_def) (simp add: c1_def)
    ultimately show ?thesis using rq by (simp add: sw_process_query_buffer_def) (simp add: w1_def)
  qed
  show "\<exists>c. tcn_fd c = fd \<and> framed (length msg - XHEAD_SIZE) msg c \<and> sw_read_query J now fd (Sys_ok data) w =
      res_bind (after_request J a fd msg c (sw_set_conn a c w)) (\<lambda>(ret, w2). if ret \<noteq> 0 then sw_close_conn a w2 else Inr w2)" if "rest = []"
  proof -
    have full: "p @ data = msg" using assms(3) that by simp
    have "process_query_loop J a (sw_set_conn a c2 w) = Some (after_request J a (tcn_fd c2) (tcn_querybuf c2) c2 (sw_set_conn a c2 w))"
      by (rule loop_body) (use full msg(3) in \<open>simp_all add: c2_def c1_def\<close>)
    then have "process_query_loop J a w1 = Some (after_request J a fd msg c2 (sw_set_conn a c2 w))"
      using into_body full msg(3) c(2) by (simp add: c2_def c1_def)
    moreover have "framed (length msg - XHEAD_SIZE) msg c2" using full msg(3) by (simp add: framed_def c2_def c1_def)
    ultimately show ?thesis using rq c(2) by (intro exI [of _ c2]) (simp add: sw_process_query_buffer_def c2_def c1_def)
  qed
qed

lemma read_query_take:
  assumes "waiting fd a msg p w" "message_ok msg"
  shows "sw_read_query J now fd (Sys_ok xs) w = sw_read_query J now fd (Sys_ok (take (expected_after msg p) xs)) w"
proof -
  obtain c where c: "sw_heap w a = Some c" "framed (length msg - XHEAD_SIZE) p c" using assms(1) by (auto simp: waiting_def)
  have e: "tcn_bytes_expected c = expected_after msg p" "expected_after msg p < 2 ^ 31"
    using framed_expected [OF c(2)] assms(2) by (auto simp: expected_after_def message_ok_def)
  then have "to_i32 (int (tcn_bytes_expected c)) = int (expected_after msg p)"
    by (simp add: to_i32_def signed_take_bit_int_eq_self)
  then show ?thesis using assms(1) c by (auto simp: sw_read_query_def waiting_def sock_read_data_def)
qed

lemma close_live:
  assumes "sw_heap w a = Some c" "tcn_fd c = fd" "0 < fd" "nat fd < length (sw_tcp_conns w)"
  shows "\<exists>w'. sw_close_conn a w = Inr w' \<and> sw_closed w' = sw_closed w @ [fd] \<and> sw_to_rtc w' = sw_to_rtc w"
  using assms by (simp add: sw_close_conn_def sw_remove_conn_def sw_deref_def)

lemma client_sends_Nil: "client_sends J fd evs [] w = Inr ([], w)"
  by (cases evs) (auto split: option.splits)

lemma client_sends_message:
  assumes "waiting fd a msg p w" "message_ok msg" "msg = p @ s" "s \<noteq> []"
  shows "case client_sends J fd evs s w of
      Inl e \<Rightarrow> request_effect J a fd msg (sw_address w) = Inl e
    | Inr (rest, w') \<Rightarrow>
        if rest = [] then \<exists>r ms. request_effect J a fd msg (sw_address w) = Inr (r, ms) \<and>
          sw_to_rtc w' = sw_to_rtc w @ ms \<and> sw_closed w' = sw_closed w @ (if r = 0 then [] else [fd]) \<and>
          (r = 0 \<longrightarrow> served fd a msg 0 w' \<and> sw_address w' = sw_address w)
        else length evs < length s \<and> sw_to_rtc w' = sw_to_rtc w \<and> sw_closed w' = sw_closed w"
  using assms
proof (induction evs arbitrary: p s w)
  case Nil
  then show ?case by simp
next
  case (Cons ev evs)
  obtain now n where ev: "ev = (now, n)" by force
  obtain c where c: "sw_heap w a = Some c" "framed (length msg - XHEAD_SIZE) p c" "conn_of fd w = Some c"
    using Cons.prems(1) by (auto simp: waiting_def conn_of_def)
  define e where "e = expected_after msg p"
  define data where "data = take e (take (Suc n) s)"
  define rest where "rest = drop (min (Suc n) e) s"
  have e: "tcn_bytes_expected c = e" "0 < e"
    using framed_expected [OF c(2)] Cons.prems(2) by (auto simp: e_def expected_after_def message_ok_def XHEAD_SIZE_def)
  have sr: "s = data @ rest" "data \<noteq> []" "length data \<le> e" using Cons.prems(4) e(2) by (auto simp: data_def rest_def min.commute)
  then have m: "msg = p @ data @ rest" using Cons.prems(3) by simp
  have cs: "client_sends J fd (ev # evs) s w = res_bind (sw_read_query J now fd (Sys_ok data) w) (client_sends J fd evs rest)"
    using c(3) e(1) Cons.prems(4) read_query_take [OF Cons.prems(1,2), of J now "take (Suc n) s"]
    by (simp add: ev rest_def data_def e_def)
  note step = read_step [OF Cons.prems(1,2) m sr(2) sr(3) [unfolded e_def], of J now]
  show ?case
  proof (cases "rest = []")
    case False
    then obtain w' where w': "sw_read_query J now fd (Sys_ok data) w = Inr w'" "waiting fd a msg (p @ data) w'"
        "sw_to_rtc w' = sw_to_rtc w" "sw_closed w' = sw_closed w" "sw_address w' = sw_address w"
      using step(1) by blast
    have "length rest < length s" using sr by (cases data) auto
    then show ?thesis using Cons.IH [OF w'(2) Cons.prems(2) _ False] m cs w'
      by (auto split: sum.splits prod.splits if_splits)
  next
    case True
    then obtain c' where c': "tcn_fd c' = fd" "framed (length msg - XHEAD_SIZE) msg c'" "sw_read_query J now fd (Sys_ok data) w =
        res_bind (after_request J a fd msg c' (sw_set_conn a c' w)) (\<lambda>(ret, w2). if ret \<noteq> 0 then sw_close_conn a w2 else Inr w2)"
      using step(2) by blast
    show ?thesis
    proof (cases "request_effect J a fd msg (sw_address w)")
      case (Inl err)
      then show ?thesis using cs c' by (simp add: after_request_def)
    next
      case (Inr rm)
      obtain r ms where rm: "rm = (r, ms)" by force
      let ?w = "(sw_set_conn a c' w)\<lparr> sw_to_rtc := sw_to_rtc w @ ms \<rparr>"
      have "\<exists>w'. sw_close_conn a ?w = Inr w' \<and> sw_closed w' = sw_closed ?w @ [fd] \<and> sw_to_rtc w' = sw_to_rtc ?w"
        by (rule close_live [of _ _ c']) (use Cons.prems(1) c'(1) in \<open>auto simp: waiting_def\<close>)
      moreover have "served fd a msg 0 (sw_set_conn a (c'\<lparr> tcn_bytes_processed := 65536 \<rparr>) ?w)"
        using Cons.prems(1,2) c'(1,2) by (auto simp: served_def waiting_def framed_def message_ok_def)
      ultimately show ?thesis using cs c'(3) Inr rm True by (auto simp: after_request_def client_sends_Nil)
    qed
  qed
qed

text \<open>
  C31: The framing of requests does not depend on how TCP delivers them.  A client sends a header with
  the right magic number and a body of the announced length (at least one byte, below \<open>2 ^ 31\<close>), and
  the bytes reach \<^verbatim>\<open>_read_query\<close> in pieces of any sizes at any times.  Then nothing is dispatched and
  the connection stays open while a byte is missing; with the last byte the request is processed exactly once, with the same effect for every way of cutting: its messages are handed to the RTC server, the
  connection is closed if and only if the request is refused, and an error is raised if and only if
  processing the request raises it.  After as many read events as there are bytes the message is
  complete.
\<close>

theorem framing_independent_of_segmentation:
  assumes "waiting fd a msg [] w" "message_ok msg"
  shows "case client_sends J fd evs msg w of
      Inl e \<Rightarrow> request_effect J a fd msg (sw_address w) = Inl e
    | Inr (rest, w') \<Rightarrow>
        if rest = [] then \<exists>r ms. request_effect J a fd msg (sw_address w) = Inr (r, ms) \<and>
          sw_to_rtc w' = sw_to_rtc w @ ms \<and> sw_closed w' = sw_closed w @ (if r = 0 then [] else [fd])
        else length evs < length msg \<and> sw_to_rtc w' = sw_to_rtc w \<and> sw_closed w' = sw_closed w"
proof -
  have "msg \<noteq> []" using assms(2) by (auto simp: message_ok_def)
  from client_sends_message [OF assms _ this, of J evs] show ?thesis by (auto split: sum.splits prod.splits if_splits)
qed

text \<open>A request to stop pushing, and a worker with one new connection.\<close>

definition ex_body :: bytes where
  \<open>ex_body = bytes_of ''{"cmdno":4,"uid":7,"stream_name":"s"}''\<close>

definition ex_root :: json where
  "ex_root = J_object [(bytes_of ''cmdno'', J_unsigned 4), (bytes_of ''stream_name'', J_string (bytes_of ''s'')), (bytes_of ''uid'', J_unsigned 7)]"

definition json_ref :: json_lib where
  "json_ref = \<lparr> json_parse = (\<lambda>b. if b = ex_body then Inr ex_root else Inl Parse_error), json_dump = (\<lambda>_. Inr ex_body) \<rparr>"

definition ex_request :: bytes where
  "ex_request = replicate 24 0 @ le32 XHEAD_MAGIC_NUM @ replicate 4 0 @ le32 (of_nat (length ex_body)) @ ex_body"

definition ex_worker :: signaling_worker where
  "ex_worker = sw_new_conn 100 (0, bytes_of ''10.0.0.1'', 5) 6 (SignalingWorker_new 1 5000000)"

lemma ex_body_length: "length ex_body = 37"
  by (simp add: ex_body_def bytes_of_def)

lemma ex_request_length: "length ex_request = 73"
  by (simp add: ex_request_def ex_body_length)

lemma ex_request_ok: "message_ok ex_request"
proof -
  have "xh_magic_num ex_request = XHEAD_MAGIC_NUM"
    unfolding ex_request_def xh_magic_num_def by (rule xh_field32_le32) simp
  moreover have "xh_body_len ((replicate 24 0 @ le32 XHEAD_MAGIC_NUM @ replicate 4 0) @ le32 (of_nat (length ex_body)) @ ex_body) = of_nat (length ex_body)"
    unfolding xh_body_len_def by (rule xh_field32_le32) simp
  ultimately show ?thesis by (simp add: message_ok_def ex_request_length XHEAD_SIZE_def ex_body_length) (simp add: ex_request_def ex_body_length)
qed

lemma ex_waiting: "waiting 6 100 ex_request [] ex_worker"
  by (auto simp: waiting_def framed_def ex_worker_def sw_new_conn_def SignalingWorker_new_def TcpConnection_new_def XHEAD_SIZE_def
    split: prod.splits)

lemma ex_request_effect_of:
  assumes "json_parse J ex_body = Inr ex_root"
  shows "request_effect J 100 6 ex_request 1 = Inr (0, [RtcMsg_new\<lparr> rm_cmdno := 4, rm_uid := 7, rm_stream_name := bytes_of ''s'',
     rm_worker := Some 1, rm_conn := Some 100, rm_fd := 6 \<rparr>])"
proof -
  have "drop XHEAD_SIZE ex_request = ex_body" by (simp add: ex_request_def XHEAD_SIZE_def)
  moreover have "c_string ex_body = ex_body" by code_simp
  moreover have "xh_log_id (take XHEAD_SIZE ex_request) = 0"
    by (simp add: XHEAD_SIZE_def xh_take) (simp add: xh_log_id_def ex_request_def xh_field32_def nth_append de32_def)
  moreover have "json_index (bytes_of ''cmdno'') ex_root = Inr (J_unsigned 4, ex_root)" "json_get_int (J_unsigned 4) = Inr 4"
    "read_stop_request ex_root = Inr (7, bytes_of ''s'')" by code_simp+
  ultimately show ?thesis
    by (simp add: request_effect_def request_defs assms cmdno_defs SignalingWorker_new_def RtcMsg_new_def)
qed

lemma ex_request_effect:
  "request_effect json_ref 100 6 ex_request 1 = Inr (0, [RtcMsg_new\<lparr> rm_cmdno := 4, rm_uid := 7, rm_stream_name := bytes_of ''s'',
     rm_worker := Some 1, rm_conn := Some 100, rm_fd := 6 \<rparr>])"
  by (rule ex_request_effect_of) (simp add: json_ref_def)

text \<open>The request in pieces of every size.\<close>

theorem framing_independent_of_segmentation_witness:
  "\<forall>n. \<exists>w. client_sends json_ref 6 (replicate 73 (9, n)) ex_request ex_worker = Inr ([], w) \<and> map rm_uid (sw_to_rtc w) = [7] \<and> sw_closed w = []"
proof
  fix n
  have w: "sw_address ex_worker = 1" "sw_to_rtc ex_worker = []" "sw_closed ex_worker = []"
    by (simp_all add: ex_worker_def sw_new_conn_def SignalingWorker_new_def split: prod.splits)
  show "\<exists>w. client_sends json_ref 6 (replicate 73 (9, n)) ex_request ex_worker = Inr ([], w) \<and> map rm_uid (sw_to_rtc w) = [7] \<and> sw_closed w = []"
    using framing_independent_of_segmentation [OF ex_waiting ex_request_ok, of json_ref "replicate 73 (9, n)", unfolded w ex_request_effect]
      ex_request_length by (auto split: sum.splits prod.splits if_splits)
qed

subsection \<open>Bytes after the request\<close>

lemma c_string_zeros: "c_string (xs @ replicate k 0) = c_string xs"
  by (induction xs) (simp_all add: c_string_def)

lemma effect_zeros:
  assumes "XHEAD_SIZE \<le> length msg"
  shows "request_effect J a fd (msg @ replicate k 0) this = request_effect J a fd msg this"
proof -
  have "take XHEAD_SIZE (msg @ replicate k 0) = take XHEAD_SIZE msg" "drop XHEAD_SIZE (msg @ replicate k 0) = drop XHEAD_SIZE msg @ replicate k 0"
    using assms by auto
  then show ?thesis by (simp add: request_effect_def sw_process_request_def c_string_zeros)
qed

text \<open>The loop cannot end once the buffer is long enough: every round processes the same request again.\<close>

lemma flooded_loop:
  assumes "process_query_loop J a w = Some r" "served fd a msg k w" "message_ok msg"
    "request_effect J a fd msg (sw_address w) = Inr (0, ms)" "65536 \<le> XHEAD_SIZE + k"
  shows False
  using assms(2,4)
proof (induction rule: process_query_loop.raw_induct [OF _ assms(1), consumes 0])
  case (1 loop J a w r)
  obtain c where c: "sw_heap w a = Some c" "tcn_fd c = fd" "tcn_querybuf c = msg @ replicate k 0" "tcn_current_state c = STATE_BODY"
      "tcn_bytes_expected c = length msg - XHEAD_SIZE" "tcn_bytes_processed c = 65536"
    using 1(3) by (auto simp: served_def)
  let ?w = "sw_set_conn a (c\<lparr> tcn_bytes_processed := 65536 \<rparr>) (w\<lparr> sw_to_rtc := sw_to_rtc w @ ms \<rparr>)"
  have len: "XHEAD_SIZE \<le> length msg" using assms(3) by (simp add: message_ok_def)
  have "sw_process_request J a fd (take XHEAD_SIZE (msg @ replicate k 0)) (drop XHEAD_SIZE (msg @ replicate k 0)) w =
      Inr (0, w\<lparr> sw_to_rtc := sw_to_rtc w @ ms \<rparr>)"
    unfolding process_request_effect by (simp add: effect_zeros [OF len] 1(4))
  then have "query_round J a c w = Inr (None, ?w)"
    using c len by (simp add: query_round_def)
  moreover have "tcn_bytes_expected c + tcn_bytes_processed c \<le> length (tcn_querybuf c)" using c len assms(5) by simp
  ultimately have "loop J a ?w = Some r" using 1(2) c(1) by simp
  moreover have "served fd a msg k ?w" using 1(3) c by (auto simp: served_def)
  moreover have "request_effect J a fd msg (sw_address ?w) = Inr (0, ms)" using 1(4) by simp
  ultimately show False by (rule 1(1))
qed

lemma served_read:
  assumes "served fd a msg k w" "message_ok msg" "request_effect J a fd msg (sw_address w) = Inr (0, ms)" "0 < j" "j \<le> length msg - XHEAD_SIZE"
  shows "if 65536 \<le> XHEAD_SIZE + (k + j) then sw_read_query J now fd (Sys_ok (replicate j 0)) w = Inl Diverges
    else \<exists>w'. sw_read_query J now fd (Sys_ok (replicate j 0)) w = Inr w' \<and> served fd a msg (k + j) w' \<and> sw_address w' = sw_address w"
proof -
  obtain c where c: "sw_heap w a = Some c" "tcn_fd c = fd" "tcn_querybuf c = msg @ replicate k 0" "tcn_current_state c = STATE_BODY"
      "tcn_bytes_expected c = length msg - XHEAD_SIZE" "tcn_bytes_processed c = 65536"
    using assms(1) by (auto simp: served_def)
  define w1 where "w1 = sw_set_conn a (c\<lparr> tcn_last_interaction := now, tcn_querybuf := msg @ replicate (k + j) 0 \<rparr>) w"
  have len: "XHEAD_SIZE \<le> length msg" "length msg - XHEAD_SIZE < 2 ^ 31" using assms(2) by (simp_all add: message_ok_def)
  then have "to_i32 (int (tcn_bytes_expected c)) = int (length msg - XHEAD_SIZE)"
    by (simp add: to_i32_def signed_take_bit_int_eq_self c(5))
  then have rq: "sw_read_query J now fd (Sys_ok (replicate j 0)) w =
      res_bind (sw_process_query_buffer J a w1) (\<lambda>(ret, w2). if ret \<noteq> 0 then sw_close_conn a w2 else Inr w2)"
    using assms(1,4,5) c by (auto simp: sw_read_query_def served_def sock_read_data_def w1_def replicate_add)
  have sv: "served fd a msg (k + j) w1" "sw_address w1 = sw_address w"
    using assms(1) c by (auto simp: served_def w1_def)
  show ?thesis
  proof (cases "65536 \<le> XHEAD_SIZE + (k + j)")
    case True
    have "process_query_loop J a w1 = None"
      using flooded_loop [OF _ sv(1) assms(2) _ True] assms(3) sv(2) by (cases "process_query_loop J a w1") auto
    then show ?thesis using rq True by (simp add: sw_process_query_buffer_def)
  next
    case False
    have "process_query_loop J a w1 = Some (Inr (0, w1))"
      using False c len by (intro loop_idle [of w1 a "c\<lparr> tcn_last_interaction := now, tcn_querybuf := msg @ replicate (k + j) 0 \<rparr>"]) (simp_all add: w1_def)
    then show ?thesis using rq False sv by (simp add: sw_process_query_buffer_def)
  qed
qed

lemma served_flood:
  assumes "served fd a msg k w" "message_ok msg" "request_effect J a fd msg (sw_address w) = Inr (0, ms)"
    and "65536 \<le> XHEAD_SIZE + k + m" "XHEAD_SIZE + k < 65536" "m \<le> length evs"
  shows "client_sends J fd evs (replicate m 0) w = Inl Diverges"
  using assms(1,3-)
proof (induction evs arbitrary: k m w)
  case Nil
  then show ?case by simp
next
  case (Cons ev evs)
  obtain now n where ev: "ev = (now, n)" by force
  obtain c where c: "conn_of fd w = Some c" "tcn_bytes_expected c = length msg - XHEAD_SIZE"
    using Cons.prems(1) by (auto simp: served_def conn_of_def)
  define e where "e = length msg - XHEAD_SIZE"
  define j where "j = min e (min (Suc n) m)"
  have e: "0 < e" "e < 2 ^ 31" "0 < m" using assms(2) Cons.prems(3,4) by (auto simp: message_ok_def e_def)
  have j: "0 < j" "j \<le> length msg - XHEAD_SIZE" "j \<le> m" using e by (auto simp: j_def e_def)
  have t: "to_i32 (int e) = int e" using e(2) by (simp add: to_i32_def signed_take_bit_int_eq_self)
  have "sw_read_query J now fd (Sys_ok (replicate (min (Suc n) m) 0)) w = sw_read_query J now fd (Sys_ok (replicate j 0)) w"
    using Cons.prems(1) e t by (auto simp: sw_read_query_def served_def sock_read_data_def e_def [symmetric] j_def)
  moreover have "m - min (Suc n) e = m - j" by (simp add: j_def min_def)
  ultimately have cs: "client_sends J fd (ev # evs) (replicate m 0) w =
      res_bind (sw_read_query J now fd (Sys_ok (replicate j 0)) w) (client_sends J fd evs (replicate (m - j) 0))"
    using c e(3) by (simp add: ev e_def)
  show ?case
  proof (cases "65536 \<le> XHEAD_SIZE + (k + j)")
    case True
    then show ?thesis using served_read [OF Cons.prems(1) assms(2) Cons.prems(2) j(1,2), of now] cs by simp
  next
    case False
    then obtain w' where w': "sw_read_query J now fd (Sys_ok (replicate j 0)) w = Inr w'" "served fd a msg (k + j) w'" "sw_address w' = sw_address w"
      using served_read [OF Cons.prems(1) assms(2) Cons.prems(2) j(1,2), of now] by auto
    have "client_sends J fd evs (replicate (m - j) 0) w' = Inl Diverges"
      by (rule Cons.IH [OF w'(2)]) (use w'(3) Cons.prems(2-) False j in auto)
    then show ?thesis using cs w'(1) by simp
  qed
qed

text \<open>
  C38: A client can make a signaling thread loop for ever.  Once a request has been accepted,
  \<^verbatim>\<open>bytes_processed\<close> is set to 65536 and never changed, so when the client goes on sending (here: zero
  bytes, in pieces of any sizes) and the buffer reaches \<^verbatim>\<open>body_len + 65536\<close> bytes, the loop of
  \<^verbatim>\<open>_process_query_buffer\<close> no longer ends: it processes the same request again in every round.
\<close>

theorem trailing_bytes_hang_worker:
  assumes "waiting fd a msg [] w" "message_ok msg" "request_effect J a fd msg (sw_address w) = Inr (0, ms)"
    and "client_sends J fd evs msg w = Inr ([], w')" "65536 - XHEAD_SIZE \<le> m" "m \<le> length evs'"
  shows "client_sends J fd evs' (replicate m 0) w' = Inl Diverges"
proof -
  have "msg \<noteq> []" using assms(2) by (auto simp: message_ok_def)
  from client_sends_message [OF assms(1,2) _ this, of J evs] assms(3,4)
  have "served fd a msg 0 w'" "sw_address w' = sw_address w" by auto
  from served_flood [OF this(1) assms(2), of J ms m evs'] this(2) assms(3,5,6) show ?thesis by (simp add: XHEAD_SIZE_def)
qed

theorem trailing_bytes_hang_worker_witness:
  "\<exists>w. client_sends json_ref 6 (replicate 73 (9, 7)) ex_request ex_worker = Inr ([], w) \<and>
     client_sends json_ref 6 (replicate 65500 (10, 999)) (replicate 65500 0) w = Inl Diverges"
proof -
  have w: "sw_address ex_worker = 1"
    by (simp add: ex_worker_def sw_new_conn_def SignalingWorker_new_def split: prod.splits)
  have "ex_request \<noteq> []" using ex_request_length by auto
  from client_sends_message [OF ex_waiting ex_request_ok _ this, of json_ref "replicate 73 (9, 7)"] w
  obtain w' where w': "client_sends json_ref 6 (replicate 73 (9, 7)) ex_request ex_worker = Inr ([], w')"
    using ex_request_effect ex_request_length by (auto split: sum.splits prod.splits if_splits)
  have "client_sends json_ref 6 (replicate 65500 (10, 999)) (replicate 65500 0) w' = Inl Diverges"
    using trailing_bytes_hang_worker [OF ex_waiting ex_request_ok _ w', of _ 65500 "replicate 65500 (10, 999)"] w ex_request_effect
    by (simp add: XHEAD_SIZE_def del: replicate.simps)
  then show ?thesis using w' by blast
qed

subsection \<open>Well-formed and malformed requests\<close>

text \<open>The specification: the members a command needs, in the order they are read, and what the first
  unusable one of them means for the request.\<close>

datatype field_kind = K_u64 | K_int | K_text

datatype fault = Missing | Ill_typed | Unrepresentable

datatype verdict = Accept int | Refuse | Terminate | Undefined

definition value_fault :: "field_kind \<Rightarrow> json \<Rightarrow> fault option" where
  "value_fault k v = (case k of
     K_u64 \<Rightarrow> (case v of J_unsigned _ \<Rightarrow> None | J_integer _ \<Rightarrow> None
       | J_float m e \<Rightarrow> if 0 \<le> float_trunc m e \<and> float_trunc m e < 2 ^ 64 then None else Some Unrepresentable | _ \<Rightarrow> Some Ill_typed)
   | K_int \<Rightarrow> (case v of J_unsigned _ \<Rightarrow> None | J_integer _ \<Rightarrow> None | J_boolean _ \<Rightarrow> None
       | J_float m e \<Rightarrow> if - (2 ^ 31) \<le> float_trunc m e \<and> float_trunc m e < 2 ^ 31 then None else Some Unrepresentable | _ \<Rightarrow> Some Ill_typed)
   | K_text \<Rightarrow> (case v of J_string _ \<Rightarrow> None | _ \<Rightarrow> Some Ill_typed))"

fun first_fault :: "(bytes \<times> json) list \<Rightarrow> (bytes \<times> field_kind) list \<Rightarrow> fault option" where
  "first_fault ms [] = None"
| "first_fault ms ((key, k) # fs) = (case map_of ms key of
     None \<Rightarrow> Some Missing
   | Some v \<Rightarrow> (case value_fault k v of None \<Rightarrow> first_fault ms fs | Some f \<Rightarrow> Some f))"

definition required :: "int \<Rightarrow> (bytes \<times> field_kind) list" where
  "required cmdno = [(bytes_of ''uid'', K_u64), (bytes_of ''stream_name'', K_text)] @
     (if cmdno = CMDNO_PUSH \<or> cmdno = CMDNO_PULL then [(bytes_of ''audio'', K_int), (bytes_of ''video'', K_int)]
      else if cmdno = CMDNO_ANSWER then [(bytes_of ''type'', K_text), (bytes_of ''answer'', K_text)] else [])"

definition fault_verdict :: "fault \<Rightarrow> verdict" where
  "fault_verdict f = (case f of Missing \<Rightarrow> Refuse | Ill_typed \<Rightarrow> Terminate | Unrepresentable \<Rightarrow> Undefined)"

definition request_verdict :: "json \<Rightarrow> verdict" where
  "request_verdict root = (case root of
     J_object ms \<Rightarrow> (case map_of ms (bytes_of ''cmdno'') of
         None \<Rightarrow> Terminate
       | Some v \<Rightarrow> (case value_fault K_int v of
           Some f \<Rightarrow> fault_verdict f
         | None \<Rightarrow> let cmdno = projr (json_get_int v) in
             if cmdno \<in> {1..5} then (case first_fault ms (required cmdno) of None \<Rightarrow> Accept cmdno | Some f \<Rightarrow> fault_verdict f)
             else Refuse))
   | _ \<Rightarrow> Terminate)"

definition fault_error :: "fault \<Rightarrow> json_error" where
  "fault_error f = (case f of Missing \<Rightarrow> Out_of_range | Ill_typed \<Rightarrow> Type_error | Unrepresentable \<Rightarrow> Undefined_conversion)"

text \<open>Reading one member: the fault of the member, or its value.\<close>

lemma read_member:
  "json_bind (json_bind (json_at key (J_object ms)) json_get_u64) f = (case first_fault ms [(key, K_u64)] of
     None \<Rightarrow> f (projr (json_get_u64 (the (map_of ms key)))) | Some e \<Rightarrow> Inl (fault_error e))"
  "json_bind (json_bind (json_at key (J_object ms)) json_get_int) g = (case first_fault ms [(key, K_int)] of
     None \<Rightarrow> g (projr (json_get_int (the (map_of ms key)))) | Some e \<Rightarrow> Inl (fault_error e))"
  "json_bind (json_bind (json_at key (J_object ms)) json_get_string) h = (case first_fault ms [(key, K_text)] of
     None \<Rightarrow> h (projr (json_get_string (the (map_of ms key)))) | Some e \<Rightarrow> Inl (fault_error e))"
  by (cases "map_of ms key"; cases "the (map_of ms key)";
      simp add: json_at_def fault_error_def value_fault_def json_get_u64_def json_get_int_def json_get_string_def)+

lemma first_fault_append: "first_fault ms (xs @ ys) = (case first_fault ms xs of None \<Rightarrow> first_fault ms ys | Some f \<Rightarrow> Some f)"
  by (induction ms xs rule: first_fault.induct) (auto split: option.splits)

abbreviation member :: "(bytes \<times> json) list \<Rightarrow> string \<Rightarrow> json" where
  "member ms key \<equiv> the (map_of ms (bytes_of key))"

lemma read_requests:
  "read_media_request (J_object ms) = (case first_fault ms (required CMDNO_PUSH) of
     None \<Rightarrow> Inr (projr (json_get_u64 (member ms ''uid'')), projr (json_get_string (member ms ''stream_name'')),
       projr (json_get_int (member ms ''audio'')), projr (json_get_int (member ms ''video'')))
   | Some e \<Rightarrow> Inl (fault_error e))"
  "read_stop_request (J_object ms) = (case first_fault ms (required CMDNO_STOPPUSH) of
     None \<Rightarrow> Inr (projr (json_get_u64 (member ms ''uid'')), projr (json_get_string (member ms ''stream_name'')))
   | Some e \<Rightarrow> Inl (fault_error e))"
  "read_answer_request (J_object ms) = (case first_fault ms (required CMDNO_ANSWER) of
     None \<Rightarrow> Inr (projr (json_get_u64 (member ms ''uid'')), projr (json_get_string (member ms ''stream_name'')),
       projr (json_get_string (member ms ''type'')), projr (json_get_string (member ms ''answer'')))
   | Some e \<Rightarrow> Inl (fault_error e))"
  unfolding read_media_request_def read_stop_request_def read_answer_request_def read_member
  by (auto simp: required_def cmdno_defs split: option.splits)

lemma required_same: "required CMDNO_PULL = required CMDNO_PUSH" "required CMDNO_STOPPULL = required CMDNO_STOPPUSH"
  by (simp_all add: required_def cmdno_defs)

lemma catching_fault:
  "catching Out_of_range (Inl (fault_error e)) (Inr (- 1, w)) k =
     (case fault_verdict e of Refuse \<Rightarrow> Inr (- 1, w) | Terminate \<Rightarrow> Inl Uncaught_exception | _ \<Rightarrow> Inl Bad_cast)"
  by (cases e) (simp_all add: catching_def fault_error_def fault_verdict_def)

text \<open>What a message for the RTC server carries of the request and of the connection it came from.\<close>

definition msg_of_request :: "json \<Rightarrow> int \<Rightarrow> nat \<Rightarrow> nat \<Rightarrow> int \<Rightarrow> u32 \<Rightarrow> rtc_msg \<Rightarrow> bool" where
  "msg_of_request root cmdno this a fd log_id m \<longleftrightarrow> rm_cmdno m = cmdno \<and> rm_worker m = Some this \<and> rm_conn m = Some a \<and> rm_fd m = fd \<and>
     rm_log_id m = log_id \<and> rm_err_no m = 0 \<and>
     json_bind (json_at (bytes_of ''uid'') root) json_get_u64 = Inr (rm_uid m) \<and>
     json_bind (json_at (bytes_of ''stream_name'') root) json_get_string = Inr (rm_stream_name m)"

lemma members_read:
  assumes "first_fault ms (required k) = None"
  shows "json_bind (json_at (bytes_of ''uid'') (J_object ms)) json_get_u64 = Inr (projr (json_get_u64 (member ms ''uid'')))"
    "json_bind (json_at (bytes_of ''stream_name'') (J_object ms)) json_get_string = Inr (projr (json_get_string (member ms ''stream_name'')))"
proof -
  from assms obtain v s where v: "map_of ms (bytes_of ''uid'') = Some v" "value_fault K_u64 v = None"
      "map_of ms (bytes_of ''stream_name'') = Some s" "value_fault K_text s = None"
    by (auto simp: required_def first_fault_append split: option.splits)
  have "\<exists>x. json_get_u64 v = Inr x" using v(2) by (cases v) (auto simp: value_fault_def json_get_u64_def split: if_splits)
  moreover have "\<exists>x. json_get_string s = Inr x" using v(4) by (cases s) (auto simp: value_fault_def json_get_string_def)
  ultimately show "json_bind (json_at (bytes_of ''uid'') (J_object ms)) json_get_u64 = Inr (projr (json_get_u64 (member ms ''uid'')))"
    "json_bind (json_at (bytes_of ''stream_name'') (J_object ms)) json_get_string = Inr (projr (json_get_string (member ms ''stream_name'')))"
    using v by (auto simp: json_at_def)
qed

definition dispatch :: "int \<Rightarrow> nat \<Rightarrow> int \<Rightarrow> json \<Rightarrow> u32 \<Rightarrow> signaling_worker \<Rightarrow> (int \<times> signaling_worker) res" where
  "dispatch k a fd root log_id w =
     (if k = CMDNO_PUSH then sw_process_push k a fd root log_id w
      else if k = CMDNO_PULL then sw_process_pull k a fd root log_id w
      else if k = CMDNO_STOPPUSH then sw_process_stop_push k a fd root log_id w
      else if k = CMDNO_STOPPULL then sw_process_stop_pull k a fd root log_id w
      else if k = CMDNO_ANSWER then sw_process_answer k a fd root log_id w
      else Inr (- 1, w))"

lemmas handler_defs = sw_process_push_def sw_process_pull_def sw_process_stop_push_def sw_process_stop_pull_def sw_process_answer_def

lemma cmdno_distinct:
  "CMDNO_PULL \<noteq> CMDNO_PUSH" "CMDNO_STOPPUSH \<noteq> CMDNO_PUSH" "CMDNO_STOPPUSH \<noteq> CMDNO_PULL" "CMDNO_STOPPULL \<noteq> CMDNO_PUSH"
  "CMDNO_STOPPULL \<noteq> CMDNO_PULL" "CMDNO_STOPPULL \<noteq> CMDNO_STOPPUSH" "CMDNO_ANSWER \<noteq> CMDNO_PUSH" "CMDNO_ANSWER \<noteq> CMDNO_PULL"
  "CMDNO_ANSWER \<noteq> CMDNO_STOPPUSH" "CMDNO_ANSWER \<noteq> CMDNO_STOPPULL"
  by (simp_all add: cmdno_defs)

lemma dispatch_verdict:
  assumes "k \<in> {1..5}"
  shows "case first_fault ms (required k) of
       None \<Rightarrow> \<exists>m. dispatch k a fd (J_object ms) log_id w = Inr (0, send_to_rtc_server m w) \<and>
         msg_of_request (J_object ms) k (sw_address w) a fd log_id m
     | Some f \<Rightarrow> dispatch k a fd (J_object ms) log_id w =
         (case fault_verdict f of Refuse \<Rightarrow> Inr (- 1, w) | Terminate \<Rightarrow> Inl Uncaught_exception | _ \<Rightarrow> Inl Bad_cast)"
proof -
  have k: "k = CMDNO_PUSH \<or> k = CMDNO_PULL \<or> k = CMDNO_ANSWER \<or> k = CMDNO_STOPPUSH \<or> k = CMDNO_STOPPULL"
    using assms by (auto simp: cmdno_defs)
  note cases = dispatch_def cmdno_distinct handler_defs read_requests required_same catching_fault
  show ?thesis
  proof (cases "first_fault ms (required k)")
    case None
    define m where "m = request_msg k a fd log_id (projr (json_get_u64 (member ms ''uid''))) (projr (json_get_string (member ms ''stream_name''))) w"
    let ?media = "m\<lparr> rm_audio := projr (json_get_int (member ms ''audio'')), rm_video := projr (json_get_int (member ms ''video'')) \<rparr>"
    let ?answer = "m\<lparr> rm_stream_type := projr (json_get_string (member ms ''type'')), rm_sdp := projr (json_get_string (member ms ''answer'')) \<rparr>"
    let ?d = "dispatch k a fd (J_object ms) log_id w"
    have "?d = Inr (0, send_to_rtc_server ?media w) \<or> ?d = Inr (0, send_to_rtc_server ?answer w) \<or> ?d = Inr (0, send_to_rtc_server m w)"
      using k by (elim disjE) (use None in \<open>simp_all add: cases m_def\<close>)
    moreover have "msg_of_request (J_object ms) k (sw_address w) a fd log_id x" if "x \<in> {?media, ?answer, m}" for x
      using that by (auto simp: msg_of_request_def members_read [OF None] m_def request_msg_def RtcMsg_new_def)
    ultimately show ?thesis unfolding None option.case by blast
  next
    case (Some f)
    then show ?thesis unfolding Some option.case
      using k by (elim disjE) (use Some in \<open>simp_all add: cases\<close>)
  qed
qed

lemma request_by_verdict:
  assumes "json_parse J (c_string (drop XHEAD_SIZE msg)) = Inr root"
  shows "case request_verdict root of
      Accept cmdno \<Rightarrow> \<exists>m. request_effect J a fd msg this = Inr (0, [m]) \<and> msg_of_request root cmdno this a fd (xh_log_id (take XHEAD_SIZE msg)) m
    | Refuse \<Rightarrow> request_effect J a fd msg this = Inr (- 1, [])
    | Terminate \<Rightarrow> request_effect J a fd msg this = Inl Uncaught_exception
    | Undefined \<Rightarrow> request_effect J a fd msg this = Inl Bad_cast"
proof -
  let ?w = "SignalingWorker_new this 0" and ?log = "xh_log_id (take XHEAD_SIZE msg)"
  have eff: "request_effect J a fd msg this = map_sum id (\<lambda>(r, w). (r, sw_to_rtc w))
      (catching Parse_error (json_bind (json_index (bytes_of ''cmdno'') root) (\<lambda>(v, root').
         json_bind (json_get_int v) (\<lambda>cmdno. Inr (cmdno, root')))) (Inr (- 1, ?w)) (\<lambda>(k, root). dispatch k a fd root ?log ?w))"
    using assms by (simp add: request_effect_def sw_process_request_def dispatch_def)
  show ?thesis
  proof (cases "\<exists>ms v. root = J_object ms \<and> map_of ms (bytes_of ''cmdno'') = Some v")
    case False
    have "request_verdict root = Terminate" using False by (cases root) (auto simp: request_verdict_def split: option.splits)
    moreover have "json_bind (json_index (bytes_of ''cmdno'') root) (\<lambda>(v, root'). json_bind (json_get_int v) (\<lambda>cmdno. Inr (cmdno, root'))) = Inl Type_error"
      using False by (cases root) (auto simp: json_index_def json_get_int_def split: option.splits)
    ultimately show ?thesis using eff by (simp add: catching_def)
  next
    case True
    then obtain ms v where root: "root = J_object ms" "map_of ms (bytes_of ''cmdno'') = Some v" by blast
    then have idx: "json_index (bytes_of ''cmdno'') root = Inr (v, root)" by (simp add: json_index_def)
    show ?thesis
    proof (cases "json_get_int v")
      case (Inl e)
      then show ?thesis using eff idx root
        by (cases v) (auto simp: json_get_int_def request_verdict_def value_fault_def fault_verdict_def catching_def split: if_splits)
    next
      case (Inr k)
      then have ok: "value_fault K_int v = None" by (cases v) (auto simp: json_get_int_def value_fault_def split: if_splits)
      have eff': "request_effect J a fd msg this = map_sum id (\<lambda>(r, w). (r, sw_to_rtc w)) (dispatch k a fd root ?log ?w)"
        using eff idx Inr by simp
      have new: "sw_address ?w = this" "sw_to_rtc (send_to_rtc_server m ?w) = [m]" "sw_to_rtc ?w = []" for m
        by (simp_all add: SignalingWorker_new_def send_to_rtc_server_def)
      show ?thesis
      proof (cases "k \<in> {1..5}")
        case True
        then have "request_verdict root = (case first_fault ms (required k) of None \<Rightarrow> Accept k | Some f \<Rightarrow> fault_verdict f)"
          using root ok Inr by (simp add: request_verdict_def)
        then show ?thesis using dispatch_verdict [OF True, where ms = ms and a = a and fd = fd and log_id = ?log and w = ?w] eff' root(1) new
          by (auto simp: fault_verdict_def split: option.splits fault.splits)
      next
        case False
        then have "request_verdict root = Refuse" "dispatch k a fd root ?log ?w = Inr (- 1, ?w)"
          using root ok Inr by (auto simp: request_verdict_def dispatch_def cmdno_defs)
        then show ?thesis using eff' new by simp
      qed
    qed
  qed
qed

lemma request_accepted:
  assumes "request_effect J a fd msg this = Inr (0, ms)"
  shows "\<exists>m root cmdno. ms = [m] \<and> cmdno \<in> {1..5} \<and> msg_of_request root cmdno this a fd (xh_log_id (take XHEAD_SIZE msg)) m"
proof (cases "json_parse J (c_string (drop XHEAD_SIZE msg))")
  case (Inl e)
  then show ?thesis using assms by (auto simp: request_effect_def sw_process_request_def catching_def split: if_splits)
next
  case (Inr root)
  have "cmdno \<in> {1..5}" if "request_verdict root = Accept cmdno" for cmdno
    using that by (auto simp: request_verdict_def fault_verdict_def Let_def split: json.splits option.splits if_splits fault.splits)
  then show ?thesis using request_by_verdict [OF Inr, of a fd this] assms by (cases "request_verdict root") auto
qed

text \<open>
  C32: What becomes of a request whose body is JSON text.  If the body is an object with an integer
  \<^verbatim>\<open>cmdno\<close> between 1 and 5 and usable members for that command, exactly one message goes to the RTC
  server, with the command, the \<^verbatim>\<open>uid\<close>, the stream name, the \<^verbatim>\<open>log_id\<close> of the header and the address of the
  worker and the connection the answer has to come back to.  A missing member or an unknown command
  refuses the request.  But a body that is not an object, a missing \<^verbatim>\<open>cmdno\<close>, or a member of the wrong
  JSON type throws a \<^verbatim>\<open>type_error\<close> that no handler catches (they catch \<^verbatim>\<open>parse_error\<close> and \<^verbatim>\<open>out_of_range\<close>), so the
  request ends the server process.
\<close>

theorem request_outcome:
  assumes "json_parse J (c_string (drop XHEAD_SIZE msg)) = Inr root"
  shows "case request_verdict root of
      Accept cmdno \<Rightarrow> \<exists>m. request_effect J a fd msg this = Inr (0, [m]) \<and> msg_of_request root cmdno this a fd (xh_log_id (take XHEAD_SIZE msg)) m
    | Refuse \<Rightarrow> request_effect J a fd msg this = Inr (- 1, [])
    | Terminate \<Rightarrow> request_effect J a fd msg this = Inl Uncaught_exception
    | Undefined \<Rightarrow> request_effect J a fd msg this = Inl Bad_cast"
  by (rule request_by_verdict [OF assms])

text \<open>An accepted request, and an empty object, which ends the process.\<close>

theorem request_outcome_witness:
  "(\<exists>m. request_effect json_ref 100 6 ex_request 1 = Inr (0, [m]) \<and> rm_uid m = 7) \<and>
   request_effect (json_ref\<lparr> json_parse := (\<lambda>b. Inr (J_object [])) \<rparr>) 100 6 ex_request 1 = Inl Uncaught_exception"
proof -
  have "drop XHEAD_SIZE ex_request = ex_body" by (simp add: ex_request_def XHEAD_SIZE_def)
  moreover have "c_string ex_body = ex_body" by code_simp
  ultimately have "json_parse json_ref (c_string (drop XHEAD_SIZE ex_request)) = Inr ex_root" by (simp add: json_ref_def)
  moreover have "request_verdict ex_root = Accept 4" "request_verdict (J_object []) = Terminate" by code_simp+
  moreover have "json_bind (json_at (bytes_of ''uid'') ex_root) json_get_u64 = Inr 7" by code_simp
  ultimately show ?thesis
    using request_outcome [of json_ref ex_request ex_root 100 6 1]
      request_outcome [of "json_ref\<lparr> json_parse := (\<lambda>b. Inr (J_object [])) \<rparr>" ex_request "J_object []" 100 6 1]
    by (auto simp: msg_of_request_def)
qed

subsection \<open>Replies\<close>

text \<open>The bytes a reply should have: the header of the request with the new length, and the text.\<close>

definition reply_bytes :: "bytes \<Rightarrow> bytes \<Rightarrow> bytes" where
  "reply_bytes querybuf json_data = take 32 querybuf @ le32 (of_nat (length json_data)) @ json_data"

lemma reply_slice_sel:
  assumes "XHEAD_SIZE \<le> length q" "length json_data < 2 ^ 32"
  shows "sl_size (reply_slice q json_data) = XHEAD_SIZE + length json_data"
    and "length (sl_data (reply_slice q json_data)) = XHEAD_SIZE + min 4095 (length json_data) + 1"
    and "length json_data \<le> 4095 \<Longrightarrow> take (sl_size (reply_slice q json_data)) (sl_data (reply_slice q json_data)) = reply_bytes q json_data"
  using assms by (simp_all add: reply_slice_def reply_bytes_def XHEAD_SIZE_def MAX_RES_BUF_def unat_of_nat take_bit_nat_eq_self)

lemma length_reply_bytes: "XHEAD_SIZE \<le> length q \<Longrightarrow> length (reply_bytes q json_data) = XHEAD_SIZE + length json_data"
  by (simp add: reply_bytes_def XHEAD_SIZE_def)

definition replying :: "nat \<Rightarrow> tcp_connection \<Rightarrow> bytes \<Rightarrow> signaling_worker \<Rightarrow> bool" where
  "replying a c json_data w \<longleftrightarrow> sw_heap w a = Some c \<and> XHEAD_SIZE \<le> length (tcn_querybuf c) \<and> length json_data < 2 ^ 32 \<and>
     tcn_reply_list c = [reply_slice (tcn_querybuf c) json_data] \<and> tcn_cur_resp_pos c = 0"

lemma write_done:
  "sw_heap w a = Some c \<Longrightarrow> tcn_reply_list c = [] \<Longrightarrow> write_loop rs a w = Inr (sw_set_conn a (c\<lparr> tcn_watch_write := False \<rparr>) w)"
  by (simp add: write_loop.simps [of rs])

lemma write_round:
  assumes "sw_heap w a = Some c" "tcn_reply_list c = reply # replies" "sl_size reply \<le> length (sl_data reply)" "0 < n"
  shows "write_loop (Sys_ok n # rs) a w =
    (let w1 = w\<lparr> sw_written := sw_written w @ [(tcn_fd c, take n (take (sl_size reply) (sl_data reply)))] \<rparr>
     in if n + tcn_cur_resp_pos c \<ge> sl_size reply
        then write_loop rs a (sw_set_conn a (c\<lparr> tcn_reply_list := replies, tcn_cur_resp_pos := 0 \<rparr>) w1)
        else write_loop rs a (sw_set_conn a (c\<lparr> tcn_cur_resp_pos := tcn_cur_resp_pos c + n \<rparr>) w1))"
  using assms by (simp add: write_loop.simps [of "Sys_ok n # rs"] sock_write_data_def Let_def)

text \<open>
  C39: What reaches the client of a reply.  A reply whose JSON text has at most 4095 bytes and that the
  socket accepts in one write arrives as it should: the header of the request with the new body
  length, then the text.  If the socket accepts only a part, the next write starts again at the first
  byte of the reply (the position kept in \<^verbatim>\<open>cur_resp_pos\<close> is not used for the data), so the client gets
  a prefix, then the beginning again.  A text of more than 4096 bytes is cut by \<^verbatim>\<open>snprintf\<close> but not in
  the announced length, and the write reads past the end of the buffer.
\<close>

theorem reply_on_the_wire:
  assumes "replying a c json_data w"
  shows "if length json_data \<le> 4095 then
      let R = reply_bytes (tcn_querybuf c) json_data in
      (\<exists>w'. write_loop [Sys_ok (length R)] a w = Inr w' \<and> sw_written w' = sw_written w @ [(tcn_fd c, R)]) \<and>
      (\<forall>n1 n2. 0 < n1 \<and> n1 < length R \<and> 0 < n2 \<and> length R \<le> n1 + n2 \<longrightarrow>
        (\<exists>w'. write_loop [Sys_ok n1, Sys_ok n2] a w = Inr w' \<and>
          sw_written w' = sw_written w @ [(tcn_fd c, take n1 R), (tcn_fd c, take n2 R)]))
    else if 4096 < length json_data then write_loop rs a w = Inl Out_of_bounds
    else True"
proof -
  define R where "R = reply_bytes (tcn_querybuf c) json_data"
  let ?s = "reply_slice (tcn_querybuf c) json_data"
  have c: "sw_heap w a = Some c" "tcn_reply_list c = [?s]" "tcn_cur_resp_pos c = 0" "XHEAD_SIZE \<le> length (tcn_querybuf c)" "length json_data < 2 ^ 32"
    using assms by (simp_all add: replying_def)
  note sl = reply_slice_sel [OF c(4,5)]
  have R: "length R = sl_size ?s" "0 < length R" using length_reply_bytes [OF c(4)] by (simp_all add: R_def sl XHEAD_SIZE_def)
  consider "length json_data \<le> 4095" | "length json_data = 4096" | "4096 < length json_data" by linarith
  then show ?thesis
  proof cases
    case 1
    have fit: "sl_size ?s \<le> length (sl_data ?s)" using sl 1 by simp
    have data: "take (sl_size ?s) (sl_data ?s) = R" using sl(3) [OF 1] by (simp add: R_def)
    have round: "write_loop (Sys_ok n # rs) a w = (let w1 = w\<lparr> sw_written := sw_written w @ [(tcn_fd c, take n R)] \<rparr> in
        if length R \<le> n then write_loop rs a (sw_set_conn a (c\<lparr> tcn_reply_list := [], tcn_cur_resp_pos := 0 \<rparr>) w1)
        else write_loop rs a (sw_set_conn a (c\<lparr> tcn_cur_resp_pos := n \<rparr>) w1))" if "0 < n" for n rs
      using write_round [OF c(1,2) fit that, of rs] c(3) by (simp add: data R(1) Let_def)
    have "write_loop [Sys_ok n1, Sys_ok n2] a w = Inr (sw_set_conn a (c\<lparr> tcn_reply_list := [], tcn_cur_resp_pos := 0, tcn_watch_write := False \<rparr>)
        (w\<lparr> sw_written := sw_written w @ [(tcn_fd c, take n1 R), (tcn_fd c, take n2 R)] \<rparr>))"
      if "0 < n1" "n1 < length R" "0 < n2" "length R \<le> n1 + n2" for n1 n2
    proof -
      let ?c = "c\<lparr> tcn_cur_resp_pos := n1 \<rparr>" and ?w = "w\<lparr> sw_written := sw_written w @ [(tcn_fd c, take n1 R)] \<rparr>"
      have "write_loop [Sys_ok n2] a (sw_set_conn a ?c ?w) =
          write_loop [] a (sw_set_conn a (c\<lparr> tcn_reply_list := [], tcn_cur_resp_pos := 0 \<rparr>) (?w\<lparr> sw_written := sw_written ?w @ [(tcn_fd c, take n2 R)] \<rparr>))"
        using write_round [of "sw_set_conn a ?c ?w" a ?c ?s "[]" n2 "[]"] c(2) fit that(3,4) R(1)
        by (simp add: data Let_def add.commute) (simp add: sw_set_conn_def)
      then show ?thesis using round [OF that(1), of "[Sys_ok n2]"] that(2) by (simp add: Let_def write_done)
    qed
    moreover have "write_loop [Sys_ok (length R)] a w = Inr (sw_set_conn a (c\<lparr> tcn_reply_list := [], tcn_cur_resp_pos := 0, tcn_watch_write := False \<rparr>)
        (w\<lparr> sw_written := sw_written w @ [(tcn_fd c, R)] \<rparr>))"
      using round [OF R(2), of "[]"] by (simp add: write_done)
    ultimately show ?thesis using 1 by (simp add: R_def [symmetric] sw_set_conn_def)
  next
    case 2
    then show ?thesis by simp
  next
    case 3
    then show ?thesis using c sl by (simp add: write_loop.simps [of rs])
  qed
qed

text \<open>A reply of 37 bytes of text taken in two parts of 40 bytes.\<close>

theorem reply_on_the_wire_witness:
  "\<exists>c w w'. sw_heap w 100 = Some c \<and> tcn_reply_list c = [reply_slice ex_request ex_body] \<and>
     write_loop [Sys_ok 40, Sys_ok 40] 100 w = Inr w' \<and>
     map snd (sw_written w') = [take 40 (reply_bytes ex_request ex_body), take 40 (reply_bytes ex_request ex_body)]"
proof -
  define c where "c = (TcpConnection_new 6)\<lparr> tcn_querybuf := ex_request, tcn_reply_list := [reply_slice ex_request ex_body] \<rparr>"
  define w where "w = sw_set_conn 100 c ex_worker"
  have r: "replying 100 c ex_body w"
    by (simp add: replying_def w_def c_def ex_request_length ex_body_length XHEAD_SIZE_def TcpConnection_new_def)
  have "sw_written w = []" by (simp add: w_def sw_set_conn_def ex_worker_def sw_new_conn_def SignalingWorker_new_def split: prod.splits)
  moreover have "length (reply_bytes ex_request ex_body) = 73" "tcn_querybuf c = ex_request" "tcn_reply_list c = [reply_slice ex_request ex_body]"
    by (simp_all add: length_reply_bytes ex_request_length ex_body_length XHEAD_SIZE_def c_def)
  moreover from this have "\<forall>n1 n2. 0 < n1 \<and> n1 < 73 \<and> 0 < n2 \<and> 73 \<le> n1 + n2 \<longrightarrow> (\<exists>w'. write_loop [Sys_ok n1, Sys_ok n2] 100 w = Inr w' \<and>
      sw_written w' = sw_written w @ [(tcn_fd c, take n1 (reply_bytes ex_request ex_body)), (tcn_fd c, take n2 (reply_bytes ex_request ex_body))])"
    using reply_on_the_wire [OF r] by (auto simp: ex_body_length Let_def)
  from this [rule_format, of 40 40] obtain w' where "write_loop [Sys_ok 40, Sys_ok 40] 100 w = Inr w'"
      "sw_written w' = sw_written w @ [(tcn_fd c, take 40 (reply_bytes ex_request ex_body)), (tcn_fd c, take 40 (reply_bytes ex_request ex_body))]"
    by auto
  ultimately have "write_loop [Sys_ok 40, Sys_ok 40] 100 w = Inr w'"
      "map snd (sw_written w') = [take 40 (reply_bytes ex_request ex_body), take 40 (reply_bytes ex_request ex_body)]"
    by simp_all
  moreover have "sw_heap w 100 = Some c" by (simp add: w_def)
  ultimately show ?thesis using \<open>tcn_reply_list c = _\<close> by metis
qed

text \<open>A connection that has sent nothing yet has \<^verbatim>\<open>last_interaction = 0\<close>: the first tick of its timer, after
  100 ms, closes it, whatever the configured timeout (as long as the clock is past it).\<close>

lemma silent_connection_closed:
  assumes "0 < fd" "word_of_int (sw_connection_timeout w) \<le> now" "sw_process_timeout now a (sw_new_conn a peer fd w) = r"
  shows "\<exists>w'. r = Inr w' \<and> sw_heap w' a = None \<and> sw_closed w' = sw_closed w @ [fd]"
  using assms
  by (auto simp: sw_process_timeout_def sw_new_conn_def TcpConnection_new_def sw_close_conn_def sw_remove_conn_def sw_deref_def
    Let_def split: prod.splits if_splits)

end
