(* ===== verification/Sdp_Text.thy ===== *)
theory Sdp_Text
  imports Sdp_Parser
begin

text \<open>
  The text level of the SDP: how lines split into fields, which lines carry a key the parser looks
  for, and that every line the printer adds beside the keyed ones leaves the parser's state alone.
\<close>

subsection \<open>Splitting\<close>

fun fields :: "byte \<Rightarrow> bytes \<Rightarrow> bytes list" where
  "fields d [] = [[]]"
| "fields d (c # cs) = (if c = d then [] # fields d cs else (case fields d cs of [] \<Rightarrow> [[c]] | f # fs \<Rightarrow> (c # f) # fs))"

text \<open>
  The documented behaviour of the string functions: \<^verbatim>\<open>split\<close> keeps empty fields, \<^verbatim>\<open>tokenize\<close> drops them,
  \<^verbatim>\<open>tokenize_first\<close> cuts at the first run of delimiters, \<^verbatim>\<open>FromString\<close> reads what was printed, and the
  text of a certificate's fingerprint is read back.
\<close>

locale sdp_library =
  fixes S :: sdp_lib
  assumes tokenize: "rtc_tokenize S s d = filter (\<lambda>f. f \<noteq> []) (fields d s)"
    and split: "rtc_split S s d = fields d s"
    and tokenize_first: "d \<notin> set a \<Longrightarrow> rtc_tokenize_first S (a @ d # b) d = Some (a, dropWhile (\<lambda>c. c = d) b)"
    and from_string: "rtc_from_string S (dec (unat v)) = Some v"
    and fingerprint: "fingerprint_from_certificate S c = Some fp \<Longrightarrow>
      rfc4572_fingerprint S fp \<noteq> [] \<and> 32 \<notin> set (fp_algorithm fp @ rfc4572_fingerprint S fp) \<and>
      10 \<notin> set (fp_algorithm fp @ rfc4572_fingerprint S fp) \<and> 61 \<notin> set (fp_algorithm fp @ rfc4572_fingerprint S fp) \<and>
      to_lower (fp_algorithm fp) = fp_algorithm fp \<and>
      fingerprint_from_rfc4572 S (fp_algorithm fp) (rfc4572_fingerprint S fp) = Some fp"

lemma fields_nonempty [simp]: "fields d s \<noteq> []"
  by (cases s) (auto split: list.split)

lemma fields_no_delim: "d \<notin> set s \<Longrightarrow> fields d s = [s]"
  by (induction s) auto

lemma fields_append: "d \<notin> set a \<Longrightarrow> fields d (a @ d # b) = a # fields d b"
  by (induction a) auto

lemma fields_lines:
  "list_all (\<lambda>l. 10 \<notin> set l) ls \<Longrightarrow> fields 10 (concat (map (\<lambda>l. l @ crlf) ls)) = map (\<lambda>l. l @ [13]) ls @ [[]]"
proof (induction ls)
  case Nil
  then show ?case by simp
next
  case (Cons l ls)
  have "fields 10 ((l @ [13]) @ 10 # concat (map (\<lambda>l. l @ crlf) ls)) = (l @ [13]) # fields 10 (concat (map (\<lambda>l. l @ crlf) ls))"
    by (rule fields_append) (use Cons.prems in auto)
  then show ?case using Cons by (simp add: crlf_def)
qed

lemma fields_joined:
  "list_all (\<lambda>f. d \<notin> set f) (f # fs) \<Longrightarrow> fields d (f @ concat (map (\<lambda>g. d # g) fs)) = f # fs"
proof (induction fs arbitrary: f)
  case Nil
  then show ?case by (simp add: fields_no_delim)
next
  case (Cons g fs)
  then show ?case using fields_append [of d f "g @ concat (map (\<lambda>g. d # g) fs)"] by simp
qed

subsection \<open>Looking for keys\<close>

text \<open>Every key the parser looks for has its only equals sign as second character, so a line with
  one equals sign in second place matches only at its start.\<close>

lemma contains_short: "length s < length pat \<Longrightarrow> \<not> contains pat s"
  by (induction s) auto

lemma contains_no_byte: "b \<in> set pat \<Longrightarrow> b \<notin> set s \<Longrightarrow> \<not> contains pat s"
proof (induction s)
  case Nil
  then show ?case by auto
next
  case (Cons c s)
  have "take (length pat) (c # s) \<noteq> pat" using Cons.prems by (metis in_set_takeD)
  then show ?case using Cons by simp
qed

lemma contains_key:
  assumes "61 \<notin> set rest" "c \<noteq> 61"
  shows "contains (k # 61 # ks) (c # 61 # rest) \<longleftrightarrow> k = c \<and> take (length ks) rest = ks"
proof -
  have "\<not> contains (k # 61 # ks) rest" using assms(1) by (intro contains_no_byte [of 61]) auto
  moreover have "take (length (k # 61 # ks)) (61 # rest) \<noteq> k # 61 # ks"
    using assms(1) by (cases rest) auto
  ultimately show ?thesis by auto
qed

lemma contains_crlf: "contains crlf (l @ crlf @ rest)"
  by (induction l) (simp_all add: crlf_def)

subsection \<open>Printed numbers\<close>

lemma dec_digits: "b \<in> set (dec n) \<Longrightarrow> 48 \<le> b \<and> b \<le> 57"
proof (induction n rule: dec.induct)
  case (1 n)
  have digit: "48 \<le> (48 + of_nat k :: byte) \<and> (48 + of_nat k :: byte) \<le> 57" if "k < 10" for k
  proof -
    from that have "k \<in> {0, 1, 2, 3, 4, 5, 6, 7, 8, 9}" by auto
    then show ?thesis by auto
  qed
  show ?case
  proof (cases "n < 10")
    case True
    then show ?thesis using 1(2) digit by (simp add: dec.simps)
  next
    case False
    then show ?thesis using 1 digit [of "n mod 10"] by (subst (asm) (2) dec.simps) auto
  qed
qed

lemma dec_nonempty [simp]: "dec n \<noteq> []"
  by (subst dec.simps) simp

lemma dec_not [simp]: "10 \<notin> set (dec n)" "13 \<notin> set (dec n)" "32 \<notin> set (dec n)" "58 \<notin> set (dec n)" "61 \<notin> set (dec n)"
  using dec_digits by fastforce+


subsection \<open>Lines that carry no key\<close>

definition plain :: "bytes \<Rightarrow> bool" where
  "plain s = list_all (\<lambda>b. b \<noteq> 10 \<and> b \<noteq> 13 \<and> b \<noteq> 32 \<and> b \<noteq> 58 \<and> b \<noteq> 61) s"

definition keys :: "string list" where
  "keys = [''a=group:BUNDLE'', ''m='', ''a=ice-ufrag'', ''a=ice-pwd'', ''a=fingerprint'', ''a=ssrc-group:'', ''a=ssrc:'']"

definition keyless :: "bytes \<Rightarrow> bool" where
  "keyless l = (10 \<notin> set l \<and> l \<noteq> [] \<and> list_all (\<lambda>k. \<not> contains (bytes_of k) l) keys)"

lemma plain_not [simp]: "plain s \<Longrightarrow> 10 \<notin> set s" "plain s \<Longrightarrow> 13 \<notin> set s" "plain s \<Longrightarrow> 32 \<notin> set s"
  "plain s \<Longrightarrow> 58 \<notin> set s" "plain s \<Longrightarrow> 61 \<notin> set s"
  by (auto simp: plain_def list_all_iff)

lemma bytes_of_Cons [simp]: "bytes_of (c # s) = of_char c # bytes_of s" "bytes_of [] = []"
  by (simp_all add: bytes_of_def)

lemma a_line_contains:
  assumes "61 \<notin> set rest"
  shows "contains (97 # 61 # ks) (97 # 61 # rest) \<longleftrightarrow> take (length ks) rest = ks"
    and "contains [109, 61] (97 # 61 # rest) = False"
  using contains_key [OF assms, of 97 97 ks] contains_key [OF assms, of 97 109 "[]"] by auto

lemma keyless_a:
  assumes "61 \<notin> set rest" "10 \<notin> set rest"
    "list_all (\<lambda>k. take (length k) rest \<noteq> bytes_of k)
      [''group:BUNDLE'', ''ice-ufrag'', ''ice-pwd'', ''fingerprint'', ''ssrc-group:'', ''ssrc:'']"
  shows "keyless (97 # 61 # rest)"
  using assms by (simp add: keyless_def keys_def a_line_contains del: contains.simps)

lemma contains_Cons: "contains (k # ks) (c # cs) \<longleftrightarrow> k = c \<and> take (length ks) cs = ks \<or> contains (k # ks) cs"
  "contains (k # ks) [] = False"
  by auto

lemma keyless_parse:
  assumes "keyless l"
  shows "parse_line S l pa = Inr (Go pa)"
proof -
  note k = assms [unfolded keyless_def keys_def, simplified]
  have "parse_transport_info S l td = Inr (Some td)" for td
    using k by (simp add: parse_transport_info_def)
  moreover have "parse_ssrc_info S l infos = Inr (Some infos)" for infos
    using k by (simp add: parse_ssrc_info_def)
  moreover have "parse_ssrc_group_info S l gs = Inr (Some gs)" for gs
    using k by (simp add: parse_ssrc_group_info_def)
  moreover have "parse_session_line S l pa = Inr (Go pa)"
    using k by (simp add: parse_session_line_def)
  ultimately show ?thesis by (simp add: parse_line_def parse_audio_line_def parse_video_line_def)
qed

lemma parse_lines_append:
  "parse_lines S (ls @ ls') pa = res_bind (parse_lines S ls pa) (\<lambda>st. case st of
     Stop pa1 \<Rightarrow> Inr (Stop pa1) | Go pa1 \<Rightarrow> parse_lines S ls' pa1)"
proof (induction ls arbitrary: pa)
  case (Cons l ls)
  then show ?case by (cases "parse_line S l pa") (auto split: parse_step.split)
qed simp

lemma keyless_lines: "list_all keyless ls \<Longrightarrow> parse_lines S (ls @ ls') pa = parse_lines S ls' pa"
  by (induction ls) (simp_all add: keyless_parse)

lemma keyless_lines_end: "list_all keyless ls \<Longrightarrow> parse_lines S ls pa = Inr (Go pa)"
  using keyless_lines [of ls S "[]"] by simp

subsection \<open>The keyless lines of a content\<close>

definition candidate_ok :: "sdp_lib \<Rightarrow> candidate \<Rightarrow> bool" where
  "candidate_ok S c = list_all (\<lambda>s. 10 \<notin> set s \<and> 61 \<notin> set s) [c_foundation c, c_protocol c, ip_to_string S (c_address c), c_type c]"

lemma keyless_candidates: "list_all (candidate_ok S) (mc_candidates c) \<Longrightarrow> list_all keyless (build_candidate S c)"
  unfolding build_candidate_def list_all_iff by (auto intro!: keyless_a simp: candidate_ok_def)

lemma keyless_constants:
  "keyless (bytes_of ''c=IN IP4 0.0.0.0'')" "keyless (bytes_of ''a=rtcp:9 IN IP4 0.0.0.0'')" "keyless (bytes_of ''a=rtcp-mux'')"
  "keyless (bytes_of ''a=extmap:12 http://www.webrtc.org/experiments/rtp-hdrext/abs-capture-time'')"
  "keyless (bytes_of ''v=0'')" "keyless (bytes_of ''o=- 0 2 IN IP4 127.0.0.0'')" "keyless (bytes_of ''s=-'')"
  "keyless (bytes_of ''t=0 0'')" "keyless (bytes_of ''a=msid-semantic: WMS'')"
  by (simp_all add: keyless_def keys_def contains_Cons del: contains.simps)

lemma keyless_direction: "list_all keyless (build_rtp_direction c)"
proof -
  have "keyless (bytes_of ''a=sendrecv'')" "keyless (bytes_of ''a=recvonly'')" "keyless (bytes_of ''a=sendonly'')"
    "keyless (bytes_of ''a=inactive'')"
    by (simp_all add: keyless_def keys_def contains_Cons del: contains.simps)
  then show ?thesis by (simp add: build_rtp_direction_def del: bytes_of_Cons split: rtp_direction.split)
qed

lemma keyless_setup: "keyless (bytes_of ''a=setup:'' @ connection_role_to_string r)"
  by (cases r) (auto intro!: keyless_a simp: connection_role_to_string_def)

lemma keyless_mid: "keyless (bytes_of ''a=mid:'' @ mc_mid c)"
  by (cases "mc_type c") (auto intro!: keyless_a simp: mc_mid_def)

text \<open>The codecs are those the constructors put there; no other code adds one.\<close>

definition constructed :: "media_content \<Rightarrow> bool" where
  "constructed c = (mc_codecs c = mc_codecs (case mc_type c of MEDIA_TYPE_AUDIO \<Rightarrow> AudioContentDescription
     | MEDIA_TYPE_VIDEO \<Rightarrow> VideoContentDescription))"

definition rtp_map_of :: "media_type \<Rightarrow> bytes list res" where
  "rtp_map_of ty = build_rtp_map (case ty of MEDIA_TYPE_AUDIO \<Rightarrow> AudioContentDescription | MEDIA_TYPE_VIDEO \<Rightarrow> VideoContentDescription)"

lemma rtp_map_of: "constructed c \<Longrightarrow> build_rtp_map c = rtp_map_of (mc_type c)"
  by (cases "mc_type c")
    (simp_all add: constructed_def rtp_map_of_def build_rtp_map_def AudioContentDescription_def VideoContentDescription_def content_of_def)

lemma dec_numeral: "dec (numeral k) = (if numeral k < (10::nat) then [48 + of_nat (numeral k)]
  else dec (numeral k div 10) @ [48 + of_nat (numeral k mod 10)])"
  by (rule dec.simps)

lemma dec_0_1: "dec 0 = [48]" "dec (Suc 0) = [49]"
  by (simp_all add: dec.simps)

lemma rtp_map_keyless: "\<exists>ls. rtp_map_of ty = Inr ls \<and> list_all keyless ls"
  by (cases ty) (simp_all add: rtp_map_of_def build_rtp_map_def AudioContentDescription_def VideoContentDescription_def
    content_of_def CodecInfo_def FeedBackParam_def add_rtcp_fb_line_def add_fmtp_line_def dec_int_def dec_numeral dec_0_1
    keyless_def keys_def contains_Cons del: contains.simps)

lemma content_rtp_map:
  assumes "constructed c"
  obtains ls where "build_rtp_map c = Inr ls" "list_all keyless ls"
  using rtp_map_keyless [of "mc_type c"] rtp_map_of [OF assms] by auto

subsection \<open>A concrete string library\<close>

fun ref_tokenize_first :: "bytes \<Rightarrow> byte \<Rightarrow> (bytes \<times> bytes) option" where
  "ref_tokenize_first [] d = None"
| "ref_tokenize_first (c # cs) d = (if c = d then Some ([], dropWhile (\<lambda>x. x = d) cs)
     else map_option (\<lambda>(a, b). (c # a, b)) (ref_tokenize_first cs d))"

definition undec :: "bytes \<Rightarrow> nat" where
  "undec s = foldl (\<lambda>n d. 10 * n + (unat d - 48)) 0 s"

definition ref_from_string :: "bytes \<Rightarrow> u32 option" where
  "ref_from_string s = (if s \<noteq> [] \<and> list_all (\<lambda>d. 48 \<le> d \<and> d \<le> 57) s \<and> undec s < 2 ^ 32 then Some (of_nat (undec s)) else None)"

definition hex_digit :: "nat \<Rightarrow> byte" where
  "hex_digit n = (if n < 10 then of_nat (48 + n) else of_nat (55 + n))"

definition hex_value :: "byte \<Rightarrow> nat option" where
  "hex_value b = (if 48 \<le> b \<and> b \<le> 57 then Some (unat b - 48) else if 65 \<le> b \<and> b \<le> 70 then Some (unat b - 55) else None)"

definition hex_byte :: "byte \<Rightarrow> bytes" where
  "hex_byte b = [hex_digit (unat b div 16), hex_digit (unat b mod 16)]"

definition unhex_byte :: "bytes \<Rightarrow> byte option" where
  "unhex_byte s = (case s of [a, b] \<Rightarrow> (case (hex_value a, hex_value b) of (Some x, Some y) \<Rightarrow> Some (of_nat (16 * x + y)) | _ \<Rightarrow> None) | _ \<Rightarrow> None)"

fun join_colon :: "bytes list \<Rightarrow> bytes" where
  "join_colon [] = []"
| "join_colon (f # fs) = f @ concat (map (\<lambda>g. 58 # g) fs)"

definition ref_from_rfc4572 :: "bytes \<Rightarrow> bytes \<Rightarrow> fingerprint option" where
  "ref_from_rfc4572 alg t = (if alg = bytes_of ''sha-256'' \<and> list_all (\<lambda>f. unhex_byte f \<noteq> None) (fields 58 t)
     then Some \<lparr> fp_algorithm = alg, fp_digest = map (\<lambda>f. the (unhex_byte f)) (fields 58 t) \<rparr> else None)"

text \<open>Certificate \<open>n\<close> has the digest of 32 bytes \<open>n\<close>.\<close>

definition sdp_ref :: sdp_lib where
  "sdp_ref = \<lparr> rtc_tokenize = (\<lambda>s d. filter (\<lambda>f. f \<noteq> []) (fields d s)), rtc_split = (\<lambda>s d. fields d s),
     rtc_tokenize_first = ref_tokenize_first, rtc_from_string = ref_from_string,
     fingerprint_from_rfc4572 = ref_from_rfc4572,
     fingerprint_from_certificate = (\<lambda>n. Some \<lparr> fp_algorithm = bytes_of ''sha-256'', fp_digest = replicate 32 (of_nat n) \<rparr>),
     rfc4572_fingerprint = (\<lambda>fp. join_colon (map hex_byte (fp_digest fp))), ip_to_string = (\<lambda>a. bytes_of ''127.0.0.1'') \<rparr>"

lemma ref_tokenize_first: "d \<notin> set a \<Longrightarrow> ref_tokenize_first (a @ d # b) d = Some (a, dropWhile (\<lambda>c. c = d) b)"
  by (induction a) auto

lemma unat_bound: "unat (b :: 'a::len word) < 2 ^ LENGTH('a)"
  by (rule unsigned_less)

lemma digit_value: "n < 10 \<Longrightarrow> unat (48 + of_nat n :: byte) = 48 + n"
proof -
  assume "n < 10"
  then have "n \<in> {0, 1, 2, 3, 4, 5, 6, 7, 8, 9}" by auto
  then show ?thesis by auto
qed

lemma undec_dec: "undec (dec n) = n"
proof (induction n rule: dec.induct)
  case (1 n)
  show ?case
  proof (cases "n < 10")
    case True
    then show ?thesis using digit_value [of n] by (simp add: dec.simps [of n] undec_def)
  next
    case False
    then have "undec (dec n) = 10 * undec (dec (n div 10)) + n mod 10"
      using digit_value [of "n mod 10"] by (subst dec.simps) (simp add: undec_def)
    then show ?thesis using 1 False by simp
  qed
qed

lemma ref_from_string: "ref_from_string (dec (unat (v :: u32))) = Some v"
  using dec_digits [of _ "unat v"] unat_bound [of v] by (auto simp: ref_from_string_def undec_dec list_all_iff)

lemma hex_table: "list_all (\<lambda>n. hex_value (hex_digit n) = Some n \<and> hex_digit n \<noteq> 10 \<and> hex_digit n \<noteq> 32 \<and> hex_digit n \<noteq> 58 \<and>
  hex_digit n \<noteq> 61) [0..<16]"
  by code_simp

lemma hex_digits: "n < 16 \<Longrightarrow> hex_value (hex_digit n) = Some n \<and> hex_digit n \<notin> {10, 32, 58, 61}"
  using hex_table by (simp only: list_all_iff) auto

lemma hex_nibbles: "unat (b :: byte) div 16 < 16" "unat (b :: byte) mod 16 < 16"
  using unat_bound [of b] by auto

lemma unhex_byte: "unhex_byte (hex_byte b) = Some b"
  using hex_digits [OF hex_nibbles(1) [of b]] hex_digits [OF hex_nibbles(2) [of b]] by (simp add: unhex_byte_def hex_byte_def)

lemma hex_bytes_plain: "set (join_colon (map hex_byte bs)) \<inter> {10, 32, 61} = {}"
  using hex_digits [OF hex_nibbles(1)] hex_digits [OF hex_nibbles(2)] by (cases bs) (auto simp: hex_byte_def)

lemma hex_bytes_fields: "bs \<noteq> [] \<Longrightarrow> fields 58 (join_colon (map hex_byte bs)) = map hex_byte bs"
proof (cases bs)
  case (Cons b bs')
  have "list_all (\<lambda>f. 58 \<notin> set f) (hex_byte b # map hex_byte bs')"
    using hex_digits [OF hex_nibbles(1)] hex_digits [OF hex_nibbles(2)] by (auto simp: hex_byte_def list_all_iff)
  then show ?thesis using fields_joined [of 58 "hex_byte b" "map hex_byte bs'"] Cons by simp
qed simp

lemma ref_fingerprint:
  assumes "bs \<noteq> []"
  shows "ref_from_rfc4572 (bytes_of ''sha-256'') (join_colon (map hex_byte bs)) = Some \<lparr> fp_algorithm = bytes_of ''sha-256'', fp_digest = bs \<rparr>"
  by (simp add: ref_from_rfc4572_def hex_bytes_fields [OF assms] unhex_byte list_all_iff comp_def)

interpretation sdp_std: sdp_library sdp_ref
proof
  fix c fp
  assume c: "fingerprint_from_certificate sdp_ref c = Some fp"
  define bs :: bytes where "bs = replicate 32 (of_nat c)"
  define fp_txt where "fp_txt = join_colon (map hex_byte bs)"
  have fp: "fp = \<lparr> fp_algorithm = bytes_of ''sha-256'', fp_digest = bs \<rparr>" using c by (simp add: sdp_ref_def bs_def)
  have ne: "bs \<noteq> []" by (simp add: bs_def)
  then have "fp_txt \<noteq> []" by (cases bs) (simp_all add: fp_txt_def hex_byte_def)
  moreover have "ref_from_rfc4572 (bytes_of ''sha-256'') fp_txt = Some fp" using ref_fingerprint [OF ne] fp by (simp add: fp_txt_def)
  moreover have "to_lower (bytes_of ''sha-256'') = bytes_of ''sha-256''" by (simp add: to_lower_def)
  moreover have "10 \<notin> set fp_txt" "32 \<notin> set fp_txt" "61 \<notin> set fp_txt" using hex_bytes_plain [of bs] by (auto simp: fp_txt_def)
  moreover have "rfc4572_fingerprint sdp_ref fp = fp_txt" "fp_algorithm fp = bytes_of ''sha-256''"
    "fingerprint_from_rfc4572 sdp_ref = ref_from_rfc4572" using fp by (simp_all add: sdp_ref_def fp_txt_def)
  ultimately show "rfc4572_fingerprint sdp_ref fp \<noteq> [] \<and> 32 \<notin> set (fp_algorithm fp @ rfc4572_fingerprint sdp_ref fp) \<and>
      10 \<notin> set (fp_algorithm fp @ rfc4572_fingerprint sdp_ref fp) \<and> 61 \<notin> set (fp_algorithm fp @ rfc4572_fingerprint sdp_ref fp) \<and>
      to_lower (fp_algorithm fp) = fp_algorithm fp \<and>
      fingerprint_from_rfc4572 sdp_ref (fp_algorithm fp) (rfc4572_fingerprint sdp_ref fp) = Some fp"
    by simp
qed (simp_all add: sdp_ref_def ref_tokenize_first ref_from_string)

end
