(* ===== verification/Json_Lexer.thy ===== *)
theory Json_Lexer
  imports Sdp_Text Signaling_Message
begin

text \<open>
  The lexical analysis of the vendored JSON library (class \<^verbatim>\<open>lexer\<close> of \<^verbatim>\<open>src/base/json.hpp\<close>), as \<^verbatim>\<open>json::parse\<close> uses it:
  comments are not ignored and the locale is \<^verbatim>\<open>"C"\<close>, since the program never sets one.

  The lexer is the input not read yet.  \<^verbatim>\<open>get\<close> takes the next byte, or end-of-file for ever at the end;
  \<^verbatim>\<open>unget\<close>, which makes the next \<^verbatim>\<open>get\<close> return the current byte again, is to go on with the input as it was before
  the \<^verbatim>\<open>get\<close>.  A token carries the value that the lexer keeps for it.  Positions and error texts only appear in
  the message of an exception and are left out.
\<close>

subsection \<open>Tokens\<close>

text \<open>\<open>value_float None\<close>: the number is too large for a double.\<close>

datatype token =
    literal_true | literal_false | literal_null
  | value_string bytes
  | value_unsigned u64
  | value_integer int
  | value_float "(int \<times> int) option"
  | begin_array | begin_object | end_array | end_object
  | name_separator | value_separator
  | parse_error_token
  | end_of_input

definition lex_get :: "bytes \<Rightarrow> byte option \<times> bytes" where
  "lex_get s = (case s of [] \<Rightarrow> (None, []) | c # cs \<Rightarrow> (Some c, cs))"

lemma lex_get_simps [simp]: "lex_get [] = (None, [])" "lex_get (c # s) = (Some c, s)"
  by (simp_all add: lex_get_def)

subsection \<open>Strings\<close>

definition hex_value :: "byte option \<Rightarrow> nat option" where
  "hex_value oc = (case oc of
     None \<Rightarrow> None
   | Some c \<Rightarrow> if 48 \<le> c \<and> c \<le> 57 then Some (unat c - 48)
       else if 65 \<le> c \<and> c \<le> 70 then Some (unat c - 55)
       else if 97 \<le> c \<and> c \<le> 102 then Some (unat c - 87)
       else None)"

fun codepoint_loop :: "nat list \<Rightarrow> nat \<Rightarrow> bytes \<Rightarrow> (nat \<times> bytes) option" where
  "codepoint_loop [] codepoint s = Some (codepoint, s)"
| "codepoint_loop (factor # factors) codepoint s =
     (case lex_get s of (c, s1) \<Rightarrow> (case hex_value c of
        None \<Rightarrow> None
      | Some v \<Rightarrow> codepoint_loop factors (codepoint + push_bit factor v) s1))"

definition get_codepoint :: "bytes \<Rightarrow> (nat \<times> bytes) option" where
  "get_codepoint s = codepoint_loop [12, 8, 4, 0] 0 s"

text \<open>The bytes of a code point.\<close>

definition utf8_encode :: "nat \<Rightarrow> bytes" where
  "utf8_encode cp =
     (if cp < 0x80 then [of_nat cp]
      else if cp \<le> 0x7FF then [of_nat (0xC0 OR drop_bit 6 cp), of_nat (0x80 OR (cp AND 0x3F))]
      else if cp \<le> 0xFFFF then
        [of_nat (0xE0 OR drop_bit 12 cp), of_nat (0x80 OR (drop_bit 6 cp AND 0x3F)), of_nat (0x80 OR (cp AND 0x3F))]
      else [of_nat (0xF0 OR drop_bit 18 cp), of_nat (0x80 OR (drop_bit 12 cp AND 0x3F)),
            of_nat (0x80 OR (drop_bit 6 cp AND 0x3F)), of_nat (0x80 OR (cp AND 0x3F))])"

text \<open>After \<^verbatim>\<open>\u\<close>: a code point, for which a high surrogate must be followed by the escape of a low one.\<close>

definition scan_unicode_escape :: "bytes \<Rightarrow> (bytes \<times> bytes) option" where
  "scan_unicode_escape s = (case get_codepoint s of
     None \<Rightarrow> None
   | Some (codepoint1, s1) \<Rightarrow>
       if 0xD800 \<le> codepoint1 \<and> codepoint1 \<le> 0xDBFF then
         (case lex_get s1 of (c, s2) \<Rightarrow> if c \<noteq> Some 0x5C then None
          else case lex_get s2 of (c, s3) \<Rightarrow> if c \<noteq> Some 0x75 then None
          else case get_codepoint s3 of
            None \<Rightarrow> None
          | Some (codepoint2, s4) \<Rightarrow>
              if 0xDC00 \<le> codepoint2 \<and> codepoint2 \<le> 0xDFFF
              then Some (utf8_encode (push_bit 10 codepoint1 + codepoint2 - 0x35FDC00), s4)
              else None)
       else if 0xDC00 \<le> codepoint1 \<and> codepoint1 \<le> 0xDFFF then None
       else Some (utf8_encode codepoint1, s1))"

text \<open>After a backslash.\<close>

definition scan_escape :: "bytes \<Rightarrow> (bytes \<times> bytes) option" where
  "scan_escape s = (case lex_get s of
     (None, _) \<Rightarrow> None
   | (Some c, s1) \<Rightarrow>
       if c = 0x22 then Some ([0x22], s1)
       else if c = 0x5C then Some ([0x5C], s1)
       else if c = 0x2F then Some ([0x2F], s1)
       else if c = 0x62 then Some ([0x08], s1)
       else if c = 0x66 then Some ([0x0C], s1)
       else if c = 0x6E then Some ([0x0A], s1)
       else if c = 0x72 then Some ([0x0D], s1)
       else if c = 0x74 then Some ([0x09], s1)
       else if c = 0x75 then scan_unicode_escape s1
       else None)"

text \<open>The ranges for the bytes that follow the first byte of a UTF-8 sequence; \<open>None\<close>: not a first byte.\<close>

definition utf8_ranges :: "byte \<Rightarrow> (byte \<times> byte) list option" where
  "utf8_ranges c =
     (if 0xC2 \<le> c \<and> c \<le> 0xDF then Some [(0x80, 0xBF)]
      else if c = 0xE0 then Some [(0xA0, 0xBF), (0x80, 0xBF)]
      else if 0xE1 \<le> c \<and> c \<le> 0xEC \<or> c = 0xEE \<or> c = 0xEF then Some [(0x80, 0xBF), (0x80, 0xBF)]
      else if c = 0xED then Some [(0x80, 0x9F), (0x80, 0xBF)]
      else if c = 0xF0 then Some [(0x90, 0xBF), (0x80, 0xBF), (0x80, 0xBF)]
      else if 0xF1 \<le> c \<and> c \<le> 0xF3 then Some [(0x80, 0xBF), (0x80, 0xBF), (0x80, 0xBF)]
      else if c = 0xF4 then Some [(0x80, 0x8F), (0x80, 0xBF), (0x80, 0xBF)]
      else None)"

fun next_byte_in_range :: "(byte \<times> byte) list \<Rightarrow> bytes \<Rightarrow> bytes \<Rightarrow> (bytes \<times> bytes) option" where
  "next_byte_in_range [] buf s = Some (buf, s)"
| "next_byte_in_range ((lo, hi) # ranges) buf s =
     (case lex_get s of
        (None, _) \<Rightarrow> None
      | (Some c, s1) \<Rightarrow> if lo \<le> c \<and> c \<le> hi then next_byte_in_range ranges (buf @ [c]) s1 else None)"

text \<open>One round of the loop of \<^verbatim>\<open>scan_string\<close>: the closing quote, the bytes added to the token, or an error.\<close>

datatype string_item = S_end bytes | S_chars bytes bytes | S_error

definition string_item_of :: "(bytes \<times> bytes) option \<Rightarrow> string_item" where
  "string_item_of r = (case r of None \<Rightarrow> S_error | Some (cs, s) \<Rightarrow> S_chars cs s)"

definition scan_item :: "bytes \<Rightarrow> string_item" where
  "scan_item s = (case lex_get s of
     (None, _) \<Rightarrow> S_error
   | (Some c, s1) \<Rightarrow>
       if c = 0x22 then S_end s1
       else if c = 0x5C then string_item_of (scan_escape s1)
       else if c \<le> 0x1F then S_error
       else if c \<le> 0x7F then S_chars [c] s1
       else case utf8_ranges c of
         None \<Rightarrow> S_error
       | Some ranges \<Rightarrow> string_item_of (next_byte_in_range ranges [c] s1))"

lemma codepoint_loop_le: "codepoint_loop fs n s = Some (m, s1) \<Longrightarrow> length s1 \<le> length s"
proof (induction fs arbitrary: n s)
  case (Cons f fs)
  then show ?case
    by (cases s) (fastforce split: option.splits)+
qed simp

lemma next_byte_le: "next_byte_in_range rs buf s = Some (cs, s1) \<Longrightarrow> length s1 \<le> length s"
proof (induction rs arbitrary: buf s)
  case (Cons r rs)
  then show ?case
    by (cases s; cases r) (fastforce split: if_splits)+
qed simp

lemma unicode_escape_le: "scan_unicode_escape s = Some (cs, s1) \<Longrightarrow> length s1 \<le> length s"
  using codepoint_loop_le
  by (fastforce simp: scan_unicode_escape_def get_codepoint_def lex_get_def dest!: codepoint_loop_le
      split: option.splits if_splits list.splits)

lemma escape_less: "scan_escape s = Some (cs, s1) \<Longrightarrow> length s1 < length s"
  by (cases s) (auto simp: scan_escape_def split: if_splits dest: unicode_escape_le)

lemma scan_item_less: "scan_item s = S_chars cs s1 \<Longrightarrow> length s1 < length s" "scan_item s = S_end s1 \<Longrightarrow> length s1 < length s"
  by (cases s; auto simp: scan_item_def string_item_of_def split: if_splits option.splits dest: escape_less next_byte_le)+

text \<open>After the opening quote; \<open>buf\<close> is the token so far.\<close>

function scan_string :: "bytes \<Rightarrow> bytes \<Rightarrow> token \<times> bytes" where
  "scan_string buf s = (case scan_item s of
     S_end s1 \<Rightarrow> (value_string buf, s1)
   | S_chars cs s1 \<Rightarrow> scan_string (buf @ cs) s1
   | S_error \<Rightarrow> (parse_error_token, []))"
  by pat_completeness auto
termination
  by (relation "measure (\<lambda>(buf, s). length s)") (auto dest: scan_item_less)

declare scan_string.simps [simp del]

subsection \<open>Numbers\<close>

definition is_digit :: "byte \<Rightarrow> bool" where
  "is_digit c \<longleftrightarrow> 48 \<le> c \<and> c \<le> 57"

text \<open>The labels of \<^verbatim>\<open>scan_number\<close>, and where the \<^verbatim>\<open>switch\<close> at each of them goes for the byte that \<^verbatim>\<open>get\<close> returns.\<close>

datatype num_state =
    scan_number_minus | scan_number_zero | scan_number_any1 | scan_number_decimal1
  | scan_number_decimal2 | scan_number_exponent | scan_number_sign | scan_number_any2

datatype num_action = Goto num_state | Number_done | Number_error

fun num_step :: "num_state \<Rightarrow> byte option \<Rightarrow> num_action" where
  "num_step scan_number_minus (Some c) =
     (if c = 48 then Goto scan_number_zero else if is_digit c then Goto scan_number_any1 else Number_error)"
| "num_step scan_number_minus None = Number_error"
| "num_step scan_number_zero (Some c) =
     (if c = 0x2E then Goto scan_number_decimal1 else if c = 0x65 \<or> c = 0x45 then Goto scan_number_exponent else Number_done)"
| "num_step scan_number_zero None = Number_done"
| "num_step scan_number_any1 (Some c) =
     (if is_digit c then Goto scan_number_any1
      else if c = 0x2E then Goto scan_number_decimal1 else if c = 0x65 \<or> c = 0x45 then Goto scan_number_exponent else Number_done)"
| "num_step scan_number_any1 None = Number_done"
| "num_step scan_number_decimal1 (Some c) = (if is_digit c then Goto scan_number_decimal2 else Number_error)"
| "num_step scan_number_decimal1 None = Number_error"
| "num_step scan_number_decimal2 (Some c) =
     (if is_digit c then Goto scan_number_decimal2 else if c = 0x65 \<or> c = 0x45 then Goto scan_number_exponent else Number_done)"
| "num_step scan_number_decimal2 None = Number_done"
| "num_step scan_number_exponent (Some c) =
     (if c = 0x2B \<or> c = 0x2D then Goto scan_number_sign else if is_digit c then Goto scan_number_any2 else Number_error)"
| "num_step scan_number_exponent None = Number_error"
| "num_step scan_number_sign (Some c) = (if is_digit c then Goto scan_number_any2 else Number_error)"
| "num_step scan_number_sign None = Number_error"
| "num_step scan_number_any2 (Some c) = (if is_digit c then Goto scan_number_any2 else Number_done)"
| "num_step scan_number_any2 None = Number_done"

datatype num_type = Num_unsigned | Num_integer | Num_float

text \<open>The assignments to \<^verbatim>\<open>number_type\<close> after the labels.\<close>

fun num_type_at :: "num_state \<Rightarrow> num_type \<Rightarrow> num_type" where
  "num_type_at scan_number_minus _ = Num_integer"
| "num_type_at scan_number_decimal1 _ = Num_float"
| "num_type_at scan_number_exponent _ = Num_float"
| "num_type_at _ t = t"

text \<open>From a label to \<^verbatim>\<open>scan_number_done\<close>, where the last byte is put back.\<close>

fun num_loop :: "num_state \<Rightarrow> num_type \<Rightarrow> bytes \<Rightarrow> bytes \<Rightarrow> (num_type \<times> bytes \<times> bytes) option" where
  "num_loop st t buf [] = (case num_step st None of Number_done \<Rightarrow> Some (t, buf, []) | _ \<Rightarrow> None)"
| "num_loop st t buf (c # s) = (case num_step st (Some c) of
     Goto st' \<Rightarrow> num_loop st' (num_type_at st' t) (buf @ [c]) s
   | Number_done \<Rightarrow> Some (t, buf, c # s)
   | Number_error \<Rightarrow> None)"

text \<open>\<^verbatim>\<open>strtod\<close> on the text of a number: the decimal value \<open>\<plusminus> m * 10 ^ x\<close>, rounded to the nearest double, ties to even.  A double is
  \<open>q * 2 ^ e\<close> with \<open>q\<close> of at most 53 bits and \<open>e\<close> at least \<open>-1074\<close>; from \<open>2 ^ 1024\<close> on the result is infinite.  The sign of a
  zero is not kept.\<close>

definition split_exponent :: "bytes \<Rightarrow> int" where
  "split_exponent s = (case s of
     [] \<Rightarrow> 0
   | _ # r \<Rightarrow> (case r of
       [] \<Rightarrow> 0
     | c # ds \<Rightarrow> if c = 0x2D then - int (undec ds) else if c = 0x2B then int (undec ds) else int (undec r)))"

definition decimal_value :: "bytes \<Rightarrow> nat \<times> int" where
  "decimal_value s =
     (let ip = takeWhile is_digit s; r = dropWhile is_digit s;
          fr = (if r \<noteq> [] \<and> hd r = 0x2E then takeWhile is_digit (tl r) else []);
          ex = (if r \<noteq> [] \<and> hd r = 0x2E then dropWhile is_digit (tl r) else r)
      in (undec (ip @ fr), split_exponent ex - int (length fr)))"

fun bit_length :: "nat \<Rightarrow> nat" where
  "bit_length n = (if n = 0 then 0 else Suc (bit_length (n div 2)))"

declare bit_length.simps [simp del]

definition round_even :: "nat \<Rightarrow> nat \<Rightarrow> nat" where
  "round_even a b = (let q = a div b; r = a mod b in if 2 * r < b \<or> 2 * r = b \<and> even q then q else q + 1)"

definition to_double :: "nat \<Rightarrow> nat \<Rightarrow> (nat \<times> int) option" where
  "to_double a b =
     (if a = 0 then Some (0, 0)
      else let l = int (bit_length a) - int (bit_length b);
               k = (if b * 2 ^ nat l \<le> a * 2 ^ nat (- l) then l else l - 1);
               e = max (- 1074) (k - 52);
               q = round_even (a * 2 ^ nat (- e)) (b * 2 ^ nat e)
           in if 2 ^ 1024 \<le> q * 2 ^ nat e then None else Some (q, e))"

definition strtod_bytes :: "bytes \<Rightarrow> (int \<times> int) option" where
  "strtod_bytes s =
     (let neg = (s \<noteq> [] \<and> hd s = 0x2D);
          (m, x) = decimal_value (if neg then tl s else s)
      in map_option (\<lambda>(q, e). (if neg then - int q else int q, e)) (to_double (m * 10 ^ nat x) (10 ^ nat (- x))))"

text \<open>At \<^verbatim>\<open>scan_number_done\<close>: \<^verbatim>\<open>strtoull\<close> or \<^verbatim>\<open>strtoll\<close> first, which set \<^verbatim>\<open>ERANGE\<close> when the type does not have the value.\<close>

definition number_token :: "num_type \<Rightarrow> bytes \<Rightarrow> token" where
  "number_token t buf = (case t of
     Num_unsigned \<Rightarrow> if undec buf < 2 ^ 64 then value_unsigned (of_nat (undec buf)) else value_float (strtod_bytes buf)
   | Num_integer \<Rightarrow> if undec (tl buf) \<le> 2 ^ 63 then value_integer (- int (undec (tl buf))) else value_float (strtod_bytes buf)
   | Num_float \<Rightarrow> value_float (strtod_bytes buf))"

definition scan_number :: "byte \<Rightarrow> bytes \<Rightarrow> token \<times> bytes" where
  "scan_number c s =
     (let st = (if c = 0x2D then scan_number_minus else if c = 48 then scan_number_zero else scan_number_any1)
      in case num_loop st (num_type_at st Num_unsigned) [c] s of
           None \<Rightarrow> (parse_error_token, [])
         | Some (t, buf, s1) \<Rightarrow> (number_token t buf, s1))"

subsection \<open>The scanner\<close>

fun scan_literal :: "bytes \<Rightarrow> token \<Rightarrow> bytes \<Rightarrow> token \<times> bytes" where
  "scan_literal [] t s = (t, s)"
| "scan_literal (l # ls) t s = (case lex_get s of (c, s1) \<Rightarrow>
     if c \<noteq> Some l then (parse_error_token, []) else scan_literal ls t s1)"

definition skip_bom :: "bytes \<Rightarrow> bytes option" where
  "skip_bom s =
     (if fst (lex_get s) = Some 0xEF
      then if take 2 (tl s) = [0xBB, 0xBF] then Some (drop 3 s) else None
      else Some s)"

definition is_space :: "byte \<Rightarrow> bool" where
  "is_space c \<longleftrightarrow> c = 0x20 \<or> c = 0x09 \<or> c = 0x0A \<or> c = 0x0D"

definition skip_whitespace :: "bytes \<Rightarrow> bytes" where
  "skip_whitespace s = dropWhile is_space s"

text \<open>The \<^verbatim>\<open>switch\<close> of \<^verbatim>\<open>scan\<close>: a null byte ends the input like its end does.\<close>

definition scan_token :: "bytes \<Rightarrow> token \<times> bytes" where
  "scan_token s = (case lex_get (skip_whitespace s) of
     (None, s1) \<Rightarrow> (end_of_input, s1)
   | (Some c, s1) \<Rightarrow>
       if c = 0x5B then (begin_array, s1)
       else if c = 0x5D then (end_array, s1)
       else if c = 0x7B then (begin_object, s1)
       else if c = 0x7D then (end_object, s1)
       else if c = 0x3A then (name_separator, s1)
       else if c = 0x2C then (value_separator, s1)
       else if c = 0x74 then scan_literal (bytes_of ''rue'') literal_true s1
       else if c = 0x66 then scan_literal (bytes_of ''alse'') literal_false s1
       else if c = 0x6E then scan_literal (bytes_of ''ull'') literal_null s1
       else if c = 0x22 then scan_string [] s1
       else if c = 0x2D \<or> is_digit c then scan_number c s1
       else if c = 0 then (end_of_input, s1)
       else (parse_error_token, []))"

definition lex_scan :: "bool \<Rightarrow> bytes \<Rightarrow> token \<times> bytes" where
  "lex_scan first s =
     (case (if first then skip_bom s else Some s) of None \<Rightarrow> (parse_error_token, []) | Some s1 \<Rightarrow> scan_token s1)"

subsection \<open>Every token takes input\<close>

lemma scan_string_le: "scan_string buf s = (t, s1) \<Longrightarrow> t \<noteq> parse_error_token \<Longrightarrow> length s1 < length s"
proof (induction buf s rule: scan_string.induct)
  case (1 buf s)
  show ?case
  proof (cases "scan_item s")
    case (S_chars cs s2)
    then show ?thesis using 1 scan_item_less(1) [OF S_chars] by (fastforce simp: scan_string.simps [of buf s])
  qed (use 1(2,3) in \<open>auto simp: scan_string.simps [of buf s] dest: scan_item_less(2)\<close>)
qed

lemma scan_literal_le: "scan_literal ls t s = (t', s1) \<Longrightarrow> length s1 \<le> length s"
proof (induction ls arbitrary: s)
  case (Cons l ls)
  then show ?case by (cases s) (fastforce split: if_splits)+
qed simp

lemma num_loop_le: "num_loop st t buf s = Some (t', buf', s1) \<Longrightarrow> length s1 \<le> length s"
proof (induction s arbitrary: st t buf)
  case (Cons c s)
  then show ?case by (cases "num_step st (Some c)") (fastforce dest: le_SucI)+
qed (auto split: num_action.splits)

lemma scan_number_le: "scan_number c s = (t, s1) \<Longrightarrow> length s1 \<le> length s"
  by (auto simp: scan_number_def Let_def split: option.splits if_splits dest: num_loop_le)

lemma scan_token_less:
  assumes "scan_token s = (t, s1)" and "t \<noteq> end_of_input" "t \<noteq> parse_error_token"
  shows "length s1 < length s"
proof (cases "skip_whitespace s")
  case Nil
  then show ?thesis using assms by (simp add: scan_token_def)
next
  case (Cons c r)
  have "length (c # r) \<le> length s" using Cons by (metis length_dropWhile_le skip_whitespace_def)
  moreover have "length s1 \<le> length r"
    using assms Cons by (auto simp: scan_token_def simp del: scan_literal.simps split: if_splits
        dest: scan_string_le scan_literal_le scan_number_le less_imp_le)
  ultimately show ?thesis by simp
qed

lemma skip_bom_le: "skip_bom s = Some s1 \<Longrightarrow> length s1 \<le> length s"
  by (auto simp: skip_bom_def split: if_splits)

end
