(* ===== verification/Json_Parser.thy ===== *)
theory Json_Parser
  imports Json_Lexer
begin

text \<open>
  The parser of the vendored JSON library (\<^verbatim>\<open>parser::sax_parse_internal\<close> driving \<^verbatim>\<open>json_sax_dom_parser\<close>, called from
  \<^verbatim>\<open>basic_json::parse\<close>), without callback, with exceptions and in strict mode, as \<^verbatim>\<open>JSON::parse(body)\<close> calls it.

  The loop of \<^verbatim>\<open>sax_parse_internal\<close> has two entries: the \<^verbatim>\<open>switch\<close> over the last token (\<open>parse_value\<close>) and the evaluation of
  the state after a value (\<open>parse_next\<close>, where \<^verbatim>\<open>break\<close> and \<^verbatim>\<open>skip_to_state_evaluation\<close> lead).  One stack of frames stands
  for \<^verbatim>\<open>states\<close> and \<^verbatim>\<open>ref_stack\<close>: a frame is an array or object under construction, with the values it has so
  far and, for an object, the key that \<^verbatim>\<open>object_element\<close> belongs to.  The code attaches a container to its parent when it starts and fills
  it in place; here it is attached when it ends, which is the same since nothing reads it between.
\<close>

subsection \<open>Containers under construction\<close>

text \<open>The members of an object are a \<^verbatim>\<open>std::map\<close>: sorted by key, and a key that comes again has its value replaced.\<close>

fun put_member :: "bytes \<Rightarrow> json \<Rightarrow> (bytes \<times> json) list \<Rightarrow> (bytes \<times> json) list" where
  "put_member k v [] = [(k, v)]"
| "put_member k v ((k', v') # ms) =
     (if k = k' then (k, v) # ms else if bytes_less k k' then (k, v) # (k', v') # ms else (k', v') # put_member k v ms)"

datatype frame = F_array "json list" | F_object "(bytes \<times> json) list" bytes

text \<open>A key and its separator, from the token that should be the key.\<close>

definition read_key :: "token \<times> bytes \<Rightarrow> (bytes \<times> bytes) option" where
  "read_key ts = (case ts of
     (value_string key, s) \<Rightarrow> (case scan_token s of (t, s1) \<Rightarrow> if t = name_separator then Some (key, s1) else None)
   | _ \<Rightarrow> None)"

subsection \<open>The loop\<close>

lemma scan_string_error: "scan_string buf s = (t, s1) \<Longrightarrow> length s1 \<le> length s"
proof (cases "t = parse_error_token")
  case True
  then show "scan_string buf s = (t, s1) \<Longrightarrow> length s1 \<le> length s"
  proof (induction buf s rule: scan_string.induct)
    case (1 buf s)
    then show ?case
      by (fastforce simp: scan_string.simps [of buf s] split: string_item.splits dest: scan_item_less)
  qed
qed (auto dest: scan_string_le)

lemma scan_token_le: "scan_token s = (t, s1) \<Longrightarrow> length s1 \<le> length s"
proof (cases "t = end_of_input \<or> t = parse_error_token")
  case False
  then show "scan_token s = (t, s1) \<Longrightarrow> length s1 \<le> length s" using scan_token_less [of s t s1] by simp
next
  case True
  assume a: "scan_token s = (t, s1)"
  have len: "length (skip_whitespace s) \<le> length s" by (simp add: skip_whitespace_def length_dropWhile_le)
  show "length s1 \<le> length s"
  proof (cases "skip_whitespace s")
    case (Cons c r)
    then have r: "length r < length s" using len by simp
    have "length s1 \<le> length r"
      using a True Cons by (auto simp: scan_token_def simp del: scan_literal.simps split: if_splits
          dest: scan_literal_le scan_number_le scan_string_error)
    with r show ?thesis by simp
  qed (use a in \<open>simp add: scan_token_def\<close>)
qed

lemma read_key_less: "read_key (t, s) = Some (key, s1) \<Longrightarrow> length s1 < length s"
  by (auto simp: read_key_def split: token.splits prod.splits if_splits dest: scan_token_less)

definition token_size :: "token \<Rightarrow> bytes \<Rightarrow> nat" where
  "token_size tok s = 3 * length s + (if tok = end_of_input \<or> tok = parse_error_token then 0 else 2)"

definition parse_measure :: "token \<times> bytes \<times> frame list + json \<times> bytes \<times> frame list \<Rightarrow> nat" where
  "parse_measure x = (case x of Inl (tok, s, _) \<Rightarrow> token_size tok s | Inr (_, s, _) \<Rightarrow> 3 * length s + 1)"

lemma token_size_scan: "(t, s1) = scan_token s \<Longrightarrow> token_size t s1 \<le> 3 * length s"
  using scan_token_less [of s t s1] scan_token_le [of s t s1] by (auto simp: token_size_def)

lemma scan_token_sized:
  "(end_array, s1) = scan_token s \<Longrightarrow> length s1 < length s"
  "(end_object, s1) = scan_token s \<Longrightarrow> length s1 < length s"
  "(value_separator, s1) = scan_token s \<Longrightarrow> length s1 < length s"
  using scan_token_less [of s _ s1] by (metis token.distinct)+

lemma read_key_scan_less: "read_key (scan_token s) = Some (key, s1) \<Longrightarrow> length s1 < length s"
  using read_key_less [of "fst (scan_token s)" "snd (scan_token s)"] scan_token_le [of s "fst (scan_token s)" "snd (scan_token s)"] by fastforce

function parse_value :: "token \<Rightarrow> bytes \<Rightarrow> frame list \<Rightarrow> (json \<times> bytes) json_res"
  and parse_next :: "json \<Rightarrow> bytes \<Rightarrow> frame list \<Rightarrow> (json \<times> bytes) json_res" where
  "parse_value tok s states = (case tok of
     begin_object \<Rightarrow>
       (case scan_token s of (t1, s1) \<Rightarrow>
          if t1 = end_object then parse_next (J_object []) s1 states
          else case read_key (t1, s1) of
            None \<Rightarrow> Inl Parse_error
          | Some (key, s2) \<Rightarrow> (case scan_token s2 of (t3, s3) \<Rightarrow> parse_value t3 s3 (F_object [] key # states)))
   | begin_array \<Rightarrow>
       (case scan_token s of (t1, s1) \<Rightarrow>
          if t1 = end_array then parse_next (J_array []) s1 states
          else parse_value t1 s1 (F_array [] # states))
   | value_float None \<Rightarrow> Inl Out_of_range
   | value_float (Some (m, e)) \<Rightarrow> parse_next (J_float m e) s states
   | literal_false \<Rightarrow> parse_next (J_boolean False) s states
   | literal_null \<Rightarrow> parse_next J_null s states
   | literal_true \<Rightarrow> parse_next (J_boolean True) s states
   | value_integer i \<Rightarrow> parse_next (J_integer i) s states
   | value_string str \<Rightarrow> parse_next (J_string str) s states
   | value_unsigned u \<Rightarrow> parse_next (J_unsigned u) s states
   | _ \<Rightarrow> Inl Parse_error)"
| "parse_next v s states = (case states of
     [] \<Rightarrow> Inr (v, s)
   | F_array vs # outer \<Rightarrow>
       (case scan_token s of (t1, s1) \<Rightarrow>
          if t1 = value_separator then (case scan_token s1 of (t2, s2) \<Rightarrow> parse_value t2 s2 (F_array (vs @ [v]) # outer))
          else if t1 = end_array then parse_next (J_array (vs @ [v])) s1 outer
          else Inl Parse_error)
   | F_object members key # outer \<Rightarrow>
       (case scan_token s of (t1, s1) \<Rightarrow>
          if t1 = value_separator then
            (case read_key (scan_token s1) of
               None \<Rightarrow> Inl Parse_error
             | Some (key', s2) \<Rightarrow>
                 (case scan_token s2 of (t3, s3) \<Rightarrow> parse_value t3 s3 (F_object (put_member key v members) key' # outer)))
          else if t1 = end_object then parse_next (J_object (put_member key v members)) s1 outer
          else Inl Parse_error))"
  by pat_completeness auto

termination
  by (relation "measure parse_measure")
     (auto simp: parse_measure_def dest!: read_key_scan_less token_size_scan scan_token_sized, auto simp: token_size_def)

declare parse_value.simps [simp del] parse_next.simps [simp del]

text \<open>\<^verbatim>\<open>basic_json::parse\<close>: the constructor of the parser reads the first token, and after the value only the end may follow.\<close>

definition parse_text :: "bytes \<Rightarrow> json json_res" where
  "parse_text s =
     (case lex_scan True s of (t, s1) \<Rightarrow>
        json_bind (parse_value t s1 []) (\<lambda>(v, s2).
          if fst (scan_token s2) = end_of_input then Inr v else Inl Parse_error))"

end
