(* ===== verification/Json_Serializer.thy ===== *)
theory Json_Serializer
  imports Json_Parser
begin

text \<open>
  The serializer of the vendored JSON library (class \<^verbatim>\<open>serializer\<close> of \<^verbatim>\<open>src/base/json.hpp\<close>) as \<^verbatim>\<open>res_root.dump()\<close> calls it:
  no indentation, \<^verbatim>\<open>ensure_ascii\<close> false, the error handler \<^verbatim>\<open>strict\<close>.

  Strings go through the UTF-8 automaton \<^verbatim>\<open>decode\<close>, table and all, and integers through the 64 bytes of
  \<^verbatim>\<open>number_buffer\<close>, filled from the end two digits at a time.  Only \<^verbatim>\<open>dump_float\<close>, the shortest decimal text of a double, is a parameter.
\<close>

subsection \<open>Strings\<close>

definition UTF8_ACCEPT :: nat where "UTF8_ACCEPT = 0"
definition UTF8_REJECT :: nat where "UTF8_REJECT = 1"

definition utf8d :: "nat list" where
  "utf8d =
     replicate 128 0
     @ replicate 16 1 @ replicate 16 9
     @ replicate 32 7
     @ [8, 8] @ replicate 30 2
     @ [0xA] @ replicate 12 3 @ [4, 3, 3]
     @ [0xB, 6, 6, 6, 5] @ replicate 11 8
     @ [0, 1, 2, 3, 5, 8, 7, 1, 1, 1, 4, 6, 1, 1, 1, 1]
     @ [1, 1, 1, 1, 1, 1, 1, 1, 1, 1, 1, 1, 1, 1, 1, 1, 1, 0, 1, 1, 1, 1, 1, 0, 1, 0, 1, 1, 1, 1, 1, 1]
     @ [1, 2, 1, 1, 1, 1, 1, 2, 1, 2, 1, 1, 1, 1, 1, 1, 1, 1, 1, 1, 1, 1, 1, 2, 1, 1, 1, 1, 1, 1, 1, 1]
     @ [1, 2, 1, 1, 1, 1, 1, 1, 1, 2, 1, 1, 1, 1, 1, 1, 1, 1, 1, 1, 1, 1, 1, 3, 1, 3, 1, 1, 1, 1, 1, 1]
     @ [1, 3, 1, 1, 1, 1, 1, 3, 1, 3, 1, 1, 1, 1, 1, 1, 1, 3, 1, 1, 1, 1, 1, 1, 1, 1, 1, 1, 1, 1, 1, 1]"

text \<open>The new state and code point.\<close>

definition utf8_decode :: "nat \<Rightarrow> u32 \<Rightarrow> byte \<Rightarrow> nat \<times> u32" where
  "utf8_decode state codep b =
     (let ty = utf8d ! unat b;
          codep' = (if state \<noteq> UTF8_ACCEPT then (ucast b AND 0x3F) OR push_bit 6 codep
                    else drop_bit ty 0xFF AND ucast b)
      in (utf8d ! (256 + state * 16 + ty), codep'))"

definition hex_char :: "nat \<Rightarrow> byte" where
  "hex_char n = (if n < 10 then 48 + of_nat n else 87 + of_nat n)"

text \<open>What is written for a code point that ends with the byte \<open>b\<close>; its bytes before \<open>b\<close> are in the buffer already.\<close>

definition escape_codepoint :: "u32 \<Rightarrow> byte \<Rightarrow> bytes" where
  "escape_codepoint codepoint b =
     (if codepoint = 0x08 then [0x5C, 0x62]
      else if codepoint = 0x09 then [0x5C, 0x74]
      else if codepoint = 0x0A then [0x5C, 0x6E]
      else if codepoint = 0x0C then [0x5C, 0x66]
      else if codepoint = 0x0D then [0x5C, 0x72]
      else if codepoint = 0x22 then [0x5C, 0x22]
      else if codepoint = 0x5C then [0x5C, 0x5C]
      else if codepoint \<le> 0x1F then
        [0x5C, 0x75, hex_char (unat codepoint div 4096 mod 16), hex_char (unat codepoint div 256 mod 16),
         hex_char (unat codepoint div 16 mod 16), hex_char (unat codepoint mod 16)]
      else [b])"

definition STRING_BUFFER_SIZE :: nat where "STRING_BUFFER_SIZE = 512"

record dumper =
  du_state :: nat
  du_codepoint :: u32
  du_buffer :: bytes
  du_output :: bytes

text \<open>One byte: \<open>du_buffer\<close> is the part of \<^verbatim>\<open>string_buffer\<close> in use, written out when fewer than 13 bytes are left.\<close>

definition dump_byte :: "byte \<Rightarrow> dumper \<Rightarrow> dumper json_res" where
  "dump_byte b d =
     (let (state, codepoint) = utf8_decode (du_state d) (du_codepoint d) b;
          d1 = d\<lparr> du_state := state, du_codepoint := codepoint \<rparr>
      in if state = UTF8_ACCEPT then
           (let buffer = du_buffer d1 @ escape_codepoint codepoint b
            in if STRING_BUFFER_SIZE - length buffer < 13
               then Inr (d1\<lparr> du_output := du_output d1 @ buffer, du_buffer := [] \<rparr>)
               else Inr (d1\<lparr> du_buffer := buffer \<rparr>))
         else if state = UTF8_REJECT then Inl Type_error
         else Inr (d1\<lparr> du_buffer := du_buffer d1 @ [b] \<rparr>))"

fun dump_loop :: "bytes \<Rightarrow> dumper \<Rightarrow> dumper json_res" where
  "dump_loop [] d = Inr d"
| "dump_loop (b # bs) d = json_bind (dump_byte b d) (dump_loop bs)"

definition dump_escaped :: "bytes \<Rightarrow> bytes json_res" where
  "dump_escaped s = json_bind
     (dump_loop s \<lparr> du_state = UTF8_ACCEPT, du_codepoint = 0, du_buffer = [], du_output = [] \<rparr>)
     (\<lambda>d. if du_state d = UTF8_ACCEPT then Inr (du_output d @ du_buffer d) else Inl Type_error)"

subsection \<open>Integers\<close>

function count_digits_from :: "nat \<Rightarrow> u64 \<Rightarrow> nat" where
  "count_digits_from n_digits x =
     (if x < 10 then n_digits
      else if x < 100 then n_digits + 1
      else if x < 1000 then n_digits + 2
      else if x < 10000 then n_digits + 3
      else count_digits_from (n_digits + 4) (x div 10000))"
  by pat_completeness auto
termination
  by (relation "measure (\<lambda>(_, x). unat x)") (auto simp: word_less_nat_alt word_le_nat_alt unat_div not_less intro!: div_less_dividend)

declare count_digits_from.simps [simp del]

definition count_digits :: "u64 \<Rightarrow> nat" where
  "count_digits x = count_digits_from 1 x"

definition NUMBER_BUFFER_SIZE :: nat where "NUMBER_BUFFER_SIZE = 64"

text \<open>The row \<open>i\<close> of \<^verbatim>\<open>digits_to_99\<close>.\<close>

definition digits_to_99 :: "nat \<Rightarrow> byte \<times> byte" where
  "digits_to_99 i = (48 + of_nat (i div 10), 48 + of_nat (i mod 10))"

text \<open>\<open>p\<close> is the offset of \<^verbatim>\<open>buffer_ptr\<close>.\<close>

function fill_digits :: "u64 \<Rightarrow> nat \<Rightarrow> bytes \<Rightarrow> bytes" where
  "fill_digits abs_value p buf =
     (if 100 \<le> abs_value then
        (let (d0, d1) = digits_to_99 (unat (abs_value mod 100))
         in fill_digits (abs_value div 100) (p - 2) (buf[p - 1 := d1, p - 2 := d0]))
      else if 10 \<le> abs_value then
        (let (d0, d1) = digits_to_99 (unat abs_value) in buf[p - 1 := d1, p - 2 := d0])
      else buf[p - 1 := 48 + ucast abs_value])"
  by pat_completeness auto
termination
  by (relation "measure (\<lambda>(x, _). unat x)") (auto simp: word_less_nat_alt word_le_nat_alt unat_div not_less intro!: div_less_dividend)

declare fill_digits.simps [simp del]

text \<open>\<^verbatim>\<open>-(x + 1)\<close> in the signed type, then \<^verbatim>\<open>+ 1\<close> in the unsigned one.\<close>

definition remove_sign :: "int \<Rightarrow> u64" where
  "remove_sign x = word_of_int (- (x + 1)) + 1"

definition dump_abs :: "bool \<Rightarrow> u64 \<Rightarrow> bytes" where
  "dump_abs negative abs_value =
     (let buf = (if negative then (replicate NUMBER_BUFFER_SIZE 0)[0 := 45] else replicate NUMBER_BUFFER_SIZE 0);
          n_chars = (if negative then 1 + count_digits abs_value else count_digits abs_value)
      in take n_chars (fill_digits abs_value n_chars buf))"

definition dump_signed :: "int \<Rightarrow> bytes" where
  "dump_signed x =
     (if x = 0 then [48] else if x < 0 then dump_abs True (remove_sign x) else dump_abs False (word_of_int x))"

definition dump_unsigned :: "u64 \<Rightarrow> bytes" where
  "dump_unsigned x = (if x = 0 then [48] else dump_abs False x)"

subsection \<open>Values\<close>

text \<open>What an object or array writes between its brackets: the elements with a comma after all but the last.\<close>

fun join_comma :: "bytes list \<Rightarrow> bytes" where
  "join_comma [] = []"
| "join_comma [x] = x"
| "join_comma (x # y # xs) = x @ [0x2C] @ join_comma (y # xs)"

fun json_sequence :: "'a json_res list \<Rightarrow> 'a list json_res" where
  "json_sequence [] = Inr []"
| "json_sequence (m # ms) = json_bind m (\<lambda>x. json_bind (json_sequence ms) (\<lambda>xs. Inr (x # xs)))"

lemma json_sequence_cong [fundef_cong]: "xs = ys \<Longrightarrow> json_sequence xs = json_sequence ys"
  by simp

definition dump_string :: "bytes \<Rightarrow> bytes json_res" where
  "dump_string s = json_bind (dump_escaped s) (\<lambda>t. Inr ([0x22] @ t @ [0x22]))"

fun dump_value :: "(int \<Rightarrow> int \<Rightarrow> bytes) \<Rightarrow> json \<Rightarrow> bytes json_res" where
  "dump_value fl (J_object ms) = json_bind
     (json_sequence (map (\<lambda>(k, v). json_bind (dump_string k) (\<lambda>kt. json_bind (dump_value fl v) (\<lambda>vt. Inr (kt @ [0x3A] @ vt)))) ms))
     (\<lambda>ts. Inr ([0x7B] @ join_comma ts @ [0x7D]))"
| "dump_value fl (J_array vs) = json_bind (json_sequence (map (dump_value fl) vs)) (\<lambda>ts. Inr ([0x5B] @ join_comma ts @ [0x5D]))"
| "dump_value fl (J_string s) = dump_string s"
| "dump_value fl (J_boolean b) = Inr (if b then bytes_of ''true'' else bytes_of ''false'')"
| "dump_value fl (J_integer i) = Inr (dump_signed i)"
| "dump_value fl (J_unsigned u) = Inr (dump_unsigned u)"
| "dump_value fl (J_float m e) = Inr (fl m e)"
| "dump_value fl J_null = Inr (bytes_of ''null'')"

text \<open>The library as the signaling code uses it, with \<open>fl\<close> for \<^verbatim>\<open>dump_float\<close>.\<close>

definition nlohmann :: "(int \<Rightarrow> int \<Rightarrow> bytes) \<Rightarrow> json_lib" where
  "nlohmann fl = \<lparr> json_parse = parse_text, json_dump = dump_value fl \<rparr>"

end
