(* ===== verification/Json_Strings.thy ===== *)
theory Json_Strings
  imports Json_Serializer
begin

text \<open>
  The strings of the JSON library.  Well-formed UTF-8 is defined once (\<open>utf8_ok\<close>, from the ranges of the Unicode standard); the
  automaton of the serializer and the cases of the lexer are both shown to decide it, so that what one writes the other reads.
\<close>

subsection \<open>Well-formed UTF-8\<close>

text \<open>The first argument holds the ranges of the bytes that the current sequence still needs.\<close>

fun utf8_ok :: "(byte \<times> byte) list \<Rightarrow> bytes \<Rightarrow> bool" where
  "utf8_ok rs [] = (rs = [])"
| "utf8_ok [] (b # s) = (if b \<le> 0x7F then utf8_ok [] s
     else case utf8_ranges b of None \<Rightarrow> False | Some rs \<Rightarrow> utf8_ok rs s)"
| "utf8_ok ((lo, hi) # rs) (b # s) = (lo \<le> b \<and> b \<le> hi \<and> utf8_ok rs s)"

definition valid_utf8 :: "bytes \<Rightarrow> bool" where
  "valid_utf8 s = utf8_ok [] s"

subsection \<open>The automaton\<close>

definition utf8_states :: "nat list" where
  "utf8_states = [0, 1, 2, 3, 5, 8, 7, 1, 1, 1, 4, 6, 1, 1, 1, 1]
     @ [1, 1, 1, 1, 1, 1, 1, 1, 1, 1, 1, 1, 1, 1, 1, 1, 1, 0, 1, 1, 1, 1, 1, 0, 1, 0, 1, 1, 1, 1, 1, 1]
     @ [1, 2, 1, 1, 1, 1, 1, 2, 1, 2, 1, 1, 1, 1, 1, 1, 1, 1, 1, 1, 1, 1, 1, 2, 1, 1, 1, 1, 1, 1, 1, 1]
     @ [1, 2, 1, 1, 1, 1, 1, 1, 1, 2, 1, 1, 1, 1, 1, 1, 1, 1, 1, 1, 1, 1, 1, 3, 1, 3, 1, 1, 1, 1, 1, 1]
     @ [1, 3, 1, 1, 1, 1, 1, 3, 1, 3, 1, 1, 1, 1, 1, 1, 1, 3, 1, 1, 1, 1, 1, 1, 1, 1, 1, 1, 1, 1, 1, 1]"

lemma utf8d_states: "utf8d ! (256 + n) = utf8_states ! n"
  by (simp add: utf8d_def utf8_states_def nth_append)

definition type_of_byte :: "nat \<Rightarrow> nat" where
  "type_of_byte n =
     (if n \<le> 0x7F then 0 else if n \<le> 0x8F then 1 else if n \<le> 0x9F then 9 else if n \<le> 0xBF then 7 else if n \<le> 0xC1 then 8
      else if n \<le> 0xDF then 2 else if n = 0xE0 then 10 else if n \<le> 0xEC then 3 else if n = 0xED then 4 else if n \<le> 0xEF then 3
      else if n = 0xF0 then 11 else if n \<le> 0xF3 then 6 else if n = 0xF4 then 5 else 8)"

lemma utf8d_types: "take 256 utf8d = map type_of_byte [0..<256]"
  by code_simp

lemma utf8d_type: "n < 256 \<Longrightarrow> utf8d ! n = type_of_byte n"
  using arg_cong [OF utf8d_types, of "\<lambda>xs. xs ! n"] by simp

definition byte_type :: "byte \<Rightarrow> nat" where
  "byte_type b =
     (if b \<le> 0x7F then 0 else if b \<le> 0x8F then 1 else if b \<le> 0x9F then 9 else if b \<le> 0xBF then 7 else if b \<le> 0xC1 then 8
      else if b \<le> 0xDF then 2 else if b = 0xE0 then 10 else if b \<le> 0xEC then 3 else if b = 0xED then 4 else if b \<le> 0xEF then 3
      else if b = 0xF0 then 11 else if b \<le> 0xF3 then 6 else if b = 0xF4 then 5 else 8)"

lemma utf8d_byte: "utf8d ! unat b = byte_type b"
proof -
  have "b = 0xE0 \<longleftrightarrow> unat b = 0xE0" "b = 0xED \<longleftrightarrow> unat b = 0xED" "b = 0xF0 \<longleftrightarrow> unat b = 0xF0" "b = 0xF4 \<longleftrightarrow> unat b = 0xF4"
    by (simp_all add: word_unat_eq_iff)
  moreover have "unat b < 256" using unat_bound [of b] by simp
  ultimately show ?thesis by (simp only: utf8d_type type_of_byte_def byte_type_def word_le_nat_alt) simp
qed

text \<open>What a state of the automaton still waits for.\<close>

definition state_ranges :: "nat \<Rightarrow> (byte \<times> byte) list" where
  "state_ranges st =
     (if st = 2 then [(0x80, 0xBF)]
      else if st = 3 then [(0x80, 0xBF), (0x80, 0xBF)]
      else if st = 4 then [(0xA0, 0xBF), (0x80, 0xBF)]
      else if st = 5 then [(0x80, 0x9F), (0x80, 0xBF)]
      else if st = 6 then [(0x90, 0xBF), (0x80, 0xBF), (0x80, 0xBF)]
      else if st = 7 then [(0x80, 0xBF), (0x80, 0xBF), (0x80, 0xBF)]
      else if st = 8 then [(0x80, 0x8F), (0x80, 0xBF), (0x80, 0xBF)]
      else [])"

definition inner_states :: "nat set" where
  "inner_states = {2, 3, 4, 5, 6, 7, 8}"

lemma decode_state: "fst (utf8_decode st cp b) = utf8_states ! (st * 16 + byte_type b)"
  by (simp add: utf8_decode_def Let_def utf8d_byte utf8d_states add.assoc)

lemma decode_first:
  assumes "fst (utf8_decode 0 cp b) = st"
  shows "b \<le> 0x7F \<Longrightarrow> st = 0"
    and "\<not> b \<le> 0x7F \<Longrightarrow> utf8_ranges b = None \<Longrightarrow> st = 1"
    and "\<not> b \<le> 0x7F \<Longrightarrow> utf8_ranges b = Some rs \<Longrightarrow> st \<in> inner_states \<and> state_ranges st = rs"
  using assms unat_bound [of b]
  by (auto simp: decode_state byte_type_def utf8_ranges_def utf8_states_def inner_states_def state_ranges_def
      word_le_nat_alt word_unat_eq_iff split: if_splits)

lemma byte_type_inner:
  "byte_type b = 1 \<longleftrightarrow> 0x80 \<le> b \<and> b \<le> 0x8F" "byte_type b = 9 \<longleftrightarrow> 0x90 \<le> b \<and> b \<le> 0x9F" "byte_type b = 7 \<longleftrightarrow> 0xA0 \<le> b \<and> b \<le> 0xBF"
  by (auto simp: byte_type_def word_le_nat_alt word_unat_eq_iff split: if_splits)

lemma byte_type_le: "byte_type b \<in> {0, 1, 2, 3, 4, 5, 6, 7, 8, 9, 10, 11}"
  by (simp add: byte_type_def)

definition inner_next :: "nat \<Rightarrow> nat \<Rightarrow> nat" where
  "inner_next st ty =
     (if st = 2 then if ty \<in> {1, 7, 9} then 0 else 1
      else if st = 3 then if ty \<in> {1, 7, 9} then 2 else 1
      else if st = 4 then if ty = 7 then 2 else 1
      else if st = 5 then if ty \<in> {1, 9} then 2 else 1
      else if st = 6 then if ty \<in> {7, 9} then 3 else 1
      else if st = 7 then if ty \<in> {1, 7, 9} then 3 else 1
      else if ty = 1 then 3 else 1)"

lemma utf8_states_inner: "\<forall>st \<in> inner_states. \<forall>ty \<in> {0, 1, 2, 3, 4, 5, 6, 7, 8, 9, 10, 11}. utf8_states ! (st * 16 + ty) = inner_next st ty"
  by (simp add: inner_states_def utf8_states_def inner_next_def)

lemma range_split:
  "(0x80 \<le> b \<and> b \<le> 0xBF) = (byte_type b \<in> {1, 7, 9})" "(0xA0 \<le> b \<and> b \<le> 0xBF) = (byte_type b = 7)"
  "(0x80 \<le> b \<and> b \<le> 0x9F) = (byte_type b \<in> {1, 9})" "(0x90 \<le> b \<and> b \<le> 0xBF) = (byte_type b \<in> {7, 9})"
  "(0x80 \<le> b \<and> b \<le> 0x8F) = (byte_type b = 1)"
  by (auto simp: byte_type_inner [unfolded One_nat_def] word_le_nat_alt)

lemma decode_inner:
  assumes "fst (utf8_decode st cp b) = st'" "st \<in> inner_states" "state_ranges st = (lo, hi) # rs"
  shows "if lo \<le> b \<and> b \<le> hi then (if rs = [] then st' = 0 else st' \<in> {2, 3} \<and> state_ranges st' = rs) else st' = 1"
proof -
  have st': "st' = inner_next st (byte_type b)"
    using assms(1) bspec [OF bspec [OF utf8_states_inner assms(2)] byte_type_le [of b]] by (simp only: decode_state)
  from assms(2) consider "st = 2" | "st = 3" | "st = 4" | "st = 5" | "st = 6" | "st = 7" | "st = 8" by (auto simp: inner_states_def)
  then show ?thesis
    by cases (use assms(3) in \<open>auto simp: st' state_ranges_def inner_next_def range_split\<close>)
qed

subsection \<open>The code point\<close>

text \<open>Two bytes or more never make a code point below 0x80, so that only single bytes are escaped.\<close>

definition codepoint_ok :: "nat \<Rightarrow> u32 \<Rightarrow> bool" where
  "codepoint_ok st cp \<longleftrightarrow>
     (if st = 2 then 2 \<le> cp \<and> cp < 2 ^ 16
      else if st = 3 then 1 \<le> cp \<and> cp < 2 ^ 10
      else if st = 4 then cp = 0
      else if st = 5 then cp = 0x0D
      else if st = 6 then cp = 0
      else if st = 7 \<or> st = 8 then 1 \<le> cp \<and> cp < 2 ^ 4
      else True)"

lemma decode_codepoint:
  "snd (utf8_decode 0 cp b) = drop_bit (byte_type b) 0xFF AND ucast b"
  "st \<noteq> 0 \<Longrightarrow> snd (utf8_decode st cp b) = (ucast b AND 0x3F) OR push_bit 6 cp"
  by (simp_all add: utf8_decode_def Let_def UTF8_ACCEPT_def utf8d_byte)

lemma mod_block: "k * d \<le> n \<Longrightarrow> n < k * d + d \<Longrightarrow> n mod d = n - k * (d :: nat)"
  by (rule mod_nat_eqI) auto

lemma mod_bounds:
  "0xC2 \<le> n \<Longrightarrow> n \<le> 0xDF \<Longrightarrow> 2 \<le> n mod (64 :: nat)"
  "0xE1 \<le> n \<Longrightarrow> n \<le> 0xEF \<Longrightarrow> 1 \<le> n mod (32 :: nat)"
  "0xF1 \<le> n \<Longrightarrow> n \<le> 0xF3 \<Longrightarrow> 1 \<le> n mod (4 :: nat)"
  "0xA0 \<le> n \<Longrightarrow> n \<le> 0xBF \<Longrightarrow> 32 \<le> n mod (64 :: nat)"
  "0x90 \<le> n \<Longrightarrow> n \<le> 0xBF \<Longrightarrow> 16 \<le> n mod (64 :: nat)"
  "n mod 64 \<le> (63 :: nat)"
  by (simp_all add: mod_block [of 3 64] mod_block [of 7 32] mod_block [of 60 4] mod_block [of 2 64] less_Suc_eq_le [symmetric])

lemma unat_ucast_byte: "unat (ucast b :: u32) = unat (b :: byte)"
  using unat_bound [of b] by (simp add: unsigned_ucast_eq take_bit_nat_eq_self)

lemma unat_and_mask: "unat (ucast b AND mask n :: u32) = unat (b :: byte) mod 2 ^ n" if "n \<le> 8"
  by (simp only: take_bit_eq_mask [symmetric] unsigned_take_bit_eq) (simp add: take_bit_eq_mod unat_ucast_byte)

lemma or_push_6: "(y mod 64) OR push_bit 6 x = y mod 64 + 64 * (x :: nat)"
proof -
  have "take_bit 6 y AND push_bit 6 x = 0" by (rule bit_eqI) (simp add: bit_simps)
  then have "take_bit 6 y OR push_bit 6 x = take_bit 6 y + push_bit 6 x" by (rule disjunctive_add_eq_or [symmetric])
  then show ?thesis by (simp add: take_bit_eq_mod push_bit_eq_mult)
qed

lemma unat_append_6:
  fixes cp :: u32
  assumes "unat cp < 2 ^ 26"
  shows "unat ((ucast (b :: byte) AND 0x3F) OR push_bit 6 cp) = unat b mod 64 + 64 * unat cp"
proof -
  have "unat (push_bit 6 cp) = push_bit 6 (unat cp)"
    using assms by (simp only: unsigned_push_bit_eq) (simp add: take_bit_nat_eq_self push_bit_eq_mult)
  moreover have "unat (ucast b AND 0x3F :: u32) = unat b mod 64"
    using unat_and_mask [of 6 b] by (simp add: mask_eq_exp_minus_1)
  ultimately show ?thesis by (simp add: unsigned_or_eq or_push_6)
qed

lemma first_codepoint:
  assumes "fst (utf8_decode 0 cp b) = st"
  shows "codepoint_ok st (snd (utf8_decode 0 cp b))" and "b \<le> 0x7F \<Longrightarrow> snd (utf8_decode 0 cp b) = ucast b"
proof -
  let ?c = "snd (utf8_decode 0 cp b)"
  have lit: "drop_bit 2 0xFF = (mask 6 :: u32)" "drop_bit 3 0xFF = (mask 5 :: u32)" "drop_bit 4 0xFF = (mask 4 :: u32)"
    "drop_bit 5 0xFF = (mask 3 :: u32)" "drop_bit 6 0xFF = (mask 2 :: u32)" "drop_bit 10 0xFF = (0 :: u32)" "drop_bit 11 0xFF = (0 :: u32)"
    by (simp_all add: mask_eq_exp_minus_1)
  have c: "unat ?c = unat b mod 2 ^ (8 - byte_type b)" if "byte_type b \<in> {2, 3, 4, 5, 6}"
    using that unat_and_mask [of "8 - byte_type b" b] by (auto simp: decode_codepoint and.commute mask_eq_exp_minus_1)
  have st: "st = utf8_states ! byte_type b" using assms by (simp add: decode_state)
  show "codepoint_ok st ?c"
  proof -
    have less: "n mod 64 < 65536" "n mod 32 < 1024" "n mod 4 < 16" for n :: nat by (rule less_trans [OF mod_less_divisor]; simp)+
    note ok = codepoint_ok_def utf8_states_def word_le_nat_alt word_less_nat_alt word_unat_eq_iff byte_type_def
    consider "byte_type b = 2" | "byte_type b = 3" | "byte_type b = 4" | "byte_type b = 5" | "byte_type b = 6"
      | "byte_type b = 10 \<or> byte_type b = 11" | "byte_type b \<in> {0, 1, 7, 8, 9}" using byte_type_le [of b] by auto
    then show ?thesis
    proof cases
      case 1
      then have "2 \<le> unat b mod 64" by (intro mod_bounds) (auto simp: ok split: if_splits)
      then show ?thesis using 1 c st less by (simp add: codepoint_ok_def utf8_states_def word_le_nat_alt word_less_nat_alt)
    next
      case 2
      then have "1 \<le> unat b mod 32" by (intro mod_bounds) (auto simp: ok split: if_splits)
      then show ?thesis using 2 c st less by (simp add: codepoint_ok_def utf8_states_def word_le_nat_alt word_less_nat_alt)
    next
      case 3
      then have "unat b = 0xED" by (auto simp: ok split: if_splits)
      then show ?thesis using 3 c st by (simp add: codepoint_ok_def utf8_states_def word_unat_eq_iff)
    next
      case 4
      then have "unat b = 0xF4" by (auto simp: ok split: if_splits)
      then show ?thesis using 4 c st by (simp add: codepoint_ok_def utf8_states_def word_le_nat_alt word_less_nat_alt)
    next
      case 5
      then have "1 \<le> unat b mod 4" by (intro mod_bounds) (auto simp: ok split: if_splits)
      then show ?thesis using 5 c st less by (simp add: codepoint_ok_def utf8_states_def word_le_nat_alt word_less_nat_alt)
    qed (use st in \<open>auto simp: codepoint_ok_def utf8_states_def lit decode_codepoint\<close>)
  qed
  show "?c = ucast b" if "b \<le> 0x7F"
  proof -
    have "ucast b AND (0xFF :: u32) = ucast b AND mask 8" by (simp add: mask_eq_exp_minus_1)
    moreover have "ucast b AND mask 8 = (ucast b :: u32)"
      using unat_and_mask [of 8 b] unat_bound [of b] by (simp add: word_unat_eq_iff unat_ucast_byte)
    ultimately show ?thesis using that by (simp add: decode_codepoint byte_type_def and.commute)
  qed
qed
text \<open>The next byte of a sequence.\<close>

lemma inner_codepoint:
  assumes "st \<in> inner_states" "codepoint_ok st cp" "state_ranges st = (lo, hi) # rs" "lo \<le> b" "b \<le> hi"
    and st': "fst (utf8_decode st cp b) = st'" and c_def: "snd (utf8_decode st cp b) = c"
  shows "if rs = [] then 0x80 \<le> c else codepoint_ok st' c"
proof -
  have step: "if rs = [] then st' = 0 else st' \<in> {2, 3} \<and> state_ranges st' = rs"
    using decode_inner [OF st' assms(1,3)] assms(4,5) by simp
  have small: "unat cp < 2 ^ 16" using assms(1,2)
    by (auto simp: inner_states_def codepoint_ok_def word_less_nat_alt)
  then have c: "unat c = unat b mod 64 + 64 * unat cp"
    using unat_append_6 [of cp b] decode_codepoint(2) [of st cp b] assms(1) by (fastforce simp: c_def [symmetric] inner_states_def)
  from assms(1) consider "st = 2" | "st = 3" | "st = 4" | "st = 5" | "st = 6" | "st = 7" | "st = 8" by (auto simp: inner_states_def)
  then show ?thesis
  proof cases
    case 3
    with assms(3-5) have "32 \<le> unat b mod 64" by (intro mod_bounds) (auto simp: state_ranges_def word_le_nat_alt)
    then show ?thesis using 3 c mod_bounds(6) [of "unat b"] assms(2,3) step
      by (auto simp: state_ranges_def codepoint_ok_def word_le_nat_alt word_less_nat_alt)
  next
    case 5
    with assms(3-5) have "16 \<le> unat b mod 64" by (intro mod_bounds) (auto simp: state_ranges_def word_le_nat_alt)
    then show ?thesis using 5 c mod_bounds(6) [of "unat b"] assms(2,3) step
      by (auto simp: state_ranges_def codepoint_ok_def word_le_nat_alt word_less_nat_alt)
  qed (use c mod_bounds(6) [of "unat b"] assms(2,3) step in
      \<open>auto simp: state_ranges_def codepoint_ok_def word_le_nat_alt word_less_nat_alt\<close>)
qed

subsection \<open>Writing a string\<close>

definition esc_byte :: "byte \<Rightarrow> bytes" where
  "esc_byte b = (if b \<le> 0x7F then escape_codepoint (ucast b) b else [b])"

definition escaped :: "bytes \<Rightarrow> bytes" where
  "escaped s = concat (map esc_byte s)"

lemma escaped_simps [simp]: "escaped [] = []" "escaped (b # s) = esc_byte b @ escaped s" "escaped (s @ t) = escaped s @ escaped t"
  by (simp_all add: escaped_def)

fun utf8_need :: "(byte \<times> byte) list \<Rightarrow> byte \<Rightarrow> (byte \<times> byte) list option" where
  "utf8_need [] b = (if b \<le> 0x7F then Some [] else utf8_ranges b)"
| "utf8_need ((lo, hi) # rs) b = (if lo \<le> b \<and> b \<le> hi then Some rs else None)"

lemma utf8_ok_need: "utf8_ok rs (b # s) = (case utf8_need rs b of None \<Rightarrow> False | Some rs' \<Rightarrow> utf8_ok rs' s)"
  by (cases rs) (auto split: option.splits if_splits)

definition dumped :: "dumper \<Rightarrow> bytes" where
  "dumped d = du_output d @ du_buffer d"

definition dumper_ok :: "dumper \<Rightarrow> bool" where
  "dumper_ok d \<longleftrightarrow> (du_state d = 0 \<or> du_state d \<in> inner_states) \<and> codepoint_ok (du_state d) (du_codepoint d) \<and>
     length (du_buffer d) \<le> (if du_state d = 0 then 499 else 503 - length (state_ranges (du_state d)))"

lemma state_ranges_inner:
  "state_ranges 0 = []" "st \<in> inner_states \<Longrightarrow> state_ranges st \<noteq> []" "st \<in> inner_states \<Longrightarrow> st \<noteq> 0 \<and> st \<noteq> 1"
  "length (state_ranges st) \<le> 3" "(lo, hi) \<in> set (state_ranges st) \<Longrightarrow> 0x80 \<le> lo"
  by (auto simp: inner_states_def state_ranges_def split: if_splits)

lemma length_escape: "length (escape_codepoint c b) \<le> 6"
  by (simp add: escape_codepoint_def)

lemma escape_high: "0x80 \<le> c \<Longrightarrow> escape_codepoint c b = [b]"
  by (auto simp: escape_codepoint_def word_le_nat_alt)

lemma flush_ok:
  "dumper_ok (if STRING_BUFFER_SIZE - length buffer < 13
      then d\<lparr> du_state := 0, du_codepoint := c, du_output := du_output d @ buffer, du_buffer := [] \<rparr>
      else d\<lparr> du_state := 0, du_codepoint := c, du_buffer := buffer \<rparr>)"
  by (auto simp: dumper_ok_def codepoint_ok_def STRING_BUFFER_SIZE_def)

lemma dump_byte_step:
  assumes "dumper_ok d"
  shows "case utf8_need (state_ranges (du_state d)) b of
      None \<Rightarrow> dump_byte b d = Inl Type_error
    | Some rs \<Rightarrow> \<exists>d'. dump_byte b d = Inr d' \<and> dumper_ok d' \<and> state_ranges (du_state d') = rs \<and> dumped d' = dumped d @ esc_byte b"
proof (cases "du_state d = 0")
  case True
  define st c where "st = fst (utf8_decode 0 (du_codepoint d) b)" and "c = snd (utf8_decode 0 (du_codepoint d) b)"
  then have dec: "utf8_decode 0 (du_codepoint d) b = (st, c)" by simp
  show ?thesis
  proof (cases "b \<le> 0x7F")
    case low: True
    have "st = 0" "c = ucast b" using decode_first(1) [OF st_def [symmetric] low] first_codepoint(2) [OF st_def [symmetric] low] by (simp_all add: c_def)
    then show ?thesis using True dec low flush_ok [of "du_buffer d @ escape_codepoint c b" d c]
      by (auto simp: dump_byte_def UTF8_ACCEPT_def state_ranges_inner dumped_def esc_byte_def Let_def)
  next
    case high: False
    show ?thesis
    proof (cases "utf8_ranges b")
      case None
      then have "st = 1" using decode_first(2) [OF st_def [symmetric] high] by simp
      then show ?thesis using True dec high None by (simp add: dump_byte_def UTF8_ACCEPT_def UTF8_REJECT_def state_ranges_inner)
    next
      case (Some rs)
      then have st: "st \<in> inner_states" "state_ranges st = rs" using decode_first(3) [OF st_def [symmetric] high] by auto
      moreover have "codepoint_ok st c" using first_codepoint(1) [OF st_def [symmetric]] by (simp add: c_def)
      moreover have "Suc (length (du_buffer d)) \<le> 503 - length (state_ranges st)"
        using assms True state_ranges_inner(4) [of st] unfolding dumper_ok_def by (auto; linarith)
      ultimately show ?thesis using True dec high Some assms state_ranges_inner(3) [OF st(1)]
        by (auto simp: dump_byte_def UTF8_ACCEPT_def UTF8_REJECT_def state_ranges_inner dumped_def esc_byte_def dumper_ok_def)
    qed
  qed
next
  case False
  then have inner: "du_state d \<in> inner_states" and cp: "codepoint_ok (du_state d) (du_codepoint d)" using assms by (auto simp: dumper_ok_def)
  then obtain lo hi rs where rs: "state_ranges (du_state d) = (lo, hi) # rs"
    using state_ranges_inner(2) [OF inner] by (cases "state_ranges (du_state d)") auto
  define st c where "st = fst (utf8_decode (du_state d) (du_codepoint d) b)" and "c = snd (utf8_decode (du_state d) (du_codepoint d) b)"
  then have dec: "utf8_decode (du_state d) (du_codepoint d) b = (st, c)" by simp
  note st = decode_inner [OF st_def [symmetric] inner rs]
  show ?thesis
  proof (cases "lo \<le> b \<and> b \<le> hi")
    case True
    have "0x80 \<le> lo" using rs state_ranges_inner(5) [of lo hi "du_state d"] by simp
    with True have high: "\<not> b \<le> 0x7F" by (auto simp: word_le_nat_alt)
    have c: "if rs = [] then 0x80 \<le> c else codepoint_ok st c"
      using inner_codepoint [OF inner cp rs _ _ st_def [symmetric] c_def [symmetric]] True by simp
    show ?thesis
    proof (cases "rs = []")
      case last: True
      then show ?thesis using dec high True st c rs flush_ok [of "du_buffer d @ [b]" d c]
        by (auto simp: dump_byte_def UTF8_ACCEPT_def state_ranges_inner dumped_def esc_byte_def Let_def escape_high)
    next
      case more: False
      let ?d = "d\<lparr> du_state := st, du_codepoint := c, du_buffer := du_buffer d @ [b] \<rparr>"
      have st': "st \<in> inner_states" "st \<noteq> 0" "st \<noteq> 1" "state_ranges st = rs" using st True more by (auto simp: inner_states_def)
      moreover have "Suc (length (du_buffer d)) \<le> 503 - length rs"
        using assms False rs state_ranges_inner(4) [of "du_state d"] unfolding dumper_ok_def by (auto; linarith)
      ultimately have "dumper_ok ?d" using c more by (simp add: dumper_ok_def)
      moreover have "dump_byte b d = Inr ?d" using dec st' by (simp add: dump_byte_def UTF8_ACCEPT_def UTF8_REJECT_def)
      ultimately show ?thesis using rs True st' high by (auto simp: dumped_def esc_byte_def)
    qed
  qed (use st dec rs in \<open>auto simp: dump_byte_def UTF8_ACCEPT_def UTF8_REJECT_def\<close>)
qed

lemma dump_loop_spec:
  assumes "dumper_ok d"
  shows "case dump_loop s d of
      Inl e \<Rightarrow> e = Type_error \<and> \<not> utf8_ok (state_ranges (du_state d)) s
    | Inr d' \<Rightarrow> dumper_ok d' \<and> (du_state d' = 0 \<longleftrightarrow> utf8_ok (state_ranges (du_state d)) s) \<and> dumped d' = dumped d @ escaped s"
  using assms
proof (induction s arbitrary: d)
  case Nil
  then show ?case by (auto simp: dumper_ok_def state_ranges_inner)
next
  case (Cons b s)
  show ?case
  proof (cases "utf8_need (state_ranges (du_state d)) b")
    case None
    then show ?thesis using dump_byte_step [OF Cons.prems, of b] by (auto simp: utf8_ok_need)
  next
    case (Some rs)
    then obtain d1 where "dump_byte b d = Inr d1" "dumper_ok d1" "state_ranges (du_state d1) = rs" "dumped d1 = dumped d @ esc_byte b"
      using dump_byte_step [OF Cons.prems, of b] by auto
    then show ?thesis using Some Cons.IH [of d1] by (auto simp: utf8_ok_need split: sum.splits)
  qed
qed

lemma dump_escaped_eq: "dump_escaped s = (if valid_utf8 s then Inr (escaped s) else Inl Type_error)"
proof -
  let ?d = "\<lparr> du_state = UTF8_ACCEPT, du_codepoint = 0, du_buffer = [], du_output = [] \<rparr>"
  have "dumper_ok ?d" by (simp add: dumper_ok_def UTF8_ACCEPT_def codepoint_ok_def)
  from dump_loop_spec [OF this, of s] show ?thesis
    by (auto simp: dump_escaped_def UTF8_ACCEPT_def state_ranges_inner valid_utf8_def dumped_def split: sum.splits)
qed

subsection \<open>Reading a string\<close>

lemma utf8_ranges_high: "utf8_ranges b = Some rs \<Longrightarrow> (lo, hi) \<in> set rs \<Longrightarrow> 0x80 \<le> lo"
  by (auto simp: utf8_ranges_def split: if_splits)

lemma utf8_ok_chunk:
  assumes "utf8_ok rs s" "\<And>lo hi. (lo, hi) \<in> set rs \<Longrightarrow> 0x80 \<le> lo"
  obtains p q where "s = p @ q" "utf8_ok [] q" "escaped p = p" "\<And>buf r. next_byte_in_range rs buf (p @ r) = Some (buf @ p, r)"
    "\<And>q. utf8_ok rs (p @ q) = utf8_ok [] q"
  using assms
proof (induction rs arbitrary: s thesis)
  case Nil
  then show ?case by (metis append_Nil append_Nil2 escaped_simps(1) next_byte_in_range.simps(1))
next
  case (Cons range rs)
  obtain lo hi where range: "range = (lo, hi)" by (cases range)
  obtain b s' where s: "s = b # s'" "lo \<le> b" "b \<le> hi" "utf8_ok rs s'" using Cons.prems(2) range by (cases s) auto
  have "0x80 \<le> b" using Cons.prems(3) [of lo hi] range s(2) by (auto intro: order_trans)
  then have esc: "esc_byte b = [b]" by (auto simp: esc_byte_def word_le_nat_alt)
  obtain p q where pq: "s' = p @ q" "utf8_ok [] q" "escaped p = p" "\<And>buf r. next_byte_in_range rs buf (p @ r) = Some (buf @ p, r)"
    "\<And>q. utf8_ok rs (p @ q) = utf8_ok [] q"
    using Cons.IH [OF _ s(4)] Cons.prems(3) by (metis list.set_intros(2))
  show ?case
    by (rule Cons.prems(1) [of "b # p" q]) (use s pq range esc in simp_all)
qed

lemma hex_char_value: "n < 16 \<Longrightarrow> hex_value (Some (hex_char n)) = Some n"
proof -
  have "list_all (\<lambda>n. hex_value (Some (hex_char n)) = Some n) [0..<16]" by code_simp
  then show "n < 16 \<Longrightarrow> hex_value (Some (hex_char n)) = Some n" by (simp add: list_all_iff)
qed

lemma get_codepoint_hex:
  "n < 256 \<Longrightarrow> get_codepoint ([hex_char 0, hex_char 0, hex_char (n div 16), hex_char (n mod 16)] @ r) = Some (n, r)"
  by (simp add: get_codepoint_def hex_char_value push_bit_eq_mult)

lemma byte_eq_iff: "(b = numeral k) = (unat (b :: byte) = unat (numeral k :: byte))"
  by (simp add: word_unat_eq_iff)

lemma scan_item_escaped:
  assumes "b \<le> 0x7F"
  shows "scan_item (esc_byte b @ r) = S_chars [b] r"
proof (cases "b \<le> 0x1F")
  case False
  then show ?thesis using assms
    by (auto simp: esc_byte_def escape_codepoint_def scan_item_def scan_escape_def string_item_of_def
        word_unat_eq_iff word_le_nat_alt unat_ucast_byte)
next
  case True
  have eq: "b = of_nat (unat b)" by simp
  have n: "unat b < 32" "unat b div 4096 = 0" "unat b div 256 = 0" using True by (auto simp: word_le_nat_alt)
  have "scan_unicode_escape (hex_char 0 # hex_char 0 # hex_char (unat b div 16 mod 16) # hex_char (unat b mod 16) # r) = Some ([b], r)"
    using get_codepoint_hex [of "unat b" r] n by (simp add: scan_unicode_escape_def utf8_encode_def)
  then show ?thesis using True assms n
    by (auto simp: esc_byte_def escape_codepoint_def scan_item_def scan_escape_def string_item_of_def
        word_unat_eq_iff word_le_nat_alt unat_ucast_byte)
qed

lemma scan_string_escaped:
  "utf8_ok [] s \<Longrightarrow> scan_string buf (escaped s @ 0x22 # r) = (value_string (buf @ s), r)"
proof (induction s arbitrary: buf rule: length_induct)
  case (1 s)
  show ?case
  proof (cases s)
    case Nil
    then show ?thesis by (subst scan_string.simps) (simp add: scan_item_def)
  next
    case (Cons b s')
    show ?thesis
    proof (cases "b \<le> 0x7F")
      case True
      then show ?thesis using 1 Cons by (subst scan_string.simps) (simp add: scan_item_escaped)
    next
      case False
      then obtain rs where rs: "utf8_ranges b = Some rs" "utf8_ok rs s'" using 1(2) Cons by (auto split: option.splits)
      obtain p q where pq: "s' = p @ q" "utf8_ok [] q" "escaped p = p" "\<And>buf r. next_byte_in_range rs buf (p @ r) = Some (buf @ p, r)"
        by (rule utf8_ok_chunk [OF rs(2)]) (use utf8_ranges_high [OF rs(1)] in blast)+
      have "b \<noteq> 0x22" "b \<noteq> 0x5C" "\<not> b \<le> 0x1F" using False by (auto simp: word_le_nat_alt)
      then have "scan_item ((b # p) @ escaped q @ 0x22 # r) = S_chars (b # p) (escaped q @ 0x22 # r)"
        using False rs pq(4) [of "[b]"] by (simp add: scan_item_def string_item_of_def)
      moreover have "length q < length s" using pq(1) Cons by simp
      ultimately show ?thesis using 1(1) pq(1-3) Cons False by (subst scan_string.simps) (simp add: esc_byte_def)
    qed
  qed
qed

subsection \<open>What is read is well-formed\<close>

lemma or_disjoint:
  fixes a m k :: nat
  assumes "a < 2 ^ k" "2 ^ k dvd m"
  shows "m OR a = m + a"
proof -
  have "take_bit k a = a" "take_bit k m = 0" using assms by (simp_all add: take_bit_nat_eq_self take_bit_eq_0_iff)
  then have "\<not> (bit m i \<and> bit a i)" for i by (metis bit_0_eq bit_take_bit_iff bot_apply bot_bool_def)
  then have "m AND a = 0" by (intro bit_eqI) (simp add: bit_and_iff)
  then show ?thesis by (rule disjunctive_add_eq_or [symmetric])
qed

lemma and_63: "(n :: nat) AND 0x3F = n mod 64"
  using take_bit_eq_mask [of 6 n] by (simp add: mask_eq_exp_minus_1 take_bit_eq_mod)

lemma utf8_pieces:
  "n < 0x20 \<Longrightarrow> 0xC0 OR n = 0xC0 + n" "n < 0x10 \<Longrightarrow> 0xE0 OR n = 0xE0 + n" "n < 8 \<Longrightarrow> 0xF0 OR n = 0xF0 + n"
  "0x80 OR (n AND 0x3F) = 0x80 + n mod 64" for n :: nat
  using or_disjoint [of n 5 "0xC0"] or_disjoint [of n 4 "0xE0"] or_disjoint [of n 3 "0xF0"] or_disjoint [of "n mod 64" 6 "0x80"] by (simp_all add: and_63)

lemma unat_of_nat_byte: "n < 256 \<Longrightarrow> unat (of_nat n :: byte) = n"
  by (simp add: unsigned_of_nat take_bit_nat_eq_self)

lemma unat_plus_byte: "192 + n < 256 \<Longrightarrow> unat (192 + of_nat n :: byte) = 192 + n" "224 + n < 256 \<Longrightarrow> unat (224 + of_nat n :: byte) = 224 + n"
  "240 + n < 256 \<Longrightarrow> unat (240 + of_nat n :: byte) = 240 + n" "128 + n < 256 \<Longrightarrow> unat (128 + of_nat n :: byte) = 128 + n"
  using unat_of_nat_byte [of "192 + n"] unat_of_nat_byte [of "224 + n"] unat_of_nat_byte [of "240 + n"] unat_of_nat_byte [of "128 + n"]
  by simp_all

lemma mod_64_less: "n mod 64 < (128 :: nat)"
  by (rule less_trans [OF mod_less_divisor]) simp_all

lemma utf8_encode_eq:
  "cp < 0x110000 \<Longrightarrow> map unat (utf8_encode cp) =
     (if cp < 0x80 then [cp]
      else if cp \<le> 0x7FF then [0xC0 + cp div 64, 0x80 + cp mod 64]
      else if cp \<le> 0xFFFF then [0xE0 + cp div 4096, 0x80 + cp div 64 mod 64, 0x80 + cp mod 64]
      else [0xF0 + cp div 262144, 0x80 + cp div 4096 mod 64, 0x80 + cp div 64 mod 64, 0x80 + cp mod 64])"
  by (auto simp: utf8_encode_def drop_bit_eq_div utf8_pieces unat_of_nat_byte unat_plus_byte mod_64_less less_mult_imp_div_less)

lemma utf8_first:
  "0xE0 + x = unat b \<Longrightarrow> x < 16 \<Longrightarrow> utf8_ranges b =
     Some [if x = 0 then (0xA0, 0xBF) else if x = 13 then (0x80, 0x9F) else (0x80, 0xBF), (0x80, 0xBF)]"
  "0xF0 + x = unat b \<Longrightarrow> x \<le> 4 \<Longrightarrow> utf8_ranges b =
     Some [if x = 0 then (0x90, 0xBF) else if x = 4 then (0x80, 0x8F) else (0x80, 0xBF), (0x80, 0xBF), (0x80, 0xBF)]"
  by (auto simp: utf8_ranges_def word_le_nat_alt word_unat_eq_iff)

lemma utf8_ok_encode:
  assumes "cp < 0x110000" "\<not> (0xD800 \<le> cp \<and> cp \<le> 0xDFFF)"
  shows "utf8_ok [] (utf8_encode cp @ r) = utf8_ok [] r"
proof -
  note le = word_le_nat_alt word_unat_eq_iff utf8_ranges_def
  have mod: "cp mod 64 \<le> 63" "cp div 64 mod 64 \<le> 63" "cp div 4096 mod 64 \<le> 63" by (simp_all add: less_Suc_eq_le [symmetric])
  have e: "map unat (utf8_encode cp) = (if cp < 0x80 then [cp]
      else if cp \<le> 0x7FF then [0xC0 + cp div 64, 0x80 + cp mod 64]
      else if cp \<le> 0xFFFF then [0xE0 + cp div 4096, 0x80 + cp div 64 mod 64, 0x80 + cp mod 64]
      else [0xF0 + cp div 262144, 0x80 + cp div 4096 mod 64, 0x80 + cp div 64 mod 64, 0x80 + cp mod 64])"
    by (rule utf8_encode_eq [OF assms(1)])
  consider "cp < 0x80" | "0x80 \<le> cp" "cp \<le> 0x7FF" | "0x800 \<le> cp" "cp \<le> 0xFFFF" | "0x10000 \<le> cp" by linarith
  then show ?thesis
  proof cases
    case 1
    with e show ?thesis by (auto simp: le)
  next
    case 2
    then have "2 \<le> cp div 64" "cp div 64 < 32" by (simp_all add: less_eq_div_iff_mult_less_eq div_less_iff_less_mult)
    with 2 e mod show ?thesis by (auto simp: le)
  next
    case 3
    define x y where "x = cp div 4096" and "y = cp div 64 mod 64"
    have "cp = 4096 * x + 64 * y + cp mod 64" "y \<le> 63"
      using mult_div_mod_eq [of 4096 cp] mod_mult2_eq [of cp 64 64, simplified] mod unfolding x_def y_def by linarith+
    with 3 assms(2) mod(1) have x: "x < 16" "x = 0 \<Longrightarrow> 32 \<le> y" "x = 13 \<Longrightarrow> y \<le> 31" "y \<le> 63" by linarith+
    obtain a b c where "utf8_encode cp = [a, b, c]" "unat a = 0xE0 + x" "unat b = 0x80 + y" "unat c = 0x80 + cp mod 64"
      using 3 e by (auto simp: x_def y_def)
    with 3 mod utf8_first(1) [of x a] x show ?thesis by (auto simp: word_le_nat_alt)
  next
    case 4
    define x y where "x = cp div 262144" and "y = cp div 4096 mod 64"
    have "cp = 262144 * x + 4096 * y + cp mod 4096" "y \<le> 63" "cp mod 4096 < 4096"
      using mult_div_mod_eq [of 262144 cp] mod_mult2_eq [of cp 4096 64, simplified] mod mod_less_divisor [of 4096 cp, simplified] unfolding x_def y_def by linarith+
    with 4 assms(1) have x: "x \<le> 4" "x = 0 \<Longrightarrow> 16 \<le> y" "x = 4 \<Longrightarrow> y \<le> 15" "y \<le> 63" by linarith+
    obtain a b c d where "utf8_encode cp = [a, b, c, d]" "unat a = 0xF0 + x" "unat b = 0x80 + y" "unat c = 0x80 + cp div 64 mod 64"
        "unat d = 0x80 + cp mod 64"
      using 4 e by (auto simp: x_def y_def)
    with 4 mod utf8_first(2) [of x a] x show ?thesis by (auto simp: word_le_nat_alt)
  qed
qed

lemma utf8_ok_append: "utf8_ok rs s \<Longrightarrow> utf8_ok rs (s @ t) = utf8_ok [] t"
  by (induction rs s rule: utf8_ok.induct) (auto split: option.splits if_splits)

lemma hex_value_less: "hex_value c = Some v \<Longrightarrow> v < 16"
  by (auto simp: hex_value_def word_le_nat_alt split: option.splits if_splits)

lemma codepoint_loop_bound:
  "codepoint_loop fs n s = Some (cp, s1) \<Longrightarrow> cp \<le> n + 15 * sum_list (map (\<lambda>f. 2 ^ f) fs)"
proof (induction fs arbitrary: n s)
  case (Cons f fs)
  then obtain v s2 where v: "hex_value (fst (lex_get s)) = Some v" "codepoint_loop fs (n + push_bit f v) s2 = Some (cp, s1)"
    by (auto split: prod.splits option.splits)
  have "push_bit f v \<le> 15 * 2 ^ f" using hex_value_less [OF v(1)] by (simp add: push_bit_eq_mult)
  then show ?case using Cons.IH [OF v(2)] by (simp add: algebra_simps)
qed simp

lemma get_codepoint_less: "get_codepoint s = Some (cp, s1) \<Longrightarrow> cp \<le> 0xFFFF"
  using codepoint_loop_bound [of "[12, 8, 4, 0]" 0 s cp s1] by (simp add: get_codepoint_def)

lemma unicode_escape_valid: "scan_unicode_escape s = Some (cs, s1) \<Longrightarrow> utf8_ok [] (cs @ r) = utf8_ok [] r"
proof -
  assume a: "scan_unicode_escape s = Some (cs, s1)"
  then obtain c1 s2 where c1: "get_codepoint s = Some (c1, s2)" by (auto simp: scan_unicode_escape_def split: option.splits)
  show "utf8_ok [] (cs @ r) = utf8_ok [] r"
  proof (cases "0xD800 \<le> c1 \<and> c1 \<le> 0xDBFF")
    case True
    with a c1 obtain c2 where c2: "0xDC00 \<le> c2" "c2 \<le> 0xDFFF" "cs = utf8_encode (push_bit 10 c1 + c2 - 0x35FDC00)"
      by (auto simp: scan_unicode_escape_def split: option.splits prod.splits if_splits)
    have "push_bit 10 c1 + c2 - 0x35FDC00 < 0x110000" "0x10000 \<le> push_bit 10 c1 + c2 - 0x35FDC00"
      using True c2(1,2) by (auto simp: push_bit_eq_mult)
    then show ?thesis unfolding c2(3) by (intro utf8_ok_encode) auto
  next
    case False
    with a c1 have "cs = utf8_encode c1" "\<not> (0xD800 \<le> c1 \<and> c1 \<le> 0xDFFF)"
      by (auto simp: scan_unicode_escape_def split: if_splits)
    then show ?thesis using get_codepoint_less [OF c1] utf8_ok_encode [of c1 r] by simp
  qed
qed

lemma next_byte_valid:
  "next_byte_in_range rs buf s = Some (cs, s1) \<Longrightarrow> \<exists>p. cs = buf @ p \<and> utf8_ok rs p"
proof (induction rs arbitrary: buf s)
  case (Cons range rs)
  obtain lo hi where "range = (lo, hi)" by (cases range)
  with Cons.prems obtain c s2 where c: "lo \<le> c" "c \<le> hi" "next_byte_in_range rs (buf @ [c]) s2 = Some (cs, s1)"
    by (auto split: prod.splits option.splits if_splits)
  then obtain p where "cs = (buf @ [c]) @ p" "utf8_ok rs p" using Cons.IH by blast
  with c \<open>range = (lo, hi)\<close> show ?case by (intro exI [of _ "c # p"]) simp
qed simp

lemma scan_item_valid: "scan_item s = S_chars cs s1 \<Longrightarrow> utf8_ok [] cs"
proof -
  assume a: "scan_item s = S_chars cs s1"
  then obtain c s2 where s: "s = c # s2" by (cases s) (auto simp: scan_item_def)
  consider "c = 0x5C" | "c \<noteq> 0x5C" "c \<le> 0x7F" | "c \<noteq> 0x5C" "\<not> c \<le> 0x7F" by blast
  then show "utf8_ok [] cs"
  proof cases
    case 1
    then have "scan_escape s2 = Some (cs, s1)" using a s by (auto simp: scan_item_def string_item_of_def split: option.splits)
    then show ?thesis using unicode_escape_valid [of _ cs s1 "[]"]
      by (auto simp: scan_escape_def split: prod.splits option.splits if_splits)
  next
    case 2
    then show ?thesis using a s by (auto simp: scan_item_def split: if_splits)
  next
    case 3
    then obtain rs where "utf8_ranges c = Some rs" "next_byte_in_range rs [c] s2 = Some (cs, s1)"
      using a s by (auto simp: scan_item_def string_item_of_def split: if_splits option.splits)
    with 3 next_byte_valid [of rs "[c]" s2 cs s1] show ?thesis by auto
  qed
qed

lemma scan_string_valid: "scan_string buf s = (value_string str, s1) \<Longrightarrow> utf8_ok [] buf \<Longrightarrow> utf8_ok [] str"
proof (induction buf s rule: scan_string.induct)
  case (1 buf s)
  show ?case
  proof (cases "scan_item s")
    case (S_chars cs s2)
    then show ?thesis using 1 scan_item_valid [OF S_chars] utf8_ok_append [of "[]" buf cs] by (simp add: scan_string.simps [of buf s])
  qed (use 1(2,3) in \<open>auto simp: scan_string.simps [of buf s]\<close>)
qed

lemma scan_token_valid: "scan_token s = (value_string str, s1) \<Longrightarrow> valid_utf8 str"
proof -
  have "fst (scan_literal ls t r) \<noteq> value_string str" if "t \<noteq> value_string str" for ls t r
    using that by (induction ls arbitrary: r) (auto split: prod.splits)
  then have lit: "scan_literal ls t r \<noteq> (value_string str, s1)" if "t \<noteq> value_string str" for ls t r
    using that by (metis fst_conv)
  have num: "scan_number c r \<noteq> (value_string str, s1)" for c r
    by (auto simp: scan_number_def Let_def number_token_def split: option.splits prod.splits num_type.splits if_splits)
  show "scan_token s = (value_string str, s1) \<Longrightarrow> valid_utf8 str"
    using lit num scan_string_valid [of "[]"]
    by (auto simp: scan_token_def valid_utf8_def simp del: scan_literal.simps split: prod.splits option.splits if_splits)
qed

end
