(* ===== verification/Json_Props.thy ===== *)
theory Json_Props
  imports Json_Strings
begin

text \<open>
  The JSON library: integers are printed as their decimal digits, and what the serializer prints the parser reads back.
\<close>

subsection \<open>Integers\<close>

lemma digits_2:
  assumes "100 \<le> n"
  shows "dec n = dec (n div 100) @ [48 + of_nat (n mod 100 div 10), 48 + of_nat (n mod 100 mod 10)]"
proof -
  have "n mod 100 = 10 * (n div 10 mod 10) + n mod 10" using mod_mult2_eq [of n 10 10] by simp
  then have "n mod 100 div 10 = n div 10 mod 10" "n mod 100 mod 10 = n mod 10" by simp_all
  moreover have "\<not> n < 10" "\<not> n div 10 < 10" "n div 10 div 10 = n div 100" using assms by (simp_all add: div_mult2_eq [symmetric])
  ultimately show ?thesis by (simp add: dec.simps [of n] dec.simps [of "n div 10"])
qed

lemma dec_small: "n < 10 \<Longrightarrow> dec n = [48 + of_nat n]" "10 \<le> n \<Longrightarrow> n < 100 \<Longrightarrow> dec n = [48 + of_nat (n div 10), 48 + of_nat (n mod 10)]"
  by (simp_all add: dec.simps)

lemma length_dec_step: "10 \<le> n \<Longrightarrow> length (dec n) = Suc (length (dec (n div 10)))"
  by (subst dec.simps) simp

lemma count_digits_from_eq: "count_digits_from n x + 1 = n + length (dec (unat x))"
proof (induction n x rule: count_digits_from.induct)
  case (1 n x)
  have w: "x < 10 \<longleftrightarrow> unat x < 10" "x < 100 \<longleftrightarrow> unat x < 100" "x < 1000 \<longleftrightarrow> unat x < 1000" "x < 10000 \<longleftrightarrow> unat x < 10000"
    by (simp_all add: word_less_nat_alt)
  have d: "unat (x div 10000) = unat x div 10 div 10 div 10 div 10" by (simp add: unat_div div_mult2_eq [symmetric])
  show ?case
  proof (cases "unat x < 10000")
    case True
    then show ?thesis
      by (subst count_digits_from.simps) (auto simp: w length_dec_step dec_small)
  next
    case False
    then have "length (dec (unat x)) = 4 + length (dec (unat x div 10 div 10 div 10 div 10))"
      by (simp add: length_dec_step)
    then show ?thesis using 1 False by (subst count_digits_from.simps) (simp add: w d)
  qed
qed

lemma fill_digits_eq:
  "length (dec (unat x)) \<le> p \<Longrightarrow> p \<le> length buf \<Longrightarrow>
   fill_digits x p buf = take (p - length (dec (unat x))) buf @ dec (unat x) @ drop p buf"
proof (induction x p buf rule: fill_digits.induct)
  case (1 x p buf)
  have w: "100 \<le> x \<longleftrightarrow> 100 \<le> unat x" "10 \<le> x \<longleftrightarrow> 10 \<le> unat x" "unat (x mod 100) = unat x mod 100" "unat (x div 100) = unat x div 100"
    by (simp_all add: word_le_nat_alt unat_mod unat_div)
  consider "unat x < 10" | "10 \<le> unat x" "unat x < 100" | "100 \<le> unat x" by linarith
  then show ?case
  proof cases
    case 1
    have "(48 + ucast x :: byte) = 48 + of_nat (unat x)" by simp
    with 1 show ?thesis using "1.prems"
      by (subst fill_digits.simps) (simp add: w dec_small upd_conv_take_nth_drop)
  next
    case 2
    then have "2 \<le> p" using "1.prems" by (simp add: dec_small)
    then obtain q where "p = Suc (Suc q)" by (metis Suc_le_D numeral_2_eq_2 Suc_le_mono)
    with 2 show ?thesis using "1.prems"
      by (subst fill_digits.simps)
        (simp add: w dec_small digits_to_99_def upd_conv_take_nth_drop Cons_nth_drop_Suc [symmetric])
  next
    case 3
    let ?ds = "[48 + of_nat (unat x mod 100 div 10), 48 + of_nat (unat x mod 100 mod 10)] :: bytes"
    define B where "B = buf[p - 1 := 48 + of_nat (unat x mod 100 mod 10), p - 2 := 48 + of_nat (unat x mod 100 div 10)]"
    have len: "length (dec (unat x)) = length (dec (unat x div 100)) + 2" using 3 by (simp add: digits_2)
    then obtain q where q: "p = Suc (Suc q)" using "1.prems" by (metis Suc_le_D add_2_eq_Suc' Suc_le_mono)
    have b: "B = take q buf @ ?ds @ drop p buf" using q "1.prems"
      by (simp add: B_def upd_conv_take_nth_drop)
    have "fill_digits x p buf = fill_digits (x div 100) (p - 2) B"
      using 3 by (subst fill_digits.simps) (simp add: w digits_to_99_def B_def)
    also have "\<dots> = take (p - 2 - length (dec (unat x div 100))) B @ dec (unat x div 100) @ drop (p - 2) B"
      using "1.IH" [OF _ refl] 3 "1.prems" len by (simp add: w digits_to_99_def B_def)
    finally show ?thesis using q "1.prems" len by (simp add: b digits_2 [OF 3])
  qed
qed

lemma length_dec: "n < 10 ^ k \<Longrightarrow> 0 < k \<Longrightarrow> length (dec n) \<le> k"
proof (induction k arbitrary: n)
  case (Suc k)
  show ?case
  proof (cases "n < 10")
    case False
    then have "n div 10 < 10 ^ k" "0 < k" using Suc.prems by (auto simp: div_less_iff_less_mult mult.commute intro: Suc_lessI gr0I)
    then show ?thesis using Suc.IH [of "n div 10"] False by (simp add: length_dec_step)
  qed (simp add: dec_small)
qed simp

lemma length_dec_u64: "length (dec (unat (x :: u64))) \<le> 20"
  by (rule length_dec) (use unat_bound [of x] in \<open>simp_all\<close>)

lemma dump_abs_eq: "dump_abs False x = dec (unat x)" "dump_abs True x = 45 # dec (unat x)"
proof -
  have n: "count_digits x = length (dec (unat x))" using count_digits_from_eq [of 1 x] by (simp add: count_digits_def)
  have "take (Suc 0) ((replicate 64 0)[0 := 45]) = ([45] :: bytes)" by (simp add: upd_conv_take_nth_drop)
  then show "dump_abs False x = dec (unat x)" "dump_abs True x = 45 # dec (unat x)"
    using length_dec_u64 [of x] by (simp_all add: dump_abs_def n fill_digits_eq NUMBER_BUFFER_SIZE_def)
qed

lemma dump_unsigned_eq: "dump_unsigned x = dec (unat x)"
  by (simp add: dump_unsigned_def dump_abs_eq dec_small)

lemma remove_sign_eq: "- (2 ^ 63) \<le> i \<Longrightarrow> i < 0 \<Longrightarrow> unat (remove_sign i) = nat (- i)"
proof -
  assume i: "- (2 ^ 63) \<le> i" "i < 0"
  have "remove_sign i = word_of_int (- i)" by (simp add: remove_sign_def)
  then have "unat (remove_sign i) = nat (take_bit 64 (- i))" by (simp only: unsigned_of_int) simp
  then show "unat (remove_sign i) = nat (- i)" using i by (simp add: take_bit_int_eq_self)
qed

lemma dump_signed_eq:
  assumes "- (2 ^ 63) \<le> i" "i < 2 ^ 63"
  shows "dump_signed i = dec_int i"
proof -
  have "unat (word_of_int i :: u64) = nat i" if "0 \<le> i" using assms that by (simp add: unsigned_of_int take_bit_int_eq_self)
  then show ?thesis using remove_sign_eq [of i] assms by (simp add: dump_signed_def dump_abs_eq dec_int_def dec_small)
qed

subsection \<open>Reading an integer\<close>

definition number_end :: "bytes \<Rightarrow> bool" where
  "number_end r \<longleftrightarrow> (case r of [] \<Rightarrow> True | c # _ \<Rightarrow> \<not> is_digit c \<and> c \<noteq> 0x2E \<and> c \<noteq> 0x65 \<and> c \<noteq> 0x45)"

lemma num_loop_digits:
  "\<forall>c \<in> set ds. is_digit c \<Longrightarrow> number_end r \<Longrightarrow> num_loop scan_number_any1 t buf (ds @ r) = Some (t, buf @ ds, r)"
proof (induction ds arbitrary: buf)
  case Nil
  then show ?case by (cases r) (simp_all add: number_end_def)
qed simp

lemma digits_dec: "c \<in> set (dec n) \<Longrightarrow> is_digit c"
  using dec_digits [of c n] by (simp add: is_digit_def)

lemma dec_Cons: "0 < n \<Longrightarrow> \<exists>c cs. dec n = c # cs \<and> is_digit c \<and> c \<noteq> 48"
proof (induction n rule: dec.induct)
  case (1 n)
  show ?case
  proof (cases "n < 10")
    case True
    then have "unat (48 + of_nat n :: byte) = 48 + n" using unat_of_nat_byte [of "48 + n"] by simp
    then have "is_digit (48 + of_nat n)" "(48 + of_nat n :: byte) \<noteq> 48"
      using True 1(2) unfolding is_digit_def word_le_nat_alt word_unat_eq_iff by simp_all
    then show ?thesis using True by (simp add: dec_small)
  next
    case False
    then show ?thesis using 1(1) [OF False] by (subst dec.simps) force
  qed
qed

lemma scan_number_dec:
  assumes "number_end r"
  shows "n < 2 ^ 64 \<Longrightarrow> \<exists>c cs. dec n = c # cs \<and> is_digit c \<and> scan_number c (cs @ r) = (value_unsigned (of_nat n), r)"
    and "0 < n \<Longrightarrow> n \<le> 2 ^ 63 \<Longrightarrow> scan_number 0x2D (dec n @ r) = (value_integer (- int n), r)"
proof -
  have zero: "num_loop scan_number_zero t buf r = Some (t, buf, r)" for t buf
    using assms by (cases r) (simp_all add: number_end_def)
  show "\<exists>c cs. dec n = c # cs \<and> is_digit c \<and> scan_number c (cs @ r) = (value_unsigned (of_nat n), r)" if n: "n < 2 ^ 64"
  proof (cases "n = 0")
    case True
    then show ?thesis using zero by (simp add: dec_small is_digit_def scan_number_def number_token_def undec_def)
  next
    case False
    then obtain c cs where c: "dec n = c # cs" "is_digit c" "c \<noteq> 48" using dec_Cons by blast
    then have "\<forall>c \<in> set cs. is_digit c" using digits_dec [of _ n] by simp
    from num_loop_digits [OF this assms] c n show ?thesis
      using undec_dec [of n] by (auto simp: scan_number_def number_token_def is_digit_def)
  qed
  show "scan_number 0x2D (dec n @ r) = (value_integer (- int n), r)" if n: "0 < n" "n \<le> 2 ^ 63"
  proof -
    obtain c cs where c: "dec n = c # cs" "is_digit c" "c \<noteq> 48" using dec_Cons n by blast
    then have "\<forall>c \<in> set cs. is_digit c" using digits_dec [of _ n] by simp
    from num_loop_digits [OF this assms] c n show ?thesis
      using undec_dec [of n] by (simp add: scan_number_def number_token_def)
  qed
qed

lemma scan_token_dec:
  assumes "number_end r"
  shows "n < 2 ^ 64 \<Longrightarrow> scan_token (dec n @ r) = (value_unsigned (of_nat n), r)"
    and "0 < n \<Longrightarrow> n \<le> 2 ^ 63 \<Longrightarrow> scan_token (45 # dec n @ r) = (value_integer (- int n), r)"
proof -
  show "scan_token (dec n @ r) = (value_unsigned (of_nat n), r)" if n: "n < 2 ^ 64"
  proof -
    obtain c cs where c: "dec n = c # cs" "is_digit c" "scan_number c (cs @ r) = (value_unsigned (of_nat n), r)"
      using scan_number_dec(1) [OF assms n] by blast
    from c(2) have "\<not> is_space c" "c \<notin> {0x5B, 0x5D, 0x7B, 0x7D, 0x3A, 0x2C, 0x74, 0x66, 0x6E, 0x22}"
      by (auto simp: is_digit_def is_space_def)
    then show ?thesis using c by (simp add: scan_token_def skip_whitespace_def)
  qed
  show "scan_token (45 # dec n @ r) = (value_integer (- int n), r)" if "0 < n" "n \<le> 2 ^ 63"
    using scan_number_dec(2) [OF assms that] by (simp add: scan_token_def skip_whitespace_def is_space_def)
qed

subsection \<open>Reading what was printed\<close>

text \<open>Well-formed values: strings of UTF-8, integers of the signed type, the keys of an object in the order of the map.\<close>

fun json_wf :: "json \<Rightarrow> bool" where
  "json_wf (J_string s) = valid_utf8 s"
| "json_wf (J_integer i) = (- (2 ^ 63) \<le> i \<and> i < 2 ^ 63)"
| "json_wf (J_array vs) = list_all json_wf vs"
| "json_wf (J_object ms) = (sorted_wrt bytes_less (map fst ms) \<and> list_all (\<lambda>(k, v). valid_utf8 k \<and> json_wf v) ms)"
| "json_wf _ = True"

fun float_free :: "json \<Rightarrow> bool" where
  "float_free (J_float _ _) = False"
| "float_free (J_array vs) = list_all float_free vs"
| "float_free (J_object ms) = list_all (\<lambda>(_, v). float_free v) ms"
| "float_free _ = True"

text \<open>A non-negative integer is read back as an unsigned one.\<close>

fun json_norm :: "json \<Rightarrow> json" where
  "json_norm (J_integer i) = (if 0 \<le> i then J_unsigned (word_of_int i) else J_integer i)"
| "json_norm (J_array vs) = J_array (map json_norm vs)"
| "json_norm (J_object ms) = J_object (map (\<lambda>(k, v). (k, json_norm v)) ms)"
| "json_norm j = j"

definition text_end :: "bytes \<Rightarrow> bool" where
  "text_end r \<longleftrightarrow> (case r of [] \<Rightarrow> True | c # _ \<Rightarrow> c = 0x2C \<or> c = 0x5D \<or> c = 0x7D)"

lemma text_end_simps [simp]: "text_end []" "text_end (0x2C # r)" "text_end (0x5D # r)" "text_end (0x7D # r)"
  by (simp_all add: text_end_def)

lemma number_end: "text_end r \<Longrightarrow> number_end r"
  by (auto simp: text_end_def number_end_def is_digit_def split: list.splits)

lemma scan_token_simps:
  "scan_token [] = (end_of_input, [])"
  "scan_token (0x2C # r) = (value_separator, r)" "scan_token (0x3A # r) = (name_separator, r)"
  "scan_token (0x5B # r) = (begin_array, r)" "scan_token (0x5D # r) = (end_array, r)"
  "scan_token (0x7B # r) = (begin_object, r)" "scan_token (0x7D # r) = (end_object, r)"
  "scan_token (0x22 # r) = scan_string [] r"
  "scan_token (bytes_of ''true'' @ r) = (literal_true, r)" "scan_token (bytes_of ''false'' @ r) = (literal_false, r)"
  "scan_token (bytes_of ''null'' @ r) = (literal_null, r)"
  by (simp_all add: scan_token_def skip_whitespace_def is_space_def bytes_of_def)

definition reads :: "bytes \<Rightarrow> json \<Rightarrow> bool" where
  "reads t v \<longleftrightarrow> (\<forall>r. text_end r \<longrightarrow> (\<exists>tok s. scan_token (t @ r) = (tok, s) \<and> tok \<noteq> end_array \<and>
     (\<forall>states. parse_value tok s states = parse_next v r states)))"

lemma reads_scalar:
  assumes "\<And>r. text_end r \<Longrightarrow> scan_token (t @ r) = (tok, r)" "tok \<noteq> end_array"
    "\<And>r states. parse_value tok r states = parse_next v r states"
  shows "reads t v"
  using assms by (auto simp: reads_def)

lemma scan_string_text: "valid_utf8 s \<Longrightarrow> scan_token (0x22 # escaped s @ 0x22 # r) = (value_string s, r)"
  using scan_string_escaped [of s "[]" r] by (simp add: scan_token_simps valid_utf8_def)

lemma dump_string_eq: "dump_string s = (if valid_utf8 s then Inr (0x22 # escaped s @ [0x22]) else Inl Type_error)"
  by (simp add: dump_string_def dump_escaped_eq)

lemma read_key_text: "valid_utf8 k \<Longrightarrow> read_key (scan_token (0x22 # escaped k @ 0x22 # 0x3A # r)) = Some (k, r)"
  using scan_string_text [of k "0x3A # r"] by (simp add: read_key_def scan_token_simps)

lemma parse_array_rest:
  assumes "list_all2 reads ts vs"
  shows "parse_next v (concat (map ((#) 0x2C) ts) @ 0x5D # r) (F_array acc # st) = parse_next (J_array (acc @ v # vs)) r st"
  using assms
proof (induction ts vs arbitrary: acc v rule: list_all2_induct)
  case Nil
  then show ?case by (subst parse_next.simps) (simp add: scan_token_simps)
next
  case (Cons t ts v' vs)
  let ?r = "concat (map ((#) 0x2C) ts) @ 0x5D # r"
  have "text_end ?r" by (cases ts) simp_all
  then obtain tok s where "scan_token (t @ ?r) = (tok, s)" "\<And>st. parse_value tok s st = parse_next v' ?r st"
    using Cons(1) unfolding reads_def by blast
  then show ?case using Cons(3) [of v' "acc @ [v]"] by (subst parse_next.simps) (simp add: scan_token_simps)
qed

lemma join_comma_Cons: "join_comma (t # ts) = t @ concat (map ((#) 0x2C) ts)"
  by (induction ts arbitrary: t) simp_all

lemma reads_array:
  assumes "list_all2 reads ts vs"
  shows "reads (0x5B # join_comma ts @ [0x5D]) (J_array vs)"
proof (cases "ts = []")
  case True
  then have "vs = []" using assms by simp
  then show ?thesis using True by (auto simp: reads_def scan_token_simps parse_value.simps [of begin_array])
next
  case False
  then obtain t ts' v vs' where c: "ts = t # ts'" "vs = v # vs'" "reads t v" "list_all2 reads ts' vs'"
    using assms by (cases ts; cases vs) auto
  show ?thesis
    unfolding reads_def
  proof (intro allI impI exI conjI)
    fix r st assume "text_end r"
    let ?r = "concat (map ((#) 0x2C) ts') @ 0x5D # r"
    show "scan_token ((0x5B # join_comma ts @ [0x5D]) @ r) = (begin_array, t @ ?r)"
      using c by (simp add: scan_token_simps join_comma_Cons)
    have "text_end ?r" by (cases ts') simp_all
    then obtain tok s where "scan_token (t @ ?r) = (tok, s)" "tok \<noteq> end_array" "\<And>st. parse_value tok s st = parse_next v ?r st"
      using c(3) unfolding reads_def by blast
    then show "parse_value begin_array (t @ ?r) st = parse_next (J_array vs) r st"
      using parse_array_rest [OF c(4), of v r "[]" st] c by (subst parse_value.simps) simp
  qed simp
qed

subsection \<open>Objects\<close>

lemma bytes_less_irrefl: "\<not> bytes_less a a"
  by (induction a) auto

lemma bytes_less_asym: "bytes_less a b \<Longrightarrow> \<not> bytes_less b a"
  by (induction a b rule: bytes_less.induct) auto

lemma put_member_last: "\<forall>k' \<in> fst ` set ms. bytes_less k' k \<Longrightarrow> put_member k v ms = ms @ [(k, v)]"
  by (induction ms) (use bytes_less_irrefl bytes_less_asym in \<open>fastforce+\<close>)

definition member_text :: "bytes \<Rightarrow> bytes \<Rightarrow> bytes" where
  "member_text k t = 0x22 # escaped k @ 0x22 # 0x3A # t"

definition reads_member :: "bytes \<Rightarrow> bytes \<times> json \<Rightarrow> bool" where
  "reads_member m kv \<longleftrightarrow> (\<exists>t. m = member_text (fst kv) t \<and> valid_utf8 (fst kv) \<and> reads t (snd kv))"

lemma parse_object_rest:
  assumes "list_all2 reads_member ts ms" "sorted_wrt bytes_less (map fst acc @ k # map fst ms)"
  shows "parse_next v (concat (map ((#) 0x2C) ts) @ 0x7D # r) (F_object acc k # st) = parse_next (J_object (acc @ (k, v) # ms)) r st"
  using assms
proof (induction ts ms arbitrary: acc k v rule: list_all2_induct)
  case Nil
  then show ?case by (subst parse_next.simps) (simp add: scan_token_simps put_member_last sorted_wrt_append)
next
  case (Cons m ts kv ms)
  obtain k' v' t where m: "kv = (k', v')" "m = member_text k' t" "valid_utf8 k'" "reads t v'"
    using Cons(1) unfolding reads_member_def by (cases kv) auto
  let ?r = "concat (map ((#) 0x2C) ts) @ 0x7D # r"
  have "text_end ?r" by (cases ts) simp_all
  then obtain tok s where t: "scan_token (t @ ?r) = (tok, s)" "\<And>st. parse_value tok s st = parse_next v' ?r st"
    using m(4) unfolding reads_def by blast
  have "put_member k v acc = acc @ [(k, v)]" using Cons.prems by (intro put_member_last) (auto simp: sorted_wrt_append)
  moreover have "read_key (scan_token (m @ ?r)) = Some (k', t @ ?r)" using m by (simp add: member_text_def read_key_text)
  moreover have "sorted_wrt bytes_less (map fst (acc @ [(k, v)]) @ k' # map fst ms)" using Cons.prems m by simp
  note Cons(3) [OF this, of v']
  ultimately show ?case using t m(1) by (subst parse_next.simps) (simp add: scan_token_simps)
qed

lemma reads_object:
  assumes "list_all2 reads_member ts ms" "sorted_wrt bytes_less (map fst ms)"
  shows "reads (0x7B # join_comma ts @ [0x7D]) (J_object ms)"
proof (cases "ts = []")
  case True
  then have "ms = []" using assms by simp
  then show ?thesis using True by (auto simp: reads_def scan_token_simps parse_value.simps [of begin_object])
next
  case False
  then obtain m ts' k v ms' where c: "ts = m # ts'" "ms = (k, v) # ms'" "reads_member m (k, v)" "list_all2 reads_member ts' ms'"
    using assms(1) by (cases ts; cases ms) auto
  then obtain t where m: "m = member_text k t" "valid_utf8 k" "reads t v" by (auto simp: reads_member_def)
  show ?thesis
    unfolding reads_def
  proof (intro allI impI exI conjI)
    fix r st assume "text_end r"
    let ?r = "concat (map ((#) 0x2C) ts') @ 0x7D # r"
    show "scan_token ((0x7B # join_comma ts @ [0x7D]) @ r) = (begin_object, m @ ?r)"
      using c by (simp add: scan_token_simps join_comma_Cons)
    have "text_end ?r" by (cases ts') simp_all
    then obtain tok s where t: "scan_token (t @ ?r) = (tok, s)" "\<And>st. parse_value tok s st = parse_next v ?r st"
      using m(3) unfolding reads_def by blast
    have "scan_token (m @ ?r) = (value_string k, 0x3A # t @ ?r)" using m by (simp add: member_text_def scan_string_text)
    then show "parse_value begin_object (m @ ?r) st = parse_next (J_object ms) r st"
      using parse_object_rest [OF c(4), of "[]" k v r st] assms(2) c t
      by (subst parse_value.simps) (simp add: read_key_def scan_token_simps)
  qed simp
qed

subsection \<open>The round trip\<close>

lemma json_sequence_all2:
  "(\<And>x. x \<in> set xs \<Longrightarrow> \<exists>t. f x = Inr t \<and> P t (g x)) \<Longrightarrow> \<exists>ts. json_sequence (map f xs) = Inr ts \<and> list_all2 P ts (map g xs)"
proof (induction xs)
  case (Cons x xs)
  then obtain ts where ts: "json_sequence (map f xs) = Inr ts" "list_all2 P ts (map g xs)" by auto
  obtain t where "f x = Inr t" "P t (g x)" using Cons.prems [of x] by auto
  with ts show ?case by simp
qed simp

lemma scan_literals:
  "scan_token (0x74 # 0x72 # 0x75 # 0x65 # r) = (literal_true, r)" "scan_token (0x66 # 0x61 # 0x6C # 0x73 # 0x65 # r) = (literal_false, r)"
  "scan_token (0x6E # 0x75 # 0x6C # 0x6C # r) = (literal_null, r)"
  using scan_token_simps(9-11) [of r] by (simp_all add: bytes_of_def)

lemma reads_bool: "reads (if b then bytes_of ''true'' else bytes_of ''false'') (J_boolean b)"
  by (rule reads_scalar [of _ "if b then literal_true else literal_false"]) (simp_all add: scan_literals parse_value.simps)

lemma reads_null: "reads (bytes_of ''null'') J_null"
  by (rule reads_scalar [of _ literal_null]) (simp_all add: scan_literals parse_value.simps)

lemma reads_unsigned: "reads (dump_unsigned u) (J_unsigned u)"
  using scan_token_dec(1) [OF number_end, of _ "unat u"] unat_bound [of u]
  by (intro reads_scalar [of _ "value_unsigned u"]) (simp_all add: dump_unsigned_eq parse_value.simps)

lemma reads_signed:
  assumes "- (2 ^ 63) \<le> i" "i < 2 ^ 63"
  shows "reads (dump_signed i) (json_norm (J_integer i))"
proof (cases "0 \<le> i")
  case True
  have "nat i < 2 ^ 64" "of_nat (nat i) = (word_of_int i :: u64)" using True assms by simp_all
  then show ?thesis using True scan_token_dec(1) [OF number_end, of _ "nat i"]
    by (intro reads_scalar [of _ "value_unsigned (word_of_int i)"]) (simp_all add: dump_signed_eq [OF assms] dec_int_def parse_value.simps)
next
  case False
  then have "0 < nat (- i)" "nat (- i) \<le> 2 ^ 63" "- int (nat (- i)) = i" using assms by simp_all
  then show ?thesis using False scan_token_dec(2) [OF number_end, of _ "nat (- i)"]
    by (intro reads_scalar [of _ "value_integer i"]) (simp_all add: dump_signed_eq [OF assms] dec_int_def parse_value.simps)
qed

lemma reads_string: "valid_utf8 s \<Longrightarrow> reads (0x22 # escaped s @ [0x22]) (J_string s)"
  by (rule reads_scalar [of _ "value_string s"]) (simp_all add: scan_string_text parse_value.simps)

lemma dump_reads:
  "json_wf j \<Longrightarrow> float_free j \<Longrightarrow> \<exists>t. dump_value fl j = Inr t \<and> reads t (json_norm j)"
proof (induction j)
  case (J_string s)
  then show ?case by (auto simp: dump_string_eq reads_string)
next
  case (J_array vs)
  have "\<exists>ts. json_sequence (map (dump_value fl) vs) = Inr ts \<and> list_all2 reads ts (map json_norm vs)"
    by (rule json_sequence_all2) (use J_array in \<open>auto simp: list_all_iff\<close>)
  then obtain ts where "json_sequence (map (dump_value fl) vs) = Inr ts" "list_all2 reads ts (map json_norm vs)" by blast
  then show ?case using reads_array [of ts "map json_norm vs"] by simp
next
  case (J_object ms)
  let ?f = "\<lambda>(k, v). json_bind (dump_string k) (\<lambda>kt. json_bind (dump_value fl v) (\<lambda>vt. Inr (kt @ [0x3A] @ vt)))"
  let ?g = "\<lambda>(k, v). (k, json_norm v)"
  have "\<exists>ts. json_sequence (map ?f ms) = Inr ts \<and> list_all2 reads_member ts (map ?g ms)"
  proof (rule json_sequence_all2)
    fix kv assume kv: "kv \<in> set ms"
    obtain k v where [simp]: "kv = (k, v)" by (cases kv)
    have k: "valid_utf8 k" "json_wf v" "float_free v" using kv J_object.prems by (auto simp: list_all_iff)
    then obtain t where "dump_value fl v = Inr t" "reads t (json_norm v)" using J_object.IH [of kv v] kv by auto
    then show "\<exists>t. ?f kv = Inr t \<and> reads_member t (?g kv)"
      using k by (simp add: dump_string_eq reads_member_def member_text_def)
  qed
  then obtain ts where ts: "json_sequence (map ?f ms) = Inr ts" "list_all2 reads_member ts (map ?g ms)" by blast
  have "map fst (map ?g ms) = map fst ms" by (simp add: comp_def case_prod_beta)
  then have "sorted_wrt bytes_less (map fst (map ?g ms))" using J_object.prems by (simp only: json_wf.simps)
  then have "reads (0x7B # join_comma ts @ [0x7D]) (J_object (map ?g ms))" by (rule reads_object [OF ts(2)])
  then show ?case using ts by simp
next
  case J_null
  then show ?case using reads_null by simp
qed (simp_all add: reads_bool reads_unsigned reads_signed del: json_norm.simps(1))

lemma parse_reads: "reads t v \<Longrightarrow> parse_text t = Inr v"
proof -
  assume "reads t v"
  then obtain tok s where t: "scan_token t = (tok, s)" "parse_value tok s [] = parse_next v [] []"
    unfolding reads_def by (metis append_Nil2 text_end_simps(1))
  have "skip_bom t = Some t"
  proof (rule ccontr)
    assume "skip_bom t \<noteq> Some t"
    then obtain s' where "t = 0xEF # s'" by (cases t) (auto simp: skip_bom_def split: if_splits)
    then have "tok = parse_error_token" using t(1) by (simp add: scan_token_def skip_whitespace_def is_space_def is_digit_def)
    then show False using t(2) by (simp add: parse_value.simps parse_next.simps)
  qed
  then show "parse_text t = Inr v"
    using t by (simp add: parse_text_def lex_scan_def parse_next.simps scan_token_simps)
qed

lemma json_round_trip:
  assumes "json_wf j" "float_free j"
  obtains t where "dump_value fl j = Inr t" "parse_text t = Inr (json_norm j)"
  using dump_reads [OF assms, of fl] parse_reads by blast

subsection \<open>What the parser returns\<close>

definition token_wf :: "token \<Rightarrow> bool" where
  "token_wf tok = (case tok of value_string s \<Rightarrow> valid_utf8 s | value_integer i \<Rightarrow> - (2 ^ 63) \<le> i \<and> i \<le> 0 | _ \<Rightarrow> True)"

lemma token_wf_simps [simp]:
  "token_wf literal_true" "token_wf literal_false" "token_wf literal_null" "token_wf begin_array" "token_wf begin_object" "token_wf end_array"
  "token_wf end_object" "token_wf name_separator" "token_wf value_separator" "token_wf parse_error_token" "token_wf end_of_input"
  by (simp_all add: token_wf_def)

lemma scan_literal_wf: "token_wf t \<Longrightarrow> token_wf (fst (scan_literal ls t r))"
  by (induction ls arbitrary: r) (auto split: prod.splits)

lemma scan_number_wf: "token_wf (fst (scan_number c r))"
  by (auto simp: scan_number_def Let_def number_token_def token_wf_def split: option.splits prod.splits num_type.splits if_splits)

lemma scan_string_wf: "token_wf (fst (scan_string [] r))"
proof -
  have kind: "(\<exists>str. fst (scan_string buf r) = value_string str) \<or> fst (scan_string buf r) = parse_error_token" for buf
    by (induction buf r rule: scan_string.induct) (auto simp: scan_string.simps split: string_item.splits)
  have valid: "valid_utf8 str" if "fst (scan_string [] r) = value_string str" for str
    using scan_string_valid [of "[]" r str "snd (scan_string [] r)"] that by (simp add: valid_utf8_def prod_eq_iff)
  from kind [of "[]"] show ?thesis by (elim disjE exE) (simp_all add: valid token_wf_def)
qed

lemma scan_token_wf: "token_wf (fst (scan_token s))"
  using scan_literal_wf scan_number_wf scan_string_wf
  by (auto simp: scan_token_def simp del: scan_literal.simps split: prod.splits option.splits)

lemma bytes_less_trans: "bytes_less a b \<Longrightarrow> bytes_less b c \<Longrightarrow> bytes_less a c"
proof (induction a b arbitrary: c rule: bytes_less.induct)
  case (2 b bs)
  then show ?case by (cases c) auto
next
  case (3 a as b bs)
  then show ?case by (cases c) auto
qed simp

lemma bytes_less_total: "a \<noteq> b \<Longrightarrow> \<not> bytes_less a b \<Longrightarrow> bytes_less b a"
proof (induction a b rule: bytes_less.induct)
  case (1 a)
  then show ?case by (cases a) auto
qed auto

lemma put_member_keys: "fst ` set (put_member k v ms) = insert k (fst ` set ms)"
  by (induction k v ms rule: put_member.induct) (simp_all add: insert_commute)

lemma put_member_sorted: "sorted_wrt bytes_less (map fst ms) \<Longrightarrow> sorted_wrt bytes_less (map fst (put_member k v ms))"
proof (induction ms)
  case (Cons kv ms)
  obtain k' v' where kv: "kv = (k', v')" by (cases kv)
  have later: "\<forall>x \<in> fst ` set ms. bytes_less k' x" using Cons.prems kv by simp
  show ?case
  proof (cases "k = k' \<or> bytes_less k k'")
    case True
    then show ?thesis using Cons.prems kv later by (auto intro: bytes_less_trans)
  next
    case False
    then have "bytes_less k' k" using bytes_less_total by metis
    moreover have "\<forall>x \<in> fst ` set (put_member k v ms). bytes_less k' x" using later \<open>bytes_less k' k\<close> by (simp add: put_member_keys)
    ultimately show ?thesis using False Cons kv by simp
  qed
qed simp

lemma put_member_wf: "json_wf (J_object ms) \<Longrightarrow> valid_utf8 k \<Longrightarrow> json_wf v \<Longrightarrow> json_wf (J_object (put_member k v ms))"
proof -
  assume a: "json_wf (J_object ms)" "valid_utf8 k" "json_wf v"
  then have "list_all (\<lambda>(k, v). valid_utf8 k \<and> json_wf v) (put_member k v ms)" by (induction ms) auto
  with a put_member_sorted [of ms k v] show ?thesis by simp
qed

fun frame_wf :: "frame \<Rightarrow> bool" where
  "frame_wf (F_array vs) = json_wf (J_array vs)"
| "frame_wf (F_object ms k) = (json_wf (J_object ms) \<and> valid_utf8 k)"

lemma read_key_wf: "read_key (t, s) = Some (k, s1) \<Longrightarrow> token_wf t \<Longrightarrow> valid_utf8 k"
  by (auto simp: read_key_def token_wf_def split: token.splits prod.splits if_splits)

lemma parse_wf:
  shows "parse_value tok s st = Inr (v, s') \<Longrightarrow> token_wf tok \<Longrightarrow> list_all frame_wf st \<Longrightarrow> json_wf v"
    and "parse_next w s st = Inr (v, s') \<Longrightarrow> json_wf w \<Longrightarrow> list_all frame_wf st \<Longrightarrow> json_wf v"
proof (induction tok s st and w s st rule: parse_value_parse_next.induct)
  case (1 tok s st)
  note unfold = parse_value.simps [of _ s st]
  show ?case
  proof (cases tok)
    case begin_object
    obtain t1 s1 where t1: "scan_token s = (t1, s1)" by fastforce
    show ?thesis
    proof (cases "t1 = end_object")
      case True
      then show ?thesis using "1.prems" "1.IH"(10) [OF begin_object t1 [symmetric] True] begin_object t1 by (simp add: unfold)
    next
      case False
      then obtain k s2 where k: "read_key (t1, s1) = Some (k, s2)"
        using "1.prems"(1) begin_object t1 by (auto simp: unfold split: option.splits)
      obtain t3 s3 where t3: "scan_token s2 = (t3, s3)" by fastforce
      have "valid_utf8 k" "token_wf t3" using read_key_wf [OF k] scan_token_wf [of s] scan_token_wf [of s2] t1 t3 by simp_all
      then show ?thesis
        using "1.prems" "1.IH"(11) [OF begin_object t1 [symmetric] False k refl t3 [symmetric]] begin_object t1 t3 k False by (simp add: unfold)
    qed
  next
    case begin_array
    obtain t1 s1 where t1: "scan_token s = (t1, s1)" by fastforce
    have "token_wf t1" using scan_token_wf [of s] t1 by simp
    then show ?thesis
      using "1.prems" "1.IH"(8,9) [OF begin_array t1 [symmetric]] begin_array t1 by (cases "t1 = end_array") (simp_all add: unfold)
  next
    case (value_float f)
    then show ?thesis using "1.prems" "1.IH"(7) by (cases f) (auto simp: unfold)
  qed (use "1.prems" "1.IH" in \<open>auto simp: unfold token_wf_def\<close>)
next
  case (2 w s st)
  note unfold = parse_next.simps [of w s]
  obtain t1 s1 where t1: "scan_token s = (t1, s1)" by fastforce
  show ?case
  proof (cases st)
    case Nil
    then show ?thesis using 2 by (simp add: unfold)
  next
    case (Cons f outer)
    note st = Cons
    show ?thesis
    proof (cases f)
      case (F_array vs)
      obtain t2 s2 where t2: "scan_token s1 = (t2, s2)" by fastforce
      have "token_wf t2" using scan_token_wf [of s1] t2 by simp
      then show ?thesis using "2.prems" "2.IH"(1) [OF st F_array t1 [symmetric] _ t2 [symmetric]] "2.IH"(2) [OF st F_array t1 [symmetric]]
        st F_array t1 t2
        by (cases "t1 = value_separator"; cases "t1 = end_array") (simp_all add: unfold)
    next
      case (F_object ms k)
      then have wf: "json_wf (J_object (put_member k w ms))" using "2.prems" st by (intro put_member_wf) simp_all
      show ?thesis
      proof (cases "t1 = value_separator")
        case True
        then obtain k' s2 where k: "read_key (scan_token s1) = Some (k', s2)"
          using "2.prems"(1) st F_object t1 by (auto simp: unfold split: option.splits)
        obtain t3 s3 where t3: "scan_token s2 = (t3, s3)" by fastforce
        have "valid_utf8 k'" "token_wf t3"
          using read_key_wf [of "fst (scan_token s1)" "snd (scan_token s1)" k' s2] k scan_token_wf [of s1] scan_token_wf [of s2] t3 by simp_all
        then show ?thesis
          using "2.prems" "2.IH"(3) [OF st F_object t1 [symmetric] True k refl t3 [symmetric]] st F_object t1 t3 k True wf by (simp add: unfold)
      next
        case False
        then show ?thesis using "2.prems" "2.IH"(4) [OF st F_object t1 [symmetric] False] st F_object t1 wf
          by (cases "t1 = end_object") (simp_all add: unfold)
      qed
    qed
  qed
qed

lemma parse_text_wf: "parse_text s = Inr j \<Longrightarrow> json_wf j"
proof -
  have "token_wf (fst (lex_scan True s))" using scan_token_wf by (simp add: lex_scan_def split: option.split)
  then show "parse_text s = Inr j \<Longrightarrow> json_wf j"
    using parse_wf(1) [of "fst (lex_scan True s)" "snd (lex_scan True s)" "[]" j]
    by (auto simp: parse_text_def json_bind_def split: prod.splits sum.splits if_splits)
qed

subsection \<open>When printing fails\<close>

text \<open>Printing needs strings of UTF-8 and nothing else.\<close>

fun strings_ok :: "json \<Rightarrow> bool" where
  "strings_ok (J_string s) = valid_utf8 s"
| "strings_ok (J_array vs) = list_all strings_ok vs"
| "strings_ok (J_object ms) = list_all (\<lambda>(k, v). valid_utf8 k \<and> strings_ok v) ms"
| "strings_ok _ = True"

lemma json_wf_strings: "json_wf j \<Longrightarrow> strings_ok j"
  by (induction j) (auto simp: list_all_iff)

lemma json_sequence_ok:
  "(\<And>x. x \<in> set xs \<Longrightarrow> if P x then \<exists>t. f x = Inr t else f x = Inl Type_error) \<Longrightarrow>
   if list_all P xs then \<exists>ts. json_sequence (map f xs) = Inr ts else json_sequence (map f xs) = Inl Type_error"
proof (induction xs)
  case (Cons x xs)
  have "if list_all P xs then \<exists>ts. json_sequence (map f xs) = Inr ts else json_sequence (map f xs) = Inl Type_error"
    using Cons by simp
  with Cons.prems [of x] show ?case by (auto split: if_splits)
qed simp

lemma dump_ok: "if strings_ok j then \<exists>t. dump_value fl j = Inr t else dump_value fl j = Inl Type_error"
proof (induction j)
  case (J_array vs)
  then have "if list_all strings_ok vs then \<exists>ts. json_sequence (map (dump_value fl) vs) = Inr ts
      else json_sequence (map (dump_value fl) vs) = Inl Type_error" by (intro json_sequence_ok) blast
  then show ?case by (auto split: if_splits)
next
  case (J_object ms)
  let ?f = "\<lambda>(k, v). json_bind (dump_string k) (\<lambda>kt. json_bind (dump_value fl v) (\<lambda>vt. Inr (kt @ [0x3A] @ vt)))"
  have "if list_all (\<lambda>(k, v). valid_utf8 k \<and> strings_ok v) ms then \<exists>ts. json_sequence (map ?f ms) = Inr ts
    else json_sequence (map ?f ms) = Inl Type_error"
  proof (rule json_sequence_ok)
    fix kv assume kv: "kv \<in> set ms"
    obtain k v where [simp]: "kv = (k, v)" by (cases kv)
    show "if (case kv of (k, v) \<Rightarrow> valid_utf8 k \<and> strings_ok v) then \<exists>t. ?f kv = Inr t else ?f kv = Inl Type_error"
      using J_object [of kv v] kv by (auto simp: dump_string_eq split: if_splits)
  qed
  then show ?case by (auto split: if_splits)
qed (simp_all add: dump_string_eq)

subsection \<open>The properties\<close>

text \<open>
  C36: What a string becomes.  \<^verbatim>\<open>dump_escaped\<close>, which runs the bytes through its UTF-8 automaton, succeeds exactly on the sequences
  that are well-formed by the byte ranges of the Unicode standard, and throws a \<^verbatim>\<open>type_error\<close> on all others.  What it writes, closed by a quote, \<^verbatim>\<open>scan_string\<close> reads back as the same bytes, stopping at the quote.
\<close>

theorem strings_written_and_read:
  "(case dump_escaped s of
      Inl e \<Rightarrow> e = Type_error \<and> \<not> valid_utf8 s
    | Inr t \<Rightarrow> valid_utf8 s \<and> scan_string [] (t @ 0x22 # rest) = (value_string s, rest))"
  using scan_string_escaped [of s "[]" rest] by (simp add: dump_escaped_eq valid_utf8_def)

text \<open>
  C35: Printing and parsing.  A value without floats whose strings are UTF-8, whose integers fit their type and whose keys are in the
  order of the map is printed, and the parser reads exactly this value back from the text, a
  non-negative integer being unsigned afterwards.
\<close>

theorem json_print_parse:
  assumes "json_wf j" "float_free j"
  shows "\<exists>t. dump_value fl j = Inr t \<and> parse_text t = Inr (json_norm j)"
  using json_round_trip [OF assms, of fl] by blast

text \<open>The smallest and largest integers, an escape, a control character and three bytes of UTF-8.\<close>

theorem json_print_parse_witness:
  "\<exists>t. dump_value (\<lambda>_ _. []) (J_object [([0x22, 0x07], J_array [J_null, J_integer (- (2 ^ 63)), J_unsigned (- 1)]), ([0x61, 0xE2, 0x82, 0xAC], J_integer 7)])
     = Inr t \<and> parse_text t
     = Inr (J_object [([0x22, 0x07], J_array [J_null, J_integer (- (2 ^ 63)), J_unsigned (- 1)]), ([0x61, 0xE2, 0x82, 0xAC], J_unsigned 7)])"
proof -
  let ?j = "J_object [([0x22, 0x07], J_array [J_null, J_integer (- (2 ^ 63)), J_unsigned (- 1)]), ([0x61, 0xE2, 0x82, 0xAC], J_integer 7)]"
  have "valid_utf8 [0x22, 0x07]" "valid_utf8 [0x61, 0xE2, 0x82, 0xAC]" by code_simp+
  then have "json_wf ?j" "float_free ?j" by simp_all
  from json_print_parse [OF this, of "\<lambda>_ _. []"] show ?thesis by simp
qed

text \<open>
  C37: What the parser returns.  Every text that \<^verbatim>\<open>json::parse\<close> accepts gives a value with UTF-8 strings, integers in range and the keys of
  every object strictly sorted, so without duplicates.  Such a value can always be printed, and without floats it survives
  printing and parsing once more.
\<close>

theorem parsed_values_printable:
  assumes "parse_text s = Inr j"
  shows "json_wf j \<and> (\<exists>t. dump_value fl j = Inr t \<and> (float_free j \<longrightarrow> parse_text t = Inr (json_norm j)))"
proof -
  have wf: "json_wf j" by (rule parse_text_wf [OF assms])
  obtain t where t: "dump_value fl j = Inr t" using dump_ok [of j fl] json_wf_strings [OF wf] by auto
  have "parse_text t = Inr (json_norm j)" if "float_free j" using json_round_trip [OF wf that, of fl] t by auto
  with wf t show ?thesis by blast
qed

text \<open>A text with white space, an escape and a key that comes twice.\<close>

theorem parsed_values_printable_witness:
  \<open>parse_text (bytes_of ''{"b" : [], "a":["x'' @ 0x5C # bytes_of ''n", true], "b":null }'')
     = Inr (J_object [(bytes_of ''a'', J_array [J_string [0x78, 0x0A], J_boolean True]), (bytes_of ''b'', J_null)]) \<and>
   json_wf (J_object [(bytes_of ''a'', J_array [J_string [0x78, 0x0A], J_boolean True]), (bytes_of ''b'', J_null)])\<close>
proof -
  have parsed: \<open>parse_text (bytes_of ''{"b" : [], "a":["x'' @ 0x5C # bytes_of ''n", true], "b":null }'')
     = Inr (J_object [(bytes_of ''a'', J_array [J_string [0x78, 0x0A], J_boolean True]), (bytes_of ''b'', J_null)])\<close>
    by code_simp
  from parsed_values_printable [OF this, of "\<lambda>_ _. []"] parsed show ?thesis by simp
qed

end
