(* ===== verification/Json_Double.thy ===== *)
theory Json_Double
  imports Complex_Main Json_Lexer
begin

text \<open>
  The conversion of a decimal number to a double: \<open>to_double\<close> returns the nearest number of the format, and none
  exactly for numbers that round to \<open>2 ^ 1024\<close> or more.
\<close>

subsection \<open>The exponent\<close>

lemma bit_length_bounds: "0 < n \<Longrightarrow> 2 ^ (bit_length n - 1) \<le> n \<and> n < 2 ^ bit_length n \<and> 0 < bit_length n"
proof (induction n rule: bit_length.induct)
  case (1 n)
  show ?case
  proof (cases "n = 1")
    case True
    then show ?thesis by (simp add: bit_length.simps)
  next
    case False
    then have "0 < n div 2" "0 < n" using 1(2) by auto
    then have ih: "2 ^ (bit_length (n div 2) - 1) \<le> n div 2" "n div 2 < 2 ^ bit_length (n div 2)" "0 < bit_length (n div 2)"
      using 1 by auto
    obtain m where m: "bit_length (n div 2) = Suc m" using ih(3) by (cases "bit_length (n div 2)") auto
    have "bit_length n = Suc (Suc m)" using m \<open>0 < n\<close> by (simp add: bit_length.simps [of n])
    then show ?thesis using ih m by (auto; linarith)
  qed
qed

lemma bit_length_real:
  assumes "0 < n"
  shows "2 powi (int (bit_length n) - 1) \<le> real n" "real n < 2 powi int (bit_length n)"
proof -
  obtain m where m: "bit_length n = Suc m" using bit_length_bounds [OF assms] by (cases "bit_length n") auto
  have "2 ^ m \<le> n" "n < 2 ^ Suc m" using bit_length_bounds [OF assms] m by auto
  then have "real (2 ^ m) \<le> real n" "real n < real (2 ^ Suc m)" by (simp_all only: of_nat_le_iff of_nat_less_iff)
  moreover have "2 powi int (Suc m) = (2 ^ Suc m :: real)" by (rule power_int_of_nat)
  ultimately show "2 powi (int (bit_length n) - 1) \<le> real n" "real n < 2 powi int (bit_length n)"
    by (simp_all add: m)
qed

lemma powi_split: "(2 :: real) powi e = 2 ^ nat e / 2 ^ nat (- e)"
  by (cases "0 \<le> e") (simp_all add: power_int_def inverse_eq_divide power_one_over)

lemma scaled_le: "0 < b \<Longrightarrow> b * 2 ^ nat l \<le> a * 2 ^ nat (- l) \<longleftrightarrow> 2 powi l \<le> real a / real b"
proof -
  assume "0 < b"
  have "b * 2 ^ nat l \<le> a * 2 ^ nat (- l) \<longleftrightarrow> real (b * 2 ^ nat l) \<le> real (a * 2 ^ nat (- l))" by (simp only: of_nat_le_iff)
  also have "\<dots> \<longleftrightarrow> 2 powi l \<le> real a / real b"
    using \<open>0 < b\<close> by (simp add: powi_split divide_simps mult.commute)
  finally show ?thesis .
qed

definition binary_exponent :: "nat \<Rightarrow> nat \<Rightarrow> int" where
  "binary_exponent a b =
     (let l = int (bit_length a) - int (bit_length b) in if b * 2 ^ nat l \<le> a * 2 ^ nat (- l) then l else l - 1)"

lemma binary_exponent_bounds:
  assumes "0 < a" "0 < b"
  shows "2 powi binary_exponent a b \<le> real a / real b" "real a / real b < 2 powi (binary_exponent a b + 1)"
proof -
  define l where "l = int (bit_length a) - int (bit_length b)"
  note a = bit_length_real [OF assms(1)] and b = bit_length_real [OF assms(2)]
  define A B :: real where "A = 2 powi int (bit_length a)" and "B = 2 powi int (bit_length b)"
  have pred: "(2 :: real) powi (i - 1) = 2 powi i / 2" for i by (simp add: power_int_diff)
  have e: "2 powi (l - 1) = A / 2 / B" "2 powi (l + 1) = A / (B / 2)"
    unfolding l_def A_def B_def by (simp_all add: power_int_diff power_int_add)
  have "A / 2 / B \<le> real a / real b" using a(1) b(2) assms by (intro frac_le) (auto simp: pred A_def B_def)
  then have low: "2 powi (l - 1) \<le> real a / real b" by (simp only: e)
  have "real a / real b < A / (B / 2)" using a(2) b(1) assms by (intro frac_less) (auto simp: pred A_def B_def)
  then have high: "real a / real b < 2 powi (l + 1)" by (simp only: e)
  show "2 powi binary_exponent a b \<le> real a / real b" "real a / real b < 2 powi (binary_exponent a b + 1)"
    using low high scaled_le [OF assms(2), of l a] by (auto simp: binary_exponent_def Let_def simp flip: l_def)
qed

subsection \<open>Rounding\<close>

lemma round_even_nearest:
  assumes "0 < b"
  shows "\<bar>real a / real b - real (round_even a b)\<bar> \<le> 1 / 2"
proof -
  define q r where "q = a div b" and "r = a mod b"
  have "a = b * q + r" "r < b" using assms by (simp_all add: q_def r_def)
  then have "real a / real b = real q + real r / real b" using assms by (simp add: field_simps)
  moreover have "2 * r \<le> b \<Longrightarrow> real r / real b \<le> 1 / 2" "b \<le> 2 * r \<Longrightarrow> 1 / 2 \<le> real r / real b" "real r / real b \<le> 1" "0 \<le> real r / real b"
    using assms \<open>r < b\<close> by (simp_all add: field_simps)
  ultimately show ?thesis by (auto simp: round_even_def Let_def simp flip: q_def r_def)
qed

lemma power_real_le: "real q < 2 ^ n + 1 \<Longrightarrow> q \<le> 2 ^ n"
proof -
  assume "real q < 2 ^ n + 1"
  then have "real q < real (2 ^ n + 1)" by simp
  then have "q < 2 ^ n + 1" by (simp only: of_nat_less_iff)
  then show ?thesis by simp
qed

lemma power_real_ge: "2 ^ n < real q + 1 \<Longrightarrow> 2 ^ n \<le> q"
proof -
  assume "2 ^ n < real q + 1"
  then have "real (2 ^ n) < real (q + 1)" by simp
  then have "2 ^ n < q + 1" by (simp only: of_nat_less_iff)
  then show ?thesis by simp
qed

definition double_exponent :: "nat \<Rightarrow> nat \<Rightarrow> int" where
  "double_exponent a b = max (- 1074) (binary_exponent a b - 52)"

definition double_mantissa :: "nat \<Rightarrow> nat \<Rightarrow> nat" where
  "double_mantissa a b = round_even (a * 2 ^ nat (- double_exponent a b)) (b * 2 ^ nat (double_exponent a b))"

definition double_max :: nat where
  "double_max = 2 ^ 1024"

lemma to_double_eq:
  "0 < a \<Longrightarrow> to_double a b = (if double_max \<le> double_mantissa a b * 2 ^ nat (double_exponent a b) then None
     else Some (double_mantissa a b, double_exponent a b))"
proof -
  assume "0 < a"
  then have "(a = 0) = False" by simp
  then show ?thesis
    unfolding to_double_def binary_exponent_def Let_def double_exponent_def double_mantissa_def double_max_def by (simp only: if_False)
qed

lemma mantissa_near:
  assumes "0 < b"
  shows "\<bar>real a / real b / 2 powi double_exponent a b - real (double_mantissa a b)\<bar> \<le> 1 / 2"
proof -
  define e where "e = double_exponent a b"
  have "real (a * 2 ^ nat (- e)) / real (b * 2 ^ nat e) = real a / real b / 2 powi e"
    by (simp add: powi_split field_simps)
  moreover have "0 < b * 2 ^ nat e" using assms by simp
  note round_even_nearest [OF this, of "a * 2 ^ nat (- e)"]
  ultimately show ?thesis unfolding double_mantissa_def e_def [symmetric] by (simp only:)
qed

lemma mantissa_le:
  assumes pos: "0 < a" "0 < b"
  shows "double_mantissa a b \<le> 2 ^ 53"
proof -
  define e k where "e = double_exponent a b" and "k = binary_exponent a b"
  have "real a / real b / 2 powi e < 2 powi (k + 1) / 2 powi e"
    using binary_exponent_bounds(2) [OF pos] by (intro divide_strict_right_mono) (simp_all add: k_def)
  also have "\<dots> = 2 powi (k + 1 - e)" by (simp add: power_int_diff)
  also have "\<dots> \<le> 2 powi 53" by (rule power_int_increasing) (simp_all add: e_def k_def double_exponent_def)
  also have "\<dots> = (2 ^ 53 :: real)" by simp
  finally have "real (double_mantissa a b) < 2 ^ 53 + 1"
    using mantissa_near [OF pos(2), of a] unfolding abs_le_iff e_def [symmetric] by linarith
  then show ?thesis by (rule power_real_le)
qed

lemma mantissa_ge:
  assumes pos: "0 < a" "0 < b" and "double_exponent a b \<noteq> - 1074"
  shows "2 ^ 52 \<le> double_mantissa a b"
proof -
  define k where "k = binary_exponent a b"
  have e: "double_exponent a b = k - 52" using assms(3) by (simp add: double_exponent_def k_def max_def split: if_splits)
  have "2 powi k / 2 powi (k - 52) \<le> real a / real b / 2 powi (k - 52)"
    using binary_exponent_bounds(1) [OF pos] by (intro divide_right_mono) (simp_all add: k_def)
  moreover have "2 powi k / 2 powi (k - 52) = (2 ^ 52 :: real)" by (simp add: power_int_diff)
  ultimately have "2 ^ 52 < real (double_mantissa a b) + 1" using mantissa_near [OF pos(2), of a] unfolding abs_le_iff e by linarith
  then show ?thesis by (rule power_real_ge)
qed

lemma double_near:
  assumes pos: "0 < b"
  shows "\<bar>real a / real b - real (double_mantissa a b) * 2 powi double_exponent a b\<bar> \<le> 2 powi double_exponent a b / 2"
proof -
  define P :: real where "P = 2 powi double_exponent a b"
  have P: "0 < P" by (simp add: P_def)
  have "real a / real b - real (double_mantissa a b) * P = (real a / real b / P - real (double_mantissa a b)) * P"
    using P by (simp add: left_diff_distrib)
  then have "\<bar>real a / real b - real (double_mantissa a b) * P\<bar> = \<bar>real a / real b / P - real (double_mantissa a b)\<bar> * P"
    using P by (simp add: abs_mult)
  also have "\<dots> \<le> 1 / 2 * P" using mantissa_near [OF pos, of a] P unfolding P_def by (intro mult_right_mono) simp_all
  finally show ?thesis by (simp add: P_def)
qed

lemma to_double_nearest:
  assumes "0 < b" "to_double a b = Some (q, e)"
  shows "\<bar>real a / real b - real q * 2 powi e\<bar> \<le> 2 powi e / 2 \<and> - 1074 \<le> e \<and> q \<le> 2 ^ 53 \<and> q * 2 ^ nat e < double_max"
proof (cases "a = 0")
  case True
  then show ?thesis using assms by (auto simp: to_double_def double_max_def)
next
  case False
  then have a: "0 < a" by simp
  then have "q = double_mantissa a b" "e = double_exponent a b" "q * 2 ^ nat e < double_max"
    using assms(2) by (auto simp: to_double_eq split: if_splits)
  moreover have "- 1074 \<le> double_exponent a b" by (simp add: double_exponent_def)
  ultimately show ?thesis using mantissa_le [OF a assms(1)] double_near [OF assms(1), of a] by (simp only: simp_thms)
qed

lemma to_double_overflow:
  assumes "0 < b" "b * double_max \<le> a"
  shows "to_double a b = None"
proof -
  have a: "0 < a" using assms by (intro gr0I) (auto simp: double_max_def)
  have "2 powi 1024 \<le> real a / real b"
    using scaled_le [OF assms(1), of 1024 a] assms(2) unfolding double_max_def by (simp only: nat_numeral) simp
  also have "\<dots> < 2 powi (binary_exponent a b + 1)" by (rule binary_exponent_bounds [OF a assms(1)])
  finally have less: "(2 :: real) powi 1024 < 2 powi (binary_exponent a b + 1)" .
  have k: "1024 \<le> binary_exponent a b"
  proof (rule ccontr)
    assume "\<not> 1024 \<le> binary_exponent a b"
    then have "(2 :: real) powi (binary_exponent a b + 1) \<le> 2 powi 1024" by (intro power_int_increasing) simp_all
    with less show False by linarith
  qed
  then have "972 \<le> nat (double_exponent a b)" "2 ^ 52 \<le> double_mantissa a b"
    using mantissa_ge [OF a assms(1)] by (simp_all add: double_exponent_def)
  then have "2 ^ 52 * 2 ^ 972 \<le> double_mantissa a b * 2 ^ nat (double_exponent a b)" by (intro mult_mono power_increasing) simp_all
  moreover have "(2 :: nat) ^ 52 * 2 ^ 972 = double_max" unfolding double_max_def power_add [symmetric] by (simp only: arith_simps)
  ultimately show ?thesis using a by (simp add: to_double_eq)
qed

end
