(* ===== verification/Json_Signaling.thy ===== *)
theory Json_Signaling
  imports Signaling_Props Json_Props Json_Double
begin

text \<open>
  Requests and replies as text: the signaling worker with the JSON library of the program in place of the parameter \<open>json_lib\<close>.
  A request printed by a client with the same library has the outcome of its value; a number beyond the range of a double makes
  \<^verbatim>\<open>json::parse\<close> throw what \<^verbatim>\<open>_process_request\<close> does not catch.
\<close>

subsection \<open>Printed text has no zero byte\<close>

lemma hex_char_nonzero: "n < 16 \<Longrightarrow> hex_char n \<noteq> 0"
proof -
  have "list_all (\<lambda>n. hex_char n \<noteq> 0) [0..<16]" by code_simp
  then show "n < 16 \<Longrightarrow> hex_char n \<noteq> 0" by (simp add: list_all_iff)
qed

lemma escaped_nonzero: "0 \<notin> set (escaped s)"
proof -
  have "0 \<notin> set (esc_byte b)" for b
    using hex_char_nonzero [of "_ mod 16"] by (auto simp: esc_byte_def escape_codepoint_def dest: sym)
  then show ?thesis by (auto simp: escaped_def)
qed

lemma dec_nonzero: "0 \<notin> set (dec n)"
  using dec_digits [of 0 n] by auto

lemma join_comma_nonzero: "\<forall>t \<in> set ts. 0 \<notin> set t \<Longrightarrow> 0 \<notin> set (join_comma ts)"
  by (induction ts rule: join_comma.induct) auto

lemma json_sequence_set: "json_sequence ms = Inr xs \<Longrightarrow> x \<in> set xs \<Longrightarrow> Inr x \<in> set ms"
  by (induction ms arbitrary: xs) (auto simp: json_bind_def split: sum.splits)

lemma dump_nonzero: "json_wf j \<Longrightarrow> float_free j \<Longrightarrow> dump_value fl j = Inr t \<Longrightarrow> 0 \<notin> set t"
proof (induction j arbitrary: t)
  case (J_string s)
  then show ?case using escaped_nonzero [of s] by (auto simp: dump_string_eq split: if_splits)
next
  case (J_integer i)
  then show ?case using dec_nonzero by (auto simp: dump_signed_eq dec_int_def split: if_splits)
next
  case (J_unsigned u)
  then show ?case using dec_nonzero by (auto simp: dump_unsigned_eq)
next
  case (J_array vs)
  then obtain ts where ts: "json_sequence (map (dump_value fl) vs) = Inr ts" "t = 0x5B # join_comma ts @ [0x5D]"
    by (auto simp: json_bind_def split: sum.splits)
  have "0 \<notin> set x" if x: "x \<in> set ts" for x
  proof -
    obtain v where "v \<in> set vs" "dump_value fl v = Inr x" using json_sequence_set [OF ts(1) x] by auto
    then show ?thesis using J_array.IH J_array.prems(1,2) by (auto simp: list_all_iff)
  qed
  then show ?case using ts(2) join_comma_nonzero [of ts] by auto
next
  case (J_object ms)
  let ?f = "\<lambda>(k, v). json_bind (dump_string k) (\<lambda>kt. json_bind (dump_value fl v) (\<lambda>vt. Inr (kt @ [0x3A] @ vt)))"
  obtain ts where ts: "json_sequence (map ?f ms) = Inr ts" "t = 0x7B # join_comma ts @ [0x7D]"
    using J_object.prems(3) by (auto simp: json_bind_def split: sum.splits)
  have "0 \<notin> set x" if x: "x \<in> set ts" for x
  proof -
    obtain kv where kv: "kv \<in> set ms" "?f kv = Inr x" using json_sequence_set [OF ts(1) x] by auto
    obtain k v where [simp]: "kv = (k, v)" by (cases kv)
    obtain vt where vt: "dump_value fl v = Inr vt" "x = 0x22 # escaped k @ 0x22 # 0x3A # vt"
      using kv(2) by (auto simp: dump_string_eq json_bind_def split: sum.splits if_splits)
    have "json_wf v" "float_free v" using J_object.prems(1,2) kv(1) by (auto simp: list_all_iff)
    then have "0 \<notin> set vt" using J_object.IH [of kv v] kv(1) vt(1) by auto
    then show ?thesis using vt(2) escaped_nonzero [of k] by auto
  qed
  then show ?case using ts(2) join_comma_nonzero [of ts] by auto
next
  case (J_boolean b)
  then show ?case by (auto simp: bytes_of_def split: if_splits)
qed (auto simp: bytes_of_def)

lemma c_string_nonzero: "0 \<notin> set p \<Longrightarrow> c_string (p @ r) = p @ c_string r"
  by (induction p) (auto simp: c_string_def)

lemma c_string_all: "0 \<notin> set t \<Longrightarrow> c_string t = t"
  using c_string_nonzero [of t "[]"] by (simp add: c_string_def)

subsection \<open>Requests\<close>

text \<open>The sign of an integer does not matter to the handlers.\<close>

lemma uint_of_int: "0 \<le> i \<Longrightarrow> i < 2 ^ 63 \<Longrightarrow> uint (word_of_int i :: u64) = i"
  by (simp add: unsigned_of_int take_bit_int_eq_self)

lemma get_norm:
  assumes "json_wf v"
  shows "json_get_u64 (json_norm v) = json_get_u64 v" "json_get_int (json_norm v) = json_get_int v"
    "json_get_string (json_norm v) = json_get_string v" "value_fault k (json_norm v) = value_fault k v"
  using assms uint_of_int by (cases v; auto simp: json_get_u64_def json_get_int_def json_get_string_def value_fault_def split: field_kind.split)+

lemma map_of_norm: "map_of (map (\<lambda>(k, v). (k, json_norm v)) ms) key = map_option json_norm (map_of ms key)"
  by (induction ms) auto

lemma map_of_wf: "list_all (\<lambda>(k, v). valid_utf8 k \<and> json_wf v) ms \<Longrightarrow> map_of ms key = Some v \<Longrightarrow> json_wf v"
  by (induction ms) (auto split: if_splits)

lemma first_fault_norm:
  assumes "list_all (\<lambda>(k, v). valid_utf8 k \<and> json_wf v) ms"
  shows "first_fault (map (\<lambda>(k, v). (k, json_norm v)) ms) fs = first_fault ms fs"
  by (induction fs) (use map_of_wf [OF assms] in \<open>auto simp: map_of_norm get_norm split: option.splits\<close>)

lemma verdict_norm: "json_wf doc \<Longrightarrow> request_verdict (json_norm doc) = request_verdict doc"
proof (cases doc)
  case (J_object ms)
  assume "json_wf doc"
  then have wf: "list_all (\<lambda>(k, v). valid_utf8 k \<and> json_wf v) ms" using J_object by simp
  show ?thesis
  proof (cases "map_of ms (bytes_of ''cmdno'')")
    case None
    then show ?thesis using J_object by (simp add: request_verdict_def map_of_norm)
  next
    case (Some v)
    then show ?thesis using J_object map_of_wf [OF wf Some]
      by (cases "value_fault K_int v") (simp_all add: request_verdict_def map_of_norm get_norm first_fault_norm [OF wf] cong: if_cong option.case_cong)
  qed
qed (auto simp: request_verdict_def)

lemma at_norm: "json_wf doc \<Longrightarrow> (\<And>v. json_wf v \<Longrightarrow> get (json_norm v) = get v) \<Longrightarrow>
    json_bind (json_at key (json_norm doc)) get = json_bind (json_at key doc) get"
  by (cases doc) (auto simp: json_at_def map_of_norm dest: map_of_wf split: option.splits)

lemma msg_norm: "json_wf doc \<Longrightarrow> msg_of_request (json_norm doc) k this a fd log_id m = msg_of_request doc k this a fd log_id m"
  by (simp add: msg_of_request_def at_norm get_norm)

text \<open>What the signaling worker relies on in a JSON library: a value that is \<open>ok\<close> is printed without zero bytes and read back, up to
  a normalisation that keeps what the handlers look at.\<close>

locale json_library =
  fixes J :: json_lib and ok :: "json \<Rightarrow> bool" and norm :: "json \<Rightarrow> json"
  assumes print_parse: "ok doc \<Longrightarrow> \<exists>t. json_dump J doc = Inr t \<and> 0 \<notin> set t \<and> json_parse J t = Inr (norm doc)"
    and norm_verdict: "ok doc \<Longrightarrow> request_verdict (norm doc) = request_verdict doc"
    and norm_message: "ok doc \<Longrightarrow> msg_of_request (norm doc) k this a fd log_id m = msg_of_request doc k this a fd log_id m"
begin

lemma printed_request:
  assumes "ok doc" "length header = XHEAD_SIZE"
  obtains body where "json_dump J doc = Inr body"
    "case request_verdict doc of
      Accept cmdno \<Rightarrow> \<exists>m. request_effect J a fd (header @ body) this = Inr (0, [m]) \<and> msg_of_request doc cmdno this a fd (xh_log_id header) m
    | Refuse \<Rightarrow> request_effect J a fd (header @ body) this = Inr (- 1, [])
    | Terminate \<Rightarrow> request_effect J a fd (header @ body) this = Inl Uncaught_exception
    | Undefined \<Rightarrow> request_effect J a fd (header @ body) this = Inl Bad_cast"
proof -
  obtain body where body: "json_dump J doc = Inr body" "0 \<notin> set body" "json_parse J body = Inr (norm doc)"
    using print_parse [OF assms(1)] by blast
  have "json_parse J (c_string (drop XHEAD_SIZE (header @ body))) = Inr (norm doc)"
    using assms(2) body(2,3) by (simp add: c_string_all)
  from request_by_verdict [OF this, of a fd this] show thesis
    using that [OF body(1)] assms by (cases "request_verdict doc") (auto simp: norm_verdict norm_message)
qed

end

interpretation nl: json_library "nlohmann fl" "\<lambda>doc. json_wf doc \<and> float_free doc" json_norm for fl
proof unfold_locales
  fix doc assume ok: "json_wf doc \<and> float_free doc"
  then obtain t where t: "dump_value fl doc = Inr t" "parse_text t = Inr (json_norm doc)"
    using json_round_trip [of doc fl] by blast
  then show "\<exists>t. json_dump (nlohmann fl) doc = Inr t \<and> 0 \<notin> set t \<and> json_parse (nlohmann fl) t = Inr (json_norm doc)"
    using dump_nonzero [OF _ _ t(1)] ok by (simp add: nlohmann_def)
qed (simp_all add: verdict_norm msg_norm)

text \<open>
  C33: A request that a client prints with the same library.  Whatever the header, the 36 bytes of the header followed by the text
  of a JSON value without floats have the effect that the verdict on the value says: the parser loses nothing that the
  handlers look at.  So an accepted request reaches the RTC server with the members of the value that was printed.
\<close>

theorem printed_request_outcome:
  assumes "json_wf doc" "float_free doc" "length header = XHEAD_SIZE"
  shows "\<exists>body. json_dump (nlohmann fl) doc = Inr body \<and>
    (case request_verdict doc of
      Accept cmdno \<Rightarrow> \<exists>m. request_effect (nlohmann fl) a fd (header @ body) this = Inr (0, [m]) \<and> msg_of_request doc cmdno this a fd (xh_log_id header) m
    | Refuse \<Rightarrow> request_effect (nlohmann fl) a fd (header @ body) this = Inr (- 1, [])
    | Terminate \<Rightarrow> request_effect (nlohmann fl) a fd (header @ body) this = Inl Uncaught_exception
    | Undefined \<Rightarrow> request_effect (nlohmann fl) a fd (header @ body) this = Inl Bad_cast)"
proof -
  from assms(1,2) have "json_wf doc \<and> float_free doc" by simp
  from nl.printed_request [OF this assms(3), of fl a fd this] show ?thesis by blast
qed

text \<open>The request to stop pushing.\<close>

theorem printed_request_outcome_witness:
  "\<exists>body m. json_dump (nlohmann (\<lambda>_ _. [])) ex_root = Inr body \<and>
     request_effect (nlohmann (\<lambda>_ _. [])) 100 6 (replicate 36 0 @ body) 1 = Inr (0, [m]) \<and> rm_uid m = 7 \<and> rm_stream_name m = bytes_of ''s''"
proof -
  have "json_wf ex_root" "float_free ex_root" "request_verdict ex_root = Accept 4"
    "json_bind (json_at (bytes_of ''uid'') ex_root) json_get_u64 = Inr 7"
    "json_bind (json_at (bytes_of ''stream_name'') ex_root) json_get_string = Inr (bytes_of ''s'')"
    by code_simp+
  then show ?thesis
    using printed_request_outcome [of ex_root "replicate 36 0" "\<lambda>_ _. []" 100 6 1] by (auto simp: msg_of_request_def XHEAD_SIZE_def)
qed

subsection \<open>Numbers beyond the range of a double\<close>

lemma scan_token_overflow:
  assumes "double_max \<le> n" "number_end r"
  shows "scan_token (dec n @ r) = (value_float None, r)"
proof -
  have big: "2 ^ 64 \<le> n" "0 < n"
    using assms(1) power_increasing [of 64 1024 "2 :: nat"] by (auto simp: double_max_def)
  then obtain c cs where c: "dec n = c # cs" "is_digit c" "c \<noteq> 48" using dec_Cons by blast
  then have ds: "\<forall>d \<in> set cs. is_digit d" using digits_dec [of _ n] by simp
  have all: "takeWhile is_digit (dec n) = dec n" "dropWhile is_digit (dec n) = []" using digits_dec [of _ n] by auto
  have "c \<noteq> 0x2D" using c(2) by (auto simp: is_digit_def)
  then have "hd (dec n) \<noteq> 0x2D" using c(1) by simp
  moreover have "decimal_value (dec n) = (n, 0)" by (simp add: decimal_value_def all split_exponent_def undec_dec)
  ultimately have "strtod_bytes (dec n) = map_option (\<lambda>(q, e). (int q, e)) (to_double n 1)" by (simp add: strtod_bytes_def)
  then have "strtod_bytes (dec n) = None" using to_double_overflow [of 1 n] assms(1) by simp
  then have "scan_number c (cs @ r) = (value_float None, r)"
    using num_loop_digits [OF ds assms(2), of Num_unsigned "[c]"] c(1,3) big(1) undec_dec [of n] \<open>c \<noteq> 0x2D\<close>
    by (simp add: scan_number_def number_token_def)
  moreover have "\<not> is_space c" "c \<notin> {0x5B, 0x5D, 0x7B, 0x7D, 0x3A, 0x2C, 0x74, 0x66, 0x6E, 0x22}"
    using c(2) by (auto simp: is_digit_def is_space_def)
  ultimately show ?thesis using c(1,2) by (simp add: scan_token_def skip_whitespace_def)
qed

lemma parse_overflow:
  assumes "valid_utf8 key" "double_max \<le> n" "number_end r"
  shows "parse_text (0x7B # 0x22 # escaped key @ 0x22 # 0x3A # dec n @ r) = Inl Out_of_range"
proof -
  let ?s = "0x22 # escaped key @ 0x22 # 0x3A # dec n @ r"
  have key: "scan_token ?s = (value_string key, 0x3A # dec n @ r)" using scan_string_text [OF assms(1)] by simp
  have "skip_bom (0x7B # ?s) = Some (0x7B # ?s)" by (simp add: skip_bom_def)
  then have "lex_scan True (0x7B # ?s) = (begin_object, ?s)" by (simp add: lex_scan_def scan_token_simps)
  moreover have "parse_value begin_object ?s [] = Inl Out_of_range"
    using key scan_token_overflow [OF assms(2,3)] parse_value.simps [of "value_float None" r]
    by (subst parse_value.simps) (simp add: read_key_def scan_token_simps)
  ultimately show ?thesis by (simp add: parse_text_def)
qed

text \<open>
  C34: A client that sends a number of \<open>2 ^ 1024\<close> or more ends the server.  The lexer takes the digits for a double, the double is
  infinite, and the parser throws \<^verbatim>\<open>out_of_range\<close>; the \<^verbatim>\<open>try\<close> around \<^verbatim>\<open>json::parse\<close> in \<^verbatim>\<open>_process_request\<close> catches
  \<^verbatim>\<open>parse_error\<close> only.  It happens for every key and whatever follows the number, even if the rest is no JSON.
\<close>

theorem huge_number_ends_server:
  assumes "length header = XHEAD_SIZE" "valid_utf8 key" "double_max \<le> n" "number_end rest"
  shows "request_effect (nlohmann fl) a fd (header @ [0x7B, 0x22] @ escaped key @ [0x22, 0x3A] @ dec n @ rest) this = Inl Uncaught_exception"
proof -
  let ?p = "0x7B # 0x22 # escaped key @ 0x22 # 0x3A # dec n"
  have "0 \<notin> set ?p" using escaped_nonzero [of key] dec_nonzero [of n] by simp
  then have "c_string (?p @ rest) = ?p @ c_string rest" by (rule c_string_nonzero)
  moreover have "number_end (c_string rest)" using assms(4) by (auto simp: number_end_def c_string_def split: list.splits)
  ultimately have "json_parse (nlohmann fl) (c_string (?p @ rest)) = Inl Out_of_range"
    using parse_overflow [OF assms(2,3), of "c_string rest"] by (simp add: nlohmann_def)
  then show ?thesis using assms(1) by (simp add: request_effect_def sw_process_request_def catching_def)
qed

text \<open>\<open>{"cmdno":\<close> and the digits of \<open>2 ^ 1024\<close>, and nothing more.\<close>

theorem huge_number_ends_server_witness:
  "request_effect (nlohmann (\<lambda>_ _. [])) 100 6 (replicate 36 0 @ [0x7B, 0x22] @ escaped (bytes_of ''cmdno'') @ [0x22, 0x3A] @ dec double_max @ []) 1
     = Inl Uncaught_exception"
proof -
  have "valid_utf8 (bytes_of ''cmdno'')" by code_simp
  then show ?thesis
    by (intro huge_number_ends_server) (simp_all add: XHEAD_SIZE_def number_end_def)
qed

subsection \<open>Replies\<close>

text \<open>The text of a reply, which the client reads back with the same library; only an offer that is not UTF-8 cannot be printed.\<close>

lemma reply_wf: "- (2 ^ 63) \<le> rm_err_no m \<Longrightarrow> rm_err_no m < 2 ^ 63 \<Longrightarrow> rm_err_no m \<noteq> 0 \<or> valid_utf8 (rm_sdp m) \<Longrightarrow> json_wf (reply_json m)"
proof -
  have "sorted_wrt bytes_less [bytes_of ''err_msg'', bytes_of ''errno'', bytes_of ''offer'']"
    "valid_utf8 (bytes_of ''err_msg'')" "valid_utf8 (bytes_of ''errno'')" "valid_utf8 (bytes_of ''offer'')"
    "valid_utf8 (bytes_of ''process error'')" "valid_utf8 (bytes_of ''success'')" "valid_utf8 []"
    by code_simp+
  then show "- (2 ^ 63) \<le> rm_err_no m \<Longrightarrow> rm_err_no m < 2 ^ 63 \<Longrightarrow> rm_err_no m \<noteq> 0 \<or> valid_utf8 (rm_sdp m) \<Longrightarrow> json_wf (reply_json m)"
    by (auto simp: reply_json_def simp del: sorted_wrt.simps)
qed

lemma reply_text:
  assumes "- (2 ^ 63) \<le> rm_err_no m" "rm_err_no m < 2 ^ 63"
  shows "if rm_err_no m \<noteq> 0 \<or> valid_utf8 (rm_sdp m)
    then \<exists>t. json_dump (nlohmann fl) (reply_json m) = Inr t \<and> parse_text t = Inr (json_norm (reply_json m))
    else json_dump (nlohmann fl) (reply_json m) = Inl Type_error"
proof -
  have free: "float_free (reply_json m)" by (simp add: reply_json_def)
  show ?thesis
  proof (cases "rm_err_no m \<noteq> 0 \<or> valid_utf8 (rm_sdp m)")
    case True
    obtain t where "dump_value fl (reply_json m) = Inr t" "parse_text t = Inr (json_norm (reply_json m))"
      using json_round_trip [OF reply_wf [OF assms True] free] by blast
    with True show ?thesis by (simp add: nlohmann_def)
  next
    case False
    then have "\<not> strings_ok (reply_json m)" by (simp add: reply_json_def)
    with False dump_ok [of "reply_json m" fl] show ?thesis by (simp add: nlohmann_def)
  qed
qed

end
