(* ===== verification/Dtls_Props.thy ===== *)
theory Dtls_Props
  imports Dtls_Transport
begin

text \<open>
  Properties of the DTLS and SRTP layers of one transport: what the record check accepts; an
  invariant of every reachable state (writability and DTLS state are what was signalled, keys exist
  only while DTLS is connected, no null, dangling or out-of-bounds access); the keys a handshake
  installs; and media after it, received by \<^verbatim>\<open>on_read_packet\<close> and sent by \<^verbatim>\<open>send_rtp\<close> in any
  interleaving, against a peer that holds the mirrored keys.
\<close>

declare dtls_records_ok.simps [simp del]

subsection \<open>The life of the DTLS adapter in the log\<close>

fun ssl_started_now :: "bool \<Rightarrow> transport_event list \<Rightarrow> bool" where
  "ssl_started_now b [] = b"
| "ssl_started_now b (Ssl_created # es) = ssl_started_now False es"
| "ssl_started_now b (Ssl_started # es) = ssl_started_now True es"
| "ssl_started_now b (_ # es) = ssl_started_now b es"

text \<open>\<^verbatim>\<open>StartSSL\<close> is called at most once on every adapter.\<close>

fun ssl_once :: "bool \<Rightarrow> transport_event list \<Rightarrow> bool" where
  "ssl_once b [] = True"
| "ssl_once b (Ssl_created # es) = ssl_once False es"
| "ssl_once b (Ssl_started # es) = (\<not> b \<and> ssl_once True es)"
| "ssl_once b (_ # es) = ssl_once b es"

definition ssl_quiet :: "transport_event list \<Rightarrow> bool" where
  "ssl_quiet es \<longleftrightarrow> Ssl_created \<notin> set es \<and> Ssl_started \<notin> set es"

lemma ssl_started_append: "ssl_started_now b (es @ fs) = ssl_started_now (ssl_started_now b es) fs"
  by (induction b es rule: ssl_started_now.induct) auto

lemma ssl_once_append: "ssl_once b (es @ fs) = (ssl_once b es \<and> ssl_once (ssl_started_now b es) fs)"
  by (induction b es rule: ssl_once.induct) auto

lemma ssl_quiet_ssl: "ssl_quiet es \<Longrightarrow> ssl_started_now b es = b" "ssl_quiet es \<Longrightarrow> ssl_once b es"
  by (induction b es rule: ssl_once.induct) (auto simp: ssl_quiet_def)

subsection \<open>Invariant\<close>

definition keys_inv :: "('c \<Rightarrow> nat) \<Rightarrow> ('c \<Rightarrow> nat) \<Rightarrow> 'c media_transport \<Rightarrow> bool" where
  "keys_inv rt rc t \<longleftrightarrow> transport_ok rt rc (mt_srtp t) \<and> global_ok (held (mt_srtp t)) (mt_global t) \<and>
     (is_srtp_active (mt_srtp t) \<longrightarrow> dt_state t = k_connected \<and> mt_attached t) \<and>
     (dt_active t \<longrightarrow> dt_local_certificate t \<noteq> None)"

definition adapter_inv :: "'c media_transport \<Rightarrow> bool" where
  "adapter_inv t \<longleftrightarrow> (dt_state t = k_connecting \<or> dt_state t = k_connected \<longrightarrow> dt_dtls t \<noteq> None) \<and>
     ssl_once False (mt_out t) \<and>
     (dt_state t = k_new \<and> dt_dtls t \<noteq> None \<longrightarrow> \<not> ssl_started_now False (mt_out t))"

definition tr_inv :: "('c \<Rightarrow> nat) \<Rightarrow> ('c \<Rightarrow> nat) \<Rightarrow> 'c media_transport \<Rightarrow> bool" where
  "tr_inv rt rc t \<longleftrightarrow> keys_inv rt rc t \<and> adapter_inv t"

text \<open>What the reactions to state changes leave alone.\<close>

definition tr_frame :: "'c media_transport \<Rightarrow> 'c media_transport \<Rightarrow> bool" where
  "tr_frame t t' \<longleftrightarrow> dt_dtls t' = dt_dtls t \<and> dt_local_certificate t' = dt_local_certificate t \<and>
     dt_active t' = dt_active t \<and> mt_attached t' = mt_attached t \<and>
     dt_catched_client_hello t' = dt_catched_client_hello t \<and>
     dt_remote_fingerprint_value t' = dt_remote_fingerprint_value t \<and>
     dt_remote_fingerprint_alg t' = dt_remote_fingerprint_alg t \<and>
     (\<exists>es. mt_out t' = mt_out t @ es \<and> ssl_quiet es)"

lemma tr_frame_refl: "tr_frame t t"
  by (auto simp: tr_frame_def ssl_quiet_def)

lemma tr_frame_trans: "tr_frame t t' \<Longrightarrow> tr_frame t' t'' \<Longrightarrow> tr_frame t t''"
  by (auto simp: tr_frame_def ssl_quiet_def)

lemma adapter_inv_frame:
  assumes "tr_frame t t'" "adapter_inv t"
    and "dt_state t' = k_connecting \<or> dt_state t' = k_connected \<Longrightarrow> dt_dtls t \<noteq> None"
    and "dt_state t' = k_new \<Longrightarrow> dt_state t = k_new \<or> dt_dtls t = None"
  shows "adapter_inv t'"
  using assms ssl_quiet_ssl by (auto simp: adapter_inv_def tr_frame_def ssl_once_append ssl_started_append)

lemma set_writable_state_ok [simp]:
  "keys_inv rt rc (set_writable_state w t) = keys_inv rt rc t"
  "dt_state (set_writable_state w t) = dt_state t" "tr_frame t (set_writable_state w t)"
  by (auto simp: set_writable_state_def keys_inv_def tr_emit_def tr_frame_def ssl_quiet_def)

lemma dtls_set_receiving_ok [simp]:
  "keys_inv rt rc (dtls_set_receiving r t) = keys_inv rt rc t"
  "dt_state (dtls_set_receiving r t) = dt_state t" "tr_frame t (dtls_set_receiving r t)"
  by (auto simp: dtls_set_receiving_def keys_inv_def tr_emit_def tr_frame_def ssl_quiet_def)

lemma extract_params_ok:
  assumes "dt_state t = k_connected \<Longrightarrow> dt_dtls t \<noteq> None"
  shows "\<exists>ps. extract_params D t = Inr ps \<and> (ps \<noteq> None \<longrightarrow> dt_state t = k_connected)"
proof (cases "dt_state t = k_connected")
  case True
  then show ?thesis using assms
    by (auto simp: extract_params_def get_srtp_crypto_suite_def split: option.splits prod.splits)
next
  case False
  then show ?thesis by (simp add: extract_params_def get_srtp_crypto_suite_def)
qed

locale dtls_environment = srtp_library "de_srtp D" rtp_tag rtcp_tag
  for D :: "'c dtls_env" and rtp_tag :: "'c \<Rightarrow> nat" and rtcp_tag :: "'c \<Rightarrow> nat"
begin

lemma setup_dtls_srtp_ok:
  assumes "keys_inv rtp_tag rtcp_tag t" "\<not> is_srtp_active (mt_srtp t)" "dt_state t = k_connected \<Longrightarrow> dt_dtls t \<noteq> None"
    "mt_attached t"
  shows "\<exists>t'. setup_dtls_srtp D t = Inr t' \<and> keys_inv rtp_tag rtcp_tag t' \<and> dt_state t' = dt_state t \<and> tr_frame t t'"
proof -
  have none: "st_send (mt_srtp t) = None" "st_recv (mt_srtp t) = None"
    using assms(1,2) by (auto simp: keys_inv_def transport_ok_def is_srtp_active_def)
  have ok: "transport_ok rtp_tag rtcp_tag (mt_srtp t)" "global_ok 0 (mt_global t)"
    "dt_active t \<longrightarrow> dt_local_certificate t \<noteq> None"
    using assms(1) none by (simp_all add: keys_inv_def held_def held_by_def)
  obtain ps where ps: "extract_params D t = Inr ps" "ps \<noteq> None \<Longrightarrow> dt_state t = k_connected"
    using extract_params_ok [OF assms(3)] by blast
  show ?thesis
  proof (cases ps)
    case None
    then show ?thesis using ps(1) assms(1) by (auto simp: setup_dtls_srtp_def tr_tick_def keys_inv_def tr_frame_def ssl_quiet_def)
  next
    case (Some p)
    obtain cs k k' where p: "p = (cs, k, k')" by (cases p)
    obtain b st g where r: "set_rtp_params (de_srtp D) cs k cs k' (mt_srtp t) (mt_global t) = Inr (b, st, g)"
      "transport_ok rtp_tag rtcp_tag st"
      using set_rtp_params_ok [OF ok(1) none(1)] by blast
    have "global_ok (held st) g" using set_rtp_params_count [OF r(1) none ok(2)] by blast
    then show ?thesis using ps Some p r ok(3) assms(4)
      by (auto simp: setup_dtls_srtp_def tr_tick_def keys_inv_def tr_frame_def ssl_quiet_def)
  qed
qed

lemma set_dtls_state_ok:
  assumes "keys_inv rtp_tag rtcp_tag t" "st = k_connected \<Longrightarrow> dt_dtls t \<noteq> None"
  shows "\<exists>t'. set_dtls_state D st t = Inr t' \<and> keys_inv rtp_tag rtcp_tag t' \<and> dt_state t' = st \<and> tr_frame t t'"
proof (cases "dt_state t = st")
  case True
  then show ?thesis using assms(1) by (simp add: set_dtls_state_def tr_frame_refl)
next
  case False
  let ?t1 = "tr_emit (Tr_dtls_state st) (t\<lparr> dt_state := st \<rparr>)"
  have fr: "tr_frame t ?t1" by (simp add: tr_emit_def tr_frame_def ssl_quiet_def)
  have act: "is_srtp_active (mt_srtp t) \<Longrightarrow> dt_state t = k_connected \<and> mt_attached t" using assms(1) by (simp add: keys_inv_def)
  consider "\<not> mt_attached t" | "mt_attached t" "st \<noteq> k_connected" | "mt_attached t" "st = k_connected" by blast
  then show ?thesis
  proof cases
    case 1
    then have "keys_inv rtp_tag rtcp_tag ?t1" using assms(1) act by (auto simp: keys_inv_def tr_emit_def)
    then show ?thesis using 1 False fr by (simp add: set_dtls_state_def tr_emit_def)
  next
    case 2
    obtain s g where r: "reset_params (mt_srtp t) (mt_global t) = (s, g)" by fastforce
    have "transport_ok rtp_tag rtcp_tag s" "\<not> is_srtp_active s" "global_ok 0 g" "held s = 0"
      using reset_params_ok [of "mt_srtp t" "mt_global t"] reset_params_count(1) [of "mt_srtp t" "mt_global t"] assms(1) r
      by (auto simp: keys_inv_def held_def held_by_def reset_params_def)
    then have "keys_inv rtp_tag rtcp_tag (?t1\<lparr> mt_srtp := s, mt_global := g \<rparr>)"
      using assms(1) by (simp add: keys_inv_def tr_emit_def)
    moreover have "set_dtls_state D st t = Inr (?t1\<lparr> mt_srtp := s, mt_global := g \<rparr>)"
      using 2 False r by (simp add: set_dtls_state_def srtp_on_dtls_state_def tr_emit_def)
    moreover have "tr_frame t (?t1\<lparr> mt_srtp := s, mt_global := g \<rparr>)" by (simp add: tr_emit_def tr_frame_def ssl_quiet_def)
    ultimately show ?thesis by (simp add: tr_emit_def)
  next
    case 3
    have na: "\<not> is_srtp_active (mt_srtp t)" using act False 3(2) by blast
    have k: "keys_inv rtp_tag rtcp_tag ?t1" using assms(1) na by (auto simp: keys_inv_def tr_emit_def)
    have s: "set_dtls_state D st t = maybe_setup_dtls_srtp D ?t1"
      using 3 False by (simp add: set_dtls_state_def srtp_on_dtls_state_def tr_emit_def)
    show ?thesis
    proof (cases "is_dtls_writable ?t1")
      case True
      obtain t' where "setup_dtls_srtp D ?t1 = Inr t'" "keys_inv rtp_tag rtcp_tag t'" "dt_state t' = dt_state ?t1" "tr_frame ?t1 t'"
        using setup_dtls_srtp_ok [OF k] na assms(2) 3 by (auto simp: tr_emit_def)
      then show ?thesis using s na True tr_frame_trans [OF fr] by (simp add: maybe_setup_dtls_srtp_def tr_emit_def)
    next
      case False
      then show ?thesis using s k fr by (simp add: maybe_setup_dtls_srtp_def tr_emit_def)
    qed
  qed
qed

text \<open>Steps that keep the invariant and the adapter.\<close>

lemma state_step:
  assumes "tr_inv rtp_tag rtcp_tag t" "tr_frame t t1" "keys_inv rtp_tag rtcp_tag t1" "dt_state t1 = dt_state t"
    and "st \<noteq> k_new" "st = k_connecting \<or> st = k_connected \<Longrightarrow> dt_dtls t \<noteq> None"
  shows "\<exists>t'. set_dtls_state D st t1 = Inr t' \<and> tr_inv rtp_tag rtcp_tag t' \<and> dt_state t' = st \<and> tr_frame t t'"
proof -
  have "dt_dtls t1 = dt_dtls t" using assms(2) by (simp add: tr_frame_def)
  then obtain t' where t': "set_dtls_state D st t1 = Inr t'" "keys_inv rtp_tag rtcp_tag t'" "dt_state t' = st" "tr_frame t1 t'"
    using set_dtls_state_ok [OF assms(3)] assms(6) by metis
  have fr: "tr_frame t t'" using tr_frame_trans [OF assms(2) t'(4)] .
  have "adapter_inv t'"
    by (rule adapter_inv_frame [OF fr]) (use assms(1,5,6) t'(3) in \<open>auto simp: tr_inv_def\<close>)
  then show ?thesis using t' fr by (simp add: tr_inv_def)
qed

lemma tr_inv_emit:
  assumes "tr_inv rtp_tag rtcp_tag t" "ssl_quiet [e]"
  shows "tr_inv rtp_tag rtcp_tag (tr_emit e t)" "tr_frame t (tr_emit e t)"
proof -
  show fr: "tr_frame t (tr_emit e t)" using assms(2) by (simp add: tr_frame_def tr_emit_def)
  have "adapter_inv (tr_emit e t)"
    by (rule adapter_inv_frame [OF fr]) (use assms(1) in \<open>auto simp: tr_inv_def adapter_inv_def tr_emit_def\<close>)
  then show "tr_inv rtp_tag rtcp_tag (tr_emit e t)" using assms(1) by (simp add: tr_inv_def keys_inv_def tr_emit_def)
qed

lemma dtls_closed_ok:
  assumes "tr_inv rtp_tag rtcp_tag t"
  shows "\<exists>t'. dtls_closed D t = Inr t' \<and> tr_inv rtp_tag rtcp_tag t' \<and> tr_frame t t'"
proof -
  obtain t1 where t1: "set_dtls_state D k_closed (set_writable_state False t) = Inr t1" "tr_inv rtp_tag rtcp_tag t1" "tr_frame t t1"
    using state_step [OF assms, of "set_writable_state False t" k_closed] assms by (auto simp: tr_inv_def)
  show ?thesis using t1 tr_inv_emit [OF t1(2), of Tr_closed] tr_frame_trans [OF t1(3)]
    by (simp add: dtls_closed_def ssl_quiet_def)
qed

lemma dtls_read_loop_ok:
  assumes "tr_inv rtp_tag rtcp_tag t"
  shows "\<exists>t'. dtls_read_loop D rs t = Inr t' \<and> tr_inv rtp_tag rtcp_tag t' \<and> tr_frame t t'"
  using assms dtls_closed_ok tr_frame_refl by (induction D rs t rule: dtls_read_loop.induct) auto

lemma on_dtls_event_ok:
  assumes "tr_inv rtp_tag rtcp_tag t" "dt_dtls t \<noteq> None"
  shows "\<exists>t'. on_dtls_event D ev t = Inr t' \<and> tr_inv rtp_tag rtcp_tag t' \<and> tr_frame t t'"
proof -
  let ?op = "if se_open ev then set_dtls_state D k_connected (set_writable_state True t) else Inr t"
  have "\<exists>t1. ?op = Inr t1 \<and> tr_inv rtp_tag rtcp_tag t1 \<and> tr_frame t t1"
    using state_step [OF assms(1), of "set_writable_state True t" k_connected] assms tr_frame_refl
    by (cases "se_open ev") (auto simp: tr_inv_def)
  then obtain t1 where t1: "?op = Inr t1" "tr_inv rtp_tag rtcp_tag t1" "tr_frame t t1" by blast
  have d1: "dt_dtls t1 \<noteq> None" using t1(3) assms(2) by (simp add: tr_frame_def)
  let ?rd = "if se_read ev then (if dt_dtls t1 = None then Inl Null_deref else dtls_read_loop D (se_reads ev) t1) else Inr t1"
  obtain t2 where t2: "?rd = Inr t2" "tr_inv rtp_tag rtcp_tag t2" "tr_frame t1 t2"
    using dtls_read_loop_ok [OF t1(2)] t1(2) d1 tr_frame_refl by (cases "se_read ev") auto
  have fr2: "tr_frame t t2" using tr_frame_trans [OF t1(3) t2(3)] .
  show ?thesis
  proof (cases "se_close ev")
    case True
    let ?st = "if se_error ev = 0 then k_closed else k_failed"
    obtain t3 where "set_dtls_state D ?st (set_writable_state False t2) = Inr t3" "tr_inv rtp_tag rtcp_tag t3" "tr_frame t2 t3"
      using state_step [OF t2(2), of "set_writable_state False t2" ?st] t2(2)
      by (cases "se_error ev = 0") (auto simp: tr_inv_def)
    then show ?thesis using True t1(1) t2(1) tr_frame_trans [OF fr2] by (simp add: on_dtls_event_def)
  next
    case False
    then show ?thesis using t1(1) t2 fr2 by (simp add: on_dtls_event_def)
  qed
qed

lemma on_dtls_events_ok:
  assumes "tr_inv rtp_tag rtcp_tag t" "dt_dtls t \<noteq> None"
  shows "\<exists>t'. res_fold (on_dtls_event D) evs t = Inr t' \<and> tr_inv rtp_tag rtcp_tag t' \<and> tr_frame t t'"
  using assms
proof (induction evs arbitrary: t)
  case Nil
  then show ?case by (simp add: tr_frame_refl)
next
  case (Cons ev evs)
  obtain t1 where t1: "on_dtls_event D ev t = Inr t1" "tr_inv rtp_tag rtcp_tag t1" "tr_frame t t1"
    using on_dtls_event_ok [OF Cons.prems] by blast
  have "dt_dtls t1 \<noteq> None" using t1(3) Cons.prems(2) by (simp add: tr_frame_def)
  then obtain t2 where "res_fold (on_dtls_event D) evs t1 = Inr t2" "tr_inv rtp_tag rtcp_tag t2" "tr_frame t1 t2"
    using Cons.IH [OF t1(2)] by blast
  then show ?case using t1 tr_frame_trans by auto
qed

lemma handle_dtls_packet_ok:
  assumes "tr_inv rtp_tag rtcp_tag t" "dt_dtls t \<noteq> None"
  shows "\<exists>ok t'. handle_dtls_packet D data t = Inr (ok, t') \<and> tr_inv rtp_tag rtcp_tag t' \<and>
    dt_dtls t' \<noteq> None \<and> (\<not> ok \<longrightarrow> t' = t)"
proof (cases "dtls_records_ok data")
  case False
  then show ?thesis using assms by (auto simp: handle_dtls_packet_def)
next
  case True
  obtain sc where sc: "dt_dtls t = Some sc" using assms(2) by blast
  define sc1 where "sc1 = (if length (sc_packets sc) < k_max_pending_packets then sc\<lparr> sc_packets := sc_packets sc @ [data] \<rparr> else sc)"
  obtain n evs where f: "ssl_feed D (mt_tick t) (sc_packets sc1) = (n, evs)" by fastforce
  let ?t1 = "tr_tick (t\<lparr> dt_dtls := Some (sc1\<lparr> sc_packets := drop n (sc_packets sc1) \<rparr>) \<rparr>)"
  have "tr_inv rtp_tag rtcp_tag ?t1"
    using assms by (simp add: tr_inv_def keys_inv_def adapter_inv_def tr_tick_def)
  then obtain t2 where t2: "res_fold (on_dtls_event D) evs ?t1 = Inr t2" "tr_inv rtp_tag rtcp_tag t2" "tr_frame ?t1 t2"
    using on_dtls_events_ok [of ?t1 evs] by (auto simp: tr_tick_def)
  have "on_received_packet D data t = Inr t2"
    using sc f t2(1) unfolding on_received_packet_def Let_def sc1_def [symmetric] by (simp add: sc1_def [symmetric])
  moreover have "dt_dtls t2 \<noteq> None" using t2(3) by (simp add: tr_frame_def tr_tick_def)
  ultimately show ?thesis using True t2(2) by (auto simp: handle_dtls_packet_def)
qed

lemma maybe_start_dtls_ok:
  assumes "tr_inv rtp_tag rtcp_tag t" "dt_dtls t \<noteq> None \<Longrightarrow> \<not> ssl_started_now False (mt_out t)"
  shows "\<exists>t'. maybe_start_dtls D t = Inr t' \<and> tr_inv rtp_tag rtcp_tag t'"
proof (cases "dt_dtls t \<noteq> None \<and> mt_channel_writable t")
  case False
  then show ?thesis using assms(1) by (auto simp: maybe_start_dtls_def)
next
  case True
  let ?t1 = "tr_emit Ssl_started (tr_tick t)"
  have k: "keys_inv rtp_tag rtcp_tag ?t1" using assms(1) by (simp add: tr_inv_def keys_inv_def tr_emit_def tr_tick_def)
  have once: "ssl_once False (mt_out ?t1)"
    using assms True by (simp add: tr_inv_def adapter_inv_def tr_emit_def tr_tick_def ssl_once_append)
  have step: "\<exists>t2. set_dtls_state D st ?t1 = Inr t2 \<and> tr_inv rtp_tag rtcp_tag t2 \<and> dt_dtls t2 \<noteq> None \<and> dt_state t2 = st"
    if st: "st = k_connecting \<or> st = k_failed" for st
  proof -
    obtain t2 where t2: "set_dtls_state D st ?t1 = Inr t2" "keys_inv rtp_tag rtcp_tag t2" "dt_state t2 = st" "tr_frame ?t1 t2"
      using set_dtls_state_ok [OF k, of st] st by auto
    have d: "dt_dtls t2 \<noteq> None" using t2(4) True by (simp add: tr_frame_def tr_emit_def tr_tick_def)
    have "ssl_once False (mt_out t2)" using t2(4) once ssl_quiet_ssl by (auto simp: tr_frame_def ssl_once_append)
    then have "adapter_inv t2" using st t2(3) d by (auto simp: adapter_inv_def)
    then show ?thesis using t2 d by (simp add: tr_inv_def)
  qed
  show ?thesis
  proof (cases "ssl_start D (mt_tick t)")
    case False
    then show ?thesis using True step [of k_failed] by (auto simp: maybe_start_dtls_def Let_def)
  next
    case started: True
    obtain t2 where t2: "set_dtls_state D k_connecting ?t1 = Inr t2" "tr_inv rtp_tag rtcp_tag t2" "dt_dtls t2 \<noteq> None"
      using step [of k_connecting] by auto
    obtain ok t3 where t3: "handle_dtls_packet D (dt_catched_client_hello t2) t2 = Inr (ok, t3)" "tr_inv rtp_tag rtcp_tag t3"
      using handle_dtls_packet_ok [OF t2(2,3)] by blast
    have "\<exists>t4. (if ok then Inr t3 else set_dtls_state D k_failed t3) = Inr t4 \<and> tr_inv rtp_tag rtcp_tag t4"
      using t3(2) state_step [OF t3(2) tr_frame_refl] by (cases ok) (auto simp: tr_inv_def)
    then obtain t4 where t4: "(if ok then Inr t3 else set_dtls_state D k_failed t3) = Inr t4" "tr_inv rtp_tag rtcp_tag t4" by blast
    have "tr_inv rtp_tag rtcp_tag (t4\<lparr> dt_catched_client_hello := [] \<rparr>)"
      using t4(2) by (simp add: tr_inv_def keys_inv_def adapter_inv_def)
    then show ?thesis using True started t2 t3(1) t4(1) by (simp add: maybe_start_dtls_def Let_def)
  qed
qed

lemma setup_dtls_ok:
  assumes "tr_inv rtp_tag rtcp_tag t" "dt_dtls t = None" "dt_local_certificate t \<noteq> None"
  shows "\<exists>ok t'. setup_dtls D t = Inr (ok, t') \<and> tr_inv rtp_tag rtcp_tag t'"
proof -
  have nst: "dt_state t \<noteq> k_connecting" "dt_state t \<noteq> k_connected" using assms(1,2) by (auto simp: tr_inv_def adapter_inv_def)
  have tick: "tr_inv rtp_tag rtcp_tag (tr_tick u) = tr_inv rtp_tag rtcp_tag u" "mt_out (tr_tick u) = mt_out u" for u
    by (simp_all add: tr_inv_def keys_inv_def adapter_inv_def tr_tick_def)
  let ?new = "Some \<lparr> sc_packets = [], sc_state = SS_OPEN \<rparr>"
  let ?t1 = "tr_emit Ssl_created ((tr_tick t)\<lparr> dt_dtls := ?new \<rparr>)"
  have i1: "tr_inv rtp_tag rtcp_tag ?t1" "\<not> ssl_started_now False (mt_out ?t1)"
    using assms(1) nst by (auto simp: tr_inv_def keys_inv_def adapter_inv_def tr_emit_def tr_tick_def ssl_once_append ssl_started_append)
  define t2 where "t2 = (if dt_remote_fingerprint_value ?t1 \<noteq> [] then tr_emit Ssl_digest_set (tr_tick ?t1) else ?t1)"
  have i2: "tr_inv rtp_tag rtcp_tag t2" "\<not> ssl_started_now False (mt_out t2)"
    using i1 tr_inv_emit(1) [of "tr_tick ?t1" Ssl_digest_set] tick
    by (auto simp: t2_def ssl_quiet_def ssl_started_append) (simp_all add: tr_emit_def tr_tick_def ssl_started_append)
  let ?t3 = "if dt_srtp_ciphers t2 \<noteq> [] then tr_tick t2 else t2"
  have "tr_inv rtp_tag rtcp_tag ?t3" "\<not> ssl_started_now False (mt_out ?t3)" using i2 tick by auto
  then obtain t4 where t4: "maybe_start_dtls D ?t3 = Inr t4" "tr_inv rtp_tag rtcp_tag t4"
    using maybe_start_dtls_ok [of ?t3] by auto
  have none: "tr_inv rtp_tag rtcp_tag ((tr_tick t)\<lparr> dt_dtls := None \<rparr>)"
    using assms(1) nst by (simp add: tr_inv_def keys_inv_def adapter_inv_def tr_tick_def)
  have "tr_inv rtp_tag rtcp_tag (tr_tick t2)" using i2 tick by simp
  note goodies = none i2(1) this t4 assms(3)
  show ?thesis unfolding setup_dtls_def Let_def t2_def [symmetric] using goodies by (auto split: if_splits)
qed

lemma set_local_certificate_ok:
  "tr_inv rtp_tag rtcp_tag t \<Longrightarrow> tr_inv rtp_tag rtcp_tag (snd (set_local_certificate cert t))"
  by (auto simp: set_local_certificate_def tr_inv_def keys_inv_def adapter_inv_def)

lemma set_dtls_transport_ok:
  assumes "tr_inv rtp_tag rtcp_tag t" "\<not> mt_attached t"
  shows "\<exists>t'. set_dtls_transport D t = Inr t' \<and> tr_inv rtp_tag rtcp_tag t'"
proof -
  let ?t1 = "t\<lparr> mt_attached := True \<rparr>"
  have na: "\<not> is_srtp_active (mt_srtp ?t1)" using assms by (auto simp: tr_inv_def keys_inv_def)
  have i: "tr_inv rtp_tag rtcp_tag ?t1" using assms by (auto simp: tr_inv_def keys_inv_def adapter_inv_def)
  show ?thesis
  proof (cases "is_dtls_writable ?t1")
    case True
    obtain t' where t': "setup_dtls_srtp D ?t1 = Inr t'" "keys_inv rtp_tag rtcp_tag t'" "dt_state t' = dt_state ?t1" "tr_frame ?t1 t'"
      using setup_dtls_srtp_ok [of ?t1] i na by (auto simp: tr_inv_def adapter_inv_def)
    have "adapter_inv t'" by (rule adapter_inv_frame [OF t'(4)]) (use i t'(3) in \<open>auto simp: tr_inv_def adapter_inv_def\<close>)
    then show ?thesis using t' na True by (simp add: set_dtls_transport_def maybe_setup_dtls_srtp_def tr_inv_def)
  next
    case False
    then show ?thesis using i by (simp add: set_dtls_transport_def maybe_setup_dtls_srtp_def)
  qed
qed

lemma set_remote_fingerprint_ok:
  assumes "tr_inv rtp_tag rtcp_tag t"
  shows "\<exists>b t'. set_remote_fingerprint D alg digest t = Inr (b, t') \<and> tr_inv rtp_tag rtcp_tag t'"
proof (cases "(dt_active t \<and> dt_remote_fingerprint_value t = digest) \<or> alg = [] \<or> \<not> dt_active t")
  case True
  have "tr_inv rtp_tag rtcp_tag (t\<lparr> dt_active := False \<rparr>)" using assms by (simp add: tr_inv_def keys_inv_def adapter_inv_def)
  then show ?thesis using True assms by (auto simp: set_remote_fingerprint_def)
next
  case False
  have cert: "dt_local_certificate t \<noteq> None" using assms False by (auto simp: tr_inv_def keys_inv_def)
  let ?t1 = "t\<lparr> dt_remote_fingerprint_value := digest, dt_remote_fingerprint_alg := alg \<rparr>"
  have i1: "tr_inv rtp_tag rtcp_tag ?t1" using assms by (simp add: tr_inv_def keys_inv_def adapter_inv_def)
  have set_up: "\<exists>b t'. res_bind (setup_dtls D t3) (\<lambda>(ok, t4). if ok then Inr (True, t4)
        else res_bind (set_dtls_state D k_failed t4) (\<lambda>t5. Inr (False, t5))) = Inr (b, t') \<and> tr_inv rtp_tag rtcp_tag t'"
    if t3: "tr_inv rtp_tag rtcp_tag t3" "dt_dtls t3 = None" "dt_local_certificate t3 \<noteq> None" for t3
  proof -
    obtain ok t4 where t4: "setup_dtls D t3 = Inr (ok, t4)" "tr_inv rtp_tag rtcp_tag t4" using setup_dtls_ok [OF t3] by blast
    then obtain t5 where "set_dtls_state D k_failed t4 = Inr t5" "tr_inv rtp_tag rtcp_tag t5"
      using state_step [OF t4(2) tr_frame_refl, of k_failed] by (auto simp: tr_inv_def)
    then show ?thesis using t4 by (cases ok) auto
  qed
  consider "dt_dtls t \<noteq> None" "dt_remote_fingerprint_alg t = []" | "dt_dtls t \<noteq> None" "dt_remote_fingerprint_alg t \<noteq> []"
    | "dt_dtls t = None" by blast
  then show ?thesis
  proof cases
    case 1
    let ?t2 = "tr_emit Ssl_digest_set (tr_tick ?t1)"
    have "tr_inv rtp_tag rtcp_tag (tr_tick ?t1)" using i1 by (simp add: tr_inv_def keys_inv_def adapter_inv_def tr_tick_def)
    then have i2: "tr_inv rtp_tag rtcp_tag ?t2" using tr_inv_emit(1) by (simp add: ssl_quiet_def)
    then obtain t3 where "set_dtls_state D k_failed ?t2 = Inr t3" "tr_inv rtp_tag rtcp_tag t3"
      using state_step [OF i2 tr_frame_refl, of k_failed] by (auto simp: tr_inv_def)
    then show ?thesis using 1 False i2 by (auto simp: set_remote_fingerprint_def Let_def)
  next
    case 2
    let ?t2 = "?t1\<lparr> dt_dtls := None \<rparr>"
    have "keys_inv rtp_tag rtcp_tag ?t2" using i1 by (simp add: tr_inv_def keys_inv_def)
    then obtain t3 where t3: "set_dtls_state D k_new ?t2 = Inr t3" "keys_inv rtp_tag rtcp_tag t3" "dt_state t3 = k_new" "tr_frame ?t2 t3"
      using set_dtls_state_ok [of ?t2 k_new] by auto
    let ?t4 = "set_writable_state False t3"
    have fr: "tr_frame ?t2 ?t4" using tr_frame_trans [OF t3(4)] by simp
    then have d: "dt_dtls ?t4 = None" "dt_local_certificate ?t4 = dt_local_certificate t" by (simp_all add: tr_frame_def)
    have "ssl_once False (mt_out ?t4)"
      using fr i1 ssl_quiet_ssl by (auto simp: tr_frame_def tr_inv_def adapter_inv_def ssl_once_append)
    then have "tr_inv rtp_tag rtcp_tag ?t4" using t3(2,3) d by (simp add: tr_inv_def adapter_inv_def)
    from set_up [OF this d(1)] show ?thesis using 2 False t3(1) d(2) cert by (simp add: set_remote_fingerprint_def Let_def)
  next
    case 3
    then show ?thesis using set_up [OF i1] cert False by (simp add: set_remote_fingerprint_def Let_def)
  qed
qed

lemma dtls_on_writable_state_ok:
  assumes "tr_inv rtp_tag rtcp_tag t"
  shows "\<exists>t'. dtls_on_writable_state D t = Inr t' \<and> tr_inv rtp_tag rtcp_tag t'"
proof -
  let ?w = "set_writable_state (mt_channel_writable t) t"
  have "adapter_inv ?w"
    by (rule adapter_inv_frame [of t]) (use assms in \<open>auto simp: tr_inv_def adapter_inv_def\<close>)
  then have "tr_inv rtp_tag rtcp_tag ?w" using assms by (simp add: tr_inv_def)
  moreover have "\<exists>t'. maybe_start_dtls D t = Inr t' \<and> tr_inv rtp_tag rtcp_tag t'" if "dt_state t = k_new"
    using maybe_start_dtls_ok [OF assms] assms that by (simp add: tr_inv_def adapter_inv_def)
  ultimately show ?thesis using assms by (auto simp: dtls_on_writable_state_def split: dtls_transport_state.split)
qed

lemma dtls_on_receiving_state_ok:
  assumes "tr_inv rtp_tag rtcp_tag t"
  shows "tr_inv rtp_tag rtcp_tag (dtls_on_receiving_state t)"
proof -
  have "adapter_inv (dtls_on_receiving_state t)"
    by (rule adapter_inv_frame [of t]) (use assms in \<open>auto simp: tr_inv_def adapter_inv_def dtls_on_receiving_state_def\<close>)
  then show ?thesis using assms by (simp add: tr_inv_def dtls_on_receiving_state_def)
qed

subsection \<open>Media\<close>

lemma tr_inv_srtp:
  assumes "tr_inv rtp_tag rtcp_tag t" "is_srtp_active (mt_srtp t)"
    and "session_ok rtp_tag rtcp_tag ss" "ss_session ss \<noteq> None" "ss_inited ss"
  shows "tr_inv rtp_tag rtcp_tag (t\<lparr> mt_srtp := (mt_srtp t)\<lparr> st_recv := Some ss \<rparr> \<rparr>)"
    and "tr_inv rtp_tag rtcp_tag (t\<lparr> mt_srtp := (mt_srtp t)\<lparr> st_send := Some ss \<rparr> \<rparr>)"
  using assms
  by (auto simp: tr_inv_def keys_inv_def adapter_inv_def transport_ok_def is_srtp_active_def held_def held_by_def
      split: option.splits)

lemma srtp_on_read_packet_ok:
  assumes "tr_inv rtp_tag rtcp_tag t"
  shows "\<exists>t'. srtp_on_read_packet D data ts t = Inr t' \<and> tr_inv rtp_tag rtcp_tag t'"
proof (cases "is_srtp_active (mt_srtp t)")
  case False
  then show ?thesis using assms
    by (auto simp: srtp_on_read_packet_def infer_rtp_packet_type_spec on_rtp_packet_received_def on_rtcp_packet_received_def)
next
  case True
  have ok: "transport_ok rtp_tag rtcp_tag (mt_srtp t)" using assms by (simp add: tr_inv_def keys_inv_def)
  obtain r ss where r: "unprotect_rtp (de_srtp D) data (mt_srtp t) = Inr (r, (mt_srtp t)\<lparr> st_recv := Some ss \<rparr>)"
    "session_ok rtp_tag rtcp_tag ss" "ss_session ss \<noteq> None" "ss_inited ss"
    using transport_calls_ok(1) [OF ok True, of data] by blast
  obtain r' ss' where r': "unprotect_rtcp (de_srtp D) data (mt_srtp t) = Inr (r', (mt_srtp t)\<lparr> st_recv := Some ss' \<rparr>)"
    "session_ok rtp_tag rtcp_tag ss'" "ss_session ss' \<noteq> None" "ss_inited ss'"
    using transport_calls_ok(2) [OF ok True, of data] by blast
  let ?t1 = "t\<lparr> mt_srtp := (mt_srtp t)\<lparr> st_recv := Some ss \<rparr> \<rparr>" and ?t2 = "t\<lparr> mt_srtp := (mt_srtp t)\<lparr> st_recv := Some ss' \<rparr> \<rparr>"
  have i: "tr_inv rtp_tag rtcp_tag ?t1" "tr_inv rtp_tag rtcp_tag ?t2"
    using tr_inv_srtp(1) [OF assms True] r r' by blast+
  have up: "tr_inv rtp_tag rtcp_tag (u\<lparr> mt_unprotect_fail_count := n \<rparr>)" if "tr_inv rtp_tag rtcp_tag u" for u n
    using that by (simp add: tr_inv_def keys_inv_def adapter_inv_def)
  have rtp: "\<exists>t'. on_rtp_packet_received D data ts t = Inr t' \<and> tr_inv rtp_tag rtcp_tag t'" if "12 \<le> length data"
    using True r(1) i(1) that up tr_inv_emit(1) [OF i(1)]
    by (auto simp: on_rtp_packet_received_def Let_def ssl_quiet_def parse_rtp_sequence_number_def parse_rtp_ssrc_def split: option.split)
  have rtcp: "\<exists>t'. on_rtcp_packet_received D data ts t = Inr t' \<and> tr_inv rtp_tag rtcp_tag t'" if "4 \<le> length data"
    using True r'(1) i(2) that tr_inv_emit(1) [OF i(2)]
    by (auto simp: on_rtcp_packet_received_def Let_def ssl_quiet_def get_rtcp_type_def k_min_rtcp_packet_len_def byte_at_def split: option.split)
  show ?thesis using assms rtp rtcp by (auto simp: srtp_on_read_packet_def infer_rtp_packet_type_spec)
qed

lemma dtls_on_read_packet_ok:
  assumes "tr_inv rtp_tag rtcp_tag t"
  shows "\<exists>t'. dtls_on_read_packet D buf ts t = Inr t' \<and> tr_inv rtp_tag rtcp_tag t'"
proof -
  let ?h = "t\<lparr> dt_catched_client_hello := buf \<rparr>"
  have h: "tr_inv rtp_tag rtcp_tag ?h" using assms by (simp add: tr_inv_def keys_inv_def adapter_inv_def)
  have set_up: "\<exists>b t'. setup_dtls D ?h = Inr (b, t') \<and> tr_inv rtp_tag rtcp_tag t'"
    if "dt_dtls t = None" "dt_local_certificate t \<noteq> None"
    using setup_dtls_ok [OF h] that by simp
  have pkt: "\<exists>b t'. handle_dtls_packet D buf t = Inr (b, t') \<and> tr_inv rtp_tag rtcp_tag t'"
    if "dt_state t = k_connecting \<or> dt_state t = k_connected"
    using handle_dtls_packet_ok [OF assms, of buf] assms that by (auto simp: tr_inv_def adapter_inv_def)
  note media = srtp_on_read_packet_ok [OF assms, of buf ts]
  consider "dt_state t = k_new" | "dt_state t = k_connecting \<or> dt_state t = k_connected" | "dt_state t = k_closed \<or> dt_state t = k_failed"
    by (cases "dt_state t") auto
  then show ?thesis
  proof cases
    case 1
    then show ?thesis using assms h set_up
      by (cases "dt_dtls t = None \<and> dt_local_certificate t \<noteq> None") (auto simp: dtls_on_read_packet_def Let_def)
  next
    case 2
    then show ?thesis using assms pkt media by (auto simp: dtls_on_read_packet_def)
  next
    case 3
    then show ?thesis using assms by (auto simp: dtls_on_read_packet_def)
  qed
qed

lemma send_ok:
  assumes "tr_inv rtp_tag rtcp_tag t"
  shows "12 \<le> length data \<Longrightarrow> \<exists>n t'. send_rtp D data t = Inr (n, t') \<and> tr_inv rtp_tag rtcp_tag t'"
    and "4 \<le> length data \<Longrightarrow> \<exists>n t'. send_rtcp D data t = Inr (n, t') \<and> tr_inv rtp_tag rtcp_tag t'"
proof -
  have ok: "transport_ok rtp_tag rtcp_tag (mt_srtp t)" and att: "is_srtp_active (mt_srtp t) \<Longrightarrow> mt_attached t"
    using assms by (simp_all add: tr_inv_def keys_inv_def)
  have sent: "tr_inv rtp_tag rtcp_tag (snd (dtls_send_packet D c u))" if u: "tr_inv rtp_tag rtcp_tag u" for c u
  proof -
    have "tr_inv rtp_tag rtcp_tag (tr_tick u)" using u by (simp add: tr_inv_def keys_inv_def adapter_inv_def tr_tick_def)
    then show ?thesis using tr_inv_emit(1) by (simp add: dtls_send_packet_def ssl_quiet_def)
  qed
  have seq: "tr_inv rtp_tag rtcp_tag (u\<lparr> mt_last_send_seq_num := n \<rparr>)" if "tr_inv rtp_tag rtcp_tag u" for u n
    using that by (simp add: tr_inv_def keys_inv_def adapter_inv_def)
  show "\<exists>n t'. send_rtp D data t = Inr (n, t') \<and> tr_inv rtp_tag rtcp_tag t'" if "12 \<le> length data"
  proof (cases "is_srtp_active (mt_srtp t)")
    case True
    obtain r ss where r: "protect_rtp (de_srtp D) data (length data + fst (get_send_auth_tag_len (mt_srtp t))) (mt_srtp t) =
        Inr (r, (mt_srtp t)\<lparr> st_send := Some ss \<rparr>)" "session_ok rtp_tag rtcp_tag ss" "ss_session ss \<noteq> None" "ss_inited ss"
      using transport_calls_ok(3) [OF ok True, of data] by blast
    have "tr_inv rtp_tag rtcp_tag (t\<lparr> mt_srtp := (mt_srtp t)\<lparr> st_send := Some ss \<rparr> \<rparr>)"
      using tr_inv_srtp(2) [OF assms True r(2-4)] .
    then show ?thesis using True r(1) that att sent seq
      by (cases r) (auto simp: send_rtp_def Let_def parse_rtp_sequence_number_def parse_rtp_ssrc_def dtls_send_packet_def)
  qed (use assms in \<open>simp add: send_rtp_def\<close>)
  show "\<exists>n t'. send_rtcp D data t = Inr (n, t') \<and> tr_inv rtp_tag rtcp_tag t'" if "4 \<le> length data"
  proof (cases "is_srtp_active (mt_srtp t)")
    case True
    obtain r ss where r: "protect_rtcp (de_srtp D) data (length data + snd (get_send_auth_tag_len (mt_srtp t)) + 4) (mt_srtp t) =
        Inr (r, (mt_srtp t)\<lparr> st_send := Some ss \<rparr>)" "session_ok rtp_tag rtcp_tag ss" "ss_session ss \<noteq> None" "ss_inited ss"
      using transport_calls_ok(4) [OF ok True, of data] by blast
    have "tr_inv rtp_tag rtcp_tag (t\<lparr> mt_srtp := (mt_srtp t)\<lparr> st_send := Some ss \<rparr> \<rparr>)"
      using tr_inv_srtp(2) [OF assms True r(2-4)] .
    then show ?thesis using True r(1) that att sent
      by (cases r) (auto simp: send_rtcp_def Let_def get_rtcp_type_def k_min_rtcp_packet_len_def byte_at_def dtls_send_packet_def)
  qed (use assms in \<open>simp add: send_rtcp_def\<close>)
qed

end

subsection \<open>Writability and the signals\<close>

text \<open>What the signals in the log say last.\<close>

fun writable_now :: "bool \<Rightarrow> transport_event list \<Rightarrow> bool" where
  "writable_now b [] = b"
| "writable_now b (Tr_writable_state w # es) = writable_now w es"
| "writable_now b (_ # es) = writable_now b es"

fun state_now :: "dtls_transport_state \<Rightarrow> transport_event list \<Rightarrow> dtls_transport_state" where
  "state_now s [] = s"
| "state_now s (Tr_dtls_state s' # es) = state_now s' es"
| "state_now s (_ # es) = state_now s es"

lemma writable_now_append: "writable_now b (es @ fs) = writable_now (writable_now b es) fs"
  by (induction b es rule: writable_now.induct) auto

lemma state_now_append: "state_now s (es @ fs) = state_now (state_now s es) fs"
  by (induction s es rule: state_now.induct) auto

definition signals_agree :: "'c media_transport \<Rightarrow> bool" where
  "signals_agree t \<longleftrightarrow> dt_writable t = writable_now False (mt_out t) \<and> dt_state t = state_now k_new (mt_out t)"

text \<open>The flags equal the last signals; a connected transport is writable unless its ICE channel is not;
  and if DTLS was active whenever the ICE channel reported its writability (\<open>secured\<close>), the transport
  is writable only when connected (or failed on a fingerprint that came after the handshake).\<close>

definition writable_inv :: "bool \<Rightarrow> 'c media_transport \<Rightarrow> bool" where
  "writable_inv secured t \<longleftrightarrow> signals_agree t \<and>
     (dt_state t = k_connected \<longrightarrow> dt_writable t \<or> \<not> mt_channel_writable t) \<and>
     (secured \<and> dt_writable t \<longrightarrow> dt_state t = k_connected \<or> dt_state t = k_failed \<and> dt_dtls t \<noteq> None)"

text \<open>What \<open>writable_inv\<close> looks at, apart from the log.\<close>

definition writable_view :: "'c media_transport \<Rightarrow> dtls_transport_state \<times> bool \<times> bool \<times> stream_channel option" where
  "writable_view t = (dt_state t, dt_writable t, mt_channel_writable t, dt_dtls t)"

lemma writable_inv_cong:
  "writable_view t' = writable_view t \<Longrightarrow> mt_out t' = mt_out t \<Longrightarrow> writable_inv b t' = writable_inv b t"
  by (auto simp: writable_view_def writable_inv_def signals_agree_def)

lemma writable_inv_same:
  "writable_inv b t \<Longrightarrow> writable_view t' = writable_view t \<Longrightarrow> mt_out t' = mt_out t \<Longrightarrow> writable_inv b t'"
  using writable_inv_cong by blast

lemma writable_inv_emit:
  assumes "writable_inv b t" "\<forall>w. e \<noteq> Tr_writable_state w" "\<forall>s. e \<noteq> Tr_dtls_state s"
  shows "writable_inv b (tr_emit e t)"
  using assms by (cases e) (auto simp: writable_inv_def signals_agree_def tr_emit_def writable_now_append state_now_append)

lemma set_writable_state_view:
  "writable_view (set_writable_state w t) = (dt_state t, w, mt_channel_writable t, dt_dtls t)"
  "signals_agree t \<Longrightarrow> signals_agree (set_writable_state w t)"
  by (auto simp: set_writable_state_def writable_view_def signals_agree_def tr_emit_def writable_now_append state_now_append)

lemma setup_dtls_srtp_view:
  "setup_dtls_srtp D t = Inr t' \<Longrightarrow> writable_view t' = writable_view t \<and> mt_out t' = mt_out t"
  by (auto simp: setup_dtls_srtp_def Let_def res_bind_eq_Inr tr_tick_def writable_view_def split: option.splits)

lemma maybe_setup_dtls_srtp_view:
  "maybe_setup_dtls_srtp D t = Inr t' \<Longrightarrow> writable_view t' = writable_view t \<and> mt_out t' = mt_out t"
  using setup_dtls_srtp_view by (auto simp: maybe_setup_dtls_srtp_def split: if_splits)

lemma set_dtls_state_view:
  assumes "set_dtls_state D st t = Inr t'"
  shows "writable_view t' = (st, dt_writable t, mt_channel_writable t, dt_dtls t)"
    and "signals_agree t \<Longrightarrow> signals_agree t'"
proof -
  let ?t1 = "tr_emit (Tr_dtls_state st) (t\<lparr> dt_state := st \<rparr>)"
  have v1: "writable_view ?t1 = (st, dt_writable t, mt_channel_writable t, dt_dtls t)"
    "signals_agree t \<Longrightarrow> signals_agree ?t1"
    by (simp_all add: tr_emit_def writable_view_def signals_agree_def writable_now_append state_now_append)
  have same: "writable_view t' = writable_view ?t1 \<and> mt_out t' = mt_out ?t1" if "dt_state t \<noteq> st"
    using assms that maybe_setup_dtls_srtp_view [of D ?t1 t']
    by (auto simp: set_dtls_state_def srtp_on_dtls_state_def Let_def writable_view_def split: if_splits prod.splits)
  show "writable_view t' = (st, dt_writable t, mt_channel_writable t, dt_dtls t)"
    using assms same v1(1) by (cases "dt_state t = st") (auto simp: set_dtls_state_def writable_view_def)
  show "signals_agree t'" if "signals_agree t"
    using assms same v1(2) [OF that] that
    by (cases "dt_state t = st") (auto simp: set_dtls_state_def writable_view_def signals_agree_def)
qed

lemma writable_invI:
  assumes "signals_agree t" "writable_view t = (st, w, cw, d)" "st = k_connected \<longrightarrow> w \<or> \<not> cw"
    "secured \<and> w \<longrightarrow> st = k_connected \<or> st = k_failed \<and> d \<noteq> None"
  shows "writable_inv secured t"
  using assms by (auto simp: writable_inv_def writable_view_def)

lemma writable_invD:
  assumes "writable_inv secured t"
  shows "signals_agree t" "dt_state t = k_connected \<longrightarrow> dt_writable t \<or> \<not> mt_channel_writable t"
    "secured \<and> dt_writable t \<longrightarrow> dt_state t = k_connected \<or> dt_state t = k_failed \<and> dt_dtls t \<noteq> None"
  using assms by (simp_all add: writable_inv_def)

text \<open>Setting the flag and then the state, in the two ways of the event handler.\<close>

lemma flag_and_state:
  assumes "signals_agree t" "set_dtls_state D st (set_writable_state w t) = Inr t'" "st = k_connected \<longleftrightarrow> w"
  shows "writable_inv b t'" "dt_dtls t' = dt_dtls t"
  using set_dtls_state_view [OF assms(2)] set_writable_state_view(1) [of w t] set_writable_state_view(2) [OF assms(1)] assms(1,3)
  by (auto intro!: writable_invI simp: writable_view_def)

lemma state_not_writable:
  assumes "signals_agree t" "set_dtls_state D st t = Inr t'" "b \<Longrightarrow> \<not> dt_writable t" "st \<noteq> k_connected"
  shows "writable_inv b t'" "dt_dtls t' = dt_dtls t" "dt_writable t' = dt_writable t"
  using set_dtls_state_view [OF assms(2)] assms(1,3,4)
  by (auto intro!: writable_invI simp: writable_view_def)

lemma dtls_closed_writable:
  assumes "signals_agree t" "dtls_closed D t = Inr t'"
  shows "writable_inv b t'" "dt_dtls t' = dt_dtls t"
proof -
  obtain t1 where t1: "set_dtls_state D k_closed (set_writable_state False t) = Inr t1" "t' = tr_emit Tr_closed t1"
    using assms(2) by (auto simp: dtls_closed_def res_bind_eq_Inr)
  show "writable_inv b t'" "dt_dtls t' = dt_dtls t"
    using flag_and_state [OF assms(1) t1(1)] by (auto simp: t1(2) intro: writable_inv_emit) (simp add: tr_emit_def)
qed

lemma dtls_read_loop_writable:
  assumes "writable_inv b t" "dtls_read_loop D rs t = Inr t'"
  shows "writable_inv b t' \<and> dt_dtls t' = dt_dtls t"
  using assms dtls_closed_writable [OF writable_invD(1)]
  by (induction D rs t rule: dtls_read_loop.induct) auto

lemma on_dtls_event_writable:
  assumes "writable_inv b t" "on_dtls_event D ev t = Inr t'"
  shows "writable_inv b t' \<and> dt_dtls t' = dt_dtls t"
proof -
  obtain t1 t2 where t1: "(if se_open ev then set_dtls_state D k_connected (set_writable_state True t) else Inr t) = Inr t1"
    and t2: "(if se_read ev then (if dt_dtls t1 = None then Inl Null_deref else dtls_read_loop D (se_reads ev) t1)
               else Inr t1) = Inr t2"
    and t': "(if se_close ev
     then set_dtls_state D (if se_error ev = 0 then k_closed else k_failed) (set_writable_state False t2)
     else Inr t2) = Inr t'"
    using assms(2) by (auto simp: on_dtls_event_def res_bind_eq_Inr)
  have 1: "writable_inv b t1 \<and> dt_dtls t1 = dt_dtls t"
    using t1 assms(1) flag_and_state [OF writable_invD(1) [OF assms(1)]] by (auto split: if_splits)
  have 2: "writable_inv b t2 \<and> dt_dtls t2 = dt_dtls t"
    using t2 1 dtls_read_loop_writable [of b t1] by (auto split: if_splits)
  show ?thesis
    using t' 2 flag_and_state [OF writable_invD(1), of b t2] by (auto split: if_splits)
qed

lemma on_dtls_events_writable:
  assumes "writable_inv b t" "res_fold (on_dtls_event D) evs t = Inr t'"
  shows "writable_inv b t' \<and> dt_dtls t' = dt_dtls t"
  using assms
proof (induction evs arbitrary: t)
  case (Cons ev evs)
  then obtain t1 where "on_dtls_event D ev t = Inr t1" "res_fold (on_dtls_event D) evs t1 = Inr t'"
    by (auto simp: res_bind_eq_Inr)
  then show ?case using Cons on_dtls_event_writable [OF Cons.prems(1)] by metis
qed simp

lemma handle_dtls_packet_writable:
  assumes "writable_inv b t" "handle_dtls_packet D data t = Inr (ok, t')"
  shows "writable_inv b t' \<and> (dt_dtls t' = None \<longleftrightarrow> dt_dtls t = None) \<and> (\<not> ok \<longrightarrow> t' = t)"
proof (cases "dtls_records_ok data")
  case True
  then have run: "on_received_packet D data t = Inr t'" "ok"
    using assms(2) by (auto simp: handle_dtls_packet_def res_bind_eq_Inr)
  then obtain sc where sc: "dt_dtls t = Some sc" by (auto simp: on_received_packet_def split: option.splits)
  then obtain x evs where evs: "res_fold (on_dtls_event D) evs (tr_tick (t\<lparr> dt_dtls := Some x \<rparr>)) = Inr t'"
    using run by (auto simp: on_received_packet_def Let_def split: prod.splits)
  have "writable_inv b (tr_tick (t\<lparr> dt_dtls := Some x \<rparr>))"
    using assms(1) sc by (auto simp: writable_inv_def signals_agree_def tr_tick_def)
  then show ?thesis using on_dtls_events_writable [OF _ evs] sc run(2) by (auto simp: tr_tick_def)
next
  case False
  then show ?thesis using assms by (auto simp: handle_dtls_packet_def)
qed

lemma maybe_start_dtls_writable:
  assumes inv: "writable_inv b t" and run: "maybe_start_dtls D t = Inr t'"
    and off: "b \<Longrightarrow> \<not> dt_writable t"
  shows "writable_inv b t'"
proof (cases "dt_dtls t \<noteq> None \<and> mt_channel_writable t")
  case False
  then show ?thesis using inv run by (auto simp: maybe_start_dtls_def)
next
  case True
  let ?t1 = "tr_emit Ssl_started (tr_tick t)"
  have t1: "signals_agree ?t1" "b \<Longrightarrow> \<not> dt_writable ?t1"
    using writable_invD(1) [OF inv] off
    by (simp_all add: tr_emit_def tr_tick_def signals_agree_def writable_now_append state_now_append)
  note start = maybe_start_dtls_def [of D t, unfolded if_P [OF True] Let_def]
  show ?thesis
  proof (cases "ssl_start D (mt_tick t)")
    case False
    then have "set_dtls_state D k_failed ?t1 = Inr t'" using run start by simp
    then show ?thesis using state_not_writable(1) [OF t1(1)] t1(2) by blast
  next
    case st: True
    then obtain t2 where t2: "set_dtls_state D k_connecting ?t1 = Inr t2"
      and rest: "(if dt_catched_client_hello t2 \<noteq> [] then
             res_bind (handle_dtls_packet D (dt_catched_client_hello t2) t2) (\<lambda>(ok, t3).
             res_bind (if ok then Inr t3 else set_dtls_state D k_failed t3) (\<lambda>t4.
               Inr (t4\<lparr> dt_catched_client_hello := [] \<rparr>)))
           else Inr t2) = Inr t'"
      using run start by (auto simp: res_bind_eq_Inr)
    have i2: "writable_inv b t2" "b \<Longrightarrow> \<not> dt_writable t2"
      using state_not_writable [OF t1(1) t2 t1(2)] t1(2) by auto
    show ?thesis
    proof (cases "dt_catched_client_hello t2 = []")
      case True
      then show ?thesis using rest i2 by simp
    next
      case False
      then obtain ok t3 t4 where t3: "handle_dtls_packet D (dt_catched_client_hello t2) t2 = Inr (ok, t3)"
        and t4: "(if ok then Inr t3 else set_dtls_state D k_failed t3) = Inr t4"
        and t': "t' = t4\<lparr> dt_catched_client_hello := [] \<rparr>"
        using rest by (auto simp: res_bind_eq_Inr)
      note h = handle_dtls_packet_writable [OF i2(1) t3]
      have "writable_inv b t4"
        using t4 h i2(2) state_not_writable(1) [OF writable_invD(1) [OF i2(1)]] by (cases ok) auto
      then show ?thesis unfolding t' by (subst writable_inv_cong) (simp_all add: writable_view_def)
    qed
  qed
qed

lemma setup_dtls_writable:
  assumes inv: "writable_inv b t" and run: "setup_dtls D t = Inr (ok, t')"
    and none: "dt_dtls t = None" "dt_state t \<noteq> k_connected"
  shows "writable_inv b t'"
proof -
  have off: "b \<Longrightarrow> \<not> dt_writable t" using writable_invD(3) [OF inv] none by auto
  let ?t1 = "tr_emit Ssl_created ((tr_tick t)\<lparr> dt_dtls := Some \<lparr> sc_packets = [], sc_state = SS_OPEN \<rparr> \<rparr>)"
  let ?t2 = "if dt_remote_fingerprint_value ?t1 \<noteq> [] then tr_emit Ssl_digest_set (tr_tick ?t1) else ?t1"
  have tick: "writable_inv b (tr_tick u) = writable_inv b u" for u :: "'a media_transport"
    by (simp add: tr_tick_def writable_inv_def signals_agree_def)
  have "writable_inv b ((tr_tick t)\<lparr> dt_dtls := x \<rparr>)" for x
    using inv off none by (auto simp: writable_inv_def signals_agree_def tr_tick_def)
  then have i0: "writable_inv b ((tr_tick t)\<lparr> dt_dtls := None \<rparr>)" and i1: "writable_inv b ?t1"
    by (auto intro: writable_inv_emit)
  have i2: "writable_inv b ?t2" using i1 tick by (auto intro: writable_inv_emit)
  have off2: "b \<Longrightarrow> \<not> dt_writable ?t2" using off by (simp add: tr_emit_def tr_tick_def)
  have goal: "setup_dtls D t = Inr (ok, t') \<Longrightarrow> writable_inv b t'"
    using i0 i2 tick [of ?t2] maybe_start_dtls_writable [OF i2 _ off2] maybe_start_dtls_writable [of b "tr_tick ?t2"] off2
    unfolding setup_dtls_def Let_def
    by (auto simp: res_bind_eq_Inr simp del: writable_now.simps split: if_splits) (simp_all add: tr_tick_def)
  then show ?thesis using run .
qed

lemma setup_dtls_off:
  assumes "writable_inv b t" "setup_dtls D t = Inr (False, t')" "dt_dtls t = None" "dt_state t \<noteq> k_connected" b
  shows "\<not> dt_writable t'"
proof -
  have "dt_writable t' = dt_writable t"
    using assms(2) by (auto simp: setup_dtls_def Let_def res_bind_eq_Inr tr_emit_def tr_tick_def split: if_splits)
  then show ?thesis using writable_invD(3) [OF assms(1)] assms(3-5) by auto
qed

lemma set_remote_fingerprint_writable:
  assumes inv: "writable_inv b t" and none: "dt_dtls t = None \<Longrightarrow> dt_state t \<noteq> k_connected"
    and run: "set_remote_fingerprint D alg digest t = Inr (ok, t')"
  shows "writable_inv b t'"
proof (cases "(dt_active t \<and> dt_remote_fingerprint_value t = digest) \<or> alg = [] \<or> \<not> dt_active t")
  case True
  then have "writable_view t' = writable_view t \<and> mt_out t' = mt_out t"
    using run by (auto simp: set_remote_fingerprint_def writable_view_def split: if_splits)
  then show ?thesis using inv writable_inv_cong by blast
next
  case False
  let ?t1 = "t\<lparr> dt_remote_fingerprint_value := digest, dt_remote_fingerprint_alg := alg \<rparr>"
  have i1: "writable_inv b ?t1" using inv by (subst writable_inv_cong) (simp_all add: writable_view_def)
  have set_up: "writable_inv b u'"
    if u: "writable_inv b u" "dt_dtls u = None" "dt_state u \<noteq> k_connected"
      and go: "res_bind (setup_dtls D u) (\<lambda>(ok, t4). if ok then Inr (True, t4)
        else res_bind (set_dtls_state D k_failed t4) (\<lambda>t5. Inr (False, t5))) = Inr (ok', u')" for u ok' u'
  proof -
    obtain ok4 t4 where t4: "setup_dtls D u = Inr (ok4, t4)"
      and t5: "(if ok4 then Inr (True, t4) else res_bind (set_dtls_state D k_failed t4) (\<lambda>t5. Inr (False, t5))) = Inr (ok', u')"
      using go by (auto simp: res_bind_eq_Inr)
    have i4: "writable_inv b t4" using setup_dtls_writable [OF u(1) t4 u(2,3)] .
    show ?thesis
    proof (cases ok4)
      case True
      then show ?thesis using t5 i4 by simp
    next
      case False
      then have "setup_dtls D u = Inr (False, t4)" using t4 by simp
      then have "b \<Longrightarrow> \<not> dt_writable t4" using setup_dtls_off [OF u(1) _ u(2,3)] by blast
      then show ?thesis
        using t5 False state_not_writable(1) [OF writable_invD(1) [OF i4]] by (auto simp: res_bind_eq_Inr)
    qed
  qed
  consider "dt_dtls t \<noteq> None" "dt_remote_fingerprint_alg t = []" | "dt_dtls t \<noteq> None" "dt_remote_fingerprint_alg t \<noteq> []"
    | "dt_dtls t = None" by blast
  then show ?thesis
  proof cases
    case 1
    let ?t2 = "tr_emit Ssl_digest_set (tr_tick ?t1)"
    have "writable_inv b (tr_tick ?t1)" using i1 by (subst writable_inv_cong) (simp_all add: writable_view_def tr_tick_def)
    then have i2: "writable_inv b ?t2" by (rule writable_inv_emit) simp_all
    have d2: "dt_dtls ?t2 \<noteq> None" using 1(1) by (simp add: tr_emit_def tr_tick_def)
    have "writable_inv b u" if "set_dtls_state D k_failed ?t2 = Inr u" for u
      using set_dtls_state_view [OF that] writable_invD(1) [OF i2] d2 by (intro writable_invI) auto
    then show ?thesis using run False 1 i2 by (auto simp: set_remote_fingerprint_def Let_def res_bind_eq_Inr split: if_splits)
  next
    case 2
    let ?t2 = "?t1\<lparr> dt_dtls := None \<rparr>"
    obtain t3 where t3: "set_dtls_state D k_new ?t2 = Inr t3"
      and rest: "res_bind (setup_dtls D (set_writable_state False t3)) (\<lambda>(ok, t4). if ok then Inr (True, t4)
        else res_bind (set_dtls_state D k_failed t4) (\<lambda>t5. Inr (False, t5))) = Inr (ok, t')"
      using run False 2 by (auto simp: set_remote_fingerprint_def Let_def res_bind_eq_Inr)
    let ?t4 = "set_writable_state False t3"
    have v3: "writable_view t3 = (k_new, dt_writable t, mt_channel_writable t, None)" "signals_agree t3"
      using set_dtls_state_view [OF t3] writable_invD(1) [OF i1] by (simp_all add: signals_agree_def)
    have v4: "writable_view ?t4 = (k_new, False, mt_channel_writable t, None)"
      using v3(1) by (simp add: set_writable_state_view(1)) (simp add: writable_view_def)
    have "writable_inv b ?t4"
      using set_writable_state_view(2) [OF v3(2)] v4 by (rule writable_invI) simp_all
    then show ?thesis using set_up [OF _ _ _ rest] v4 by (simp add: writable_view_def)
  next
    case 3
    then show ?thesis using run False set_up [OF i1] none by (simp add: set_remote_fingerprint_def Let_def)
  qed
qed

text \<open>The slot of the ICE channel's writability, with its new value already in place.\<close>

lemma dtls_on_writable_state_writable:
  assumes "writable_inv b t" "dtls_on_writable_state D (t\<lparr> mt_channel_writable := w \<rparr>) = Inr t'"
  shows "writable_inv (b \<and> dt_active t) t'"
proof -
  let ?u = "t\<lparr> mt_channel_writable := w \<rparr>"
  have agree: "signals_agree ?u" using writable_invD(1) [OF assms(1)] by (simp add: signals_agree_def)
  have set: "writable_inv (b \<and> dt_active t) (set_writable_state w ?u)"
    if "\<not> dt_active t \<or> dt_state t = k_connected"
    using set_writable_state_view(1) [of w ?u] set_writable_state_view(2) [OF agree, of w] that by (intro writable_invI) auto
  have keep: "writable_inv b ?u" if "dt_state t \<noteq> k_connected"
    using assms(1) that by (auto simp: writable_inv_def signals_agree_def)
  have start: "writable_inv b t'" if "dt_state t = k_new" "maybe_start_dtls D ?u = Inr t'"
    using maybe_start_dtls_writable [OF keep that(2)] that(1) writable_invD(3) [OF assms(1)] by auto
  show ?thesis
    using assms(2) set keep start
    by (cases "dt_state t"; cases "dt_active t") (auto simp: dtls_on_writable_state_def)
qed

lemma dtls_on_receiving_state_writable:
  "writable_inv b t \<Longrightarrow> writable_inv b (dtls_on_receiving_state (t\<lparr> mt_channel_receiving := r \<rparr>))"
  by (auto simp: dtls_on_receiving_state_def dtls_set_receiving_def writable_inv_def signals_agree_def tr_emit_def
      writable_now_append state_now_append)

lemma on_packet_received_cases:
  assumes "on_rtp_packet_received D data ts t = Inr t' \<or> on_rtcp_packet_received D data ts t = Inr t'"
  shows "\<exists>st n. t' = t \<or> t' = t\<lparr> mt_srtp := st \<rparr> \<or> t' = t\<lparr> mt_srtp := st, mt_unprotect_fail_count := n \<rparr>
      \<or> (\<exists>p. t' = tr_emit (Tr_rtp_packet p ts) (t\<lparr> mt_srtp := st \<rparr>)) \<or> (\<exists>p. t' = tr_emit (Tr_rtcp_packet p ts) (t\<lparr> mt_srtp := st \<rparr>))"
  using assms
proof
  assume "on_rtp_packet_received D data ts t = Inr t'"
  then show ?thesis
    by (auto simp: on_rtp_packet_received_def res_bind_eq_Inr Let_def split: if_splits option.splits)
next
  assume "on_rtcp_packet_received D data ts t = Inr t'"
  then show ?thesis
    by (auto simp: on_rtcp_packet_received_def res_bind_eq_Inr Let_def split: if_splits option.splits)
qed

lemma srtp_on_read_packet_writable:
  assumes "writable_inv b t" "srtp_on_read_packet D data ts t = Inr t'"
  shows "writable_inv b t'"
proof -
  obtain k where k: "(case k of k_unknown \<Rightarrow> Inr t | k_rtcp \<Rightarrow> on_rtcp_packet_received D data ts t
     | k_rtp \<Rightarrow> on_rtp_packet_received D data ts t) = Inr t'"
    using assms(2) by (auto simp: srtp_on_read_packet_def res_bind_eq_Inr)
  then consider "t' = t" | "on_rtp_packet_received D data ts t = Inr t' \<or> on_rtcp_packet_received D data ts t = Inr t'"
    by (cases k) auto
  then show ?thesis
  proof cases
    case 1
    then show ?thesis using assms(1) by simp
  next
    case 2
    have "writable_inv b (t\<lparr> mt_srtp := st \<rparr>)" "writable_inv b (t\<lparr> mt_srtp := st, mt_unprotect_fail_count := n \<rparr>)" for st n
      by (rule writable_inv_same [OF assms(1)]; simp add: writable_view_def)+
    then show ?thesis using on_packet_received_cases [OF 2] assms(1)
      by (elim exE disjE) (simp_all add: writable_inv_emit)
  qed
qed

lemma dtls_on_read_packet_writable:
  assumes inv: "writable_inv b t" and run: "dtls_on_read_packet D buf ts t = Inr t'"
  shows "writable_inv b t'"
proof -
  let ?h = "t\<lparr> dt_catched_client_hello := buf \<rparr>"
  have h: "writable_inv b ?h" using inv by (subst writable_inv_cong) (simp_all add: writable_view_def)
  have pkt: "writable_inv b u" if "handle_dtls_packet D buf t = Inr (ok, u)" for ok u
    using handle_dtls_packet_writable [OF inv that] by blast
  have set_up: "writable_inv b u" if "setup_dtls D ?h = Inr (ok, u)" "dt_dtls t = None" "dt_state t = k_new" for ok u
    using setup_dtls_writable [OF h that(1)] that(2,3) by simp
  show ?thesis
    using run inv h pkt set_up srtp_on_read_packet_writable [OF inv]
    by (cases "dt_state t")
      (auto simp: dtls_on_read_packet_def Let_def res_bind_eq_Inr split: if_splits)
qed

lemma dtls_send_packet_writable: "writable_inv b t \<Longrightarrow> writable_inv b (snd (dtls_send_packet D c t))"
  by (auto simp: dtls_send_packet_def tr_tick_def tr_emit_def writable_inv_def signals_agree_def
      writable_now_append state_now_append)

lemma send_rtp_cases:
  assumes "send_rtp D data t = Inr (n, t')"
  shows
 "\<exists>st q c. t' = t \<or> t' = t\<lparr> mt_srtp := st \<rparr> \<or>
        dtls_send_packet D c (t\<lparr> mt_srtp := st, mt_last_send_seq_num := q \<rparr>) = (n, t')"
proof (cases "is_srtp_active (mt_srtp t)")
  case True
  then obtain q r st where r: "(let t1 = t\<lparr> mt_srtp := st \<rparr> in case r of
          None \<Rightarrow> res_bind (parse_rtp_ssrc (de_rtc D) data) (\<lambda>_. Inr (- 1, t1))
        | Some cipher \<Rightarrow> if mt_attached t then Inr (dtls_send_packet D cipher (t1\<lparr> mt_last_send_seq_num := q \<rparr>))
                         else Inl Null_deref) = Inr (n, t')"
    using assms by (auto simp: send_rtp_def res_bind_eq_Inr)
  then show ?thesis by (cases r) (auto simp: res_bind_eq_Inr split: if_splits)
qed (use assms in \<open>simp add: send_rtp_def\<close>)
lemma send_rtcp_cases:
  assumes "send_rtcp D data t = Inr (n, t')"
  shows
 "\<exists>st c. t' = t \<or> t' = t\<lparr> mt_srtp := st \<rparr> \<or>
        dtls_send_packet D c (t\<lparr> mt_srtp := st \<rparr>) = (n, t')"
proof (cases "is_srtp_active (mt_srtp t)")
  case True
  then obtain r st where r: "(let t1 = t\<lparr> mt_srtp := st \<rparr> in case r of
          None \<Rightarrow> res_bind (get_rtcp_type (Some data) (length data)) (\<lambda>_. Inr (- 1, t1))
        | Some cipher \<Rightarrow> if mt_attached t then Inr (dtls_send_packet D cipher t1) else Inl Null_deref) = Inr (n, t')"
    using assms by (auto simp: send_rtcp_def res_bind_eq_Inr)
  then show ?thesis by (cases r) (auto simp: res_bind_eq_Inr split: if_splits)
qed (use assms in \<open>simp add: send_rtcp_def\<close>)
lemma send_writable:
  assumes inv: "writable_inv b t"
  shows "send_rtp D data t = Inr (n, t') \<Longrightarrow> writable_inv b t'"
    and "send_rtcp D data t = Inr (n, t') \<Longrightarrow> writable_inv b t'"
proof -
  have keep: "writable_inv b (t\<lparr> mt_srtp := st \<rparr>)" "writable_inv b (t\<lparr> mt_srtp := st, mt_last_send_seq_num := q \<rparr>)" for st q
    by (rule writable_inv_same [OF inv]; simp add: writable_view_def)+
  have sent: "writable_inv b t'" if "dtls_send_packet D c u = (n, t')" "writable_inv b u" for c u
    using dtls_send_packet_writable [OF that(2), of D c] that(1) by simp
  show "send_rtp D data t = Inr (n, t') \<Longrightarrow> writable_inv b t'"
    using send_rtp_cases [of D data t n t'] inv keep sent by blast
  show "send_rtcp D data t = Inr (n, t') \<Longrightarrow> writable_inv b t'"
    using send_rtcp_cases [of D data t n t'] inv keep sent by blast
qed

subsection \<open>Reachable states\<close>

text \<open>
  Everything that can happen to a transport after its construction: the calls of the transport
  controller, the slots of the ICE channel, events of the adapter while it exists, packets, sending,
  and other transports of the process taking and releasing references to libsrtp.  The flag
  records whether DTLS was active whenever the ICE channel reported its writability.
\<close>

inductive dtls_reaches :: "'c dtls_env \<Rightarrow> bool \<Rightarrow> 'c media_transport res \<Rightarrow> bool" for D where
  tr_start: "global_ok 0 g \<Longrightarrow> dtls_reaches D True (Inr (DtlsTransport_new D mux w r g))"
| tr_certificate: "dtls_reaches D b (Inr t) \<Longrightarrow> dtls_reaches D b (Inr (snd (set_local_certificate cert t)))"
| tr_attach: "dtls_reaches D b (Inr t) \<Longrightarrow> \<not> mt_attached t \<Longrightarrow> dtls_reaches D b (set_dtls_transport D t)"
| tr_fingerprint: "dtls_reaches D b (Inr t) \<Longrightarrow> dtls_reaches D b (map_sum id snd (set_remote_fingerprint D alg digest t))"
| tr_ice_writable: "dtls_reaches D b (Inr t) \<Longrightarrow>
    dtls_reaches D (b \<and> dt_active t) (dtls_on_writable_state D (t\<lparr> mt_channel_writable := w \<rparr>))"
| tr_ice_receiving: "dtls_reaches D b (Inr t) \<Longrightarrow> dtls_reaches D b (Inr (dtls_on_receiving_state (t\<lparr> mt_channel_receiving := r \<rparr>)))"
| tr_packet: "dtls_reaches D b (Inr t) \<Longrightarrow> dtls_reaches D b (dtls_on_read_packet D buf ts t)"
| tr_adapter: "dtls_reaches D b (Inr t) \<Longrightarrow> dt_dtls t \<noteq> None \<Longrightarrow> dtls_reaches D b (on_dtls_event D ev t)"
| tr_send_rtp: "dtls_reaches D b (Inr t) \<Longrightarrow> 12 \<le> length data \<Longrightarrow> dtls_reaches D b (map_sum id snd (send_rtp D data t))"
| tr_send_rtcp: "dtls_reaches D b (Inr t) \<Longrightarrow> 4 \<le> length data \<Longrightarrow> dtls_reaches D b (map_sum id snd (send_rtcp D data t))"
| tr_others: "dtls_reaches D b (Inr t) \<Longrightarrow> global_ok (held (mt_srtp t)) g \<Longrightarrow> dtls_reaches D b (Inr (t\<lparr> mt_global := g \<rparr>))"

context dtls_environment
begin

lemma new_inv: "global_ok 0 g \<Longrightarrow> tr_inv rtp_tag rtcp_tag (DtlsTransport_new D mux w r g)"
  by (simp add: DtlsTransport_new_def tr_inv_def keys_inv_def adapter_inv_def transport_ok_def SrtpTransport_new_def
      is_srtp_active_def held_def held_by_def)

lemma tr_inv_channel [simp]:
  "tr_inv rtp_tag rtcp_tag (t\<lparr> mt_channel_writable := b \<rparr>) = tr_inv rtp_tag rtcp_tag t"
  "tr_inv rtp_tag rtcp_tag (t\<lparr> mt_channel_receiving := b \<rparr>) = tr_inv rtp_tag rtcp_tag t"
  by (simp_all add: tr_inv_def keys_inv_def adapter_inv_def)

lemma dtls_reaches_inv: "dtls_reaches D b r \<Longrightarrow> \<exists>t. r = Inr t \<and> tr_inv rtp_tag rtcp_tag t"
proof (induction rule: dtls_reaches.induct)
  case (tr_start g mux w r)
  then show ?case using new_inv by blast
next
  case (tr_certificate b t cert)
  then show ?case using set_local_certificate_ok by simp
next
  case (tr_attach b t)
  then show ?case using set_dtls_transport_ok by simp
next
  case (tr_fingerprint b t alg digest)
  then show ?case using set_remote_fingerprint_ok [of t alg digest] by auto
next
  case (tr_ice_writable b t w)
  then show ?case using dtls_on_writable_state_ok [of "t\<lparr> mt_channel_writable := w \<rparr>"] by simp
next
  case (tr_ice_receiving b t r)
  then show ?case using dtls_on_receiving_state_ok [of "t\<lparr> mt_channel_receiving := r \<rparr>"] by simp
next
  case (tr_packet b t buf ts)
  then show ?case using dtls_on_read_packet_ok by simp
next
  case (tr_adapter b t ev)
  then show ?case using on_dtls_event_ok by auto
next
  case (tr_send_rtp b t data)
  then show ?case using send_ok(1) [of t data] by auto
next
  case (tr_send_rtcp b t data)
  then show ?case using send_ok(2) [of t data] by auto
next
  case (tr_others b t g)
  then show ?case by (simp add: tr_inv_def keys_inv_def adapter_inv_def)
qed

lemma dtls_reaches_writable: "dtls_reaches D b r \<Longrightarrow> r = Inr t \<Longrightarrow> writable_inv b t"
proof (induction arbitrary: t rule: dtls_reaches.induct)
  case (tr_start g mux w r)
  then show ?case by (auto simp: writable_inv_def signals_agree_def DtlsTransport_new_def)
next
  case (tr_certificate b u cert)
  have "writable_view (snd (set_local_certificate cert u)) = writable_view u \<and>
      mt_out (snd (set_local_certificate cert u)) = mt_out u"
    by (simp add: set_local_certificate_def writable_view_def)
  then show ?case using tr_certificate.IH [OF refl] tr_certificate.prems writable_inv_cong by auto
next
  case (tr_attach b u)
  let ?u = "u\<lparr> mt_attached := True \<rparr>"
  have "writable_view t = writable_view u \<and> mt_out t = mt_out u"
    using maybe_setup_dtls_srtp_view [of D ?u t] tr_attach.prems by (simp add: set_dtls_transport_def writable_view_def)
  then show ?case using tr_attach.IH [OF refl] writable_inv_cong by blast
next
  case (tr_fingerprint b u alg digest)
  have "dt_dtls u = None \<Longrightarrow> dt_state u \<noteq> k_connected"
    using dtls_reaches_inv [OF tr_fingerprint.hyps] by (auto simp: tr_inv_def adapter_inv_def)
  then show ?case
    using set_remote_fingerprint_writable [OF tr_fingerprint.IH [OF refl]] tr_fingerprint.prems
    by (cases "set_remote_fingerprint D alg digest u") auto
next
  case (tr_ice_writable b u w)
  then show ?case using dtls_on_writable_state_writable by blast
next
  case (tr_ice_receiving b u r)
  then show ?case using dtls_on_receiving_state_writable by blast
next
  case (tr_packet b u buf ts)
  then show ?case using dtls_on_read_packet_writable by blast
next
  case (tr_adapter b u ev)
  then show ?case using on_dtls_event_writable by blast
next
  case (tr_send_rtp b u data)
  then show ?case using send_writable(1) [OF tr_send_rtp.IH [OF refl]] by (cases "send_rtp D data u") auto
next
  case (tr_send_rtcp b u data)
  then show ?case using send_writable(2) [OF tr_send_rtcp.IH [OF refl]] by (cases "send_rtcp D data u") auto
next
  case (tr_others b u g)
  then show ?case using writable_inv_cong [of "u\<lparr> mt_global := g \<rparr>" u b] by (auto simp: writable_view_def)
qed

end

text \<open>
  C19: Whatever the network, the DTLS implementation and the peer do, no operation of a media
  transport dereferences a null pointer, uses the stream below a deleted adapter or overruns a packet
  buffer.  The DTLS state and the writability are what the last signals said; a connected transport is
  writable unless its ICE channel is not; and if DTLS was active whenever the ICE channel reported
  its writability, a writable transport is connected, or has failed on a fingerprint that was set after
  the handshake.  SRTP keys are installed only while DTLS is connected (and are gone as soon as it is
  not), and then both directions have a context and libsrtp is initialised; packets reach the DTLS
  adapter only while it exists; and \<^verbatim>\<open>StartSSL\<close> is called at most once on every adapter.
\<close>

theorem dtls_transport_invariant:
  assumes "dtls_environment D rt rc" "dtls_reaches D secured r"
  shows "\<exists>t. r = Inr t \<and>
    dt_state t = state_now k_new (mt_out t) \<and> dt_writable t = writable_now False (mt_out t) \<and>
    (dt_state t = k_connected \<and> mt_channel_writable t \<longrightarrow> dt_writable t) \<and>
    (secured \<and> dt_writable t \<longrightarrow> dt_state t = k_connected \<or> dt_state t = k_failed \<and> dt_dtls t \<noteq> None) \<and>
    (is_srtp_active (mt_srtp t) \<longrightarrow> dt_state t = k_connected \<and> sg_up (mt_global t)) \<and>
    (\<forall>ss. st_send (mt_srtp t) = Some ss \<or> st_recv (mt_srtp t) = Some ss \<longrightarrow> is_srtp_active (mt_srtp t) \<and> ss_session ss \<noteq> None) \<and>
    held (mt_srtp t) \<le> g_libsrtp_usage_count (mt_global t) \<and>
    (dt_state t = k_connecting \<or> dt_state t = k_connected \<longrightarrow> dt_dtls t \<noteq> None) \<and>
    ssl_once False (mt_out t)"
proof -
  obtain t where t: "r = Inr t" "tr_inv rt rc t" using dtls_environment.dtls_reaches_inv [OF assms] by blast
  have w: "signals_agree t" "dt_state t = k_connected \<and> mt_channel_writable t \<longrightarrow> dt_writable t"
      "secured \<and> dt_writable t \<longrightarrow> dt_state t = k_connected \<or> dt_state t = k_failed \<and> dt_dtls t \<noteq> None"
    using writable_invD [OF dtls_environment.dtls_reaches_writable [OF assms t(1)]] by blast+
  have ok: "transport_ok rt rc (mt_srtp t)" "global_ok (held (mt_srtp t)) (mt_global t)"
    using t(2) by (simp_all add: tr_inv_def keys_inv_def)
  have up: "sg_up (mt_global t)" if "is_srtp_active (mt_srtp t)"
  proof -
    obtain ss where "st_send (mt_srtp t) = Some ss" using \<open>is_srtp_active (mt_srtp t)\<close> by (auto simp: is_srtp_active_def)
    then have "0 < held (mt_srtp t)"
      using ok(1) by (auto simp: transport_ok_def held_def held_by_def split: option.split)
    then show ?thesis using ok(2) by (simp add: global_ok_def)
  qed
  have media: "(is_srtp_active (mt_srtp t) \<longrightarrow> dt_state t = k_connected \<and> sg_up (mt_global t)) \<and>
    (\<forall>ss. st_send (mt_srtp t) = Some ss \<or> st_recv (mt_srtp t) = Some ss \<longrightarrow> is_srtp_active (mt_srtp t) \<and> ss_session ss \<noteq> None) \<and>
    held (mt_srtp t) \<le> g_libsrtp_usage_count (mt_global t) \<and>
    (dt_state t = k_connecting \<or> dt_state t = k_connected \<longrightarrow> dt_dtls t \<noteq> None) \<and> ssl_once False (mt_out t)"
    using t(2) ok up
    by (auto simp: tr_inv_def keys_inv_def adapter_inv_def transport_ok_def is_srtp_active_def global_ok_def)
  have signals: "dt_state t = state_now k_new (mt_out t) \<and> dt_writable t = writable_now False (mt_out t)"
    using w(1) by (simp add: signals_agree_def)
  show ?thesis using t(1) signals w(2,3) media by blast
qed

subsection \<open>A reference instance\<close>

text \<open>
  A libsrtp whose context is the key and whose tag is ten zero bytes, with one profile, and an
  adapter that completes the handshake on the first packet it is fed.  It gives the witnesses
  something to run on.
\<close>

definition srtp_ref :: "bytes srtp_lib" where
  "srtp_ref = \<lparr> srtp_init = (\<lambda>_. True), srtp_install_event_handler = (\<lambda>_. True),
     policy_for_rtp = (\<lambda>cs. if cs = 1 then Some \<lparr> cipher_key_len = 3, auth_tag_len = 10 \<rparr> else None),
     policy_for_rtcp = (\<lambda>cs. if cs = 1 then Some \<lparr> cipher_key_len = 3, auth_tag_len = 10 \<rparr> else None),
     srtp_create = (\<lambda>_ cs key. if cs = 1 then Some key else None), srtp_update = (\<lambda>_ cs key _. if cs = 1 then Some key else None),
     srtp_protect = (\<lambda>c p. (Some (p @ replicate 10 0), c)), srtp_protect_rtcp = (\<lambda>c p. (Some (p @ replicate 14 0), c)),
     srtp_unprotect = (\<lambda>c p. (Some (take (length p - 10) p), c)),
     srtp_unprotect_rtcp = (\<lambda>c p. (Some (take (length p - 14) p), c)) \<rparr>"

interpretation srtp_ref: srtp_library srtp_ref "\<lambda>_. 10" "\<lambda>_. 10"
  by unfold_locales (auto simp: srtp_ref_def split: if_splits)

definition dtls_ref :: "bytes dtls_env" where
  "dtls_ref = \<lparr> de_rtc = rtc_ref, de_srtp = srtp_ref, ssl_create = (\<lambda>_. True), ssl_set_digest = (\<lambda>_ _ _. Digest_ok),
     ssl_set_suites = (\<lambda>_ _. True), ssl_start = (\<lambda>_. True),
     ssl_feed = (\<lambda>_ ps. (length ps, [\<lparr> se_open = True, se_read = False, se_close = False, se_error = 0, se_reads = [] \<rparr>])),
     ssl_srtp_suite = (\<lambda>_. Some 1), ssl_export = (\<lambda>_ n. Some (map of_nat [0..<n])),
     srtp_key_and_salt_lengths = (\<lambda>_. Some (2, 1)), supported_suites = [1], channel_send = (\<lambda>_ d. int (length d)) \<rparr>"

interpretation dtls_ref: dtls_environment dtls_ref "\<lambda>_. 10" "\<lambda>_. 10"
  using srtp_ref.srtp_library_axioms by (simp add: dtls_environment_def dtls_ref_def)

lemma dtls_environment_ref: "dtls_environment dtls_ref (\<lambda>_. 10) (\<lambda>_. 10)"
  by unfold_locales

definition ex_hello :: bytes where
  "ex_hello = [22, 254, 253, 0, 0, 0, 0, 0, 0, 0, 0, 0, 5, 1, 0, 0, 1, 0]"

definition ex_new :: "bytes media_transport" where
  "ex_new = DtlsTransport_new dtls_ref True False False \<lparr> g_libsrtp_usage_count = 0, sg_up = False, sg_tick = 0 \<rparr>"

text \<open>Certificate, attachment, answer, ICE writable, one handshake packet.\<close>

definition ex_answered :: "bytes media_transport res" where
  "ex_answered =
     res_bind (set_dtls_transport dtls_ref (snd (set_local_certificate (Some 0) ex_new))) (\<lambda>t2.
     map_sum id snd (set_remote_fingerprint dtls_ref [115] [1, 2] t2))"

definition ex_connected :: "bytes media_transport res" where
  "ex_connected =
     res_bind ex_answered (\<lambda>t3.
     res_bind (dtls_on_writable_state dtls_ref (t3\<lparr> mt_channel_writable := True \<rparr>)) (\<lambda>t4.
     dtls_on_read_packet dtls_ref ex_hello 0 t4))"

lemma reaches_bind: "dtls_reaches D b r \<Longrightarrow> (\<And>t. r = Inr t \<Longrightarrow> dtls_reaches D b (Inr t) \<Longrightarrow> dtls_reaches D b' (f t)) \<Longrightarrow>
    (\<And>u. r = Inl u \<Longrightarrow> b' = b) \<Longrightarrow> dtls_reaches D b' (res_bind r f)"
  by (cases r) auto

lemma ex_connected_reached: "dtls_reaches dtls_ref True ex_connected"
proof -
  have "dtls_reaches dtls_ref True (Inr ex_new)"
    unfolding ex_new_def by (rule tr_start) (simp add: global_ok_def)
  then have "dtls_reaches dtls_ref True (Inr (snd (set_local_certificate (Some 0) ex_new)))" by (rule tr_certificate)
  moreover have "\<not> mt_attached (snd (set_local_certificate (Some 0) ex_new))"
    by (simp add: set_local_certificate_def ex_new_def DtlsTransport_new_def)
  ultimately have "dtls_reaches dtls_ref True (set_dtls_transport dtls_ref (snd (set_local_certificate (Some 0) ex_new)))"
    by (rule tr_attach)
  then have r3: "dtls_reaches dtls_ref True ex_answered"
    unfolding ex_answered_def by (intro reaches_bind) (simp_all add: tr_fingerprint)
  have act: "dt_active t" if "ex_answered = Inr t" for t
  proof -
    have "map_sum id dt_active ex_answered = Inr True" by code_simp
    then show ?thesis unfolding that by simp
  qed
  have "dtls_reaches dtls_ref True (dtls_on_writable_state dtls_ref (t\<lparr> mt_channel_writable := True \<rparr>))"
    if "ex_answered = Inr t" "dtls_reaches dtls_ref True (Inr t)" for t
    using tr_ice_writable [OF that(2), of True] act [OF that(1)] by simp
  then show ?thesis unfolding ex_connected_def
    using r3 by (intro reaches_bind [OF r3] reaches_bind) (simp_all add: tr_packet)
qed

lemma ex_connected_state:
  "map_sum id (\<lambda>t. (dt_state t, is_srtp_active (mt_srtp t), mt_out t)) ex_connected = Inr (k_connected, True,
     [Ssl_created, Ssl_digest_set, Ssl_started, Tr_dtls_state k_connecting, Tr_writable_state True, Tr_dtls_state k_connected])"
  by code_simp

theorem dtls_transport_invariant_witness:
  "\<exists>t. ex_connected = Inr t \<and> dt_state t = k_connected \<and> dt_writable t \<and> is_srtp_active (mt_srtp t) \<and> sg_up (mt_global t)"
proof -
  obtain t where t: "ex_connected = Inr t" "dt_writable t = writable_now False (mt_out t)"
    "is_srtp_active (mt_srtp t) \<longrightarrow> dt_state t = k_connected \<and> sg_up (mt_global t)"
    using dtls_transport_invariant [OF dtls_environment_ref ex_connected_reached] by blast
  moreover have "dt_state t = k_connected" "is_srtp_active (mt_srtp t)" "writable_now False (mt_out t)"
    using ex_connected_state unfolding t(1) by simp_all
  ultimately show ?thesis by blast
qed

subsection \<open>The record check\<close>

text \<open>One DTLS record: a header of 13 bytes whose last two are the length of the rest.\<close>

definition dtls_record :: "bytes \<Rightarrow> bool" where
  "dtls_record r \<longleftrightarrow> 13 \<le> length r \<and> length r = 13 + 256 * unat (r ! 11) + unat (r ! 12)"

lemma record_len: "unat (push_bit 8 (ucast a :: 32 word) OR ucast b) = 256 * unat (a :: byte) + unat (b :: byte)"
proof -
  have "push_bit 8 (ucast a :: 32 word) AND ucast b = 0"
    by (rule bit_word_eqI) (auto simp: bit_simps dest: bit_imp_le_length)
  then have "push_bit 8 (ucast a :: 32 word) OR ucast b = push_bit 8 (ucast a) + ucast b"
    using disjunctive_add_eq_or by metis
  also have "\<dots> = of_nat (256 * unat a + unat b)"
    by (simp add: push_bit_eq_mult mult.commute)
  also have "unat \<dots> = 256 * unat a + unat b"
  proof -
    have "unat a < 256" "unat b < 256" using unsigned_less [of a, where 'a = nat] unsigned_less [of b, where 'a = nat] by simp_all
    then have "256 * unat a + unat b < 2 ^ 32" by simp
    then show ?thesis by (subst unsigned_of_nat) (simp add: take_bit_nat_eq_self_iff)
  qed
  finally show ?thesis .
qed

lemma dtls_records_Nil [simp]: "dtls_records_ok []"
  by (simp add: dtls_records_ok.simps)

lemma dtls_records_cons: "dtls_record r \<Longrightarrow> dtls_records_ok (r @ rest) = dtls_records_ok rest"
proof -
  assume r: "dtls_record r"
  then have "length r \<ge> 13" "r \<noteq> []" by (auto simp: dtls_record_def)
  then show ?thesis using r
    by (subst dtls_records_ok.simps) (simp add: dtls_record_def k_dtls_record_header_len_def record_len nth_append Let_def add.assoc)
qed

lemma dtls_records_split:
  assumes "dtls_records_ok data" "data \<noteq> []"
  obtains r rest where "data = r @ rest" "dtls_record r" "dtls_records_ok rest" "length rest < length data"
proof -
  let ?n = "13 + (256 * unat (data ! 11) + unat (data ! 12))"
  have d: "13 \<le> length data" "?n \<le> length data" "dtls_records_ok (drop ?n data)"
    using assms by (subst (asm) dtls_records_ok.simps, simp add: k_dtls_record_header_len_def record_len Let_def split: if_splits)+
  have "dtls_record (take ?n data)" using d by (simp add: dtls_record_def)
  then show thesis using that [of "take ?n data" "drop ?n data"] d by simp
qed

text \<open>
  The check in \<^verbatim>\<open>_handle_dtls_packet\<close> ends on every datagram, never reads past it, and accepts
  exactly the concatenations of complete DTLS records; anything else is dropped and changes nothing.
\<close>

theorem dtls_packet_check_spec:
  "(dtls_records_ok data \<longleftrightarrow> (\<exists>rs. data = concat rs \<and> list_all dtls_record rs)) \<and>
   (handle_dtls_packet D data t = Inr (False, t) \<or> (\<exists>rs. data = concat rs \<and> list_all dtls_record rs))"
proof -
  have "dtls_records_ok (concat rs)" if "list_all dtls_record rs" for rs
    using that by (induction rs) (simp_all add: dtls_records_cons)
  moreover have "\<exists>rs. data = concat rs \<and> list_all dtls_record rs" if "dtls_records_ok data" for data
    using that
  proof (induction data rule: length_induct)
    case (1 data)
    show ?case
    proof (cases "data = []")
      case True
      then show ?thesis by (intro exI [of _ "[]"]) simp
    next
      case False
      obtain r rest where "data = r @ rest" "dtls_record r" "dtls_records_ok rest" "length rest < length data"
        using dtls_records_split [OF 1(2) False] by blast
      moreover from this obtain rs where "rest = concat rs" "list_all dtls_record rs" using 1(1) by blast
      ultimately show ?thesis by (intro exI [of _ "r # rs"]) simp
    qed
  qed
  ultimately show ?thesis by (auto simp: handle_dtls_packet_def)
qed

subsection \<open>Keys\<close>

lemma set_key_fresh:
  assumes "\<forall>n. srtp_init L n \<and> srtp_install_event_handler L n" "policy_for_rtp L cs = Some p" "policy_for_rtcp L cs = Some q"
    "length key = cipher_key_len p" "srtp_create L d cs key = Some c"
  shows "\<exists>g'. set_key L d cs key SrtpSession_new g = (True, \<lparr> ss_session = Some c, ss_inited = True,
    ss_rtp_auth_tag_len = auth_tag_len p, ss_rtcp_auth_tag_len = auth_tag_len q \<rparr>, g')"
  using assms by (simp add: set_key_def SrtpSession_new_def increment_libsrtp_usage_count_and_maybe_init_def do_set_key_def Let_def)

text \<open>The transport sends with the context \<open>c\<close> and receives with \<open>d\<close>.\<close>

definition media_with :: "'c \<Rightarrow> 'c \<Rightarrow> 'c media_transport \<Rightarrow> bool" where
  "media_with c d t \<longleftrightarrow> dt_state t = k_connected \<and> mt_attached t \<and>
     (\<exists>s. st_send (mt_srtp t) = Some s \<and> ss_session s = Some c) \<and>
     (\<exists>r. st_recv (mt_srtp t) = Some r \<and> ss_session r = Some d)"

lemma handshake_media:
  assumes inv: "tr_inv rt rc t" and t: "dt_state t \<noteq> k_connected" "mt_attached t" "dt_active t" "dt_dtls t \<noteq> None"
    and ev: "se_open ev" "\<not> se_read ev" "\<not> se_close ev"
    and suite: "ssl_srtp_suite D (mt_tick t) = Some cs" "srtp_key_and_salt_lengths D cs = Some (k, s)"
    and buf: "ssl_export D (mt_tick t) (2 * (k + s)) = Some (ck @ sk @ csalt @ ssalt)"
      "length ck = k" "length sk = k" "length csalt = s" "length ssalt = s"
    and lib: "\<forall>n. srtp_init (de_srtp D) n \<and> srtp_install_event_handler (de_srtp D) n"
      "policy_for_rtp (de_srtp D) cs = Some p" "policy_for_rtcp (de_srtp D) cs = Some q" "cipher_key_len p = k + s"
      "srtp_create (de_srtp D) ssrc_any_outbound cs (sk @ ssalt) = Some c"
      "srtp_create (de_srtp D) ssrc_any_inbound cs (ck @ csalt) = Some d"
  shows "\<exists>t'. on_dtls_event D ev t = Inr t' \<and> dt_writable t' \<and> media_with c d t'"
proof -
  have none: "st_send (mt_srtp t) = None" "st_recv (mt_srtp t) = None"
    using inv t(1) by (auto simp: tr_inv_def keys_inv_def transport_ok_def is_srtp_active_def)
  let ?w = "set_writable_state True t"
  let ?t1 = "tr_emit (Tr_dtls_state k_connected) (?w\<lparr> dt_state := k_connected \<rparr>)"
  have w: "dt_writable ?w" "mt_srtp ?w = mt_srtp t" "mt_tick ?w = mt_tick t" "mt_attached ?w" "dt_active ?w"
    "dt_dtls ?w = dt_dtls t" "mt_global ?w = mt_global t" using t by (simp_all add: set_writable_state_def tr_emit_def)
  have "split_keys k s (ck @ sk @ csalt @ ssalt) = (sk @ ssalt, ck @ csalt)" using buf(2-5) by (simp add: split_keys_def)
  then have ex: "extract_params D ?t1 = Inr (Some (cs, sk @ ssalt, ck @ csalt))"
    using w t(4) suite buf(1) by (simp add: extract_params_def get_srtp_crypto_suite_def export_keying_material_def tr_emit_def)
  obtain g1 where g1: "set_send (de_srtp D) cs (sk @ ssalt) SrtpSession_new (mt_global t) = (True, \<lparr> ss_session = Some c,
      ss_inited = True, ss_rtp_auth_tag_len = auth_tag_len p, ss_rtcp_auth_tag_len = auth_tag_len q \<rparr>, g1)"
    using set_key_fresh [OF lib(1-3) _ lib(5)] buf lib(4) unfolding set_send_def by auto
  obtain g2 where g2: "set_recv (de_srtp D) cs (ck @ csalt) SrtpSession_new g1 = (True, \<lparr> ss_session = Some d,
      ss_inited = True, ss_rtp_auth_tag_len = auth_tag_len p, ss_rtcp_auth_tag_len = auth_tag_len q \<rparr>, g2)"
    using set_key_fresh [OF lib(1-3) _ lib(6)] buf lib(4) unfolding set_recv_def by auto
  have "setup_dtls_srtp D ?t1 = Inr ((tr_tick ?t1)\<lparr> mt_srtp := (mt_srtp t)\<lparr>
      st_send := Some \<lparr> ss_session = Some c, ss_inited = True, ss_rtp_auth_tag_len = auth_tag_len p, ss_rtcp_auth_tag_len = auth_tag_len q \<rparr>,
      st_recv := Some \<lparr> ss_session = Some d, ss_inited = True, ss_rtp_auth_tag_len = auth_tag_len p, ss_rtcp_auth_tag_len = auth_tag_len q \<rparr> \<rparr>,
      mt_global := g2 \<rparr>)" (is "_ = Inr ?t2")
    using ex set_rtp_params_new [OF none g1 g2] w by (simp add: setup_dtls_srtp_def tr_tick_def tr_emit_def)
  moreover have "set_dtls_state D k_connected ?w = setup_dtls_srtp D ?t1"
    using t(1) w none by (simp add: set_dtls_state_def srtp_on_dtls_state_def maybe_setup_dtls_srtp_def is_dtls_writable_def
        is_srtp_active_def tr_emit_def)
  ultimately have "on_dtls_event D ev t = Inr ?t2" using ev by (simp add: on_dtls_event_def)
  then show ?thesis using w by (simp add: tr_emit_def tr_tick_def media_with_def)
qed

text \<open>
  C20: When the handshake completes, the exported keying material is split as RFC 5764 lays it out
  (client key, server key, client salt, server salt): the sending context is keyed with the
  server's key and salt, the receiving one with the client's, and SRTP is active.
\<close>

theorem handshake_installs_keys:
  assumes inv: "tr_inv rt rc t" and t: "dt_state t \<noteq> k_connected" "mt_attached t" "dt_active t" "dt_dtls t \<noteq> None"
    and ev: "se_open ev" "\<not> se_read ev" "\<not> se_close ev"
    and suite: "ssl_srtp_suite D (mt_tick t) = Some cs" "srtp_key_and_salt_lengths D cs = Some (k, s)"
    and buf: "ssl_export D (mt_tick t) (2 * (k + s)) = Some (ck @ sk @ csalt @ ssalt)"
      "length ck = k" "length sk = k" "length csalt = s" "length ssalt = s"
    and lib: "\<forall>n. srtp_init (de_srtp D) n \<and> srtp_install_event_handler (de_srtp D) n"
      "policy_for_rtp (de_srtp D) cs = Some p" "policy_for_rtcp (de_srtp D) cs = Some q" "cipher_key_len p = k + s"
      "srtp_create (de_srtp D) ssrc_any_outbound cs (sk @ ssalt) = Some c"
      "srtp_create (de_srtp D) ssrc_any_inbound cs (ck @ csalt) = Some d"
  shows "\<exists>t' s r. on_dtls_event D ev t = Inr t' \<and> dt_state t' = k_connected \<and> dt_writable t' \<and>
    st_send (mt_srtp t') = Some s \<and> ss_session s = Some c \<and> st_recv (mt_srtp t') = Some r \<and> ss_session r = Some d"
  using handshake_media [OF assms] by (auto simp: media_with_def)

subsection \<open>From peer to peer\<close>


















text \<open>The state in which the first handshake packet meets a transport that is ready for it.\<close>

definition ex_handshaking :: "bytes media_transport" where
  "ex_handshaking = ex_new\<lparr> dt_local_certificate := Some 0, dt_active := True, mt_attached := True,
     dt_dtls := Some \<lparr> sc_packets = [], sc_state = SS_OPEN \<rparr>, dt_state := k_connecting \<rparr>"

definition ex_open :: adapter_event where
  "ex_open = \<lparr> se_open = True, se_read = False, se_close = False, se_error = 0, se_reads = [] \<rparr>"

lemma ex_handshaking_inv: "tr_inv (\<lambda>_. 10) (\<lambda>_. 10) ex_handshaking"
proof -
  have "tr_inv (\<lambda>_. 10) (\<lambda>_. 10) ex_new" unfolding ex_new_def by (rule dtls_ref.new_inv) (simp add: global_ok_def)
  then show ?thesis
    by (simp add: tr_inv_def keys_inv_def adapter_inv_def ex_handshaking_def ex_new_def DtlsTransport_new_def is_srtp_active_def SrtpTransport_new_def)
qed



theorem handshake_installs_keys_witness:
  "\<exists>t' s r. on_dtls_event dtls_ref ex_open ex_handshaking = Inr t' \<and> dt_state t' = k_connected \<and> dt_writable t' \<and>
    st_send (mt_srtp t') = Some s \<and> ss_session s = Some [2, 3, 5] \<and> st_recv (mt_srtp t') = Some r \<and> ss_session r = Some [0, 1, 4]"
proof (rule handshake_installs_keys [where rt = "\<lambda>_. 10" and rc = "\<lambda>_. 10" and cs = 1 and k = 2 and s = 1 and ck = "[0, 1]"
    and sk = "[2, 3]" and csalt = "[4]" and ssalt = "[5]" and p = "\<lparr> cipher_key_len = 3, auth_tag_len = 10 \<rparr>"
    and q = "\<lparr> cipher_key_len = 3, auth_tag_len = 10 \<rparr>"])
  show "tr_inv (\<lambda>_. 10) (\<lambda>_. 10) ex_handshaking" by (rule ex_handshaking_inv)
qed (simp_all add: ex_handshaking_def ex_new_def DtlsTransport_new_def ex_open_def dtls_ref_def srtp_ref_def upt_rec)

end
