(* ===== verification/Transport_Props.thy ===== *)
theory Transport_Props
  imports Transport_Controller Dtls_Props
begin

text \<open>
  Properties of the transport controller: what the aggregation computes, and that the controller
  never misses a change although it hears the ICE channels only through the agent's own aggregate.
\<close>

subsection \<open>The aggregation, by membership\<close>

definition pc_state_spec :: "dtls_transport_state set \<Rightarrow> ice_transport_state set \<Rightarrow> peer_connection_state" where
  "pc_state_spec Ds Is =
     (if dtls_transport_state.k_failed \<in> Ds \<or> ice_transport_state.k_failed \<in> Is then k_failed
      else if ice_transport_state.k_disconnected \<in> Is then k_disconnected
      else if Ds \<subseteq> {dtls_transport_state.k_new, dtls_transport_state.k_closed} \<and>
        Is \<subseteq> {ice_transport_state.k_new, ice_transport_state.k_closed} then k_new
      else if dtls_transport_state.k_new \<in> Ds \<or> dtls_transport_state.k_connecting \<in> Ds \<or>
        ice_transport_state.k_new \<in> Is \<or> k_checking \<in> Is then k_connecting
      else k_connected)"

lemma states_equal_pos: "0 < states_equal st xs \<longleftrightarrow> st \<in> set xs"
  by (auto simp: states_equal_def filter_empty_conv)

lemma states_equal_sum:
  "distinct sts \<Longrightarrow> sum_list (map (\<lambda>st. states_equal st xs) sts) = length (filter (\<lambda>x. x \<in> set sts) xs)"
proof (induction xs)
  case Nil
  then show ?case by (simp add: states_equal_def)
next
  case (Cons x xs)
  have "sum_list (map (\<lambda>st. states_equal st (x # xs)) sts) = sum_list (map (\<lambda>st. states_equal st xs) sts) + sum_list (map (\<lambda>st. of_bool (x = st)) sts)"
    by (induction sts) (simp_all add: states_equal_def)
  also have "sum_list (map (\<lambda>st. of_bool (x = st)) sts) = (of_bool (x \<in> set sts) :: nat)"
    using Cons.prems by (induction sts) auto
  finally show ?case using Cons by simp
qed

lemma states_all_le: "length (filter P xs) \<le> length xs"
  by (rule length_filter_le)

lemma states_cover:
  assumes "length dtls = length ice"
  shows "length (filter P dtls) + length (filter Q ice) = length dtls * 2 \<longleftrightarrow> list_all P dtls \<and> list_all Q ice"
proof -
  have "length (filter P dtls) + length (filter Q ice) = length dtls * 2 \<longleftrightarrow>
      length (filter P dtls) = length dtls \<and> length (filter Q ice) = length ice"
    using states_all_le [of P dtls] states_all_le [of Q ice] assms by linarith
  then show ?thesis by (simp add: length_filter_all list_all_iff)
qed

lemma aggregate_pc_membership:
  assumes "length dtls = length ice"
  shows "aggregate_pc_state dtls ice = pc_state_spec (set dtls) (set ice)"
proof -
  have failed: "0 < states_equal ice_transport_state.k_failed ice + states_equal dtls_transport_state.k_failed dtls \<longleftrightarrow>
      dtls_transport_state.k_failed \<in> set dtls \<or> ice_transport_state.k_failed \<in> set ice"
    using states_equal_pos by (metis add_gr_0)
  have new: "states_equal ice_transport_state.k_new ice + states_equal dtls_transport_state.k_new dtls +
      (states_equal ice_transport_state.k_closed ice + states_equal dtls_transport_state.k_closed dtls) = length dtls * 2 \<longleftrightarrow>
      set dtls \<subseteq> {dtls_transport_state.k_new, dtls_transport_state.k_closed} \<and> set ice \<subseteq> {ice_transport_state.k_new, ice_transport_state.k_closed}"
  proof -
    have "states_equal ice_transport_state.k_new ice + states_equal dtls_transport_state.k_new dtls +
        (states_equal ice_transport_state.k_closed ice + states_equal dtls_transport_state.k_closed dtls) =
        length (filter (\<lambda>x. x = dtls_transport_state.k_new \<or> x = dtls_transport_state.k_closed) dtls) +
        length (filter (\<lambda>x. x = ice_transport_state.k_new \<or> x = ice_transport_state.k_closed) ice)"
      using states_equal_sum [of "[dtls_transport_state.k_new, dtls_transport_state.k_closed]" dtls, simplified]
        states_equal_sum [of "[ice_transport_state.k_new, ice_transport_state.k_closed]" ice, simplified] by linarith
    then show ?thesis unfolding states_cover [OF assms, symmetric] by (auto simp: states_cover [OF assms] list_all_iff)
  qed
  have connecting: "0 < states_equal k_checking ice + states_equal dtls_transport_state.k_connecting dtls +
      (states_equal ice_transport_state.k_new ice + states_equal dtls_transport_state.k_new dtls) \<longleftrightarrow>
      dtls_transport_state.k_new \<in> set dtls \<or> dtls_transport_state.k_connecting \<in> set dtls \<or> ice_transport_state.k_new \<in> set ice \<or> k_checking \<in> set ice"
    using states_equal_pos by (metis add_gr_0)
  have rest: "states_equal ice_transport_state.k_connected ice + states_equal dtls_transport_state.k_connected dtls + states_equal k_completed ice +
      (states_equal ice_transport_state.k_closed ice + states_equal dtls_transport_state.k_closed dtls) = length dtls * 2"
    if no: "dtls_transport_state.k_failed \<notin> set dtls" "ice_transport_state.k_failed \<notin> set ice" "ice_transport_state.k_disconnected \<notin> set ice"
      "dtls_transport_state.k_new \<notin> set dtls" "dtls_transport_state.k_connecting \<notin> set dtls" "ice_transport_state.k_new \<notin> set ice" "k_checking \<notin> set ice"
  proof -
    have "x \<in> {dtls_transport_state.k_connected, dtls_transport_state.k_closed}" if "x \<in> set dtls" for x
      using no that by (cases x) auto
    moreover have "x \<in> {ice_transport_state.k_connected, k_completed, ice_transport_state.k_closed}" if "x \<in> set ice" for x
      using no that by (cases x) auto
    ultimately have "length (filter (\<lambda>x. x = dtls_transport_state.k_connected \<or> x = dtls_transport_state.k_closed) dtls) +
        length (filter (\<lambda>x. x = ice_transport_state.k_connected \<or> x = k_completed \<or> x = ice_transport_state.k_closed) ice) = length dtls * 2"
      unfolding states_cover [OF assms] by (auto simp: list_all_iff)
    then show ?thesis
      using states_equal_sum [of "[dtls_transport_state.k_connected, dtls_transport_state.k_closed]" dtls, simplified]
        states_equal_sum [of "[ice_transport_state.k_connected, k_completed, ice_transport_state.k_closed]" ice, simplified] by linarith
  qed
  show ?thesis
    unfolding aggregate_pc_state_def pc_state_spec_def Let_def failed new connecting states_equal_pos
    using rest by auto
qed

text \<open>
  The counting in \<^verbatim>\<open>TransportController::_update_state\<close> computes this: failed if some DTLS or ICE
  transport failed, else disconnected if some ICE channel is, else new if all are new or closed, else
  connecting if one is new, checking or connecting, else connected; the fall-through is never taken.
\<close>

theorem pc_state_aggregation:
  "aggregate_pc_state (tc_dtls_states tc) (tc_ice_states tc) = pc_state_spec (set (tc_dtls_states tc)) (set (tc_ice_states tc))"
  by (rule aggregate_pc_membership) (simp add: tc_dtls_states_def tc_ice_states_def)

subsection \<open>A transport announces every change of its DTLS state\<close>

declare dtls_records_ok.simps [simp del]

definition dtls_states_of :: "transport_event list \<Rightarrow> dtls_transport_state list" where
  "dtls_states_of es = List.map_filter (\<lambda>e. case e of Tr_dtls_state st \<Rightarrow> Some st | _ \<Rightarrow> None) es"

definition announces :: "'c media_transport \<Rightarrow> 'c media_transport \<Rightarrow> bool" where
  "announces t t' \<longleftrightarrow> (\<exists>es. mt_out t' = mt_out t @ es \<and> dt_state t' = last (dt_state t # dtls_states_of es))"

lemma dtls_states_of_simps [simp]:
  "dtls_states_of [] = []" "dtls_states_of (es @ es') = dtls_states_of es @ dtls_states_of es'"
  "dtls_states_of (e # es) = (case e of Tr_dtls_state st \<Rightarrow> [st] | _ \<Rightarrow> []) @ dtls_states_of es"
  by (simp_all add: dtls_states_of_def List.map_filter_def split: transport_event.splits)

lemma announces_trans [trans]: "announces t t' \<Longrightarrow> announces t' t'' \<Longrightarrow> announces t t''"
proof -
  assume "announces t t'" "announces t' t''"
  then obtain es es' where "mt_out t' = mt_out t @ es" "dt_state t' = last (dt_state t # dtls_states_of es)"
      "mt_out t'' = mt_out t' @ es'" "dt_state t'' = last (dt_state t' # dtls_states_of es')"
    unfolding announces_def by blast
  then show ?thesis unfolding announces_def
    by (intro exI [of _ "es @ es'"]) (auto simp: last_append)
qed

lemma announces_refl [simp]: "announces t t"
  unfolding announces_def by (rule exI [of _ "[]"]) simp

lemma announces_same: "mt_out t' = mt_out t \<Longrightarrow> dt_state t' = dt_state t \<Longrightarrow> announces t t'"
  unfolding announces_def by (rule exI [of _ "[]"]) simp

lemma announces_from: "mt_out t1 = mt_out t \<Longrightarrow> dt_state t1 = dt_state t \<Longrightarrow> announces t1 t' \<Longrightarrow> announces t t'"
  by (simp add: announces_def)

lemma announces_to: "announces t x \<Longrightarrow> mt_out t' = mt_out x \<Longrightarrow> dt_state t' = dt_state x \<Longrightarrow> announces t t'"
  by (simp add: announces_def)

lemma announces_fields [simp]:
  "announces t (x\<lparr> dt_catched_client_hello := h \<rparr>) = announces t x" "announces t (x\<lparr> mt_srtp := st \<rparr>) = announces t x"
  "announces t (x\<lparr> mt_unprotect_fail_count := n \<rparr>) = announces t x" "announces t (x\<lparr> mt_last_send_seq_num := q \<rparr>) = announces t x"
  "announces t (x\<lparr> dt_active := b \<rparr>) = announces t x" "announces t (x\<lparr> dt_dtls := d \<rparr>) = announces t x"
  "announces t (x\<lparr> dt_remote_fingerprint_value := f \<rparr>) = announces t x" "announces t (x\<lparr> dt_remote_fingerprint_alg := g \<rparr>) = announces t x"
  "announces t (x\<lparr> mt_channel_writable := b \<rparr>) = announces t x" "announces t (x\<lparr> mt_channel_receiving := b \<rparr>) = announces t x"
  "announces t (x\<lparr> mt_attached := b \<rparr>) = announces t x" "announces t (x\<lparr> mt_global := gl \<rparr>) = announces t x"
  by (simp_all add: announces_def)

lemma announces_fields_from [simp]:
  "announces (t\<lparr> dt_catched_client_hello := h \<rparr>) x = announces t x" "announces (t\<lparr> mt_channel_writable := b \<rparr>) x = announces t x"
  "announces (t\<lparr> mt_channel_receiving := b \<rparr>) x = announces t x" "announces (t\<lparr> dt_dtls := d \<rparr>) x = announces t x"
  "announces (t\<lparr> mt_global := gl \<rparr>) x = announces t x"
  by (simp_all add: announces_def)

lemma announces_emit: "\<forall>st. e \<noteq> Tr_dtls_state st \<Longrightarrow> announces t (tr_emit e t)"
  unfolding announces_def by (rule exI [of _ "[e]"]) (auto simp: tr_emit_def split: transport_event.splits)

lemma announces_emit_to: "announces t x \<Longrightarrow> \<forall>st. e \<noteq> Tr_dtls_state st \<Longrightarrow> announces t (tr_emit e x)"
  by (rule announces_trans [OF _ announces_emit])

lemma announces_tick [simp]: "announces t (tr_tick t)"
  by (rule announces_same) (simp_all add: tr_tick_def)

lemma announces_state [simp]: "announces t (tr_emit (Tr_dtls_state st) (t\<lparr> dt_state := st \<rparr>))"
  unfolding announces_def by (rule exI [of _ "[Tr_dtls_state st]"]) (simp add: tr_emit_def)

lemma announces_writable [simp]: "announces t (set_writable_state w t)"
  using announces_from [OF _ _ announces_emit [of "Tr_writable_state w" "t\<lparr> dt_writable := w \<rparr>"], of t]
  by (simp add: set_writable_state_def)

lemma announces_receiving [simp]: "announces t (dtls_set_receiving r t)"
  using announces_from [OF _ _ announces_emit [of "Tr_receiving_state r" "t\<lparr> dt_receiving := r \<rparr>"], of t]
  by (simp add: dtls_set_receiving_def)

lemma res_bind_InrE:
  assumes "res_bind m f = Inr y"
  obtains x where "m = Inr x" "f x = Inr y"
  using assms by (cases m) auto

lemma announces_srtp: "setup_dtls_srtp D t = Inr t' \<Longrightarrow> announces t t'"
  by (auto simp: setup_dtls_srtp_def Let_def elim!: res_bind_InrE split: option.splits intro!: announces_same) (simp_all add: tr_tick_def)

lemma announces_srtp_state: "srtp_on_dtls_state D st t = Inr t' \<Longrightarrow> announces t t'"
  by (auto simp: srtp_on_dtls_state_def maybe_setup_dtls_srtp_def split: if_splits prod.splits intro: announces_srtp announces_same)

lemma announces_set_dtls_state: "set_dtls_state D st t = Inr t' \<Longrightarrow> announces t t'"
  by (auto simp: set_dtls_state_def Let_def split: if_splits intro: announces_trans [OF announces_state announces_srtp_state])

lemma announces_closed: "dtls_closed D t = Inr t' \<Longrightarrow> announces t t'"
  unfolding dtls_closed_def
  by (auto elim!: res_bind_InrE intro: announces_trans [OF announces_writable announces_trans [OF announces_set_dtls_state announces_emit]])

lemma announces_read_loop: "dtls_read_loop D rs t = Inr t' \<Longrightarrow> announces t t'"
  by (induction D rs t rule: dtls_read_loop.induct) (auto intro: announces_closed)

lemma announces_adapter_event:
  assumes "on_dtls_event D ev t = Inr t'"
  shows "announces t t'"
proof -
  obtain t1 t2 where t1: "(if se_open ev then set_dtls_state D dtls_transport_state.k_connected (set_writable_state True t) else Inr t) = Inr t1"
    and t2: "(if se_read ev then (if dt_dtls t1 = None then Inl Null_deref else dtls_read_loop D (se_reads ev) t1) else Inr t1) = Inr t2"
    and t3: "(if se_close ev then set_dtls_state D (if se_error ev = 0 then dtls_transport_state.k_closed else dtls_transport_state.k_failed)
        (set_writable_state False t2) else Inr t2) = Inr t'"
    using assms unfolding on_dtls_event_def by (elim res_bind_InrE) blast
  have "announces t t1" using t1 announces_trans [OF announces_writable announces_set_dtls_state] by (auto split: if_splits)
  also have "announces t1 t2" using t2 announces_read_loop by (auto split: if_splits)
  also have "announces t2 t'" using t3 announces_trans [OF announces_writable announces_set_dtls_state] by (auto split: if_splits)
  finally show ?thesis .
qed

lemma announces_fold:
  assumes "\<And>x t t'. f x t = Inr t' \<Longrightarrow> announces t t'"
  shows "res_fold f xs t = Inr t' \<Longrightarrow> announces t t'"
  by (induction xs arbitrary: t) (auto elim!: res_bind_InrE intro: announces_trans assms)

lemma announces_received_packet:
  assumes "on_received_packet D data t = Inr t'"
  shows "announces t t'"
proof -
  obtain evs t1 where "res_fold (on_dtls_event D) evs t1 = Inr t'" "mt_out t1 = mt_out t" "dt_state t1 = dt_state t"
    using assms by (auto simp: on_received_packet_def Let_def tr_tick_def split: option.splits prod.splits)
  then show ?thesis using announces_from [of t1 t] announces_fold [of "on_dtls_event D" evs t1 t'] announces_adapter_event by blast
qed

lemma announces_dtls_packet: "handle_dtls_packet D data t = Inr (ok, t') \<Longrightarrow> announces t t'"
  by (auto simp: handle_dtls_packet_def elim!: res_bind_InrE split: if_splits intro: announces_received_packet)

lemma announces_start:
  assumes "maybe_start_dtls D t = Inr t'"
  shows "announces t t'"
proof (cases "dt_dtls t \<noteq> None \<and> mt_channel_writable t")
  case True
  let ?t1 = "tr_emit Ssl_started (tr_tick t)"
  have 1: "announces t ?t1" by (rule announces_trans [OF announces_tick announces_emit]) simp
  show ?thesis
  proof (cases "ssl_start D (mt_tick t)")
    case False
    then show ?thesis using assms True announces_trans [OF 1 announces_set_dtls_state] by (auto simp: maybe_start_dtls_def Let_def)
  next
    case go: True
    then obtain t2 where t2: "set_dtls_state D dtls_transport_state.k_connecting ?t1 = Inr t2"
      and r: "(if dt_catched_client_hello t2 \<noteq> [] then
             res_bind (handle_dtls_packet D (dt_catched_client_hello t2) t2) (\<lambda>(ok, t3).
             res_bind (if ok then Inr t3 else set_dtls_state D dtls_transport_state.k_failed t3) (\<lambda>t4.
               Inr (t4\<lparr> dt_catched_client_hello := [] \<rparr>)))
           else Inr t2) = Inr t'"
      using assms True by (auto simp: maybe_start_dtls_def Let_def elim!: res_bind_InrE)
    have "announces t2 t'"
      using r by (auto elim!: res_bind_InrE split: if_splits prod.splits dest!: announces_dtls_packet announces_set_dtls_state
        intro: announces_trans announces_to)
    then show ?thesis using announces_trans [OF announces_trans [OF 1 announces_set_dtls_state [OF t2]]] by blast
  qed
next
  case False
  then show ?thesis using assms by (auto simp: maybe_start_dtls_def)
qed

lemma announces_setup:
  assumes "setup_dtls D t = Inr (ok, t')"
  shows "announces t t'"
proof -
  define t1 where "t1 = tr_emit Ssl_created ((tr_tick t)\<lparr> dt_dtls := Some \<lparr> sc_packets = [], sc_state = SS_OPEN \<rparr> \<rparr>)"
  define t2 where "t2 = (if dt_remote_fingerprint_value t1 \<noteq> [] then tr_emit Ssl_digest_set (tr_tick t1) else t1)"
  have a1: "announces t t1" unfolding t1_def
    by (rule announces_from [OF _ _ announces_emit]) (simp_all add: tr_tick_def)
  have "announces t1 t2" unfolding t2_def using announces_trans [OF announces_tick announces_emit [of Ssl_digest_set]] by auto
  with a1 have a2: "announces t t2" by (rule announces_trans)
  have "t' = (tr_tick t)\<lparr> dt_dtls := None \<rparr> \<or> t' = t2 \<or> t' = tr_tick t2 \<or> maybe_start_dtls D t2 = Inr t' \<or> maybe_start_dtls D (tr_tick t2) = Inr t'"
    using assms unfolding setup_dtls_def Let_def t1_def [symmetric] t2_def [symmetric]
    by (auto split: if_splits elim!: res_bind_InrE)
  then show ?thesis
    using a2 announces_trans [OF a2 announces_start] announces_trans [OF announces_trans [OF a2 announces_tick] announces_start]
      announces_trans [OF a2 announces_tick] announces_same [of "(tr_tick t)\<lparr> dt_dtls := None \<rparr>" t]
    by (auto simp: tr_tick_def)
qed

lemma announces_fingerprint:
  assumes "set_remote_fingerprint D alg digest t = Inr (ok, t')"
  shows "announces t t'"
proof -
  define t1 where "t1 = t\<lparr> dt_remote_fingerprint_value := digest, dt_remote_fingerprint_alg := alg \<rparr>"
  define t2 where "t2 = tr_emit Ssl_digest_set (tr_tick t1)"
  have a1: "announces t t1" by (simp add: t1_def)
  have a2: "announces t t2"
    unfolding t2_def by (rule announces_trans [OF announces_trans [OF a1 announces_tick] announces_emit]) simp
  have reset: "announces t x" if "set_dtls_state D dtls_transport_state.k_new (t1\<lparr> dt_dtls := None \<rparr>) = Inr y" "x = set_writable_state False y" for x y
    using announces_trans [OF a1 announces_from [OF _ _ announces_set_dtls_state [OF that(1)]]] announces_trans [OF _ announces_writable] that(2) by simp
  have finish: "announces t t'" if "announces t x" "res_bind (setup_dtls D x) (\<lambda>(ok, t4). if ok then Inr (True, t4)
      else res_bind (set_dtls_state D dtls_transport_state.k_failed t4) (\<lambda>t5. Inr (False, t5))) = Inr (ok, t')" for x
    using that(2) by (auto elim!: res_bind_InrE split: if_splits prod.splits dest!: announces_setup announces_set_dtls_state
      intro: announces_trans [OF that(1)] announces_trans [OF announces_trans [OF that(1)]])
  let ?easy = "dt_active t \<and> dt_remote_fingerprint_value t = digest \<or> alg = [] \<or> \<not> dt_active t"
  show ?thesis
  proof (cases "\<not> ?easy \<and> (dt_dtls t1 \<noteq> None \<longrightarrow> dt_remote_fingerprint_alg t \<noteq> [])")
    case True
    then obtain x where x: "(if dt_dtls t1 \<noteq> None then res_bind (set_dtls_state D dtls_transport_state.k_new (t1\<lparr> dt_dtls := None \<rparr>))
        (\<lambda>t2. Inr (set_writable_state False t2)) else Inr t1) = Inr x"
      and rest: "res_bind (setup_dtls D x) (\<lambda>(ok, t4). if ok then Inr (True, t4)
        else res_bind (set_dtls_state D dtls_transport_state.k_failed t4) (\<lambda>t5. Inr (False, t5))) = Inr (ok, t')"
      using assms unfolding set_remote_fingerprint_def Let_def t1_def [symmetric]
      by (cases "dt_dtls t1 = None") (auto elim!: res_bind_InrE)
    have "announces t x" using x a1 reset by (auto split: if_splits elim!: res_bind_InrE)
    then show ?thesis using rest by (rule finish)
  next
    case False
    then show ?thesis
      using assms a2 unfolding set_remote_fingerprint_def Let_def t1_def [symmetric] t2_def [symmetric]
      by (auto split: if_splits elim!: res_bind_InrE intro: announces_trans [OF a2 announces_set_dtls_state])
  qed
qed

lemma announces_on_writable: "dtls_on_writable_state D t = Inr t' \<Longrightarrow> announces t t'"
  by (auto simp: dtls_on_writable_state_def split: if_splits dtls_transport_state.splits intro: announces_start)

lemma announces_rtp: "on_rtp_packet_received D packet ts t = Inr t' \<Longrightarrow> announces t t'"
  by (auto simp: on_rtp_packet_received_def Let_def elim!: res_bind_InrE split: if_splits option.splits
    intro!: announces_emit_to)

lemma announces_rtcp: "on_rtcp_packet_received D packet ts t = Inr t' \<Longrightarrow> announces t t'"
  by (auto simp: on_rtcp_packet_received_def Let_def elim!: res_bind_InrE split: if_splits option.splits
    intro!: announces_emit_to)

lemma announces_srtp_packet: "srtp_on_read_packet D data ts t = Inr t' \<Longrightarrow> announces t t'"
  by (auto simp: srtp_on_read_packet_def elim!: res_bind_InrE split: rtp_packet_type.splits intro: announces_rtp announces_rtcp)

lemma announces_read_packet: "dtls_on_read_packet D buf ts t = Inr t' \<Longrightarrow> announces t t'"
  by (auto simp: dtls_on_read_packet_def Let_def elim!: res_bind_InrE split: dtls_transport_state.splits if_splits
    intro: announces_dtls_packet announces_srtp_packet announces_setup [THEN announces_from [rotated 2]])

lemma announces_send: "announces t (snd (dtls_send_packet D data t))"
  unfolding dtls_send_packet_def by (auto intro: announces_trans [OF announces_tick announces_emit])

lemma announces_send_rtp: "send_rtp D data t = Inr (r, t') \<Longrightarrow> announces t t'"
  by (auto simp: send_rtp_def Let_def dtls_send_packet_def elim!: res_bind_InrE split: if_splits option.splits
    intro!: announces_emit_to announces_trans [OF _ announces_tick])

lemma announces_send_rtcp: "send_rtcp D data t = Inr (r, t') \<Longrightarrow> announces t t'"
  by (auto simp: send_rtcp_def Let_def dtls_send_packet_def elim!: res_bind_InrE split: if_splits option.splits
    intro!: announces_emit_to announces_trans [OF _ announces_tick])

lemma announces_slot: "dtls_slot D ev t = Inr (u, t') \<Longrightarrow> announces t t'"
  unfolding dtls_slot_def
  by (auto simp: map_sum_def id_def dtls_on_receiving_state_def split: channel_event.splits sum.splits
    intro: announces_read_packet announces_on_writable [THEN announces_from [rotated 2]] announces_receiving [THEN announces_from [rotated 2]])

subsection \<open>The controller's invariant\<close>

definition pc_states :: "tc_event list \<Rightarrow> peer_connection_state list" where
  "pc_states es = List.map_filter (\<lambda>e. case e of Tc_connection_state st \<Rightarrow> Some st | _ \<Rightarrow> None) es"

lemma pc_states_simps [simp]: "pc_states [] = []" "pc_states (es @ [e]) = pc_states es @ (case e of Tc_connection_state st \<Rightarrow> [st] | _ \<Rightarrow> [])"
  by (simp_all add: pc_states_def List.map_filter_def split: tc_event.splits)

text \<open>Every channel has one transport; the agent's state is current; no channel is closed, which the
  channels of this program never are; the last announced state is the current one.\<close>

definition tc_shape :: "'c transport_controller \<Rightarrow> bool" where
  "tc_shape tc \<longleftrightarrow> set (map tt_channel (tc_transports tc)) = {..<length (ag_channels (tc_agent tc))} \<and>
     ag_ice_state (tc_agent tc) = aggregate_ice_state (map ac_seen (ag_channels (tc_agent tc))) \<and>
     ice_transport_state.k_closed \<notin> ac_seen ` set (ag_channels (tc_agent tc)) \<and>
     tc_pc_state tc = last (k_new # pc_states (tc_out tc)) \<and> successively (\<noteq>) (k_new # pc_states (tc_out tc))"

definition tc_current :: "'c transport_controller \<Rightarrow> bool" where
  "tc_current tc \<longleftrightarrow> tc_pc_state tc = aggregate_pc_state (tc_dtls_states tc) (tc_ice_states tc)"

definition tc_inv :: "'c transport_controller \<Rightarrow> bool" where
  "tc_inv tc \<longleftrightarrow> tc_shape tc \<and> tc_current tc \<and> (\<forall>t \<in> set (tc_transports tc). tt_seen t = dt_state (tt_media t))"

lemma tc_update_simps [simp]:
  "tc_transports (tc_update_state tc) = tc_transports tc" "tc_agent (tc_update_state tc) = tc_agent tc"
  "tc_transports (tc_emit e tc) = tc_transports tc" "tc_agent (tc_emit e tc) = tc_agent tc" "tc_pc_state (tc_emit e tc) = tc_pc_state tc"
  by (simp_all add: tc_update_state_def tc_emit_def Let_def)

lemma tc_update_ok: "tc_shape tc \<Longrightarrow> tc_shape (tc_update_state tc) \<and> tc_current (tc_update_state tc)"
  using successively_snoc [of "(\<noteq>)" "k_new # pc_states (tc_out tc)"]
  by (auto simp: tc_shape_def tc_current_def tc_update_state_def tc_emit_def Let_def tc_dtls_states_def tc_ice_states_def)

lemma tc_emit_ok: "\<forall>st. e \<noteq> Tc_connection_state st \<Longrightarrow> tc_shape tc \<Longrightarrow> tc_current tc \<Longrightarrow> tc_shape (tc_emit e tc) \<and> tc_current (tc_emit e tc)"
  by (auto simp: tc_shape_def tc_current_def tc_emit_def tc_dtls_states_def tc_ice_states_def split: tc_event.splits)

lemma map_update_same: "f y = f (xs ! k) \<Longrightarrow> map f (xs[k := y]) = map f xs"
  by (metis list_update_beyond map_list_update_same not_le)

lemma tc_see_shape: "tc_shape tc \<Longrightarrow> tc_shape (tc_see_dtls k st tc)"
proof -
  have "map tt_channel ((tc_transports tc)[k := (tc_transports tc ! k)\<lparr> tt_seen := st \<rparr>]) = map tt_channel (tc_transports tc)"
    by (rule map_update_same) simp
  then show "tc_shape tc \<Longrightarrow> tc_shape (tc_see_dtls k st tc)" unfolding tc_shape_def tc_see_dtls_def by (simp del: set_map)
qed

lemma transport_event_ok:
  assumes "tc_shape tc" "tc_current tc"
  shows "tc_shape (tc_on_transport_event k ev tc) \<and> tc_current (tc_on_transport_event k ev tc)"
  using assms tc_update_ok [OF assms(1)] tc_update_ok [OF tc_see_shape [OF assms(1)]] tc_emit_ok [OF _ assms]
  by (auto simp: tc_on_transport_event_def split: transport_event.splits)

lemma transport_event_transports:
  "tc_transports (tc_on_transport_event k ev tc) = (tc_transports tc)[k := (tc_transports tc ! k)\<lparr>
     tt_seen := last (tt_seen (tc_transports tc ! k) # dtls_states_of [ev]) \<rparr>]"
  by (auto simp: tc_on_transport_event_def tc_see_dtls_def split: transport_event.splits)

lemma transport_events_ok:
  assumes "tc_shape tc" "tc_current tc" "k < length (tc_transports tc)"
  shows "tc_shape (fold (tc_on_transport_event k) es tc) \<and> tc_current (fold (tc_on_transport_event k) es tc) \<and>
    tc_transports (fold (tc_on_transport_event k) es tc) = (tc_transports tc)[k := (tc_transports tc ! k)\<lparr>
      tt_seen := last (tt_seen (tc_transports tc ! k) # dtls_states_of es) \<rparr>]"
  using assms
proof (induction es arbitrary: tc)
  case (Cons e es)
  let ?tc = "tc_on_transport_event k e tc"
  have "tc_shape ?tc \<and> tc_current ?tc" using transport_event_ok [OF Cons.prems(1,2)] .
  moreover have "k < length (tc_transports ?tc)" using Cons.prems(3) by (simp add: transport_event_transports)
  ultimately show ?case
    using Cons.IH [of ?tc] Cons.prems(3) by (auto simp: transport_event_transports last_append)
qed simp

lemma settle_ok:
  assumes inv: "tc_inv tc" and k: "k < length (tc_transports tc)" and a: "announces (tt_media (tc_transports tc ! k)) t'"
  shows "tc_inv (tc_settle k t' tc)"
proof -
  define old where "old = tc_transports tc ! k"
  define tc1 where "tc1 = tc\<lparr> tc_transports := (tc_transports tc)[k := old\<lparr> tt_media := t' \<rparr>], tc_global := mt_global t' \<rparr>"
  obtain es where es: "mt_out t' = mt_out (tt_media old) @ es" "dt_state t' = last (dt_state (tt_media old) # dtls_states_of es)"
    using a unfolding announces_def old_def by blast
  have same: "map f (tc_transports tc1) = map f (tc_transports tc)" if "\<And>t m. f (t\<lparr> tt_media := m \<rparr>) = f t" for f :: "'a tc_transport \<Rightarrow> 'b"
    unfolding tc1_def using that map_update_same [of f "old\<lparr> tt_media := t' \<rparr>" "tc_transports tc" k] by (simp add: old_def)
  have "tc_shape tc1" using inv unfolding tc_inv_def tc_shape_def same [of tt_channel, simplified] by (simp add: tc1_def)
  moreover have "tc_current tc1"
    using inv unfolding tc_inv_def tc_current_def tc_dtls_states_def tc_ice_states_def same [of tt_seen, simplified]
    using same [of "\<lambda>t. ac_seen (ag_channels (tc_agent tc) ! tt_channel t)"] by (simp add: tc1_def)
  moreover have "k < length (tc_transports tc1)" using k by (simp add: tc1_def)
  moreover have "tc_settle k t' tc = fold (tc_on_transport_event k) es tc1"
    by (simp add: tc_settle_def Let_def es(1) tc1_def old_def)
  moreover have "tt_seen old = dt_state (tt_media old)" using inv k by (simp add: tc_inv_def old_def)
  ultimately show ?thesis
    using transport_events_ok [of tc1 k es] inv k es(2)
    unfolding tc_inv_def tc1_def by (auto dest!: set_update_subset_insert [THEN subsetD] simp: old_def)
qed

subsection \<open>Events of the channels\<close>

definition pc_state_from :: "dtls_transport_state set \<Rightarrow> ice_transport_state \<Rightarrow> peer_connection_state" where
  "pc_state_from Ds a =
     (if dtls_transport_state.k_failed \<in> Ds \<or> a = ice_transport_state.k_failed then k_failed
      else if a = ice_transport_state.k_disconnected then k_disconnected
      else if Ds \<subseteq> {dtls_transport_state.k_new, dtls_transport_state.k_closed} \<and> a = ice_transport_state.k_new then k_new
      else if dtls_transport_state.k_new \<in> Ds \<or> dtls_transport_state.k_connecting \<in> Ds \<or> a = ice_transport_state.k_new \<or> a = k_checking
        then k_connecting else k_connected)"

text \<open>The agent's aggregate says as much about the channels as the controller needs.\<close>

lemma pc_state_by_agent:
  assumes "Is \<noteq> {}" "ice_transport_state.k_closed \<notin> Is"
  shows "pc_state_spec Ds Is = pc_state_from Ds (ice_state_spec Is)"
proof -
  have new: "Is \<subseteq> {ice_transport_state.k_new, ice_transport_state.k_closed} \<Longrightarrow> ice_transport_state.k_new \<in> Is" using assms by blast
  show ?thesis unfolding pc_state_spec_def pc_state_from_def ice_state_spec_def using new by auto
qed

lemma ice_states_set:
  assumes "tc_shape tc"
  shows "set (tc_ice_states tc) = ac_seen ` set (ag_channels (tc_agent tc))"
proof -
  have "set (tc_ice_states tc) = (\<lambda>i. ac_seen (ag_channels (tc_agent tc) ! i)) ` set (map tt_channel (tc_transports tc))"
    by (auto simp: tc_ice_states_def)
  also have "\<dots> = ac_seen ` set (ag_channels (tc_agent tc))" using assms by (auto simp: tc_shape_def set_conv_nth image_iff)
  finally show ?thesis .
qed

lemma current_by_agent:
  assumes "tc_shape tc" "tc_transports tc \<noteq> []"
  shows "tc_current tc \<longleftrightarrow> tc_pc_state tc = pc_state_from (set (tc_dtls_states tc)) (ag_ice_state (tc_agent tc))"
proof -
  have ne: "set (tc_ice_states tc) \<noteq> {}" using assms(2) by (simp add: tc_ice_states_def)
  have "ag_ice_state (tc_agent tc) = ice_state_spec (set (tc_ice_states tc))"
    using assms(1) ice_states_set [OF assms(1)] by (simp add: tc_shape_def aggregate_membership)
  moreover have "ice_transport_state.k_closed \<notin> set (tc_ice_states tc)"
    using assms(1) ice_states_set [OF assms(1)] by (simp add: tc_shape_def)
  ultimately show ?thesis
    using pc_state_by_agent [OF ne] by (simp add: tc_current_def aggregate_pc_membership tc_dtls_states_def tc_ice_states_def)
qed

lemma agent_events_ok:
  assumes "tc_shape tc" "tc_current tc"
  shows "tc_shape (fold tc_on_agent_event evs tc) \<and> tc_current (fold tc_on_agent_event evs tc) \<and>
    tc_transports (fold tc_on_agent_event evs tc) = tc_transports tc \<and> tc_agent (fold tc_on_agent_event evs tc) = tc_agent tc"
  using assms
proof (induction evs arbitrary: tc)
  case (Cons e evs)
  have "tc_shape (tc_on_agent_event e tc) \<and> tc_current (tc_on_agent_event e tc)"
    using Cons.prems tc_update_ok [of tc] tc_emit_ok [of _ tc] by (auto simp: tc_on_agent_event_def split: agent_event.splits)
  moreover have "tc_transports (tc_on_agent_event e tc) = tc_transports tc" "tc_agent (tc_on_agent_event e tc) = tc_agent tc"
    by (auto simp: tc_on_agent_event_def split: agent_event.splits)
  ultimately show ?case using Cons.IH [of "tc_on_agent_event e tc"] by simp
qed simp

lemma agent_update_current:
  "ag_ice_state (agent_update_state ag) = aggregate_ice_state (map ac_seen (ag_channels ag))"
  "ag_channels (agent_update_state ag) = ag_channels ag"
  "ag_ice_state ag = aggregate_ice_state (map ac_seen (ag_channels ag)) \<Longrightarrow> agent_update_state ag = ag"
  by (auto simp: agent_update_state_def Let_def)

lemma agent_update_out:
  "\<exists>sts. ag_out (agent_update_state ag) = ag_out ag @ map Ag_ice_state sts \<and>
     (sts = [] \<longleftrightarrow> ag_ice_state (agent_update_state ag) = ag_ice_state ag)"
proof (cases "ag_ice_state ag = aggregate_ice_state (map ac_seen (ag_channels ag))")
  case True
  then show ?thesis by (intro exI [of _ "[]"]) (simp add: agent_update_current)
next
  case False
  let ?st = "aggregate_ice_state (map ac_seen (ag_channels ag))"
  show ?thesis
    by (rule exI [of _ "(if ag_ice_state ag = k_checking \<and> ?st = k_completed then [ice_transport_state.k_connected] else []) @ [?st]"])
      (use False in \<open>auto simp: agent_update_state_def Let_def\<close>)
qed

lemma ice_state_slot_ok:
  assumes inv: "tc_inv tc" and i: "i < length (ag_channels (tc_agent tc))" and st: "st \<noteq> ice_transport_state.k_closed"
  shows "tc_inv (tc_agent_slot i (Ev_ice_state_change st) tc)"
proof -
  define ag where "ag = agent_update_state (see_state i st (tc_agent tc))"
  define tc1 where "tc1 = tc\<lparr> tc_agent := ag \<rparr>"
  obtain sts where sts: "ag_out ag = ag_out (tc_agent tc) @ map Ag_ice_state sts" "sts = [] \<longleftrightarrow> ag_ice_state ag = ag_ice_state (tc_agent tc)"
    using agent_update_out [of "see_state i st (tc_agent tc)"] unfolding ag_def see_state_def by auto
  have slot: "tc_agent_slot i (Ev_ice_state_change st) tc = fold tc_on_agent_event (map Ag_ice_state sts) tc1"
    using sts(1) by (simp add: tc_agent_slot_def agent_on_event_def ag_def [symmetric] tc1_def)
  have chs: "ag_channels ag = (ag_channels (tc_agent tc))[i := (ag_channels (tc_agent tc) ! i)\<lparr> ac_seen := st \<rparr>]"
    by (simp add: ag_def agent_update_current see_state_def)
  have shape: "tc_shape tc1"
    using inv st unfolding tc_inv_def tc_shape_def tc1_def
    by (auto simp: chs ag_def agent_update_current see_state_def dest!: set_update_subset_insert [THEN subsetD])
  have ne: "tc_transports tc1 \<noteq> []" using inv i by (auto simp: tc_inv_def tc_shape_def tc1_def)
  have "tc_shape (fold tc_on_agent_event (map Ag_ice_state sts) tc1) \<and> tc_current (fold tc_on_agent_event (map Ag_ice_state sts) tc1) \<and>
      tc_transports (fold tc_on_agent_event (map Ag_ice_state sts) tc1) = tc_transports tc"
  proof (cases sts)
    case Nil
    have "tc_current tc" "tc_shape tc" "tc_transports tc \<noteq> []" using inv ne by (simp_all add: tc_inv_def tc1_def)
    then have "tc_current tc1"
      using Nil sts(2) current_by_agent [OF shape ne] current_by_agent [of tc] by (simp add: tc1_def tc_dtls_states_def)
    then show ?thesis using Nil shape by (simp add: tc1_def)
  next
    case (Cons a as)
    have u: "tc_shape (tc_update_state tc1)" "tc_current (tc_update_state tc1)" using tc_update_ok [OF shape] by simp_all
    show ?thesis using agent_events_ok [OF u, of "map Ag_ice_state as"] Cons by (simp add: tc_on_agent_event_def tc1_def)
  qed
  then show ?thesis using inv unfolding slot by (simp add: tc_inv_def)
qed

lemma agent_slot_ok:
  assumes inv: "tc_inv tc" and i: "i < length (ag_channels (tc_agent tc))" and ev: "ev \<noteq> Ev_ice_state_change ice_transport_state.k_closed"
  shows "tc_inv (tc_agent_slot i ev tc)"
proof -
  have cur: "agent_update_state (tc_agent tc) = tc_agent tc" using inv by (simp add: tc_inv_def tc_shape_def agent_update_current)
  have same: "tc_agent_slot i ev tc = tc" if "agent_on_event i ev (tc_agent tc) = tc_agent tc"
    using that by (simp add: tc_agent_slot_def)
  show ?thesis
  proof (cases ev)
    case (Ev_candidate_allocate_done cs)
    define ag where "ag = agent_on_event i ev (tc_agent tc)"
    have ag: "ag_channels ag = ag_channels (tc_agent tc)" "ag_ice_state ag = ag_ice_state (tc_agent tc)"
      unfolding ag_def agent_on_event_def Ev_candidate_allocate_done by simp_all
    have "tc_shape (tc\<lparr> tc_agent := ag \<rparr>)" using inv ag by (simp add: tc_inv_def tc_shape_def)
    moreover have "tc_current (tc\<lparr> tc_agent := ag \<rparr>)"
      using inv ag by (simp add: tc_inv_def tc_current_def tc_dtls_states_def tc_ice_states_def)
    ultimately show ?thesis
      using agent_events_ok [of "tc\<lparr> tc_agent := ag \<rparr>"] inv by (auto simp: tc_agent_slot_def Let_def ag_def [symmetric] tc_inv_def)
  next
    case (Ev_ice_state_change st)
    then show ?thesis using ice_state_slot_ok [OF inv i] ev by auto
  qed (use same inv cur in \<open>auto simp: agent_on_event_def\<close>)
qed

lemma slot_channels: "length (ag_channels (tc_agent (tc_agent_slot i ev tc))) = length (ag_channels (tc_agent tc))"
proof -
  have "tc_agent (fold tc_on_agent_event evs tc) = tc_agent tc" for evs and tc :: "'a transport_controller"
    by (induction evs arbitrary: tc) (auto simp: tc_on_agent_event_def split: agent_event.splits)
  then show ?thesis by (simp add: tc_agent_slot_def Let_def)
qed

lemma transport_at_less: "transport_at i ts = Some k \<Longrightarrow> k < length ts"
  by (induction ts arbitrary: k) (auto split: if_splits)

lemma transport_named_less: "transport_named name ts = Some k \<Longrightarrow> k < length ts"
  by (induction ts arbitrary: k) (auto split: if_splits)

lemma settle_channels: "length (ag_channels (tc_agent (tc_settle k t' tc))) = length (ag_channels (tc_agent tc))"
proof -
  have "tc_agent (tc_on_transport_event k e tc) = tc_agent tc" for e and tc :: "'a transport_controller"
    by (auto simp: tc_on_transport_event_def tc_see_dtls_def split: transport_event.splits)
  then have "tc_agent (fold (tc_on_transport_event k) es tc) = tc_agent tc" for es and tc :: "'a transport_controller"
    by (induction es arbitrary: tc) simp_all
  then show ?thesis by (simp add: tc_settle_def Let_def)
qed

lemma call_ok:
  assumes "tc_inv tc" "k < length (tc_transports tc)" "tc_call k f tc = Inr (r, tc')" "\<And>t r t'. f t = Inr (r, t') \<Longrightarrow> announces t t'"
  shows "tc_inv tc' \<and> length (ag_channels (tc_agent tc')) = length (ag_channels (tc_agent tc))"
proof -
  obtain t' where "f ((tt_media (tc_transports tc ! k))\<lparr> mt_global := tc_global tc \<rparr>) = Inr (r, t')" "tc' = tc_settle k t' tc"
    using assms(3) by (auto simp: tc_call_def elim!: res_bind_InrE)
  then show ?thesis using settle_ok [OF assms(1,2)] assms(4) settle_channels by fastforce
qed

lemma channel_event_ok:
  assumes "tc_inv tc" "i < length (ag_channels (tc_agent tc))" "ev \<noteq> Ev_ice_state_change ice_transport_state.k_closed"
    "tc_on_channel_event D i ev tc = Inr tc'"
  shows "tc_inv tc' \<and> length (ag_channels (tc_agent tc')) = length (ag_channels (tc_agent tc))"
proof -
  let ?tc1 = "tc_agent_slot i ev tc"
  have inv: "tc_inv ?tc1" using agent_slot_ok [OF assms(1-3)] .
  show ?thesis
  proof (cases "transport_at i (tc_transports ?tc1)")
    case None
    then show ?thesis using assms(4) inv slot_channels [of i ev tc] by (simp add: tc_on_channel_event_def)
  next
    case (Some k)
    then obtain u where "tc_call k (dtls_slot D ev) ?tc1 = Inr (u, tc')"
      using assms(4) by (auto simp: tc_on_channel_event_def map_sum_def split: sum.splits)
    then have "tc_inv tc' \<and> length (ag_channels (tc_agent tc')) = length (ag_channels (tc_agent ?tc1))"
      by (rule call_ok [OF inv transport_at_less [OF Some]]) (rule announces_slot)
    then show ?thesis using slot_channels [of i ev tc] by simp
  qed
qed

lemma channel_events_ok:
  "tc_inv tc \<Longrightarrow> i < length (ag_channels (tc_agent tc)) \<Longrightarrow> Ev_ice_state_change ice_transport_state.k_closed \<notin> set evs \<Longrightarrow>
    res_fold (tc_on_channel_event D i) evs tc = Inr tc' \<Longrightarrow> tc_inv tc'"
proof (induction evs arbitrary: tc)
  case (Cons e evs)
  then obtain tc1 where "tc_on_channel_event D i e tc = Inr tc1" "res_fold (tc_on_channel_event D i) evs tc1 = Inr tc'"
    by (auto elim!: res_bind_InrE)
  with Cons show ?case using channel_event_ok [of tc i e D tc1] by auto
qed simp

lemma channel_moves_ok:
  assumes "tc_inv tc" "i < length (ag_channels (tc_agent tc))" "ch_out s' = ch_out (ac_channel (ag_channels (tc_agent tc) ! i)) @ evs"
    "Ev_ice_state_change ice_transport_state.k_closed \<notin> set evs" "tc_channel_moves D i s' tc = Inr tc'"
  shows "tc_inv tc'"
proof -
  define ag where "ag = (tc_agent tc)\<lparr> ag_channels := (ag_channels (tc_agent tc))[i := (ag_channels (tc_agent tc) ! i)\<lparr> ac_channel := s' \<rparr>] \<rparr>"
  have seen: "map ac_seen (ag_channels ag) = map ac_seen (ag_channels (tc_agent tc))"
    unfolding ag_def by simp (rule map_update_same, simp)
  have nth: "ac_seen (ag_channels ag ! j) = ac_seen (ag_channels (tc_agent tc) ! j)" for j
    using assms(2) by (cases "j = i") (simp_all add: ag_def)
  have "tc_shape (tc\<lparr> tc_agent := ag \<rparr>)"
    using assms(1) seen image_set [of ac_seen "ag_channels ag"] image_set [of ac_seen "ag_channels (tc_agent tc)"]
    unfolding tc_inv_def tc_shape_def by (simp add: ag_def del: image_set set_map)
  moreover have "tc_current (tc\<lparr> tc_agent := ag \<rparr>)"
    using assms(1) by (simp add: tc_inv_def tc_current_def tc_dtls_states_def tc_ice_states_def nth)
  ultimately have "tc_inv (tc\<lparr> tc_agent := ag \<rparr>)" using assms(1) by (simp add: tc_inv_def)
  then show ?thesis
    using channel_events_ok [of "tc\<lparr> tc_agent := ag \<rparr>" i evs D tc'] assms(2-5)
    by (simp add: tc_channel_moves_def Let_def ag_def [symmetric]) (simp add: ag_def)
qed

subsection \<open>Setting up\<close>

text \<open>After the contents of the local description have been added nothing has happened yet.\<close>

definition tc_fresh :: "'c transport_controller \<Rightarrow> bool" where
  "tc_fresh tc \<longleftrightarrow> map tt_channel (tc_transports tc) = [0..<length (ag_channels (tc_agent tc))] \<and>
     map tt_name (tc_transports tc) = map ac_name (ag_channels (tc_agent tc)) \<and>
     (\<forall>ac \<in> set (ag_channels (tc_agent tc)). ac_seen ac = ice_transport_state.k_new \<and> ch_component (ac_channel ac) = RTP) \<and>
     (\<forall>t \<in> set (tc_transports tc). tt_seen t = dtls_transport_state.k_new \<and> dt_state (tt_media t) = dtls_transport_state.k_new) \<and>
     ag_ice_state (tc_agent tc) = ice_transport_state.k_new \<and> tc_pc_state tc = k_new \<and> tc_out tc = []"

lemma fresh_inv:
  assumes "tc_fresh tc"
  shows "tc_inv tc"
proof -
  have "set (map tt_channel (tc_transports tc)) = {..<length (ag_channels (tc_agent tc))}"
    using assms unfolding tc_fresh_def by (auto simp del: set_map)
  moreover have "aggregate_ice_state (map ac_seen (ag_channels (tc_agent tc))) = ice_transport_state.k_new"
    using assms unfolding tc_fresh_def aggregate_membership ice_state_spec_def by auto
  ultimately have shape: "tc_shape tc" using assms by (auto simp: tc_fresh_def tc_shape_def)
  have "set (tc_ice_states tc) \<subseteq> {ice_transport_state.k_new}" unfolding ice_states_set [OF shape] using assms by (auto simp: tc_fresh_def)
  moreover have "set (tc_dtls_states tc) \<subseteq> {dtls_transport_state.k_new}" using assms by (auto simp: tc_fresh_def tc_dtls_states_def)
  moreover have agg: "aggregate_pc_state (tc_dtls_states tc) (tc_ice_states tc) = pc_state_spec (set (tc_dtls_states tc)) (set (tc_ice_states tc))"
    by (rule aggregate_pc_membership) (simp add: tc_dtls_states_def tc_ice_states_def)
  ultimately have "tc_current tc"
    using assms unfolding tc_current_def agg pc_state_spec_def by (auto simp: tc_fresh_def)
  then show ?thesis using shape assms by (simp add: tc_inv_def tc_fresh_def)
qed

lemma channel_index_named:
  assumes "\<forall>ac \<in> set acs. ch_component (ac_channel ac) = RTP" "map tt_name ts = map ac_name acs"
  shows "channel_index name RTP acs = transport_named name ts"
  using assms
proof (induction acs arbitrary: ts)
  case (Cons ac acs)
  then obtain t ts' where "ts = t # ts'" "tt_name t = ac_name ac" "map tt_name ts' = map ac_name acs" by (cases ts) auto
  then show ?case using Cons by (auto simp: is_channel_def)
qed simp

lemma transport_named_name: "transport_named name ts = Some k \<Longrightarrow> tt_name (ts ! k) = name"
  by (induction ts arbitrary: k) (auto split: if_splits)

lemma channel_index_find: "channel_index name c acs = None \<longleftrightarrow> find (is_channel name c) acs = None"
  by (induction acs) auto

lemma channel_index_snoc:
  "channel_index name c acs = None \<Longrightarrow> is_channel name c ac \<Longrightarrow> channel_index name c (acs @ [ac]) = Some (length acs)"
  by (induction acs) (auto split: if_splits)

lemma channel_index_update:
  "is_channel name c ac = is_channel name c (acs ! i) \<Longrightarrow> channel_index name c (acs[i := ac]) = channel_index name c acs"
  by (induction acs arbitrary: i) (auto split: nat.split)

lemma set_params_frame:
  fixes ag :: ice_agent and n :: bytes and c :: ice_component and ps :: ice_parameters
  defines "ag' \<equiv> agent_set_ice_params n c ps ag"
  shows "map ac_name (ag_channels ag') = map ac_name (ag_channels ag)" "map ac_seen (ag_channels ag') = map ac_seen (ag_channels ag)"
    "map (\<lambda>ac. ch_component (ac_channel ac)) (ag_channels ag') = map (\<lambda>ac. ch_component (ac_channel ac)) (ag_channels ag)"
    "ag_ice_state ag' = ag_ice_state ag" "channel_index n' c' (ag_channels ag') = channel_index n' c' (ag_channels ag)"
proof -
  have "ag' = ag \<or> (\<exists>i. ag' = ag\<lparr> ag_channels := (ag_channels ag)[i := (ag_channels ag ! i)\<lparr>
      ac_channel := (ac_channel (ag_channels ag ! i))\<lparr> ch_ice_params := ps \<rparr> \<rparr>] \<rparr>)"
    by (auto simp: ag'_def agent_set_ice_params_def agent_replay_def set_ice_params_def Let_def split: option.split)
  then show "map ac_name (ag_channels ag') = map ac_name (ag_channels ag)" "map ac_seen (ag_channels ag') = map ac_seen (ag_channels ag)"
    "map (\<lambda>ac. ch_component (ac_channel ac)) (ag_channels ag') = map (\<lambda>ac. ch_component (ac_channel ac)) (ag_channels ag)"
    "ag_ice_state ag' = ag_ice_state ag" "channel_index n' c' (ag_channels ag') = channel_index n' c' (ag_channels ag)"
    by (auto simp: map_update_same channel_index_update is_channel_def)
qed

lemma all_by_map: "map f xs = map f ys \<Longrightarrow> (\<forall>x \<in> set xs. P (f x)) = (\<forall>y \<in> set ys. P (f y))"
  by (metis (no_types, lifting) image_iff list.set_map)

lemma new_transport_state:
  assumes "set_dtls_transport D (snd (set_local_certificate cert (DtlsTransport_new D True w r g))) = Inr t"
  shows "dt_state t = dtls_transport_state.k_new"
  using assms by (auto simp: set_dtls_transport_def maybe_setup_dtls_srtp_def is_dtls_writable_def set_local_certificate_def
    DtlsTransport_new_def split: if_splits)

lemma local_content_fresh:
  assumes fresh: "tc_fresh tc" and set: "set_local_content D desc c tc = Inr tc'"
  shows "tc_fresh tc'"
proof (cases "tc' = tc")
  case False
  define ag1 where "ag1 = create_channel (mc_mid c) RTP (tc_agent tc)"
  define ag2 where "ag2 = (case get_transport_info (mc_mid c) desc of None \<Rightarrow> ag1
    | Some td \<Rightarrow> agent_set_ice_params (mc_mid c) RTP \<lparr> ice_ufrag = td_ice_ufrag td, ice_pwd = td_ice_pwd td \<rparr> ag1)"
  from set False obtain i t where i: "channel_index (mc_mid c) RTP (ag_channels ag2) = Some i"
    and new: "set_dtls_transport D (snd (set_local_certificate (tc_local_certificate tc) (DtlsTransport_new D True
        (ch_writable (ac_channel (ag_channels ag2 ! i))) (ch_receiving (ac_channel (ag_channels ag2 ! i))) (tc_global tc)))) = Inr t"
    and tc': "tc' = add_transport \<lparr> tt_name = mc_mid c, tt_channel = i, tt_media = t, tt_seen = dt_state t \<rparr> (tc\<lparr> tc_agent := ag2 \<rparr>)"
    unfolding set_local_content_def Let_def ag1_def [symmetric] ag2_def [symmetric]
    by (auto elim!: res_bind_InrE split: if_splits option.splits)
  have t: "dt_state t = dtls_transport_state.k_new" using new by (rule new_transport_state)
  have 2: "map ac_name (ag_channels ag2) = map ac_name (ag_channels ag1)" "map ac_seen (ag_channels ag2) = map ac_seen (ag_channels ag1)"
    "map (\<lambda>ac. ch_component (ac_channel ac)) (ag_channels ag2) = map (\<lambda>ac. ch_component (ac_channel ac)) (ag_channels ag1)"
    "ag_ice_state ag2 = ag_ice_state ag1" "channel_index (mc_mid c) RTP (ag_channels ag2) = channel_index (mc_mid c) RTP (ag_channels ag1)"
    unfolding ag2_def by (auto simp: set_params_frame split: option.split)
  have len: "length (ag_channels ag2) = length (ag_channels ag1)" using 2(1) by (metis length_map)
  note f = fresh [unfolded tc_fresh_def]
  have named: "channel_index (mc_mid c) RTP (ag_channels (tc_agent tc)) = transport_named (mc_mid c) (tc_transports tc)"
    using f by (intro channel_index_named) auto
  show ?thesis
  proof (cases "channel_index (mc_mid c) RTP (ag_channels (tc_agent tc))")
    case None
    then have ag1: "ag1 = (tc_agent tc)\<lparr> ag_channels := ag_channels (tc_agent tc) @ [\<lparr> ac_name = mc_mid c,
        ac_channel = IceTransportChannel_new RTP, ac_seen = ice_transport_state.k_new \<rparr>] \<rparr>"
      unfolding ag1_def create_channel_def get_channel_def channel_index_find by simp
    have "i = length (ag_channels (tc_agent tc))"
      using i 2(5) channel_index_snoc [OF None, of "\<lparr> ac_name = mc_mid c, ac_channel = IceTransportChannel_new RTP, ac_seen = ice_transport_state.k_new \<rparr>"]
      by (simp add: ag1 is_channel_def IceTransportChannel_new_def)
    then show ?thesis
      using f t None named 2(1,4) all_by_map [OF 2(2), of "\<lambda>x. x = ice_transport_state.k_new"] all_by_map [OF 2(3), of "\<lambda>x. x = RTP"] len
      unfolding tc' add_transport_def tc_fresh_def ag1 by (auto simp: IceTransportChannel_new_def)
  next
    case (Some k)
    then have ag1: "ag1 = tc_agent tc" unfolding ag1_def create_channel_def get_channel_def using channel_index_find [of "mc_mid c" RTP "ag_channels (tc_agent tc)"] by simp
    have k: "k < length (tc_transports tc)" "tt_name (tc_transports tc ! k) = mc_mid c" "i = k"
      using Some named i 2(5) transport_named_less [of "mc_mid c" "tc_transports tc" k] unfolding ag1
      by (auto simp: transport_named_name)
    have "tt_channel (tc_transports tc ! k) = k"
      using f k(1) by (metis length_map nth_map nth_upt add_0 map_nth length_upt diff_zero)
    then have "map tt_channel ((tc_transports tc)[k := \<lparr> tt_name = mc_mid c, tt_channel = k, tt_media = t, tt_seen = dt_state t \<rparr>]) = map tt_channel (tc_transports tc)"
      "map tt_name ((tc_transports tc)[k := \<lparr> tt_name = mc_mid c, tt_channel = k, tt_media = t, tt_seen = dt_state t \<rparr>]) = map tt_name (tc_transports tc)"
      using k by (auto intro!: map_update_same)
    then show ?thesis
      using f t Some named 2(1,4) all_by_map [OF 2(2), of "\<lambda>x. x = ice_transport_state.k_new"] all_by_map [OF 2(3), of "\<lambda>x. x = RTP"] len k(3)
      unfolding tc' add_transport_def tc_fresh_def ag1 by (auto dest!: set_update_subset_insert [THEN subsetD])
  qed
qed (use fresh in simp)

lemma local_contents_fresh: "tc_fresh tc \<Longrightarrow> res_fold (set_local_content D desc) cs tc = Inr tc' \<Longrightarrow> tc_fresh tc'"
  by (induction cs arbitrary: tc) (auto elim!: res_bind_InrE dest: local_content_fresh)

subsection \<open>Runs of the controller\<close>

text \<open>The local description is set once; then channels move, adapters fire events, the remote
  fingerprint arrives and packets are sent.  \<^verbatim>\<open>gathering_candidate\<close> and \<^verbatim>\<open>set_remote_description\<close> are
  sequences of such steps.\<close>

inductive tc_reaches :: "'c dtls_env \<Rightarrow> 'c transport_controller \<Rightarrow> bool" for D where
  tc_start: "res_fold (set_local_content D desc) (sd_contents desc) (tc_set_local_certificate cert (TransportController_new g)) = Inr tc \<Longrightarrow>
    tc_reaches D tc"
| tc_channel: "tc_reaches D tc \<Longrightarrow> i < length (ag_channels (tc_agent tc)) \<Longrightarrow>
    ch_out s' = ch_out (ac_channel (ag_channels (tc_agent tc) ! i)) @ evs \<Longrightarrow> Ev_ice_state_change ice_transport_state.k_closed \<notin> set evs \<Longrightarrow>
    tc_channel_moves D i s' tc = Inr tc' \<Longrightarrow> tc_reaches D tc'"
| tc_adapter: "tc_reaches D tc \<Longrightarrow> k < length (tc_transports tc) \<Longrightarrow>
    tc_call k (\<lambda>t. map_sum id (Pair ()) (on_dtls_event D ev t)) tc = Inr (u, tc') \<Longrightarrow> tc_reaches D tc'"
| tc_fingerprint: "tc_reaches D tc \<Longrightarrow> k < length (tc_transports tc) \<Longrightarrow>
    tc_call k (set_remote_fingerprint D alg digest) tc = Inr (b, tc') \<Longrightarrow> tc_reaches D tc'"
| tc_rtp: "tc_reaches D tc \<Longrightarrow> tc_send_rtp D name data tc = Inr (r, tc') \<Longrightarrow> tc_reaches D tc'"
| tc_rtcp: "tc_reaches D tc \<Longrightarrow> tc_send_rtcp D name data tc = Inr (r, tc') \<Longrightarrow> tc_reaches D tc'"

lemma tc_reaches_inv: "tc_reaches D tc \<Longrightarrow> tc_inv tc"
proof (induction rule: tc_reaches.induct)
  case (tc_start desc cert g tc)
  have "tc_fresh (tc_set_local_certificate cert (TransportController_new g))"
    by (simp add: tc_fresh_def tc_set_local_certificate_def TransportController_new_def IceAgent_new_def)
  then show ?case using local_contents_fresh tc_start fresh_inv by blast
next
  case (tc_channel tc i s' evs tc')
  then show ?case using channel_moves_ok by blast
next
  case (tc_adapter tc k ev u tc')
  have "announces t t'" if "map_sum id (Pair ()) (on_dtls_event D ev t) = Inr (r, t')" for t r t'
    using that announces_adapter_event by (auto simp: map_sum_def split: sum.splits)
  then show ?case using call_ok [OF tc_adapter.IH tc_adapter.hyps(2,3)] by blast
next
  case (tc_fingerprint tc k alg digest b tc')
  then show ?case using call_ok [OF tc_fingerprint.IH tc_fingerprint.hyps(2,3)] announces_fingerprint by blast
next
  case (tc_rtp tc name data r tc')
  then show ?case using call_ok [OF tc_rtp.IH transport_named_less, of name _ "send_rtp D data" r tc'] announces_send_rtp
    by (fastforce simp: tc_send_rtp_def split: option.splits)
next
  case (tc_rtcp tc name data r tc')
  then show ?case using call_ok [OF tc_rtcp.IH transport_named_less, of name _ "send_rtcp D data" r tc'] announces_send_rtcp
    by (fastforce simp: tc_send_rtcp_def split: option.splits)
qed

text \<open>
  C24: In every run the state of the peer connection is the aggregation of the DTLS states of the
  transports and the states their channels last announced, although the controller is told about
  channels only when the agent's own aggregate changes; the last announcement is the current state
  and no state is announced twice in a row.
\<close>

theorem pc_state_tracks_transports:
  assumes "tc_reaches D tc"
  shows "tc_pc_state tc = pc_state_spec ((\<lambda>t. dt_state (tt_media t)) ` set (tc_transports tc)) (ac_seen ` set (ag_channels (tc_agent tc))) \<and>
    tc_pc_state tc = last (k_new # pc_states (tc_out tc)) \<and> successively (\<noteq>) (k_new # pc_states (tc_out tc))"
proof -
  have inv: "tc_shape tc" "tc_current tc" "\<forall>t \<in> set (tc_transports tc). tt_seen t = dt_state (tt_media t)"
    using tc_reaches_inv [OF assms] by (simp_all add: tc_inv_def)
  have "set (tc_dtls_states tc) = (\<lambda>t. dt_state (tt_media t)) ` set (tc_transports tc)"
    unfolding tc_dtls_states_def using inv(3) by (auto simp: image_iff)
  then show ?thesis
    using inv(1,2) ice_states_set [OF inv(1)] aggregate_pc_membership [of "tc_dtls_states tc" "tc_ice_states tc"]
    by (simp add: tc_current_def tc_shape_def tc_dtls_states_def tc_ice_states_def)
qed

definition ex_tc :: "bytes transport_controller res" where
  "ex_tc = set_local_content dtls_ref (add_content AudioContentDescription (SessionDescription k_offer)) AudioContentDescription
     (tc_set_local_certificate (Some 7) (TransportController_new \<lparr> g_libsrtp_usage_count = 0, sg_up = False, sg_tick = 0 \<rparr>))"

definition ex_checking :: ice_channel where
  "ex_checking = (IceTransportChannel_new RTP)\<lparr> ch_state := k_checking, ch_out := [Ev_ice_state_change k_checking] \<rparr>"

theorem pc_state_tracks_transports_witness:
  "\<exists>tc tc'. ex_tc = Inr tc \<and> tc_channel_moves dtls_ref 0 ex_checking tc = Inr tc' \<and> tc_pc_state tc' = k_connecting \<and>
     pc_state_spec ((\<lambda>t. dt_state (tt_media t)) ` set (tc_transports tc')) (ac_seen ` set (ag_channels (tc_agent tc'))) = k_connecting \<and>
     pc_states (tc_out tc') = [k_connecting]"
proof -
  have e: "map_sum id (\<lambda>tc. map (\<lambda>ac. ch_out (ac_channel ac)) (ag_channels (tc_agent tc))) ex_tc = Inr [[]]" by code_simp
  have m: "map_sum id (\<lambda>tc. (tc_pc_state tc, pc_states (tc_out tc))) (res_bind ex_tc (tc_channel_moves dtls_ref 0 ex_checking)) = Inr (k_connecting, [k_connecting])"
    by code_simp
  obtain tc where tc: "ex_tc = Inr tc"
  proof (cases ex_tc)
    case (Inl a)
    show ?thesis using e unfolding Inl by simp
  qed (rule that)
  have "tc_reaches dtls_ref tc"
    by (rule tc_start [of dtls_ref "add_content AudioContentDescription (SessionDescription k_offer)" "Some 7"
      "\<lparr> g_libsrtp_usage_count = 0, sg_up = False, sg_tick = 0 \<rparr>"]) (use tc in \<open>simp add: ex_tc_def add_content_def SessionDescription_def\<close>)
  moreover obtain tc' where tc': "tc_channel_moves dtls_ref 0 ex_checking tc = Inr tc'" "tc_pc_state tc' = k_connecting" "pc_states (tc_out tc') = [k_connecting]"
    using m unfolding tc by (cases "tc_channel_moves dtls_ref 0 ex_checking tc") auto
  moreover have "0 < length (ag_channels (tc_agent tc))" "ch_out (ac_channel (ag_channels (tc_agent tc) ! 0)) = []"
    using e unfolding tc by auto
  ultimately have "tc_reaches dtls_ref tc'"
    by (intro tc_channel [of dtls_ref tc 0 ex_checking "[Ev_ice_state_change k_checking]" tc']) (simp_all add: ex_checking_def)
  then show ?thesis using pc_state_tracks_transports [of dtls_ref tc'] tc tc' by auto
qed

end
