(* ===== verification/Sdp_Props.thy ===== *)
theory Sdp_Props
  imports Sdp_Text
begin

text \<open>
  Properties of the SDP text: what \<^verbatim>\<open>SessionDescription::to_string\<close> prints, \<^verbatim>\<open>set_remote_sdp\<close> reads
  back; and the answers on which the parser, or the transport setup after it, does not return.
\<close>

subsection \<open>A media section\<close>

text \<open>What the parser collects within a media section: the transport, the sources, the groups.\<close>

type_synonym section_state = "transport_description \<times> ssrc_info list \<times> ssrc_group list"

definition sec_step :: "sdp_lib \<Rightarrow> bytes \<Rightarrow> section_state \<Rightarrow> section_state option" where
  "sec_step S l = (\<lambda>(td, infos, gs).
     if 10 \<in> set l \<or> l = [] \<or> contains (bytes_of ''a=group:BUNDLE'') l \<or> contains (bytes_of ''m='') l then None
     else (case (parse_transport_info S l td, parse_ssrc_group_info S l gs, parse_ssrc_info S l infos) of
       (Inr (Some td'), Inr (Some gs'), Inr (Some infos')) \<Rightarrow> Some (td', infos', gs') | _ \<Rightarrow> None))"

fun sec_steps :: "sdp_lib \<Rightarrow> bytes list \<Rightarrow> section_state \<Rightarrow> section_state option" where
  "sec_steps S [] s = Some s"
| "sec_steps S (l # ls) s = (case sec_step S l s of None \<Rightarrow> None | Some s1 \<Rightarrow> sec_steps S ls s1)"

definition mid_of :: "media_type \<Rightarrow> bytes" where
  "mid_of ty = (case ty of MEDIA_TYPE_AUDIO \<Rightarrow> bytes_of ''audio'' | MEDIA_TYPE_VIDEO \<Rightarrow> bytes_of ''video'')"

definition in_section :: "media_type \<Rightarrow> section_state \<Rightarrow> sdp_parse \<Rightarrow> bool" where
  "in_section ty s pa = (case (ty, s) of
     (MEDIA_TYPE_AUDIO, td, infos, gs) \<Rightarrow> pa_audio_td pa = td \<and> pa_audio_ssrc pa = infos
   | (MEDIA_TYPE_VIDEO, td, infos, gs) \<Rightarrow> pa_video_td pa = td \<and> pa_video_ssrc pa = infos \<and> pa_video_groups pa = gs)"

definition put_section :: "media_type \<Rightarrow> section_state \<Rightarrow> sdp_parse \<Rightarrow> sdp_parse" where
  "put_section ty s pa = (case (ty, s) of
     (MEDIA_TYPE_AUDIO, td, infos, gs) \<Rightarrow> pa\<lparr> pa_audio_td := td, pa_audio_ssrc := infos \<rparr>
   | (MEDIA_TYPE_VIDEO, td, infos, gs) \<Rightarrow> pa\<lparr> pa_video_td := td, pa_video_ssrc := infos, pa_video_groups := gs \<rparr>)"

lemma mid_of_simps [simp]: "mid_of MEDIA_TYPE_AUDIO = bytes_of ''audio''" "mid_of MEDIA_TYPE_VIDEO = bytes_of ''video''"
  by (simp_all add: mid_of_def)

lemma put_section_simps [simp]:
  "in_section ty s (put_section ty s pa)" "put_section ty s (put_section ty s' pa) = put_section ty s pa"
  "pa_media_type (put_section ty s pa) = pa_media_type pa" "pa_groups (put_section ty s pa) = pa_groups pa"
  "pa_contents (put_section ty s pa) = pa_contents pa"
  "ty \<noteq> ty' \<Longrightarrow> in_section ty s (put_section ty' s' pa) = in_section ty s pa"
  by (cases ty; cases ty'; cases s; cases s'; simp add: in_section_def put_section_def)+

lemma put_same: "in_section ty s pa \<Longrightarrow> put_section ty s pa = pa"
  by (cases ty; cases s; simp add: in_section_def put_section_def)

lemma sec_step_line:
  assumes "in_section ty s pa" "pa_media_type pa = mid_of ty" "sec_step S l s = Some s'"
  shows "parse_line S l pa = Inr (Go (put_section ty s' pa))"
proof -
  obtain td infos gs where s: "s = (td, infos, gs)" by (cases s)
  have no: "\<not> contains (bytes_of ''a=group:BUNDLE'') l" "\<not> contains (bytes_of ''m='') l"
    using assms(3) unfolding s sec_step_def by (auto split: if_splits)
  from assms(3) obtain td' infos' gs' where p: "parse_transport_info S l td = Inr (Some td')"
      "parse_ssrc_group_info S l gs = Inr (Some gs')" "parse_ssrc_info S l infos = Inr (Some infos')" "s' = (td', infos', gs')"
    unfolding s sec_step_def by (auto split: if_splits sum.splits option.splits)
  show ?thesis
    using assms(1,2) p no unfolding parse_line_def parse_session_line_def s
    by (cases ty) (simp_all add: in_section_def put_section_def parse_audio_line_def parse_video_line_def del: contains.simps)
qed

lemma sec_steps_lines:
  assumes "in_section ty s pa" "pa_media_type pa = mid_of ty" "sec_steps S ls s = Some s'"
  shows "parse_lines S ls pa = Inr (Go (put_section ty s' pa))"
  using assms
proof (induction ls arbitrary: s pa)
  case Nil
  then show ?case by (simp add: put_same)
next
  case (Cons l ls)
  then obtain s1 where "sec_step S l s = Some s1" "sec_steps S ls s1 = Some s'" by (auto split: option.splits)
  with Cons.prems Cons.IH [of s1 "put_section ty s1 pa"] show ?case by (simp add: sec_step_line [of ty s pa S l s1])
qed

lemma sec_steps_append: "sec_steps S (ls @ ls') s = Option.bind (sec_steps S ls s) (sec_steps S ls')"
  by (induction ls arbitrary: s) (auto split: option.split)

lemma sec_steps_text: "sec_steps S ls s = Some s' \<Longrightarrow> list_all (\<lambda>l. 10 \<notin> set l \<and> l \<noteq> []) ls"
proof (induction ls arbitrary: s)
  case (Cons l ls)
  then obtain s1 where "sec_step S l s = Some s1" "sec_steps S ls s1 = Some s'" by (auto split: option.splits)
  with Cons.IH show ?case by (auto simp: sec_step_def split: prod.splits if_splits)
qed simp

lemma sec_steps_keyless:
  assumes "list_all keyless ls"
  shows "sec_steps S ls s = Some s"
  using assms
proof (induction ls)
  case (Cons l ls)
  note k = Cons.prems [simplified list.pred_inject keyless_def keys_def, simplified]
  have "sec_step S l s = Some s"
    using k by (cases s) (simp add: sec_step_def parse_transport_info_def parse_ssrc_group_info_def parse_ssrc_info_def)
  then show ?case using Cons by simp
qed simp

subsection \<open>The keyed lines\<close>

definition info_of :: "stream_params \<Rightarrow> u32 \<Rightarrow> ssrc_info" where
  "info_of t s = \<lparr> si_ssrc_id = s, si_cname = sp_cname t, si_stream_id = sp_stream_id t, si_track_id = sp_id t \<rparr>"

lemma update_ssrc_new:
  "s \<notin> si_ssrc_id ` set infos \<Longrightarrow>
     update_ssrc s f infos = infos @ [f \<lparr> si_ssrc_id = s, si_cname = [], si_stream_id = [], si_track_id = [] \<rparr>]"
  by (induction infos) auto

lemma update_ssrc_old:
  "s \<notin> si_ssrc_id ` set infos \<Longrightarrow> si_ssrc_id i = s \<Longrightarrow> update_ssrc s f (infos @ [i]) = infos @ [f i]"
  by (induction infos) auto

definition ssrc_lines :: "stream_params \<Rightarrow> u32 \<Rightarrow> bytes list" where
  "ssrc_lines t s = [add_ssrc_line s ''cname'' (sp_cname t), add_ssrc_line s ''msid'' (sp_stream_id t @ bytes_of '' '' @ sp_id t),
     add_ssrc_line s ''mslabel'' (sp_stream_id t), add_ssrc_line s ''label'' (sp_id t)]"

lemma track_lines_alt:
  "track_lines t = concat (map (\<lambda>g. if sg_ssrcs g = [] then []
       else [bytes_of ''a=ssrc-group:'' @ sg_semantics g @ concat (map (\<lambda>s. 32 # dec (unat s)) (sg_ssrcs g))])
       (sp_ssrc_groups t)) @ concat (map (ssrc_lines t) (sp_ssrcs t))"
  by (simp add: track_lines_def ssrc_lines_def [abs_def] cong: if_cong)

definition track_ok :: "stream_params \<Rightarrow> bool" where
  "track_ok t = (plain (sp_cname t) \<and> plain (sp_stream_id t) \<and> plain (sp_id t) \<and> sp_ssrcs t \<noteq> [] \<and>
     list_all (\<lambda>g. plain (sg_semantics g) \<and> sg_semantics g \<noteq> [] \<and> sg_ssrcs g \<noteq> [] \<and> hd (sg_ssrcs g) \<in> set (sp_ssrcs t)) (sp_ssrc_groups t))"

definition tracks_ok :: "stream_params list \<Rightarrow> bool" where
  "tracks_ok ts = (list_all track_ok ts \<and> distinct (map sp_id ts) \<and> distinct (concat (map sp_ssrcs ts)))"

definition infos_of :: "stream_params list \<Rightarrow> ssrc_info list" where
  "infos_of ts = concat (map (\<lambda>t. map (info_of t) (sp_ssrcs t)) ts)"

lemma infos_of_ids: "si_ssrc_id ` set (infos_of ts) = set (concat (map sp_ssrcs ts))"
  by (auto simp: infos_of_def info_of_def image_iff)

context sdp_library
begin

lemma attribute_text:
  assumes "key \<noteq> []" "58 \<notin> set key" "plain v" "v \<noteq> []"
  shows "get_attribute_text S (key @ 58 # v) = v"
  using assms fields_append [of 58 key v] fields_no_delim [of 58 v] by (simp add: get_attribute_text_def tokenize)

lemma ufrag_step:
  assumes "plain u" "u \<noteq> []"
  shows "sec_step S (bytes_of ''a=ice-ufrag:'' @ u) (td, infos, gs) = Some (td\<lparr> td_ice_ufrag := u \<rparr>, infos, gs)"
proof -
  have "get_attribute_text S (bytes_of ''a=ice-ufrag'' @ 58 # u) = u" using assms by (intro attribute_text) auto
  then show ?thesis using assms
    by (simp add: sec_step_def parse_transport_info_def parse_ssrc_group_info_def parse_ssrc_info_def a_line_contains del: contains.simps)
qed

lemma pwd_step:
  assumes "plain p" "p \<noteq> []"
  shows "sec_step S (bytes_of ''a=ice-pwd:'' @ p) (td, infos, gs) = Some (td\<lparr> td_ice_pwd := p \<rparr>, infos, gs)"
proof -
  have "get_attribute_text S (bytes_of ''a=ice-pwd'' @ 58 # p) = p" using assms by (intro attribute_text) auto
  then show ?thesis using assms
    by (simp add: sec_step_def parse_transport_info_def parse_ssrc_group_info_def parse_ssrc_info_def a_line_contains del: contains.simps)
qed

lemma fingerprint_step:
  assumes "fingerprint_from_certificate S c = Some fp"
  shows "sec_step S (bytes_of ''a=fingerprint:'' @ fp_algorithm fp @ bytes_of '' '' @ rfc4572_fingerprint S fp) (td, infos, gs) =
    Some (td\<lparr> td_identity_fingerprint := Some fp \<rparr>, infos, gs)"
proof -
  note law = fingerprint [OF assms]
  define alg fp_text where "alg = bytes_of ''a=fingerprint:'' @ fp_algorithm fp" and "fp_text = rfc4572_fingerprint S fp"
  define l where "l = alg @ 32 # fp_text"
  have "fields 32 l = [alg, fp_text]"
    unfolding l_def using law by (subst fields_append) (auto simp: fields_no_delim alg_def fp_text_def)
  then have "rtc_tokenize S l 32 = [alg, fp_text]" using law by (simp add: tokenize alg_def fp_text_def)
  moreover have "contains (bytes_of ''a=fingerprint'') l" "\<not> contains (bytes_of ''a=group:BUNDLE'') l" "\<not> contains (bytes_of ''m='') l"
      "\<not> contains (bytes_of ''a=ice-ufrag'') l" "\<not> contains (bytes_of ''a=ice-pwd'') l"
      "\<not> contains (bytes_of ''a=ssrc-group:'') l" "\<not> contains (bytes_of ''a=ssrc:'') l"
    using law unfolding l_def alg_def fp_text_def by (simp_all add: a_line_contains del: contains.simps)
  moreover have "substr 14 alg = Inr (fp_algorithm fp)" "10 \<notin> set l" "l \<noteq> []"
    using law by (simp_all add: substr_def alg_def l_def fp_text_def)
  ultimately have "sec_step S l (td, infos, gs) = Some (td\<lparr> td_identity_fingerprint := Some fp \<rparr>, infos, gs)"
    using law unfolding sec_step_def parse_transport_info_def parse_ssrc_group_info_def parse_ssrc_info_def fp_text_def
    by (simp del: contains.simps bytes_of_Cons)
  then show ?thesis by (simp add: l_def alg_def fp_text_def)
qed

text \<open>An attribute of a source: the line splits at the first space and at the first colon.\<close>

lemma ssrc_parts:
  fixes ssrc :: u32
  assumes "32 \<notin> set a" "58 \<notin> set a" "10 \<notin> set a" "61 \<notin> set a" "a \<noteq> []"
    "10 \<notin> set v" "61 \<notin> set v" "58 \<notin> set v"
  defines "l \<equiv> bytes_of ''a=ssrc:'' @ dec (unat ssrc) @ 32 # a @ 58 # v"
  shows "rtc_tokenize_first S (drop 2 l) 32 = Some (bytes_of ''ssrc:'' @ dec (unat ssrc), a @ 58 # v)"
    and "rtc_tokenize_first S (a @ 58 # v) 58 = Some (a, v)"
    and "contains (bytes_of ''a=ssrc:'') l" "\<not> contains (bytes_of ''a=group:BUNDLE'') l" "\<not> contains (bytes_of ''m='') l"
      "\<not> contains (bytes_of ''a=ice-ufrag'') l" "\<not> contains (bytes_of ''a=ice-pwd'') l"
      "\<not> contains (bytes_of ''a=ssrc-group:'') l" "\<not> contains (bytes_of ''a=fingerprint'') l" "10 \<notin> set l" "2 \<le> length l"
proof -
  have "dropWhile (\<lambda>c. c = 32) (a @ 58 # v) = a @ 58 # v" using assms(1,5) by (cases a) auto
  then show "rtc_tokenize_first S (drop 2 l) 32 = Some (bytes_of ''ssrc:'' @ dec (unat ssrc), a @ 58 # v)"
    using tokenize_first [of 32 "bytes_of ''ssrc:'' @ dec (unat ssrc)" "a @ 58 # v"] by (simp add: l_def)
  have "dropWhile (\<lambda>c. c = 58) v = v" using assms(8) by (cases v) auto
  then show "rtc_tokenize_first S (a @ 58 # v) 58 = Some (a, v)" using tokenize_first [of 58 a v] assms(2) by simp
qed (use assms in \<open>simp_all add: a_line_contains del: contains.simps\<close>)

lemma ssrc_step:
  assumes a: "32 \<notin> set a" "58 \<notin> set a" "10 \<notin> set a" "61 \<notin> set a" "a \<noteq> []"
    and v: "10 \<notin> set v" "61 \<notin> set v" "58 \<notin> set v"
    and f: "a = bytes_of ''cname'' \<and> f = (\<lambda>i. i\<lparr> si_cname := v \<rparr>) \<or>
      a = bytes_of ''msid'' \<and> (\<exists>s t. 32 \<notin> set s \<and> 32 \<notin> set t \<and> v = s @ 32 # t \<and> f = (\<lambda>i. i\<lparr> si_stream_id := s, si_track_id := t \<rparr>)) \<or>
      a \<noteq> bytes_of ''cname'' \<and> a \<noteq> bytes_of ''msid'' \<and> f = (\<lambda>i. i)"
  shows "sec_step S (bytes_of ''a=ssrc:'' @ dec (unat ssrc) @ 32 # a @ 58 # v) (td, infos, gs) =
    Some (td, update_ssrc ssrc f infos, gs)"
proof -
  define l where "l = bytes_of ''a=ssrc:'' @ dec (unat ssrc) @ 32 # a @ 58 # v"
  note p = ssrc_parts(1,3-11) [OF a v, of ssrc, folded l_def] ssrc_parts(2) [OF a v]
  have ne: "l \<noteq> []" by (simp add: l_def)
  have split2: "rtc_split S (s @ 32 # t) 32 = [s, t]" if "32 \<notin> set s" "32 \<notin> set t" for s t
    using that fields_append [of 32 s t] by (simp add: split fields_no_delim)
  have "parse_ssrc_info S l infos = Inr (Some (update_ssrc ssrc f infos))"
    unfolding parse_ssrc_info_def
    using p f by (auto simp: substr_def from_string split2 simp del: contains.simps)
  moreover have "parse_transport_info S l td = Inr (Some td)" "parse_ssrc_group_info S l gs = Inr (Some gs)"
    using p unfolding parse_transport_info_def parse_ssrc_group_info_def by (simp_all del: contains.simps bytes_of_Cons)
  ultimately show ?thesis using p ne unfolding sec_step_def l_def [symmetric] by (simp del: contains.simps bytes_of_Cons)
qed

lemma ssrc_lines_step:
  assumes "plain (sp_cname t)" "plain (sp_stream_id t)" "plain (sp_id t)" "s \<notin> si_ssrc_id ` set infos"
  shows "sec_steps S (ssrc_lines t s) (td, infos, gs) = Some (td, infos @ [info_of t s], gs)"
proof -
  have line: "add_ssrc_line s attr v = bytes_of ''a=ssrc:'' @ dec (unat s) @ 32 # bytes_of attr @ 58 # v" for attr v
    by (simp add: add_ssrc_line_def)
  note 1 = ssrc_step [of "bytes_of ''cname''" "sp_cname t" "\<lambda>i. i\<lparr> si_cname := sp_cname t \<rparr>"]
  note 2 = ssrc_step [of "bytes_of ''msid''" "sp_stream_id t @ bytes_of '' '' @ sp_id t"
    "\<lambda>i. i\<lparr> si_stream_id := sp_stream_id t, si_track_id := sp_id t \<rparr>"]
  note 3 = ssrc_step [of "bytes_of ''mslabel''" "sp_stream_id t" "\<lambda>i. i"]
  note 4 = ssrc_step [of "bytes_of ''label''" "sp_id t" "\<lambda>i. i"]
  have c1: "sec_step S (add_ssrc_line s ''cname'' (sp_cname t)) (td, infos', gs) =
      Some (td, update_ssrc s (\<lambda>i. i\<lparr> si_cname := sp_cname t \<rparr>) infos', gs)" for infos'
    unfolding line using assms by (intro 1) auto
  have msid: "\<exists>x y. 32 \<notin> set x \<and> 32 \<notin> set y \<and> sp_stream_id t @ 32 # sp_id t = x @ 32 # y \<and>
      (\<lambda>i. i\<lparr> si_stream_id := sp_stream_id t, si_track_id := sp_id t \<rparr>) = (\<lambda>i::ssrc_info. i\<lparr> si_stream_id := x, si_track_id := y \<rparr>)"
    by (rule exI [of _ "sp_stream_id t"], rule exI [of _ "sp_id t"]) (use assms in simp)
  have c2: "sec_step S (add_ssrc_line s ''msid'' (sp_stream_id t @ bytes_of '' '' @ sp_id t)) (td, infos', gs) =
      Some (td, update_ssrc s (\<lambda>i. i\<lparr> si_stream_id := sp_stream_id t, si_track_id := sp_id t \<rparr>) infos', gs)" for infos'
    unfolding line using assms msid by (intro 2) auto
  have c3: "sec_step S (add_ssrc_line s ''mslabel'' (sp_stream_id t)) (td, infos', gs) =
      Some (td, update_ssrc s (\<lambda>i. i) infos', gs)" for infos'
    unfolding line using assms by (intro 3) auto
  have c4: "sec_step S (add_ssrc_line s ''label'' (sp_id t)) (td, infos', gs) = Some (td, update_ssrc s (\<lambda>i. i) infos', gs)" for infos'
    unfolding line using assms by (intro 4) auto
  show ?thesis
    unfolding ssrc_lines_def sec_steps.simps c1 option.case
    by (simp only: update_ssrc_new [OF assms(4)] c2 c3 c4 option.case update_ssrc_old [OF assms(4)] ssrc_info.simps info_of_def
      sec_steps.simps)
qed

lemma parse_ssrcs_dec: "parse_ssrcs S (map (\<lambda>s. dec (unat s)) ss) = Some ss"
  by (induction ss) (simp_all add: from_string)

lemma group_step:
  assumes "plain sem" "sem \<noteq> []" "ss \<noteq> []"
  shows "sec_step S (bytes_of ''a=ssrc-group:'' @ sem @ concat (map (\<lambda>s. 32 # dec (unat s)) ss)) (td, infos, gs) =
    Some (td, infos, gs @ [\<lparr> sg_semantics = sem, sg_ssrcs = ss \<rparr>])"
proof -
  define f0 where "f0 = bytes_of ''ssrc-group:'' @ sem"
  define l where "l = 97 # 61 # f0 @ concat (map (\<lambda>s. 32 # dec (unat s)) ss)"
  have no: "b \<notin> set (concat (map (\<lambda>s. 32 # dec (unat s)) ss))" if "b \<in> {10, 61}" for b
    using that by auto
  have "fields 32 (f0 @ concat (map (\<lambda>g. 32 # g) (map (\<lambda>s. dec (unat s)) ss))) = f0 # map (\<lambda>s. dec (unat s)) ss"
    by (rule fields_joined) (use assms in \<open>auto simp: f0_def list_all_iff\<close>)
  then have "rtc_split S (drop 2 l) 32 = f0 # map (\<lambda>s. dec (unat s)) ss" by (simp add: split l_def comp_def)
  moreover have "get_attribute_text S (bytes_of ''ssrc-group'' @ 58 # sem) = sem" using assms by (intro attribute_text) auto
  moreover obtain s ss' where "ss = s # ss'" using assms(3) by (cases ss) auto
  moreover have keys: "contains (bytes_of ''a=ssrc-group:'') l" "\<not> contains (bytes_of ''a=group:BUNDLE'') l"
      "\<not> contains (bytes_of ''m='') l" "\<not> contains (bytes_of ''a=ice-ufrag'') l" "\<not> contains (bytes_of ''a=ice-pwd'') l"
      "\<not> contains (bytes_of ''a=fingerprint'') l" "\<not> contains (bytes_of ''a=ssrc:'') l" "10 \<notin> set l"
    using assms no unfolding l_def f0_def by (simp_all add: a_line_contains del: contains.simps set_concat)
  moreover have "2 \<le> length l" "l \<noteq> []" by (simp_all add: l_def)
  ultimately have "parse_ssrc_group_info S l gs = Inr (Some (gs @ [\<lparr> sg_semantics = sem, sg_ssrcs = ss \<rparr>]))"
    using parse_ssrcs_dec [of ss] assms(2)
    by (simp add: parse_ssrc_group_info_def substr_def f0_def Let_def del: contains.simps)
  moreover have "parse_transport_info S l td = Inr (Some td)" "parse_ssrc_info S l infos = Inr (Some infos)"
    using keys unfolding parse_transport_info_def parse_ssrc_info_def by (simp_all del: contains.simps bytes_of_Cons)
  ultimately have "sec_step S l (td, infos, gs) = Some (td, infos, gs @ [\<lparr> sg_semantics = sem, sg_ssrcs = ss \<rparr>])"
    using keys \<open>l \<noteq> []\<close> unfolding sec_step_def by (simp del: contains.simps bytes_of_Cons)
  then show ?thesis by (simp add: l_def f0_def)
qed

lemma groups_steps:
  "list_all (\<lambda>g. plain (sg_semantics g) \<and> sg_semantics g \<noteq> [] \<and> sg_ssrcs g \<noteq> []) gs' \<Longrightarrow>
   sec_steps S (concat (map (\<lambda>g. if sg_ssrcs g = [] then []
       else [bytes_of ''a=ssrc-group:'' @ sg_semantics g @ concat (map (\<lambda>s. 32 # dec (unat s)) (sg_ssrcs g))]) gs')) (td, infos, gs) =
     Some (td, infos, gs @ gs')"
proof (induction gs' arbitrary: gs)
  case (Cons g gs')
  then show ?case using group_step [of "sg_semantics g" "sg_ssrcs g" td infos gs] by (simp del: bytes_of_Cons)
qed simp

lemma sources_steps:
  assumes "plain (sp_cname t)" "plain (sp_stream_id t)" "plain (sp_id t)"
  shows "distinct ss \<Longrightarrow> si_ssrc_id ` set infos \<inter> set ss = {} \<Longrightarrow>
    sec_steps S (concat (map (ssrc_lines t) ss)) (td, infos, gs) = Some (td, infos @ map (info_of t) ss, gs)"
proof (induction ss arbitrary: infos)
  case (Cons s ss)
  have "sec_steps S (ssrc_lines t s) (td, infos, gs) = Some (td, infos @ [info_of t s], gs)"
    using assms Cons.prems by (intro ssrc_lines_step) auto
  moreover have "sec_steps S (concat (map (ssrc_lines t) ss)) (td, infos @ [info_of t s], gs) =
      Some (td, (infos @ [info_of t s]) @ map (info_of t) ss, gs)"
    using Cons.prems by (intro Cons.IH) (auto simp: info_of_def)
  ultimately show ?case by (simp add: sec_steps_append)
qed simp

lemma tracks_steps:
  "list_all track_ok ts \<Longrightarrow> distinct (concat (map sp_ssrcs ts)) \<Longrightarrow> si_ssrc_id ` set infos \<inter> set (concat (map sp_ssrcs ts)) = {} \<Longrightarrow>
    sec_steps S (concat (map track_lines ts)) (td, infos, gs) =
      Some (td, infos @ infos_of ts, gs @ concat (map sp_ssrc_groups ts))"
proof (induction ts arbitrary: infos gs)
  case Nil
  then show ?case by (simp add: infos_of_def)
next
  case (Cons t ts)
  have t: "track_ok t" using Cons.prems by simp
  have "sec_steps S (track_lines t) (td, infos, gs) = Some (td, infos @ map (info_of t) (sp_ssrcs t), gs @ sp_ssrc_groups t)"
    unfolding track_lines_alt sec_steps_append
    using groups_steps [of "sp_ssrc_groups t" td infos gs] sources_steps [of t "sp_ssrcs t" infos td "gs @ sp_ssrc_groups t"] t Cons.prems
    by (auto simp: track_ok_def list_all_iff)
  moreover have "sec_steps S (concat (map track_lines ts)) (td, infos @ map (info_of t) (sp_ssrcs t), gs @ sp_ssrc_groups t) =
      Some (td, (infos @ map (info_of t) (sp_ssrcs t)) @ infos_of ts, (gs @ sp_ssrc_groups t) @ concat (map sp_ssrc_groups ts))"
    using Cons.prems by (intro Cons.IH) (auto simp: info_of_def disjoint_iff)
  ultimately show ?case by (simp add: sec_steps_append infos_of_def)
qed

end

subsection \<open>Tracks from sources\<close>

definition bare :: "stream_params \<Rightarrow> stream_params" where
  "bare t = t\<lparr> sp_ssrc_groups := [] \<rparr>"

lemma update_track_new:
  "tid \<notin> sp_id ` set ts \<Longrightarrow>
     update_track tid f ts = ts @ [f \<lparr> sp_id = tid, sp_ssrcs = [], sp_ssrc_groups = [], sp_cname = [], sp_stream_id = [] \<rparr>]"
  by (induction ts) auto

lemma update_track_old:
  "tid \<notin> sp_id ` set ts \<Longrightarrow> sp_id t = tid \<Longrightarrow> update_track tid f (ts @ [t]) = ts @ [f t]"
  by (induction ts) auto

lemma create_track_append:
  "create_track_from_ssrc_info (is @ is') ts = create_track_from_ssrc_info is' (create_track_from_ssrc_info is ts)"
  by (simp add: create_track_from_ssrc_info_def)

lemma create_track_more:
  assumes "sp_id t \<notin> sp_id ` set ts"
  shows "create_track_from_ssrc_info (map (info_of t) ss) (ts @ [(bare t)\<lparr> sp_ssrcs := ss0 \<rparr>]) = ts @ [(bare t)\<lparr> sp_ssrcs := ss0 @ ss \<rparr>]"
proof (induction ss arbitrary: ss0)
  case (Cons s ss)
  have "create_track_from_ssrc_info [info_of t s] (ts @ [(bare t)\<lparr> sp_ssrcs := ss0 \<rparr>]) = ts @ [(bare t)\<lparr> sp_ssrcs := ss0 @ [s] \<rparr>]"
    using assms by (simp add: create_track_from_ssrc_info_def info_of_def update_track_old bare_def)
  then show ?case using create_track_append [of "[info_of t s]" "map (info_of t) ss"] Cons [of "ss0 @ [s]"] by simp
qed (simp add: create_track_from_ssrc_info_def)

lemma create_track_one:
  assumes "sp_id t \<notin> sp_id ` set ts" "sp_ssrcs t \<noteq> []"
  shows "create_track_from_ssrc_info (map (info_of t) (sp_ssrcs t)) ts = ts @ [bare t]"
proof -
  obtain s ss where ss: "sp_ssrcs t = s # ss" using assms(2) by (cases "sp_ssrcs t") auto
  have "create_track_from_ssrc_info [info_of t s] ts = ts @ [(bare t)\<lparr> sp_ssrcs := [s] \<rparr>]"
    using assms by (simp add: create_track_from_ssrc_info_def info_of_def update_track_new bare_def)
  then have "create_track_from_ssrc_info (map (info_of t) (sp_ssrcs t)) ts = ts @ [(bare t)\<lparr> sp_ssrcs := [s] @ ss \<rparr>]"
    using create_track_append [of "[info_of t s]" "map (info_of t) ss"] create_track_more [OF assms(1), of ss "[s]"] by (simp add: ss)
  also have "(bare t)\<lparr> sp_ssrcs := [s] @ ss \<rparr> = bare t" by (simp add: bare_def ss [symmetric])
  finally show ?thesis .
qed

lemma create_tracks:
  "list_all (\<lambda>t. sp_ssrcs t \<noteq> []) ts \<Longrightarrow> distinct (map sp_id ts) \<Longrightarrow> sp_id ` set ts0 \<inter> sp_id ` set ts = {} \<Longrightarrow>
     create_track_from_ssrc_info (infos_of ts) ts0 = ts0 @ map bare ts"
proof (induction ts arbitrary: ts0)
  case Nil
  then show ?case by (simp add: infos_of_def create_track_from_ssrc_info_def)
next
  case (Cons t ts)
  have "create_track_from_ssrc_info (infos_of ts) (ts0 @ [bare t]) = (ts0 @ [bare t]) @ map bare ts"
    using Cons.prems by (intro Cons.IH) (auto simp: bare_def)
  moreover have "create_track_from_ssrc_info (map (info_of t) (sp_ssrcs t)) ts0 = ts0 @ [bare t]"
    using Cons.prems by (intro create_track_one) auto
  ultimately show ?case by (simp add: infos_of_def create_track_append)
qed

lemma any_ssrc_set [simp]: "any_ssrc s ss \<longleftrightarrow> s \<in> set ss"
  by (induction ss) auto

lemma assign_group_one:
  assumes "sg_ssrcs g \<noteq> []" "hd (sg_ssrcs g) \<in> set (sp_ssrcs t)"
    "\<forall>t' \<in> set (ts @ ts'). hd (sg_ssrcs g) \<notin> set (sp_ssrcs t')"
  shows "assign_group g (ts @ t # ts') = ts @ t\<lparr> sp_ssrc_groups := sp_ssrc_groups t @ [g] \<rparr> # ts'"
proof -
  obtain s ss where ss: "sg_ssrcs g = s # ss" using assms(1) by (cases "sg_ssrcs g") auto
  have "map (\<lambda>t. if has_ssrc s t then t\<lparr> sp_ssrc_groups := sp_ssrc_groups t @ [g] \<rparr> else t) us = us"
    if "\<forall>t' \<in> set us. s \<notin> set (sp_ssrcs t')" for us
    using that by (induction us) (auto simp: has_ssrc_def)
  then show ?thesis using assms(2,3) by (simp add: assign_group_def ss has_ssrc_def)
qed

lemma assign_groups_one:
  assumes "list_all (\<lambda>g. sg_ssrcs g \<noteq> [] \<and> hd (sg_ssrcs g) \<in> set (sp_ssrcs t)) gs"
    "\<forall>t' \<in> set (ts @ ts'). set (sp_ssrcs t) \<inter> set (sp_ssrcs t') = {}"
  shows "fold assign_group gs (ts @ t\<lparr> sp_ssrc_groups := gs0 \<rparr> # ts') = ts @ t\<lparr> sp_ssrc_groups := gs0 @ gs \<rparr> # ts'"
  using assms(1)
proof (induction gs arbitrary: gs0)
  case (Cons g gs)
  have "assign_group g (ts @ t\<lparr> sp_ssrc_groups := gs0 \<rparr> # ts') = ts @ t\<lparr> sp_ssrc_groups := gs0 @ [g] \<rparr> # ts'"
  proof -
    have g: "sg_ssrcs g \<noteq> []" "hd (sg_ssrcs g) \<in> set (sp_ssrcs t)" using Cons.prems by simp_all
    have no: "\<forall>t' \<in> set (ts @ ts'). hd (sg_ssrcs g) \<notin> set (sp_ssrcs t')" using g assms(2) by blast
    define u where "u = t\<lparr> sp_ssrc_groups := gs0 \<rparr>"
    have "hd (sg_ssrcs g) \<in> set (sp_ssrcs u)" using g(2) by (simp add: u_def)
    then have "assign_group g (ts @ u # ts') = ts @ u\<lparr> sp_ssrc_groups := sp_ssrc_groups u @ [g] \<rparr> # ts'"
      by (rule assign_group_one [OF g(1) _ no])
    then show ?thesis unfolding u_def by simp
  qed
  with Cons show ?case by simp
qed simp

lemma assign_groups:
  "list_all (\<lambda>t. list_all (\<lambda>g. sg_ssrcs g \<noteq> [] \<and> hd (sg_ssrcs g) \<in> set (sp_ssrcs t)) (sp_ssrc_groups t)) ts \<Longrightarrow>
   distinct (concat (map sp_ssrcs (ts0 @ ts))) \<Longrightarrow>
   fold assign_group (concat (map sp_ssrc_groups ts)) (ts0 @ map bare ts) = ts0 @ ts"
proof (induction ts arbitrary: ts0)
  case (Cons t ts)
  have "set (concat (map sp_ssrcs ts0)) \<inter> set (sp_ssrcs t) = {}" "set (sp_ssrcs t) \<inter> set (concat (map sp_ssrcs ts)) = {}"
    using Cons.prems(2) by auto
  then have apart: "\<forall>t' \<in> set (ts0 @ map bare ts). set (sp_ssrcs t) \<inter> set (sp_ssrcs t') = {}"
    unfolding bare_def by fastforce
  have "fold assign_group (sp_ssrc_groups t) (ts0 @ t\<lparr> sp_ssrc_groups := [] \<rparr> # map bare ts) =
      ts0 @ t\<lparr> sp_ssrc_groups := [] @ sp_ssrc_groups t \<rparr> # map bare ts"
    using Cons.prems(1) apart by (intro assign_groups_one) simp_all
  moreover have "fold assign_group (concat (map sp_ssrc_groups ts)) ((ts0 @ [t]) @ map bare ts) = (ts0 @ [t]) @ ts"
    using Cons.prems by (intro Cons.IH) auto
  ultimately show ?case by (simp add: bare_def [of t])
qed simp

subsection \<open>A content\<close>

lemma get_transport_mid: "get_transport_info mid sd = Some td \<Longrightarrow> td_mid td = mid"
  by (auto simp: get_transport_info_def find_Some_iff)

definition td_ok :: "sdp_lib \<Rightarrow> transport_description \<Rightarrow> bool" where
  "td_ok S td \<longleftrightarrow> plain (td_ice_ufrag td) \<and> td_ice_ufrag td \<noteq> [] \<and> plain (td_ice_pwd td) \<and> td_ice_pwd td \<noteq> [] \<and>
     (\<forall>fp. td_identity_fingerprint td = Some fp \<longrightarrow> (\<exists>c. fingerprint_from_certificate S c = Some fp))"

definition content_ok :: "sdp_lib \<Rightarrow> session_description \<Rightarrow> media_content \<Rightarrow> bool" where
  "content_ok S sd c \<longleftrightarrow> constructed c \<and> list_all (candidate_ok S) (mc_candidates c) \<and> tracks_ok (mc_send_streams c) \<and>
     (mc_type c = MEDIA_TYPE_AUDIO \<longrightarrow> list_all (\<lambda>t. sp_ssrc_groups t = []) (mc_send_streams c)) \<and>
     (\<exists>td. get_transport_info (mc_mid c) sd = Some td \<and> td_ok S td)"

text \<open>What the parser keeps of a transport description and of a content.\<close>

definition kept_transport :: "transport_description \<Rightarrow> transport_description" where
  "kept_transport td = td\<lparr> td_connection_role := NONE \<rparr>"

definition section_result :: "session_description \<Rightarrow> media_content \<Rightarrow> section_state" where
  "section_result sd c = (kept_transport (the (get_transport_info (mc_mid c) sd)), infos_of (mc_send_streams c),
     concat (map sp_ssrc_groups (mc_send_streams c)))"

definition m_line :: "media_type \<Rightarrow> bytes" where
  "m_line ty = (case ty of MEDIA_TYPE_AUDIO \<Rightarrow> bytes_of ''m=audio 9 UDP/TLS/RTP/SAVPF 111''
     | MEDIA_TYPE_VIDEO \<Rightarrow> bytes_of ''m=video 9 UDP/TLS/RTP/SAVPF 96 97'')"

definition open_section :: "media_type \<Rightarrow> sdp_parse \<Rightarrow> sdp_parse" where
  "open_section ty pa = put_section ty (TransportDescription\<lparr> td_mid := mid_of ty \<rparr>, [], [])
     (pa\<lparr> pa_media_type := mid_of ty, pa_contents := pa_contents pa @ [ty] \<rparr>)"

lemma mc_mid_of: "mc_mid c = mid_of (mc_type c)"
  by (simp add: mc_mid_def mid_of_def)

lemma m_line_printed:
  assumes "constructed c"
  shows "bytes_of ''m='' @ mc_mid c @ bytes_of '' 9 '' @ k_media_protocol_dtls_savpf @
    concat (map (\<lambda>codec. bytes_of '' '' @ dec_int (ci_id codec)) (mc_codecs c)) = m_line (mc_type c)"
  using assms
  by (cases "mc_type c") (simp_all add: constructed_def mc_mid_def m_line_def k_media_protocol_dtls_savpf_def
    AudioContentDescription_def VideoContentDescription_def content_of_def CodecInfo_def dec_int_def dec_numeral dec_0_1)

context sdp_library
begin

lemma transport_steps:
  assumes "td_ok S td"
  shows "sec_steps S (transport_lines S (Some td)) (TransportDescription\<lparr> td_mid := td_mid td \<rparr>, infos, gs) = Some (kept_transport td, infos, gs)"
proof -
  have base: "sec_steps S [bytes_of ''a=ice-ufrag:'' @ td_ice_ufrag td, bytes_of ''a=ice-pwd:'' @ td_ice_pwd td]
      (TransportDescription\<lparr> td_mid := td_mid td \<rparr>, infos, gs) =
      Some (TransportDescription\<lparr> td_mid := td_mid td, td_ice_ufrag := td_ice_ufrag td, td_ice_pwd := td_ice_pwd td \<rparr>, infos, gs)"
    using assms unfolding td_ok_def by (simp add: ufrag_step pwd_step del: bytes_of_Cons)
  show ?thesis
  proof (cases "td_identity_fingerprint td")
    case None
    then show ?thesis using base by (simp add: transport_lines_def kept_transport_def TransportDescription_def del: bytes_of_Cons)
  next
    case (Some fp)
    then obtain c where c: "fingerprint_from_certificate S c = Some fp" using assms by (auto simp: td_ok_def)
    have setup_line: "sec_steps S [bytes_of ''a=setup:'' @ connection_role_to_string (td_connection_role td)] s = Some s" for s
      by (rule sec_steps_keyless) (simp add: keyless_setup del: bytes_of_Cons)
    show ?thesis
      unfolding transport_lines_def Some option.case sec_steps_append base Option.bind.simps
      using setup_line fingerprint_step [OF c]
      by (simp add: kept_transport_def TransportDescription_def Some del: bytes_of_Cons)
  qed
qed

lemma m_line_keys:
  "\<not> contains (bytes_of ''a=group:BUNDLE'') (m_line ty)" "contains (bytes_of ''m='') (m_line ty)"
  "\<not> contains (bytes_of ''a=ice-ufrag'') (m_line ty)" "\<not> contains (bytes_of ''a=ice-pwd'') (m_line ty)"
  "\<not> contains (bytes_of ''a=fingerprint'') (m_line ty)" "\<not> contains (bytes_of ''a=ssrc-group:'') (m_line ty)"
  "\<not> contains (bytes_of ''a=ssrc:'') (m_line ty)" "10 \<notin> set (m_line ty)" "m_line ty \<noteq> []"
proof -
  obtain rest where m: "m_line ty = 109 # 61 # rest" "61 \<notin> set rest" "10 \<notin> set rest" by (cases ty) (simp_all add: m_line_def)
  have "contains (k # 61 # ks) (m_line ty) \<longleftrightarrow> k = 109 \<and> take (length ks) rest = ks" for k ks
    unfolding m(1) by (rule contains_key [OF m(2)]) simp
  then show "\<not> contains (bytes_of ''a=group:BUNDLE'') (m_line ty)" "contains (bytes_of ''m='') (m_line ty)"
    "\<not> contains (bytes_of ''a=ice-ufrag'') (m_line ty)" "\<not> contains (bytes_of ''a=ice-pwd'') (m_line ty)"
    "\<not> contains (bytes_of ''a=fingerprint'') (m_line ty)" "\<not> contains (bytes_of ''a=ssrc-group:'') (m_line ty)"
    "\<not> contains (bytes_of ''a=ssrc:'') (m_line ty)"
    by (simp_all del: contains.simps)
  show "10 \<notin> set (m_line ty)" "m_line ty \<noteq> []" using m by simp_all
qed

lemma m_line_fields: "\<exists>i1 i2 is. fields 32 (m_line ty) = (bytes_of ''m='' @ mid_of ty) # i1 # i2 # is"
proof -
  define fs where "fs = bytes_of ''9'' # bytes_of ''UDP/TLS/RTP/SAVPF'' #
    (case ty of MEDIA_TYPE_AUDIO \<Rightarrow> [bytes_of ''111''] | MEDIA_TYPE_VIDEO \<Rightarrow> [bytes_of ''96'', bytes_of ''97''])"
  have "m_line ty = (bytes_of ''m='' @ mid_of ty) @ concat (map (\<lambda>g. 32 # g) fs)"
    by (cases ty) (simp_all add: m_line_def fs_def)
  moreover have "fields 32 ((bytes_of ''m='' @ mid_of ty) @ concat (map (\<lambda>g. 32 # g) fs)) = (bytes_of ''m='' @ mid_of ty) # fs"
    by (rule fields_joined) (cases ty; simp add: fs_def)
  ultimately show ?thesis by (auto simp: fs_def)
qed

lemma m_line_step:
  assumes "in_section ty (TransportDescription, [], []) pa"
  shows "parse_line S (m_line ty) pa = Inr (Go (open_section ty pa))"
proof -
  obtain i1 i2 "is" where f: "rtc_split S (m_line ty) 32 = (bytes_of ''m='' @ mid_of ty) # i1 # i2 # is"
    using m_line_fields [of ty] by (auto simp: split)
  have session: "parse_session_line S (m_line ty) pa = Inr (Go (open_section ty pa))"
    using assms unfolding parse_session_line_def f
    by (cases ty) (simp_all add: m_line_keys [simplified] substr_def open_section_def in_section_def put_section_def del: contains.simps)
  have "parse_transport_info S (m_line ty) td = Inr (Some td)" "parse_ssrc_info S (m_line ty) infos = Inr (Some infos)"
    "parse_ssrc_group_info S (m_line ty) gs = Inr (Some gs)" for td infos gs
    unfolding parse_transport_info_def parse_ssrc_info_def parse_ssrc_group_info_def by (simp_all add: m_line_keys del: contains.simps bytes_of_Cons)
  then show ?thesis
    unfolding parse_line_def session
    by (cases ty) (simp_all add: parse_audio_line_def parse_video_line_def open_section_def put_section_def)
qed

lemma content_steps:
  assumes "content_ok S sd c"
  obtains ls where "content_lines S sd c = Inr (m_line (mc_type c) # ls)"
    "sec_steps S ls (TransportDescription\<lparr> td_mid := mc_mid c \<rparr>, [], []) = Some (section_result sd c)"
proof -
  obtain rtp_map where rm: "build_rtp_map c = Inr rtp_map" "list_all keyless rtp_map"
    using assms content_rtp_map unfolding content_ok_def by blast
  obtain td where td: "get_transport_info (mc_mid c) sd = Some td" "td_ok S td" using assms by (auto simp: content_ok_def)
  have mid: "td_mid td = mc_mid c" using td(1) by (rule get_transport_mid)
  define before after where "before = [bytes_of ''c=IN IP4 0.0.0.0'', bytes_of ''a=rtcp:9 IN IP4 0.0.0.0''] @ build_candidate S c"
    and "after = [bytes_of ''a=mid:'' @ mc_mid c] @ build_rtp_direction c @ (if mc_rtcp_mux c then [bytes_of ''a=rtcp-mux''] else []) @
       [bytes_of ''a=extmap:12 http://www.webrtc.org/experiments/rtp-hdrext/abs-capture-time''] @ rtp_map"
  have ok: "list_all keyless before" "list_all keyless after"
    using assms rm(2) keyless_candidates unfolding before_def after_def content_ok_def
    by (simp_all add: keyless_constants keyless_direction keyless_mid del: bytes_of_Cons)
  show ?thesis
  proof (rule that [of "before @ transport_lines S (Some td) @ after @ build_ssrc c"])
    show "content_lines S sd c = Inr (m_line (mc_type c) # before @ transport_lines S (Some td) @ after @ build_ssrc c)"
      using assms unfolding content_ok_def content_lines_def before_def after_def
      by (simp add: rm td m_line_printed [symmetric] del: bytes_of_Cons)
    have "sec_steps S (build_ssrc c) (kept_transport td, [], []) = Some (section_result sd c)"
      using assms tracks_steps [of "mc_send_streams c" "[]" "kept_transport td" "[]"]
      by (simp add: build_ssrc_def section_result_def td content_ok_def tracks_ok_def)
    then show "sec_steps S (before @ transport_lines S (Some td) @ after @ build_ssrc c) (TransportDescription\<lparr> td_mid := mc_mid c \<rparr>, [], []) =
        Some (section_result sd c)"
      using ok sec_steps_keyless transport_steps [OF td(2)] by (simp add: sec_steps_append mid)
  qed
qed

end

subsection \<open>A description\<close>

definition group_ok :: "content_group \<Rightarrow> bool" where
  "group_ok g = (cg_semantics g = bytes_of ''BUNDLE'' \<and> cg_content_names g \<noteq> [] \<and> distinct (cg_content_names g) \<and>
     list_all plain (cg_content_names g))"

text \<open>The descriptions that can be printed and read back: at most one bundle group, at most one content
  of each type, with a transport for each content, and strings without separators.\<close>

definition sdp_ok :: "sdp_lib \<Rightarrow> session_description \<Rightarrow> bool" where
  "sdp_ok S sd \<longleftrightarrow> (\<forall>c \<in> set (sd_contents sd). content_ok S sd c) \<and> distinct (map mc_type (sd_contents sd)) \<and>
     (sd_content_groups sd = [] \<or> (\<exists>g. sd_content_groups sd = [g] \<and> group_ok g))"

definition read_content :: "session_description \<Rightarrow> media_content \<Rightarrow> sdp_parse \<Rightarrow> sdp_parse" where
  "read_content sd c pa = put_section (mc_type c) (section_result sd c) (open_section (mc_type c) pa)"

lemma read_content_simps:
  "pa_groups (read_content sd c pa) = pa_groups pa" "pa_contents (read_content sd c pa) = pa_contents pa @ [mc_type c]"
  "in_section (mc_type c) (section_result sd c) (read_content sd c pa)"
  "mc_type c \<noteq> ty \<Longrightarrow> in_section ty s (read_content sd c pa) = in_section ty s pa"
proof -
  have "in_section ty s (open_section ty' pa) = in_section ty s pa" if "ty \<noteq> ty'" for ty ty'
    using that by (cases s; cases ty; cases ty') (simp_all add: open_section_def in_section_def put_section_def)
  then show "mc_type c \<noteq> ty \<Longrightarrow> in_section ty s (read_content sd c pa) = in_section ty s pa" by (simp add: read_content_def)
qed (simp_all add: read_content_def open_section_def)

lemma read_contents:
  "pa_groups (fold (read_content sd) cs pa) = pa_groups pa"
  "pa_contents (fold (read_content sd) cs pa) = pa_contents pa @ map mc_type cs"
  "ty \<notin> mc_type ` set cs \<Longrightarrow> in_section ty s (fold (read_content sd) cs pa) = in_section ty s pa"
  "distinct (map mc_type cs) \<Longrightarrow> c \<in> set cs \<Longrightarrow> in_section (mc_type c) (section_result sd c) (fold (read_content sd) cs pa)"
proof (induction cs arbitrary: pa ty s)
  case (Cons d cs)
  { case 1 show ?case using Cons.IH(1) by (simp add: read_content_simps) }
  { case 2 show ?case using Cons.IH(2) by (simp add: read_content_simps) }
  { case 3 then show ?case using Cons.IH(3) [of _ _ "read_content sd d pa"] by (auto simp: read_content_simps(4) [of d ty s sd pa]) }
  { case 4
    show ?case
    proof (cases "c = d")
      case True
      then have "mc_type c \<notin> mc_type ` set cs" using 4 by simp
      then show ?thesis using Cons.IH(3) [of _ _ "read_content sd d pa"] True by (simp add: read_content_simps)
    next
      case False
      then show ?thesis using 4 Cons.IH(4) by simp
    qed }
qed simp_all

lemma tracks_back:
  assumes "tracks_ok ts"
  shows "create_track_from_ssrc_info (infos_of ts) [] = map bare ts"
    and "fold assign_group (concat (map sp_ssrc_groups ts)) (map bare ts) = ts"
    and "infos_of ts = [] \<longleftrightarrow> ts = []"
  using assms create_tracks [of ts "[]"] assign_groups [of ts "[]"]
  by (auto simp: tracks_ok_def track_ok_def list_all_iff infos_of_def)

lemma add_streams: "fold add_stream ts c = c\<lparr> mc_send_streams := mc_send_streams c @ ts \<rparr>"
  by (induction ts arbitrary: c) (simp_all add: add_stream_def)

lemma add_names: "distinct (cg_content_names g @ ns) \<Longrightarrow> fold add_content_name ns g = g\<lparr> cg_content_names := cg_content_names g @ ns \<rparr>"
  by (induction ns arbitrary: g) (auto simp: add_content_name_def has_content_name_def list_ex_iff)

lemma append_space: "((@) [32 :: byte]) = (#) 32"
  by (rule ext) simp

text \<open>The description the parser ends with.\<close>

lemma finish_streams:
  assumes "sdp_ok S sd" "\<forall>ty. ty \<notin> mc_type ` set (sd_contents sd) \<longrightarrow> in_section ty (TransportDescription, [], []) pa"
    "\<forall>c \<in> set (sd_contents sd). in_section (mc_type c) (section_result sd c) pa" "pa_contents pa = map mc_type (sd_contents sd)"
  shows "map (\<lambda>c. (mc_type c, mc_send_streams c)) (sd_contents (finish_parse pa)) =
    map (\<lambda>c. (mc_type c, mc_send_streams c)) (sd_contents sd)"
proof -
  define tracks where "tracks ty = (case ty of
      MEDIA_TYPE_AUDIO \<Rightarrow> if pa_audio_ssrc pa \<noteq> [] then create_track_from_ssrc_info (pa_audio_ssrc pa) [] else []
    | MEDIA_TYPE_VIDEO \<Rightarrow> if pa_video_ssrc pa \<noteq> [] then fold assign_group (pa_video_groups pa) (create_track_from_ssrc_info (pa_video_ssrc pa) []) else [])" for ty
  have "tracks (mc_type c) = mc_send_streams c" if "c \<in> set (sd_contents sd)" for c
  proof -
    have ok: "content_ok S sd c" "in_section (mc_type c) (section_result sd c) pa" using that assms by (auto simp: sdp_ok_def)
    note back_tracks = tracks_back [of "mc_send_streams c"]
    show ?thesis
    proof (cases "mc_type c")
      case MEDIA_TYPE_AUDIO
      then have "map bare (mc_send_streams c) = mc_send_streams c"
        using ok(1) by (auto simp: content_ok_def bare_def list_all_iff intro!: map_idI)
      then show ?thesis using ok back_tracks MEDIA_TYPE_AUDIO
        by (simp add: tracks_def in_section_def section_result_def content_ok_def)
    next
      case MEDIA_TYPE_VIDEO
      then show ?thesis using ok back_tracks by (simp add: tracks_def in_section_def section_result_def content_ok_def)
    qed
  qed
  moreover have "sd_contents (finish_parse pa) = map (\<lambda>ty. (case ty of MEDIA_TYPE_AUDIO \<Rightarrow> AudioContentDescription
      | MEDIA_TYPE_VIDEO \<Rightarrow> VideoContentDescription)\<lparr> mc_send_streams := tracks ty \<rparr>) (pa_contents pa)"
    by (auto simp: finish_parse_def Let_def parsed_description_def add_transport_info_def add_streams tracks_def
      AudioContentDescription_def VideoContentDescription_def content_of_def split: media_type.split)
  ultimately show ?thesis using assms(4)
    by (auto simp: AudioContentDescription_def VideoContentDescription_def content_of_def Let_def split: media_type.split)
qed

lemma finish_transport:
  assumes "sdp_ok S sd" "\<forall>ty. ty \<notin> mc_type ` set (sd_contents sd) \<longrightarrow> in_section ty (TransportDescription, [], []) pa"
    "\<forall>c \<in> set (sd_contents sd). in_section (mc_type c) (section_result sd c) pa" "c \<in> set (sd_contents sd)"
  shows "get_transport_info (mc_mid c) (finish_parse pa) = map_option kept_transport (get_transport_info (mc_mid c) sd)"
proof -
  have infos: "sd_transport_infos (finish_parse pa) = [pa_audio_td pa, pa_video_td pa]"
    by (simp add: finish_parse_def Let_def add_transport_info_def parsed_description_def SessionDescription_def)
  have td: "\<exists>td. get_transport_info (mc_mid d) sd = Some td \<and> td_mid td = mc_mid d" if "d \<in> set (sd_contents sd)" for d
    using assms(1) that get_transport_mid unfolding sdp_ok_def content_ok_def by blast
  obtain td where c: "get_transport_info (mc_mid c) sd = Some td" "td_mid td = mc_mid c" using td [OF assms(4)] by blast
  have sec: "in_section (mc_type c) (section_result sd c) pa" using assms(3,4) by blast
  show ?thesis
  proof (cases "mc_type c")
    case MEDIA_TYPE_AUDIO
    then show ?thesis using sec c
      by (simp add: get_transport_info_def [of _ "finish_parse pa"] infos in_section_def section_result_def kept_transport_def)
  next
    case MEDIA_TYPE_VIDEO
    have "td_mid (pa_audio_td pa) \<noteq> mc_mid c"
    proof (cases "\<exists>d \<in> set (sd_contents sd). mc_type d = MEDIA_TYPE_AUDIO")
      case True
      then obtain d where d: "d \<in> set (sd_contents sd)" "mc_type d = MEDIA_TYPE_AUDIO" by blast
      obtain td' where "get_transport_info (mc_mid d) sd = Some td'" "td_mid td' = mc_mid d" using td [OF d(1)] by blast
      moreover have "in_section (mc_type d) (section_result sd d) pa" using assms(3) d(1) by blast
      ultimately show ?thesis using d MEDIA_TYPE_VIDEO
        by (simp add: in_section_def section_result_def kept_transport_def mc_mid_of)
    next
      case False
      then have "in_section MEDIA_TYPE_AUDIO (TransportDescription, [], []) pa" using assms(2) by (metis imageE)
      then show ?thesis using MEDIA_TYPE_VIDEO by (simp add: in_section_def TransportDescription_def mc_mid_of)
    qed
    then show ?thesis using sec c MEDIA_TYPE_VIDEO
      by (simp add: get_transport_info_def [of _ "finish_parse pa"] infos in_section_def section_result_def kept_transport_def)
  qed
qed

context sdp_library
begin

lemma contents_parse:
  assumes "\<forall>c \<in> set cs. content_ok S sd c" "distinct (map mc_type cs)"
    "\<forall>c \<in> set cs. in_section (mc_type c) (TransportDescription, [], []) pa"
  shows "\<exists>lss. res_map (content_lines S sd) cs = Inr lss \<and> list_all (\<lambda>l. 10 \<notin> set l \<and> l \<noteq> []) (concat lss) \<and>
    parse_lines S (concat lss) pa = Inr (Go (fold (read_content sd) cs pa))"
  using assms
proof (induction cs arbitrary: pa)
  case (Cons c cs)
  obtain ls where ls: "content_lines S sd c = Inr (m_line (mc_type c) # ls)"
      "sec_steps S ls (TransportDescription\<lparr> td_mid := mc_mid c \<rparr>, [], []) = Some (section_result sd c)"
    using Cons.prems content_steps [of sd c] by auto
  have "in_section (mc_type c) (TransportDescription\<lparr> td_mid := mc_mid c \<rparr>, [], []) (open_section (mc_type c) pa)"
    "pa_media_type (open_section (mc_type c) pa) = mid_of (mc_type c)"
    by (simp_all add: open_section_def mc_mid_of)
  from sec_steps_lines [OF this ls(2)]
  have one: "parse_lines S (m_line (mc_type c) # ls) pa = Inr (Go (read_content sd c pa))"
    using Cons.prems(3) by (simp add: m_line_step read_content_def)
  have "\<forall>d \<in> set cs. in_section (mc_type d) (TransportDescription, [], []) (read_content sd c pa)"
  proof
    fix d assume "d \<in> set cs"
    then have "mc_type c \<noteq> mc_type d" using Cons.prems(2) by auto
    then show "in_section (mc_type d) (TransportDescription, [], []) (read_content sd c pa)"
      using Cons.prems(3) \<open>d \<in> set cs\<close> by (simp add: read_content_simps)
  qed
  then obtain lss where "res_map (content_lines S sd) cs = Inr lss" "list_all (\<lambda>l. 10 \<notin> set l \<and> l \<noteq> []) (concat lss)"
      "parse_lines S (concat lss) (read_content sd c pa) = Inr (Go (fold (read_content sd) cs (read_content sd c pa)))"
    using Cons.IH [of "read_content sd c pa"] Cons.prems by auto
  then show ?case using ls one sec_steps_text [OF ls(2)] parse_lines_append [of S "m_line (mc_type c) # ls" "concat lss" pa] m_line_keys
    by (intro exI [of _ "(m_line (mc_type c) # ls) # lss"]) (simp del: parse_lines.simps)
qed simp

lemma group_line:
  assumes "group_ok g"
  defines "l \<equiv> bytes_of ''a=group:BUNDLE'' @ concat (map (\<lambda>n. 32 # n) (cg_content_names g))"
  shows "parse_line S l parse_start = Inr (Go (parse_start\<lparr> pa_groups := [g] \<rparr>))" "10 \<notin> set l"
proof -
  have ok: "list_all plain (cg_content_names g)" "cg_content_names g \<noteq> []" "distinct (cg_content_names g)"
    "cg_semantics g = bytes_of ''BUNDLE''" using assms by (auto simp: group_ok_def)
  then have no: "61 \<notin> set (concat (map (\<lambda>n. 32 # n) (cg_content_names g)))" "10 \<notin> set (concat (map (\<lambda>n. 32 # n) (cg_content_names g)))"
    by (auto simp: list_all_iff)
  have "contains (bytes_of ''a=group:BUNDLE'') l" unfolding l_def using no by (simp add: a_line_contains del: contains.simps set_concat)
  moreover have "rtc_split S l 32 = bytes_of ''a=group:BUNDLE'' # cg_content_names g"
    unfolding split l_def by (rule fields_joined) (use ok in \<open>auto simp: list_all_iff\<close>)
  moreover have "fold add_content_name (cg_content_names g) (ContentGroup (bytes_of ''BUNDLE'')) = g"
    using ok add_names [of "ContentGroup (bytes_of ''BUNDLE'')" "cg_content_names g"] by (simp add: ContentGroup_def)
  moreover obtain n ns where "cg_content_names g = n # ns" using ok(2) by (cases "cg_content_names g") auto
  ultimately have "parse_session_line S l parse_start = Inr (Go (parse_start\<lparr> pa_groups := [g] \<rparr>))"
    unfolding parse_session_line_def by (simp add: parse_start_def del: contains.simps bytes_of_Cons fold_simps)
  then show "parse_line S l parse_start = Inr (Go (parse_start\<lparr> pa_groups := [g] \<rparr>))"
    unfolding parse_line_def by (simp add: parse_start_def)
  show "10 \<notin> set l" unfolding l_def using no by simp
qed

lemma lines_parse:
  assumes "sdp_ok S sd"
  shows "\<exists>ls. sdp_lines S sd = Inr ls \<and> ls \<noteq> [] \<and> list_all (\<lambda>l. 10 \<notin> set l \<and> l \<noteq> []) ls \<and>
    parse_lines S ls parse_start = Inr (Go (fold (read_content sd) (sd_contents sd) (parse_start\<lparr> pa_groups := sd_content_groups sd \<rparr>)))"
proof -
  define pa where "pa = parse_start\<lparr> pa_groups := sd_content_groups sd \<rparr>"
  have fresh: "in_section ty (TransportDescription, [], []) pa" for ty
    by (cases ty) (simp_all add: pa_def parse_start_def in_section_def)
  obtain lss where lss: "res_map (content_lines S sd) (sd_contents sd) = Inr lss" "list_all (\<lambda>l. 10 \<notin> set l \<and> l \<noteq> []) (concat lss)"
      "parse_lines S (concat lss) pa = Inr (Go (fold (read_content sd) (sd_contents sd) pa))"
    using contents_parse [of "sd_contents sd" sd pa] assms fresh unfolding sdp_ok_def by blast
  define pre where "pre = [bytes_of ''v=0'', bytes_of ''o=- 0 2 IN IP4 127.0.0.0'', bytes_of ''s=-'', bytes_of ''t=0 0'']"
  define groups where "groups = (if sd_content_groups sd = [] then []
    else [bytes_of ''a=group:BUNDLE'' @ concat (map (\<lambda>n. 32 # n) (cg_content_names (hd (sd_content_groups sd))))])"
  have pre: "list_all keyless pre" "list_all keyless [bytes_of ''a=msid-semantic: WMS'']"
    by (simp_all add: pre_def keyless_constants del: bytes_of_Cons)
  have clean: "list_all (\<lambda>l. 10 \<notin> set l \<and> l \<noteq> []) ls" if "list_all keyless ls" for ls
    using that by (auto simp: list_all_iff keyless_def)
  have g: "parse_lines S groups parse_start = Inr (Go pa) \<and> list_all (\<lambda>l. 10 \<notin> set l \<and> l \<noteq> []) groups"
  proof (cases "sd_content_groups sd")
    case Nil
    then show ?thesis by (simp add: groups_def pa_def parse_start_def)
  next
    case (Cons g gs)
    then have "group_ok g" "gs = []" using assms by (auto simp: sdp_ok_def)
    moreover have "bytes_of ''a=group:BUNDLE'' \<noteq> []" by simp
    ultimately show ?thesis using group_line [of g] Cons by (simp add: groups_def pa_def del: bytes_of_Cons)
  qed
  have "sdp_lines S sd = Inr (pre @ groups @ [bytes_of ''a=msid-semantic: WMS''] @ concat lss)"
    using assms lss(1) append_space by (auto simp: sdp_lines_def pre_def groups_def sdp_ok_def group_ok_def get_group_by_name_def)
  moreover have "parse_lines S (pre @ groups @ [bytes_of ''a=msid-semantic: WMS''] @ concat lss) parse_start =
      Inr (Go (fold (read_content sd) (sd_contents sd) pa))"
    unfolding keyless_lines [OF pre(1)] parse_lines_append [of S groups] g [THEN conjunct1]
    using keyless_lines [OF pre(2)] lss(3) by (simp del: parse_lines.simps)
  moreover have "list_all (\<lambda>l. 10 \<notin> set l \<and> l \<noteq> []) (pre @ groups @ [bytes_of ''a=msid-semantic: WMS''] @ concat lss)"
    using clean [OF pre(1)] clean [OF pre(2)] g lss(2) by simp
  ultimately show ?thesis unfolding pa_def [symmetric] by (auto simp: pre_def)
qed

text \<open>Splitting the text into lines and dropping the carriage returns gives the lines back.\<close>

lemma text_lines:
  assumes "ls \<noteq> []" "list_all (\<lambda>l. 10 \<notin> set l \<and> l \<noteq> []) ls"
  defines "txt \<equiv> concat (map (\<lambda>l. l @ crlf) ls)"
  shows "map (strip_cr txt) (rtc_tokenize S txt 10) = ls"
proof -
  have "fields 10 txt = map (\<lambda>l. l @ [13]) ls @ [[]]"
    unfolding txt_def by (rule fields_lines) (use assms(2) in \<open>auto simp: list_all_iff\<close>)
  then have "rtc_tokenize S txt 10 = map (\<lambda>l. l @ [13]) ls" by (simp add: tokenize comp_def)
  moreover obtain l ls' where "ls = l # ls'" using assms(1) by (cases ls) auto
  then have "contains crlf txt" using contains_crlf [of l] by (simp add: txt_def)
  ultimately show ?thesis by (simp add: strip_cr_def comp_def)
qed

end

subsection \<open>The properties\<close>

lemma sdp_read_back:
  assumes "sdp_library S" "sdp_ok S sd"
  shows "\<exists>txt sd'. sdp_to_string S sd = Inr txt \<and> parse_answer S txt = Inr (Some (True, sd')) \<and>
    sd_content_groups sd' = sd_content_groups sd \<and>
    map (\<lambda>c. (mc_type c, mc_send_streams c)) (sd_contents sd') = map (\<lambda>c. (mc_type c, mc_send_streams c)) (sd_contents sd) \<and>
    (\<forall>c \<in> set (sd_contents sd). get_transport_info (mc_mid c) sd' = map_option kept_transport (get_transport_info (mc_mid c) sd))"
proof -
  define pa where "pa = fold (read_content sd) (sd_contents sd) (parse_start\<lparr> pa_groups := sd_content_groups sd \<rparr>)"
  obtain ls where ls: "sdp_lines S sd = Inr ls" "ls \<noteq> []" "list_all (\<lambda>l. 10 \<notin> set l \<and> l \<noteq> []) ls"
      "parse_lines S ls parse_start = Inr (Go pa)"
    using sdp_library.lines_parse [OF assms] unfolding pa_def by blast
  note back_lines = sdp_library.text_lines [OF assms(1) ls(2,3)]
  have "rtc_tokenize S (concat (map (\<lambda>l. l @ crlf) ls)) 10 \<noteq> []" using back_lines ls(2) by auto
  then have parse: "parse_answer S (concat (map (\<lambda>l. l @ crlf) ls)) = Inr (Some (True, finish_parse pa))"
    using ls(4) back_lines by (simp add: parse_answer_def)
  have fresh: "in_section ty (TransportDescription, [], []) (parse_start\<lparr> pa_groups := sd_content_groups sd \<rparr>)" for ty
    by (cases ty) (simp_all add: parse_start_def in_section_def)
  have dist: "distinct (map mc_type (sd_contents sd))" using assms(2) by (simp add: sdp_ok_def)
  have secs: "\<forall>ty. ty \<notin> mc_type ` set (sd_contents sd) \<longrightarrow> in_section ty (TransportDescription, [], []) pa"
      "\<forall>c \<in> set (sd_contents sd). in_section (mc_type c) (section_result sd c) pa" "pa_contents pa = map mc_type (sd_contents sd)"
      "pa_groups pa = sd_content_groups sd"
    unfolding pa_def using fresh read_contents(4) [OF dist] by (simp_all add: read_contents(1-3) parse_start_def)
  have "sd_content_groups (finish_parse pa) = sd_content_groups sd"
    using secs(4) by (simp add: finish_parse_def Let_def add_transport_info_def parsed_description_def)
  then show ?thesis
    using ls(1) parse finish_streams [OF assms(2) secs(1-3)] finish_transport [OF assms(2) secs(1,2)]
    by (auto simp: sdp_to_string_def)
qed

text \<open>
  C22: Round trip of the SDP.  A description that satisfies \<open>sdp_ok\<close> prints, and the parser of
  \<^verbatim>\<open>set_remote_sdp\<close> reads the text back to the same bundle groups, the same contents with the same
  tracks (sources and source groups included), and for each content the same ICE credentials and
  fingerprint.
\<close>

theorem sdp_round_trip:
  assumes "sdp_library S" "sdp_ok S sd"
  shows "\<exists>txt sd'. sdp_to_string S sd = Inr txt \<and> parse_answer S txt = Inr (Some (True, sd')) \<and>
    sd_content_groups sd' = sd_content_groups sd \<and>
    map (\<lambda>c. (mc_type c, mc_send_streams c)) (sd_contents sd') = map (\<lambda>c. (mc_type c, mc_send_streams c)) (sd_contents sd) \<and>
    (\<forall>c \<in> set (sd_contents sd). get_transport_info (mc_mid c) sd' = map_option kept_transport (get_transport_info (mc_mid c) sd))"
  by (rule sdp_read_back [OF assms])

definition ex_audio :: media_content where
  "ex_audio = add_stream \<lparr> sp_id = bytes_of ''audio_label'', sp_ssrcs = [4711], sp_ssrc_groups = [], sp_cname = bytes_of ''62ij'',
     sp_stream_id = bytes_of ''stream'' \<rparr> AudioContentDescription"

definition ex_video :: media_content where
  "ex_video = add_stream \<lparr> sp_id = bytes_of ''video_label'', sp_ssrcs = [1830137564, 644714241],
     sp_ssrc_groups = [\<lparr> sg_semantics = bytes_of ''FID'', sg_ssrcs = [1830137564, 644714241] \<rparr>], sp_cname = bytes_of ''62ij'',
     sp_stream_id = bytes_of ''stream'' \<rparr> VideoContentDescription"

definition ex_td :: "bytes \<Rightarrow> transport_description" where
  "ex_td mid = \<lparr> td_mid = mid, td_ice_ufrag = bytes_of ''bmOu'', td_ice_pwd = bytes_of ''gN7glSPNwmh1J0uo'',
     td_identity_fingerprint = fingerprint_from_certificate sdp_ref 7, td_connection_role = ACTPASS \<rparr>"

definition ex_sd :: session_description where
  "ex_sd = \<lparr> sd_type = k_offer, sd_contents = [ex_audio, ex_video],
     sd_content_groups = [\<lparr> cg_semantics = bytes_of ''BUNDLE'', cg_content_names = [bytes_of ''audio'', bytes_of ''video''] \<rparr>],
     sd_transport_infos = [ex_td (bytes_of ''audio''), ex_td (bytes_of ''video'')] \<rparr>"

lemma ex_tracks_ok: "tracks_ok (mc_send_streams ex_audio)" "tracks_ok (mc_send_streams ex_video)"
  by (simp_all add: ex_audio_def ex_video_def add_stream_def AudioContentDescription_def VideoContentDescription_def content_of_def
    tracks_ok_def track_ok_def plain_def)

lemma ex_td_ok: "td_ok sdp_ref (ex_td mid)"
  by (auto simp: td_ok_def ex_td_def plain_def)

lemma ex_content:
  "mc_type ex_audio = MEDIA_TYPE_AUDIO" "mc_type ex_video = MEDIA_TYPE_VIDEO" "constructed ex_audio" "constructed ex_video"
  "mc_candidates ex_audio = []" "mc_candidates ex_video = []" "list_all (\<lambda>t. sp_ssrc_groups t = []) (mc_send_streams ex_audio)"
  by (simp_all add: constructed_def ex_audio_def ex_video_def add_stream_def AudioContentDescription_def VideoContentDescription_def
    content_of_def Let_def)

lemma ex_sd_ok: "sdp_ok sdp_ref ex_sd"
proof -
  have "get_transport_info (mc_mid ex_audio) ex_sd = Some (ex_td (bytes_of ''audio''))"
    "get_transport_info (mc_mid ex_video) ex_sd = Some (ex_td (bytes_of ''video''))"
    by (simp_all add: get_transport_info_def ex_sd_def ex_td_def mc_mid_of ex_content)
  then have "content_ok sdp_ref ex_sd ex_audio" "content_ok sdp_ref ex_sd ex_video"
    using ex_tracks_ok ex_td_ok by (simp_all add: content_ok_def ex_content)
  then show ?thesis by (simp add: sdp_ok_def ex_sd_def group_ok_def plain_def ex_content)
qed

theorem sdp_round_trip_witness:
  "\<exists>txt sd'. sdp_to_string sdp_ref ex_sd = Inr txt \<and> parse_answer sdp_ref txt = Inr (Some (True, sd')) \<and>
    sd_content_groups sd' = sd_content_groups ex_sd \<and>
    map (\<lambda>c. (mc_type c, mc_send_streams c)) (sd_contents sd') = map (\<lambda>c. (mc_type c, mc_send_streams c)) (sd_contents ex_sd) \<and>
    (\<forall>c \<in> set (sd_contents ex_sd). get_transport_info (mc_mid c) sd' = map_option kept_transport (get_transport_info (mc_mid c) ex_sd))"
  by (rule sdp_round_trip [OF sdp_std.sdp_library_axioms ex_sd_ok])

subsection \<open>Exceptions\<close>

text \<open>The lines on which a \<^verbatim>\<open>substr\<close> of the parser starts past the end of its string.\<close>

definition short_first_field :: "sdp_lib \<Rightarrow> bytes \<Rightarrow> bool" where
  "short_first_field S l \<longleftrightarrow>
     contains (bytes_of ''m='') l \<and> length (rtc_split S l 32) \<ge> 3 \<and> length (hd (rtc_split S l 32)) < 2 \<or>
     contains (bytes_of ''a=fingerprint'') l \<and> length (rtc_tokenize S l 32) = 2 \<and> length (hd (rtc_tokenize S l 32)) < 14 \<or>
     contains (bytes_of ''a=ssrc:'') l \<and> (\<exists>f1 f2. rtc_tokenize_first S (drop 2 l) 32 = Some (f1, f2) \<and> length f1 < 5)"

lemma contains_length: "contains pat s \<Longrightarrow> length pat \<le> length s"
  using contains_short [of s pat] by (meson not_less)

lemma substr_error: "substr n s = Inl e \<longleftrightarrow> e = Uncaught_exception \<and> length s < n"
  by (auto simp: substr_def)

lemma session_line_error:
  "parse_session_line S l pa = Inl e \<Longrightarrow> e = Uncaught_exception \<and> short_first_field S l"
  by (auto simp: parse_session_line_def res_bind_eq_Inl substr_error short_first_field_def Let_def
    simp del: contains.simps bytes_of_Cons split: if_splits list.splits)

lemma transport_info_error:
  "parse_transport_info S l td = Inl e \<Longrightarrow> e = Uncaught_exception \<and> short_first_field S l"
  by (auto simp: parse_transport_info_def res_bind_eq_Inl substr_error short_first_field_def Let_def
    simp del: contains.simps bytes_of_Cons split: if_splits list.splits option.splits)

lemma ssrc_group_info_error: "parse_ssrc_group_info S l gs \<noteq> Inl e"
proof
  assume e: "parse_ssrc_group_info S l gs = Inl e"
  then have "contains (bytes_of ''a=ssrc-group:'') l" by (auto simp: parse_ssrc_group_info_def split: if_splits)
  then have "2 \<le> length l" using contains_length by fastforce
  then have "substr 2 l = Inr (drop 2 l)" by (simp add: substr_def)
  with e show False
    unfolding parse_ssrc_group_info_def by (auto simp: Let_def split: if_splits list.splits option.splits)
qed

lemma ssrc_info_error:
  assumes "parse_ssrc_info S l infos = Inl e"
  shows "e = Uncaught_exception \<and> short_first_field S l"
proof -
  have c: "contains (bytes_of ''a=ssrc:'') l" using assms by (auto simp: parse_ssrc_info_def split: if_splits)
  then have "substr 2 l = Inr (drop 2 l)" using contains_length [OF c] by (simp add: substr_def)
  note step = assms [unfolded parse_ssrc_info_def this] c
  then obtain f1 f2 where f: "rtc_tokenize_first S (drop 2 l) 32 = Some (f1, f2)"
    by (cases "rtc_tokenize_first S (drop 2 l) 32") (auto simp del: contains.simps bytes_of_Cons)
  moreover have "substr 5 f1 = Inl e"
  proof (cases "substr 5 f1")
    case (Inl e')
    then show ?thesis using step f by (simp del: contains.simps bytes_of_Cons)
  next
    case (Inr ssrc)
    then show ?thesis using step f
      by (simp del: contains.simps bytes_of_Cons split: option.splits prod.splits if_splits list.splits)
  qed
  ultimately show ?thesis using c by (auto simp: substr_error short_first_field_def simp del: contains.simps bytes_of_Cons)
qed

lemma res_bind_error:
  assumes "res_bind m f = Inl e"
  obtains "m = Inl e" | x where "m = Inr x" "f x = Inl e"
  using assms by (cases m) auto

lemma audio_line_error: "parse_audio_line S l pa = Inl e \<Longrightarrow> e = Uncaught_exception \<and> short_first_field S l"
  unfolding parse_audio_line_def Let_def
  by (auto elim!: res_bind_error split: option.splits dest: transport_info_error ssrc_info_error)

lemma video_line_error: "parse_video_line S l pa = Inl e \<Longrightarrow> e = Uncaught_exception \<and> short_first_field S l"
  unfolding parse_video_line_def Let_def
  by (auto elim!: res_bind_error split: option.splits simp: ssrc_group_info_error dest: transport_info_error ssrc_info_error)

lemma line_error: "parse_line S l pa = Inl e \<Longrightarrow> e = Uncaught_exception \<and> short_first_field S l"
  unfolding parse_line_def
  by (auto elim!: res_bind_error split: parse_step.splits if_splits dest: session_line_error audio_line_error video_line_error)

lemma lines_error: "parse_lines S ls pa = Inl e \<Longrightarrow> e = Uncaught_exception \<and> (\<exists>l \<in> set ls. short_first_field S l)"
proof (induction ls arbitrary: pa)
  case (Cons l ls)
  show ?case
  proof (cases "parse_line S l pa")
    case (Inl e')
    then show ?thesis using Cons.prems line_error [OF Inl] by simp
  next
    case (Inr st)
    then show ?thesis using Cons by (cases st) auto
  qed
qed simp

text \<open>
  C23: The parser always returns, or throws \<^verbatim>\<open>std::out_of_range\<close>; and it throws only on a line whose first
  field is shorter than the prefix its \<^verbatim>\<open>substr\<close> skips: \<^verbatim>\<open>m=\<close> (2), \<^verbatim>\<open>a=fingerprint:\<close> (14) or \<^verbatim>\<open>ssrc:\<close> (5).
\<close>

theorem parse_answer_exception:
  assumes "parse_answer S sdp = Inl e"
  shows "e = Uncaught_exception \<and> (\<exists>l \<in> set (map (strip_cr sdp) (rtc_tokenize S sdp 10)). short_first_field S l)"
proof -
  let ?ls = "map (strip_cr sdp) (rtc_tokenize S sdp 10)"
  have "parse_lines S ?ls parse_start = Inl e"
    using assms by (cases "parse_lines S ?ls parse_start") (auto simp: parse_answer_def Let_def split: if_splits parse_step.splits)
  then show ?thesis by (rule lines_error)
qed

definition ex_bad_answer :: bytes where
  "ex_bad_answer = bytes_of ''m=audio 9 RTP'' @ [10] @ bytes_of ''a=fingerprint y''"

lemma ex_bad_answer: "parse_answer sdp_ref ex_bad_answer = Inl Uncaught_exception"
proof -
  have "ex_bad_answer = bytes_of ''m=audio 9 RTP'' @ 10 # bytes_of ''a=fingerprint y''" by (simp add: ex_bad_answer_def)
  moreover have "fields 10 (bytes_of ''m=audio 9 RTP'' @ 10 # bytes_of ''a=fingerprint y'') = [bytes_of ''m=audio 9 RTP'', bytes_of ''a=fingerprint y'']"
    by (subst fields_append) (simp_all add: fields_no_delim del: fields.simps)
  ultimately have "rtc_tokenize sdp_ref ex_bad_answer 10 = [bytes_of ''m=audio 9 RTP'', bytes_of ''a=fingerprint y'']"
    by (simp add: sdp_ref_def)
  moreover have "\<not> contains crlf ex_bad_answer" by (rule contains_no_byte [of 13]) (simp_all add: crlf_def ex_bad_answer_def)
  moreover have "parse_lines sdp_ref [bytes_of ''m=audio 9 RTP'', bytes_of ''a=fingerprint y''] parse_start = Inl Uncaught_exception"
    by code_simp
  ultimately show ?thesis by (simp add: parse_answer_def strip_cr_def del: parse_lines.simps bytes_of_Cons)
qed

theorem parse_answer_exception_witness:
  "parse_answer sdp_ref ex_bad_answer = Inl Uncaught_exception \<and>
   (\<exists>l \<in> set (map (strip_cr ex_bad_answer) (rtc_tokenize sdp_ref ex_bad_answer 10)). short_first_field sdp_ref l)"
  using parse_answer_exception [OF ex_bad_answer] ex_bad_answer by blast

end
