(* ===== verification/Peer_Props.thy ===== *)
theory Peer_Props
  imports Peer_Connection Transport_Props Sdp_Props
begin

text \<open>
  Properties of the peer connection: the offers it makes are descriptions that can be read back,
  and an answer without a fingerprint makes it dereference a null pointer.
\<close>

subsection \<open>Names of the transports\<close>

lemma transport_event_names: "map tt_name (tc_transports (tc_on_transport_event k ev tc)) = map tt_name (tc_transports tc)"
  unfolding transport_event_transports by (rule map_update_same) simp

lemma settle_names: "map tt_name (tc_transports (tc_settle k t' tc)) = map tt_name (tc_transports tc)"
proof -
  have "map tt_name (tc_transports (fold (tc_on_transport_event k) es tc)) = map tt_name (tc_transports tc)" for es and tc :: "'a transport_controller"
    by (induction es arbitrary: tc) (simp_all add: transport_event_names)
  then show ?thesis by (simp add: tc_settle_def Let_def map_update_same)
qed

lemma agent_slot_transports: "tc_transports (tc_agent_slot i ev tc) = tc_transports tc"
proof -
  have "tc_transports (fold tc_on_agent_event evs tc) = tc_transports tc" for evs and tc :: "'a transport_controller"
    by (induction evs arbitrary: tc) (auto simp: tc_on_agent_event_def split: agent_event.splits)
  then show ?thesis by (simp add: tc_agent_slot_def Let_def)
qed

lemma channel_event_names:
  "tc_on_channel_event D i ev tc = Inr tc' \<Longrightarrow> map tt_name (tc_transports tc') = map tt_name (tc_transports tc)"
  by (auto simp: tc_on_channel_event_def tc_call_def agent_slot_transports settle_names map_sum_def Let_def
    elim!: res_bind_InrE split: option.splits sum.splits)

lemma channel_moves_names:
  assumes "tc_channel_moves D i s' tc = Inr tc'"
  shows "map tt_name (tc_transports tc') = map tt_name (tc_transports tc)"
proof -
  have "res_fold (tc_on_channel_event D i) evs tc = Inr tc' \<Longrightarrow> map tt_name (tc_transports tc') = map tt_name (tc_transports tc)" for evs tc
    by (induction evs arbitrary: tc) (auto elim!: res_bind_InrE dest: channel_event_names)
  from this [OF assms [unfolded tc_channel_moves_def Let_def]] show ?thesis by simp
qed

lemma transport_named_names: "map tt_name ts = map tt_name ts' \<Longrightarrow> transport_named name ts = transport_named name ts'"
proof (induction ts arbitrary: ts')
  case (Cons t ts)
  then show ?case by (cases ts') auto
qed auto

lemma remote_params_names:
  "tc_set_remote_ice_params E D mid ps tc = Inr tc' \<Longrightarrow> get_dtls_transport mid' tc' = get_dtls_transport mid' tc"
  unfolding get_dtls_transport_def
  by (rule transport_named_names)
    (auto simp: tc_set_remote_ice_params_def elim!: res_bind_InrE split: option.splits dest: channel_moves_names)

text \<open>
  An answer whose first section is accepted by the parser but has no \<^verbatim>\<open>a=fingerprint\<close> line makes
  \<^verbatim>\<open>set_remote_sdp\<close> dereference the null \<^verbatim>\<open>identity_fingerprint\<close> as soon as the local side has a transport
  of that name.
\<close>

theorem answer_without_fingerprint:
  assumes "parse_answer S sdp = Inr (Some (True, sd))" "sd_contents sd = c # cs"
    "is_bundle (mc_mid c) sd \<longrightarrow> get_first_bundle_mid sd = Inr (mc_mid c)"
    "get_transport_info (mc_mid c) sd = Some td" "td_identity_fingerprint td = None"
    "get_dtls_transport (mc_mid c) (pc_controller pc) \<noteq> None"
    "tc_set_remote_ice_params E D (mc_mid c) \<lparr> ice_ufrag = td_ice_ufrag td, ice_pwd = td_ice_pwd td \<rparr> (pc_controller pc) = Inr tc"
  shows "set_remote_sdp E D S sdp pc = Inl Null_deref"
proof -
  obtain k where "get_dtls_transport (mc_mid c) tc = Some k" using assms(6) remote_params_names [OF assms(7)] by auto
  then have "set_remote_content E D sd c (pc_controller pc) = Inl Null_deref"
    using remote_content_null [OF bundled_first assms(4,5,7)] assms(3) by blast
  then show ?thesis using assms(1,2) by (simp add: set_remote_sdp_def set_remote_description_def)
qed

definition ex_pc :: "bytes peer_connection res" where
  "ex_pc = map_sum id (\<lambda>tc. (PeerConnection_new \<lparr> g_libsrtp_usage_count = 0, sg_up = False, sg_tick = 0 \<rparr>)\<lparr> pc_controller := tc \<rparr>) ex_tc"

definition ex_answer_lines :: "bytes list" where
  "ex_answer_lines = [bytes_of ''m=audio 9 RTP'', bytes_of ''a=ice-ufrag:ab'', bytes_of ''a=ice-pwd:cd'']"

definition ex_answer :: bytes where
  "ex_answer = concat (map (\<lambda>l. l @ crlf) ex_answer_lines)"

definition ex_answer_td :: transport_description where
  "ex_answer_td = TransportDescription\<lparr> td_mid := bytes_of ''audio'', td_ice_ufrag := bytes_of ''ab'', td_ice_pwd := bytes_of ''cd'' \<rparr>"

definition ex_answer_pa :: sdp_parse where
  "ex_answer_pa = parse_start\<lparr> pa_contents := [MEDIA_TYPE_AUDIO], pa_media_type := bytes_of ''audio'', pa_audio_td := ex_answer_td \<rparr>"

lemma ex_answer_parsed: "parse_answer sdp_ref ex_answer = Inr (Some (True, finish_parse ex_answer_pa))"
proof -
  have "parse_lines sdp_ref ex_answer_lines parse_start = Inr (Go ex_answer_pa)" by code_simp
  moreover have "list_all (\<lambda>l. 10 \<notin> set l \<and> l \<noteq> []) ex_answer_lines" by (simp add: ex_answer_lines_def)
  then have lines: "map (strip_cr ex_answer) (rtc_tokenize sdp_ref ex_answer 10) = ex_answer_lines"
    unfolding ex_answer_def by (intro sdp_std.text_lines) (simp_all add: ex_answer_lines_def)
  moreover have "rtc_tokenize sdp_ref ex_answer 10 \<noteq> []" using lines by (auto simp: ex_answer_lines_def)
  ultimately show ?thesis by (simp add: parse_answer_def)
qed

theorem answer_without_fingerprint_witness:
  "\<exists>pc. ex_pc = Inr pc \<and> set_remote_sdp env_ref dtls_ref sdp_ref ex_answer pc = Inl Null_deref"
proof -
  define sd where "sd = finish_parse ex_answer_pa"
  have run: "map_sum id (\<lambda>pc. (get_dtls_transport (bytes_of ''audio'') (pc_controller pc),
      map_sum id (\<lambda>_. ()) (tc_set_remote_ice_params env_ref dtls_ref (bytes_of ''audio'') \<lparr> ice_ufrag = bytes_of ''ab'', ice_pwd = bytes_of ''cd'' \<rparr> (pc_controller pc)))) ex_pc =
      Inr (Some 0, Inr ())" by code_simp
  obtain pc where pc: "ex_pc = Inr pc"
  proof (cases ex_pc)
    case (Inl a)
    show ?thesis using run unfolding Inl by simp
  qed (rule that)
  have d: "get_dtls_transport (bytes_of ''audio'') (pc_controller pc) \<noteq> None" using run unfolding pc by simp
  obtain tc where tc: "tc_set_remote_ice_params env_ref dtls_ref (bytes_of ''audio'') \<lparr> ice_ufrag = bytes_of ''ab'', ice_pwd = bytes_of ''cd'' \<rparr> (pc_controller pc) = Inr tc"
    using run unfolding pc by (cases "tc_set_remote_ice_params env_ref dtls_ref (bytes_of ''audio'') \<lparr> ice_ufrag = bytes_of ''ab'', ice_pwd = bytes_of ''cd'' \<rparr> (pc_controller pc)") auto
  have c: "sd_contents sd = AudioContentDescription # []" "mc_mid AudioContentDescription = bytes_of ''audio''"
    "\<not> is_bundle (bytes_of ''audio'') sd" "get_transport_info (bytes_of ''audio'') sd = Some ex_answer_td"
    "td_identity_fingerprint ex_answer_td = None" "td_ice_ufrag ex_answer_td = bytes_of ''ab''" "td_ice_pwd ex_answer_td = bytes_of ''cd''"
    by (simp_all add: sd_def finish_parse_def ex_answer_pa_def ex_answer_td_def parsed_description_def parse_start_def
      add_transport_info_def get_transport_info_def is_bundle_def get_group_by_name_def mc_mid_def AudioContentDescription_def
      content_of_def TransportDescription_def SessionDescription_def)
  have "set_remote_sdp env_ref dtls_ref sdp_ref ex_answer pc = Inl Null_deref"
    by (rule answer_without_fingerprint [OF ex_answer_parsed [folded sd_def] c(1), of ex_answer_td])
      (use c d tc in \<open>simp_all del: bytes_of_Cons\<close>)
  then show ?thesis using pc by blast
qed

subsection \<open>Offers\<close>

definition without_candidates :: "session_description \<Rightarrow> session_description" where
  "without_candidates sd = sd\<lparr> sd_contents := map (\<lambda>c. c\<lparr> mc_candidates := [] \<rparr>) (sd_contents sd) \<rparr>"

lemma add_candidates_contents:
  "map (\<lambda>c. c\<lparr> mc_candidates := [] \<rparr>) (add_candidates_to mid cs contents) = map (\<lambda>c. c\<lparr> mc_candidates := [] \<rparr>) contents"
  by (induction contents) (simp_all add: add_candidates_def)

lemma tc_event_local_desc:
  "map_option without_candidates (pc_local_desc (pc_on_tc_event ev pc)) = map_option without_candidates (pc_local_desc pc)"
  by (auto simp: pc_on_tc_event_def on_candidate_allocate_done_def without_candidates_def add_candidates_contents
    split: tc_event.splits option.splits)

lemma settle_local_desc: "map_option without_candidates (pc_local_desc (pc_settle tc pc)) = map_option without_candidates (pc_local_desc pc)"
proof -
  have "map_option without_candidates (pc_local_desc (fold pc_on_tc_event evs pc)) = map_option without_candidates (pc_local_desc pc)"
    for evs and pc :: "'a peer_connection"
    by (induction evs arbitrary: pc) (simp_all add: tc_event_local_desc)
  then show ?thesis by (simp add: pc_settle_def)
qed

lemma without_candidates_simps:
  "sd_content_groups (without_candidates sd) = sd_content_groups sd" "sd_transport_infos (without_candidates sd) = sd_transport_infos sd"
  "get_transport_info mid (without_candidates sd) = get_transport_info mid sd"
  "map mc_type (sd_contents (without_candidates sd)) = map mc_type (sd_contents sd)"
  "map (\<lambda>c. (mc_type c, mc_send_streams c)) (sd_contents (without_candidates sd)) = map (\<lambda>c. (mc_type c, mc_send_streams c)) (sd_contents sd)"
  by (simp_all add: without_candidates_def get_transport_info_def)

lemma content_ok_candidates:
  assumes "content_ok S (without_candidates sd) (c\<lparr> mc_candidates := [] \<rparr>)" "list_all (candidate_ok S) (mc_candidates c)"
  shows "content_ok S sd c"
proof -
  have "constructed (c\<lparr> mc_candidates := [] \<rparr>) = constructed c" "mc_mid (c\<lparr> mc_candidates := [] \<rparr>) = mc_mid c"
    by (simp_all add: constructed_def mc_mid_def)
  then show ?thesis using assms by (simp add: content_ok_def without_candidates_simps)
qed

lemma sdp_ok_candidates:
  assumes "sdp_ok S (without_candidates sd)" "\<forall>c \<in> set (sd_contents sd). list_all (candidate_ok S) (mc_candidates c)"
  shows "sdp_ok S sd"
proof -
  have "content_ok S sd c" if "c \<in> set (sd_contents sd)" for c
  proof (rule content_ok_candidates)
    have "c\<lparr> mc_candidates := [] \<rparr> \<in> set (sd_contents (without_candidates sd))" using that by (simp add: without_candidates_def)
    then show "content_ok S (without_candidates sd) (c\<lparr> mc_candidates := [] \<rparr>)" using assms(1) by (simp add: sdp_ok_def)
  qed (use assms(2) that in blast)
  then show ?thesis using assms(1) unfolding sdp_ok_def without_candidates_simps by simp
qed

text \<open>The description that an offer prints.\<close>

definition offer_sources :: "rtc_offer_answer_options \<Rightarrow> 'c peer_connection \<Rightarrow> (media_type \<times> stream_params list) list" where
  "offer_sources options pc =
     (if recv_audio options \<or> send_audio options then [(MEDIA_TYPE_AUDIO, if send_audio options then pc_audio_source pc else [])] else []) @
     (if recv_video options \<or> send_video options then [(MEDIA_TYPE_VIDEO, if send_video options then pc_video_source pc else [])] else [])"

definition offer_td :: "ice_parameters \<Rightarrow> fingerprint \<Rightarrow> media_type \<Rightarrow> transport_description" where
  "offer_td ps fp ty = \<lparr> td_mid = mid_of ty, td_ice_ufrag = ice_ufrag ps, td_ice_pwd = ice_pwd ps, td_identity_fingerprint = Some fp,
     td_connection_role = ACTPASS \<rparr>"

definition media_of :: "media_type \<Rightarrow> media_content" where
  "media_of ty = (case ty of MEDIA_TYPE_AUDIO \<Rightarrow> AudioContentDescription | MEDIA_TYPE_VIDEO \<Rightarrow> VideoContentDescription)"

lemma media_of_simps: "mc_type (media_of ty) = ty" "mc_mid (media_of ty) = mid_of ty" "mc_send_streams (media_of ty) = []"
  "mc_candidates (media_of ty) = []" "constructed (media_of ty)"
  by (cases ty; simp add: media_of_def AudioContentDescription_def VideoContentDescription_def content_of_def mc_mid_def constructed_def Let_def)+

lemma offer_media_eq:
  assumes "fingerprint_from_certificate S n = Some fp" "sd_type sd = k_offer"
  shows "offer_media S send recv mux ps (Some n) source (media_of ty) sd =
    (if recv \<or> send then sd\<lparr> sd_contents := sd_contents sd @ [(media_of ty)\<lparr> mc_direction := get_direction send recv, mc_rtcp_mux := mux,
        mc_send_streams := if send then source else [] \<rparr>], sd_transport_infos := sd_transport_infos sd @ [offer_td ps fp ty] \<rparr>
     else sd)"
proof -
  have mid: "mc_mid ((media_of ty)\<lparr> mc_direction := d, mc_rtcp_mux := m \<rparr>) = mid_of ty" for d m
    using media_of_simps(2) [of ty] by (simp add: mc_mid_def)
  show ?thesis
    using assms mid by (simp add: offer_media_def Let_def set_rtcp_mux_def set_direction_def add_transport_info_params_def add_content_def
      offer_td_def TransportDescription_def add_streams media_of_simps)
qed

definition offer_content :: "rtc_offer_answer_options \<Rightarrow> 'c peer_connection \<Rightarrow> media_type \<Rightarrow> media_content" where
  "offer_content options pc ty = (case ty of
     MEDIA_TYPE_AUDIO \<Rightarrow> (media_of ty)\<lparr> mc_direction := get_direction (send_audio options) (recv_audio options),
       mc_rtcp_mux := use_rtp_mux options, mc_send_streams := if send_audio options then pc_audio_source pc else [] \<rparr>
   | MEDIA_TYPE_VIDEO \<Rightarrow> (media_of ty)\<lparr> mc_direction := get_direction (send_video options) (recv_video options),
       mc_rtcp_mux := use_rtp_mux options, mc_send_streams := if send_video options then pc_video_source pc else [] \<rparr>)"

definition offer_types :: "rtc_offer_answer_options \<Rightarrow> media_type list" where
  "offer_types options = (if recv_audio options \<or> send_audio options then [MEDIA_TYPE_AUDIO] else []) @
     (if recv_video options \<or> send_video options then [MEDIA_TYPE_VIDEO] else [])"

lemma offer_content_simps:
  "mc_type (offer_content options pc ty) = ty" "mc_mid (offer_content options pc ty) = mid_of ty" "mc_candidates (offer_content options pc ty) = []"
  "constructed (offer_content options pc ty)"
proof -
  show t: "mc_type (offer_content options pc ty) = ty" by (cases ty) (simp_all add: offer_content_def media_of_simps)
  then show "mc_mid (offer_content options pc ty) = mid_of ty" by (simp add: mc_mid_of)
  show "mc_candidates (offer_content options pc ty) = []" by (cases ty) (simp_all add: offer_content_def media_of_simps)
  show "constructed (offer_content options pc ty)"
    using media_of_simps(1,5) [of ty] by (cases ty) (simp_all add: constructed_def offer_content_def)
qed

lemma offer_bundle_eq:
  assumes "distinct (map mc_mid (sd_contents sd))" "sd_content_groups sd = []"
  shows "offer_bundle mux sd = sd\<lparr> sd_content_groups := if mux \<and> sd_contents sd \<noteq> []
    then [\<lparr> cg_semantics = bytes_of ''BUNDLE'', cg_content_names = map mc_mid (sd_contents sd) \<rparr>] else [] \<rparr>"
proof -
  have "fold (\<lambda>c. add_content_name (mc_mid c)) cs = fold add_content_name (map mc_mid cs)" for cs
    by (simp add: fold_map comp_def)
  then have "fold (\<lambda>c. add_content_name (mc_mid c)) (sd_contents sd) (ContentGroup (bytes_of ''BUNDLE'')) =
      \<lparr> cg_semantics = bytes_of ''BUNDLE'', cg_content_names = map mc_mid (sd_contents sd) \<rparr>"
    using add_names [of "ContentGroup (bytes_of ''BUNDLE'')" "map mc_mid (sd_contents sd)"] assms(1) by (simp add: ContentGroup_def del: bytes_of_Cons)
  then show ?thesis using assms(2) by (simp add: offer_bundle_def add_group_def Let_def del: bytes_of_Cons)
qed

lemma offer_description_eq:
  assumes "fingerprint_from_certificate S n = Some fp" "pc_certificate pc = Some n"
  shows "offer_description S options ps pc = \<lparr> sd_type = k_offer, sd_contents = map (offer_content options pc) (offer_types options),
    sd_content_groups = (if use_rtp_mux options \<and> offer_types options \<noteq> []
      then [\<lparr> cg_semantics = bytes_of ''BUNDLE'', cg_content_names = map mid_of (offer_types options) \<rparr>] else []),
    sd_transport_infos = map (offer_td ps fp) (offer_types options) \<rparr>"
proof -
  define sd where "sd = offer_media S (send_video options) (recv_video options) (use_rtp_mux options) ps (Some n) (pc_video_source pc)
          (media_of MEDIA_TYPE_VIDEO)
       (offer_media S (send_audio options) (recv_audio options) (use_rtp_mux options) ps (Some n) (pc_audio_source pc)
          (media_of MEDIA_TYPE_AUDIO) (SessionDescription k_offer))"
  have sd: "sd = \<lparr> sd_type = k_offer, sd_contents = map (offer_content options pc) (offer_types options),
      sd_content_groups = [], sd_transport_infos = map (offer_td ps fp) (offer_types options) \<rparr>"
    unfolding sd_def by (simp add: offer_media_eq [OF assms(1)] SessionDescription_def offer_types_def offer_content_def)
  have mids: "map mc_mid (sd_contents sd) = map mid_of (offer_types options)" by (simp add: sd offer_content_simps comp_def)
  have "distinct (map mid_of (offer_types options))" by (simp add: offer_types_def)
  then have "offer_bundle (use_rtp_mux options) sd = sd\<lparr> sd_content_groups := if use_rtp_mux options \<and> sd_contents sd \<noteq> []
    then [\<lparr> cg_semantics = bytes_of ''BUNDLE'', cg_content_names = map mid_of (offer_types options) \<rparr>] else [] \<rparr>"
    using offer_bundle_eq [of sd "use_rtp_mux options"] unfolding mids by (simp add: sd)
  then show ?thesis
    unfolding offer_description_def assms(2) media_of_def [of MEDIA_TYPE_AUDIO, simplified, symmetric]
      media_of_def [of MEDIA_TYPE_VIDEO, simplified, symmetric] sd_def [symmetric]
    by (simp add: sd del: bytes_of_Cons)
qed

lemma offer_transport:
  assumes fp: "fingerprint_from_certificate S n = Some fp" "pc_certificate pc = Some n" and ty: "ty \<in> set (offer_types options)"
  shows "get_transport_info (mid_of ty) (offer_description S options ps pc) = Some (offer_td ps fp ty)"
  using ty by (cases ty) (auto simp: offer_description_eq [OF fp] get_transport_info_def offer_types_def offer_td_def split: if_splits)

lemma offer_ok:
  assumes fp: "fingerprint_from_certificate S n = Some fp" "pc_certificate pc = Some n"
    and ps: "plain (ice_ufrag ps)" "ice_ufrag ps \<noteq> []" "plain (ice_pwd ps)" "ice_pwd ps \<noteq> []"
    and src: "tracks_ok (pc_audio_source pc)" "list_all (\<lambda>t. sp_ssrc_groups t = []) (pc_audio_source pc)" "tracks_ok (pc_video_source pc)"
  shows "sdp_ok S (offer_description S options ps pc)"
proof -
  have td: "td_ok S (offer_td ps fp ty)" for ty using ps fp(1) by (auto simp: td_ok_def offer_td_def)
  have empty: "tracks_ok []" by (simp add: tracks_ok_def)
  have "content_ok S (offer_description S options ps pc) (offer_content options pc ty)" if "ty \<in> set (offer_types options)" for ty
    using offer_transport [OF fp that, of ps] td src empty offer_content_simps [of options pc ty]
    by (cases ty) (simp_all add: content_ok_def offer_content_def)
  moreover have "group_ok \<lparr> cg_semantics = bytes_of ''BUNDLE'', cg_content_names = map mid_of (offer_types options) \<rparr>" if "offer_types options \<noteq> []"
    using that by (auto simp: group_ok_def offer_types_def plain_def)
  moreover have "distinct (map (\<lambda>ty. mc_type (offer_content options pc ty)) (offer_types options))"
    by (simp add: offer_content_simps) (simp add: offer_types_def)
  ultimately show ?thesis
    unfolding sdp_ok_def by (simp add: offer_description_eq [OF fp] comp_def del: bytes_of_Cons)
qed

text \<open>
  C25: Every offer that \<^verbatim>\<open>create_offer\<close> returns is an SDP the parser of this program reads back: one section
  for each medium that is sent or received, with exactly the tracks that are to be sent, one bundle
  group over all of them, and in each section the connection's credentials and the fingerprint of
  its certificate.
\<close>

theorem offer_reads_back:
  assumes lib: "sdp_library S" and offer: "create_offer E D S oe options pc = Inr (txt, pc')"
    and cert: "pc_certificate pc = Some n" "fingerprint_from_certificate S n = Some fp"
    and ps: "plain (ice_ufrag (oe_ice_params oe))" "ice_ufrag (oe_ice_params oe) \<noteq> []"
      "plain (ice_pwd (oe_ice_params oe))" "ice_pwd (oe_ice_params oe) \<noteq> []"
    and src: "tracks_ok (pc_audio_source pc)" "list_all (\<lambda>t. sp_ssrc_groups t = []) (pc_audio_source pc)" "tracks_ok (pc_video_source pc)"
    and cands: "\<forall>sd. pc_local_desc pc' = Some sd \<longrightarrow> (\<forall>c \<in> set (sd_contents sd). list_all (candidate_ok S) (mc_candidates c))"
  shows "\<exists>sd. parse_answer S txt = Inr (Some (True, sd)) \<and>
    map (\<lambda>c. (mc_type c, mc_send_streams c)) (sd_contents sd) = offer_sources options pc \<and>
    (use_rtp_mux options \<and> offer_sources options pc \<noteq> [] \<longrightarrow> (\<exists>g. sd_content_groups sd = [g] \<and> cg_content_names g = map mc_mid (sd_contents sd))) \<and>
    (\<forall>c \<in> set (sd_contents sd). \<exists>td. get_transport_info (mc_mid c) sd = Some td \<and> td_ice_ufrag td = ice_ufrag (oe_ice_params oe) \<and>
      td_ice_pwd td = ice_pwd (oe_ice_params oe) \<and> td_identity_fingerprint td = Some fp)"
proof -
  define sd0 where "sd0 = offer_description S options (oe_ice_params oe) pc"
  obtain sd2 where sd2: "pc_local_desc pc' = Some sd2" "sdp_to_string S sd2 = Inr txt" "without_candidates sd2 = without_candidates sd0"
  proof -
    obtain tc where "pc' = pc_settle tc (pc\<lparr> pc_local_desc := Some sd0 \<rparr>)"
      and "\<exists>sd2. pc_local_desc pc' = Some sd2 \<and> sdp_to_string S sd2 = Inr txt"
      using offer cert(1) unfolding create_offer_def sd0_def Let_def
      by (auto elim!: res_bind_InrE split: prod.splits option.splits)
    then show ?thesis using that settle_local_desc [of tc "pc\<lparr> pc_local_desc := Some sd0 \<rparr>"] by auto
  qed
  have sd0: "sdp_ok S sd0" "without_candidates sd0 = sd0"
    unfolding sd0_def using offer_ok [OF cert(2,1) ps src]
    by (auto simp: offer_description_eq [OF cert(2,1)] without_candidates_def offer_content_def media_of_simps split: media_type.split)
  have "sdp_ok S sd2" using sdp_ok_candidates [of S sd2] sd2(1,3) sd0 cands by auto
  then obtain txt' sd where sd: "sdp_to_string S sd2 = Inr txt'" "parse_answer S txt' = Inr (Some (True, sd))"
      "sd_content_groups sd = sd_content_groups sd2"
      "map (\<lambda>c. (mc_type c, mc_send_streams c)) (sd_contents sd) = map (\<lambda>c. (mc_type c, mc_send_streams c)) (sd_contents sd2)"
      "\<forall>c \<in> set (sd_contents sd2). get_transport_info (mc_mid c) sd = map_option kept_transport (get_transport_info (mc_mid c) sd2)"
    using sdp_read_back [OF lib] by blast
  have src0: "map (\<lambda>c. (mc_type c, mc_send_streams c)) (sd_contents sd2) = offer_sources options pc" "map mc_type (sd_contents sd2) = offer_types options"
    using sd2(3) without_candidates_simps(5) [of sd2] without_candidates_simps(4) [of sd2] sd0(2)
    by (simp_all add: sd0_def offer_description_eq [OF cert(2,1)] offer_content_simps comp_def)
      (auto simp: offer_types_def offer_sources_def offer_content_def media_of_simps)
  have "map mc_mid (sd_contents sd) = map mid_of (map fst (map (\<lambda>c. (mc_type c, mc_send_streams c)) (sd_contents sd)))"
    by (simp add: mc_mid_of comp_def)
  also have "\<dots> = map mid_of (offer_types options)" unfolding sd(4) src0(2) [symmetric] by simp
  finally have mids: "map mc_mid (sd_contents sd) = map mid_of (offer_types options)" .
  have groups: "sd_content_groups sd = sd_content_groups sd0" using sd(3) sd2(3) without_candidates_simps(1) by metis
  have transports: "\<exists>td. get_transport_info (mc_mid c) sd = Some td \<and> td_ice_ufrag td = ice_ufrag (oe_ice_params oe) \<and>
      td_ice_pwd td = ice_pwd (oe_ice_params oe) \<and> td_identity_fingerprint td = Some fp" if "c \<in> set (sd_contents sd)" for c
  proof -
    have "mc_mid c \<in> set (map mid_of (offer_types options))" using that unfolding mids [symmetric] by simp
    then obtain ty where ty: "ty \<in> set (offer_types options)" "mc_mid c = mid_of ty" by auto
    then obtain c2 where c2: "c2 \<in> set (sd_contents sd2)" "mc_mid c2 = mid_of ty" unfolding src0(2) [symmetric] by (auto simp: mc_mid_of)
    have "get_transport_info (mid_of ty) sd2 = Some (offer_td (oe_ice_params oe) fp ty)"
      using offer_transport [OF cert(2,1) ty(1)] sd2(3) without_candidates_simps(3) unfolding sd0_def by metis
    then show ?thesis using sd(5) c2 ty(2) by (auto simp: kept_transport_def offer_td_def)
  qed
  have "sd_content_groups sd0 = [\<lparr> cg_semantics = bytes_of ''BUNDLE'', cg_content_names = map mid_of (offer_types options) \<rparr>]"
    if "use_rtp_mux options" "offer_sources options pc \<noteq> []"
    using that by (auto simp: sd0_def offer_description_eq [OF cert(2,1)] offer_types_def offer_sources_def split: if_splits)
  then show ?thesis using sd(1,2,4) sd2(2) src0(1) groups mids transports by auto
qed

definition ex_offer_env :: offer_env where
  "ex_offer_env = \<lparr> oe_min_port = 10000, oe_max_port = 20000, oe_nets = [],
     oe_ice_params = \<lparr> ice_ufrag = bytes_of ''bmOu'', ice_pwd = bytes_of ''gN7glSPN'' \<rparr> \<rparr>"

definition ex_pull_options :: rtc_offer_answer_options where
  "ex_pull_options = \<lparr> send_audio = True, send_video = True, recv_audio = False, recv_video = False, use_rtp_mux = True,
     use_rtcp_mux = True, dtls_on = True \<rparr>"

definition ex_pull_pc :: "bytes peer_connection" where
  "ex_pull_pc = add_video_source (mc_send_streams ex_video) (add_audio_source (mc_send_streams ex_audio)
     (snd (pc_init (Some 7) (PeerConnection_new \<lparr> g_libsrtp_usage_count = 0, sg_up = False, sg_tick = 0 \<rparr>))))"

theorem offer_reads_back_witness:
  "\<exists>txt pc' sd. create_offer env_ref dtls_ref sdp_ref ex_offer_env ex_pull_options ex_pull_pc = Inr (txt, pc') \<and>
     parse_answer sdp_ref txt = Inr (Some (True, sd)) \<and>
     map (\<lambda>c. (mc_type c, mc_send_streams c)) (sd_contents sd) = offer_sources ex_pull_options ex_pull_pc"
proof -
  define sd0 where "sd0 = offer_description sdp_ref ex_pull_options (oe_ice_params ex_offer_env) ex_pull_pc"
  define pc1 where "pc1 = ex_pull_pc\<lparr> pc_local_desc := Some sd0 \<rparr>"
  have pull: "pc_audio_source ex_pull_pc = mc_send_streams ex_audio" "pc_video_source ex_pull_pc = mc_send_streams ex_video"
    "pc_certificate ex_pull_pc = Some 7" by (simp_all add: ex_pull_pc_def add_audio_source_def add_video_source_def pc_init_def)
  have plain: "plain (ice_ufrag (oe_ice_params ex_offer_env))" "ice_ufrag (oe_ice_params ex_offer_env) \<noteq> []"
      "plain (ice_pwd (oe_ice_params ex_offer_env))" "ice_pwd (oe_ice_params ex_offer_env) \<noteq> []"
    by (simp_all add: ex_offer_env_def plain_def)
  obtain fp where fp: "fingerprint_from_certificate sdp_ref 7 = Some fp" by (auto simp: sdp_ref_def)
  have src: "tracks_ok (pc_audio_source ex_pull_pc)" "list_all (\<lambda>t. sp_ssrc_groups t = []) (pc_audio_source ex_pull_pc)"
    "tracks_ok (pc_video_source ex_pull_pc)" using ex_tracks_ok ex_content(7) by (simp_all add: pull)
  note eq = offer_description_eq [OF fp pull(3), of ex_pull_options "oe_ice_params ex_offer_env", folded sd0_def]
  have run: "map_sum id (\<lambda>(r, tc). tc_out tc) (set_local_description env_ref dtls_ref (oe_min_port ex_offer_env) (oe_max_port ex_offer_env) (oe_nets ex_offer_env)
      (Some (offer_description sdp_ref ex_pull_options (oe_ice_params ex_offer_env) ex_pull_pc)) (pc_controller ex_pull_pc)) = Inr []"
    by code_simp
  obtain r tc where tc: "set_local_description env_ref dtls_ref (oe_min_port ex_offer_env) (oe_max_port ex_offer_env) (oe_nets ex_offer_env)
      (Some sd0) (pc_controller pc1) = Inr (r, tc)" "tc_out tc = []"
    using run unfolding sd0_def [symmetric] by (auto simp: pc1_def map_sum_def split: sum.splits)
  obtain sdp where printed: "sdp_to_string sdp_ref sd0 = Inr sdp"
    using sdp_read_back [OF sdp_std.sdp_library_axioms offer_ok [OF fp pull(3) plain src]] unfolding sd0_def by blast
  have settled: "pc_settle tc pc1 = pc1\<lparr> pc_controller := tc \<rparr>"
    by (simp add: pc_settle_def tc(2))
  have o: "create_offer env_ref dtls_ref sdp_ref ex_offer_env ex_pull_options ex_pull_pc = Inr (sdp, pc1\<lparr> pc_controller := tc \<rparr>)"
    unfolding create_offer_def sd0_def [symmetric] Let_def pc1_def [symmetric] tc(1) res_bind_Inr prod.case pull(3)
      settled by (simp add: printed) (simp add: pc1_def printed)
  have "list_all (candidate_ok sdp_ref) (mc_candidates c)" if "c \<in> set (sd_contents sd0)" for c
    using that by (auto simp: eq offer_content_simps)
  then have "\<forall>sd. pc_local_desc (pc1\<lparr> pc_controller := tc \<rparr>) = Some sd \<longrightarrow> (\<forall>c \<in> set (sd_contents sd). list_all (candidate_ok sdp_ref) (mc_candidates c))"
    by (simp add: pc1_def)
  from offer_reads_back [OF sdp_std.sdp_library_axioms o pull(3) fp plain src this] show ?thesis using o by blast
qed

end
