(* ===== verification/Stream_Props.thy ===== *)
theory Stream_Props
  imports Rtc_Stream Peer_Props
begin

text \<open>
  The stream manager: its maps always lead to live streams, streams of different names do not touch each
  other, and what happens to a stream that is pushed again under the same name.
\<close>

subsection \<open>The invariant\<close>

definition mapped_ok :: "rtc_stream_type \<Rightarrow> (bytes \<rightharpoonup> nat) \<Rightarrow> (nat \<rightharpoonup> 'c rtc_stream) \<Rightarrow> bool" where
  "mapped_ok ty ps h \<longleftrightarrow> (\<forall>name p. ps name = Some p \<longrightarrow>
     (\<exists>s. h p = Some s \<and> rs_type s = ty \<and> rs_name s = name \<and> rs_state s \<noteq> k_failed))"

definition sm_inv :: "'c stream_manager \<Rightarrow> bool" where
  "sm_inv m \<longleftrightarrow> mapped_ok k_push (sm_push m) (sm_heap m) \<and> mapped_ok k_pull (sm_pull m) (sm_heap m) \<and>
     (\<forall>p s. sm_heap m p = Some s \<longrightarrow> p < sm_fresh m \<and> rs_listener s) \<and>
     (\<forall>p pc. sm_dying m p = Some pc \<longrightarrow> p < sm_fresh m \<and> sm_heap m p = None \<and> pc_destroy_timer pc)"

text \<open>The streams of names other than \<open>n\<close>, and the entries of the maps for them.\<close>

definition others :: "bytes \<Rightarrow> 'c stream_manager \<Rightarrow> (nat \<rightharpoonup> 'c rtc_stream) \<times> (bytes \<rightharpoonup> nat) \<times> (bytes \<rightharpoonup> nat)" where
  "others n m = ((\<lambda>p. case sm_heap m p of None \<Rightarrow> None | Some s \<Rightarrow> if rs_name s = n then None else Some s),
     (sm_push m)(n := None), (sm_pull m)(n := None))"

lemma mapped_okD: "mapped_ok ty ps h \<Longrightarrow> ps name = Some p \<Longrightarrow> \<exists>s. h p = Some s \<and> rs_type s = ty \<and> rs_name s = name \<and> rs_state s \<noteq> k_failed"
  by (simp add: mapped_ok_def)

lemma sm_inv_new: "sm_inv (RtcStreamManager_new g)"
  by (simp add: sm_inv_def RtcStreamManager_new_def mapped_ok_def)

lemma sm_deref_live [simp]: "sm_heap m p = Some s \<Longrightarrow> sm_deref p m = Inr s"
  by (simp add: sm_deref_def)

lemma sm_set_sel [simp]:
  "sm_heap (sm_set p s m) = (sm_heap m)(p \<mapsto> s)" "sm_push (sm_set p s m) = sm_push m" "sm_pull (sm_set p s m) = sm_pull m"
  "sm_dying (sm_set p s m) = sm_dying m" "sm_fresh (sm_set p s m) = sm_fresh m" "sm_global (sm_set p s m) = sm_global m"
  by (simp_all add: sm_set_def)

lemma others_cong:
  "sm_heap m' = sm_heap m \<Longrightarrow> sm_push m' = sm_push m \<Longrightarrow> sm_pull m' = sm_pull m \<Longrightarrow> others n m' = others n m"
  by (simp add: others_def)

text \<open>A stream changes, keeping its kind, name and listener.\<close>

lemma set_stream_ok:
  assumes "sm_inv m" "sm_heap m p = Some s" "rs_type s' = rs_type s" "rs_name s' = rs_name s" "rs_listener s'"
    and "rs_state s' = k_failed \<Longrightarrow> rs_state s = k_failed \<or> sm_push m (rs_name s) \<noteq> Some p \<and> sm_pull m (rs_name s) \<noteq> Some p"
  shows "sm_inv (sm_set p s' m)" "others (rs_name s) (sm_set p s' m) = others (rs_name s) m"
proof -
  have "mapped_ok ty ps ((sm_heap m)(p \<mapsto> s'))" if mp: "mapped_ok ty ps (sm_heap m)" and ps: "ps = sm_push m \<or> ps = sm_pull m" for ty ps
    unfolding mapped_ok_def
  proof (intro allI impI)
    fix name q assume q: "ps name = Some q"
    obtain t where t: "sm_heap m q = Some t" "rs_type t = ty" "rs_name t = name" "rs_state t \<noteq> k_failed" using mapped_okD [OF mp q] by blast
    show "\<exists>t. ((sm_heap m)(p \<mapsto> s')) q = Some t \<and> rs_type t = ty \<and> rs_name t = name \<and> rs_state t \<noteq> k_failed"
      using t q ps assms(2-4,6) by (cases "q = p") auto
  qed
  moreover have "sm_dying m p = None" using assms(1,2) unfolding sm_inv_def by (metis option.exhaust option.distinct(1))
  ultimately show "sm_inv (sm_set p s' m)" using assms unfolding sm_inv_def by auto
  show "others (rs_name s) (sm_set p s' m) = others (rs_name s) m"
    using assms(2,4) by (auto simp: others_def)
qed

lemma global_ok [simp]:
  "sm_inv (m\<lparr> sm_global := g \<rparr>) = sm_inv m" "others n (m\<lparr> sm_global := g \<rparr>) = others n m"
  by (simp_all add: sm_inv_def others_def)

subsection \<open>Removal\<close>

lemma mapped_delete:
  assumes "mapped_ok ty ps h" "h q = Some s"
  shows "mapped_ok ty (ps(rs_name s := None)) (h(q := None))" "rs_type s \<noteq> ty \<Longrightarrow> mapped_ok ty ps (h(q := None))"
proof -
  have *: "\<exists>t. h p = Some t \<and> rs_type t = ty \<and> rs_name t = name \<and> rs_state t \<noteq> k_failed \<and> (p = q \<longrightarrow> t = s)" if "ps name = Some p" for name p
    using mapped_okD [OF assms(1) that] assms(2) by auto
  have step: "mapped_ok ty ps' (h(q := None))" if "\<And>name p. ps' name = Some p \<Longrightarrow> ps name = Some p \<and> p \<noteq> q" for ps'
    unfolding mapped_ok_def using * that by (metis fun_upd_apply)
  show "mapped_ok ty (ps(rs_name s := None)) (h(q := None))" by (rule step) (use * in \<open>force split: if_splits\<close>)
  show "rs_type s \<noteq> ty \<Longrightarrow> mapped_ok ty ps (h(q := None))" by (rule step) (use * in blast)
qed

text \<open>Deleting stream \<open>q\<close> with its entry in the map of its kind.\<close>

lemma delete_ok:
  assumes "sm_inv m" "sm_heap m q = Some s" "m0 = (case rs_type s of k_push \<Rightarrow> m\<lparr> sm_push := (sm_push m)(rs_name s := None) \<rparr>
    | k_pull \<Rightarrow> m\<lparr> sm_pull := (sm_pull m)(rs_name s := None) \<rparr>)"
  shows "\<exists>m'. stream_delete q m0 = Inr m' \<and> sm_inv m' \<and> others (rs_name s) m' = others (rs_name s) m \<and> sm_heap m' = (sm_heap m)(q := None) \<and>
    sm_fresh m' = sm_fresh m \<and> sm_push m' = sm_push m0 \<and> sm_pull m' = sm_pull m0"
proof -
  have mp: "mapped_ok k_push (sm_push m) (sm_heap m)" "mapped_ok k_pull (sm_pull m) (sm_heap m)" using assms(1) by (simp_all add: sm_inv_def)
  let ?m = "m0\<lparr> sm_heap := (sm_heap m)(q := None), sm_dying := (sm_dying m)(q \<mapsto> pc_destroy (rs_pc s)) \<rparr>"
  have del: "stream_delete q m0 = Inr ?m" using assms(2,3) by (auto simp: stream_delete_def sm_deref_def split: rtc_stream_type.splits)
  have "mapped_ok k_push (sm_push m0) ((sm_heap m)(q := None)) \<and> mapped_ok k_pull (sm_pull m0) ((sm_heap m)(q := None))"
    using mapped_delete [OF mp(1) assms(2)] mapped_delete [OF mp(2) assms(2)] assms(3) by (cases "rs_type s") auto
  then have "sm_inv ?m" using assms by (auto simp: sm_inv_def pc_destroy_def split: rtc_stream_type.splits)
  moreover have "others (rs_name s) ?m = others (rs_name s) m"
    using assms(2,3) by (auto simp: others_def split: rtc_stream_type.splits)
  moreover have "sm_fresh ?m = sm_fresh m" using assms(3) by (simp split: rtc_stream_type.splits)
  ultimately show ?thesis using del by auto
qed

lemma remove_push_ok:
  assumes "sm_inv m"
  shows "\<exists>m'. remove_push_stream uid n m = Inr m' \<and> sm_inv m' \<and> others n m' = others n m \<and> sm_fresh m' = sm_fresh m \<and>
    (\<forall>p. sm_heap m' p = None \<or> sm_heap m' p = sm_heap m p) \<and>
    (case sm_push m n of None \<Rightarrow> m' = m
     | Some q \<Rightarrow> if map_option rs_uid (sm_heap m q) = Some uid then sm_heap m' = (sm_heap m)(q := None) \<and> sm_push m' n = None else m' = m)"
proof (cases "sm_push m n")
  case None
  then show ?thesis using assms by (simp add: remove_push_stream_def find_push_stream_def)
next
  case (Some q)
  then obtain s where s: "sm_heap m q = Some s" "rs_type s = k_push" "rs_name s = n"
    using assms mapped_okD unfolding sm_inv_def by metis
  show ?thesis
  proof (cases "uid = rs_uid s")
    case True
    from delete_ok [OF assms s(1) refl] s
    obtain m' where m': "stream_delete q (m\<lparr> sm_push := (sm_push m)(n := None) \<rparr>) = Inr m'" "sm_inv m'" "others n m' = others n m"
        "sm_heap m' = (sm_heap m)(q := None)" "sm_fresh m' = sm_fresh m" "sm_push m' = (sm_push m)(n := None)"
      by auto
    then show ?thesis using Some s True by (simp add: remove_push_stream_def find_push_stream_def)
  next
    case False
    then show ?thesis using Some s assms by (simp add: remove_push_stream_def find_push_stream_def)
  qed
qed

lemma remove_pull_ok:
  assumes "sm_inv m"
  shows "\<exists>m'. remove_pull_stream uid n m = Inr m' \<and> sm_inv m' \<and> others n m' = others n m \<and> sm_fresh m' = sm_fresh m \<and>
    (\<forall>p. sm_heap m' p = None \<or> sm_heap m' p = sm_heap m p) \<and>
    (case sm_pull m n of None \<Rightarrow> m' = m
     | Some q \<Rightarrow> if map_option rs_uid (sm_heap m q) = Some uid then sm_heap m' = (sm_heap m)(q := None) \<and> sm_pull m' n = None else m' = m)"
proof (cases "sm_pull m n")
  case None
  then show ?thesis using assms by (simp add: remove_pull_stream_def find_pull_stream_def)
next
  case (Some q)
  then obtain s where s: "sm_heap m q = Some s" "rs_type s = k_pull" "rs_name s = n"
    using assms mapped_okD unfolding sm_inv_def by metis
  show ?thesis
  proof (cases "uid = rs_uid s")
    case True
    from delete_ok [OF assms s(1) refl] s
    obtain m' where m': "stream_delete q (m\<lparr> sm_pull := (sm_pull m)(n := None) \<rparr>) = Inr m'" "sm_inv m'" "others n m' = others n m"
        "sm_heap m' = (sm_heap m)(q := None)" "sm_fresh m' = sm_fresh m" "sm_pull m' = (sm_pull m)(n := None)"
      by auto
    then show ?thesis using Some s True by (simp add: remove_pull_stream_def find_pull_stream_def)
  next
    case False
    then show ?thesis using Some s assms by (simp add: remove_pull_stream_def find_pull_stream_def)
  qed
qed

subsection \<open>Signals\<close>

text \<open>A step that concerns streams of name \<open>n\<close> only and creates none.\<close>

definition sm_step :: "bytes \<Rightarrow> 'c stream_manager \<Rightarrow> 'c stream_manager \<Rightarrow> bool" where
  "sm_step n m m' \<longleftrightarrow> sm_inv m' \<and> others n m' = others n m \<and> sm_fresh m' = sm_fresh m \<and>
     (\<forall>p s'. sm_heap m' p = Some s' \<longrightarrow> (\<exists>s. sm_heap m p = Some s \<and> rs_name s' = rs_name s \<and> rs_type s' = rs_type s))"

lemma sm_step_refl: "sm_inv m \<Longrightarrow> sm_step n m m"
  by (simp add: sm_step_def)

lemma sm_step_trans: "sm_step n m m' \<Longrightarrow> sm_step n m' m'' \<Longrightarrow> sm_step n m m''"
  unfolding sm_step_def by metis

lemma sm_step_inv: "sm_step n m m' \<Longrightarrow> sm_inv m'"
  by (simp add: sm_step_def)

lemma set_stream_step:
  assumes "sm_inv m" "sm_heap m p = Some s" "rs_type s' = rs_type s" "rs_name s' = rs_name s" "rs_listener s'"
    and "rs_state s' = k_failed \<Longrightarrow> rs_state s = k_failed \<or> sm_push m (rs_name s) \<noteq> Some p \<and> sm_pull m (rs_name s) \<noteq> Some p"
  shows "sm_step (rs_name s) m (sm_set p s' m)"
  using set_stream_ok [OF assms] assms(2-4) by (auto simp: sm_step_def)

lemma remove_steps:
  assumes "sm_inv m"
  shows "\<exists>m'. remove_push_stream uid n m = Inr m' \<and> sm_step n m m'" "\<exists>m'. remove_pull_stream uid n m = Inr m' \<and> sm_step n m m'"
  using remove_push_ok [OF assms, of uid n] remove_pull_ok [OF assms, of uid n] unfolding sm_step_def by (metis option.distinct(1))+

lemma call_step:
  assumes "sm_inv m" "sm_heap m p = Some s" "sm_call p f m = Inr (r, evs, m1)"
  shows "sm_step (rs_name s) m m1" "\<exists>s1. sm_heap m1 p = Some s1"
proof -
  obtain pc' where m1: "m1 = (sm_set p (s\<lparr> rs_pc := pc' \<rparr>) m)\<lparr> sm_global := tc_global (pc_controller pc') \<rparr>"
    using assms(2,3) by (auto simp: sm_call_def res_bind_eq_Inr)
  have "rs_listener s" using assms(1,2) by (simp add: sm_inv_def)
  then have "sm_step (rs_name s) m (sm_set p (s\<lparr> rs_pc := pc' \<rparr>) m)" using assms by (intro set_stream_step) auto
  then show "sm_step (rs_name s) m m1" by (simp add: sm_step_def m1)
  show "\<exists>s1. sm_heap m1 p = Some s1" by (simp add: m1)
qed

lemma failed_step:
  assumes "sm_inv m" "sm_heap m p = Some s" "s2 = s\<lparr> rs_state := k_failed, rs_ice_timeout := False \<rparr>"
  shows "\<exists>m'. sm_on_connection_state p k_failed (sm_set p s2 m) = Inr m' \<and> sm_step (rs_name s) m m'"
proof -
  let ?m = "sm_set p s2 m" and ?n = "rs_name s"
  let ?map = "case rs_type s of k_push \<Rightarrow> sm_push m | k_pull \<Rightarrow> sm_pull m"
  have s2: "rs_type s2 = rs_type s" "rs_name s2 = ?n" "rs_uid s2 = rs_uid s" "rs_listener s2" "rs_pc s2 = rs_pc s"
    using assms by (simp_all add: sm_inv_def)
  have eq: "sm_on_connection_state p k_failed ?m = (case rs_type s of k_push \<Rightarrow> remove_push_stream (rs_uid s) ?n ?m
      | k_pull \<Rightarrow> remove_pull_stream (rs_uid s) ?n ?m)" using s2 by (simp add: sm_on_connection_state_def split: rtc_stream_type.split)
  have wrong_kind: "sm_push m ?n = Some p \<Longrightarrow> rs_type s = k_push" "sm_pull m ?n = Some p \<Longrightarrow> rs_type s = k_pull"
    using assms(1,2) mapped_okD unfolding sm_inv_def by fastforce+
  show ?thesis
  proof (cases "?map ?n = Some p")
    case False
    then have "sm_push m ?n \<noteq> Some p \<and> sm_pull m ?n \<noteq> Some p" using wrong_kind by (cases "rs_type s") auto
    then have st: "sm_step ?n m ?m" using assms s2 by (intro set_stream_step) auto
    show ?thesis using remove_steps [OF sm_step_inv [OF st], of "rs_uid s" ?n] st sm_step_trans unfolding eq
      by (cases "rs_type s") fastforce+
  next
    case True
    define m0 where "m0 = (case rs_type s of k_push \<Rightarrow> m\<lparr> sm_push := (sm_push m)(?n := None) \<rparr> | k_pull \<Rightarrow> m\<lparr> sm_pull := (sm_pull m)(?n := None) \<rparr>)"
    have "sm_on_connection_state p k_failed ?m = stream_delete p m0"
      unfolding eq using True s2(3,5) assms(2)
      by (cases "rs_type s") (simp_all add: m0_def remove_push_stream_def remove_pull_stream_def find_push_stream_def find_pull_stream_def
        stream_delete_def sm_deref_def sm_set_def)
    then show ?thesis using delete_ok [OF assms(1,2) m0_def] unfolding sm_step_def by (auto split: if_splits)
  qed
qed

lemma stream_state_step:
  assumes "sm_inv m" "sm_heap m p = Some s"
  shows "\<exists>m'. stream_on_connection_state p st m = Inr m' \<and> sm_step (rs_name s) m m'"
proof -
  have l: "rs_listener s" using assms by (simp add: sm_inv_def)
  consider "rs_state s = st" | "rs_state s \<noteq> st" "st = k_failed" | "rs_state s \<noteq> st" "st \<noteq> k_failed" by blast
  then show ?thesis
  proof cases
    case 1
    then show ?thesis using assms by (simp add: stream_on_connection_state_def sm_step_refl)
  next
    case 2
    then show ?thesis using failed_step [OF assms refl] assms(2) l by (simp add: stream_on_connection_state_def)
  next
    case 3
    define s2 where "s2 = (if st = k_connected then s\<lparr> rs_state := st, rs_ice_timeout := False \<rparr> else s\<lparr> rs_state := st \<rparr>)"
    have "sm_step (rs_name s) m (sm_set p s2 m)" using assms l 3 by (intro set_stream_step) (auto simp: s2_def split: if_splits)
    moreover have "stream_on_connection_state p st m = Inr (sm_set p s2 m)"
      using 3 assms(2) l by (simp add: stream_on_connection_state_def s2_def sm_on_connection_state_def Let_def)
    ultimately show ?thesis by blast
  qed
qed

lemma mapped_name:
  assumes "sm_inv m"
  shows "find_push_stream n m = Some q \<Longrightarrow> \<exists>s. sm_heap m q = Some s \<and> rs_name s = n"
    "find_pull_stream n m = Some q \<Longrightarrow> \<exists>s. sm_heap m q = Some s \<and> rs_name s = n"
  using assms mapped_okD unfolding sm_inv_def find_push_stream_def find_pull_stream_def by metis+

lemma send_steps:
  assumes "sm_inv m" "sm_heap m q = Some s"
  shows "stream_send_rtp D data q m = Inr m' \<Longrightarrow> sm_step (rs_name s) m m'" "stream_send_rtcp D data q m = Inr m' \<Longrightarrow> sm_step (rs_name s) m m'"
  using call_step [OF assms] by (auto simp: stream_send_rtp_def stream_send_rtcp_def res_bind_eq_Inr)

lemma packet_steps:
  assumes "sm_inv m" "sm_heap m p = Some s"
  shows "sm_on_rtp_packet_received D p data m = Inr m' \<Longrightarrow> sm_step (rs_name s) m m'"
    "sm_on_rtcp_packet_received D p data m = Inr m' \<Longrightarrow> sm_step (rs_name s) m m'"
proof -
  have send: "sm_step (rs_name s) m m'" if oq: "oq = find_push_stream (rs_name s) m \<or> oq = find_pull_stream (rs_name s) m"
      and "(case oq of None \<Rightarrow> Inr m | Some q \<Rightarrow> f q) = Inr m'" and "\<And>q. f q = stream_send_rtp D data q m \<or> f q = stream_send_rtcp D data q m" for oq f m'
  proof (cases oq)
    case None
    then show ?thesis using that(2) sm_step_refl [OF assms(1)] by simp
  next
    case (Some q)
    then obtain t where t: "sm_heap m q = Some t" "rs_name t = rs_name s" using mapped_name [OF assms(1), of "rs_name s" q] oq by auto
    then show ?thesis using send_steps [OF assms(1) t(1), of D data m'] that(2) that(3) [of q] Some by auto
  qed
  show "sm_on_rtp_packet_received D p data m = Inr m' \<Longrightarrow> sm_step (rs_name s) m m'"
    using assms(2) sm_step_refl [OF assms(1)] send [of "find_pull_stream (rs_name s) m" "\<lambda>q. stream_send_rtp D data q m"]
    by (cases "rs_type s") (simp_all add: sm_on_rtp_packet_received_def)
  show "sm_on_rtcp_packet_received D p data m = Inr m' \<Longrightarrow> sm_step (rs_name s) m m'"
    using assms(2) send [of "find_pull_stream (rs_name s) m" "\<lambda>q. stream_send_rtcp D data q m"]
      send [of "find_push_stream (rs_name s) m" "\<lambda>q. stream_send_rtcp D data q m"]
    by (cases "rs_type s") (simp_all add: sm_on_rtcp_packet_received_def)
qed

lemma event_step:
  assumes "sm_inv m" "stream_on_pc_event D p ev m = Inr m'" "\<And>s. sm_heap m p = Some s \<Longrightarrow> rs_name s = n"
  shows "sm_step n m m'"
proof (cases "sm_heap m p")
  case None
  then show ?thesis using assms by (simp add: stream_on_pc_event_def sm_step_refl)
next
  case (Some s)
  then have "rs_listener s" using assms(1) by (simp add: sm_inv_def)
  moreover have "sm_step n m m1" if "stream_on_connection_state p st m = Inr m1" for st m1
    using stream_state_step [OF assms(1) Some, of st] assms(3) [OF Some] that by auto
  ultimately show ?thesis using assms(2) assms(3) [OF Some] packet_steps [OF assms(1) Some] Some
    by (cases ev) (auto simp: stream_on_pc_event_def)
qed

lemma replay_step:
  assumes "stream_replay D p evs m = Inr m'" "sm_inv m" "\<And>s. sm_heap m p = Some s \<Longrightarrow> rs_name s = n"
  shows "sm_step n m m'"
  using assms unfolding stream_replay_def
proof (induction evs arbitrary: m)
  case Nil
  then show ?case by (simp add: sm_step_refl)
next
  case (Cons ev evs)
  then obtain m1 where m1: "stream_on_pc_event D p ev m = Inr m1" "res_fold (stream_on_pc_event D p) evs m1 = Inr m'"
    by (auto simp: res_bind_eq_Inr)
  have st: "sm_step n m m1" using event_step [OF Cons.prems(2) m1(1) Cons.prems(3)] by blast
  then have "rs_name s1 = n" if "sm_heap m1 p = Some s1" for s1 using that Cons.prems(3) unfolding sm_step_def by metis
  then have "sm_step n m1 m'" using Cons.IH [OF m1(2) sm_step_inv [OF st]] by blast
  then show ?case using st sm_step_trans by blast
qed

lemma invoke_step:
  assumes "stream_invoke D p f m = Inr (r, m')" "sm_inv m" "sm_heap m p = Some s"
  shows "sm_step (rs_name s) m m'"
proof -
  obtain evs m1 where m1: "sm_call p f m = Inr (r, evs, m1)" "stream_replay D p evs m1 = Inr m'"
    using assms(1) by (auto simp: stream_invoke_def res_bind_eq_Inr)
  have st: "sm_step (rs_name s) m m1" using call_step [OF assms(2,3) m1(1)] by blast
  then have "rs_name s1 = rs_name s" if "sm_heap m1 p = Some s1" for s1 using that assms(3) unfolding sm_step_def by fastforce
  then show ?thesis using replay_step [OF m1(2) sm_step_inv [OF st]] st sm_step_trans by blast
qed

subsection \<open>Commands\<close>

text \<open>A new stream \<open>s\<close> that is in no map yet.\<close>

lemma new_stream_ok:
  assumes "sm_inv m" "rs_listener s"
  shows "sm_inv ((sm_set (sm_fresh m) s m)\<lparr> sm_fresh := Suc (sm_fresh m) \<rparr>)"
    "others (rs_name s) ((sm_set (sm_fresh m) s m)\<lparr> sm_fresh := Suc (sm_fresh m) \<rparr>) = others (rs_name s) m"
proof -
  have new: "sm_heap m (sm_fresh m) = None" using assms(1) unfolding sm_inv_def by (metis less_irrefl option.exhaust)
  have dy: "sm_dying m (sm_fresh m) = None" using assms(1) unfolding sm_inv_def by (metis less_irrefl option.exhaust)
  have "mapped_ok ty ps ((sm_heap m)(sm_fresh m \<mapsto> s))" if "mapped_ok ty ps (sm_heap m)" for ty ps
    using that new unfolding mapped_ok_def by (metis fun_upd_apply option.distinct(1))
  then show "sm_inv ((sm_set (sm_fresh m) s m)\<lparr> sm_fresh := Suc (sm_fresh m) \<rparr>)"
    using assms new dy unfolding sm_inv_def by (auto simp: less_Suc_eq)
  show "others (rs_name s) ((sm_set (sm_fresh m) s m)\<lparr> sm_fresh := Suc (sm_fresh m) \<rparr>) = others (rs_name s) m"
    using new by (auto simp: others_def)
qed

subsection \<open>An offer raises no signal\<close>

definition only_candidates :: "tc_event list \<Rightarrow> bool" where
  "only_candidates es \<longleftrightarrow> (\<forall>e\<in>set es. \<exists>name component cs. e = Tc_candidate_allocate_done name component cs)"

lemma local_content_out: "set_local_content D desc c tc = Inr tc' \<Longrightarrow> tc_out tc' = tc_out tc"
  by (auto simp: set_local_content_def add_transport_def Let_def res_bind_eq_Inr split: if_splits option.splits)

lemma local_contents_out: "res_fold (set_local_content D desc) cs tc = Inr tc' \<Longrightarrow> tc_out tc' = tc_out tc"
  by (rule res_fold_invariant [where P = "\<lambda>t. tc_out t = tc_out tc"]) (auto simp: local_content_out)

lemma gather_one_out: "ch_out (gather_one E lo hi net s) = ch_out s"
  by (simp add: gather_one_def Let_def split: prod.splits)

lemma gathering_events:
  "\<exists>cs. drop (length (ch_out s)) (ch_out (gathering_candidate E lo hi nets s)) \<in> {[], [Ev_candidate_allocate_done cs]}"
proof -
  have "ch_out (fold (gather_one E lo hi) nets s) = ch_out s" by (induction nets arbitrary: s) (simp_all add: gather_one_out)
  then show ?thesis by (auto simp: gathering_candidate_def emit_def Let_def)
qed

lemma candidate_event_out:
  assumes "tc_on_channel_event D i (Ev_candidate_allocate_done cs) tc = Inr tc'"
  shows "\<exists>es. tc_out tc' = tc_out tc @ es \<and> only_candidates es"
proof -
  define tc1 where "tc1 = tc_agent_slot i (Ev_candidate_allocate_done cs) tc"
  have "tc_out tc' = tc_out tc1"
    using assms by (auto simp: tc_on_channel_event_def tc1_def [symmetric] tc_call_def dtls_slot_def tc_settle_def Let_def split: option.splits)
  moreover have "\<exists>es. tc_out tc1 = tc_out tc @ es \<and> only_candidates es"
    by (simp add: tc1_def tc_agent_slot_def agent_on_event_def tc_on_agent_event_def tc_emit_def only_candidates_def Let_def)
  ultimately show ?thesis by simp
qed

lemma gather_out:
  assumes "tc_gather E D lo hi nets tc = Inr tc'"
  shows "\<exists>es. tc_out tc' = tc_out tc @ es \<and> only_candidates es"
  using assms unfolding tc_gather_def
proof (rule res_fold_invariant [where P = "\<lambda>t. \<exists>es. tc_out t = tc_out tc @ es \<and> only_candidates es"])
  show "\<exists>es. tc_out tc = tc_out tc @ es \<and> only_candidates es" by (simp add: only_candidates_def)
  fix i t t'
  assume IH: "\<exists>es. tc_out t = tc_out tc @ es \<and> only_candidates es"
    and step: "tc_channel_moves D i (gathering_candidate E lo hi nets (ac_channel (ag_channels (tc_agent t) ! i))) t = Inr t'"
  obtain cs where "drop (length (ch_out (ac_channel (ag_channels (tc_agent t) ! i))))
      (ch_out (gathering_candidate E lo hi nets (ac_channel (ag_channels (tc_agent t) ! i)))) \<in> {[], [Ev_candidate_allocate_done cs]}"
    using gathering_events by metis
  then have "\<exists>es. tc_out t' = tc_out t @ es \<and> only_candidates es"
    using step candidate_event_out by (fastforce simp: tc_channel_moves_def Let_def res_bind_eq_Inr only_candidates_def)
  then show "\<exists>es. tc_out t' = tc_out tc @ es \<and> only_candidates es" using IH by (fastforce simp: only_candidates_def)
qed

lemma settle_candidates: "only_candidates es \<Longrightarrow> pc_out (fold pc_on_tc_event es pc) = pc_out pc"
proof (induction es arbitrary: pc)
  case (Cons e es)
  then obtain name component cs where e: "e = Tc_candidate_allocate_done name component cs" by (auto simp: only_candidates_def)
  have "pc_out (pc_on_tc_event e pc) = pc_out pc" by (simp add: e pc_on_tc_event_def on_candidate_allocate_done_def split: option.split)
  then show ?case using Cons by (simp add: only_candidates_def)
qed simp

lemma create_offer_quiet:
  assumes "create_offer E D S oe options pc = Inr (txt, pc')"
  shows "pc_out pc' = pc_out pc"
proof (cases "dtls_on options \<and> pc_certificate pc = None")
  case True
  then show ?thesis using assms by (simp add: create_offer_def)
next
  case False
  define sd where "sd = offer_description S options (oe_ice_params oe) pc"
  obtain r tc where tc: "set_local_description E D (oe_min_port oe) (oe_max_port oe) (oe_nets oe) (Some sd) (pc_controller pc) = Inr (r, tc)"
      "pc' = pc_settle tc (pc\<lparr> pc_local_desc := Some sd \<rparr>)"
    using assms False by (auto simp: create_offer_def Let_def sd_def res_bind_eq_Inr split: option.splits if_splits)
  obtain es where "tc_out tc = tc_out (pc_controller pc) @ es" "only_candidates es"
    using tc(1) gather_out local_contents_out by (fastforce simp: set_local_description_def res_bind_eq_Inr)
  then show ?thesis using tc(2) by (simp add: pc_settle_def settle_candidates)
qed

lemma offer_invoke:
  assumes "stream_invoke D p (create_offer E D S oe options) m = Inr (offer, m')" "sm_inv m" "sm_heap m p = Some s"
  shows "sm_inv m'" "others (rs_name s) m' = others (rs_name s) m" "sm_fresh m' = sm_fresh m" "sm_push m' = sm_push m" "sm_pull m' = sm_pull m"
    "\<exists>pc. sm_heap m' = (sm_heap m)(p \<mapsto> s\<lparr> rs_pc := pc \<rparr>)"
proof -
  obtain pc' where pc': "create_offer E D S oe options (lend (sm_global m) (rs_pc s)) = Inr (offer, pc')"
      "stream_replay D p (drop (length (pc_out (rs_pc s))) (pc_out pc'))
         ((sm_set p (s\<lparr> rs_pc := pc' \<rparr>) m)\<lparr> sm_global := tc_global (pc_controller pc') \<rparr>) = Inr m'"
    using assms(1,3) by (auto simp: stream_invoke_def sm_call_def res_bind_eq_Inr)
  have "pc_out pc' = pc_out (rs_pc s)" using create_offer_quiet [OF pc'(1)] by (simp add: lend_def)
  then have m': "m' = (sm_set p (s\<lparr> rs_pc := pc' \<rparr>) m)\<lparr> sm_global := tc_global (pc_controller pc') \<rparr>"
    using pc'(2) by (simp add: stream_replay_def)
  show "sm_fresh m' = sm_fresh m" "sm_push m' = sm_push m" "sm_pull m' = sm_pull m" "\<exists>pc. sm_heap m' = (sm_heap m)(p \<mapsto> s\<lparr> rs_pc := pc \<rparr>)"
    by (auto simp: m')
  show "sm_inv m'" "others (rs_name s) m' = others (rs_name s) m" using invoke_step [OF assms] by (simp_all add: sm_step_def)
qed

lemma map_new_ok:
  assumes "sm_inv m" "sm_heap m p = Some s" "rs_state s \<noteq> k_failed"
  shows "rs_type s = k_push \<Longrightarrow> sm_inv (m\<lparr> sm_push := (sm_push m)(rs_name s \<mapsto> p) \<rparr>)"
    "rs_type s = k_pull \<Longrightarrow> sm_inv (m\<lparr> sm_pull := (sm_pull m)(rs_name s \<mapsto> p) \<rparr>)"
  using assms by (simp_all add: sm_inv_def mapped_ok_def)

text \<open>What a new stream is like after its offer: a live, not failed stream in the map.\<close>

lemma push_ok:
  fixes m :: "'c stream_manager"
  assumes "sm_inv m" "create_push_stream E D S oe uid name audio video log_id cert m = Inr (r, offer, m')"
  shows "sm_inv m'" "others name m' = others name m" "r = 0" "sm_fresh m' = Suc (sm_fresh m)" "sm_pull m' = sm_pull m"
    "sm_push m' = (sm_push m)(name \<mapsto> sm_fresh m)"
    "\<exists>s. sm_heap m' = (sm_heap m)(sm_fresh m \<mapsto> s) \<and> rs_type s = k_push \<and> rs_uid s = uid \<and> rs_name s = name \<and> rs_state s = k_new \<and> rs_ice_timeout s"
proof -
  let ?p = "sm_fresh m"
  define s :: "'c rtc_stream" where "s = stream_start cert (register_listener (RtcStream_new k_push (sm_global m) uid name audio video log_id))"
  define m1 where "m1 = (sm_set ?p s m)\<lparr> sm_fresh := Suc ?p \<rparr>"
  have s: "rs_listener s" "rs_name s = name" "rs_type s = k_push" "rs_state s = k_new" "rs_uid s = uid" "rs_ice_timeout s"
    by (simp_all add: s_def stream_start_def register_listener_def RtcStream_new_def)
  obtain m2 where m2: "stream_invoke D ?p (create_offer E D S oe (push_offer_options s)) m1 = Inr (offer, m2)"
      "r = 0" "m' = m2\<lparr> sm_push := (sm_push m2)(name \<mapsto> ?p) \<rparr>"
    using assms(2) by (auto simp: create_push_stream_def Let_def s_def m1_def res_bind_eq_Inr)
  have i1: "sm_inv m1" "others name m1 = others name m" using new_stream_ok [OF assms(1) s(1)] s(2) by (simp_all add: m1_def)
  have h1: "sm_heap m1 ?p = Some s" by (simp add: m1_def)
  note o = offer_invoke [OF m2(1) i1(1) h1]
  obtain pc where h2: "sm_heap m2 = (sm_heap m1)(?p \<mapsto> s\<lparr> rs_pc := pc \<rparr>)" using o(6) by blast
  then show "sm_inv m'" using map_new_ok(1) [OF o(1), of ?p "s\<lparr> rs_pc := pc \<rparr>"] s m2(3) by simp
  show "others name m' = others name m" using o(2) i1(2) s(2) m2(3) by (simp add: others_def)
  show "r = 0" "sm_fresh m' = Suc ?p" "sm_pull m' = sm_pull m" "sm_push m' = (sm_push m)(name \<mapsto> ?p)"
    using o m2 by (simp_all add: m1_def)
  show "\<exists>s. sm_heap m' = (sm_heap m)(?p \<mapsto> s) \<and> rs_type s = k_push \<and> rs_uid s = uid \<and> rs_name s = name \<and> rs_state s = k_new \<and> rs_ice_timeout s"
    using h2 s m2(3) by (intro exI [of _ "s\<lparr> rs_pc := pc \<rparr>"]) (simp add: m1_def)
qed

lemma pull_ok:
  fixes m :: "'c stream_manager"
  assumes "sm_inv m" "create_pull_stream E D S oe uid name audio video log_id cert m = Inr (r, offer, m')"
  shows "sm_inv m'" "others name m' = others name m"
proof -
  have "sm_inv m' \<and> others name m' = others name m"
  proof (cases "find_push_stream name m")
    case None
    then show ?thesis using assms by (simp add: create_pull_stream_def)
  next
    case (Some q)
    obtain push where push: "sm_heap m q = Some push" using mapped_name(1) [OF assms(1) Some] by blast
    obtain m0 where m0: "remove_pull_stream uid name m = Inr m0" "sm_inv m0" "others name m0 = others name m"
      using remove_pull_ok [OF assms(1)] by blast
    define s :: "'c rtc_stream" where "s = stream_start cert (pull_add_sources (get_source (bytes_of ''audio'') push) (get_source (bytes_of ''video'') push)
      (register_listener (RtcStream_new k_pull (sm_global m0) uid name audio video log_id)))"
    define m1 where "m1 = (sm_set (sm_fresh m0) s m0)\<lparr> sm_fresh := Suc (sm_fresh m0) \<rparr>"
    have s: "rs_listener s" "rs_name s = name" "rs_type s = k_pull" "rs_state s = k_new"
      by (simp_all add: s_def stream_start_def register_listener_def RtcStream_new_def pull_add_sources_def)
    obtain m2 where m2: "stream_invoke D (sm_fresh m0) (create_offer E D S oe (pull_offer_options s)) m1 = Inr (offer, m2)"
        "m' = m2\<lparr> sm_pull := (sm_pull m2)(name \<mapsto> sm_fresh m0) \<rparr>"
      using assms(2) Some push m0(1) by (auto simp: create_pull_stream_def Let_def s_def m1_def res_bind_eq_Inr)
    have i1: "sm_inv m1" "others name m1 = others name m0" using new_stream_ok [OF m0(2) s(1)] s(2) by (simp_all add: m1_def)
    have h1: "sm_heap m1 (sm_fresh m0) = Some s" by (simp add: m1_def)
    note o = offer_invoke [OF m2(1) i1(1) h1]
    obtain pc where h2: "sm_heap m2 = (sm_heap m1)(sm_fresh m0 \<mapsto> s\<lparr> rs_pc := pc \<rparr>)" using o(6) by blast
    then have "sm_inv m'" using map_new_ok(2) [OF o(1), of "sm_fresh m0" "s\<lparr> rs_pc := pc \<rparr>"] s m2(2) by simp
    moreover have "others name m' = others name m" using o(2) i1(2) m0(3) s(2) m2(2) by (simp add: others_def)
    ultimately show ?thesis by blast
  qed
  then show "sm_inv m'" "others name m' = others name m" by simp_all
qed

lemma answer_ok:
  assumes "sm_inv m" "set_answer E D S uid name answer ty m = Inr (r, m')"
  shows "sm_inv m'" "others name m' = others name m"
proof -
  let ?q = "if ty = bytes_of ''push'' then find_push_stream name m else find_pull_stream name m"
  have "sm_inv m' \<and> others name m' = others name m"
  proof (cases ?q)
    case None
    then show ?thesis using assms by (simp add: set_answer_def)
  next
    case (Some q)
    then obtain s where s: "sm_heap m q = Some s" "rs_name s = name" using mapped_name [OF assms(1)] by (metis (full_types))
    then show ?thesis using assms Some invoke_step [OF _ assms(1) s(1)]
      by (fastforce simp: set_answer_def sm_step_def res_bind_eq_Inr split: if_splits)
  qed
  then show "sm_inv m'" "others name m' = others name m" by simp_all
qed

lemma timeout_ok:
  assumes "sm_inv m" "sm_heap m p = Some s"
  shows "\<exists>m'. ice_timeout_cb p m = Inr m' \<and> sm_inv m' \<and> others (rs_name s) m' = others (rs_name s) m"
  using remove_steps [OF assms(1), of "rs_uid s" "rs_name s"] assms
  by (cases "rs_type s") (auto simp: ice_timeout_cb_def sm_on_stream_exception_def sm_step_def)

lemma dying_ok:
  assumes "sm_inv m" "dying_timer E p m = Inr m'"
  shows "sm_inv m'" "others n m' = others n m"
  using assms by (auto simp: dying_timer_def sm_inv_def others_def res_bind_eq_Inr split: option.splits if_splits)

subsection \<open>Runs\<close>

text \<open>The steps of a manager, each with the stream name it is about.\<close>

inductive sm_acts :: "ice_env \<Rightarrow> 'c dtls_env \<Rightarrow> sdp_lib \<Rightarrow> bytes \<Rightarrow> 'c stream_manager \<Rightarrow> 'c stream_manager \<Rightarrow> bool"
  for E :: ice_env and D :: "'c dtls_env" and S :: sdp_lib where
  act_push: "create_push_stream E D S oe uid n audio video log_id cert m = Inr (r, offer, m') \<Longrightarrow> sm_acts E D S n m m'"
| act_pull: "create_pull_stream E D S oe uid n audio video log_id cert m = Inr (r, offer, m') \<Longrightarrow> sm_acts E D S n m m'"
| act_stop_push: "stop_push uid n m = Inr (r, m') \<Longrightarrow> sm_acts E D S n m m'"
| act_stop_pull: "stop_pull uid n m = Inr (r, m') \<Longrightarrow> sm_acts E D S n m m'"
| act_answer: "set_answer E D S uid n answer ty m = Inr (r, m') \<Longrightarrow> sm_acts E D S n m m'"
| act_channel: "sm_heap m p = Some s \<Longrightarrow> rs_name s = n \<Longrightarrow> stream_channel_moves D p i ch m = Inr m' \<Longrightarrow> sm_acts E D S n m m'"
| act_timeout: "sm_heap m p = Some s \<Longrightarrow> rs_ice_timeout s \<Longrightarrow> rs_name s = n \<Longrightarrow> ice_timeout_cb p m = Inr m' \<Longrightarrow> sm_acts E D S n m m'"
| act_dying: "dying_timer E p m = Inr m' \<Longrightarrow> sm_acts E D S n m m'"

inductive sm_reaches :: "ice_env \<Rightarrow> 'c dtls_env \<Rightarrow> sdp_lib \<Rightarrow> 'c stream_manager \<Rightarrow> bool"
  for E :: ice_env and D :: "'c dtls_env" and S :: sdp_lib where
  sm_start: "sm_reaches E D S (RtcStreamManager_new g)"
| sm_next: "sm_reaches E D S m \<Longrightarrow> sm_acts E D S n m m' \<Longrightarrow> sm_reaches E D S m'"

lemma stop_ok:
  assumes "sm_inv m"
  shows "\<exists>m'. stop_push uid n m = Inr (0, m') \<and> sm_step n m m'" "\<exists>m'. stop_pull uid n m = Inr (0, m') \<and> sm_step n m m'"
  using remove_steps [OF assms, of uid n] by (auto simp: stop_push_def stop_pull_def)

lemma acts_ok:
  assumes "sm_acts E D S n m m'" "sm_inv m"
  shows "sm_inv m' \<and> others n m' = others n m"
  using assms(1)
proof cases
  case (act_stop_push uid r)
  then show ?thesis using stop_ok(1) [OF assms(2), of uid n] by (auto simp: sm_step_def)
next
  case (act_stop_pull uid r)
  then show ?thesis using stop_ok(2) [OF assms(2), of uid n] by (auto simp: sm_step_def)
next
  case (act_channel p s i ch)
  then obtain u where "stream_invoke D p (pc_channel_moves D i ch) m = Inr (u, m')" by (auto simp: stream_channel_moves_def res_bind_eq_Inr)
  from invoke_step [OF this assms(2) act_channel(1)] show ?thesis using act_channel(2) by (simp add: sm_step_def)
next
  case (act_timeout p s)
  then show ?thesis using timeout_ok [OF assms(2) act_timeout(1)] by auto
next
  case (act_push oe uid audio video log_id cert r offer)
  then show ?thesis using push_ok(1,2) [OF assms(2) act_push] by simp
next
  case (act_pull oe uid audio video log_id cert r offer)
  then show ?thesis using pull_ok [OF assms(2) act_pull] by simp
next
  case (act_answer uid answer ty r)
  then show ?thesis using answer_ok [OF assms(2) act_answer] by simp
next
  case (act_dying p)
  then show ?thesis using dying_ok [OF assms(2) act_dying] by simp
qed

lemma reaches_inv: "sm_reaches E D S m \<Longrightarrow> sm_inv m"
  by (induction rule: sm_reaches.induct) (auto simp: sm_inv_new dest: acts_ok)

text \<open>
  C26: In every run of the stream manager its two maps lead only to live streams of the right kind and
  name whose connection has not failed; every live stream has the manager as listener; and a peer
  connection waits for its destruction timer only after its stream is gone.  Therefore no command,
  failure or timeout of a stream, in whatever order they come, touches a deleted stream: stopping and the
  ICE timeout of any live stream return.
\<close>

theorem stream_manager_invariant:
  assumes "sm_reaches E D S m"
  shows "sm_inv m \<and> (\<forall>uid n. (\<exists>m'. stop_push uid n m = Inr (0, m')) \<and> (\<exists>m'. stop_pull uid n m = Inr (0, m'))) \<and>
    (\<forall>p s. sm_heap m p = Some s \<longrightarrow> (\<exists>m'. ice_timeout_cb p m = Inr m'))"
  using stop_ok [OF reaches_inv [OF assms]] timeout_ok [OF reaches_inv [OF assms]] reaches_inv [OF assms] by blast

text \<open>
  C27: Streams of different names do not interfere, and the push and the pull stream of a name obey stop and
  answer commands of the user who created them only.  A step about the name \<open>n\<close> (a command for it, an
  event of one of its streams, media relayed between them) leaves every stream of another name, with its
  peer connection, and the entries of the maps for other names exactly as they were.  Stopping with the
  stream's user id deletes it.  Stopping with another user id changes nothing, although the command answers 0;
  an answer with another user id is refused with -1 and changes nothing.
\<close>

theorem streams_isolated:
  assumes "sm_reaches E D S m" "sm_acts E D S n m m'"
  shows "others n m' = others n m \<and>
    (\<forall>p s uid. sm_push m n = Some p \<and> sm_heap m p = Some s \<longrightarrow>
       (if uid = rs_uid s then \<exists>m1. stop_push uid n m = Inr (0, m1) \<and> sm_push m1 n = None \<and> sm_heap m1 p = None
        else stop_push uid n m = Inr (0, m) \<and>
          (\<forall>answer. set_answer E D S uid n answer (bytes_of ''push'') m = Inr (- 1, m)))) \<and>
    (\<forall>p s uid. sm_pull m n = Some p \<and> sm_heap m p = Some s \<longrightarrow>
       (if uid = rs_uid s then \<exists>m1. stop_pull uid n m = Inr (0, m1) \<and> sm_pull m1 n = None \<and> sm_heap m1 p = None
        else stop_pull uid n m = Inr (0, m) \<and>
          (\<forall>answer ty. ty \<noteq> bytes_of ''push'' \<longrightarrow> set_answer E D S uid n answer ty m = Inr (- 1, m))))"
proof (intro conjI allI impI)
  note inv = reaches_inv [OF assms(1)]
  show "others n m' = others n m" using acts_ok [OF assms(2) inv] by simp
  show "if uid = rs_uid s then \<exists>m1. stop_push uid n m = Inr (0, m1) \<and> sm_push m1 n = None \<and> sm_heap m1 p = None
        else stop_push uid n m = Inr (0, m) \<and> (\<forall>answer. set_answer E D S uid n answer (bytes_of ''push'') m = Inr (- 1, m))"
    if "sm_push m n = Some p \<and> sm_heap m p = Some s" for p s uid
    using that remove_push_ok [OF inv, of uid n]
    by (auto simp: stop_push_def set_answer_def find_push_stream_def)
  show "if uid = rs_uid s then \<exists>m1. stop_pull uid n m = Inr (0, m1) \<and> sm_pull m1 n = None \<and> sm_heap m1 p = None
        else stop_pull uid n m = Inr (0, m) \<and>
          (\<forall>answer ty. ty \<noteq> bytes_of ''push'' \<longrightarrow> set_answer E D S uid n answer ty m = Inr (- 1, m))"
    if "sm_pull m n = Some p \<and> sm_heap m p = Some s" for p s uid
    using that remove_pull_ok [OF inv, of uid n]
    by (auto simp: stop_pull_def set_answer_def find_pull_stream_def)
qed

text \<open>
  C28: Pushing again under the same name and user id loses the old stream and lets it take the new one
  with it.  The second \<^verbatim>\<open>create_push_stream\<close> overwrites the entry of the map without deleting the first
  stream, whose ICE timer keeps running; when it fires, the manager removes by name and user id and so
  deletes the new stream, whatever its state, while the old one stays alive and unreachable.
\<close>

theorem stale_timeout_kills_replacement:
  assumes "sm_reaches E D S m"
    and "create_push_stream E D S oe uid n audio video log_id cert m = Inr (r1, offer1, m1)"
    and "create_push_stream E D S oe' uid n audio' video' log_id' cert' m1 = Inr (r2, offer2, m2)"
  shows "\<exists>old m3. sm_push m2 n = Some (Suc (sm_fresh m)) \<and> sm_heap m2 (Suc (sm_fresh m)) \<noteq> None \<and>
    sm_heap m2 (sm_fresh m) = Some old \<and> rs_ice_timeout old \<and> ice_timeout_cb (sm_fresh m) m2 = Inr m3 \<and>
    sm_push m3 n = None \<and> sm_heap m3 (Suc (sm_fresh m)) = None \<and> sm_heap m3 (sm_fresh m) = Some old"
proof -
  note p1 = push_ok [OF reaches_inv [OF assms(1)] assms(2)]
  note p2 = push_ok [OF p1(1) assms(3)]
  obtain s1 where s1: "sm_heap m1 = (sm_heap m)(sm_fresh m \<mapsto> s1)" "rs_type s1 = k_push" "rs_uid s1 = uid" "rs_name s1 = n" "rs_state s1 = k_new"
      "rs_ice_timeout s1" using p1(7) by blast
  obtain s2 where s2: "sm_heap m2 = (sm_heap m1)(sm_fresh m1 \<mapsto> s2)" "rs_uid s2 = uid" using p2(7) by blast
  have h: "sm_heap m2 (sm_fresh m) = Some s1" "sm_heap m2 (Suc (sm_fresh m)) = Some s2" "sm_push m2 n = Some (Suc (sm_fresh m))"
    using s1(1) s2(1) p1(4) p2(6) by simp_all
  have l: "rs_listener s1" using p2(1) h(1) by (simp add: sm_inv_def)
  obtain m3 where m3: "remove_push_stream uid n m2 = Inr m3" "sm_heap m3 = (sm_heap m2)(Suc (sm_fresh m) := None)" "sm_push m3 n = None"
    using remove_push_ok [OF p2(1), of uid n] h s2(2) by auto
  have "ice_timeout_cb (sm_fresh m) m2 = Inr m3"
    using h(1) s1 l m3(1) by (simp add: ice_timeout_cb_def sm_on_stream_exception_def)
  then show ?thesis using h m3 s1(6) by simp
qed

subsection \<open>Examples\<close>

text \<open>A run in which user 7 pushes a stream twice; without a certificate the offer is empty.\<close>

definition ex_push :: "u64 \<Rightarrow> bytes \<Rightarrow> bytes stream_manager \<Rightarrow> (int \<times> bytes \<times> bytes stream_manager) res" where
  "ex_push uid n = create_push_stream env_ref dtls_ref sdp_ref
     \<lparr> oe_min_port = 0, oe_max_port = 0, oe_nets = [], oe_ice_params = \<lparr> ice_ufrag = [], ice_pwd = [] \<rparr> \<rparr> uid n True True 0 None"

lemma ex_push_result:
  fixes m :: "bytes stream_manager"
  shows "\<exists>m'. ex_push uid n m = Inr (0, [], m')"
  by (auto simp: ex_push_def create_push_stream_def stream_invoke_def sm_call_def stream_start_def register_listener_def RtcStream_new_def
    pc_init_def PeerConnection_new_def create_offer_def push_offer_options_def lend_def stream_replay_def sm_deref_def Let_def)

definition ex_manager :: "bytes stream_manager" where
  "ex_manager = RtcStreamManager_new \<lparr> g_libsrtp_usage_count = 0, sg_up = False, sg_tick = 0 \<rparr>"

lemma ex_push_acts:
  assumes "ex_push uid n m = Inr (r, offer, m')"
  shows "sm_acts env_ref dtls_ref sdp_ref n m m'"
  using act_push [OF assms [unfolded ex_push_def]] .

theorem stream_manager_invariant_witness:
  "\<exists>m1. ex_push 7 (bytes_of ''a'') ex_manager = Inr (0, [], m1) \<and> sm_inv m1 \<and> (\<exists>m'. stop_push 7 (bytes_of ''a'') m1 = Inr (0, m'))"
proof -
  obtain m1 where m1: "ex_push 7 (bytes_of ''a'') ex_manager = Inr (0, [], m1)" using ex_push_result by blast
  have "sm_reaches env_ref dtls_ref sdp_ref m1"
    using sm_next [OF sm_start ex_push_acts [OF m1 [unfolded ex_manager_def]]] .
  from stream_manager_invariant [OF this] show ?thesis using m1 by blast
qed

theorem streams_isolated_witness:
  "\<exists>m1 m2. ex_push 7 (bytes_of ''a'') ex_manager = Inr (0, [], m1) \<and> ex_push 8 (bytes_of ''b'') m1 = Inr (0, [], m2) \<and>
     others (bytes_of ''b'') m2 = others (bytes_of ''b'') m1 \<and> stop_push 9 (bytes_of ''a'') m1 = Inr (0, m1) \<and>
     (\<exists>m3. stop_push 7 (bytes_of ''a'') m1 = Inr (0, m3) \<and> sm_push m3 (bytes_of ''a'') = None)"
proof -
  obtain m1 where m1: "ex_push 7 (bytes_of ''a'') ex_manager = Inr (0, [], m1)" using ex_push_result by blast
  obtain m2 where m2: "ex_push 8 (bytes_of ''b'') m1 = Inr (0, [], m2)" using ex_push_result by blast
  obtain m4 where m4: "ex_push 7 (bytes_of ''a'') m1 = Inr (0, [], m4)" using ex_push_result by blast
  have r0: "sm_reaches env_ref dtls_ref sdp_ref ex_manager" unfolding ex_manager_def by (rule sm_start)
  have r: "sm_reaches env_ref dtls_ref sdp_ref m1" using sm_next [OF r0 ex_push_acts [OF m1]] .
  note p = push_ok [OF reaches_inv [OF r0] m1 [unfolded ex_push_def]]
  obtain s where s: "sm_heap m1 (sm_fresh ex_manager) = Some s" "rs_uid s = 7" using p(7) by auto
  have "sm_push m1 (bytes_of ''a'') = Some (sm_fresh ex_manager)" using p(6) by simp
  then have stop: "if u = rs_uid s then \<exists>m3. stop_push u (bytes_of ''a'') m1 = Inr (0, m3) \<and> sm_push m3 (bytes_of ''a'') = None \<and>
        sm_heap m3 (sm_fresh ex_manager) = None
      else stop_push u (bytes_of ''a'') m1 = Inr (0, m1) \<and>
        (\<forall>answer. set_answer env_ref dtls_ref sdp_ref u (bytes_of ''a'') answer (bytes_of ''push'') m1 = Inr (- 1, m1))" for u
    using streams_isolated [OF r ex_push_acts [OF m4], THEN conjunct2, THEN conjunct1, rule_format, of _ s] s(1) by blast
  have "stop_push 9 (bytes_of ''a'') m1 = Inr (0, m1)" using stop [of 9] s(2) by simp
  moreover have "\<exists>m3. stop_push 7 (bytes_of ''a'') m1 = Inr (0, m3) \<and> sm_push m3 (bytes_of ''a'') = None"
    using stop [of 7] s(2) by auto
  moreover have "others (bytes_of ''b'') m2 = others (bytes_of ''b'') m1"
    using streams_isolated [OF r ex_push_acts [OF m2]] by simp
  ultimately show ?thesis using m1 m2 by blast
qed

theorem stale_timeout_kills_replacement_witness:
  "\<exists>m1 m2 m3. ex_push 7 (bytes_of ''a'') ex_manager = Inr (0, [], m1) \<and> ex_push 7 (bytes_of ''a'') m1 = Inr (0, [], m2) \<and>
     sm_push m2 (bytes_of ''a'') = Some 1 \<and> ice_timeout_cb 0 m2 = Inr m3 \<and> sm_push m3 (bytes_of ''a'') = None \<and> sm_heap m3 0 \<noteq> None"
proof -
  obtain m1 where m1: "ex_push 7 (bytes_of ''a'') ex_manager = Inr (0, [], m1)" using ex_push_result by blast
  obtain m2 where m2: "ex_push 7 (bytes_of ''a'') m1 = Inr (0, [], m2)" using ex_push_result by blast
  have "sm_reaches env_ref dtls_ref sdp_ref ex_manager" unfolding ex_manager_def by (rule sm_start)
  from stale_timeout_kills_replacement [OF this m1 [unfolded ex_push_def] m2 [unfolded ex_push_def]]
  show ?thesis using m1 m2 by (auto simp: ex_manager_def RtcStreamManager_new_def)
qed

end
