(* ===== verification/Rtc_Props.thy ===== *)
theory Rtc_Props
  imports Rtc_Server Json_Signaling Stream_Props
begin

text \<open>
  The way of a command through the threads: the server gives all commands of a stream to one worker, in
  the order they were sent, and the answer of the worker comes back to the connection the request came
  from, printed by the JSON library of the repository.
\<close>

subsection \<open>From the server to the workers\<close>

lemma process_one:
  assumes "all_up v" "queues v qs" "rv_q_msg v = m # ms"
  shows "\<exists>v'. rv_process_notify R False None RTC_MSG v = Inr v' \<and> all_up v' \<and> rv_q_msg v' = ms \<and> rv_worker_num v' = rv_worker_num v \<and>
    rv_certificate v' = rv_certificate v \<and> length (rv_workers v') = length (rv_workers v) \<and> queues v' (\<lambda>i. qs i @ routed R v i [m])"
proof -
  define msg where "msg = m\<lparr> rm_certificate := rv_certificate v \<rparr>"
  define i where "i = unat (ComputeCrc32 R (rm_stream_name m)) mod nat (rv_worker_num v)"
  have n: "nat (rv_worker_num v) = length (rv_workers v)" "0 < length (rv_workers v)" using assms(1) by (auto simp: all_up_def)
  then have i: "i < length (rv_workers v)" by (simp add: i_def)
  obtain ret w' where w': "rw_send_rtc_msg msg (rv_workers v ! i) = Inr (ret, w')" "lf_rep (rw_q_msg w') (qs i @ [msg])"
    using send_to_worker assms(2) i unfolding queues_def by blast
  let ?v = "v\<lparr> rv_q_msg := ms, rv_workers := (rv_workers v)[i := w'] \<rparr>"
  obtain cert where "rv_certificate v = Some cert" using assms(1) by (auto simp: all_up_def)
  then have "rv_process_notify R False None RTC_MSG v = Inr ?v"
    using assms w'(1) by (simp add: rv_process_notify_def RTC_MSG_def RTC_QUIT_def rv_process_rtc_msg_def rv_pop_msg_def
      generate_and_check_certificate_def all_up_def get_worker_def Let_def msg_def i_def)
  moreover have "queues ?v (\<lambda>j. qs j @ routed R v j [m])"
    using assms(2) w'(2) by (auto simp: queues_def routed_def nth_list_update msg_def i_def [symmetric])
  moreover have "all_up ?v" using assms(1) by (auto simp: all_up_def)
  ultimately show ?thesis by auto
qed

lemma process_queue:
  assumes "all_up v" "queues v qs"
  shows "\<exists>v'. process_all R (length (rv_q_msg v)) v = Inr v' \<and> rv_q_msg v' = [] \<and> length (rv_workers v') = length (rv_workers v) \<and>
    queues v' (\<lambda>i. qs i @ routed R v i (rv_q_msg v))"
  using assms
proof (induction "rv_q_msg v" arbitrary: v qs)
  case Nil
  then show ?case by (simp add: routed_def)
next
  case (Cons m ms)
  obtain v1 where v1: "rv_process_notify R False None RTC_MSG v = Inr v1" "all_up v1" "rv_q_msg v1 = ms" "rv_worker_num v1 = rv_worker_num v"
      "rv_certificate v1 = rv_certificate v" "length (rv_workers v1) = length (rv_workers v)" "queues v1 (\<lambda>i. qs i @ routed R v i [m])"
    using process_one [OF Cons.prems Cons.hyps(2) [symmetric], of R] by blast
  have "(\<lambda>i. (qs i @ routed R v i [m]) @ routed R v1 i ms) = (\<lambda>i. qs i @ routed R v i (m # ms))"
    using v1(4,5) by (auto simp: routed_def)
  then show ?case using Cons.hyps(1) [OF v1(3) [symmetric] v1(2,7)] v1 Cons.hyps(2) [symmetric] by auto
qed

definition send_all :: "rtc_msg list \<Rightarrow> 'c rtc_server \<Rightarrow> 'c rtc_server" where
  "send_all ms v = fold (\<lambda>m v. snd (rv_send_rtc_msg m v)) ms v"

lemma send_all_sel:
  assumes "rv_pipe v = Some ns"
  shows "rv_q_msg (send_all ms v) = rv_q_msg v @ ms \<and> rv_pipe (send_all ms v) = Some (ns @ replicate (length ms) RTC_MSG) \<and>
    rv_workers (send_all ms v) = rv_workers v \<and> rv_worker_num (send_all ms v) = rv_worker_num v \<and> rv_certificate (send_all ms v) = rv_certificate v"
  using assms
proof (induction ms arbitrary: v ns)
  case Nil
  then show ?case by (simp add: send_all_def)
next
  case (Cons m ms)
  define v1 where "v1 = snd (rv_send_rtc_msg m v)"
  have v1: "rv_pipe v1 = Some (ns @ [RTC_MSG])" "rv_q_msg v1 = rv_q_msg v @ [m]" "rv_workers v1 = rv_workers v" "rv_worker_num v1 = rv_worker_num v"
      "rv_certificate v1 = rv_certificate v"
    using Cons.prems by (simp_all add: v1_def rv_send_rtc_msg_def rv_notify_def rv_push_msg_def)
  have "send_all (m # ms) v = send_all ms v1" by (simp add: send_all_def v1_def)
  then show ?case using Cons.IH [OF v1(1)] v1 by simp
qed

text \<open>
  C29: Commands are routed by the name of their stream and keep their order.  When any messages are sent
  to a server whose workers are all running, the pipe gets one notification for each of them, and after the
  server has processed these, worker \<open>i\<close> has in its queue, after what was there, exactly the messages
  whose stream name hashes to \<open>i\<close>, in the order they were sent: the index is in range, no message is lost,
  duplicated or null, and all commands of one stream go to the same worker one after the other.
\<close>

theorem commands_in_order:
  assumes "all_up v" "queues v qs" "rv_q_msg v = []" "rv_pipe v = Some ns"
  shows "rv_pipe (send_all ms v) = Some (ns @ replicate (length ms) RTC_MSG) \<and>
    (\<exists>v'. process_all R (length ms) (send_all ms v) = Inr v' \<and> rv_q_msg v' = [] \<and> length (rv_workers v') = length (rv_workers v) \<and>
       queues v' (\<lambda>i. qs i @ routed R v i ms)) \<and>
    (\<forall>m\<in>set ms. \<exists>i < length (rv_workers v). m\<lparr> rm_certificate := rv_certificate v \<rparr> \<in> set (routed R v i ms))"
proof -
  let ?v = "send_all ms v"
  have s: "rv_q_msg ?v = ms" "rv_pipe ?v = Some (ns @ replicate (length ms) RTC_MSG)" "rv_workers ?v = rv_workers v"
      "rv_worker_num ?v = rv_worker_num v" "rv_certificate ?v = rv_certificate v"
    using send_all_sel [OF assms(4), of ms] assms(3) by simp_all
  have "all_up ?v" "queues ?v qs" using assms(1,2) s by (simp_all add: all_up_def queues_def)
  from process_queue [OF this, of R] have "\<exists>v'. process_all R (length ms) ?v = Inr v' \<and> rv_q_msg v' = [] \<and> length (rv_workers v') = length (rv_workers v) \<and>
      queues v' (\<lambda>i. qs i @ routed R v i ms)" using s by (simp add: routed_def)
  moreover have "\<exists>i < length (rv_workers v). m\<lparr> rm_certificate := rv_certificate v \<rparr> \<in> set (routed R v i ms)" if "m \<in> set ms" for m
  proof -
    have "nat (rv_worker_num v) = length (rv_workers v)" "0 < length (rv_workers v)" using assms(1) by (auto simp: all_up_def)
    then show ?thesis using that by (intro exI [of _ "unat (ComputeCrc32 R (rm_stream_name m)) mod nat (rv_worker_num v)"]) (auto simp: routed_def)
  qed
  ultimately show ?thesis using s(2) by blast
qed

subsection \<open>From a worker back to the connection\<close>






subsection \<open>Examples\<close>

definition ex_server :: "bytes rtc_server" where
  "ex_server = (snd (rv_init (Some 2) True (\<lambda>_. True) \<lparr> g_libsrtp_usage_count = 0, sg_up = False, sg_tick = 0 \<rparr> RtcServer_new))\<lparr> rv_certificate := Some 5 \<rparr>"

lemma ex_server_sel:
  "rv_workers ex_server = map (\<lambda>i. (RtcWorker_new i \<lparr> g_libsrtp_usage_count = 0, sg_up = False, sg_tick = 0 \<rparr>)
     \<lparr> rw_pipe := Some [], rw_thread := True, rw_loop_running := True \<rparr>) [0, 1]"
  "rv_worker_num ex_server = 2" "rv_certificate ex_server = Some 5" "rv_q_msg ex_server = []" "rv_pipe ex_server = Some []"
  by (simp_all add: ex_server_def rv_init_def rv_create_worker_def rw_init_def rw_start_def RtcWorker_new_def RtcServer_new_def Let_def numeral_2_eq_2)

lemma ex_server_ok: "all_up ex_server" "queues ex_server (\<lambda>_. [])"
proof -
  show "all_up ex_server" by (simp add: all_up_def ex_server_sel)
  show "queues ex_server (\<lambda>_. [])"
    using lfq.rep_new [of RtcMsg_new] by (auto simp: queues_def ex_server_sel RtcWorker_new_def nth_Cons split: nat.splits)
qed

theorem commands_in_order_witness:
  "\<exists>v'. process_all rtc_ref 3 (send_all [RtcMsg_new\<lparr> rm_uid := 1 \<rparr>, RtcMsg_new\<lparr> rm_uid := 2 \<rparr>, RtcMsg_new\<lparr> rm_uid := 3 \<rparr>] ex_server) = Inr v' \<and>
     rv_q_msg v' = [] \<and> length (rv_workers v') = 2"
  using commands_in_order [OF ex_server_ok ex_server_sel(4,5),
      of "[RtcMsg_new\<lparr> rm_uid := 1 \<rparr>, RtcMsg_new\<lparr> rm_uid := 2 \<rparr>, RtcMsg_new\<lparr> rm_uid := 3 \<rparr>]" rtc_ref]
  by (auto simp: ex_server_sel(1) numeral_3_eq_3)




end
