(* ===== verification/Event_Loop.thy ===== *)
theory Event_Loop
  imports Prelude
begin

text \<open>
  The watchers of the event loop (\<^verbatim>\<open>src/base/event_loop.*\<close>) over libev: an I/O watcher with the events it is
  registered for, and a timer.  libev itself is not part of the repository; of an \<^verbatim>\<open>ev_io\<close> the model has the
  active flag and the event mask, of an \<^verbatim>\<open>ev_timer\<close> the active flag and the delay, and \<^verbatim>\<open>ev_io_stop\<close> leaves the
  mask as it is.
\<close>

type_synonym mask = "32 word"

definition EL_READ :: mask where "EL_READ = 1"
definition EL_WRITE :: mask where "EL_WRITE = 2"
definition EV_NONE :: mask where "EV_NONE = 0"
definition EV_READ :: mask where "EV_READ = 1"
definition EV_WRITE :: mask where "EV_WRITE = 2"

lemmas mask_defs = EL_READ_def EL_WRITE_def EV_NONE_def EV_READ_def EV_WRITE_def

definition tran_to_ev_mask :: "mask \<Rightarrow> mask" where
  "tran_to_ev_mask m = (if m AND EL_READ \<noteq> 0 then EV_READ else 0) OR (if m AND EL_WRITE \<noteq> 0 then EV_WRITE else 0)"

definition tran_from_ev_mask :: "mask \<Rightarrow> mask" where
  "tran_from_ev_mask m = (if m AND EV_READ \<noteq> 0 then EL_READ else 0) OR (if m AND EV_WRITE \<noteq> 0 then EL_WRITE else 0)"

record io_watcher =
  iw_active :: bool
  iw_fd :: int
  iw_events :: mask

definition create_io_event :: io_watcher where
  "create_io_event = \<lparr> iw_active = False, iw_fd = 0, iw_events = 0 \<rparr>"

definition start_io_event :: "int \<Rightarrow> mask \<Rightarrow> io_watcher \<Rightarrow> io_watcher" where
  "start_io_event fd m w =
     (if iw_active w then
        (let active_events = tran_from_ev_mask (iw_events w); events = m OR active_events
         in if events = active_events then w
            else w\<lparr> iw_fd := fd, iw_events := tran_to_ev_mask events, iw_active := True \<rparr>)
      else w\<lparr> iw_fd := fd, iw_events := tran_to_ev_mask m, iw_active := True \<rparr>)"

definition stop_io_event :: "int \<Rightarrow> mask \<Rightarrow> io_watcher \<Rightarrow> io_watcher" where
  "stop_io_event fd m w =
     (let active_events = tran_from_ev_mask (iw_events w); events = active_events AND NOT m
      in if events = active_events then w
         else let ev = tran_to_ev_mask events; w1 = w\<lparr> iw_active := False \<rparr>
              in if ev \<noteq> EV_NONE then w1\<lparr> iw_fd := fd, iw_events := ev, iw_active := True \<rparr> else w1)"

definition delete_io_event :: "io_watcher \<Rightarrow> io_watcher" where
  "delete_io_event w = w\<lparr> iw_active := False \<rparr>"

text \<open>The callback gets the libev events translated back.\<close>

definition generic_io_cb :: "mask \<Rightarrow> (mask \<Rightarrow> 's \<Rightarrow> 's) \<Rightarrow> 's \<Rightarrow> 's" where
  "generic_io_cb revents cb s = cb (tran_from_ev_mask revents) s"

record timer_watcher =
  tw_need_repeat :: bool
  tw_active :: bool
  tw_after_usec :: nat

definition create_timer :: "bool \<Rightarrow> timer_watcher" where
  "create_timer need_repeat = \<lparr> tw_need_repeat = need_repeat, tw_active = False, tw_after_usec = 0 \<rparr>"

text \<open>\<^verbatim>\<open>ev_timer_again\<close> with a zero repeat value stops the timer.\<close>

definition start_timer_watcher :: "nat \<Rightarrow> timer_watcher \<Rightarrow> timer_watcher" where
  "start_timer_watcher usec w =
     (if \<not> tw_need_repeat w then w\<lparr> tw_after_usec := usec, tw_active := True \<rparr>
      else w\<lparr> tw_after_usec := usec, tw_active := usec \<noteq> 0 \<rparr>)"

definition stop_timer_watcher :: "timer_watcher \<Rightarrow> timer_watcher" where
  "stop_timer_watcher w = w\<lparr> tw_active := False \<rparr>"

definition delete_timer :: "timer_watcher \<Rightarrow> timer_watcher" where
  "delete_timer w = stop_timer_watcher w"

subsection \<open>What a watcher waits for\<close>

definition iw_wants :: "mask \<Rightarrow> io_watcher \<Rightarrow> bool" where
  "iw_wants m w \<longleftrightarrow> iw_active w \<and> tran_from_ev_mask (iw_events w) AND m \<noteq> 0"

lemma mask_ands:
  "EL_READ AND EL_READ = EL_READ" "EL_WRITE AND EL_WRITE = EL_WRITE" "EL_READ AND EL_WRITE = 0" "EL_WRITE AND EL_READ = 0"
  "EL_READ \<noteq> 0" "EL_WRITE \<noteq> 0" "EL_READ \<noteq> EL_WRITE" "(EL_READ OR EL_WRITE) AND EL_READ = EL_READ" "(EL_READ OR EL_WRITE) AND EL_WRITE = EL_WRITE"
  "EL_READ AND NOT EL_READ = 0" "EL_WRITE AND NOT EL_WRITE = 0" "EL_READ AND NOT EL_WRITE = EL_READ" "EL_WRITE AND NOT EL_READ = EL_WRITE"
  "(EL_READ OR EL_WRITE) AND NOT EL_WRITE = EL_READ" "(EL_READ OR EL_WRITE) AND NOT EL_READ = EL_WRITE"
  "EL_WRITE OR EL_READ = EL_READ OR EL_WRITE" "EL_READ OR EL_WRITE \<noteq> EL_READ" "EL_READ OR EL_WRITE \<noteq> EL_WRITE" "EL_READ OR EL_WRITE \<noteq> 0"
  "EL_READ OR EL_READ OR EL_WRITE = EL_READ OR EL_WRITE" "EL_WRITE OR EL_READ OR EL_WRITE = EL_READ OR EL_WRITE"
  by (simp_all add: mask_defs)

lemma mask_cases: "tran_from_ev_mask e \<in> {0, EL_READ, EL_WRITE, EL_READ OR EL_WRITE}"
  by (auto simp: tran_from_ev_mask_def mask_ands)

lemma mask_round_trip [simp]:
  "tran_from_ev_mask (tran_to_ev_mask 0) = 0" "tran_from_ev_mask (tran_to_ev_mask EL_READ) = EL_READ"
  "tran_from_ev_mask (tran_to_ev_mask EL_WRITE) = EL_WRITE" "tran_from_ev_mask (tran_to_ev_mask (EL_READ OR EL_WRITE)) = EL_READ OR EL_WRITE"
  "tran_to_ev_mask 0 = EV_NONE" "tran_to_ev_mask EL_READ \<noteq> EV_NONE" "tran_to_ev_mask EL_WRITE \<noteq> EV_NONE" "tran_to_ev_mask (EL_READ OR EL_WRITE) \<noteq> EV_NONE"
  by (simp_all add: tran_from_ev_mask_def tran_to_ev_mask_def mask_defs)

text \<open>Starting an event adds it and keeps the other one; stopping removes it and keeps the other one.\<close>

lemma start_wants:
  assumes "m \<in> {EL_READ, EL_WRITE}"
  shows "iw_wants m (start_io_event fd m w)" "k \<in> {EL_READ, EL_WRITE} \<Longrightarrow> k \<noteq> m \<Longrightarrow> iw_wants k (start_io_event fd m w) = iw_wants k w"
  using assms mask_cases [of "iw_events w"]
  by (auto simp: start_io_event_def iw_wants_def Let_def mask_ands or.assoc)

lemma stop_wants:
  assumes "m \<in> {EL_READ, EL_WRITE}" "iw_active w"
  shows "\<not> iw_wants m (stop_io_event fd m w)" "k \<in> {EL_READ, EL_WRITE} \<Longrightarrow> k \<noteq> m \<Longrightarrow> iw_wants k (stop_io_event fd m w) = iw_wants k w"
  using assms mask_cases [of "iw_events w"]
  by (auto simp: stop_io_event_def iw_wants_def Let_def mask_ands)

end
