(* ===== verification/Async_Udp_Socket.thy ===== *)
theory Async_Udp_Socket
  imports Event_Loop Socket
begin

text \<open>
  The non-blocking UDP socket (\<^verbatim>\<open>src/base/async_udp_socket.*\<close>): packets that the kernel cannot take now wait in
  a list, and the socket watches for writability while it has some.  The answers of \<^verbatim>\<open>sendto\<close> and \<^verbatim>\<open>recvfrom\<close>
  are parameters: the socket carries the list of the answers \<^verbatim>\<open>sendto\<close> is going to give, and an answer past the
  end of the list is \<^verbatim>\<open>EAGAIN\<close>.  The ghost field \<open>us_log\<close> records every packet that left the socket's hands and
  whether the kernel took it.
\<close>

subsection \<open>The socket\<close>

definition MAX_BUF_SIZE :: nat where "MAX_BUF_SIZE = 1500"

record 'a udp_packet =
  up_data :: bytes
  up_addr :: 'a

record 'a async_udp_socket =
  us_socket :: int
  us_watcher :: io_watcher
  us_packet_list :: "'a udp_packet list"
  us_sendto :: "nat sys list"
  us_log :: "('a udp_packet \<times> bool) list"

definition AsyncUdpSocket_new :: "int \<Rightarrow> nat sys list \<Rightarrow> 'a async_udp_socket" where
  "AsyncUdpSocket_new fd answers =
     \<lparr> us_socket = fd, us_watcher = start_io_event fd EL_READ create_io_event, us_packet_list = [],
       us_sendto = answers, us_log = [] \<rparr>"

text \<open>The destructor stops the watcher; the packets of the list stay allocated.\<close>

definition AsyncUdpSocket_destruct :: "'a async_udp_socket \<Rightarrow> 'a async_udp_socket" where
  "AsyncUdpSocket_destruct u = u\<lparr> us_watcher := delete_io_event (us_watcher u) \<rparr>"

definition next_answer :: "nat sys list \<Rightarrow> nat sys \<times> nat sys list" where
  "next_answer as = (case as of [] \<Rightarrow> (Sys_err EAGAIN, []) | a # as' \<Rightarrow> (a, as'))"

fun send_list :: "'a udp_packet list \<Rightarrow> nat sys list \<Rightarrow> ('a udp_packet \<times> bool) list \<Rightarrow>
    bool \<times> 'a udp_packet list \<times> nat sys list \<times> ('a udp_packet \<times> bool) list" where
  "send_list [] as lg = (True, [], as, lg)"
| "send_list (p # ps) as lg =
     (let (a, as') = next_answer as; sent = sock_send_to a
      in if sent < 0 then (False, ps, as', lg @ [(p, False)])
         else if sent = 0 then (False, p # ps, as', lg)
         else send_list ps as' (lg @ [(p, True)]))"

definition send_data_from_list :: "'a async_udp_socket \<Rightarrow> bool \<times> 'a async_udp_socket" where
  "send_data_from_list u =
     (let (done, ps, as, lg) = send_list (us_packet_list u) (us_sendto u) (us_log u)
      in (done, u\<lparr> us_packet_list := ps, us_sendto := as, us_log := lg \<rparr>))"

definition us_send_data :: "'a async_udp_socket \<Rightarrow> 'a async_udp_socket" where
  "us_send_data u =
     (let u = snd (send_data_from_list u)
      in if us_packet_list u = [] then u\<lparr> us_watcher := stop_io_event (us_socket u) EL_WRITE (us_watcher u) \<rparr> else u)"

definition send_again :: "bytes \<Rightarrow> 'a \<Rightarrow> 'a async_udp_socket \<Rightarrow> int \<times> 'a async_udp_socket" where
  "send_again data addr u =
     (int (length data),
      u\<lparr> us_packet_list := us_packet_list u @ [\<lparr> up_data = data, up_addr = addr \<rparr>],
         us_watcher := start_io_event (us_socket u) EL_WRITE (us_watcher u) \<rparr>)"

definition add_udp_packet :: "bytes \<Rightarrow> 'a \<Rightarrow> 'a async_udp_socket \<Rightarrow> int \<times> 'a async_udp_socket" where
  "add_udp_packet data addr u =
     (let (done, u) = send_data_from_list u
      in if \<not> done then send_again data addr u
         else let (a, as) = next_answer (us_sendto u); sent = sock_send_to a; p = \<lparr> up_data = data, up_addr = addr \<rparr>;
                  u = u\<lparr> us_sendto := as \<rparr>
              in if sent < 0 then (- 1, u\<lparr> us_log := us_log u @ [(p, False)] \<rparr>)
                 else if sent = 0 then send_again data addr u
                 else (int (length data), u\<lparr> us_log := us_log u @ [(p, True)] \<rparr>))"

definition us_send_to :: "bytes \<Rightarrow> 'a \<Rightarrow> 'a async_udp_socket \<Rightarrow> int \<times> 'a async_udp_socket" where
  "us_send_to = add_udp_packet"

text \<open>
  One READ event drains the kernel: the answers of \<^verbatim>\<open>recvfrom\<close> are consumed up to the first that brings no
  data; each datagram is cut at the buffer size and goes to the slot of \<^verbatim>\<open>signal_read_packet\<close> with its address
  and receive time.  The slot may send on the socket before the next datagram is read.
\<close>

type_synonym 'a received = "('a \<times> bytes) sys \<times> int \<times> int \<times> int"
type_synonym 'a read_slot = "bytes \<Rightarrow> 'a \<Rightarrow> int \<Rightarrow> 'a async_udp_socket \<Rightarrow> 'a async_udp_socket"

definition recvfrom :: "nat \<Rightarrow> ('a \<times> bytes) sys \<Rightarrow> ('a \<times> bytes) sys" where
  "recvfrom bufsize r = (case r of Sys_ok d \<Rightarrow> Sys_ok (fst d, take bufsize (snd d)) | Sys_err e \<Rightarrow> Sys_err e)"

fun recv_data :: "'a read_slot \<Rightarrow> 'a received list \<Rightarrow> 'a async_udp_socket \<Rightarrow> 'a async_udp_socket" where
  "recv_data slot [] u = u"
| "recv_data slot ((r, ioctl_result, time) # rs) u =
     (case sock_recv_from (recvfrom MAX_BUF_SIZE r) of
        (_, None) \<Rightarrow> u
      | (_, Some (a, d)) \<Rightarrow> recv_data slot rs (slot d a (sock_get_recv_timestamp ioctl_result time) u))"

definition async_udp_socket_io_cb :: "'a read_slot \<Rightarrow> 'a received list \<Rightarrow> mask \<Rightarrow> 'a async_udp_socket \<Rightarrow> 'a async_udp_socket" where
  "async_udp_socket_io_cb slot rs events u =
     (let u = if events AND EL_READ \<noteq> 0 then recv_data slot rs u else u
      in if events AND EL_WRITE \<noteq> 0 then us_send_data u else u)"

subsection \<open>The life of a socket\<close>

text \<open>
  What a socket goes through is a sequence of sends and of events; on a datagram the slot sends the packets that
  \<open>reply\<close> gives for it.
\<close>

datatype 'a udp_event = Ev_send bytes 'a | Ev_io mask "'a received list"

type_synonym 'a udp_reply = "bytes \<Rightarrow> 'a \<Rightarrow> int \<Rightarrow> 'a udp_packet list"

definition send_packet :: "'a udp_packet \<Rightarrow> 'a async_udp_socket \<Rightarrow> 'a async_udp_socket" where
  "send_packet p u = snd (us_send_to (up_data p) (up_addr p) u)"

definition reply_slot :: "'a udp_reply \<Rightarrow> 'a read_slot" where
  "reply_slot reply d a t u = fold send_packet (reply d a t) u"

fun udp_step :: "'a udp_reply \<Rightarrow> 'a udp_event \<Rightarrow> 'a async_udp_socket \<Rightarrow> 'a async_udp_socket" where
  "udp_step reply (Ev_send d a) u = send_packet \<lparr> up_data = d, up_addr = a \<rparr> u"
| "udp_step reply (Ev_io revents rs) u = generic_io_cb revents (async_udp_socket_io_cb (reply_slot reply) rs) u"

text \<open>The packets that an event hands to the socket, in order.\<close>

fun replies_to :: "'a udp_reply \<Rightarrow> 'a received list \<Rightarrow> 'a udp_packet list" where
  "replies_to reply [] = []"
| "replies_to reply ((r, ioctl_result, time) # rs) =
     (case sock_recv_from (recvfrom MAX_BUF_SIZE r) of
        (_, None) \<Rightarrow> []
      | (_, Some (a, d)) \<Rightarrow> reply d a (sock_get_recv_timestamp ioctl_result time) @ replies_to reply rs)"

fun handed_over :: "'a udp_reply \<Rightarrow> 'a udp_event \<Rightarrow> 'a udp_packet list" where
  "handed_over reply (Ev_send d a) = [\<lparr> up_data = d, up_addr = a \<rparr>]"
| "handed_over reply (Ev_io revents rs) = (if tran_from_ev_mask revents AND EL_READ \<noteq> 0 then replies_to reply rs else [])"

text \<open>What the kernel's answers say about the packets they were given for: \<^verbatim>\<open>EAGAIN\<close> says nothing.\<close>

definition verdicts :: "nat sys list \<Rightarrow> bool list" where
  "verdicts as = map (\<lambda>a. sock_send_to a > 0) (filter (\<lambda>a. sock_send_to a \<noteq> 0) as)"

lemma verdicts_append [simp]: "verdicts (as @ bs) = verdicts as @ verdicts bs" "verdicts [] = []"
  "verdicts [a] = (if sock_send_to a = 0 then [] else [sock_send_to a > 0])"
  by (simp_all add: verdicts_def)

text \<open>The invariant, for the answers the socket started with and the packets handed over so far.\<close>

definition accounted :: "nat sys list \<Rightarrow> 'a udp_packet list \<Rightarrow> 'a udp_packet list \<Rightarrow> nat sys list \<Rightarrow> ('a udp_packet \<times> bool) list \<Rightarrow> bool" where
  "accounted as0 handed ps as lg \<longleftrightarrow> map fst lg @ ps = handed \<and> (\<exists>used. as0 = used @ as \<and> map snd lg = verdicts used)"

definition udp_inv :: "nat sys list \<Rightarrow> 'a udp_packet list \<Rightarrow> 'a async_udp_socket \<Rightarrow> bool" where
  "udp_inv as0 handed u \<longleftrightarrow> accounted as0 handed (us_packet_list u) (us_sendto u) (us_log u) \<and>
     (us_packet_list u \<noteq> [] \<longrightarrow> iw_wants EL_WRITE (us_watcher u)) \<and> iw_wants EL_READ (us_watcher u)"

text \<open>One answer for the packet at the head.\<close>

lemma accounted_step:
  assumes "accounted as0 handed (p # ps) as lg" "next_answer as = (a, as')"
  shows "sock_send_to a = 0 \<Longrightarrow> accounted as0 handed (p # ps) as' lg"
    and "sock_send_to a \<noteq> 0 \<Longrightarrow> accounted as0 handed ps as' (lg @ [(p, sock_send_to a > 0)])"
proof -
  obtain used where u: "as0 = used @ as" "map snd lg = verdicts used"
    using assms(1) by (auto simp: accounted_def)
  have a: "(as = [] \<and> as' = [] \<and> sock_send_to a = 0) \<or> as = a # as'"
    using assms(2) by (auto simp: next_answer_def sock_send_to_def split: list.splits)
  show "accounted as0 handed (p # ps) as' lg" if "sock_send_to a = 0"
    using a
  proof
    assume "as = a # as'"
    then have "as0 = (used @ [a]) @ as'" "map snd lg = verdicts (used @ [a])"
      using u that by simp_all
    then show ?thesis
      using assms(1) unfolding accounted_def by blast
  qed (use assms(1) in simp)
  show "accounted as0 handed ps as' (lg @ [(p, sock_send_to a > 0)])" if "sock_send_to a \<noteq> 0"
  proof -
    have "as0 = (used @ [a]) @ as'" "map snd (lg @ [(p, sock_send_to a > 0)]) = verdicts (used @ [a])"
      using a u that by auto
    then show ?thesis
      using assms(1) unfolding accounted_def by (metis append.assoc append_Cons append_Nil fst_conv list.simps(8) list.simps(9) map_append)
  qed
qed

lemma send_list_accounted:
  "accounted as0 handed ps as lg \<Longrightarrow> send_list ps as lg = (ok, ps', as', lg') \<Longrightarrow>
     accounted as0 handed ps' as' lg' \<and> (ok \<longrightarrow> ps' = []) \<and> (ps' \<noteq> [] \<longrightarrow> ps \<noteq> [])"
proof (induction ps as lg rule: send_list.induct)
  case (2 p ps as lg)
  obtain a as1 where a: "next_answer as = (a, as1)"
    by fastforce
  note step = accounted_step [OF 2(2) a]
  consider (fail) "sock_send_to a < 0" | (again) "sock_send_to a = 0" | (sent) "sock_send_to a > 0"
    by linarith
  then show ?case
  proof cases
    case sent
    then show ?thesis
      using 2(1) [OF a [symmetric] refl] 2(3) step(2) a by (auto simp: Let_def)
  qed (use 2(3) step a in \<open>auto simp: Let_def\<close>)
qed simp

lemma accounted_handed: "accounted as0 handed ps as lg \<Longrightarrow> accounted as0 (handed @ qs) (ps @ qs) as lg"
  by (auto simp: accounted_def)

lemma udp_inv_new: "udp_inv as0 [] (AsyncUdpSocket_new fd as0)"
  using start_wants(1) [of EL_READ] by (simp add: udp_inv_def accounted_def AsyncUdpSocket_new_def)

lemma send_data_from_list_inv:
  assumes "udp_inv as0 handed u" "send_data_from_list u = (ok, u')"
  shows "udp_inv as0 handed u'" "ok \<Longrightarrow> us_packet_list u' = []" "us_watcher u' = us_watcher u"
proof -
  obtain o2 ps as lg where s: "send_list (us_packet_list u) (us_sendto u) (us_log u) = (o2, ps, as, lg)"
    by (metis prod_cases4)
  have "accounted as0 handed ps as lg \<and> (o2 \<longrightarrow> ps = []) \<and> (ps \<noteq> [] \<longrightarrow> us_packet_list u \<noteq> [])"
    using send_list_accounted [OF _ s, of as0 handed] assms(1) by (simp add: udp_inv_def)
  then show "udp_inv as0 handed u'" "ok \<Longrightarrow> us_packet_list u' = []" "us_watcher u' = us_watcher u"
    using assms s by (auto simp: udp_inv_def send_data_from_list_def)
qed

lemma us_send_data_inv:
  assumes "udp_inv as0 handed u"
  shows "udp_inv as0 handed (us_send_data u)"
proof -
  obtain ok u' where s: "send_data_from_list u = (ok, u')"
    by fastforce
  have i: "udp_inv as0 handed u'"
    using send_data_from_list_inv(1) [OF assms s] .
  then have "iw_active (us_watcher u')"
    by (simp add: udp_inv_def iw_wants_def)
  then have "iw_wants EL_READ (stop_io_event (us_socket u') EL_WRITE (us_watcher u'))"
    using i stop_wants(2) [of EL_WRITE "us_watcher u'" EL_READ] by (simp add: udp_inv_def mask_ands)
  then show ?thesis
    using i s by (auto simp: us_send_data_def udp_inv_def)
qed

lemma send_again_inv:
  assumes "accounted as0 handed (us_packet_list u) (us_sendto u) (us_log u)" "iw_wants EL_READ (us_watcher u)"
  shows "udp_inv as0 (handed @ [\<lparr> up_data = d, up_addr = a \<rparr>]) (snd (send_again d a u))"
  using accounted_handed [OF assms(1)] assms(2) start_wants(1) [of EL_WRITE] start_wants(2) [of EL_WRITE EL_READ]
  by (simp add: udp_inv_def send_again_def mask_ands)

lemma packet_collapse [simp]: "\<lparr> up_data = up_data p, up_addr = up_addr p \<rparr> = p"
  by simp

lemma send_packet_inv:
  assumes "udp_inv as0 handed u"
  shows "udp_inv as0 (handed @ [p]) (send_packet p u)"
proof -
  obtain ok u' where s: "send_data_from_list u = (ok, u')"
    by fastforce
  obtain a as where a: "next_answer (us_sendto u') = (a, as)"
    by fastforce
  note inv = send_data_from_list_inv [OF assms s]
  show ?thesis
  proof (cases ok)
    case False
    then show ?thesis
      using send_again_inv [of as0 handed u' "up_data p" "up_addr p"] inv(1) s
      by (simp add: send_packet_def us_send_to_def add_udp_packet_def udp_inv_def)
  next
    case True
    then have e: "us_packet_list u' = []"
      using inv(2) by simp
    then have acc: "accounted as0 (handed @ [p]) [p] (us_sendto u') (us_log u')"
      using accounted_handed [of as0 handed "[]" _ _ "[p]"] inv(1) by (simp add: udp_inv_def)
    note step = accounted_step [OF acc a]
    have acc0: "accounted as0 handed [] as (us_log u')" if "sock_send_to a = 0"
      using step(1) [OF that] by (auto simp: accounted_def)
    consider (fail) "sock_send_to a < 0" | (again) "sock_send_to a = 0" | (sent) "sock_send_to a > 0"
      by linarith
    then show ?thesis
    proof cases
      case again
      then show ?thesis
        using send_again_inv [of as0 handed "u'\<lparr> us_sendto := as \<rparr>" "up_data p" "up_addr p"] acc0 inv(1) s True a e
        by (simp add: send_packet_def us_send_to_def add_udp_packet_def udp_inv_def)
    qed (use step(2) inv(1) s True a e in \<open>simp_all add: send_packet_def us_send_to_def add_udp_packet_def udp_inv_def\<close>)
  qed
qed

lemma send_packets_inv:
  "udp_inv as0 handed u \<Longrightarrow> udp_inv as0 (handed @ ps) (fold send_packet ps u)"
  by (induction ps arbitrary: handed u) (use send_packet_inv in fastforce)+

lemma recv_data_inv:
  "udp_inv as0 handed u \<Longrightarrow> udp_inv as0 (handed @ replies_to reply rs) (recv_data (reply_slot reply) rs u)"
proof (induction reply rs arbitrary: handed u rule: replies_to.induct)
  case (2 reply r i t rs)
  show ?case
  proof (cases "snd (sock_recv_from (recvfrom MAX_BUF_SIZE r))")
    case None
    then show ?thesis
      using 2(2) by (simp add: case_prod_beta)
  next
    case (Some d)
    then show ?thesis
      using 2(1) [OF prod.collapse Some prod.collapse send_packets_inv [OF 2(2), of "reply (snd d) (fst d) (sock_get_recv_timestamp i t)"]]
      by (simp add: case_prod_beta reply_slot_def [of reply "snd d"])
  qed
qed simp

lemma udp_step_inv:
  assumes "udp_inv as0 handed u"
  shows "udp_inv as0 (handed @ handed_over reply e) (udp_step reply e u)"
proof (cases e)
  case (Ev_send d a)
  then show ?thesis
    using send_packet_inv [OF assms] by simp
next
  case (Ev_io revents rs)
  then show ?thesis
    using assms recv_data_inv [OF assms, of reply rs] us_send_data_inv [of as0 handed u]
      us_send_data_inv [of as0 "handed @ replies_to reply rs" "recv_data (reply_slot reply) rs u"]
    by (auto simp: generic_io_cb_def async_udp_socket_io_cb_def)
qed

lemma udp_run_inv:
  "udp_inv as0 handed u \<Longrightarrow> udp_inv as0 (handed @ concat (map (handed_over reply) es)) (fold (udp_step reply) es u)"
  by (induction es arbitrary: handed u) (use udp_step_inv in fastforce)+

text \<open>When the kernel takes everything, a writability event empties the list and ends the wait for it.\<close>

lemma send_list_drains:
  "length ps \<le> length as \<Longrightarrow> \<forall>a\<in>set as. sock_send_to a > 0 \<Longrightarrow>
     send_list ps as lg = (True, [], drop (length ps) as, lg @ map (\<lambda>p. (p, True)) ps)"
proof (induction ps as lg rule: send_list.induct)
  case (2 p ps as lg)
  then obtain a as' where "as = a # as'"
    by (cases as) auto
  then show ?case
    using 2 by (auto simp: next_answer_def)
qed simp

lemma us_send_data_drains:
  assumes "length (us_packet_list u) \<le> length (us_sendto u)" "\<forall>a\<in>set (us_sendto u). sock_send_to a > 0" "iw_active (us_watcher u)"
  shows "us_packet_list (us_send_data u) = []" "us_log (us_send_data u) = us_log u @ map (\<lambda>p. (p, True)) (us_packet_list u)"
    "\<not> iw_wants EL_WRITE (us_watcher (us_send_data u))"
  using send_list_drains [OF assms(1,2)] stop_wants(1) [of EL_WRITE "us_watcher u"] assms(3)
  by (simp_all add: us_send_data_def send_data_from_list_def)

subsection \<open>Properties\<close>

text \<open>
  C40: a UDP socket never loses, duplicates or reorders a packet on its own account.  After any sequence of sends
  and I/O events, and whatever the kernel answers, the packets that left the socket followed by those still waiting
  are exactly the packets handed over, in that order; a packet left either because the kernel took it or because
  \<^verbatim>\<open>sendto\<close> failed for it, as the answers consumed say; while a packet waits, the socket watches for writability, and
  it watches for reading all the time; and a writability event at which the kernel takes everything empties the
  list and ends the watch for writability.
\<close>

theorem udp_socket_fifo:
  assumes "u = fold (udp_step reply) es (AsyncUdpSocket_new fd answers)"
  shows "map fst (us_log u) @ us_packet_list u = concat (map (handed_over reply) es) \<and>
     (\<exists>used. answers = used @ us_sendto u \<and> map snd (us_log u) = verdicts used) \<and>
     (us_packet_list u \<noteq> [] \<longrightarrow> iw_wants EL_WRITE (us_watcher u)) \<and> iw_wants EL_READ (us_watcher u) \<and>
     (length (us_packet_list u) \<le> length (us_sendto u) \<and> (\<forall>a\<in>set (us_sendto u). sock_send_to a > 0) \<longrightarrow>
        us_packet_list (us_send_data u) = [] \<and> map fst (us_log (us_send_data u)) = concat (map (handed_over reply) es) \<and>
        \<not> iw_wants EL_WRITE (us_watcher (us_send_data u)))"
proof -
  have i: "udp_inv answers (concat (map (handed_over reply) es)) u"
    using udp_run_inv [OF udp_inv_new, of _ reply es] assms by simp
  then have acc: "map fst (us_log u) @ us_packet_list u = concat (map (handed_over reply) es)"
    and "iw_active (us_watcher u)"
    by (simp_all add: udp_inv_def accounted_def iw_wants_def)
  then show ?thesis
    using i us_send_data_drains [of u] by (simp add: udp_inv_def accounted_def comp_def flip: acc)
qed

text \<open>
  A first packet waits; it leaves before the reply to a datagram, for which \<^verbatim>\<open>sendto\<close> fails; a third packet waits
  for the next event.
\<close>

definition ex_socket :: "nat async_udp_socket" where
  "ex_socket = fold (udp_step (\<lambda>d a t. [\<lparr> up_data = d, up_addr = a \<rparr>]))
     [Ev_send [1] 7, Ev_io EV_READ [(Sys_ok (9, [5]), 0, 0, 0), (Sys_err EAGAIN, 0, 0, 0)], Ev_send [3, 3] 7]
     (AsyncUdpSocket_new 4 [Sys_err EAGAIN, Sys_ok 1, Sys_err E_other, Sys_err EAGAIN, Sys_ok 2])"

lemma ex_socket_eval:
  "us_packet_list ex_socket = [\<lparr> up_data = [3, 3], up_addr = 7 \<rparr>]" "us_sendto ex_socket = [Sys_ok 2]"
  "us_log ex_socket = [(\<lparr> up_data = [1], up_addr = 7 \<rparr>, True), (\<lparr> up_data = [5], up_addr = 9 \<rparr>, False)]"
  by (simp_all add: ex_socket_def AsyncUdpSocket_new_def send_packet_def us_send_to_def add_udp_packet_def send_data_from_list_def
      send_again_def next_answer_def sock_send_to_def generic_io_cb_def async_udp_socket_io_cb_def reply_slot_def recvfrom_def
      sock_recv_from_def MAX_BUF_SIZE_def tran_from_ev_mask_def mask_defs)

theorem udp_socket_fifo_witness:
  "map fst (us_log ex_socket) @ us_packet_list ex_socket =
     [\<lparr> up_data = [1], up_addr = 7 \<rparr>, \<lparr> up_data = [5], up_addr = 9 \<rparr>, \<lparr> up_data = [3, 3], up_addr = 7 \<rparr>] \<and>
   iw_wants EL_WRITE (us_watcher ex_socket) \<and> iw_wants EL_READ (us_watcher ex_socket) \<and>
   us_packet_list (us_send_data ex_socket) = [] \<and> \<not> iw_wants EL_WRITE (us_watcher (us_send_data ex_socket))"
  using udp_socket_fifo [OF ex_socket_def] by (simp add: ex_socket_eval sock_send_to_def)

end
