(* ===== verification/Log.thy ===== *)
theory Log
  imports Rtc_Base
begin

text \<open>
  The log (\<^verbatim>\<open>src/base/log.*\<close>): every thread of the program adds messages to one of two queues under a lock, and
  one thread writes them to two files.  The critical sections are the atomic steps; the file system (the
  directory, the two files, whether they still exist) is a parameter, and a file that is not open discards what
  is written to it.
\<close>

datatype severity = LS_VERBOSE | LS_INFO | LS_WARNING | LS_ERROR | LS_NONE

fun severity_rank :: "severity \<Rightarrow> nat" where
  "severity_rank LS_VERBOSE = 0"
| "severity_rank LS_INFO = 1"
| "severity_rank LS_WARNING = 2"
| "severity_rank LS_ERROR = 3"
| "severity_rank LS_NONE = 4"

definition get_log_serverity :: "string \<Rightarrow> severity" where
  "get_log_serverity level =
     (if level = ''verbose'' then LS_VERBOSE else if level = ''info'' then LS_INFO else if level = ''warning'' then LS_WARNING
      else if level = ''error'' then LS_ERROR else LS_NONE)"

text \<open>A stream: the queue of messages, whether the file is open, the lines written and the lines lost.\<close>

record log_stream =
  ls_queue :: "string list"
  ls_open :: bool
  ls_written :: "string list"
  ls_lost :: "string list"

record xrtc_log =
  lg_file :: string
  lg_file_wf :: string
  lg_level :: string
  lg_out :: log_stream
  lg_out_wf :: log_stream
  lg_sink :: "severity option"
  lg_running :: bool
  lg_counter :: nat

definition log_stream_new :: log_stream where
  "log_stream_new = \<lparr> ls_queue = [], ls_open = False, ls_written = [], ls_lost = [] \<rparr>"

definition XrtcLog_new :: "string \<Rightarrow> string \<Rightarrow> string \<Rightarrow> xrtc_log" where
  "XrtcLog_new log_dir log_name log_level =
     \<lparr> lg_file = log_dir @ ''/'' @ log_name @ ''.log'', lg_file_wf = log_dir @ ''/'' @ log_name @ ''.log.wf'', lg_level = log_level,
       lg_out = log_stream_new, lg_out_wf = log_stream_new, lg_sink = None, lg_running = False, lg_counter = 0 \<rparr>"

definition OnLogMessage :: "string \<Rightarrow> severity \<Rightarrow> xrtc_log \<Rightarrow> xrtc_log" where
  "OnLogMessage message serverity l =
     (if severity_rank serverity \<ge> severity_rank LS_WARNING
      then l\<lparr> lg_out_wf := (lg_out_wf l)\<lparr> ls_queue := ls_queue (lg_out_wf l) @ [message] \<rparr> \<rparr>
      else l\<lparr> lg_out := (lg_out l)\<lparr> ls_queue := ls_queue (lg_out l) @ [message] \<rparr> \<rparr>)"

text \<open>The log is registered as a sink for its severity first; \<open>mkdir_ok\<close> covers a directory that exists; \<open>opens\<close> says which file can be opened.\<close>

definition log_init :: "bool \<Rightarrow> (string \<Rightarrow> bool) \<Rightarrow> xrtc_log \<Rightarrow> int \<times> xrtc_log" where
  "log_init mkdir_ok opens l =
     (let l = l\<lparr> lg_sink := Some (get_log_serverity (lg_level l)) \<rparr> in
      if \<not> mkdir_ok then (- 1, l)
      else let l1 = l\<lparr> lg_out := (lg_out l)\<lparr> ls_open := opens (lg_file l) \<rparr> \<rparr>
           in if \<not> opens (lg_file l) then (- 1, l1)
              else let l2 = l1\<lparr> lg_out_wf := (lg_out_wf l1)\<lparr> ls_open := opens (lg_file_wf l) \<rparr> \<rparr>
                   in if \<not> opens (lg_file_wf l) then (- 1, l2) else (0, l2))"

definition log_start :: "xrtc_log \<Rightarrow> bool \<times> xrtc_log" where
  "log_start l = (if lg_running l then (False, l) else (True, l\<lparr> lg_running := True \<rparr>))"

definition log_stop :: "xrtc_log \<Rightarrow> xrtc_log" where
  "log_stop l = l\<lparr> lg_running := False \<rparr>"

text \<open>The queue is taken under the lock and written without it.\<close>

definition write_log_to_log_file :: "log_stream \<Rightarrow> log_stream" where
  "write_log_to_log_file s =
     (if ls_open s then s\<lparr> ls_queue := [], ls_written := ls_written s @ ls_queue s \<rparr>
      else s\<lparr> ls_queue := [], ls_lost := ls_lost s @ ls_queue s \<rparr>)"

definition reopen :: "(string \<Rightarrow> bool) \<Rightarrow> (string \<Rightarrow> bool) \<Rightarrow> string \<Rightarrow> log_stream \<Rightarrow> log_stream" where
  "reopen exists opens f s = (if \<not> exists f then s\<lparr> ls_open := opens f \<rparr> else s)"

text \<open>One round of the log thread.\<close>

definition log_round :: "(string \<Rightarrow> bool) \<Rightarrow> (string \<Rightarrow> bool) \<Rightarrow> xrtc_log \<Rightarrow> xrtc_log" where
  "log_round exists opens l =
     (if \<not> lg_running l then l
      else let n = lg_counter l + 1;
               l1 = (if n = 100
                     then l\<lparr> lg_counter := 0, lg_out := reopen exists opens (lg_file l) (lg_out l),
                             lg_out_wf := reopen exists opens (lg_file_wf l) (lg_out_wf l) \<rparr>
                     else l\<lparr> lg_counter := n \<rparr>)
           in l1\<lparr> lg_out := write_log_to_log_file (lg_out l1), lg_out_wf := write_log_to_log_file (lg_out_wf l1) \<rparr>)"

subsection \<open>No line is lost while the files are open\<close>

datatype log_event = L_msg string severity | L_round | L_stop

fun log_step :: "(string \<Rightarrow> bool) \<Rightarrow> (string \<Rightarrow> bool) \<Rightarrow> log_event \<Rightarrow> xrtc_log \<Rightarrow> xrtc_log" where
  "log_step exists opens (L_msg m sv) l = OnLogMessage m sv l"
| "log_step exists opens L_round l = log_round exists opens l"
| "log_step exists opens L_stop l = log_stop l"

fun messages :: "bool \<Rightarrow> log_event list \<Rightarrow> string list" where
  "messages warn [] = []"
| "messages warn (L_msg m sv # es) = (if warn = (severity_rank sv \<ge> 2) then m # messages warn es else messages warn es)"
| "messages warn (_ # es) = messages warn es"

definition log_inv :: "string list \<Rightarrow> string list \<Rightarrow> xrtc_log \<Rightarrow> bool" where
  "log_inv ms wfs l \<longleftrightarrow> ls_open (lg_out l) \<and> ls_open (lg_out_wf l) \<and> ls_lost (lg_out l) = [] \<and> ls_lost (lg_out_wf l) = [] \<and>
     ls_written (lg_out l) @ ls_queue (lg_out l) = ms \<and> ls_written (lg_out_wf l) @ ls_queue (lg_out_wf l) = wfs"

lemma log_step_inv:
  assumes "\<And>f. opens f" "log_inv ms wfs l"
  shows "log_inv (ms @ messages False [e]) (wfs @ messages True [e]) (log_step exists opens e l)"
  using assms by (cases e)
    (auto simp: log_inv_def OnLogMessage_def log_round_def write_log_to_log_file_def reopen_def log_stop_def Let_def)

lemma messages_Cons: "messages warn (e # es) = messages warn [e] @ messages warn es"
  by (cases e) simp_all

text \<open>
  While files can be opened, the lines of each file followed by its queue are the messages of its severity in the
  order in which the threads added them, whatever the interleaving; what is in the queue when the thread is
  stopped is never written.
\<close>

lemma log_keeps_order:
  assumes "\<And>f. opens f" "log_inv ms wfs l"
  shows "log_inv (ms @ messages False es) (wfs @ messages True es) (fold (log_step exists opens) es l)"
  using assms(2)
proof (induction es arbitrary: ms wfs l)
  case (Cons e es)
  have s: "log_inv (ms @ messages False [e]) (wfs @ messages True [e]) (log_step exists opens e l)"
    by (rule log_step_inv [OF assms(1) Cons.prems])
  show ?case
    using Cons.IH [OF s] by (simp add: messages_Cons [of _ e es])
qed simp

lemma log_stopped_writes_nothing:
  "\<not> lg_running l \<Longrightarrow> log_round exists opens l = l"
  by (simp add: log_round_def)

end
