(* ===== verification/Server_Config.thy ===== *)
theory Server_Config
  imports Rtc_Base
begin

text \<open>
  The configuration (\<^verbatim>\<open>src/base/conf.*\<close>), the networks of the host (\<^verbatim>\<open>src/base/network.*\<close>) and the port allocator
  that hands both to the ICE layer (\<^verbatim>\<open>src/ice/port_allocator.*\<close>).  yaml-cpp is a parameter: a file that loads is
  what \<^verbatim>\<open>as<T>\<close> gives for a path of keys, \<open>None\<close> where it throws.
\<close>

record yaml =
  ym_string :: "string list \<Rightarrow> string option"
  ym_int :: "string list \<Rightarrow> int option"
  ym_bool :: "string list \<Rightarrow> bool option"

text \<open>Reading the fields in turn: what was assigned before an exception stays assigned.\<close>

definition yaml_field :: "'a option \<Rightarrow> ('a \<Rightarrow> 'c \<Rightarrow> 'c) \<Rightarrow> bool \<times> 'c \<Rightarrow> bool \<times> 'c" where
  "yaml_field v upd r = (if fst r then (case v of None \<Rightarrow> (False, snd r) | Some x \<Rightarrow> (True, upd x (snd r))) else r)"

lemma yaml_field_simps [simp]:
  "yaml_field None upd (True, c) = (False, c)" "yaml_field (Some x) upd (True, c) = (True, upd x c)" "yaml_field v upd (False, c) = (False, c)"
  by (simp_all add: yaml_field_def)

subsection \<open>The general configuration\<close>

record general_conf =
  gc_log_dir :: string
  gc_log_name :: string
  gc_log_level :: string
  gc_log_to_stderr :: bool
  gc_ice_min_port :: int
  gc_ice_max_port :: int
  gc_ipv4_addr :: string
  gc_netcard :: string

definition load_general_conf :: "yaml option option \<Rightarrow> general_conf option \<Rightarrow> int \<times> general_conf option" where
  "load_general_conf filename conf = (case (filename, conf) of
     (None, c) \<Rightarrow> (- 1, c)
   | (Some file, None) \<Rightarrow> (- 1, None)
   | (Some file, Some c) \<Rightarrow>
       let c0 = c\<lparr> gc_log_dir := ''./log'', gc_log_name := ''undefined'', gc_log_level := ''info'', gc_log_to_stderr := False \<rparr>
       in (case file of
             None \<Rightarrow> (- 1, Some c0)
           | Some y \<Rightarrow>
               let r1 = yaml_field (ym_string y [''log'', ''log_dir'']) (\<lambda>v. gc_log_dir_update (\<lambda>_. v)) (True, c0);
                   r2 = yaml_field (ym_string y [''log'', ''log_name'']) (\<lambda>v. gc_log_name_update (\<lambda>_. v)) r1;
                   r3 = yaml_field (ym_string y [''log'', ''log_level'']) (\<lambda>v. gc_log_level_update (\<lambda>_. v)) r2;
                   r4 = yaml_field (ym_bool y [''log'', ''log_to_stderr'']) (\<lambda>v. gc_log_to_stderr_update (\<lambda>_. v)) r3;
                   r5 = yaml_field (ym_string y [''ice'', ''netcard'']) (\<lambda>v. gc_netcard_update (\<lambda>_. v)) r4;
                   r6 = yaml_field (ym_string y [''ice'', ''ipv4_addr'']) (\<lambda>v. gc_ipv4_addr_update (\<lambda>_. v)) r5;
                   r7 = yaml_field (ym_int y [''ice'', ''min_port'']) (\<lambda>v. gc_ice_min_port_update (\<lambda>_. v)) r6;
                   r8 = yaml_field (ym_int y [''ice'', ''max_port'']) (\<lambda>v. gc_ice_max_port_update (\<lambda>_. v)) r7
               in (if fst r8 then 0 else - 1, Some (snd r8))))"

lemma yaml_field_ok: "fst (yaml_field v upd r) \<longleftrightarrow> fst r \<and> v \<noteq> None"
  by (cases v) (simp_all add: yaml_field_def)

text \<open>The configuration loads exactly when every field is there with its type; a missing one fails the start.\<close>

lemma load_general_conf_ok:
  "fst (load_general_conf (Some (Some y)) (Some c)) = 0 \<longleftrightarrow>
     (\<forall>k\<in>{''log_dir'', ''log_name'', ''log_level''}. ym_string y [''log'', k] \<noteq> None) \<and> ym_bool y [''log'', ''log_to_stderr''] \<noteq> None \<and>
     (\<forall>k\<in>{''netcard'', ''ipv4_addr''}. ym_string y [''ice'', k] \<noteq> None) \<and> (\<forall>k\<in>{''min_port'', ''max_port''}. ym_int y [''ice'', k] \<noteq> None)"
  by (simp add: load_general_conf_def Let_def yaml_field_ok)

subsection \<open>Networks\<close>

record 'ip network =
  nw_name :: string
  nw_ip :: 'ip

text \<open>An entry of \<^verbatim>\<open>getifaddrs\<close>: the name, and the address if there is one, with its family.\<close>

record 'ip ifaddr =
  ifa_name :: string
  ifa_addr :: "(bool \<times> 'ip) option"

definition usable_ifaddr :: "'ip ifaddr \<Rightarrow> bool" where
  "usable_ifaddr i = (case ifa_addr i of None \<Rightarrow> False | Some (is_inet, _) \<Rightarrow> is_inet \<and> ifa_name i \<noteq> ''lo'')"

text \<open>
  \<open>aton\<close> is what the address holds after \<^verbatim>\<open>inet_aton\<close>, whose result the constructor does not look at; \<open>ifs\<close> is
  the answer of \<^verbatim>\<open>getifaddrs\<close>.
\<close>

definition NetworkManager_new :: "(string \<Rightarrow> 'ip) \<Rightarrow> 'ip ifaddr list option \<Rightarrow> general_conf option \<Rightarrow> 'ip network list" where
  "NetworkManager_new aton ifs conf =
     (case conf of
        Some c \<Rightarrow> if gc_netcard c \<noteq> [] \<and> gc_ipv4_addr c \<noteq> [] then [\<lparr> nw_name = gc_netcard c, nw_ip = aton (gc_ipv4_addr c) \<rparr>]
          else (case ifs of None \<Rightarrow> [] | Some is \<Rightarrow> map (\<lambda>i. \<lparr> nw_name = ifa_name i, nw_ip = snd (the (ifa_addr i)) \<rparr>) (filter usable_ifaddr is))
      | None \<Rightarrow> (case ifs of None \<Rightarrow> [] | Some is \<Rightarrow> map (\<lambda>i. \<lparr> nw_name = ifa_name i, nw_ip = snd (the (ifa_addr i)) \<rparr>) (filter usable_ifaddr is)))"

definition get_first_network :: "'ip network list \<Rightarrow> 'ip network option" where
  "get_first_network ns = (case ns of [] \<Rightarrow> None | n # _ \<Rightarrow> Some n)"

text \<open>The loopback interface is never gathered unless it is configured by hand.\<close>

lemma gathered_networks_not_loopback:
  assumes "n \<in> set (NetworkManager_new aton ifs conf)" "nw_name n = ''lo''"
  shows "\<exists>c. conf = Some c \<and> gc_netcard c = ''lo'' \<and> gc_ipv4_addr c \<noteq> []"
  using assms by (auto simp: NetworkManager_new_def usable_ifaddr_def split: option.splits if_splits)

subsection \<open>The port allocator\<close>

text \<open>\<open>junk\<close>: the constructor leaves the two ports uninitialised.\<close>

record 'ip port_allocator =
  pa_networks :: "'ip network list"
  pa_min_port :: int
  pa_max_port :: int

definition PortAllocator_new :: "int \<times> int \<Rightarrow> 'ip network list \<Rightarrow> 'ip port_allocator" where
  "PortAllocator_new junk nets = \<lparr> pa_networks = nets, pa_min_port = fst junk, pa_max_port = snd junk \<rparr>"

definition set_port_range :: "int \<Rightarrow> int \<Rightarrow> 'ip port_allocator \<Rightarrow> 'ip port_allocator" where
  "set_port_range min_port max_port pa =
     (let pa1 = if min_port > 0 then pa\<lparr> pa_min_port := min_port \<rparr> else pa
      in if max_port > 0 then pa1\<lparr> pa_max_port := max_port \<rparr> else pa1)"

text \<open>The range is that of the configuration only if both ends are positive; otherwise it keeps what memory held.\<close>

lemma port_range_initialised:
  "(\<forall>junk. let pa = set_port_range mn mx (PortAllocator_new junk nets) in pa_min_port pa = mn \<and> pa_max_port pa = mx) \<longleftrightarrow> mn > 0 \<and> mx > 0"
proof
  assume "\<forall>junk. let pa = set_port_range mn mx (PortAllocator_new junk nets) in pa_min_port pa = mn \<and> pa_max_port pa = mx"
  then show "mn > 0 \<and> mx > 0"
    by (auto simp: set_port_range_def PortAllocator_new_def Let_def split: if_splits)
      (metis zless_add1_eq less_irrefl fst_conv snd_conv)+
qed (simp add: set_port_range_def PortAllocator_new_def Let_def)

end
