(* ===== verification/Signaling_Server.thy ===== *)
theory Signaling_Server
  imports Server_Config Event_Loop Signaling_Worker
begin

text \<open>
  \<^verbatim>\<open>SignalingServer\<close> (\<^verbatim>\<open>src/server/signaling_server.*\<close>): the listening thread, which accepts connections and deals
  them out to its workers in turn.  The configuration file, the pipes, the listening socket and the results of
  \<^verbatim>\<open>accept\<close> are arguments; \<^verbatim>\<open>join\<close> is an argument too, the state in which the thread of a worker leaves it.
\<close>

subsection \<open>State and life cycle\<close>

record signaling_options =
  so_host :: string
  so_port :: int
  so_worker_num :: int
  so_connection_timeout :: int

definition SignalingServerOptions_new :: signaling_options where
  "SignalingServerOptions_new = \<lparr> so_host = ''127.0.0.1'', so_port = 9000, so_worker_num = 2, so_connection_timeout = 5000000 \<rparr>"

record signaling_server =
  ss_options :: signaling_options
  ss_pipe :: "int list option"
  ss_pipe_watcher :: "io_watcher option"
  ss_io_watcher :: "io_watcher option"
  ss_listen_fd :: int
  ss_thread :: bool
  ss_loop_running :: bool
  ss_workers :: "signaling_worker list"
  ss_next_worker_index :: nat
  ss_closed :: "int list"

definition SS_QUIT :: int where "SS_QUIT = 0"

definition SignalingServer_new :: signaling_server where
  "SignalingServer_new = \<lparr> ss_options = SignalingServerOptions_new, ss_pipe = None, ss_pipe_watcher = None, ss_io_watcher = None,
     ss_listen_fd = - 1, ss_thread = False, ss_loop_running = False, ss_workers = [], ss_next_worker_index = 0, ss_closed = [] \<rparr>"

definition read_options :: "yaml \<Rightarrow> signaling_options \<Rightarrow> bool \<times> signaling_options" where
  "read_options y opts =
     (let r1 = yaml_field (ym_string y [''host'']) (\<lambda>v. so_host_update (\<lambda>_. v)) (True, opts);
          r2 = yaml_field (ym_int y [''port'']) (\<lambda>v. so_port_update (\<lambda>_. v)) r1;
          r3 = yaml_field (ym_int y [''worker_num'']) (\<lambda>v. so_worker_num_update (\<lambda>_. v)) r2
      in yaml_field (ym_int y [''connection_timeout'']) (\<lambda>v. so_connection_timeout_update (\<lambda>_. v)) r3)"

text \<open>\<open>this\<close> is the address of the new worker.  A worker that cannot be set up is left allocated and not listed.\<close>

definition ss_create_worker :: "bool \<Rightarrow> nat \<Rightarrow> signaling_server \<Rightarrow> int \<times> signaling_server" where
  "ss_create_worker pipe_ok this s =
     (let (ret, w1) = sw_init pipe_ok (SignalingWorker_new this (so_connection_timeout (ss_options s)))
      in if ret \<noteq> 0 then (- 1, s)
         else let (started, w2) = sw_start w1
              in if \<not> started then (- 1, s) else (0, s\<lparr> ss_workers := ss_workers s @ [w2] \<rparr>))"

text \<open>\<open>pipefd\<close>: the read end of the server's own pipe; \<open>pipes\<close> and \<open>addrs\<close>: the pipe and the address of each worker.\<close>

definition ss_init :: "yaml option option \<Rightarrow> int option \<Rightarrow> tcp_server_calls \<Rightarrow> (nat \<Rightarrow> bool) \<Rightarrow> (nat \<Rightarrow> nat) \<Rightarrow> signaling_server \<Rightarrow> int \<times> signaling_server" where
  "ss_init conf_file pipefd k pipes addrs s = (case conf_file of
     None \<Rightarrow> (- 1, s)
   | Some None \<Rightarrow> (- 1, s)
   | Some (Some y) \<Rightarrow>
       let (ok, opts) = read_options y (ss_options s); s1 = s\<lparr> ss_options := opts \<rparr>
       in if \<not> ok then (- 1, s1)
          else (case pipefd of
             None \<Rightarrow> (- 1, s1)
           | Some recv_fd \<Rightarrow>
               let s2 = s1\<lparr> ss_pipe := Some [], ss_pipe_watcher := Some (start_io_event recv_fd EL_READ create_io_event) \<rparr>;
                   (fd, closed) = create_tcp_server True k;
                   s3 = s2\<lparr> ss_listen_fd := fd, ss_closed := ss_closed s2 @ closed \<rparr>
               in if fd = - 1 then (- 1, s3)
                  else (0, fold (\<lambda>i s. snd (ss_create_worker (pipes i) (addrs i) s)) [0..<nat (so_worker_num opts)]
                             (s3\<lparr> ss_io_watcher := Some (start_io_event fd EL_READ create_io_event) \<rparr>))))"

definition ss_start :: "signaling_server \<Rightarrow> bool \<times> signaling_server" where
  "ss_start s = (if ss_thread s then (False, s) else (True, s\<lparr> ss_thread := True, ss_loop_running := True \<rparr>))"

definition ss_notify :: "int \<Rightarrow> signaling_server \<Rightarrow> int \<times> signaling_server" where
  "ss_notify msg s = (case ss_pipe s of None \<Rightarrow> (- 1, s) | Some ns \<Rightarrow> (0, s\<lparr> ss_pipe := Some (ns @ [msg]) \<rparr>))"

definition ss_stop :: "signaling_server \<Rightarrow> signaling_server" where
  "ss_stop s = snd (ss_notify SS_QUIT s)"

definition ss_stop_loop :: "(signaling_worker \<Rightarrow> signaling_worker) \<Rightarrow> signaling_server \<Rightarrow> signaling_server" where
  "ss_stop_loop joined s =
     (let s1 = s\<lparr> ss_workers := map (\<lambda>w. joined (sw_stop w)) (ss_workers s) \<rparr>
      in if \<not> ss_thread s then s1
         else s1\<lparr> ss_pipe_watcher := map_option delete_io_event (ss_pipe_watcher s1),
                  ss_io_watcher := map_option delete_io_event (ss_io_watcher s1), ss_loop_running := False,
                  ss_pipe := None, ss_closed := ss_closed s1 @ [ss_listen_fd s1] \<rparr>)"

definition ss_process_notify :: "(signaling_worker \<Rightarrow> signaling_worker) \<Rightarrow> int \<Rightarrow> signaling_server \<Rightarrow> signaling_server" where
  "ss_process_notify joined msg s = (if msg = SS_QUIT then ss_stop_loop joined s else s)"

definition signaling_server_recv_nofify :: "(signaling_worker \<Rightarrow> signaling_worker) \<Rightarrow> signaling_server \<Rightarrow> signaling_server" where
  "signaling_server_recv_nofify joined s = (case ss_pipe s of
     Some (n # ns) \<Rightarrow> ss_process_notify joined n (s\<lparr> ss_pipe := Some ns \<rparr>)
   | _ \<Rightarrow> s)"

text \<open>Deleting a \<^verbatim>\<open>std::thread\<close> that was not joined terminates the program.\<close>

definition SignalingServer_destruct :: "bool \<Rightarrow> signaling_server \<Rightarrow> signaling_server res" where
  "SignalingServer_destruct thread_joined s =
     (if ss_thread s \<and> \<not> thread_joined then Inl Uncaught_exception
      else res_bind (res_fold (\<lambda>w _. res_bind (SignalingWorker_destruct w) (\<lambda>_. Inr ())) (ss_workers s) ()) (\<lambda>_.
        Inr (s\<lparr> ss_thread := False, ss_loop_running := False, ss_workers := [] \<rparr>)))"

subsection \<open>Dealing out connections\<close>

definition dispatch_new_conn :: "int \<Rightarrow> signaling_server \<Rightarrow> signaling_server res" where
  "dispatch_new_conn fd s =
     (let index = ss_next_worker_index s; next_index = index + 1;
          s1 = s\<lparr> ss_next_worker_index := (if next_index \<ge> length (ss_workers s) then 0 else next_index) \<rparr>
      in if ss_workers s = [] then Inr s1
         else if index \<ge> length (ss_workers s) then Inl Out_of_bounds
         else res_bind (sw_notify_new_conn fd (ss_workers s ! index)) (\<lambda>(_, w). Inr (s1\<lparr> ss_workers := (ss_workers s)[index := w] \<rparr>)))"

definition accept_new_connect :: "(int \<times> bytes \<times> u16) sys list \<Rightarrow> signaling_server \<Rightarrow> signaling_server res" where
  "accept_new_connect rs s = res_bind (tcp_accept rs) (\<lambda>r. case r of None \<Rightarrow> Inr s | Some (fd, _, _) \<Rightarrow> dispatch_new_conn fd s)"

fun accept_all :: "(int \<times> bytes \<times> u16) sys list list \<Rightarrow> signaling_server \<Rightarrow> signaling_server res" where
  "accept_all [] s = Inr s"
| "accept_all (rs # rss) s = res_bind (accept_new_connect rs s) (accept_all rss)"

text \<open>The descriptors accepted, and the share of worker \<open>i\<close> of \<open>n\<close> in them.\<close>

definition accepted :: "(int \<times> bytes \<times> u16) sys list \<Rightarrow> int list" where
  "accepted rs = (case tcp_accept rs of Inr (Some (fd, _, _)) \<Rightarrow> [fd] | _ \<Rightarrow> [])"

definition share :: "nat \<Rightarrow> nat \<Rightarrow> 'a list \<Rightarrow> 'a list" where
  "share n i fds = map (\<lambda>j. fds ! j) (filter (\<lambda>j. j mod n = i) [0..<length fds])"

lemma share_simps [simp]:
  "share n i [] = []" "share n i (fds @ [fd]) = share n i fds @ (if length fds mod n = i then [fd] else [])"
proof -
  have "map (\<lambda>j. (fds @ [fd]) ! j) (filter (\<lambda>j. j mod n = i) [0..<length fds]) = map (\<lambda>j. fds ! j) (filter (\<lambda>j. j mod n = i) [0..<length fds])"
    by (auto simp: nth_append)
  then show "share n i [] = []" "share n i (fds @ [fd]) = share n i fds @ (if length fds mod n = i then [fd] else [])"
    by (simp_all add: share_def)
qed

definition holds_conns :: "int list \<Rightarrow> signaling_worker \<Rightarrow> bool" where
  "holds_conns fds w \<longleftrightarrow> lf_rep (sw_q_connfd w) fds \<and> sw_pipe w = Some (replicate (length fds) SW_NEW_CONN)"

definition dealt :: "nat \<Rightarrow> int list \<Rightarrow> signaling_server \<Rightarrow> bool" where
  "dealt n fds s \<longleftrightarrow> length (ss_workers s) = n \<and> (n > 0 \<longrightarrow> ss_next_worker_index s = length fds mod n) \<and>
     (\<forall>i<n. holds_conns (share n i fds) (ss_workers s ! i))"

lemma notify_new_conn_holds:
  assumes "holds_conns fds w"
  shows "\<exists>w'. sw_notify_new_conn fd w = Inr (0, w') \<and> holds_conns (fds @ [fd]) w'"
proof -
  obtain q where "produce fd (sw_q_connfd w) = Inr q" "lf_rep q (fds @ [fd])"
    using produce_rep assms by (meson holds_conns_def)
  then show ?thesis
    using assms by (simp add: sw_notify_new_conn_def sw_notify_def holds_conns_def replicate_append_same)
qed

lemma dispatch_dealt:
  assumes "dealt n fds s"
  shows "\<exists>s'. dispatch_new_conn fd s = Inr s' \<and> dealt n (fds @ [fd]) s'"
proof (cases "n = 0")
  case False
  define i where "i = length fds mod n"
  have i: "ss_next_worker_index s = i" "i < n" "length (ss_workers s) = n" "holds_conns (share n i fds) (ss_workers s ! i)"
    using assms False by (auto simp: dealt_def i_def)
  obtain w where w: "sw_notify_new_conn fd (ss_workers s ! i) = Inr (0, w)" "holds_conns (share n i fds @ [fd]) w"
    using notify_new_conn_holds [OF i(4)] by blast
  have "length (fds @ [fd]) mod n = (if i + 1 \<ge> n then 0 else i + 1)"
    using i(2) by (auto simp: i_def mod_Suc)
  moreover have "ss_workers s \<noteq> []" "\<not> i \<ge> n"
    using i by auto
  ultimately show ?thesis
    using assms w i by (auto simp: dispatch_new_conn_def dealt_def nth_list_update i_def Let_def)
qed (use assms in \<open>simp add: dispatch_new_conn_def dealt_def\<close>)

lemma accept_all_dealt:
  assumes "dealt n fds s" "\<forall>rs\<in>set rss. \<exists>r. tcp_accept rs = Inr r"
  shows "\<exists>s'. accept_all rss s = Inr s' \<and> dealt n (fds @ concat (map accepted rss)) s'"
  using assms
proof (induction rss arbitrary: fds s)
  case (Cons rs rss)
  obtain r where r: "tcp_accept rs = Inr r"
    using Cons.prems(2) by auto
  have "\<exists>s1. accept_new_connect rs s = Inr s1 \<and> dealt n (fds @ accepted rs) s1"
    using r Cons.prems(1) dispatch_dealt [OF Cons.prems(1)]
    by (auto simp: accept_new_connect_def accepted_def split: option.splits)
  then show ?case
    using Cons.IH Cons.prems(2) by fastforce
qed simp

text \<open>The workers that \<^verbatim>\<open>init\<close> sets up are those whose pipe could be created.\<close>

lemma create_workers:
  "ss_workers (fold (\<lambda>i s. snd (ss_create_worker (pipes i) (addrs i) s)) is s) =
     ss_workers s @ map (\<lambda>i. (SignalingWorker_new (addrs i) (so_connection_timeout (ss_options s)))\<lparr> sw_pipe := Some [], sw_thread := True, sw_loop_running := True \<rparr>)
       (filter pipes is) \<and>
   ss_options (fold (\<lambda>i s. snd (ss_create_worker (pipes i) (addrs i) s)) is s) = ss_options s \<and>
   ss_next_worker_index (fold (\<lambda>i s. snd (ss_create_worker (pipes i) (addrs i) s)) is s) = ss_next_worker_index s"
  by (induction "is" arbitrary: s) (auto simp: ss_create_worker_def sw_init_def sw_start_def SignalingWorker_new_def)

lemma new_worker_holds: "holds_conns [] ((SignalingWorker_new a t)\<lparr> sw_pipe := Some [], sw_thread := True, sw_loop_running := True \<rparr>)"
  using lfq.rep_new by (simp add: holds_conns_def SignalingWorker_new_def)

lemma init_dealt:
  assumes "ss_init conf pipefd k pipes addrs SignalingServer_new = (0, s)"
  shows "dealt (length (filter pipes [0..<nat (so_worker_num (ss_options s))])) [] s"
  using assms new_worker_holds
  by (auto simp: ss_init_def dealt_def create_workers SignalingServer_new_def Let_def split: option.splits prod.splits if_splits)

subsection \<open>Properties\<close>

text \<open>
  the server deals connections out evenly and in order.  Once \<^verbatim>\<open>init\<close> has succeeded with \<open>n\<close> workers set up,
  any number of calls of \<^verbatim>\<open>accept\<close> can follow, interrupted ones and failures included: no worker index is out of
  range, and worker \<open>i\<close> holds exactly the accepted descriptors at the positions congruent to \<open>i\<close> modulo \<open>n\<close>, in
  order, with one notification for each.
\<close>

theorem connections_dealt_round_robin:
  assumes "ss_init conf pipefd k pipes addrs SignalingServer_new = (0, s)"
    and "n = length (filter pipes [0..<nat (so_worker_num (ss_options s))])"
    and "\<forall>rs\<in>set rss. \<exists>r. tcp_accept rs = Inr r"
  shows "\<exists>s'. accept_all rss s = Inr s' \<and> length (ss_workers s') = n \<and>
     (\<forall>i<n. lf_rep (sw_q_connfd (ss_workers s' ! i)) (share n i (concat (map accepted rss))) \<and>
            sw_pipe (ss_workers s' ! i) = Some (replicate (length (share n i (concat (map accepted rss)))) SW_NEW_CONN))"
  using accept_all_dealt [OF init_dealt [OF assms(1)] assms(3)] assms(2)
  by (auto simp: dealt_def holds_conns_def)


text \<open>Three workers, one of which cannot be set up; of five calls of \<^verbatim>\<open>accept\<close> one fails.\<close>

definition ex_yaml :: yaml where
  "ex_yaml = \<lparr> ym_string = (\<lambda>_. Some ''0.0.0.0''), ym_int = (\<lambda>k. if k = [''worker_num''] then Some 3 else Some 9000), ym_bool = (\<lambda>_. None) \<rparr>"

definition ex_calls :: tcp_server_calls where
  "ex_calls = \<lparr> ts_socket = 5, ts_setsockopt = 0, ts_inet_aton = 1, ts_bind = 0, ts_listen = 0 \<rparr>"

definition ex_server :: signaling_server where
  "ex_server = snd (ss_init (Some (Some ex_yaml)) (Some 3) ex_calls (\<lambda>i. i \<noteq> 1) (\<lambda>i. i) SignalingServer_new)"

definition ex_accepts :: "(int \<times> bytes \<times> u16) sys list list" where
  "ex_accepts = [[Sys_ok (6, [], 0)], [Sys_err EINTR, Sys_ok (7, [], 0)], [Sys_err E_other], [Sys_ok (8, [], 0)], [Sys_ok (9, [], 0)]]"

theorem connections_dealt_round_robin_witness:
  "\<exists>s'. accept_all ex_accepts ex_server = Inr s' \<and> length (ss_workers s') = 2 \<and>
     lf_rep (sw_q_connfd (ss_workers s' ! 0)) [6, 8] \<and> lf_rep (sw_q_connfd (ss_workers s' ! 1)) [7, 9]"
proof -
  have opts: "read_options ex_yaml SignalingServerOptions_new = (True, \<lparr> so_host = ''0.0.0.0'', so_port = 9000, so_worker_num = 3, so_connection_timeout = 9000 \<rparr>)"
    by (simp add: read_options_def ex_yaml_def SignalingServerOptions_new_def)
  have init: "ss_init (Some (Some ex_yaml)) (Some 3) ex_calls (\<lambda>i. i \<noteq> 1) (\<lambda>i. i) SignalingServer_new = (0, ex_server)"
    and num: "so_worker_num (ss_options ex_server) = 3"
    by (simp_all add: ex_server_def ss_init_def SignalingServer_new_def opts create_tcp_server_def ex_calls_def create_workers)
  have n: "2 = length (filter (\<lambda>i. i \<noteq> 1) [0..<nat (so_worker_num (ss_options ex_server))])"
    by (simp add: num numeral_3_eq_3)
  have ret: "\<forall>rs\<in>set ex_accepts. \<exists>r. tcp_accept rs = Inr r"
    by (simp add: ex_accepts_def tcp_accept_def)
  have fds: "concat (map accepted ex_accepts) = [6, 7, 8, 9]"
    by (simp add: ex_accepts_def accepted_def tcp_accept_def)
  have "share 2 0 [6, 7, 8, 9] = [6, 8 :: int]" "share 2 1 [6, 7, 8, 9] = [7, 9 :: int]"
    by (simp_all add: share_def upt_rec)
  then show ?thesis
    using connections_dealt_round_robin [OF init n ret] unfolding fds by (metis one_less_numeral_iff semiring_norm(76) zero_less_numeral)
qed

end
