(* ===== verification/Server_Main.thy ===== *)
theory Server_Main
  imports Log Signaling_Server Rtc_Server
begin

text \<open>
  The start of the program (\<^verbatim>\<open>src/main.cpp\<close>) over the globals of \<^verbatim>\<open>src/global.cpp\<close>: the four parts are set up one
  after the other, the first failure ends the program, and a signal asks both servers to stop.  What each part
  needs of the system is collected in \<open>system_calls\<close>.
\<close>

record 'c program =
  g_conf :: "general_conf option"
  g_log :: "xrtc_log option"
  g_signaling_server :: "signaling_server option"
  g_rtc_server :: "'c rtc_server option"

definition program_new :: "'c program" where
  "program_new = \<lparr> g_conf = None, g_log = None, g_signaling_server = None, g_rtc_server = None \<rparr>"

record system_calls =
  sc_general_yaml :: "yaml option"
  sc_mkdir_ok :: bool
  sc_opens :: "string \<Rightarrow> bool"
  sc_signaling_yaml :: "yaml option"
  sc_signaling_pipe :: "int option"
  sc_listen :: tcp_server_calls
  sc_signaling_pipes :: "nat \<Rightarrow> bool"
  sc_addresses :: "nat \<Rightarrow> nat"
  sc_rtc_worker_num :: "int option"
  sc_rtc_pipe :: bool
  sc_rtc_pipes :: "nat \<Rightarrow> bool"

definition GeneralConf_new :: general_conf where
  "GeneralConf_new = \<lparr> gc_log_dir = [], gc_log_name = [], gc_log_level = [], gc_log_to_stderr = False, gc_ice_min_port = 0,
     gc_ice_max_port = 0, gc_ipv4_addr = [], gc_netcard = [] \<rparr>"

definition init_general_conf :: "system_calls \<Rightarrow> 'c program \<Rightarrow> int \<times> 'c program" where
  "init_general_conf K g = (case load_general_conf (Some (sc_general_yaml K)) (Some GeneralConf_new) of
     (ret, c) \<Rightarrow> (if ret \<noteq> 0 then - 1 else 0, g\<lparr> g_conf := c \<rparr>))"

definition init_log :: "system_calls \<Rightarrow> string \<Rightarrow> string \<Rightarrow> string \<Rightarrow> 'c program \<Rightarrow> int \<times> 'c program" where
  "init_log K log_dir log_name log_level g = (case log_init (sc_mkdir_ok K) (sc_opens K) (XrtcLog_new log_dir log_name log_level) of
     (ret, l) \<Rightarrow> if ret \<noteq> 0 then (- 1, g\<lparr> g_log := Some l \<rparr>) else (0, g\<lparr> g_log := Some (snd (log_start l)) \<rparr>))"

definition init_signaling_server :: "system_calls \<Rightarrow> 'c program \<Rightarrow> int \<times> 'c program" where
  "init_signaling_server K g =
     (case ss_init (Some (sc_signaling_yaml K)) (sc_signaling_pipe K) (sc_listen K) (sc_signaling_pipes K) (sc_addresses K) SignalingServer_new of
        (ret, s) \<Rightarrow> if ret = - 1 then (- 1, g\<lparr> g_signaling_server := Some s \<rparr>)
          else (0, g\<lparr> g_signaling_server := Some (snd (ss_start s)) \<rparr>))"

definition init_rtc_server :: "srtp_global \<Rightarrow> system_calls \<Rightarrow> 'c program \<Rightarrow> int \<times> 'c program" where
  "init_rtc_server srtp K g = (case rv_init (sc_rtc_worker_num K) (sc_rtc_pipe K) (sc_rtc_pipes K) srtp RtcServer_new of
     (ret, v) \<Rightarrow> if ret = - 1 then (- 1, g\<lparr> g_rtc_server := Some v \<rparr>) else (0, g\<lparr> g_rtc_server := Some (snd (rv_start v)) \<rparr>))"

text \<open>
  The set-up of \<^verbatim>\<open>main\<close>: the states it goes through, newest first, up to the first failure.  A signaling server runs
  from the moment it is set up.
\<close>

definition then_init :: "('c program \<Rightarrow> int \<times> 'c program) \<Rightarrow> int \<times> 'c program list \<Rightarrow> int \<times> 'c program list" where
  "then_init f r = (case r of (ret, gs) \<Rightarrow> if ret \<noteq> 0 then r else (case f (hd gs) of (ret', g') \<Rightarrow> (if ret' \<noteq> 0 then - 1 else 0, g' # gs)))"

definition main_init :: "srtp_global \<Rightarrow> system_calls \<Rightarrow> int \<times> 'c program list" where
  "main_init srtp K =
     then_init (init_rtc_server srtp K) (then_init (init_signaling_server K)
       (then_init (\<lambda>g. init_log K (gc_log_dir (the (g_conf g))) (gc_log_name (the (g_conf g))) (gc_log_level (the (g_conf g))) g)
         (then_init (init_general_conf K) (0, [program_new]))))"

text \<open>\<^verbatim>\<open>main\<close> registers the handler for \<^verbatim>\<open>SIGINT\<close> only.\<close>

datatype signal = SIGINT | SIGTERM | SIG_other

definition signal_process :: "signal \<Rightarrow> 'c program \<Rightarrow> 'c program" where
  "signal_process sig g =
     (if sig = SIGINT \<or> sig = SIGTERM
      then g\<lparr> g_signaling_server := map_option ss_stop (g_signaling_server g), g_rtc_server := map_option rv_stop (g_rtc_server g) \<rparr>
      else g)"

subsection \<open>What a started program looks like\<close>

lemma init_no_thread:
  "ss_init conf pipefd k pipes addrs SignalingServer_new = (ret, s) \<Longrightarrow> \<not> ss_thread s"
  "rv_init cfg pipe_ok pipes' srtp RtcServer_new = (ret, v :: 'c rtc_server) \<Longrightarrow> \<not> rv_thread v"
proof -
  have "ss_thread (fold (\<lambda>i s. snd (ss_create_worker (pipes i) (addrs i) s)) is s) = ss_thread s" for "is" s
    by (induction "is" arbitrary: s) (auto simp: ss_create_worker_def split: prod.splits)
  then show "ss_init conf pipefd k pipes addrs SignalingServer_new = (ret, s) \<Longrightarrow> \<not> ss_thread s"
    by (auto simp: ss_init_def SignalingServer_new_def Let_def split: option.splits prod.splits if_splits)
  have "rv_thread (fold (\<lambda>i. rv_create_worker (pipes' i) srtp i) is v) = rv_thread v" for "is" and v :: "'c rtc_server"
    by (induction "is" arbitrary: v) (auto simp: rv_create_worker_def split: prod.splits)
  then show "rv_init cfg pipe_ok pipes' srtp RtcServer_new = (ret, v :: 'c rtc_server) \<Longrightarrow> \<not> rv_thread v"
    by (auto simp: rv_init_def RtcServer_new_def Let_def split: option.splits if_splits)
qed

lemma started_servers:
  assumes "main_init srtp K = (0, gs)"
  shows "\<exists>g0 s v. gs = [(g0\<lparr> g_rtc_server := Some v \<rparr>), g0] @ tl (tl gs) \<and> g_signaling_server g0 = Some s \<and> ss_loop_running s \<and>
     g_rtc_server g0 = None \<and> rv_loop_running v"
  using assms
  by (auto simp: main_init_def then_init_def init_rtc_server_def init_signaling_server_def init_log_def init_general_conf_def program_new_def
      ss_start_def rv_start_def dest: init_no_thread split: prod.splits if_splits)

text \<open>
  Between the two last steps of every start the signaling server runs, and the pointer that its workers use to hand on a
  request is null.
\<close>

lemma signaling_before_rtc:
  assumes "main_init srtp K = (0, gs)"
  shows "\<exists>g\<in>set gs. (\<exists>s. g_signaling_server g = Some s \<and> ss_loop_running s) \<and> g_rtc_server g = None"
proof -
  obtain g0 s v where "gs = [(g0\<lparr> g_rtc_server := Some v \<rparr>), g0] @ tl (tl gs)" "g_signaling_server g0 = Some s" "ss_loop_running s" "g_rtc_server g0 = None"
    using started_servers [OF assms] by blast
  then show ?thesis
    by (metis append_Cons list.set_intros(1) list.set_intros(2))
qed

lemma signal_stops_both:
  assumes "g_signaling_server g = Some s" "g_rtc_server g = Some v" "ss_pipe s = Some ns" "rv_pipe v = Some ms"
  shows "map_option ss_pipe (g_signaling_server (signal_process SIGINT g)) = Some (Some (ns @ [SS_QUIT]))"
    "map_option rv_pipe (g_rtc_server (signal_process SIGINT g)) = Some (Some (ms @ [RTC_QUIT]))"
  using assms by (simp_all add: signal_process_def ss_stop_def ss_notify_def rv_stop_def rv_notify_def)

end
