(* ===== verification/Spec2Isabelle.thy ===== *)
theory Spec2Isabelle
  imports Stun_Props Ice_Props Ice_Agent Rtc_Props Json_Signaling Async_Udp_Socket Server_Main
begin

text \<open>
  \<^bold>\<open>Verification of xrtc-server\<close>, a WebRTC media server in C++ (\<^verbatim>\<open>src/\<close>).

  \<^bold>\<open>The program.\<close>  A client opens a TCP connection to the signaling server and sends one request, a binary header
  followed by a JSON body: push, pull, answer, stop push or stop pull.  The listening thread
  (\<^verbatim>\<open>server/signaling_server.cpp\<close>) deals connections out to signaling workers (\<^verbatim>\<open>server/signaling_worker.cpp\<close>), which
  frame and parse the request and hand a message to the RTC server (\<^verbatim>\<open>server/rtc_server.cpp\<close>).  The RTC server routes it
  by the hash of the stream name to an RTC worker (\<^verbatim>\<open>server/rtc_worker.cpp\<close>), whose stream manager
  (\<^verbatim>\<open>stream/rtc_stream_manager.cpp\<close>) creates, stops or answers a push or pull stream; the answer travels back the same way.
  Threads talk through pipes and queues, one of them lock-free (\<^verbatim>\<open>base/lock_free_queue.h\<close>).  A stream owns a peer
  connection (\<^verbatim>\<open>pc/peer_connection.cpp\<close>), which writes the SDP offer, parses the SDP answer and drives the transport
  controller (\<^verbatim>\<open>pc/transport_controller.cpp\<close>): an ICE agent with a channel per media section (\<^verbatim>\<open>ice/\<close>), on top of it a
  DTLS transport (\<^verbatim>\<open>pc/dtls_transport.cpp\<close>) and on top of that SRTP (\<^verbatim>\<open>pc/dtls_srtp_transport.cpp\<close>,
  \<^verbatim>\<open>pc/srtp_transport.cpp\<close>, \<^verbatim>\<open>pc/srtp_session.cpp\<close>).  Media that arrives on a push stream goes out on the pull stream of
  the same name.

  \<^bold>\<open>Conventions.\<close>
  \<^item> Objects are records with the fields of the class; an operation takes the object and returns it updated.  Where
    the code keeps pointers and lifetime matters (ICE connections, streams, TCP connections, queue nodes) there is
    a heap, a map from addresses to objects.
  \<^item> \<open>'a res\<close> (theory \<open>Prelude\<close>) is a result or a fault: an access out of bounds, a use after free, a double free, a null
    dereference, a bad downcast, an exception that nobody catches, a loop that does not end.  The definitions take the
    fault wherever the code would, so that an operation returning \<open>Inr\<close> is memory safe.
  \<^item> Integers that can wrap are words of their width; times in milliseconds that cannot are \<open>int\<close> with the narrowing
    written out (\<open>to_i32\<close>).  Strings and packets are byte lists.
  \<^item> A sigslot signal is either a call of the slot or an entry of an output log that the owner replays in order.
  \<^item> Loops whose end is not structural are \<open>partial_function (option)\<close>: not returning is \<open>None\<close>, and that they return is
    a theorem (\<open>stun_read_total\<close>, the clean-up loops of the queue, \<open>framing_independent_of_segmentation\<close>) or refuted by one
    (\<open>trailing_bytes_hang_worker\<close>).  Loops that ask the kernel in every round (\<open>write_loop\<close>, \<open>generic_accept\<close>,
    \<open>recv_data\<close>) recurse on the list of its answers, which is universally quantified; there is no other fuel.
  \<^item> Code outside the repository is a parameter: \<open>rtc_base\<close> (byte order, CRC-32, HMAC, byte buffers), \<open>ice_env\<close> (clock,
    random strings, tokenising, sockets), \<open>srtp_lib\<close>, \<open>dtls_env\<close> (the OpenSSL stream adapter), \<open>sdp_lib\<close>, \<open>json_lib\<close>, \<open>yaml\<close>,
    and the results of system calls.  What theorems need of them is stated in locales (\<open>byte_codec\<close>, \<open>ice_environment\<close>,
    \<open>srtp_library\<close>, \<open>dtls_environment\<close>, \<open>sdp_library\<close>), each interpreted on executable reference functions (\<open>rtc_ref\<close>,
    \<open>env_ref\<close>, \<open>dtls_ref\<close>, \<open>sdp_ref\<close>), which the witnesses use.  \<open>json_lib\<close> is a parameter of the signaling code only: its
    contract is the locale \<open>json_library\<close>, interpreted on \<open>nlohmann\<close>, the model of the vendored library.

  \<^bold>\<open>The theories, by component.\<close>
  \<^item> \<open>Prelude\<close>, \<open>Rtc_Base\<close>: faults, result monad, stable sort, words; the parameters for \<^verbatim>\<open>rtc_base\<close>.
  \<^item> STUN (\<^verbatim>\<open>ice/stun.*\<close>): \<open>Stun\<close> has messages, attributes, writing, reading, FINGERPRINT and MESSAGE-INTEGRITY; \<open>Stun_Codec\<close>
    the byte layout; \<open>Stun_Props\<close> that signed messages verify, that reading inverts writing and ends, what the
    fingerprint and integrity checks accept, and that the downcasts are sound.
  \<^item> ICE (\<^verbatim>\<open>ice/ice_connection.*\<close>, \<^verbatim>\<open>stun_request.*\<close>, \<^verbatim>\<open>ice_controller.*\<close>, \<^verbatim>\<open>udp_port.*\<close>, \<^verbatim>\<open>ice_transport_channel.*\<close>,
    \<^verbatim>\<open>ice_agent.*\<close>): \<open>Ice_Connection\<close>, \<open>Ice_Controller\<close> (with the specifications of sorting, switching and ping scheduling),
    \<open>Udp_Port\<close>, \<open>Ice_Channel\<close>; \<open>Ice_Invariant\<close>, \<open>Ice_Safety\<close> and \<open>Ice_Events\<close> carry the invariant of a channel through every
    handler; \<open>Ice_Props\<close> has reachability, the outcome of every datagram and timer, and destruction; \<open>Ice_Agent\<close> the
    aggregation and announcement of states.
  \<^item> Media transport: \<open>Rtp_Utils\<close>, \<open>Srtp\<close> (sessions with the global reference count), \<open>Dtls_Transport\<close>; \<open>Dtls_Props\<close> has the
    invariant of a transport, the record check, the installation of keys and the round trip of a packet between
    two transports with mirrored keys.
  \<^item> Session descriptions: \<open>Session_Description\<close> (data and printing), \<open>Sdp_Parser\<close> (\<^verbatim>\<open>set_remote_sdp\<close>), \<open>Sdp_Text\<close> (lemmas on
    lines and fields), \<open>Sdp_Props\<close> (printing and parsing round trip, the exceptions of the parser).
  \<^item> Peer connection: \<open>Transport_Controller\<close>, \<open>Peer_Connection\<close>; \<open>Transport_Props\<close> relates the published state to the states of
    the transports, \<open>Peer_Props\<close> the offer to what is read back of it.
  \<^item> Streams (\<^verbatim>\<open>stream/\<close>): \<open>Rtc_Stream\<close>; \<open>Stream_Props\<close> has the invariant of the stream manager, isolation of streams
    of different names, and the fault of a repeated push.
  \<^item> Servers: \<open>Signaling_Message\<close> (header, message record, the JSON accessors of \<^verbatim>\<open>base/json.hpp\<close> that are used),
    \<open>Socket\<close>, \<open>Signaling_Worker\<close>, \<open>Signaling_Server\<close>, \<open>Rtc_Server\<close> (server and worker); \<open>Signaling_Props\<close> has framing, the
    verdict on requests and the replies on the wire, \<open>Rtc_Props\<close> the routing of commands and the way back of the
    answer, which spans both servers.
  \<^item> JSON text (\<^verbatim>\<open>base/json.hpp\<close>): \<open>Json_Lexer\<close> (tokens, strings with escapes and UTF-8, the automaton of numbers and their
    conversion, white space), \<open>Json_Parser\<close> (the loop of \<^verbatim>\<open>sax_parse_internal\<close> with its stack, building the value),
    \<open>Json_Serializer\<close> (\<^verbatim>\<open>dump\<close>, \<^verbatim>\<open>dump_escaped\<close>, \<^verbatim>\<open>decode\<close>, \<^verbatim>\<open>dump_integer\<close>); \<open>Json_Strings\<close> shows that automaton and lexer decide
    well-formed UTF-8, that \<^verbatim>\<open>string_buffer\<close> always has room (\<open>dumper_ok\<close>) and that strings are read back, \<open>Json_Double\<close> that a decimal
    number becomes the nearest double, \<open>Json_Props\<close> the round trip of values and what the parser returns, and
    \<open>Json_Signaling\<close> what this means for requests and replies.
  \<^item> Infrastructure: \<open>Lock_Free_Queue\<close> (sequential refinement of a FIFO through the locale \<open>fifo_queue\<close>, and every interleaving
    of one producer and one consumer statement by statement), \<open>Event_Loop\<close> (watchers and masks over libev),
    \<open>Async_Udp_Socket\<close> (order and accounting of datagrams), \<open>Server_Config\<close> (configuration, networks, port
    allocator), \<open>Log\<close>, and \<open>Server_Main\<close>, the start of the program (\<^verbatim>\<open>main.cpp\<close>).

  \<^bold>\<open>Concurrency.\<close>  Each worker runs one event loop, so its handlers are atomic steps and the order of events is
  universally quantified (\<open>reaches\<close>, \<open>sm_reaches\<close>, \<open>tc_reaches\<close>, lists of events).  The lock-free queue is the one
  structure two threads touch without a lock, and it is modelled below the level of calls.  Queues under a mutex
  are lists.  Weak memory is not modelled: statements of the queue interleave sequentially consistently.

  \<^bold>\<open>Faults that the theorems exhibit.\<close>  The model keeps the behaviour of the code where it is wrong: a request (of the wrong
  type, or with a number too large for a double) that terminates the process or makes a worker loop, replies cut or repeated, a read of a deleted ICE
  connection after a timeout, a request deleted twice, a null fingerprint, a short MESSAGE-INTEGRITY that is read past its
  end.  Safety theorems say which inputs are excluded for these reasons and no others.

  \<^bold>\<open>Not modelled.\<close>  Log texts and \<^verbatim>\<open>to_string\<close> functions, the crash handler of \<^verbatim>\<open>main.cpp\<close>, the parts of the vendored
  \<^verbatim>\<open>base/json.hpp\<close> that the server does not call (binary formats, pointers, patches, iterators, pretty printing) and its \<^verbatim>\<open>dump_float\<close>, which is
  a parameter since no reply holds a double, the sign of a zero double, the third-party libraries, memory consumption, real time beyond the clock values handed to the handlers.
\<close>

end
